(* ===== verification/Prelude.thy ===== *)
theory Prelude
  imports Main "HOL-Library.List_Lexorder" "HOL-Library.Char_ord" "HOL-Library.Sublist"
    "HOL-Library.Monad_Syntax"
begin

text \<open>
  Shared vocabulary of the development: errors and fallible results, the part of the Go
  standard library the sources use on strings, integers and times, ordered key-value maps
  (the representation of Go maps and of BoltDB buckets) with their interface, and JSON
  documents with the field access of \<open>encoding/json\<close>.

  Go's \<open>string\<close> and \<open>[]byte\<close> are both the type \<^typ>\<open>string\<close>: a \<^typ>\<open>char\<close> is one byte.
\<close>

named_theorems go_simps "unfoldings of the Go library functions"
named_theorems json_simps "field access on JSON documents"

section \<open>Errors and results\<close>

text \<open>
  The sentinel errors of \<open>internal/domain/errors.go\<close>, which \<open>errors.Is\<close> recognises through
  wrapping, and every other error, which callers only propagate or print.
\<close>

datatype error = ErrNotFound | ErrAlreadyExists | ErrInvalidArgument | ErrMsg string

type_synonym 'a result = "error + 'a"

definition bindE :: "'a result \<Rightarrow> ('a \<Rightarrow> 'b result) \<Rightarrow> 'b result" where
  "bindE r f = (case r of Inl e \<Rightarrow> Inl e | Inr x \<Rightarrow> f x)"

fun mapE :: "('a \<Rightarrow> 'b result) \<Rightarrow> 'a list \<Rightarrow> 'b list result" where
  "mapE f [] = Inr []"
| "mapE f (x # xs) = bindE (f x) (\<lambda>y. bindE (mapE f xs) (\<lambda>ys. Inr (y # ys)))"

fun mapO :: "('a \<Rightarrow> 'b option) \<Rightarrow> 'a list \<Rightarrow> 'b list option" where
  "mapO f [] = Some []"
| "mapO f (x # xs) = (case f x of None \<Rightarrow> None
     | Some y \<Rightarrow> (case mapO f xs of None \<Rightarrow> None | Some ys \<Rightarrow> Some (y # ys)))"

definition of_option :: "error \<Rightarrow> 'a option \<Rightarrow> 'a result" where
  "of_option e x = (case x of None \<Rightarrow> Inl e | Some v \<Rightarrow> Inr v)"

definition is_ok :: "'a result \<Rightarrow> bool" where
  "is_ok r = (case r of Inl _ \<Rightarrow> False | Inr _ \<Rightarrow> True)"

definition ok_or :: "'a \<Rightarrow> 'a result \<Rightarrow> 'a" where
  "ok_or d r = (case r of Inl _ \<Rightarrow> d | Inr x \<Rightarrow> x)"

section \<open>Go integers and times\<close>

text \<open>
  \<open>int\<close> and \<open>int64\<close> arithmetic wraps at 64 bits; \<open>int64w\<close> is the wrap-around. A time is the
  number of nanoseconds since Go's zero time (1 January, year 1), so \<open>Time.IsZero\<close> is
  equality with 0. \<open>Time.Sub\<close> saturates at the bounds of a \<open>Duration\<close>.
\<close>

type_synonym time = int
type_synonym duration = int

definition int64w :: "int \<Rightarrow> int" where
  "int64w x = (x + 9223372036854775808) mod 18446744073709551616 - 9223372036854775808"

definition Second :: duration where
  "Second = 1000000000"

text \<open>\<open>time.Duration(n) * time.Second\<close>\<close>

definition seconds :: "int \<Rightarrow> duration" where
  "seconds n = int64w (n * Second)"

definition time_IsZero :: "time \<Rightarrow> bool" where
  "time_IsZero t \<longleftrightarrow> t = 0"

definition time_Add :: "time \<Rightarrow> duration \<Rightarrow> time" where
  "time_Add t d = t + d"

definition time_Sub :: "time \<Rightarrow> time \<Rightarrow> duration" where
  "time_Sub t u = max (- 9223372036854775808) (min 9223372036854775807 (t - u))"

definition time_After :: "time \<Rightarrow> time \<Rightarrow> bool" where
  "time_After t u \<longleftrightarrow> u < t"

definition time_Before :: "time \<Rightarrow> time \<Rightarrow> bool" where
  "time_Before t u \<longleftrightarrow> t < u"

text \<open>\<open>Time.Unix\<close> and \<open>Time.UnixMilli\<close>: the Unix epoch is 62135596800 seconds after the zero time.\<close>

definition unix_epoch :: time where
  "unix_epoch = 62135596800 * Second"

definition time_Unix :: "time \<Rightarrow> int" where
  "time_Unix t = (t - unix_epoch) div Second"

definition time_UnixMilli :: "time \<Rightarrow> int" where
  "time_UnixMilli t = (t - unix_epoch) div 1000000"

definition time_OfUnixMilli :: "int \<Rightarrow> time" where
  "time_OfUnixMilli ms = unix_epoch + ms * 1000000"

text \<open>Whole seconds whose duration does not overflow an \<open>int64\<close>.\<close>

definition secs_ok :: "int \<Rightarrow> bool" where
  "secs_ok n \<longleftrightarrow> -9223372036 \<le> n \<and> n \<le> 9223372036"

section \<open>Go strings\<close>

definition HasPrefix :: "string \<Rightarrow> string \<Rightarrow> bool" where
  "HasPrefix s p = prefix p s"

definition HasSuffix :: "string \<Rightarrow> string \<Rightarrow> bool" where
  "HasSuffix s p = suffix p s"

definition TrimPrefix :: "string \<Rightarrow> string \<Rightarrow> string" where
  "TrimPrefix s p = (if prefix p s then drop (length p) s else s)"

definition TrimSuffix :: "string \<Rightarrow> string \<Rightarrow> string" where
  "TrimSuffix s p = (if suffix p s then take (length s - length p) s else s)"

text \<open>\<open>strings.Contains\<close>\<close>

fun Contains :: "string \<Rightarrow> string \<Rightarrow> bool" where
  "Contains [] p = (p = [])"
| "Contains (c # s) p = (prefix p (c # s) \<or> Contains s p)"

text \<open>\<open>strings.Split\<close> with a one-byte separator: never empty.\<close>

fun Split :: "char \<Rightarrow> string \<Rightarrow> string list" where
  "Split c [] = [[]]"
| "Split c (x # s) =
     (if x = c then [] # Split c s
      else (case Split c s of [] \<Rightarrow> [[x]] | p # ps \<Rightarrow> (x # p) # ps))"

text \<open>\<open>strings.SplitN(s, sep, 2)\<close> with a one-byte separator: \<open>None\<close> when the separator does
  not occur (one part), otherwise the two parts.\<close>

fun SplitN2 :: "char \<Rightarrow> string \<Rightarrow> (string \<times> string) option" where
  "SplitN2 c [] = None"
| "SplitN2 c (x # s) =
     (if x = c then Some ([], s)
      else (case SplitN2 c s of None \<Rightarrow> None | Some (a, b) \<Rightarrow> Some (x # a, b)))"

fun Join :: "string list \<Rightarrow> string \<Rightarrow> string" where
  "Join [] sep = []"
| "Join [s] sep = s"
| "Join (s # t # ss) sep = s @ sep @ Join (t # ss) sep"

text \<open>\<open>strings.TrimSpace\<close> and \<open>strings.ToLower\<close> on ASCII.\<close>

definition is_space :: "char \<Rightarrow> bool" where
  "is_space c \<longleftrightarrow> c \<in> {CHR '' '', CHR 0x09, CHR 0x0A, CHR 0x0B, CHR 0x0C, CHR 0x0D}"

definition TrimSpace :: "string \<Rightarrow> string" where
  "TrimSpace s = rev (dropWhile is_space (rev (dropWhile is_space s)))"

definition lower_char :: "char \<Rightarrow> char" where
  "lower_char c = (if CHR ''A'' \<le> c \<and> c \<le> CHR ''Z'' then char_of (of_char c + 32 :: nat) else c)"

definition ToLower :: "string \<Rightarrow> string" where
  "ToLower s = map lower_char s"

section \<open>Ordered key-value maps\<close>

text \<open>
  A map is a list of bindings with strictly increasing keys. For a BoltDB bucket this is the
  order of its cursor (keys are compared bytewise); for a Go map it fixes one of the orders
  a \<open>range\<close> loop may take.
\<close>

type_synonym ('k, 'v) kv = "('k \<times> 'v) list"

fun kv_put :: "'k::linorder \<Rightarrow> 'v \<Rightarrow> ('k, 'v) kv \<Rightarrow> ('k, 'v) kv" where
  "kv_put k v [] = [(k, v)]"
| "kv_put k v ((a, b) # m) =
     (if k < a then (k, v) # (a, b) # m
      else if k = a then (k, v) # m
      else (a, b) # kv_put k v m)"

definition kv_get :: "('k, 'v) kv \<Rightarrow> 'k \<Rightarrow> 'v option" where
  "kv_get m k = map_of m k"

definition kv_del :: "'k \<Rightarrow> ('k, 'v) kv \<Rightarrow> ('k, 'v) kv" where
  "kv_del k m = filter (\<lambda>p. fst p \<noteq> k) m"

definition kv_keys :: "('k, 'v) kv \<Rightarrow> 'k list" where
  "kv_keys m = map fst m"

definition kv_wf :: "('k::linorder, 'v) kv \<Rightarrow> bool" where
  "kv_wf m = sorted_wrt (<) (map fst m)"

text \<open>Keep the bindings whose value a function keeps, with the value it gives: a \<open>range\<close> loop
  that deletes or rewrites the current key.\<close>

fun kv_update_all :: "('k \<Rightarrow> 'v \<Rightarrow> 'w option) \<Rightarrow> ('k, 'v) kv \<Rightarrow> ('k, 'w) kv" where
  "kv_update_all f [] = []"
| "kv_update_all f ((k, v) # m) =
     (case f k v of None \<Rightarrow> kv_update_all f m | Some w \<Rightarrow> (k, w) # kv_update_all f m)"

section \<open>JSON documents\<close>

text \<open>
  A byte slice that holds a JSON document is modelled by the document. \<open>JB64 d\<close> is the JSON
  string that carries the bytes of \<open>d\<close> in base64, the encoding of a \<open>[]byte\<close> field. \<open>JBad\<close>
  stands for bytes that are no JSON document. Every number of the program's documents is an
  integer.
\<close>

datatype json = JNull | JBool bool | JNum int | JStr string | JArr "json list"
  | JObj "(string \<times> json) list" | JB64 json | JBad

type_synonym fields = "(string \<times> json) list"

text \<open>A struct field with \<open>omitempty\<close> is written only when it is not empty.\<close>

definition jopt :: "bool \<Rightarrow> string \<Rightarrow> json \<Rightarrow> fields \<Rightarrow> fields" where
  "jopt c k v fs = (if c then (k, v) # fs else fs)"

definition jreq :: "string \<Rightarrow> json \<Rightarrow> fields \<Rightarrow> fields" where
  "jreq k v fs = (k, v) # fs"

fun jlookup :: "fields \<Rightarrow> string \<Rightarrow> json option" where
  "jlookup [] k = None"
| "jlookup ((a, v) # fs) k = (if a = k then Some v else jlookup fs k)"

text \<open>Decoding into a struct: \<open>null\<close> leaves every field at its zero value, a document that is
  not an object is an error.\<close>

fun jobj :: "json \<Rightarrow> fields option" where
  "jobj (JObj fs) = Some fs"
| "jobj JNull = Some []"
| "jobj _ = None"

definition jfield :: "'a \<Rightarrow> (json \<Rightarrow> 'a option) \<Rightarrow> fields \<Rightarrow> string \<Rightarrow> 'a option" where
  "jfield z dec fs k = (case jlookup fs k of None \<Rightarrow> Some z | Some JNull \<Rightarrow> Some z | Some v \<Rightarrow> dec v)"

fun dec_str :: "json \<Rightarrow> string option" where
  "dec_str (JStr s) = Some s"
| "dec_str _ = None"

fun dec_int :: "json \<Rightarrow> int option" where
  "dec_int (JNum n) = Some n"
| "dec_int _ = None"

fun dec_bool :: "json \<Rightarrow> bool option" where
  "dec_bool (JBool b) = Some b"
| "dec_bool _ = None"

fun dec_arr :: "(json \<Rightarrow> 'a option) \<Rightarrow> json \<Rightarrow> 'a list option" where
  "dec_arr dec (JArr xs) = mapO dec xs"
| "dec_arr dec _ = None"

definition jstr :: "fields \<Rightarrow> string \<Rightarrow> string option" where
  "jstr = jfield [] dec_str"

definition jint :: "fields \<Rightarrow> string \<Rightarrow> int option" where
  "jint = jfield 0 dec_int"

definition jbool :: "fields \<Rightarrow> string \<Rightarrow> bool option" where
  "jbool = jfield False dec_bool"

definition jstrs :: "fields \<Rightarrow> string \<Rightarrow> string list option" where
  "jstrs = jfield [] (dec_arr dec_str)"

definition jlist :: "(json \<Rightarrow> 'a option) \<Rightarrow> fields \<Rightarrow> string \<Rightarrow> 'a list option" where
  "jlist dec = jfield [] (dec_arr dec)"

definition JStrs :: "string list \<Rightarrow> json" where
  "JStrs ss = JArr (map JStr ss)"

section \<open>Lemmas on results\<close>

lemma bindE_simps [simp]:
  "bindE (Inl e) f = Inl e"
  "bindE (Inr x) f = f x"
  by (simp_all add: bindE_def)

lemma bindE_Inr_iff: "bindE r f = Inr y \<longleftrightarrow> (\<exists>x. r = Inr x \<and> f x = Inr y)"
  by (cases r) auto

lemma bindE_Inr_cong:
  assumes "r = Inr x" shows "bindE r f = f x"
  using assms by simp

lemma bindE_InrE:
  assumes "bindE r f = Inr y"
  obtains x where "r = Inr x" and "f x = Inr y"
  using assms by (auto simp: bindE_Inr_iff)

lemma is_ok_simps [simp]: "\<not> is_ok (Inl e)" "is_ok (Inr x)"
  by (simp_all add: is_ok_def)

lemma ok_or_simps [simp]: "ok_or d (Inl e) = d" "ok_or d (Inr x) = x"
  by (simp_all add: ok_or_def)

lemma of_option_simps [simp]: "of_option e None = Inl e" "of_option e (Some x) = Inr x"
  by (simp_all add: of_option_def)

lemma mapE_ok: "(\<And>x. x \<in> set xs \<Longrightarrow> f x = Inr (g x)) \<Longrightarrow> mapE f xs = Inr (map g xs)"
  by (induction xs) auto

lemma mapE_length: "mapE f xs = Inr ys \<Longrightarrow> length ys = length xs"
  by (induction xs arbitrary: ys) (auto simp: bindE_Inr_iff)

lemma mapE_mapE:
  "(\<And>x y. x \<in> set xs \<Longrightarrow> f x = Inr y \<Longrightarrow> g y = Inr x) \<Longrightarrow> mapE f xs = Inr ys \<Longrightarrow> mapE g ys = Inr xs"
proof (induction xs arbitrary: ys)
  case Nil
  then show ?case by simp
next
  case (Cons x xs)
  from Cons.prems(2) obtain y zs where y: "f x = Inr y" and zs: "mapE f xs = Inr zs"
    and ys: "ys = y # zs" by (auto simp: bindE_Inr_iff)
  have "mapE g zs = Inr xs" using Cons.IH Cons.prems(1) zs by simp
  moreover have "g y = Inr x" using Cons.prems(1) [of x y] y by simp
  ultimately show ?case using ys by simp
qed

lemma mapO_map: "(\<And>x. x \<in> set xs \<Longrightarrow> dec (enc x) = Some x) \<Longrightarrow> mapO dec (map enc xs) = Some xs"
  by (induction xs) auto

section \<open>Lemmas on integers and times\<close>

lemma int64w_id: "-9223372036854775808 \<le> x \<Longrightarrow> x < 9223372036854775808 \<Longrightarrow> int64w x = x"
  by (simp add: int64w_def)

lemma int64w_range: "-9223372036854775808 \<le> int64w x" "int64w x < 9223372036854775808"
  by (simp_all add: int64w_def)

lemma seconds_ok: "secs_ok n \<Longrightarrow> seconds n = n * Second"
  by (simp add: seconds_def secs_ok_def Second_def int64w_id)

lemma seconds_range: "-9223372036854775808 \<le> seconds n" "seconds n \<le> 9223372036854775807"
  using int64w_range [of "n * Second"] by (simp_all add: seconds_def)

lemma seconds_pos: "secs_ok n \<Longrightarrow> 0 < n \<Longrightarrow> 0 < seconds n"
  by (simp add: seconds_ok Second_def)

lemmas time_defs [go_simps] =
  time_IsZero_def time_Add_def time_After_def time_Before_def

lemma time_Sub_less [go_simps]:
  "-9223372036854775808 < d \<Longrightarrow> d \<le> 9223372036854775807 \<Longrightarrow> time_Sub t u < d \<longleftrightarrow> t - u < d"
  by (auto simp: time_Sub_def max_def min_def)

lemma time_Sub_le:
  "-9223372036854775808 \<le> d \<Longrightarrow> d < 9223372036854775807 \<Longrightarrow> time_Sub t u \<le> d \<longleftrightarrow> t - u \<le> d"
  by (auto simp: time_Sub_def max_def min_def)

section \<open>Lemmas on strings\<close>

lemma HasPrefix_append [simp]: "HasPrefix (p @ s) p"
  by (simp add: HasPrefix_def)

lemma TrimPrefix_append [simp]: "TrimPrefix (p @ s) p = s"
  by (simp add: TrimPrefix_def)

lemma TrimSuffix_append [simp]: "TrimSuffix (s @ p) p = s"
  by (simp add: TrimSuffix_def suffix_def)

lemma Split_nonempty [simp]: "Split c s \<noteq> []"
  by (cases s) (auto split: list.splits)

lemma hd_Split: "hd (Split c s) = takeWhile (\<lambda>x. x \<noteq> c) s"
proof (induction s)
  case Nil
  then show ?case by simp
next
  case (Cons x s)
  then show ?case by (cases "Split c s") auto
qed

lemma Split_no_sep: "c \<notin> set s \<Longrightarrow> Split c s = [s]"
  by (induction s) (auto split: list.splits)

lemma Split_append_sep: "Split c (s @ c # t) = Split c s @ Split c t"
proof (induction s)
  case Nil
  then show ?case by simp
next
  case (Cons x s)
  then show ?case by (cases "Split c s") auto
qed

lemma Split_part: "x \<in> set (Split c s) \<Longrightarrow> c \<notin> set x \<and> set x \<subseteq> set s"
proof (induction s arbitrary: x)
  case (Cons a s)
  obtain p ps where ps: "Split c s = p # ps" by (cases "Split c s") auto
  have "c \<notin> set p \<and> set p \<subseteq> set s" using Cons.IH [of p] ps by simp
  then show ?case using Cons.prems Cons.IH [of x] ps by (auto split: if_splits)
qed simp

lemma Join_Split: "Join (Split c s) [c] = s"
proof (induction s)
  case Nil
  then show ?case by simp
next
  case (Cons x s)
  then show ?case by (cases "Split c s" rule: list.exhaust; cases "tl (Split c s)") auto
qed

lemma Split_Join:
  assumes "l \<noteq> []" "\<forall>x \<in> set l. c \<notin> set x"
  shows "Split c (Join l [c]) = l"
  using assms
proof (induction l rule: induct_list012)
  case (3 x y zs)
  then have "Split c (Join (y # zs) [c]) = y # zs" by simp
  moreover have "Split c x = [x]" using 3(4) by (simp add: Split_no_sep)
  ultimately show ?case by (simp add: Split_append_sep)
qed (simp_all add: Split_no_sep)

lemma SplitN2_append: "c \<notin> set a \<Longrightarrow> SplitN2 c (a @ c # b) = Some (a, b)"
  by (induction a) auto

lemma SplitN2_Some: "SplitN2 c s = Some (a, b) \<Longrightarrow> s = a @ c # b \<and> c \<notin> set a"
proof (induction s arbitrary: a)
  case (Cons x s)
  show ?case
  proof (cases "x = c")
    case False
    with Cons.prems obtain a' where "SplitN2 c s = Some (a', b)" "a = x # a'"
      by (cases "SplitN2 c s") auto
    with Cons.IH False show ?thesis by auto
  qed (use Cons.prems in simp)
qed simp

section \<open>The map interface\<close>

locale kv_map =
  fixes get :: "'m \<Rightarrow> 'k::linorder \<Rightarrow> 'v option"
    and put :: "'k \<Rightarrow> 'v \<Rightarrow> 'm \<Rightarrow> 'm"
    and del :: "'k \<Rightarrow> 'm \<Rightarrow> 'm"
    and keys :: "'m \<Rightarrow> 'k list"
    and wf :: "'m \<Rightarrow> bool"
  assumes get_put: "get (put k v m) k' = (if k' = k then Some v else get m k')"
    and get_del: "get (del k m) k' = (if k' = k then None else get m k')"
    and wf_put: "wf m \<Longrightarrow> wf (put k v m)"
    and wf_del: "wf m \<Longrightarrow> wf (del k m)"
    and mem_keys: "k \<in> set (keys m) \<longleftrightarrow> get m k \<noteq> None"
    and keys_sorted: "wf m \<Longrightarrow> sorted_wrt (<) (keys m)"
    and ext: "wf m \<Longrightarrow> wf m' \<Longrightarrow> (\<And>k. get m k = get m' k) \<Longrightarrow> m = m'"
begin

lemma put_put: "wf m \<Longrightarrow> put k v (put k w m) = put k v m"
  by (rule ext) (auto simp: get_put wf_put)

lemma put_commute: "wf m \<Longrightarrow> k \<noteq> l \<Longrightarrow> put k v (put l w m) = put l w (put k v m)"
  by (rule ext) (auto simp: get_put wf_put)

lemma del_put: "wf m \<Longrightarrow> del k (put k v m) = del k m"
  by (rule ext) (auto simp: get_put get_del wf_put wf_del)

lemma put_same: "wf m \<Longrightarrow> get m k = Some v \<Longrightarrow> put k v m = m"
  by (rule ext) (auto simp: get_put wf_put)

lemma keys_put: "set (keys (put k v m)) = insert k (set (keys m))"
  by (auto simp: mem_keys get_put split: if_splits)

lemma keys_del: "set (keys (del k m)) = set (keys m) - {k}"
  by (auto simp: mem_keys get_del split: if_splits)

end

lemma kv_get_put: "kv_get (kv_put k v m) k' = (if k' = k then Some v else kv_get m k')"
  by (induction m) (auto simp: kv_get_def)

lemma kv_get_del: "kv_get (kv_del k m) k' = (if k' = k then None else kv_get m k')"
  by (induction m) (auto simp: kv_get_def kv_del_def)

lemma kv_put_keys: "fst ` set (kv_put k v m) = insert k (fst ` set m)"
proof (induction m)
  case (Cons p m)
  then show ?case by (cases p) auto
qed simp

lemma kv_wf_Cons: "kv_wf ((k, v) # m) \<longleftrightarrow> (\<forall>x \<in> fst ` set m. k < x) \<and> kv_wf m"
  by (simp add: kv_wf_def)

lemma kv_wf_Nil [simp]: "kv_wf []"
  by (simp add: kv_wf_def)

lemma kv_wf_put: "kv_wf m \<Longrightarrow> kv_wf (kv_put k v m)"
proof (induction m)
  case (Cons p m)
  then show ?case
    by (cases p) (force simp: kv_wf_Cons kv_put_keys)
qed (simp add: kv_wf_def)

lemma kv_wf_del: "kv_wf m \<Longrightarrow> kv_wf (kv_del k m)"
  by (simp add: kv_wf_def kv_del_def sorted_wrt_map sorted_wrt_filter)

lemma kv_mem_keys: "k \<in> set (kv_keys m) \<longleftrightarrow> kv_get m k \<noteq> None"
  by (auto simp: kv_keys_def kv_get_def map_of_eq_None_iff)

lemma kv_ext:
  assumes "kv_wf m" "kv_wf m'" "\<And>k. kv_get m k = kv_get m' k"
  shows "m = m'"
proof -
  have d: "distinct (map fst m)" "distinct (map fst m')"
    using assms(1,2) strict_sorted_iff by (auto simp: kv_wf_def)
  have "map_of m = map_of m'" using assms(3) by (auto simp: kv_get_def fun_eq_iff)
  then have s: "set m = set m'" using map_of_inject_set [OF d] by simp
  show ?thesis
  proof (rule map_sorted_distinct_set_unique)
    show "inj_on fst (set m \<union> set m')" using d s by (simp add: distinct_map)
  qed (use assms(1,2) d s in \<open>auto simp: kv_wf_def strict_sorted_iff\<close>)
qed

interpretation kvm: kv_map kv_get kv_put kv_del kv_keys kv_wf
proof unfold_locales
  fix m :: "('k::linorder, 'v) kv"
  show "kv_wf m \<Longrightarrow> sorted_wrt (<) (kv_keys m)"
    by (simp add: kv_wf_def kv_keys_def)
qed (simp_all add: kv_get_put kv_get_del kv_wf_put kv_wf_del kv_mem_keys kv_ext)

lemma kv_get_Nil [simp]: "kv_get [] k = None"
  by (simp add: kv_get_def)

lemma kv_get_Cons: "kv_get ((a, v) # m) k = (if k = a then Some v else kv_get m k)"
  by (simp add: kv_get_def)

lemma kv_update_all_keys: "fst ` set (kv_update_all f m) \<subseteq> fst ` set m"
  by (induction f m rule: kv_update_all.induct) (auto split: option.splits)

lemma kv_wf_update_all: "kv_wf m \<Longrightarrow> kv_wf (kv_update_all f m)"
proof (induction f m rule: kv_update_all.induct)
  case (2 f k v m)
  then show ?case
    using kv_update_all_keys [of f m] by (fastforce simp: kv_wf_Cons split: option.splits)
qed simp

lemma kv_get_notin: "k \<notin> fst ` set m \<Longrightarrow> kv_get m k = None"
  by (simp add: kv_get_def map_of_eq_None_iff)

lemma kv_get_update_all:
  "kv_wf m \<Longrightarrow> kv_get (kv_update_all f m) k = (case kv_get m k of None \<Rightarrow> None | Some v \<Rightarrow> f k v)"
proof (induction f m rule: kv_update_all.induct)
  case (2 f a v m)
  have "a \<notin> fst ` set m" using "2.prems" by (auto simp: kv_wf_Cons)
  then have "kv_get m a = None" by (rule kv_get_notin)
  then show ?case using 2 by (auto simp: kv_wf_Cons kv_get_Cons split: option.splits)
qed simp

text \<open>A cursor positioned at a prefix enumerates exactly the keys with that prefix.\<close>

lemma prefix_between: "prefix p y \<Longrightarrow> p \<le> x \<Longrightarrow> x \<le> y \<Longrightarrow> prefix p (x :: string)"
proof (induction p arbitrary: x y)
  case (Cons c p)
  then obtain y' where y: "y = c # y'" "prefix p y'" by (cases y) auto
  then obtain x' where "x = c # x'" "p \<le> x'" "x' \<le> y'"
    using Cons.prems by (cases x) auto
  then show ?case using Cons.IH y by auto
qed simp

lemma prefix_ge: "prefix p (k :: string) \<Longrightarrow> p \<le> k"
proof (induction p arbitrary: k)
  case (Cons c p)
  then show ?case by (cases k) auto
qed simp

lemma sorted_seek_prefix:
  fixes ks :: "string list"
  assumes "sorted_wrt (<) ks"
  shows "takeWhile (prefix p) (dropWhile (\<lambda>k. k < p) ks) = filter (prefix p) ks"
  using assms
proof (induction ks)
  case (Cons k ks)
  show ?case
  proof (cases "k < p")
    case True
    then have "\<not> prefix p k" using prefix_ge by fastforce
    with True Cons show ?thesis by simp
  next
    case False
    have ge: "\<forall>x \<in> set ks. \<not> x < p" using False Cons.prems by auto
    then have dw: "dropWhile (\<lambda>k. k < p) ks = ks"
      by (cases ks) auto
    have "\<not> prefix p k \<Longrightarrow> x \<in> set ks \<Longrightarrow> \<not> prefix p x" for x
      using prefix_between [of p x k] False Cons.prems by (auto simp: not_less less_imp_le)
    with False dw Cons show ?thesis by (cases "prefix p k") (auto simp: filter_empty_conv)
  qed
qed simp

section \<open>Lemmas on JSON documents\<close>

lemma jlookup_jopt [json_simps]:
  "jlookup (jopt c a v fs) k = (if c \<and> a = k then Some v else jlookup fs k)"
  by (simp add: jopt_def)

lemma jlookup_jreq [json_simps]: "jlookup (jreq a v fs) k = (if a = k then Some v else jlookup fs k)"
  by (simp add: jreq_def)

lemma dec_arr_strs [json_simps]: "dec_arr dec_str (JStrs ss) = Some ss"
  by (simp add: JStrs_def mapO_map)

lemma JStrs_not_null [json_simps]: "JStrs ss \<noteq> JNull"
  by (simp add: JStrs_def)

lemma jfield_none: "jlookup fs k = None \<Longrightarrow> jfield z dec fs k = Some z"
  by (simp add: jfield_def)

lemma jfield_some: "jlookup fs k = Some v \<Longrightarrow> v \<noteq> JNull \<Longrightarrow> jfield z dec fs k = dec v"
  by (cases v) (auto simp: jfield_def)

text \<open>A field read back from a struct's fields: the one written under its key, if its value is
  the zero value exactly when \<open>omitempty\<close> drops it.\<close>

lemma jfield_other [json_simps]:
  "a \<noteq> k \<Longrightarrow> jfield z dec (jreq a v fs) k = jfield z dec fs k"
  "a \<noteq> k \<Longrightarrow> jfield z dec (jopt c a v fs) k = jfield z dec fs k"
  by (simp_all add: jfield_def jlookup_jreq jlookup_jopt)

lemma jfield_here [json_simps]:
  "v \<noteq> JNull \<Longrightarrow> jfield z dec (jreq k v fs) k = dec v"
  by (simp add: jfield_some jlookup_jreq)

lemma jfield_opt:
  assumes "jlookup fs k = None" "c \<Longrightarrow> v \<noteq> JNull \<and> dec v = Some x" "\<not> c \<Longrightarrow> x = z"
  shows "jfield z dec (jopt c k v fs) k = Some x"
  using assms by (cases c) (simp_all add: jfield_some jfield_none jlookup_jopt)

lemma jaccess_opt [json_simps]:
  "jlookup fs k = None \<Longrightarrow> jfield [] dec_str (jopt (s \<noteq> []) k (JStr s) fs) k = Some s"
  "jlookup fs k = None \<Longrightarrow> jfield 0 dec_int (jopt (n \<noteq> 0) k (JNum n) fs) k = Some n"
  "jlookup fs k = None \<Longrightarrow> jfield False dec_bool (jopt b k (JBool b) fs) k = Some b"
  "jlookup fs k = None \<Longrightarrow> jfield [] (dec_arr dec_str) (jopt (ss \<noteq> []) k (JStrs ss) fs) k = Some ss"
  by (rule jfield_opt; simp add: json_simps)+

lemma jlist_opt:
  "jlookup fs k = None \<Longrightarrow> dec_arr dec (JArr (map enc xs)) = Some xs \<Longrightarrow>
     jfield [] (dec_arr dec) (jopt (xs \<noteq> []) k (JArr (map enc xs)) fs) k = Some xs"
  by (rule jfield_opt) simp_all

lemmas jaccess [json_simps] = jstr_def jint_def jbool_def jstrs_def jlist_def

text \<open>The ends of a sorted list bound its elements.\<close>

lemma sorted_ends: "sorted xs \<Longrightarrow> x \<in> set xs \<Longrightarrow> hd xs \<le> x \<and> x \<le> last (xs :: 'a :: linorder list)"
  by (induction xs) (auto simp: last_in_set)

end
