(* ===== verification/Encoding.thy ===== *)
theory Encoding
  imports Prelude
begin

text \<open>
  The byte encodings of the Go standard library the program relies on: \<open>encoding/hex\<close> and
  \<open>encoding/base64\<close> (\<open>StdEncoding\<close>, padded, and \<open>RawURLEncoding\<close>, unpadded), and the
  interface every encoder/decoder pair of the development satisfies.
\<close>

section \<open>Hexadecimal\<close>

definition hex_digits :: string where
  "hex_digits = ''0123456789abcdef''"

definition hex_EncodeToString :: "string \<Rightarrow> string" where
  "hex_EncodeToString bs = concat (map (\<lambda>b. [hex_digits ! (of_char b div 16), hex_digits ! (of_char b mod 16)]) bs)"

section \<open>Base64\<close>

definition std_alphabet :: string where
  "std_alphabet = ''ABCDEFGHIJKLMNOPQRSTUVWXYZabcdefghijklmnopqrstuvwxyz0123456789+/''"

definition url_alphabet :: string where
  "url_alphabet = ''ABCDEFGHIJKLMNOPQRSTUVWXYZabcdefghijklmnopqrstuvwxyz0123456789-_''"

fun alpha_index :: "string \<Rightarrow> char \<Rightarrow> nat option" where
  "alpha_index [] c = None"
| "alpha_index (a # al) c = (if a = c then Some 0 else map_option Suc (alpha_index al c))"

text \<open>Three bytes are four groups of six bits.\<close>

fun sextets :: "nat list \<Rightarrow> nat list" where
  "sextets [] = []"
| "sextets [a] = [a div 4, (a mod 4) * 16]"
| "sextets [a, b] = [a div 4, (a mod 4) * 16 + b div 16, (b mod 16) * 4]"
| "sextets (a # b # c # r) =
     a div 4 # ((a mod 4) * 16 + b div 16) # ((b mod 16) * 4 + c div 64) # (c mod 64) # sextets r"

fun unsextets :: "nat list \<Rightarrow> nat list option" where
  "unsextets [] = Some []"
| "unsextets [w] = None"
| "unsextets [w, x] = Some [w * 4 + x div 16]"
| "unsextets [w, x, y] = Some [w * 4 + x div 16, (x mod 16) * 16 + y div 4]"
| "unsextets (w # x # y # z # r) =
     map_option (\<lambda>bs. (w * 4 + x div 16) # ((x mod 16) * 16 + y div 4) # ((y mod 4) * 64 + z) # bs)
       (unsextets r)"

definition b64_enc :: "string \<Rightarrow> string \<Rightarrow> string" where
  "b64_enc al bs = map (\<lambda>n. al ! n) (sextets (map of_char bs))"

definition b64_dec :: "string \<Rightarrow> string \<Rightarrow> string option" where
  "b64_dec al s = (case mapO (alpha_index al) s of None \<Rightarrow> None
     | Some ns \<Rightarrow> map_option (map char_of) (unsextets ns))"

text \<open>The decoders skip carriage returns and line feeds.\<close>

definition strip_newlines :: "string \<Rightarrow> string" where
  "strip_newlines s = filter (\<lambda>c. c \<noteq> CHR 0x0A \<and> c \<noteq> CHR 0x0D) s"

definition base64_RawURL_Encode :: "string \<Rightarrow> string" where
  "base64_RawURL_Encode bs = b64_enc url_alphabet bs"

definition base64_RawURL_Decode :: "string \<Rightarrow> string option" where
  "base64_RawURL_Decode s = b64_dec url_alphabet (strip_newlines s)"

definition pad4 :: "string \<Rightarrow> string" where
  "pad4 s = s @ replicate ((4 - length s mod 4) mod 4) CHR ''=''"

definition unpad4 :: "string \<Rightarrow> string option" where
  "unpad4 s = (if length s mod 4 \<noteq> 0 then None
     else if suffix ''=='' s then Some (take (length s - 2) s)
     else if suffix ''='' s then Some (take (length s - 1) s)
     else Some s)"

definition base64_Std_Encode :: "string \<Rightarrow> string" where
  "base64_Std_Encode bs = pad4 (b64_enc std_alphabet bs)"

definition base64_Std_Decode :: "string \<Rightarrow> string option" where
  "base64_Std_Decode s = (case unpad4 (strip_newlines s) of None \<Rightarrow> None | Some t \<Rightarrow> b64_dec std_alphabet t)"

section \<open>The codec interface\<close>

text \<open>An encoder with a decoder that undoes it on the valid values. Decoding an encoded value
  gives it back, so encoding is injective and a decoded list of encodings is the list.\<close>

locale codec =
  fixes enc :: "'a \<Rightarrow> 'b" and dec :: "'b \<Rightarrow> 'a option" and valid :: "'a \<Rightarrow> bool"
  assumes dec_enc: "valid x \<Longrightarrow> dec (enc x) = Some x"
begin

lemma enc_inject: "valid x \<Longrightarrow> valid y \<Longrightarrow> enc x = enc y \<longleftrightarrow> x = y"
  by (metis dec_enc option.inject)

lemma dec_enc_list: "\<forall>x \<in> set xs. valid x \<Longrightarrow> mapO dec (map enc xs) = Some xs"
  by (rule mapO_map) (simp add: dec_enc)

end

section \<open>Round trips\<close>

lemma alpha_index_nth: "distinct al \<Longrightarrow> n < length al \<Longrightarrow> alpha_index al (al ! n) = Some n"
proof (induction al arbitrary: n)
  case (Cons a al)
  then show ?case by (cases n) auto
qed simp

lemma std_index: "n < 64 \<Longrightarrow> alpha_index std_alphabet (std_alphabet ! n) = Some n"
  by (rule alpha_index_nth) (simp_all add: std_alphabet_def)

lemma url_index: "n < 64 \<Longrightarrow> alpha_index url_alphabet (url_alphabet ! n) = Some n"
  by (rule alpha_index_nth) (simp_all add: url_alphabet_def)

lemma sextets_bound: "\<forall>b \<in> set bs. b < 256 \<Longrightarrow> n \<in> set (sextets bs) \<Longrightarrow> n < 64"
proof (induction bs rule: sextets.induct)
  case (4 a b c r)
  then show ?case
    by (auto; presburger)
qed auto

lemma unsextets_sextets: "\<forall>b \<in> set bs. b < 256 \<Longrightarrow> unsextets (sextets bs) = Some bs"
proof (induction bs rule: sextets.induct)
  case (4 a b c r)
  then have "unsextets (sextets r) = Some r" by simp
  moreover have "a < 256" "b < 256" "c < 256" using "4.prems" by simp_all
  ultimately show ?case by (auto simp: algebra_simps)
qed auto

lemma b64_dec_enc:
  assumes "\<And>n. n < 64 \<Longrightarrow> alpha_index al (al ! n) = Some n"
  shows "b64_dec al (b64_enc al bs) = Some bs"
proof -
  let ?ns = "sextets (map of_char bs)"
  have b: "\<forall>b \<in> set (map of_char bs). b < (256::nat)" by auto
  have "mapO (alpha_index al) (map ((!) al) ?ns) = Some ?ns"
    by (rule mapO_map) (use sextets_bound [OF b] assms in auto)
  then show ?thesis
    by (simp add: b64_dec_def b64_enc_def unsextets_sextets [OF b] comp_def)
qed

lemma alpha_set:
  "set (b64_enc al bs) \<subseteq> set (take 64 al)" if "length al \<ge> 64"
proof -
  have b: "\<forall>b \<in> set (map of_char bs). b < (256::nat)" by auto
  show ?thesis
    using sextets_bound [OF b] that
    by (auto simp: b64_enc_def in_set_conv_nth) (metis length_take min_def nth_take)
qed

lemma strip_id: "CHR 0x0A \<notin> set s \<Longrightarrow> CHR 0x0D \<notin> set s \<Longrightarrow> strip_newlines s = s"
  by (auto simp: strip_newlines_def filter_id_conv)

lemma url_chars: "set (base64_RawURL_Encode bs) \<subseteq> set url_alphabet"
  using alpha_set [of url_alphabet bs]
  by (simp add: base64_RawURL_Encode_def url_alphabet_def)

lemma url_no_dot: "CHR ''.'' \<notin> set (base64_RawURL_Encode bs)"
  using url_chars [of bs] by (auto simp: url_alphabet_def)

lemma RawURL_roundtrip: "base64_RawURL_Decode (base64_RawURL_Encode bs) = Some bs"
proof -
  have "strip_newlines (base64_RawURL_Encode bs) = base64_RawURL_Encode bs"
    by (rule strip_id) (use url_chars [of bs] in \<open>auto simp: url_alphabet_def\<close>)
  then show ?thesis
    by (simp add: base64_RawURL_Decode_def base64_RawURL_Encode_def b64_dec_enc url_index)
qed

lemma std_chars: "set (b64_enc std_alphabet bs) \<subseteq> set std_alphabet"
  using alpha_set [of std_alphabet bs] by (simp add: std_alphabet_def)

lemma sextets_length: "length (sextets bs) mod 4 \<noteq> 1"
  by (induction bs rule: sextets.induct) auto

lemma unpad4_pad4:
  assumes "CHR ''='' \<notin> set s" "length s mod 4 \<noteq> 1"
  shows "unpad4 (pad4 s) = Some s"
proof -
  have ns: "\<not> suffix ''='' s" "\<not> suffix ''=='' s"
    using assms(1) by (auto simp: suffix_def)
  consider "length s mod 4 = 0" | "length s mod 4 = 2" | "length s mod 4 = 3"
  proof -
    have "length s mod 4 < 4" by simp
    with assms(2) have "length s mod 4 = 0 \<or> length s mod 4 = 2 \<or> length s mod 4 = 3"
      by linarith
    then show ?thesis using that by (elim disjE) simp_all
  qed
  then show ?thesis
  proof cases
    case 1
    then show ?thesis using ns by (simp add: pad4_def unpad4_def)
  next
    case 2
    have "length (s @ ''=='') mod 4 = 0" using 2 by simp presburger
    then show ?thesis using 2 by (simp add: pad4_def unpad4_def suffix_def numeral_2_eq_2)
  next
    case 3
    have "length (s @ ''='') mod 4 = 0" using 3 by simp presburger
    moreover have "\<not> suffix ''=='' (s @ ''='')" using assms(1)
      by (auto simp: suffix_def)
    ultimately show ?thesis using 3 by (simp add: pad4_def unpad4_def suffix_def)
  qed
qed

lemma Std_roundtrip: "base64_Std_Decode (base64_Std_Encode bs) = Some bs"
proof -
  let ?e = "b64_enc std_alphabet bs"
  have c: "CHR ''='' \<notin> set ?e" "CHR 0x0A \<notin> set ?e" "CHR 0x0D \<notin> set ?e"
    using std_chars [of bs] by (auto simp: std_alphabet_def)
  have "strip_newlines (pad4 ?e) = pad4 ?e"
    by (rule strip_id) (use c in \<open>auto simp: pad4_def\<close>)
  moreover have "unpad4 (pad4 ?e) = Some ?e"
    using c sextets_length by (intro unpad4_pad4) (simp_all add: b64_enc_def)
  ultimately show ?thesis
    by (simp add: base64_Std_Decode_def base64_Std_Encode_def b64_dec_enc std_index)
qed

interpretation rawurl: codec base64_RawURL_Encode base64_RawURL_Decode "\<lambda>_. True"
  by unfold_locales (rule RawURL_roundtrip)

interpretation stdb64: codec base64_Std_Encode base64_Std_Decode "\<lambda>_. True"
  by unfold_locales (rule Std_roundtrip)

lemma Std_Encode_empty: "base64_Std_Encode bs = [] \<longleftrightarrow> bs = []"
  using stdb64.enc_inject [of bs "[]"] by (simp add: base64_Std_Encode_def b64_enc_def pad4_def)

lemma hex_length: "length (hex_EncodeToString bs) = 2 * length bs"
  by (induction bs) (simp_all add: hex_EncodeToString_def)

lemma hex_inject: "hex_EncodeToString a = hex_EncodeToString b \<longleftrightarrow> a = b"
proof
  have d: "distinct hex_digits" "length hex_digits = 16" by (simp_all add: hex_digits_def)
  have lt: "of_char c div 16 < (16 :: nat)" for c
    using nat_of_char_less_256 [of c] by (simp add: less_mult_imp_div_less)
  assume "hex_EncodeToString a = hex_EncodeToString b"
  then show "a = b"
  proof (induction a arbitrary: b)
    case Nil
    then show ?case by (cases b) (simp_all add: hex_EncodeToString_def)
  next
    case (Cons x a)
    then obtain y b' where b: "b = y # b'" by (cases b) (auto simp: hex_EncodeToString_def)
    with Cons.prems have "of_char x div 16 = (of_char y div 16 :: nat)" "of_char x mod 16 = (of_char y mod 16 :: nat)"
      "hex_EncodeToString a = hex_EncodeToString b'"
      using d lt by (auto simp: hex_EncodeToString_def nth_eq_iff_index_eq)
    then have "(of_char x :: nat) = of_char y" by (metis div_mod_decomp)
    with Cons.IH b \<open>hex_EncodeToString a = hex_EncodeToString b'\<close> show ?case by simp
  qed
qed simp

end
