(* ===== verification/Domain.thy ===== *)
theory Domain
  imports Encoding
begin

text \<open>
  The domain layer, \<open>internal/domain\<close>: the persisted entities and the configuration
  (\<open>types.go\<close>, \<open>config.go\<close>, \<open>auth.go\<close>), the legacy migration \<open>MigrateChannel\<close>, the merge of a
  channel with the global defaults \<open>ResolveChannelConfig\<close>, and the JSON encoding that the
  struct tags of the entities define. A nil slice and an empty slice are both \<open>[]\<close>.
\<close>

section \<open>Entities\<close>

record channel_access_token =
  ct_ID :: string
  ct_Name :: string
  ct_TokenHash :: string
  ct_Scope :: string
  ct_CreatedAt :: string

record channel =
  ch_ID :: string
  ch_Description :: string
  ch_CreatedBy :: string
  ch_WebhookSecret :: string
  ch_AllowedIPs :: "string list"
  ch_MaxBodySize :: int
  ch_MessageTTLSeconds :: int
  ch_EncryptionMode :: string
  ch_EncryptionKey :: string
  ch_EncryptionPublicKey :: string
  ch_EncryptionPrivateKey :: string
  ch_EncryptionPubKeys :: "string list"
  ch_AccessMode :: string
  ch_AccessTokens :: "channel_access_token list"
  ch_WebhookSignatures :: "string list"
  ch_EncryptionEnabled :: bool

record external_identity =
  ei_ProviderID :: string
  ei_Issuer :: string
  ei_Subject :: string

record user =
  us_ID :: string
  us_Username :: string
  us_PasswordHash :: string
  us_OIDCSubjects :: "string list"
  us_ExternalIdentities :: "external_identity list"
  us_Roles :: "string list"
  us_Channels :: "string list"

record role =
  ro_Name :: string
  ro_Permissions :: "string list"

record oidc_provider =
  op_ID :: string
  op_Name :: string
  op_ClientID :: string
  op_ClientSecret :: string
  op_IssuerURL :: string
  op_Scopes :: "string list"
  op_GroupsClaim :: string
  op_AllowedEndpoints :: "string list"
  op_AllowInsecureIssuer :: bool

record role_mapping =
  rm_ID :: string
  rm_Type :: string
  rm_Subject :: string
  rm_Role :: string
  rm_ChannelScope :: string

record channel_role_mapping =
  cm_ID :: string
  cm_ChannelID :: string
  cm_Type :: string
  cm_Subject :: string
  cm_Role :: string

record client_cursor =
  cc_Channel :: string
  cc_ClientID :: string
  cc_LastTimestampMs :: int

record server_config =
  sc_MaxBodySize :: int
  sc_BehindReverseProxy :: bool
  sc_CORSOrigin :: string
  sc_Footer :: string
  sc_SessionSecret :: string
  sc_RateLimitEnabled :: bool
  sc_RateLimitRequests :: int
  sc_RateLimitWindowSeconds :: int
  sc_BanEnabled :: bool
  sc_BanMaxUniqueFailures :: int
  sc_BanWindowSeconds :: int
  sc_BanDurationSeconds :: int
  sc_TrustedProxyCIDRs :: "string list"
  sc_RequireKnownChannels :: bool
  sc_LoginThrottleAttempts :: int
  sc_LoginThrottleCooldown :: int

record defaults_config =
  dc_WebhookSecret :: string
  dc_AllowedIPs :: "string list"
  dc_MessageTTLSeconds :: int

record global_config =
  gc_Server :: server_config
  gc_Defaults :: defaults_config

record user_binding =
  ub_UserID :: string
  ub_Roles :: "string list"
  ub_Channels :: "string list"

record internal_user =
  iu_Username :: string
  iu_PasswordHash :: string

record auth_config =
  ac_InternalEnabled :: bool
  ac_Users :: "internal_user list"
  ac_OIDCEnabled :: bool
  ac_Providers :: "oidc_provider list"

section \<open>Constants\<close>

type_synonym permission = string

definition PermAll :: permission where
  "PermAll = ''*''"

definition PermGlobalRead :: permission where
  "PermGlobalRead = ''global:read''"

definition PermGlobalWrite :: permission where
  "PermGlobalWrite = ''global:write''"

definition PermUsersRead :: permission where
  "PermUsersRead = ''users:read''"

definition PermUsersWrite :: permission where
  "PermUsersWrite = ''users:write''"

definition PermRBACRead :: permission where
  "PermRBACRead = ''rbac:read''"

definition PermRBACWrite :: permission where
  "PermRBACWrite = ''rbac:write''"

definition PermChannelRead :: permission where
  "PermChannelRead = ''channel:read''"

definition PermChannelWrite :: permission where
  "PermChannelWrite = ''channel:write''"

definition PermChannelView :: permission where
  "PermChannelView = ''channel:view''"

definition DefaultRoles :: "role list" where
  "DefaultRoles =
     [\<lparr>ro_Name = ''admin'', ro_Permissions = [''*'']\<rparr>,
      \<lparr>ro_Name = ''channel_admin'', ro_Permissions = [''channel:write'', ''channel:read'']\<rparr>,
      \<lparr>ro_Name = ''channel_viewer'', ro_Permissions = [''channel:read'']\<rparr>]"

definition DefaultGlobalConfig :: global_config where
  "DefaultGlobalConfig = \<lparr>
     gc_Server = \<lparr>
       sc_MaxBodySize = 26214400, sc_BehindReverseProxy = False, sc_CORSOrigin = ''*'',
       sc_Footer = [], sc_SessionSecret = [],
       sc_RateLimitEnabled = False, sc_RateLimitRequests = 100, sc_RateLimitWindowSeconds = 60,
       sc_BanEnabled = False, sc_BanMaxUniqueFailures = 5, sc_BanWindowSeconds = 300,
       sc_BanDurationSeconds = 3600, sc_TrustedProxyCIDRs = [], sc_RequireKnownChannels = False,
       sc_LoginThrottleAttempts = 10, sc_LoginThrottleCooldown = 300\<rparr>,
     gc_Defaults = \<lparr>dc_WebhookSecret = [], dc_AllowedIPs = [], dc_MessageTTLSeconds = 0\<rparr>\<rparr>"

text \<open>The zero value \<open>domain.Channel{}\<close>.\<close>

definition zero_channel :: channel where
  "zero_channel = \<lparr>ch_ID = [], ch_Description = [], ch_CreatedBy = [], ch_WebhookSecret = [],
     ch_AllowedIPs = [], ch_MaxBodySize = 0, ch_MessageTTLSeconds = 0, ch_EncryptionMode = [],
     ch_EncryptionKey = [], ch_EncryptionPublicKey = [], ch_EncryptionPrivateKey = [],
     ch_EncryptionPubKeys = [], ch_AccessMode = [], ch_AccessTokens = [],
     ch_WebhookSignatures = [], ch_EncryptionEnabled = False\<rparr>"

section \<open>Migration and resolution\<close>

text \<open>A conditional assignment \<open>if c { p.F = v }\<close> is the update of \<open>F\<close> with \<open>v\<close> under \<open>c\<close> and with
  its present value otherwise.\<close>

definition MigrateChannel :: "channel \<Rightarrow> channel" where
  "MigrateChannel p0 =
     (let p1 = p0\<lparr>ch_WebhookSecret :=
                 (if ch_WebhookSecret p0 = [] \<and> length (ch_WebhookSignatures p0) > 0
                  then hd (ch_WebhookSignatures p0) else ch_WebhookSecret p0)\<rparr>;
          p2 = p1\<lparr>ch_EncryptionMode :=
                 (if ch_EncryptionMode p1 = [] \<and> ch_EncryptionEnabled p1
                  then ''e2e'' else ch_EncryptionMode p1)\<rparr>
      in p2\<lparr>ch_EncryptionMode :=
           (if ch_EncryptionMode p2 = ''provider_side'' then ''e2e'' else ch_EncryptionMode p2)\<rparr>)"

text \<open>\<open>domain.ResolveChannelConfig\<close>\<close>

definition domain_ResolveChannelConfig :: "channel \<Rightarrow> global_config \<Rightarrow> channel" where
  "domain_ResolveChannelConfig p global =
     (let r0 = MigrateChannel p;
          r1 = r0\<lparr>ch_AccessMode := (if ch_AccessMode r0 = [] then ''public'' else ch_AccessMode r0)\<rparr>;
          r2 = r1\<lparr>ch_MaxBodySize :=
                 (if ch_MaxBodySize r1 = 0 then sc_MaxBodySize (gc_Server global)
                  else ch_MaxBodySize r1)\<rparr>;
          r3 = r2\<lparr>ch_WebhookSecret :=
                 (if ch_WebhookSecret r2 = [] then dc_WebhookSecret (gc_Defaults global)
                  else ch_WebhookSecret r2)\<rparr>;
          r4 = r3\<lparr>ch_AllowedIPs :=
                 (if length (ch_AllowedIPs r3) = 0 then dc_AllowedIPs (gc_Defaults global)
                  else ch_AllowedIPs r3)\<rparr>
      in r4\<lparr>ch_MessageTTLSeconds :=
           (if ch_MessageTTLSeconds r4 = 0 \<and> dc_MessageTTLSeconds (gc_Defaults global) > 0
            then dc_MessageTTLSeconds (gc_Defaults global) else ch_MessageTTLSeconds r4)\<rparr>)"

text \<open>The \<open>channelid\<close> validation: \<open>^[a-zA-Z0-9][a-zA-Z0-9_-]*$\<close>.\<close>

definition is_alnum :: "char \<Rightarrow> bool" where
  "is_alnum c \<longleftrightarrow> (CHR ''a'' \<le> c \<and> c \<le> CHR ''z'') \<or> (CHR ''A'' \<le> c \<and> c \<le> CHR ''Z'') \<or>
     (CHR ''0'' \<le> c \<and> c \<le> CHR ''9'')"

definition valid_channelid :: "string \<Rightarrow> bool" where
  "valid_channelid s = (case s of [] \<Rightarrow> False
     | c # cs \<Rightarrow> is_alnum c \<and> list_all (\<lambda>x. is_alnum x \<or> x = CHR ''_'' \<or> x = CHR ''-'') cs)"

section \<open>JSON encoding\<close>

definition marshal_channel_access_token :: "channel_access_token \<Rightarrow> json" where
  "marshal_channel_access_token x = JObj (
     jreq ''id'' (JStr (ct_ID x)) (
     jreq ''name'' (JStr (ct_Name x)) (
     jreq ''token_hash'' (JStr (ct_TokenHash x)) (
     jreq ''scope'' (JStr (ct_Scope x)) (
     jreq ''created_at'' (JStr (ct_CreatedAt x)) [])))))"

definition unmarshal_channel_access_token :: "json \<Rightarrow> channel_access_token option" where
  "unmarshal_channel_access_token d = do {
     fs \<leftarrow> jobj d;
     vID \<leftarrow> jstr fs ''id'';
     vName \<leftarrow> jstr fs ''name'';
     vTokenHash \<leftarrow> jstr fs ''token_hash'';
     vScope \<leftarrow> jstr fs ''scope'';
     vCreatedAt \<leftarrow> jstr fs ''created_at'';
     Some \<lparr>ct_ID = vID, ct_Name = vName, ct_TokenHash = vTokenHash, ct_Scope = vScope,
       ct_CreatedAt = vCreatedAt\<rparr> }"

definition marshal_channel :: "channel \<Rightarrow> json" where
  "marshal_channel p = JObj (
     jreq ''id'' (JStr (ch_ID p)) (
     jopt (ch_Description p \<noteq> []) ''description'' (JStr (ch_Description p)) (
     jopt (ch_CreatedBy p \<noteq> []) ''created_by'' (JStr (ch_CreatedBy p)) (
     jopt (ch_WebhookSecret p \<noteq> []) ''webhook_secret'' (JStr (ch_WebhookSecret p)) (
     jopt (ch_AllowedIPs p \<noteq> []) ''allowed_ips'' (JStrs (ch_AllowedIPs p)) (
     jopt (ch_MaxBodySize p \<noteq> 0) ''max_body_size'' (JNum (ch_MaxBodySize p)) (
     jopt (ch_MessageTTLSeconds p \<noteq> 0) ''message_ttl_seconds'' (JNum (ch_MessageTTLSeconds p)) (
     jopt (ch_EncryptionMode p \<noteq> []) ''encryption_mode'' (JStr (ch_EncryptionMode p)) (
     jopt (ch_EncryptionKey p \<noteq> []) ''encryption_key'' (JStr (ch_EncryptionKey p)) (
     jopt (ch_EncryptionPublicKey p \<noteq> []) ''encryption_public_key'' (JStr (ch_EncryptionPublicKey p)) (
     jopt (ch_EncryptionPrivateKey p \<noteq> []) ''encryption_private_key'' (JStr (ch_EncryptionPrivateKey p)) (
     jopt (ch_EncryptionPubKeys p \<noteq> []) ''encryption_public_keys'' (JStrs (ch_EncryptionPubKeys p)) (
     jopt (ch_AccessMode p \<noteq> []) ''access_mode'' (JStr (ch_AccessMode p)) (
     jopt (ch_AccessTokens p \<noteq> []) ''access_tokens'' (JArr (map marshal_channel_access_token (ch_AccessTokens p))) (
     jopt (ch_WebhookSignatures p \<noteq> []) ''webhook_signatures'' (JStrs (ch_WebhookSignatures p)) (
     jopt (ch_EncryptionEnabled p) ''encryption_enabled'' (JBool (ch_EncryptionEnabled p)) []))))))))))))))))"

definition unmarshal_channel :: "json \<Rightarrow> channel option" where
  "unmarshal_channel d = do {
     fs \<leftarrow> jobj d;
     vID \<leftarrow> jstr fs ''id'';
     vDescription \<leftarrow> jstr fs ''description'';
     vCreatedBy \<leftarrow> jstr fs ''created_by'';
     vWebhookSecret \<leftarrow> jstr fs ''webhook_secret'';
     vAllowedIPs \<leftarrow> jstrs fs ''allowed_ips'';
     vMaxBodySize \<leftarrow> jint fs ''max_body_size'';
     vMessageTTLSeconds \<leftarrow> jint fs ''message_ttl_seconds'';
     vEncryptionMode \<leftarrow> jstr fs ''encryption_mode'';
     vEncryptionKey \<leftarrow> jstr fs ''encryption_key'';
     vEncryptionPublicKey \<leftarrow> jstr fs ''encryption_public_key'';
     vEncryptionPrivateKey \<leftarrow> jstr fs ''encryption_private_key'';
     vEncryptionPubKeys \<leftarrow> jstrs fs ''encryption_public_keys'';
     vAccessMode \<leftarrow> jstr fs ''access_mode'';
     vAccessTokens \<leftarrow> jlist unmarshal_channel_access_token fs ''access_tokens'';
     vWebhookSignatures \<leftarrow> jstrs fs ''webhook_signatures'';
     vEncryptionEnabled \<leftarrow> jbool fs ''encryption_enabled'';
     Some \<lparr>ch_ID = vID, ch_Description = vDescription, ch_CreatedBy = vCreatedBy, ch_WebhookSecret
       = vWebhookSecret, ch_AllowedIPs = vAllowedIPs, ch_MaxBodySize = vMaxBodySize, ch_MessageTTLSeconds =
       vMessageTTLSeconds, ch_EncryptionMode = vEncryptionMode, ch_EncryptionKey = vEncryptionKey,
       ch_EncryptionPublicKey = vEncryptionPublicKey, ch_EncryptionPrivateKey = vEncryptionPrivateKey,
       ch_EncryptionPubKeys = vEncryptionPubKeys, ch_AccessMode = vAccessMode, ch_AccessTokens =
       vAccessTokens, ch_WebhookSignatures = vWebhookSignatures, ch_EncryptionEnabled =
       vEncryptionEnabled\<rparr> }"

definition marshal_external_identity :: "external_identity \<Rightarrow> json" where
  "marshal_external_identity x = JObj (
     jreq ''provider_id'' (JStr (ei_ProviderID x)) (
     jreq ''issuer'' (JStr (ei_Issuer x)) (
     jreq ''subject'' (JStr (ei_Subject x)) [])))"

definition unmarshal_external_identity :: "json \<Rightarrow> external_identity option" where
  "unmarshal_external_identity d = do {
     fs \<leftarrow> jobj d;
     vProviderID \<leftarrow> jstr fs ''provider_id'';
     vIssuer \<leftarrow> jstr fs ''issuer'';
     vSubject \<leftarrow> jstr fs ''subject'';
     Some \<lparr>ei_ProviderID = vProviderID, ei_Issuer = vIssuer, ei_Subject = vSubject\<rparr> }"

definition marshal_user :: "user \<Rightarrow> json" where
  "marshal_user u = JObj (
     jreq ''id'' (JStr (us_ID u)) (
     jreq ''username'' (JStr (us_Username u)) (
     jopt (us_PasswordHash u \<noteq> []) ''password_hash'' (JStr (us_PasswordHash u)) (
     jopt (us_OIDCSubjects u \<noteq> []) ''oidc_subjects'' (JStrs (us_OIDCSubjects u)) (
     jopt (us_ExternalIdentities u \<noteq> []) ''external_identities'' (JArr (map marshal_external_identity (us_ExternalIdentities u))) (
     jreq ''roles'' (JStrs (us_Roles u)) (
     jreq ''channels'' (JStrs (us_Channels u)) [])))))))"

definition unmarshal_user :: "json \<Rightarrow> user option" where
  "unmarshal_user d = do {
     fs \<leftarrow> jobj d;
     vID \<leftarrow> jstr fs ''id'';
     vUsername \<leftarrow> jstr fs ''username'';
     vPasswordHash \<leftarrow> jstr fs ''password_hash'';
     vOIDCSubjects \<leftarrow> jstrs fs ''oidc_subjects'';
     vExternalIdentities \<leftarrow> jlist unmarshal_external_identity fs ''external_identities'';
     vRoles \<leftarrow> jstrs fs ''roles'';
     vChannels \<leftarrow> jstrs fs ''channels'';
     Some \<lparr>us_ID = vID, us_Username = vUsername, us_PasswordHash = vPasswordHash, us_OIDCSubjects
       = vOIDCSubjects, us_ExternalIdentities = vExternalIdentities, us_Roles = vRoles, us_Channels =
       vChannels\<rparr> }"

definition marshal_role :: "role \<Rightarrow> json" where
  "marshal_role x = JObj (
     jreq ''name'' (JStr (ro_Name x)) (
     jreq ''permissions'' (JStrs (ro_Permissions x)) []))"

definition unmarshal_role :: "json \<Rightarrow> role option" where
  "unmarshal_role d = do {
     fs \<leftarrow> jobj d;
     vName \<leftarrow> jstr fs ''name'';
     vPermissions \<leftarrow> jstrs fs ''permissions'';
     Some \<lparr>ro_Name = vName, ro_Permissions = vPermissions\<rparr> }"

definition marshal_oidc_provider :: "oidc_provider \<Rightarrow> json" where
  "marshal_oidc_provider x = JObj (
     jreq ''id'' (JStr (op_ID x)) (
     jreq ''name'' (JStr (op_Name x)) (
     jreq ''client_id'' (JStr (op_ClientID x)) (
     jreq ''client_secret'' (JStr (op_ClientSecret x)) (
     jreq ''issuer_url'' (JStr (op_IssuerURL x)) (
     jreq ''scopes'' (JStrs (op_Scopes x)) (
     jreq ''groups_claim'' (JStr (op_GroupsClaim x)) (
     jopt (op_AllowedEndpoints x \<noteq> []) ''allowed_endpoints'' (JStrs (op_AllowedEndpoints x)) (
     jopt (op_AllowInsecureIssuer x) ''allow_insecure_issuer'' (JBool (op_AllowInsecureIssuer x)) [])))))))))"

definition unmarshal_oidc_provider :: "json \<Rightarrow> oidc_provider option" where
  "unmarshal_oidc_provider d = do {
     fs \<leftarrow> jobj d;
     vID \<leftarrow> jstr fs ''id'';
     vName \<leftarrow> jstr fs ''name'';
     vClientID \<leftarrow> jstr fs ''client_id'';
     vClientSecret \<leftarrow> jstr fs ''client_secret'';
     vIssuerURL \<leftarrow> jstr fs ''issuer_url'';
     vScopes \<leftarrow> jstrs fs ''scopes'';
     vGroupsClaim \<leftarrow> jstr fs ''groups_claim'';
     vAllowedEndpoints \<leftarrow> jstrs fs ''allowed_endpoints'';
     vAllowInsecureIssuer \<leftarrow> jbool fs ''allow_insecure_issuer'';
     Some \<lparr>op_ID = vID, op_Name = vName, op_ClientID = vClientID, op_ClientSecret = vClientSecret,
       op_IssuerURL = vIssuerURL, op_Scopes = vScopes, op_GroupsClaim = vGroupsClaim, op_AllowedEndpoints =
       vAllowedEndpoints, op_AllowInsecureIssuer = vAllowInsecureIssuer\<rparr> }"

definition marshal_role_mapping :: "role_mapping \<Rightarrow> json" where
  "marshal_role_mapping x = JObj (
     jreq ''id'' (JStr (rm_ID x)) (
     jreq ''type'' (JStr (rm_Type x)) (
     jreq ''subject'' (JStr (rm_Subject x)) (
     jreq ''role'' (JStr (rm_Role x)) (
     jreq ''channel_scope'' (JStr (rm_ChannelScope x)) [])))))"

definition unmarshal_role_mapping :: "json \<Rightarrow> role_mapping option" where
  "unmarshal_role_mapping d = do {
     fs \<leftarrow> jobj d;
     vID \<leftarrow> jstr fs ''id'';
     vType \<leftarrow> jstr fs ''type'';
     vSubject \<leftarrow> jstr fs ''subject'';
     vRole \<leftarrow> jstr fs ''role'';
     vChannelScope \<leftarrow> jstr fs ''channel_scope'';
     Some \<lparr>rm_ID = vID, rm_Type = vType, rm_Subject = vSubject, rm_Role = vRole, rm_ChannelScope =
       vChannelScope\<rparr> }"

definition marshal_channel_role_mapping :: "channel_role_mapping \<Rightarrow> json" where
  "marshal_channel_role_mapping x = JObj (
     jreq ''id'' (JStr (cm_ID x)) (
     jreq ''channel_id'' (JStr (cm_ChannelID x)) (
     jreq ''type'' (JStr (cm_Type x)) (
     jreq ''subject'' (JStr (cm_Subject x)) (
     jreq ''role'' (JStr (cm_Role x)) [])))))"

definition unmarshal_channel_role_mapping :: "json \<Rightarrow> channel_role_mapping option" where
  "unmarshal_channel_role_mapping d = do {
     fs \<leftarrow> jobj d;
     vID \<leftarrow> jstr fs ''id'';
     vChannelID \<leftarrow> jstr fs ''channel_id'';
     vType \<leftarrow> jstr fs ''type'';
     vSubject \<leftarrow> jstr fs ''subject'';
     vRole \<leftarrow> jstr fs ''role'';
     Some \<lparr>cm_ID = vID, cm_ChannelID = vChannelID, cm_Type = vType, cm_Subject = vSubject, cm_Role
       = vRole\<rparr> }"

definition marshal_client_cursor :: "client_cursor \<Rightarrow> json" where
  "marshal_client_cursor x = JObj (
     jreq ''channel'' (JStr (cc_Channel x)) (
     jreq ''client_id'' (JStr (cc_ClientID x)) (
     jreq ''last_timestamp_ms'' (JNum (cc_LastTimestampMs x)) [])))"

definition unmarshal_client_cursor :: "json \<Rightarrow> client_cursor option" where
  "unmarshal_client_cursor d = do {
     fs \<leftarrow> jobj d;
     vChannel \<leftarrow> jstr fs ''channel'';
     vClientID \<leftarrow> jstr fs ''client_id'';
     vLastTimestampMs \<leftarrow> jint fs ''last_timestamp_ms'';
     Some \<lparr>cc_Channel = vChannel, cc_ClientID = vClientID, cc_LastTimestampMs =
       vLastTimestampMs\<rparr> }"

definition marshal_server_config :: "server_config \<Rightarrow> json" where
  "marshal_server_config x = JObj (
     jreq ''max_body_size'' (JNum (sc_MaxBodySize x)) (
     jreq ''behind_reverse_proxy'' (JBool (sc_BehindReverseProxy x)) (
     jreq ''cors_origin'' (JStr (sc_CORSOrigin x)) (
     jreq ''footer'' (JStr (sc_Footer x)) (
     jreq ''session_secret'' (JStr (sc_SessionSecret x)) (
     jreq ''rate_limit_enabled'' (JBool (sc_RateLimitEnabled x)) (
     jreq ''rate_limit_requests'' (JNum (sc_RateLimitRequests x)) (
     jreq ''rate_limit_window_seconds'' (JNum (sc_RateLimitWindowSeconds x)) (
     jreq ''ban_enabled'' (JBool (sc_BanEnabled x)) (
     jreq ''ban_max_unique_failures'' (JNum (sc_BanMaxUniqueFailures x)) (
     jreq ''ban_window_seconds'' (JNum (sc_BanWindowSeconds x)) (
     jreq ''ban_duration_seconds'' (JNum (sc_BanDurationSeconds x)) (
     jreq ''trusted_proxy_cidrs'' (JStrs (sc_TrustedProxyCIDRs x)) (
     jreq ''require_known_channels'' (JBool (sc_RequireKnownChannels x)) (
     jreq ''login_throttle_attempts'' (JNum (sc_LoginThrottleAttempts x)) (
     jreq ''login_throttle_cooldown_seconds'' (JNum (sc_LoginThrottleCooldown x)) []))))))))))))))))"

definition unmarshal_server_config :: "json \<Rightarrow> server_config option" where
  "unmarshal_server_config d = do {
     fs \<leftarrow> jobj d;
     vMaxBodySize \<leftarrow> jint fs ''max_body_size'';
     vBehindReverseProxy \<leftarrow> jbool fs ''behind_reverse_proxy'';
     vCORSOrigin \<leftarrow> jstr fs ''cors_origin'';
     vFooter \<leftarrow> jstr fs ''footer'';
     vSessionSecret \<leftarrow> jstr fs ''session_secret'';
     vRateLimitEnabled \<leftarrow> jbool fs ''rate_limit_enabled'';
     vRateLimitRequests \<leftarrow> jint fs ''rate_limit_requests'';
     vRateLimitWindowSeconds \<leftarrow> jint fs ''rate_limit_window_seconds'';
     vBanEnabled \<leftarrow> jbool fs ''ban_enabled'';
     vBanMaxUniqueFailures \<leftarrow> jint fs ''ban_max_unique_failures'';
     vBanWindowSeconds \<leftarrow> jint fs ''ban_window_seconds'';
     vBanDurationSeconds \<leftarrow> jint fs ''ban_duration_seconds'';
     vTrustedProxyCIDRs \<leftarrow> jstrs fs ''trusted_proxy_cidrs'';
     vRequireKnownChannels \<leftarrow> jbool fs ''require_known_channels'';
     vLoginThrottleAttempts \<leftarrow> jint fs ''login_throttle_attempts'';
     vLoginThrottleCooldown \<leftarrow> jint fs ''login_throttle_cooldown_seconds'';
     Some \<lparr>sc_MaxBodySize = vMaxBodySize, sc_BehindReverseProxy = vBehindReverseProxy,
       sc_CORSOrigin = vCORSOrigin, sc_Footer = vFooter, sc_SessionSecret = vSessionSecret,
       sc_RateLimitEnabled = vRateLimitEnabled, sc_RateLimitRequests = vRateLimitRequests,
       sc_RateLimitWindowSeconds = vRateLimitWindowSeconds, sc_BanEnabled = vBanEnabled,
       sc_BanMaxUniqueFailures = vBanMaxUniqueFailures, sc_BanWindowSeconds = vBanWindowSeconds,
       sc_BanDurationSeconds = vBanDurationSeconds, sc_TrustedProxyCIDRs = vTrustedProxyCIDRs,
       sc_RequireKnownChannels = vRequireKnownChannels, sc_LoginThrottleAttempts = vLoginThrottleAttempts,
       sc_LoginThrottleCooldown = vLoginThrottleCooldown\<rparr> }"

definition marshal_defaults_config :: "defaults_config \<Rightarrow> json" where
  "marshal_defaults_config x = JObj (
     jreq ''webhook_secret'' (JStr (dc_WebhookSecret x)) (
     jreq ''allowed_ips'' (JStrs (dc_AllowedIPs x)) (
     jreq ''message_ttl_seconds'' (JNum (dc_MessageTTLSeconds x)) [])))"

definition unmarshal_defaults_config :: "json \<Rightarrow> defaults_config option" where
  "unmarshal_defaults_config d = do {
     fs \<leftarrow> jobj d;
     vWebhookSecret \<leftarrow> jstr fs ''webhook_secret'';
     vAllowedIPs \<leftarrow> jstrs fs ''allowed_ips'';
     vMessageTTLSeconds \<leftarrow> jint fs ''message_ttl_seconds'';
     Some \<lparr>dc_WebhookSecret = vWebhookSecret, dc_AllowedIPs = vAllowedIPs, dc_MessageTTLSeconds =
       vMessageTTLSeconds\<rparr> }"

section \<open>Round trips of the encoding\<close>

lemma channel_access_token_roundtrip: "unmarshal_channel_access_token (marshal_channel_access_token x) = Some x"
  by (simp add: marshal_channel_access_token_def unmarshal_channel_access_token_def json_simps)

interpretation channel_access_token_json: codec marshal_channel_access_token unmarshal_channel_access_token "\<lambda>_. True"
  by unfold_locales (rule channel_access_token_roundtrip)

lemma channel_access_token_dec_list: "dec_arr unmarshal_channel_access_token (JArr (map marshal_channel_access_token xs)) = Some xs"
  by (simp add: channel_access_token_json.dec_enc_list)

lemma channel_roundtrip: "unmarshal_channel (marshal_channel x) = Some x"
  by (simp add: marshal_channel_def unmarshal_channel_def json_simps jlist_opt channel_access_token_dec_list del: dec_arr.simps)

interpretation channel_json: codec marshal_channel unmarshal_channel "\<lambda>_. True"
  by unfold_locales (rule channel_roundtrip)

lemma channel_dec_list: "dec_arr unmarshal_channel (JArr (map marshal_channel xs)) = Some xs"
  by (simp add: channel_json.dec_enc_list)

lemma external_identity_roundtrip: "unmarshal_external_identity (marshal_external_identity x) = Some x"
  by (simp add: marshal_external_identity_def unmarshal_external_identity_def json_simps)

interpretation external_identity_json: codec marshal_external_identity unmarshal_external_identity "\<lambda>_. True"
  by unfold_locales (rule external_identity_roundtrip)

lemma external_identity_dec_list: "dec_arr unmarshal_external_identity (JArr (map marshal_external_identity xs)) = Some xs"
  by (simp add: external_identity_json.dec_enc_list)

lemma user_roundtrip: "unmarshal_user (marshal_user x) = Some x"
  by (simp add: marshal_user_def unmarshal_user_def json_simps jlist_opt external_identity_dec_list del: dec_arr.simps)

interpretation user_json: codec marshal_user unmarshal_user "\<lambda>_. True"
  by unfold_locales (rule user_roundtrip)

lemma user_dec_list: "dec_arr unmarshal_user (JArr (map marshal_user xs)) = Some xs"
  by (simp add: user_json.dec_enc_list)

lemma role_roundtrip: "unmarshal_role (marshal_role x) = Some x"
  by (simp add: marshal_role_def unmarshal_role_def json_simps)

interpretation role_json: codec marshal_role unmarshal_role "\<lambda>_. True"
  by unfold_locales (rule role_roundtrip)

lemma role_dec_list: "dec_arr unmarshal_role (JArr (map marshal_role xs)) = Some xs"
  by (simp add: role_json.dec_enc_list)

lemma oidc_provider_roundtrip: "unmarshal_oidc_provider (marshal_oidc_provider x) = Some x"
  by (simp add: marshal_oidc_provider_def unmarshal_oidc_provider_def json_simps)

interpretation oidc_provider_json: codec marshal_oidc_provider unmarshal_oidc_provider "\<lambda>_. True"
  by unfold_locales (rule oidc_provider_roundtrip)

lemma oidc_provider_dec_list: "dec_arr unmarshal_oidc_provider (JArr (map marshal_oidc_provider xs)) = Some xs"
  by (simp add: oidc_provider_json.dec_enc_list)

lemma role_mapping_roundtrip: "unmarshal_role_mapping (marshal_role_mapping x) = Some x"
  by (simp add: marshal_role_mapping_def unmarshal_role_mapping_def json_simps)

interpretation role_mapping_json: codec marshal_role_mapping unmarshal_role_mapping "\<lambda>_. True"
  by unfold_locales (rule role_mapping_roundtrip)

lemma role_mapping_dec_list: "dec_arr unmarshal_role_mapping (JArr (map marshal_role_mapping xs)) = Some xs"
  by (simp add: role_mapping_json.dec_enc_list)

lemma channel_role_mapping_roundtrip: "unmarshal_channel_role_mapping (marshal_channel_role_mapping x) = Some x"
  by (simp add: marshal_channel_role_mapping_def unmarshal_channel_role_mapping_def json_simps)

interpretation channel_role_mapping_json: codec marshal_channel_role_mapping unmarshal_channel_role_mapping "\<lambda>_. True"
  by unfold_locales (rule channel_role_mapping_roundtrip)

lemma channel_role_mapping_dec_list: "dec_arr unmarshal_channel_role_mapping (JArr (map marshal_channel_role_mapping xs)) = Some xs"
  by (simp add: channel_role_mapping_json.dec_enc_list)

lemma client_cursor_roundtrip: "unmarshal_client_cursor (marshal_client_cursor x) = Some x"
  by (simp add: marshal_client_cursor_def unmarshal_client_cursor_def json_simps)

interpretation client_cursor_json: codec marshal_client_cursor unmarshal_client_cursor "\<lambda>_. True"
  by unfold_locales (rule client_cursor_roundtrip)

lemma client_cursor_dec_list: "dec_arr unmarshal_client_cursor (JArr (map marshal_client_cursor xs)) = Some xs"
  by (simp add: client_cursor_json.dec_enc_list)

lemma server_config_roundtrip: "unmarshal_server_config (marshal_server_config x) = Some x"
  by (simp add: marshal_server_config_def unmarshal_server_config_def json_simps)

interpretation server_config_json: codec marshal_server_config unmarshal_server_config "\<lambda>_. True"
  by unfold_locales (rule server_config_roundtrip)

lemma server_config_dec_list: "dec_arr unmarshal_server_config (JArr (map marshal_server_config xs)) = Some xs"
  by (simp add: server_config_json.dec_enc_list)

lemma defaults_config_roundtrip: "unmarshal_defaults_config (marshal_defaults_config x) = Some x"
  by (simp add: marshal_defaults_config_def unmarshal_defaults_config_def json_simps)

interpretation defaults_config_json: codec marshal_defaults_config unmarshal_defaults_config "\<lambda>_. True"
  by unfold_locales (rule defaults_config_roundtrip)

lemma defaults_config_dec_list: "dec_arr unmarshal_defaults_config (JArr (map marshal_defaults_config xs)) = Some xs"
  by (simp add: defaults_config_json.dec_enc_list)

section \<open>Properties of migration and resolution\<close>

lemma MigrateChannel_idem: "MigrateChannel (MigrateChannel p) = MigrateChannel p"
  by (cases p) (auto simp: MigrateChannel_def Let_def)

lemma MigrateChannel_frame [simp]:
  "ch_ID (MigrateChannel p) = ch_ID p"
  "ch_CreatedBy (MigrateChannel p) = ch_CreatedBy p"
  "ch_AllowedIPs (MigrateChannel p) = ch_AllowedIPs p"
  "ch_MaxBodySize (MigrateChannel p) = ch_MaxBodySize p"
  "ch_MessageTTLSeconds (MigrateChannel p) = ch_MessageTTLSeconds p"
  "ch_AccessMode (MigrateChannel p) = ch_AccessMode p"
  "ch_AccessTokens (MigrateChannel p) = ch_AccessTokens p"
  "ch_EncryptionKey (MigrateChannel p) = ch_EncryptionKey p"
  "ch_EncryptionPublicKey (MigrateChannel p) = ch_EncryptionPublicKey p"
  "ch_Description (MigrateChannel p) = ch_Description p"
  "ch_EncryptionPrivateKey (MigrateChannel p) = ch_EncryptionPrivateKey p"
  "ch_EncryptionPubKeys (MigrateChannel p) = ch_EncryptionPubKeys p"
  "ch_WebhookSignatures (MigrateChannel p) = ch_WebhookSignatures p"
  "ch_EncryptionEnabled (MigrateChannel p) = ch_EncryptionEnabled p"
  by (simp_all add: MigrateChannel_def Let_def)

lemma MigrateChannel_mode:
  "ch_EncryptionMode (MigrateChannel p) =
     (if ch_EncryptionMode p = ''provider_side'' \<or> ch_EncryptionMode p = [] \<and> ch_EncryptionEnabled p
      then ''e2e'' else ch_EncryptionMode p)"
  by (simp add: MigrateChannel_def Let_def)

lemma MigrateChannel_secret:
  "ch_WebhookSecret (MigrateChannel p) =
     (if ch_WebhookSecret p = [] \<and> ch_WebhookSignatures p \<noteq> []
      then hd (ch_WebhookSignatures p) else ch_WebhookSecret p)"
  by (simp add: MigrateChannel_def Let_def)

lemma resolve_fields:
  "ch_ID (domain_ResolveChannelConfig p g) = ch_ID p"
  "ch_AccessTokens (domain_ResolveChannelConfig p g) = ch_AccessTokens p"
  "ch_EncryptionMode (domain_ResolveChannelConfig p g) = ch_EncryptionMode (MigrateChannel p)"
  "ch_EncryptionKey (domain_ResolveChannelConfig p g) = ch_EncryptionKey p"
  "ch_EncryptionPublicKey (domain_ResolveChannelConfig p g) = ch_EncryptionPublicKey p"
  "ch_EncryptionPrivateKey (domain_ResolveChannelConfig p g) = ch_EncryptionPrivateKey p"
  "ch_EncryptionPubKeys (domain_ResolveChannelConfig p g) = ch_EncryptionPubKeys p"
  "ch_EncryptionEnabled (domain_ResolveChannelConfig p g) = ch_EncryptionEnabled p"
  "ch_WebhookSignatures (domain_ResolveChannelConfig p g) = ch_WebhookSignatures p"
  "ch_Description (domain_ResolveChannelConfig p g) = ch_Description p"
  "ch_CreatedBy (domain_ResolveChannelConfig p g) = ch_CreatedBy p"
  "ch_AccessMode (domain_ResolveChannelConfig p g) =
     (if ch_AccessMode p = [] then ''public'' else ch_AccessMode p)"
  "ch_WebhookSecret (domain_ResolveChannelConfig p g) =
     (if ch_WebhookSecret (MigrateChannel p) = [] then dc_WebhookSecret (gc_Defaults g)
      else ch_WebhookSecret (MigrateChannel p))"
  "ch_MaxBodySize (domain_ResolveChannelConfig p g) =
     (if ch_MaxBodySize p = 0 then sc_MaxBodySize (gc_Server g) else ch_MaxBodySize p)"
  "ch_AllowedIPs (domain_ResolveChannelConfig p g) =
     (if ch_AllowedIPs p = [] then dc_AllowedIPs (gc_Defaults g) else ch_AllowedIPs p)"
  "ch_MessageTTLSeconds (domain_ResolveChannelConfig p g) =
     (if ch_MessageTTLSeconds p = 0 \<and> dc_MessageTTLSeconds (gc_Defaults g) > 0
      then dc_MessageTTLSeconds (gc_Defaults g) else ch_MessageTTLSeconds p)"
  by (simp_all add: domain_ResolveChannelConfig_def Let_def)

lemma resolve_idem:
  "domain_ResolveChannelConfig (domain_ResolveChannelConfig p g) g = domain_ResolveChannelConfig p g"
proof -
  have "MigrateChannel (domain_ResolveChannelConfig p g) = domain_ResolveChannelConfig p g"
    using MigrateChannel_mode [of "domain_ResolveChannelConfig p g"]
      MigrateChannel_secret [of "domain_ResolveChannelConfig p g"]
    by (intro channel.equality) (auto simp: resolve_fields MigrateChannel_mode MigrateChannel_secret)
  then show ?thesis
    by (intro channel.equality)
      (simp_all add: domain_ResolveChannelConfig_def [of "domain_ResolveChannelConfig p g"] Let_def
        resolve_fields)
qed

end
