(* ===== verification/Bolt.thy ===== *)
theory Bolt
  imports Domain "HOL-Library.Word"
begin

text \<open>
  The storage layer \<open>internal/repository/bolt.go\<close>: the BoltDB file with its three buckets, the
  Raft log store and stable store kept in it, the big-endian log-index keys, and the access
  helpers of the FSM bucket.

  BoltDB itself is a third-party package. Its documented contract is the state type below: a
  bucket is a finite map that a cursor walks in byte order of the keys; \<open>Update\<close> runs a
  function in a transaction that is rolled back when the function returns an error.
  \<open>db_view_err\<close> and \<open>db_update_err\<close> are the verdicts of the environment: the error a read or a
  commit reports, \<open>None\<close> when it succeeds.
\<close>

unbundle bit_operations_syntax

section \<open>The database file\<close>

type_synonym u64 = "64 word"
type_synonym bytes8 = "8 word list"

text \<open>\<open>raft.Log\<close> is a struct of the Raft library: its index, and the fields this store never
  looks at, as one document.\<close>

record raft_log =
  rl_Index :: u64
  rl_Rest :: json

type_synonym fsm_bucket = "(string, json) kv"
type_synonym logs_bucket = "(bytes8, raft_log option) kv"
type_synonym stable_bucket = "(string, bytes8) kv"

record bolt_db =
  db_fsm :: "fsm_bucket option"
  db_logs :: "logs_bucket option"
  db_stable :: "stable_bucket option"
  db_view_err :: "error option"
  db_update_err :: "error option"

text \<open>\<open>newBoltDB\<close> creates the buckets that do not exist yet.\<close>

definition newBoltDB :: "bolt_db \<Rightarrow> bolt_db result" where
  "newBoltDB db = (case db_update_err db of Some e \<Rightarrow> Inl e
     | None \<Rightarrow> Inr (db\<lparr>db_logs := Some (case db_logs db of None \<Rightarrow> [] | Some b \<Rightarrow> b),
                       db_stable := Some (case db_stable db of None \<Rightarrow> [] | Some b \<Rightarrow> b),
                       db_fsm := Some (case db_fsm db of None \<Rightarrow> [] | Some b \<Rightarrow> b)\<rparr>))"

text \<open>A read transaction over one bucket.\<close>

definition db_View :: "bolt_db \<Rightarrow> 'a result \<Rightarrow> 'a result" where
  "db_View db r = (case db_view_err db of Some e \<Rightarrow> Inl e | None \<Rightarrow> r)"

text \<open>A write transaction on the FSM bucket: the body gets the bucket, if there is one, and
  returns the bucket to commit; an error rolls back.\<close>

definition fsm_Update :: "bolt_db \<Rightarrow> (fsm_bucket option \<Rightarrow> fsm_bucket option result) \<Rightarrow> error option \<times> bolt_db" where
  "fsm_Update db body = (case body (db_fsm db) of
       Inl e \<Rightarrow> (Some e, db)
     | Inr b \<Rightarrow> (case db_update_err db of Some e \<Rightarrow> (Some e, db) | None \<Rightarrow> (None, db\<lparr>db_fsm := b\<rparr>)))"

section \<open>Log index keys\<close>

definition itob :: "u64 \<Rightarrow> bytes8" where
  "itob v = [ucast (drop_bit 56 v), ucast (drop_bit 48 v), ucast (drop_bit 40 v), ucast (drop_bit 32 v),
     ucast (drop_bit 24 v), ucast (drop_bit 16 v), ucast (drop_bit 8 v), ucast v]"

text \<open>Reading a byte past the end panics: \<open>None\<close>.\<close>

definition btoi :: "bytes8 \<Rightarrow> u64 option" where
  "btoi b = (if length b < 8 then None
     else Some (ucast (b ! 7) OR push_bit 8 (ucast (b ! 6)) OR push_bit 16 (ucast (b ! 5)) OR
       push_bit 24 (ucast (b ! 4)) OR push_bit 32 (ucast (b ! 3)) OR push_bit 40 (ucast (b ! 2)) OR
       push_bit 48 (ucast (b ! 1)) OR push_bit 56 (ucast (b ! 0))))"

definition index_panic :: error where
  "index_panic = ErrMsg ''panic: index out of range''"

section \<open>The Raft log store\<close>

definition encodeLog :: "raft_log \<Rightarrow> raft_log option" where
  "encodeLog l = Some l"

definition decodeLog :: "raft_log option \<Rightarrow> raft_log result" where
  "decodeLog v = of_option (ErrMsg ''json'') v"

definition FirstIndex :: "bolt_db \<Rightarrow> u64 result" where
  "FirstIndex db = db_View db (case db_logs db of
       None \<Rightarrow> Inr 0
     | Some b \<Rightarrow> (case b of [] \<Rightarrow> Inr 0 | p # _ \<Rightarrow> of_option index_panic (btoi (fst p))))"

definition LastIndex :: "bolt_db \<Rightarrow> u64 result" where
  "LastIndex db = db_View db (case db_logs db of
       None \<Rightarrow> Inr 0
     | Some b \<Rightarrow> (if b = [] then Inr 0 else of_option index_panic (btoi (fst (last b)))))"

definition GetLog :: "bolt_db \<Rightarrow> u64 \<Rightarrow> raft_log result" where
  "GetLog db idx = db_View db (case db_logs db of
       None \<Rightarrow> Inl (ErrMsg ''log not found'')
     | Some b \<Rightarrow> (case kv_get b (itob idx) of
           None \<Rightarrow> Inl (ErrMsg ''log not found'') | Some v \<Rightarrow> decodeLog v))"

fun store_logs :: "raft_log list \<Rightarrow> logs_bucket \<Rightarrow> logs_bucket" where
  "store_logs [] b = b"
| "store_logs (l # ls) b = store_logs ls (kv_put (itob (rl_Index l)) (encodeLog l) b)"

definition StoreLogs :: "bolt_db \<Rightarrow> raft_log list \<Rightarrow> bolt_db result" where
  "StoreLogs db logs = (case db_logs db of
       None \<Rightarrow> Inl (ErrMsg ''logs bucket not found'')
     | Some b \<Rightarrow> (case db_update_err db of Some e \<Rightarrow> Inl e
         | None \<Rightarrow> Inr (db\<lparr>db_logs := Some (store_logs logs b)\<rparr>)))"

definition StoreLog :: "bolt_db \<Rightarrow> raft_log \<Rightarrow> bolt_db result" where
  "StoreLog db log = StoreLogs db [log]"

text \<open>The loop \<open>for i := low; i <= high; i++\<close> on \<open>uint64\<close>: it need not end, so its result is
  optional.\<close>

partial_function (option) delete_range :: "u64 \<Rightarrow> u64 \<Rightarrow> logs_bucket \<Rightarrow> logs_bucket option" where
  "delete_range i high b =
     (if i \<le> high then delete_range (i + 1) high (kv_del (itob i) b) else Some b)"

definition DeleteRange :: "bolt_db \<Rightarrow> u64 \<Rightarrow> u64 \<Rightarrow> bolt_db result option" where
  "DeleteRange db low high = (case db_logs db of
       None \<Rightarrow> Some (Inr db)
     | Some b \<Rightarrow> (case delete_range low high b of
           None \<Rightarrow> None
         | Some b' \<Rightarrow> (case db_update_err db of Some e \<Rightarrow> Some (Inl e)
             | None \<Rightarrow> Some (Inr (db\<lparr>db_logs := Some b'\<rparr>)))))"

section \<open>The Raft stable store\<close>

definition stable_Set :: "bolt_db \<Rightarrow> string \<Rightarrow> bytes8 \<Rightarrow> bolt_db result" where
  "stable_Set db key val = (case db_stable db of
       None \<Rightarrow> Inl (ErrMsg ''stable bucket not found'')
     | Some b \<Rightarrow> (case db_update_err db of Some e \<Rightarrow> Inl e
         | None \<Rightarrow> Inr (db\<lparr>db_stable := Some (kv_put key val b)\<rparr>)))"

text \<open>A failed read leaves \<open>val\<close> nil, so it is reported as \<open>not found\<close> too.\<close>

definition stable_Get :: "bolt_db \<Rightarrow> string \<Rightarrow> bytes8 result" where
  "stable_Get db key =
     (case ok_or None (db_View db (Inr (case db_stable db of None \<Rightarrow> None | Some b \<Rightarrow> kv_get b key))) of
       None \<Rightarrow> Inl (ErrMsg ''not found'') | Some v \<Rightarrow> Inr v)"

definition SetUint64 :: "bolt_db \<Rightarrow> string \<Rightarrow> u64 \<Rightarrow> bolt_db result" where
  "SetUint64 db key val = stable_Set db key (itob val)"

definition GetUint64 :: "bolt_db \<Rightarrow> string \<Rightarrow> u64 result" where
  "GetUint64 db key = bindE (stable_Get db key) (\<lambda>v. of_option index_panic (btoi v))"

section \<open>FSM data access\<close>

definition getFSMValue :: "bolt_db \<Rightarrow> string \<Rightarrow> json option result" where
  "getFSMValue db key = db_View db (Inr (case db_fsm db of None \<Rightarrow> None | Some b \<Rightarrow> kv_get b key))"

definition setFSMValue :: "bolt_db \<Rightarrow> string \<Rightarrow> json \<Rightarrow> error option \<times> bolt_db" where
  "setFSMValue db key v = fsm_Update db (\<lambda>b. case b of
       None \<Rightarrow> Inl (ErrMsg ''bucket fsm_data not found'') | Some m \<Rightarrow> Inr (Some (kv_put key v m)))"

definition deleteFSMValue :: "bolt_db \<Rightarrow> string \<Rightarrow> error option \<times> bolt_db" where
  "deleteFSMValue db key = fsm_Update db (\<lambda>b. case b of
       None \<Rightarrow> Inr None | Some m \<Rightarrow> Inr (Some (kv_del key m)))"

text \<open>The cursor seeks the first key not below the prefix and walks while the prefix matches.\<close>

definition listFSMKeys :: "bolt_db \<Rightarrow> string \<Rightarrow> string list result" where
  "listFSMKeys db p = db_View db (Inr (case db_fsm db of None \<Rightarrow> []
     | Some b \<Rightarrow> takeWhile (prefix p) (dropWhile (\<lambda>k. k < p) (kv_keys b))))"

fun forEach :: "(string \<Rightarrow> json \<Rightarrow> 's \<Rightarrow> 's result) \<Rightarrow> fsm_bucket \<Rightarrow> 's \<Rightarrow> 's result" where
  "forEach f [] s = Inr s"
| "forEach f ((k, v) # b) s = bindE (f k v s) (forEach f b)"

definition iterateFSM :: "bolt_db \<Rightarrow> (string \<Rightarrow> json \<Rightarrow> 's \<Rightarrow> 's result) \<Rightarrow> 's \<Rightarrow> 's result" where
  "iterateFSM db f s = db_View db (case db_fsm db of None \<Rightarrow> Inr s | Some b \<Rightarrow> forEach f b s)"

section \<open>Well-formed databases\<close>

definition db_wf :: "bolt_db \<Rightarrow> bool" where
  "db_wf db \<longleftrightarrow> (case db_fsm db of None \<Rightarrow> True | Some b \<Rightarrow> kv_wf b)"

text \<open>A log bucket is ordered, and holds each entry under the key of its index.\<close>

definition logs_wf :: "logs_bucket \<Rightarrow> bool" where
  "logs_wf b \<longleftrightarrow> kv_wf b \<and> (\<forall>k \<in> set (kv_keys b). \<exists>v. k = itob v)"

section \<open>Index keys: round trip and order\<close>

lemma byte_bit: "bit (push_bit k (ucast (ucast (drop_bit k v) :: 8 word)) :: u64) n \<longleftrightarrow> n < 64 \<and> k \<le> n \<and> n < k + 8 \<and> bit v n"
  by (auto simp: bit_simps)

lemma btoi_itob: "btoi (itob v) = Some v"
proof -
  have z: "ucast (ucast v :: 8 word) = push_bit 0 (ucast (ucast (drop_bit 0 v) :: 8 word) :: u64)" by simp
  have "the (btoi (itob v)) = v"
  proof (rule bit_word_eqI)
    fix n assume "n < LENGTH(64)"
    then have n: "n < 64" by simp
    have "bit (the (btoi (itob v))) n \<longleftrightarrow> (n < 8 \<or> 8 \<le> n \<and> n < 16 \<or> 16 \<le> n \<and> n < 24 \<or> 24 \<le> n \<and> n < 32
      \<or> 32 \<le> n \<and> n < 40 \<or> 40 \<le> n \<and> n < 48 \<or> 48 \<le> n \<and> n < 56 \<or> 56 \<le> n \<and> n < 64) \<and> bit v n"
      using n by (simp add: btoi_def itob_def bit_or_iff byte_bit z del: push_bit_0_id drop_bit_0) blast
    then show "bit (the (btoi (itob v))) n \<longleftrightarrow> bit v n" using n by linarith
  qed
  then show ?thesis by (simp add: btoi_def itob_def)
qed

interpretation index_key: codec itob btoi "\<lambda>_. True"
  by unfold_locales (rule btoi_itob)

text \<open>Base-256 digits, most significant first.\<close>

definition digits256 :: "nat \<Rightarrow> nat \<Rightarrow> nat list" where
  "digits256 n x = map (\<lambda>i. x div 256 ^ i mod 256) (rev [0..<n])"

lemma digits256_Suc: "digits256 (Suc n) x = (x div 256 ^ n) mod 256 # digits256 n x"
  by (simp add: digits256_def)

lemma digits256_less: "digits256 n x < digits256 n y \<longleftrightarrow> x mod 256 ^ n < y mod 256 ^ n"
proof (induction n)
  case 0
  show ?case by (simp add: digits256_def)
next
  case (Suc n)
  let ?B = "(256::nat) ^ n"
  have s: "z mod 256 ^ Suc n = (z div ?B mod 256) * ?B + z mod ?B" for z :: nat
    by (metis mod_mult2_eq mult.commute power_Suc add.commute)
  have lt: "z mod ?B < ?B" for z by simp
  have step: "a < b \<Longrightarrow> a * ?B + u mod ?B < b * ?B + w mod ?B" for a b u w :: nat
  proof -
    assume "a < b"
    then have "a * ?B + ?B \<le> b * ?B" by (metis Suc_leI add.commute mult_Suc mult_le_mono1)
    then show ?thesis using lt [of u] by linarith
  qed
  show ?case
    using step [of "x div ?B mod 256" "y div ?B mod 256" x y]
      step [of "y div ?B mod 256" "x div ?B mod 256" y x] Suc
    unfolding s digits256_Suc
    by (cases "x div ?B mod 256" "y div ?B mod 256" rule: linorder_cases) auto
qed

lemma map_unat_less: "map unat xs < map unat ys \<longleftrightarrow> xs < (ys :: 8 word list)"
proof (induction xs arbitrary: ys)
  case Nil
  show ?case by (cases ys) simp_all
next
  case (Cons x xs)
  then show ?case
    by (cases ys) (simp_all add: word_less_nat_alt [symmetric] word_unat_eq_iff [symmetric])
qed

lemma unat_byte: "unat (ucast (drop_bit k (v :: u64)) :: 8 word) = unat v div 2 ^ k mod 256"
proof -
  have "unat (drop_bit k v) = unat v div 2 ^ k"
    using unat_drop_bit_eq [of k v] drop_bit_eq_div by metis
  then show ?thesis by (simp add: unsigned_ucast_eq take_bit_eq_mod)
qed

lemma itob_digits: "map unat (itob v) = digits256 8 (unat v)"
proof -
  have b: "unat (ucast v :: 8 word) = unat v mod 256" using unat_byte [of 0 v] by simp
  have r: "rev [0..<8] = [7,6,5,4,3,2,1,0::nat]" by code_simp
  show ?thesis
    unfolding digits256_def r itob_def by (simp only: list.map unat_byte b) simp
qed

lemma itob_less: "itob v < itob w \<longleftrightarrow> v < w"
proof -
  have b: "unat x mod 256 ^ 8 = unat x" for x :: u64
    using unsigned_less [of x, where ?'a = nat] by simp
  have "itob v < itob w \<longleftrightarrow> digits256 8 (unat v) < digits256 8 (unat w)"
    by (simp add: itob_digits [symmetric] map_unat_less)
  also have "\<dots> \<longleftrightarrow> unat v < unat w" using digits256_less [of 8] b by simp
  finally show ?thesis by (simp add: word_less_nat_alt)
qed

section \<open>Lemmas on the log store\<close>

lemma logs_wf_sorted:
  assumes "logs_wf b"
  shows "\<exists>is. kv_keys b = map itob is \<and> sorted_wrt (<) is"
proof -
  have "\<exists>is. kv_keys b = map itob is"
    using assms by (auto simp: logs_wf_def intro!: ex_map_conv [THEN iffD2])
  then obtain "is" where k: "kv_keys b = map itob is" by blast
  then have "sorted_wrt (<) (map itob is)" using assms by (simp add: logs_wf_def kv_wf_def kv_keys_def)
  then have "sorted_wrt (<) is" by (simp add: sorted_wrt_map itob_less)
  with k show ?thesis by blast
qed

lemma store_logs_other:
  "idx \<notin> rl_Index ` set ls \<Longrightarrow> kv_get (store_logs ls b) (itob idx) = kv_get b (itob idx)"
  by (induction ls arbitrary: b) (auto simp: kvm.get_put index_key.enc_inject)

lemma store_logs_get:
  "distinct (map rl_Index ls) \<Longrightarrow> l \<in> set ls \<Longrightarrow>
     kv_get (store_logs ls b) (itob (rl_Index l)) = Some (Some l)"
proof (induction ls arbitrary: b)
  case (Cons a ls)
  then show ?case
    by (cases "l = a") (auto simp: store_logs_other kvm.get_put encodeLog_def)
qed simp

lemma logs_wf_put: "logs_wf b \<Longrightarrow> logs_wf (kv_put (itob i) v b)"
  by (auto simp: logs_wf_def kvm.wf_put kvm.keys_put)

lemma logs_wf_store: "logs_wf b \<Longrightarrow> logs_wf (store_logs ls b)"
  by (induction ls arbitrary: b) (auto simp: logs_wf_put)

lemma delete_range_spec:
  assumes "high < - 1" "logs_wf b"
  shows "\<exists>b'. delete_range i high b = Some b' \<and> logs_wf b' \<and>
           (\<forall>v. kv_get b' (itob v) = (if i \<le> v \<and> v \<le> high then None else kv_get b (itob v)))"
  using assms(2)
proof (induction "unat high + 1 - unat i" arbitrary: i b)
  case 0
  then have "\<not> i \<le> high" by (simp add: word_le_nat_alt)
  then show ?case using 0 by (subst delete_range.simps) auto
next
  case (Suc n)
  have le: "i \<le> high" using Suc.hyps(2) by (simp add: word_le_nat_alt)
  then have "i < -1" using assms(1) by simp
  then have s: "unat (i + 1) = unat i + 1" 
    using unatSuc [of i] by (simp add: add.commute add_eq_0_iff)
  have wf: "logs_wf (kv_del (itob i) b)"
    using Suc.prems by (auto simp: logs_wf_def kvm.wf_del kvm.keys_del)
  have "n = unat high + 1 - unat (i + 1)" using Suc.hyps(2) s by simp
  from Suc.hyps(1) [OF this wf] obtain b' where
    b': "delete_range (i + 1) high (kv_del (itob i) b) = Some b'" "logs_wf b'"
    "\<forall>v. kv_get b' (itob v) = (if i + 1 \<le> v \<and> v \<le> high then None else kv_get (kv_del (itob i) b) (itob v))"
    by blast
  have "i \<le> v \<longleftrightarrow> v = i \<or> i + 1 \<le> v" for v
    using s by (auto simp: word_le_nat_alt word_unat_eq_iff)
  then show ?case using b' le
    by (subst delete_range.simps) (auto simp: kvm.get_del index_key.enc_inject)
qed

lemma delete_range_diverges: "delete_range i (- 1) b = None"
proof (cases "delete_range i (- 1) b")
  case (Some r)
  have "\<not> (high :: u64) = - 1" if "delete_range i high b = Some r" for i high b r
  proof (rule delete_range.raw_induct [where P = "\<lambda>i high b r. \<not> high = - 1", OF _ that])
    fix f and i high :: u64 and b r
    assume IH: "\<And>i high b r. f i high b = Some r \<Longrightarrow> high \<noteq> - 1"
      and eq: "(if i \<le> high then f (i + 1) high (kv_del (itob i) b) else Some b) = Some r"
    show "high \<noteq> - 1"
      using IH [of "i + 1" high] eq by (cases "i \<le> high") auto
  qed
  with Some show ?thesis by blast
qed

section \<open>Lemmas on FSM access\<close>

lemma getFSMValue_Inr:
  "getFSMValue db key = Inr v \<longleftrightarrow> db_view_err db = None \<and>
     v = (case db_fsm db of None \<Rightarrow> None | Some b \<Rightarrow> kv_get b key)"
  by (auto simp: getFSMValue_def db_View_def split: option.splits)

lemma listFSMKeys_eq:
  "db_wf db \<Longrightarrow> db_fsm db = Some b \<Longrightarrow> db_view_err db = None \<Longrightarrow>
     listFSMKeys db p = Inr (filter (prefix p) (kv_keys b))"
  by (simp add: listFSMKeys_def db_View_def db_wf_def kvm.keys_sorted sorted_seek_prefix)

lemma fsm_Update_err: "fsm_Update db body = (Some e, db') \<Longrightarrow> db' = db"
  by (auto simp: fsm_Update_def split: sum.splits option.splits)

lemma fsm_Update_wf:
  assumes "\<And>b. body (Some b) = Inr None \<Longrightarrow> True"
    and "\<And>b b'. kv_wf b \<Longrightarrow> body (Some b) = Inr (Some b') \<Longrightarrow> kv_wf b'"
    and "\<And>b'. body None = Inr (Some b') \<Longrightarrow> kv_wf b'"
    and "db_wf db"
  shows "db_wf (snd (fsm_Update db body))"
  using assms by (auto simp: fsm_Update_def db_wf_def split: sum.splits option.splits)

section \<open>Properties\<close>


text \<open>A log store holding entry 7 in an otherwise empty file.\<close>

definition demo_log_db :: bolt_db where
  "demo_log_db = \<lparr>db_fsm = Some [], db_logs = Some [(itob 7, Some \<lparr>rl_Index = 7, rl_Rest = JNull\<rparr>)],
     db_stable = Some [], db_view_err = None, db_update_err = None\<rparr>"

lemma demo_log_db_simps:
  "db_logs demo_log_db = Some [(itob 7, Some \<lparr>rl_Index = 7, rl_Rest = JNull\<rparr>)]"
  "db_view_err demo_log_db = None" "db_update_err demo_log_db = None"
  by (simp_all add: demo_log_db_def)

lemma demo_logs_wf: "logs_wf [(itob 7, v)]"
  by (auto simp: logs_wf_def kv_wf_def kv_keys_def)

text \<open>In a well-formed log bucket that is not empty, \<open>FirstIndex\<close> and \<open>LastIndex\<close> return the
  smallest and the largest index under which an entry is stored: the big-endian keys make the
  byte order of the cursor the numeric order of the indexes.\<close>

theorem first_last_index:
  assumes "db_logs db = Some b" "db_view_err db = None" "logs_wf b" "b \<noteq> []"
  shows "\<exists>i j. FirstIndex db = Inr i \<and> LastIndex db = Inr j \<and>
     kv_get b (itob i) \<noteq> None \<and> kv_get b (itob j) \<noteq> None \<and>
     (\<forall>v. kv_get b (itob v) \<noteq> None \<longrightarrow> i \<le> v \<and> v \<le> j)"
proof -
  obtain "is" where k: "kv_keys b = map itob is" "sorted_wrt (<) is"
    using logs_wf_sorted [OF assms(3)] by blast
  have ne: "is \<noteq> []" using assms(4) k(1) by (auto simp: kv_keys_def)
  have f: "fst (hd b) = itob (hd is)" and l: "fst (last b) = itob (last is)"
    using k(1) ne assms(4) by (metis kv_keys_def hd_map, metis kv_keys_def last_map)
  have "FirstIndex db = Inr (hd is)" "LastIndex db = Inr (last is)"
    using assms(1,2,4) f l btoi_itob
    by (cases b; simp add: FirstIndex_def LastIndex_def db_View_def)+
  moreover have "sorted is" using k(2) by (rule strict_sorted_imp_sorted)
  note sorted_ends [OF this]
  moreover have "kv_get b (itob v) \<noteq> None \<longleftrightarrow> v \<in> set is" for v
    using kvm.mem_keys [of "itob v" b] by (auto simp: k(1) index_key.enc_inject simp del: not_None_eq)
  ultimately show ?thesis using ne by (metis hd_in_set last_in_set)
qed

theorem first_last_index_witness:
  "\<exists>i j. FirstIndex demo_log_db = Inr i \<and> LastIndex demo_log_db = Inr j \<and> i \<le> 7 \<and> 7 \<le> j"
  using first_last_index [OF demo_log_db_simps(1,2) demo_logs_wf] by (auto simp: kv_get_Cons)

text \<open>\<open>StoreLogs\<close> keeps the log bucket well-formed; every entry of a batch with distinct indexes
  is read back by \<open>GetLog\<close> under its index, and \<open>GetLog\<close> is unchanged at every other index.\<close>

theorem stored_logs_read_back:
  assumes "db_logs db = Some b" "db_view_err db = None" "logs_wf b"
    and "distinct (map rl_Index logs)" "StoreLogs db logs = Inr db'"
  shows "(\<forall>l \<in> set logs. GetLog db' (rl_Index l) = Inr l) \<and>
     (\<forall>v. v \<notin> rl_Index ` set logs \<longrightarrow> GetLog db' v = GetLog db v) \<and>
     (\<exists>b'. db_logs db' = Some b' \<and> logs_wf b')"
proof -
  have db': "db' = db\<lparr>db_logs := Some (store_logs logs b)\<rparr>"
    using assms(1,5) by (auto simp: StoreLogs_def split: option.splits)
  then show ?thesis
    using assms(1,2,4) logs_wf_store [OF assms(3)]
    by (auto simp: GetLog_def db_View_def store_logs_get store_logs_other decodeLog_def)
qed

theorem stored_logs_read_back_witness:
  "\<exists>db'. StoreLogs demo_log_db [\<lparr>rl_Index = 8, rl_Rest = JNull\<rparr>] = Inr db' \<and>
     GetLog db' 8 = Inr \<lparr>rl_Index = 8, rl_Rest = JNull\<rparr> \<and> GetLog db' 7 = GetLog demo_log_db 7"
proof -
  obtain db' where s: "StoreLogs demo_log_db [\<lparr>rl_Index = 8, rl_Rest = JNull\<rparr>] = Inr db'"
    by (simp add: StoreLogs_def demo_log_db_simps)
  show ?thesis
    using stored_logs_read_back [OF demo_log_db_simps(1,2) demo_logs_wf _ s] s by simp
qed

text \<open>C39: \<open>DeleteRange\<close> removes exactly the entries between its bounds and keeps the bucket well-formed, for
  every upper bound but one: with the largest \<open>uint64\<close> the loop counter wraps around and the call
  never returns, whatever the lower bound and the stored entries are.\<close>

theorem delete_range_exact:
  assumes "db_logs db = Some b" "db_view_err db = None" "db_update_err db = None" "logs_wf b"
  shows "if high = - 1 then DeleteRange db low high = None
     else \<exists>db' b'. DeleteRange db low high = Some (Inr db') \<and> db_logs db' = Some b' \<and> logs_wf b' \<and>
       (\<forall>v. GetLog db' v = (if low \<le> v \<and> v \<le> high then Inl (ErrMsg ''log not found'') else GetLog db v))"
proof (cases "high = - 1")
  case True
  then show ?thesis using assms(1) by (simp add: DeleteRange_def delete_range_diverges)
next
  case False
  then have "high < - 1" using word_order.extremum [of high] by (simp add: order_less_le)
  then obtain b' where b': "delete_range low high b = Some b'" "logs_wf b'"
    "\<forall>v. kv_get b' (itob v) = (if low \<le> v \<and> v \<le> high then None else kv_get b (itob v))"
    using delete_range_spec [OF _ assms(4)] by blast
  then have "DeleteRange db low high = Some (Inr (db\<lparr>db_logs := Some b'\<rparr>))"
    using assms(1,3) by (simp add: DeleteRange_def)
  moreover have "GetLog (db\<lparr>db_logs := Some b'\<rparr>) v =
      (if low \<le> v \<and> v \<le> high then Inl (ErrMsg ''log not found'') else GetLog db v)" for v
    using b'(3) assms(1,2) by (simp add: GetLog_def db_View_def)
  ultimately show ?thesis using b'(2) False by auto
qed

theorem delete_range_exact_witness:
  "(\<exists>db'. DeleteRange demo_log_db 5 9 = Some (Inr db') \<and> GetLog db' 7 = Inl (ErrMsg ''log not found'')) \<and>
   DeleteRange demo_log_db 1 (- 1) = None"
  using delete_range_exact [OF demo_log_db_simps demo_logs_wf, of 9 5]
    delete_range_exact [OF demo_log_db_simps demo_logs_wf, of "- 1" 1] by auto

end
