(* ===== verification/Fsm.thy ===== *)
theory Fsm
  imports Bolt
begin

text \<open>
  The replicated state machine \<open>internal/repository/fsm.go\<close>, with \<open>Snapshot.Persist\<close> of
  \<open>bolt.go\<close>: the commands of the Raft log, their application to the FSM bucket in one BoltDB
  transaction each, and snapshot and restore. The lemmas show that a rejected command changes
  nothing, that the bucket stays ordered, what each command does to each key, and that a
  replica restored from a snapshot continues as the one that took it.
\<close>

section \<open>Commands and payloads\<close>

record fsm_command =
  fc_Op :: string
  fc_Key :: string
  fc_Value :: json

record fsm_kv =
  fk_Key :: string
  fk_Value :: json
  fk_Delete :: bool

record fsm_bootstrap_user =
  bu_Username :: string
  bu_PasswordHash :: string
  bu_Password :: string
  bu_Roles :: "string list"
  bu_Channels :: "string list"

record fsm_bootstrap_payload =
  bp_Global :: "global_config option"
  bp_Users :: "fsm_bootstrap_user list"
  bp_Channels :: "channel list"
  bp_InternalAuthEnabled :: "bool option"
  bp_OIDCProviders :: "oidc_provider list"

text \<open>A \<open>[]byte\<close> field without bytes is \<open>JBad\<close> here and is dropped by \<open>omitempty\<close>.\<close>

definition marshal_fsm_kv :: "fsm_kv \<Rightarrow> json" where
  "marshal_fsm_kv e = JObj (
     jreq ''key'' (JStr (fk_Key e)) (
     jopt (fk_Value e \<noteq> JBad) ''value'' (JB64 (fk_Value e)) (
     jopt (fk_Delete e) ''delete'' (JBool (fk_Delete e)) [])))"

fun dec_b64 :: "json \<Rightarrow> json option" where
  "dec_b64 (JB64 d) = Some d"
| "dec_b64 _ = None"

definition unmarshal_fsm_kv :: "json \<Rightarrow> fsm_kv option" where
  "unmarshal_fsm_kv d = do {
     fs \<leftarrow> jobj d;
     k \<leftarrow> jstr fs ''key'';
     v \<leftarrow> jfield JBad dec_b64 fs ''value'';
     del \<leftarrow> jbool fs ''delete'';
     Some \<lparr>fk_Key = k, fk_Value = v, fk_Delete = del\<rparr> }"

definition marshal_multi :: "fsm_kv list \<Rightarrow> json" where
  "marshal_multi es = JObj (jreq ''entries'' (JArr (map marshal_fsm_kv es)) [])"

definition unmarshal_multi :: "json \<Rightarrow> fsm_kv list option" where
  "unmarshal_multi d = do { fs \<leftarrow> jobj d; jlist unmarshal_fsm_kv fs ''entries'' }"

definition marshal_bootstrap_user :: "fsm_bootstrap_user \<Rightarrow> json" where
  "marshal_bootstrap_user u = JObj (
     jreq ''username'' (JStr (bu_Username u)) (
     jreq ''password_hash'' (JStr (bu_PasswordHash u)) (
     jopt (bu_Password u \<noteq> []) ''password'' (JStr (bu_Password u)) (
     jreq ''roles'' (JStrs (bu_Roles u)) (
     jreq ''channels'' (JStrs (bu_Channels u)) [])))))"

definition unmarshal_bootstrap_user :: "json \<Rightarrow> fsm_bootstrap_user option" where
  "unmarshal_bootstrap_user d = do {
     fs \<leftarrow> jobj d;
     name \<leftarrow> jstr fs ''username'';
     hash \<leftarrow> jstr fs ''password_hash'';
     pw \<leftarrow> jstr fs ''password'';
     roles \<leftarrow> jstrs fs ''roles'';
     chans \<leftarrow> jstrs fs ''channels'';
     Some \<lparr>bu_Username = name, bu_PasswordHash = hash, bu_Password = pw, bu_Roles = roles,
       bu_Channels = chans\<rparr> }"

definition marshal_global :: "global_config \<Rightarrow> json" where
  "marshal_global g = JObj (
     jreq ''server'' (marshal_server_config (gc_Server g)) (
     jreq ''defaults'' (marshal_defaults_config (gc_Defaults g)) []))"

definition zero_server_config :: server_config where
  "zero_server_config = the (unmarshal_server_config JNull)"

definition zero_defaults_config :: defaults_config where
  "zero_defaults_config = the (unmarshal_defaults_config JNull)"

definition unmarshal_global :: "json \<Rightarrow> global_config option" where
  "unmarshal_global d = do {
     fs \<leftarrow> jobj d;
     s \<leftarrow> jfield zero_server_config unmarshal_server_config fs ''server'';
     c \<leftarrow> jfield zero_defaults_config unmarshal_defaults_config fs ''defaults'';
     Some \<lparr>gc_Server = s, gc_Defaults = c\<rparr> }"

text \<open>A pointer field: absent or \<open>null\<close> is nil.\<close>

definition jptr :: "(json \<Rightarrow> 'a option) \<Rightarrow> fields \<Rightarrow> string \<Rightarrow> 'a option option" where
  "jptr dec = jfield None (\<lambda>v. map_option Some (dec v))"

definition marshal_bootstrap :: "fsm_bootstrap_payload \<Rightarrow> json" where
  "marshal_bootstrap p = JObj (
     jopt (bp_Global p \<noteq> None) ''global'' (case bp_Global p of None \<Rightarrow> JNull | Some g \<Rightarrow> marshal_global g) (
     jopt (bp_Users p \<noteq> []) ''users'' (JArr (map marshal_bootstrap_user (bp_Users p))) (
     jopt (bp_Channels p \<noteq> []) ''channels'' (JArr (map marshal_channel (bp_Channels p))) (
     jopt (bp_InternalAuthEnabled p \<noteq> None) ''internal_auth_enabled''
       (case bp_InternalAuthEnabled p of None \<Rightarrow> JNull | Some b \<Rightarrow> JBool b) (
     jopt (bp_OIDCProviders p \<noteq> []) ''oidc_providers''
       (JArr (map marshal_oidc_provider (bp_OIDCProviders p))) [])))))"

definition unmarshal_bootstrap :: "json \<Rightarrow> fsm_bootstrap_payload option" where
  "unmarshal_bootstrap d = do {
     fs \<leftarrow> jobj d;
     g \<leftarrow> jptr unmarshal_global fs ''global'';
     us \<leftarrow> jlist unmarshal_bootstrap_user fs ''users'';
     cs \<leftarrow> jlist unmarshal_channel fs ''channels'';
     ia \<leftarrow> jptr dec_bool fs ''internal_auth_enabled'';
     ps \<leftarrow> jlist unmarshal_oidc_provider fs ''oidc_providers'';
     Some \<lparr>bp_Global = g, bp_Users = us, bp_Channels = cs, bp_InternalAuthEnabled = ia,
       bp_OIDCProviders = ps\<rparr> }"

section \<open>Keys\<close>

definition validateKey :: "string \<Rightarrow> error option" where
  "validateKey key =
     (if Contains key ''..'' then Some (ErrMsg ''invalid key: contains ..'')
      else if HasPrefix key ''/'' then None
      else Some (ErrMsg ''invalid key: must start with /''))"

definition usernameIndexKey :: "string \<Rightarrow> string" where
  "usernameIndexKey username = ''/users/by-username/'' @ username"

definition usernameIndexValue :: "string \<Rightarrow> json" where
  "usernameIndexValue userID = JObj (jreq ''user_id'' (JStr userID) [])"

definition unmarshal_usernameIndex :: "json \<Rightarrow> string option" where
  "unmarshal_usernameIndex d = do { fs \<leftarrow> jobj d; jstr fs ''user_id'' }"

section \<open>Applying commands\<close>

definition no_bucket :: error where
  "no_bucket = ErrMsg ''bucket fsm_data not found''"

definition json_error :: error where
  "json_error = ErrMsg ''json''"

definition applySet :: "bolt_db \<Rightarrow> string \<Rightarrow> json \<Rightarrow> error option \<times> bolt_db" where
  "applySet db key v = fsm_Update db (\<lambda>b. case b of
       None \<Rightarrow> Inl no_bucket | Some m \<Rightarrow> Inr (Some (kv_put key v m)))"

definition applyDelete :: "bolt_db \<Rightarrow> string \<Rightarrow> error option \<times> bolt_db" where
  "applyDelete db key = fsm_Update db (\<lambda>b. case b of
       None \<Rightarrow> Inr None | Some m \<Rightarrow> Inr (Some (kv_del key m)))"

definition applyCreateChannel :: "bolt_db \<Rightarrow> string \<Rightarrow> json \<Rightarrow> error option \<times> bolt_db" where
  "applyCreateChannel db key v = fsm_Update db (\<lambda>b. case b of
       None \<Rightarrow> Inl no_bucket
     | Some m \<Rightarrow> (case kv_get m key of
           Some _ \<Rightarrow> Inl ErrAlreadyExists
         | None \<Rightarrow> Inr (Some (kv_put key v m))))"

definition applyCreateUser :: "bolt_db \<Rightarrow> string \<Rightarrow> json \<Rightarrow> error option \<times> bolt_db" where
  "applyCreateUser db key v = fsm_Update db (\<lambda>b. case b of
       None \<Rightarrow> Inl no_bucket
     | Some m \<Rightarrow>
         (if kv_get m key \<noteq> None then Inl ErrAlreadyExists
          else (let m1 = kv_put key v m in
            (case unmarshal_user v of
               None \<Rightarrow> Inl json_error
             | Some u \<Rightarrow>
                 (if us_Username u = [] then Inl (ErrMsg ''create user: username required'')
                  else Inr (Some (kv_put (usernameIndexKey (us_Username u) @ ''/'')
                         (usernameIndexValue (us_ID u)) m1)))))))"

fun first_error :: "('a \<Rightarrow> error option) \<Rightarrow> 'a list \<Rightarrow> error option" where
  "first_error f [] = None"
| "first_error f (x # xs) = (case f x of Some e \<Rightarrow> Some e | None \<Rightarrow> first_error f xs)"

fun multi_entries :: "fsm_kv list \<Rightarrow> fsm_bucket \<Rightarrow> fsm_bucket" where
  "multi_entries [] m = m"
| "multi_entries (e # es) m =
     (if fk_Delete e then multi_entries es (kv_del (fk_Key e) m)
      else multi_entries es (kv_put (fk_Key e) (fk_Value e) m))"

definition applySetMulti :: "bolt_db \<Rightarrow> json \<Rightarrow> error option \<times> bolt_db" where
  "applySetMulti db v = (case unmarshal_multi v of
       None \<Rightarrow> (Some json_error, db)
     | Some entries \<Rightarrow> (case first_error (\<lambda>e. validateKey (fk_Key e)) entries of
           Some e \<Rightarrow> (Some e, db)
         | None \<Rightarrow> fsm_Update db (\<lambda>b. case b of
               None \<Rightarrow> Inl no_bucket | Some m \<Rightarrow> Inr (Some (multi_entries entries m)))))"

definition boot_global :: "global_config option \<Rightarrow> fsm_bucket \<Rightarrow> fsm_bucket" where
  "boot_global g m = (case g of None \<Rightarrow> m
     | Some c \<Rightarrow> kv_put ''/global/defaults/'' (marshal_defaults_config (gc_Defaults c))
         (kv_put ''/global/server/'' (marshal_server_config (gc_Server c)) m))"

definition boot_user :: "fsm_bootstrap_user \<Rightarrow> user" where
  "boot_user u = \<lparr>us_ID = bu_Username u, us_Username = bu_Username u,
     us_PasswordHash = bu_PasswordHash u, us_OIDCSubjects = [], us_ExternalIdentities = [],
     us_Roles = bu_Roles u, us_Channels = bu_Channels u\<rparr>"

fun boot_users :: "fsm_bootstrap_user list \<Rightarrow> fsm_bucket \<Rightarrow> fsm_bucket result" where
  "boot_users [] m = Inr m"
| "boot_users (u # us) m =
     (if bu_Username u = [] then Inl (ErrMsg ''username required'')
      else if bu_Password u \<noteq> [] then Inl (ErrMsg ''plaintext password must be hashed before replication'')
      else if bu_PasswordHash u = [] then Inl (ErrMsg ''password_hash required'')
      else boot_users us
        (kv_put (usernameIndexKey (bu_Username u) @ ''/'') (usernameIndexValue (bu_Username u))
          (kv_put (''/users/'' @ bu_Username u @ ''/'') (marshal_user (boot_user u)) m)))"

fun boot_channels :: "channel list \<Rightarrow> fsm_bucket \<Rightarrow> fsm_bucket result" where
  "boot_channels [] m = Inr m"
| "boot_channels (p # ps) m =
     (if ch_ID p = [] then Inl (ErrMsg ''channel ID required'')
      else boot_channels ps (kv_put (''/channels/'' @ ch_ID p @ ''/'') (marshal_channel p) m))"

definition boot_auth :: "fsm_bootstrap_payload \<Rightarrow> fsm_bucket \<Rightarrow> fsm_bucket" where
  "boot_auth p m =
     (let m1 = (case bp_InternalAuthEnabled p of None \<Rightarrow> m
                | Some b \<Rightarrow> kv_put ''/global/auth/internal_enabled'' (JBool b) m)
      in if bp_OIDCProviders p \<noteq> []
         then kv_put ''/global/auth/oidc_providers'' (JArr (map marshal_oidc_provider (bp_OIDCProviders p))) m1
         else m1)"

definition applyBootstrap :: "bolt_db \<Rightarrow> json \<Rightarrow> error option \<times> bolt_db" where
  "applyBootstrap db v = (case unmarshal_bootstrap v of
       None \<Rightarrow> (Some json_error, db)
     | Some p \<Rightarrow> fsm_Update db (\<lambda>b. case b of
           None \<Rightarrow> Inl no_bucket
         | Some m \<Rightarrow>
             (if m \<noteq> [] then Inl (ErrMsg ''cannot apply bootstrap: FSM already has data'')
              else bindE (boot_users (bp_Users p) (boot_global (bp_Global p) m)) (\<lambda>m1.
                   bindE (boot_channels (bp_Channels p) m1) (\<lambda>m2.
                   Inr (Some (boot_auth p m2)))))))"

text \<open>\<open>FSM.Apply\<close>: \<open>None\<close> is a log entry whose data is no command.\<close>

definition FSM_Apply :: "bolt_db \<Rightarrow> fsm_command option \<Rightarrow> error option \<times> bolt_db" where
  "FSM_Apply db log = (case log of
       None \<Rightarrow> (Some json_error, db)
     | Some cmd \<Rightarrow>
         (case (if fc_Op cmd \<noteq> ''bootstrap'' \<and> fc_Op cmd \<noteq> ''set-multi''
                then validateKey (fc_Key cmd) else None) of
            Some e \<Rightarrow> (Some e, db)
          | None \<Rightarrow>
              (if fc_Op cmd = ''set'' then applySet db (fc_Key cmd) (fc_Value cmd)
               else if fc_Op cmd = ''set-json'' then applySet db (fc_Key cmd) (fc_Value cmd)
               else if fc_Op cmd = ''set-multi'' then applySetMulti db (fc_Value cmd)
               else if fc_Op cmd = ''delete'' then applyDelete db (fc_Key cmd)
               else if fc_Op cmd = ''create-channel'' then applyCreateChannel db (fc_Key cmd) (fc_Value cmd)
               else if fc_Op cmd = ''create-user'' then applyCreateUser db (fc_Key cmd) (fc_Value cmd)
               else if fc_Op cmd = ''bootstrap'' then applyBootstrap db (fc_Value cmd)
               else (Some (ErrMsg (''unknown operation: '' @ fc_Op cmd)), db))))"

text \<open>A replica applies the committed log entry by entry.\<close>

fun fsm_run :: "bolt_db \<Rightarrow> fsm_command option list \<Rightarrow> bolt_db" where
  "fsm_run db [] = db"
| "fsm_run db (c # cs) = fsm_run (snd (FSM_Apply db c)) cs"

section \<open>Snapshot and restore\<close>

text \<open>\<open>Snapshot.Persist\<close> copies every binding; the document is what it writes to the sink.\<close>

definition Persist :: "bolt_db \<Rightarrow> json result" where
  "Persist db = bindE (iterateFSM db (\<lambda>k v s. Inr (kv_put k v s)) []) (\<lambda>snapshot.
     Inr (JObj (jreq ''data'' (JObj (map (\<lambda>(k, v). (k, JB64 v)) snapshot)) [])))"

fun dec_data :: "json \<Rightarrow> fsm_bucket option" where
  "dec_data (JObj fs) = mapO (\<lambda>(k, v). map_option (Pair k) (dec_b64 v)) fs"
| "dec_data _ = None"

fun clear_keys :: "string list \<Rightarrow> fsm_bucket \<Rightarrow> fsm_bucket" where
  "clear_keys [] m = m"
| "clear_keys (k # ks) m = clear_keys ks (kv_del k m)"

definition clearBucket :: "fsm_bucket \<Rightarrow> fsm_bucket" where
  "clearBucket m = clear_keys (kv_keys m) m"

definition clearAll :: "bolt_db \<Rightarrow> error option \<times> bolt_db" where
  "clearAll db = fsm_Update db (\<lambda>b. case b of None \<Rightarrow> Inr None | Some m \<Rightarrow> Inr (Some (clearBucket m)))"

text \<open>The reader yields an error, no bytes, or a document.\<close>

definition Restore :: "bolt_db \<Rightarrow> json option result \<Rightarrow> error option \<times> bolt_db" where
  "Restore db rc = (case rc of
       Inl e \<Rightarrow> (Some e, db)
     | Inr None \<Rightarrow> clearAll db
     | Inr (Some d) \<Rightarrow> (case do { fs \<leftarrow> jobj d; jfield [] dec_data fs ''data'' } of
           None \<Rightarrow> (Some (ErrMsg ''invalid snapshot data''), db)
         | Some snap \<Rightarrow> fsm_Update db (\<lambda>b. case b of
               None \<Rightarrow> Inl no_bucket
             | Some m \<Rightarrow> Inr (Some (fold (\<lambda>(k, v). kv_put k v) snap (clearBucket m))))))"

text \<open>The names that \<open>create-user\<close> and \<open>bootstrap\<close> put into keys, which \<open>Apply\<close> does not pass to
  \<open>validateKey\<close>, have no two dots in a row.\<close>

definition no_dots :: "string \<Rightarrow> bool" where
  "no_dots s \<longleftrightarrow> \<not> Contains s ''..''"

definition names_clean :: "fsm_command option \<Rightarrow> bool" where
  "names_clean log = (case log of None \<Rightarrow> True
     | Some cmd \<Rightarrow>
         (if fc_Op cmd = ''create-user''
          then (case unmarshal_user (fc_Value cmd) of None \<Rightarrow> True | Some u \<Rightarrow> no_dots (us_Username u))
          else if fc_Op cmd = ''bootstrap''
          then (case unmarshal_bootstrap (fc_Value cmd) of None \<Rightarrow> True
              | Some p \<Rightarrow> list_all (\<lambda>u. no_dots (bu_Username u)) (bp_Users p) \<and>
                  list_all (\<lambda>c. no_dots (ch_ID c)) (bp_Channels p))
          else True))"

text \<open>The databases a replica can have: it starts empty, applies entries of the log, takes over a
  snapshot of another replica whatever it held before, or keeps its data when a restore fails.\<close>

inductive replica_db :: "bolt_db \<Rightarrow> bool" where
  fresh: "db_fsm db = Some [] \<Longrightarrow> replica_db db"
| entry: "replica_db db \<Longrightarrow> names_clean c \<Longrightarrow> replica_db (snd (FSM_Apply db c))"
| install: "replica_db src \<Longrightarrow> Persist src = Inr doc \<Longrightarrow> db_fsm db \<noteq> None \<Longrightarrow>
    Restore db (Inr (Some doc)) = (None, db') \<Longrightarrow> replica_db db'"
| emptied: "db_fsm db \<noteq> None \<Longrightarrow> Restore db (Inr None) = (None, db') \<Longrightarrow> replica_db db'"
| refused: "replica_db db \<Longrightarrow> Restore db rc = (Some e, db') \<Longrightarrow> replica_db db'"

section \<open>Round trips of the payloads\<close>

lemma fsm_kv_roundtrip: "unmarshal_fsm_kv (marshal_fsm_kv e) = Some e"
proof -
  have "jfield JBad dec_b64 (jopt (v \<noteq> JBad) ''value'' (JB64 v) (jopt b ''delete'' (JBool b) [])) ''value'' = Some v"
    for v b by (rule jfield_opt) (auto simp: json_simps)
  then show ?thesis by (simp add: marshal_fsm_kv_def unmarshal_fsm_kv_def json_simps)
qed

interpretation fsm_kv_json: codec marshal_fsm_kv unmarshal_fsm_kv "\<lambda>_. True"
  by unfold_locales (rule fsm_kv_roundtrip)

lemma multi_roundtrip: "unmarshal_multi (marshal_multi es) = Some es"
  by (simp add: marshal_multi_def unmarshal_multi_def json_simps fsm_kv_json.dec_enc_list)

lemma bootstrap_user_roundtrip: "unmarshal_bootstrap_user (marshal_bootstrap_user u) = Some u"
  by (simp add: marshal_bootstrap_user_def unmarshal_bootstrap_user_def json_simps)

interpretation bootstrap_user_json: codec marshal_bootstrap_user unmarshal_bootstrap_user "\<lambda>_. True"
  by unfold_locales (rule bootstrap_user_roundtrip)

lemma config_not_null:
  "marshal_server_config s \<noteq> JNull" "marshal_defaults_config c \<noteq> JNull" "marshal_global g \<noteq> JNull"
  by (simp_all add: marshal_server_config_def marshal_defaults_config_def marshal_global_def)

lemma global_roundtrip: "unmarshal_global (marshal_global g) = Some g"
  by (simp add: marshal_global_def unmarshal_global_def json_simps config_not_null
      server_config_roundtrip defaults_config_roundtrip)

lemma jptr_opt:
  assumes "jlookup fs k = None" "\<And>x. enc x \<noteq> JNull" "\<And>x. dec (enc x) = Some x"
  shows "jptr dec (jopt (p \<noteq> None) k (case p of None \<Rightarrow> JNull | Some x \<Rightarrow> enc x) fs) k = Some p"
  unfolding jptr_def by (rule jfield_opt) (use assms in auto)

lemma jptr_other: "a \<noteq> k \<Longrightarrow> jptr dec (jopt c a v fs) k = jptr dec fs k"
  by (simp add: jptr_def json_simps)

lemma jlist_arr_opt:
  "jlookup fs k = None \<Longrightarrow> mapO dec (map enc xs) = Some xs \<Longrightarrow>
     jlist dec (jopt (xs \<noteq> []) k (JArr (map enc xs)) fs) k = Some xs"
  unfolding jlist_def by (rule jlist_opt) simp_all

lemma jlist_other: "a \<noteq> k \<Longrightarrow> jlist dec (jopt c a v fs) k = jlist dec fs k"
  by (simp add: jlist_def json_simps)

lemma bootstrap_roundtrip: "unmarshal_bootstrap (marshal_bootstrap p) = Some p"
  by (simp del: not_None_eq add: marshal_bootstrap_def unmarshal_bootstrap_def jlookup_jopt jptr_opt [where enc = JBool]
      jptr_opt [where enc = marshal_global] jptr_other jlist_arr_opt jlist_other global_roundtrip
      config_not_null bootstrap_user_json.dec_enc_list channel_json.dec_enc_list
      oidc_provider_json.dec_enc_list)

interpretation bootstrap_json: codec marshal_bootstrap unmarshal_bootstrap "\<lambda>_. True"
  by unfold_locales (rule bootstrap_roundtrip)

lemma usernameIndex_roundtrip: "unmarshal_usernameIndex (usernameIndexValue i) = Some i"
  by (simp add: unmarshal_usernameIndex_def usernameIndexValue_def json_simps)

interpretation username_index_json: codec usernameIndexValue unmarshal_usernameIndex "\<lambda>_. True"
  by unfold_locales (rule usernameIndex_roundtrip)

section \<open>Every command is atomic and keeps the bucket ordered\<close>

lemmas apply_defs = applySet_def applyDelete_def applyCreateChannel_def applyCreateUser_def
  applySetMulti_def applyBootstrap_def

lemma apply_err:
  "applySet db k v = (Some e, db') \<Longrightarrow> db' = db"
  "applyDelete db k = (Some e, db') \<Longrightarrow> db' = db"
  "applyCreateChannel db k v = (Some e, db') \<Longrightarrow> db' = db"
  "applyCreateUser db k v = (Some e, db') \<Longrightarrow> db' = db"
  "applySetMulti db v = (Some e, db') \<Longrightarrow> db' = db"
  "applyBootstrap db v = (Some e, db') \<Longrightarrow> db' = db"
  by (auto simp: apply_defs dest: fsm_Update_err split: option.splits)

lemma FSM_Apply_err: "FSM_Apply db c = (Some e, db') \<Longrightarrow> db' = db"
  by (auto simp: FSM_Apply_def split: option.splits if_splits dest: apply_err)

lemma kv_wf_multi: "kv_wf m \<Longrightarrow> kv_wf (multi_entries es m)"
  by (induction es arbitrary: m) (auto simp: kvm.wf_put kvm.wf_del)

lemma kv_wf_boot_users: "boot_users us m = Inr m' \<Longrightarrow> kv_wf m \<Longrightarrow> kv_wf m'"
  by (induction us arbitrary: m) (auto simp: kvm.wf_put split: if_splits)

lemma kv_wf_boot_channels: "boot_channels ps m = Inr m' \<Longrightarrow> kv_wf m \<Longrightarrow> kv_wf m'"
  by (induction ps arbitrary: m) (auto simp: kvm.wf_put split: if_splits)

lemma kv_wf_boot_global: "kv_wf m \<Longrightarrow> kv_wf (boot_global g m)"
  by (simp add: boot_global_def kvm.wf_put split: option.splits)

lemma kv_wf_boot_auth: "kv_wf m \<Longrightarrow> kv_wf (boot_auth p m)"
  by (simp add: boot_auth_def Let_def kvm.wf_put split: option.splits)

lemma fsm_Update_Some_wf:
  assumes "\<And>m m'. kv_wf m \<Longrightarrow> f m = Inr (Some m') \<Longrightarrow> kv_wf m'" "db_wf db"
    and "\<And>m'. r = Inr (Some m') \<Longrightarrow> kv_wf m'"
  shows "db_wf (snd (fsm_Update db (\<lambda>b. case b of None \<Rightarrow> r | Some m \<Rightarrow> f m)))"
  using assms by (auto simp: fsm_Update_def db_wf_def split: sum.splits option.splits)

lemma apply_wf:
  assumes "db_wf db"
  shows "db_wf (snd (applySet db k v))" "db_wf (snd (applyDelete db k))"
    "db_wf (snd (applyCreateChannel db k v))" "db_wf (snd (applyCreateUser db k v))"
    "db_wf (snd (applySetMulti db v))" "db_wf (snd (applyBootstrap db v))"
  unfolding applySet_def applyDelete_def applyCreateChannel_def applyCreateUser_def
    applySetMulti_def applyBootstrap_def
       apply ((rule fsm_Update_Some_wf; (auto simp: kvm.wf_put kvm.wf_del Let_def assms
            split: option.splits if_splits)[1])+)[4]
   apply (auto simp: assms split: option.splits intro!: fsm_Update_Some_wf kv_wf_multi)[1]
  apply (auto simp: assms bindE_Inr_iff split: option.splits if_splits intro!: fsm_Update_Some_wf
      kv_wf_boot_auth elim!: kv_wf_boot_channels kv_wf_boot_users intro: kv_wf_boot_global [OF kv_wf_Nil])[1]
  done

lemma FSM_Apply_wf: "db_wf db \<Longrightarrow> db_wf (snd (FSM_Apply db c))"
  by (simp add: FSM_Apply_def apply_wf split: option.splits)

lemma fsm_run_wf: "db_wf db \<Longrightarrow> db_wf (fsm_run db cs)"
  by (induction cs arbitrary: db) (simp_all add: FSM_Apply_wf)

lemma fsm_run_append: "fsm_run db (xs @ ys) = fsm_run (fsm_run db xs) ys"
  by (induction xs arbitrary: db) simp_all

section \<open>What the commands do\<close>

lemma multi_entries_get:
  "kv_get (multi_entries es m) k = (case find (\<lambda>e. fk_Key e = k) (rev es) of
       None \<Rightarrow> kv_get m k
     | Some e \<Rightarrow> if fk_Delete e then None else Some (fk_Value e))"
proof (induction es arbitrary: m)
  case (Cons e es)
  have f: "find P (xs @ [x]) = (case find P xs of None \<Rightarrow> if P x then Some x else None | Some y \<Rightarrow> Some y)"
    for P xs and x :: fsm_kv by (induction xs) auto
  show ?case using Cons by (auto simp: f kvm.get_put kvm.get_del split: option.splits)
qed simp

lemma fsm_Update_ok:
  "fsm_Update db body = (None, db') \<longleftrightarrow>
     db_update_err db = None \<and> (\<exists>b. body (db_fsm db) = Inr b \<and> db' = db\<lparr>db_fsm := b\<rparr>)"
  by (auto simp: fsm_Update_def split: sum.splits option.splits)

lemma applySet_ok:
  "applySet db k v = (None, db') \<longleftrightarrow>
     db_update_err db = None \<and> (\<exists>m. db_fsm db = Some m \<and> db' = db\<lparr>db_fsm := Some (kv_put k v m)\<rparr>)"
  by (auto simp: applySet_def fsm_Update_ok split: option.splits)

lemma applyCreateChannel_ok:
  "applyCreateChannel db k v = (None, db') \<longleftrightarrow>
     db_update_err db = None \<and> (\<exists>m. db_fsm db = Some m \<and> kv_get m k = None \<and>
       db' = db\<lparr>db_fsm := Some (kv_put k v m)\<rparr>)"
  by (auto simp: applyCreateChannel_def fsm_Update_ok split: option.splits)

lemma applyCreateUser_ok:
  "applyCreateUser db k v = (None, db') \<longleftrightarrow>
     db_update_err db = None \<and> (\<exists>m u. db_fsm db = Some m \<and> kv_get m k = None \<and>
       unmarshal_user v = Some u \<and> us_Username u \<noteq> [] \<and>
       db' = db\<lparr>db_fsm := Some (kv_put (usernameIndexKey (us_Username u) @ ''/'')
                (usernameIndexValue (us_ID u)) (kv_put k v m))\<rparr>)"
  by (auto simp: applyCreateUser_def fsm_Update_ok Let_def split: option.splits if_splits)

lemma boot_users_ok:
  "boot_users us m = Inr m' \<Longrightarrow>
     \<forall>u \<in> set us. bu_Username u \<noteq> [] \<and> bu_Password u = [] \<and> bu_PasswordHash u \<noteq> []"
  by (induction us arbitrary: m) (auto split: if_splits)

lemma boot_channels_ok: "boot_channels ps m = Inr m' \<Longrightarrow> \<forall>p \<in> set ps. ch_ID p \<noteq> []"
  by (induction ps arbitrary: m) (auto split: if_splits)

section \<open>Replicas\<close>

text \<open>The outcome of a command depends on the FSM bucket alone, and so do the states of replicas
  whose environments behave alike; the other buckets are untouched.\<close>

definition same_fsm :: "bolt_db \<Rightarrow> bolt_db \<Rightarrow> bool" where
  "same_fsm a b \<longleftrightarrow> db_fsm a = db_fsm b \<and> db_update_err a = db_update_err b"

lemma fsm_Update_same:
  "same_fsm a b \<Longrightarrow> fst (fsm_Update a f) = fst (fsm_Update b f) \<and> same_fsm (snd (fsm_Update a f)) (snd (fsm_Update b f))"
  by (auto simp: same_fsm_def fsm_Update_def split: sum.splits option.splits)

lemma FSM_Apply_same:
  "same_fsm a b \<Longrightarrow> fst (FSM_Apply a c) = fst (FSM_Apply b c) \<and> same_fsm (snd (FSM_Apply a c)) (snd (FSM_Apply b c))"
  by (auto simp: FSM_Apply_def apply_defs fsm_Update_same split: option.splits)

lemma fsm_run_same: "same_fsm a b \<Longrightarrow> same_fsm (fsm_run a cs) (fsm_run b cs)"
  by (induction cs arbitrary: a b) (simp_all add: FSM_Apply_same)

lemma fsm_Update_frame:
  "db_logs (snd (fsm_Update db f)) = db_logs db" "db_stable (snd (fsm_Update db f)) = db_stable db"
  "db_view_err (snd (fsm_Update db f)) = db_view_err db"
  "db_update_err (snd (fsm_Update db f)) = db_update_err db"
  by (simp_all add: fsm_Update_def split: sum.splits option.splits)

lemma FSM_Apply_frame:
  "db_logs (snd (FSM_Apply db c)) = db_logs db" "db_stable (snd (FSM_Apply db c)) = db_stable db"
  "db_view_err (snd (FSM_Apply db c)) = db_view_err db"
  "db_update_err (snd (FSM_Apply db c)) = db_update_err db"
  by (simp_all add: FSM_Apply_def apply_defs fsm_Update_frame split: option.splits)

lemma fsm_run_frame:
  "db_view_err (fsm_run db cs) = db_view_err db" "db_update_err (fsm_run db cs) = db_update_err db"
  by (induction cs arbitrary: db) (simp_all add: FSM_Apply_frame)

lemma fsm_Update_bucket:
  "db_fsm db \<noteq> None \<Longrightarrow> (\<And>m. f (Some m) \<noteq> Inr None) \<Longrightarrow> db_fsm (snd (fsm_Update db f)) \<noteq> None"
  by (auto simp: fsm_Update_def split: sum.splits option.splits) (metis not_None_eq)

lemma FSM_Apply_bucket: "db_fsm db \<noteq> None \<Longrightarrow> db_fsm (snd (FSM_Apply db c)) \<noteq> None"
  unfolding FSM_Apply_def apply_defs
  by (simp del: not_None_eq add: fsm_Update_bucket Let_def bindE_Inr_iff split: option.split)

lemma fsm_run_bucket: "db_fsm db \<noteq> None \<Longrightarrow> db_fsm (fsm_run db cs) \<noteq> None"
  by (induction cs arbitrary: db) (simp_all add: FSM_Apply_bucket del: not_None_eq)

section \<open>Snapshots\<close>

lemma forEach_put: "forEach (\<lambda>k v s. Inr (kv_put k v s)) m s = Inr (fold (\<lambda>(k, v). kv_put k v) m s)"
  by (induction m arbitrary: s) auto

lemma kv_get_fold_put:
  "kv_wf m \<Longrightarrow> kv_get (fold (\<lambda>(k, v). kv_put k v) m s) k =
     (case kv_get m k of None \<Rightarrow> kv_get s k | Some v \<Rightarrow> Some v)"
proof (induction m arbitrary: s)
  case (Cons p m)
  obtain a v where p: "p = (a, v)" by (cases p)
  have "kv_get m a = None" using Cons.prems p by (intro kv_get_notin) (auto simp: kv_wf_Cons)
  with Cons p show ?case by (auto simp: kv_wf_Cons kv_get_Cons kvm.get_put split: option.splits)
qed simp

lemma kv_wf_fold_put: "kv_wf s \<Longrightarrow> kv_wf (fold (\<lambda>(k, v). kv_put k v) m s)"
  by (induction m arbitrary: s) (auto simp: kvm.wf_put)

lemma fold_put_Nil: "kv_wf m \<Longrightarrow> fold (\<lambda>(k, v). kv_put k v) m [] = m"
  by (rule kv_ext) (auto simp: kv_get_fold_put kv_wf_fold_put split: option.splits)

lemma clear_keys_filter: "clear_keys ks m = filter (\<lambda>p. fst p \<notin> set ks) m"
  by (induction ks arbitrary: m) (auto simp: kv_del_def intro!: filter_cong)

lemma clearBucket_Nil: "clearBucket m = []"
  by (auto simp: clearBucket_def clear_keys_filter kv_keys_def filter_empty_conv)

lemma Persist_doc:
  "db_view_err db = None \<Longrightarrow> db_fsm db = Some m \<Longrightarrow> kv_wf m \<Longrightarrow>
     Persist db = Inr (JObj [(''data'', JObj (map (\<lambda>(k, v). (k, JB64 v)) m))])"
  by (simp add: Persist_def iterateFSM_def db_View_def forEach_put fold_put_Nil jreq_def)

lemma dec_data_enc: "dec_data (JObj (map (\<lambda>(k, v). (k, JB64 v)) m)) = Some m"
  by (induction m) auto

lemma Restore_doc:
  assumes "kv_wf m" "db_fsm db \<noteq> None" "db_update_err db = None"
  shows "Restore db (Inr (Some (JObj [(''data'', JObj (map (\<lambda>(k, v). (k, JB64 v)) m))]))) =
     (None, db\<lparr>db_fsm := Some m\<rparr>)"
  using assms
  by (auto simp: Restore_def jfield_def dec_data_enc fsm_Update_def clearBucket_Nil fold_put_Nil
      simp del: dec_data.simps)

lemma Restore_err: "Restore db rc = (Some e, db') \<Longrightarrow> db' = db"
  by (auto simp: Restore_def clearAll_def dest: fsm_Update_err split: sum.splits option.splits)

section \<open>Properties\<close>

text \<open>A replica with an empty FSM bucket.\<close>

definition empty_db :: bolt_db where
  "empty_db = \<lparr>db_fsm = Some [], db_logs = Some [], db_stable = Some [], db_view_err = None, db_update_err = None\<rparr>"

lemma empty_db_simps:
  "db_fsm empty_db = Some []" "db_view_err empty_db = None" "db_update_err empty_db = None" "db_wf empty_db"
  by (simp_all add: empty_db_def db_wf_def)

text \<open>C1: Every command of the Raft log is atomic: applied to a well-formed database it leaves the FSM
  bucket ordered, never touches the log and stable buckets, and when it reports an error (an
  undecodable entry, an invalid key, an unknown operation, a failed transaction, a duplicate, a
  rejected bootstrap) the database is exactly what it was.\<close>

theorem command_atomic:
  assumes "db_wf db" "FSM_Apply db c = (r, db')"
  shows "db_wf db' \<and> db_logs db' = db_logs db \<and> db_stable db' = db_stable db \<and> (r \<noteq> None \<longrightarrow> db' = db)"
proof -
  have "db' = snd (FSM_Apply db c)" using assms(2) by simp
  moreover have "r \<noteq> None \<Longrightarrow> db' = db" using assms(2) by (auto dest: FSM_Apply_err)
  ultimately show ?thesis using FSM_Apply_wf [OF assms(1)] FSM_Apply_frame by auto
qed

theorem command_atomic_witness:
  "FSM_Apply empty_db (Some \<lparr>fc_Op = ''set'', fc_Key = ''x'', fc_Value = JNull\<rparr>) =
     (Some (ErrMsg ''invalid key: must start with /''), empty_db) \<and> db_wf empty_db"
proof -
  have e: "FSM_Apply empty_db (Some \<lparr>fc_Op = ''set'', fc_Key = ''x'', fc_Value = JNull\<rparr>) =
      (Some (ErrMsg ''invalid key: must start with /''),
       snd (FSM_Apply empty_db (Some \<lparr>fc_Op = ''set'', fc_Key = ''x'', fc_Value = JNull\<rparr>)))"
    by (simp add: FSM_Apply_def validateKey_def HasPrefix_def)
  from command_atomic [OF empty_db_simps(4) e] e empty_db_simps(4) show ?thesis by simp
qed

text \<open>C2: Log compaction is not observable. A replica that ran a prefix of the log, took a snapshot,
  and had it restored on any other replica (whatever data that one held before) continues there
  with the rest of the log to the FSM bucket that running the whole log gives.\<close>

theorem snapshot_then_replay:
  assumes "db_wf db" "db_fsm db \<noteq> None" "db_view_err db = None" "db_update_err db = None"
    and "db_fsm other \<noteq> None" "db_update_err other = None"
  shows "\<exists>doc other'. Persist (fsm_run db past) = Inr doc \<and> Restore other (Inr (Some doc)) = (None, other') \<and>
     db_fsm (fsm_run other' todo) = db_fsm (fsm_run db (past @ todo))"
proof -
  let ?db = "fsm_run db past"
  obtain m where m: "db_fsm ?db = Some m" using fsm_run_bucket [OF assms(2)] by blast
  have wf: "kv_wf m" using fsm_run_wf [OF assms(1), of past] m by (simp add: db_wf_def)
  have p: "Persist ?db = Inr (JObj [(''data'', JObj (map (\<lambda>(k, v). (k, JB64 v)) m))])"
    by (rule Persist_doc [OF _ m wf]) (simp add: fsm_run_frame assms(3))
  have "same_fsm (other\<lparr>db_fsm := Some m\<rparr>) ?db"
    using m assms(4,6) by (simp add: same_fsm_def fsm_run_frame)
  then have "same_fsm (fsm_run (other\<lparr>db_fsm := Some m\<rparr>) todo) (fsm_run ?db todo)" by (rule fsm_run_same)
  then show ?thesis
    using p Restore_doc [OF wf assms(5,6)] by (simp add: same_fsm_def fsm_run_append)
qed

theorem snapshot_then_replay_witness:
  "\<exists>doc other'. Persist (fsm_run empty_db [Some \<lparr>fc_Op = ''set'', fc_Key = ''/a'', fc_Value = JNull\<rparr>]) = Inr doc \<and>
     Restore (empty_db\<lparr>db_fsm := Some [(''/old'', JNull)]\<rparr>) (Inr (Some doc)) = (None, other') \<and>
     db_fsm (fsm_run other' [Some \<lparr>fc_Op = ''delete'', fc_Key = ''/a'', fc_Value = JBad\<rparr>]) = Some []"
proof -
  have "db_fsm (fsm_run empty_db ([Some \<lparr>fc_Op = ''set'', fc_Key = ''/a'', fc_Value = JNull\<rparr>] @
      [Some \<lparr>fc_Op = ''delete'', fc_Key = ''/a'', fc_Value = JBad\<rparr>])) = Some []"
    by (simp add: FSM_Apply_def validateKey_def HasPrefix_def applySet_def applyDelete_def fsm_Update_def
        empty_db_def kv_del_def)
  then show ?thesis
    using snapshot_then_replay [of empty_db "empty_db\<lparr>db_fsm := Some [(''/old'', JNull)]\<rparr>"
        "[Some \<lparr>fc_Op = ''set'', fc_Key = ''/a'', fc_Value = JNull\<rparr>]"
        "[Some \<lparr>fc_Op = ''delete'', fc_Key = ''/a'', fc_Value = JBad\<rparr>]"]
    by (simp add: empty_db_simps)
qed

section \<open>The type of the bucket\<close>

text \<open>A typed bucket: ordered, and every key is one that \<open>validateKey\<close> accepts.\<close>

definition bucket_ok :: "fsm_bucket \<Rightarrow> bool" where
  "bucket_ok m \<longleftrightarrow> kv_wf m \<and> (\<forall>k. kv_get m k \<noteq> None \<longrightarrow> validateKey k = None)"

lemma bucket_ok_Nil: "bucket_ok []"
  by (simp add: bucket_ok_def)

lemma bucket_ok_put: "bucket_ok m \<Longrightarrow> validateKey k = None \<Longrightarrow> bucket_ok (kv_put k v m)"
  by (auto simp: bucket_ok_def kvm.wf_put kvm.get_put)

lemma bucket_ok_del: "bucket_ok m \<Longrightarrow> bucket_ok (kv_del k m)"
  by (auto simp: bucket_ok_def kvm.wf_del kvm.get_del split: if_splits)

lemma Contains_dots_snoc: "Contains (s @ ''/'') ''..'' = Contains s ''..''"
proof (induction s)
  case (Cons c s)
  then show ?case by (cases s) auto
qed simp

text \<open>A key built from a name between slashes has two dots in a row only when the name has.\<close>

lemma key_of_name_ok:
  "no_dots n \<Longrightarrow> validateKey (''/users/'' @ n @ ''/'') = None"
  "no_dots n \<Longrightarrow> validateKey (''/channels/'' @ n @ ''/'') = None"
  "no_dots n \<Longrightarrow> validateKey (usernameIndexKey n @ ''/'') = None"
  using Contains_dots_snoc [of n]
  by (simp_all add: validateKey_def HasPrefix_def usernameIndexKey_def no_dots_def)

lemma bucket_ok_multi:
  "bucket_ok m \<Longrightarrow> first_error (\<lambda>e. validateKey (fk_Key e)) es = None \<Longrightarrow> bucket_ok (multi_entries es m)"
  by (induction es arbitrary: m) (auto simp: bucket_ok_put bucket_ok_del split: option.splits)

lemma bucket_ok_boot_users:
  "boot_users us m = Inr m' \<Longrightarrow> bucket_ok m \<Longrightarrow> list_all (\<lambda>u. no_dots (bu_Username u)) us \<Longrightarrow> bucket_ok m'"
  by (induction us arbitrary: m) (auto simp: bucket_ok_put key_of_name_ok simp del: append.simps split: if_splits)

lemma bucket_ok_boot_channels:
  "boot_channels ps m = Inr m' \<Longrightarrow> bucket_ok m \<Longrightarrow> list_all (\<lambda>c. no_dots (ch_ID c)) ps \<Longrightarrow> bucket_ok m'"
  by (induction ps arbitrary: m) (auto simp: bucket_ok_put key_of_name_ok simp del: append.simps split: if_splits)

lemma fixed_keys_ok:
  "validateKey ''/global/defaults/'' = None" "validateKey ''/global/server/'' = None"
  "validateKey ''/global/auth/internal_enabled'' = None" "validateKey ''/global/auth/oidc_providers'' = None"
  by (simp_all add: validateKey_def HasPrefix_def)

lemma bucket_ok_boot_global: "bucket_ok m \<Longrightarrow> bucket_ok (boot_global g m)"
  by (cases g) (simp_all only: boot_global_def option.case bucket_ok_put fixed_keys_ok)

lemma bucket_ok_boot_auth: "bucket_ok m \<Longrightarrow> bucket_ok (boot_auth p m)"
  by (cases "bp_InternalAuthEnabled p")
    (simp_all only: boot_auth_def Let_def option.case bucket_ok_put fixed_keys_ok simp_thms split: if_split)

text \<open>A write transaction whose body keeps buckets typed keeps the bucket of the database typed.\<close>

definition db_ok :: "bolt_db \<Rightarrow> bool" where
  "db_ok db \<longleftrightarrow> (\<exists>m. db_fsm db = Some m \<and> bucket_ok m)"

lemma fsm_Update_ok_typed:
  assumes "db_ok db"
    and "\<And>m b. bucket_ok m \<Longrightarrow> f (Some m) = Inr b \<Longrightarrow> \<exists>m'. b = Some m' \<and> bucket_ok m'"
  shows "db_ok (snd (fsm_Update db f))"
proof -
  obtain m where m: "db_fsm db = Some m" "bucket_ok m" using assms(1) by (auto simp: db_ok_def)
  show ?thesis
  proof (cases "f (Some m)")
    case (Inl e)
    then show ?thesis using assms(1) m by (simp add: fsm_Update_def)
  next
    case (Inr b)
    then obtain m' where "b = Some m'" "bucket_ok m'" using assms(2) m(2) by blast
    then show ?thesis using Inr m assms(1) by (auto simp: fsm_Update_def db_ok_def split: option.splits)
  qed
qed

lemma apply_typed:
  assumes "db_ok db"
  shows "validateKey k = None \<Longrightarrow> db_ok (snd (applySet db k v))" "db_ok (snd (applyDelete db k))"
    "validateKey k = None \<Longrightarrow> db_ok (snd (applyCreateChannel db k v))" "db_ok (snd (applySetMulti db v))"
  unfolding applySet_def applyDelete_def applyCreateChannel_def applySetMulti_def using assms
  by (auto intro!: fsm_Update_ok_typed simp: bucket_ok_put bucket_ok_del bucket_ok_multi split: option.splits)

lemma applyCreateUser_typed:
  assumes "db_ok db" "validateKey k = None" "\<And>u. unmarshal_user v = Some u \<Longrightarrow> no_dots (us_Username u)"
  shows "db_ok (snd (applyCreateUser db k v))"
  unfolding applyCreateUser_def
  by (rule fsm_Update_ok_typed [OF assms(1)])
    (auto simp: Let_def bucket_ok_put assms key_of_name_ok simp del: append.simps append_assoc split: option.splits if_splits)

lemma applyBootstrap_typed:
  assumes "db_ok db" "\<And>p. unmarshal_bootstrap v = Some p \<Longrightarrow>
    list_all (\<lambda>u. no_dots (bu_Username u)) (bp_Users p) \<and> list_all (\<lambda>c. no_dots (ch_ID c)) (bp_Channels p)"
  shows "db_ok (snd (applyBootstrap db v))"
proof (cases "unmarshal_bootstrap v")
  case None
  then show ?thesis using assms(1) by (simp add: applyBootstrap_def)
next
  case (Some p)
  note n = assms(2) [OF Some]
  show ?thesis unfolding applyBootstrap_def Some option.case
  proof (rule fsm_Update_ok_typed [OF assms(1)])
    fix m b assume "bucket_ok m" and i: "(case Some m of None \<Rightarrow> Inl no_bucket
      | Some m \<Rightarrow> if m \<noteq> [] then Inl (ErrMsg ''cannot apply bootstrap: FSM already has data'')
          else bindE (boot_users (bp_Users p) (boot_global (bp_Global p) m)) (\<lambda>m1.
            bindE (boot_channels (bp_Channels p) m1) (\<lambda>m2. Inr (Some (boot_auth p m2))))) = Inr b"
    then obtain m1 m2 where "boot_users (bp_Users p) (boot_global (bp_Global p) m) = Inr m1"
        "boot_channels (bp_Channels p) m1 = Inr m2" "b = Some (boot_auth p m2)"
      by (auto simp: bindE_Inr_iff split: if_splits)
    then show "\<exists>m'. b = Some m' \<and> bucket_ok m'"
      using n \<open>bucket_ok m\<close> by (blast intro: bucket_ok_boot_auth bucket_ok_boot_channels bucket_ok_boot_users bucket_ok_boot_global)
  qed
qed

lemma FSM_Apply_typed: "db_ok db \<Longrightarrow> names_clean c \<Longrightarrow> db_ok (snd (FSM_Apply db c))"
  unfolding FSM_Apply_def names_clean_def
  by (auto intro!: apply_typed applyCreateUser_typed applyBootstrap_typed split: option.splits if_splits)

lemma bucket_ok_restored:
  assumes "db_ok src" "Persist src = Inr doc" "db_fsm db \<noteq> None" "Restore db (Inr (Some doc)) = (None, db')"
  shows "db_ok db'"
proof -
  obtain m where m: "db_fsm src = Some m" "bucket_ok m" using assms(1) by (auto simp: db_ok_def)
  have v: "db_view_err src = None" using assms(2) m by (auto simp: Persist_def iterateFSM_def db_View_def split: option.splits)
  have u: "db_update_err db = None"
    using assms(4) by (auto simp: Restore_def fsm_Update_def split: option.splits sum.splits)
  have w: "kv_wf m" using m(2) by (simp add: bucket_ok_def)
  show ?thesis
    using assms(2,4) Persist_doc [OF v m(1) w] Restore_doc [OF w assms(3) u] m(2) by (auto simp: db_ok_def)
qed

lemma replica_db_typed: "replica_db db \<Longrightarrow> db_ok db"
proof (induction rule: replica_db.induct)
  case (fresh db)
  then show ?case by (simp add: db_ok_def bucket_ok_Nil)
next
  case (entry db c)
  then show ?case by (blast intro: FSM_Apply_typed)
next
  case (install src doc db db')
  then show ?case by (blast intro: bucket_ok_restored)
next
  case (emptied db db')
  then show ?case by (auto simp: Restore_def clearAll_def clearBucket_Nil fsm_Update_ok db_ok_def bucket_ok_Nil)
next
  case (refused db rc e db')
  then show ?case by (auto dest: Restore_err)
qed



text \<open>A user seeded by \<open>bootstrap\<close> whose name has two dots in a row is stored, but its record can never
  be updated or deleted: \<open>UpdateUser\<close> and \<open>DeleteUser\<close> send its key in a batch, and every batch with that
  key is refused.\<close>

definition seed_user :: "string \<Rightarrow> fsm_command option" where
  "seed_user n = Some \<lparr>fc_Op = ''bootstrap'', fc_Key = [], fc_Value = marshal_bootstrap
     \<lparr>bp_Global = None, bp_Users = [\<lparr>bu_Username = n, bu_PasswordHash = ''h'', bu_Password = [], bu_Roles = [],
       bu_Channels = []\<rparr>], bp_Channels = [], bp_InternalAuthEnabled = None, bp_OIDCProviders = []\<rparr>\<rparr>"

lemma Contains_prepend: "Contains s p \<Longrightarrow> Contains (t @ s) p"
  by (induction t) auto

lemma dotted_key_refused:
  "Contains n ''..'' \<Longrightarrow> validateKey (''/users/'' @ n @ ''/'') = Some (ErrMsg ''invalid key: contains ..'')"
  using Contains_prepend [of "n @ ''/''" "''..''" "''/users/''"] Contains_dots_snoc [of n]
  by (simp only: validateKey_def if_True)

lemma first_error_mem: "x \<in> set xs \<Longrightarrow> f x \<noteq> None \<Longrightarrow> first_error f xs \<noteq> None"
  by (induction xs) (auto split: option.splits)

lemma dotted_seed_stuck:
  assumes "Contains n ''..''" "n \<noteq> []" "db_fsm db = Some []" "db_update_err db = None"
  shows "\<exists>m. db_fsm (snd (FSM_Apply db (seed_user n))) = Some m \<and> kv_get m (''/users/'' @ n @ ''/'') \<noteq> None"
    and "e \<in> set es \<Longrightarrow> fk_Key e = ''/users/'' @ n @ ''/'' \<Longrightarrow>
      FSM_Apply db2 (Some \<lparr>fc_Op = ''set-multi'', fc_Key = k, fc_Value = marshal_multi es\<rparr>) = (r, db3) \<Longrightarrow>
      r \<noteq> None \<and> db3 = db2"
proof -
  have "usernameIndexKey n @ ''/'' \<noteq> ''/users/'' @ n @ ''/''"
    by (simp add: usernameIndexKey_def)
  then show "\<exists>m. db_fsm (snd (FSM_Apply db (seed_user n))) = Some m \<and> kv_get m (''/users/'' @ n @ ''/'') \<noteq> None"
    using assms by (simp add: FSM_Apply_def seed_user_def applyBootstrap_def bootstrap_roundtrip fsm_Update_def
      boot_global_def boot_auth_def bindE_def kvm.get_put del: kv_put.simps)
next
  assume "e \<in> set es" "fk_Key e = ''/users/'' @ n @ ''/''"
    and "FSM_Apply db2 (Some \<lparr>fc_Op = ''set-multi'', fc_Key = k, fc_Value = marshal_multi es\<rparr>) = (r, db3)"
  moreover from this(1,2) have "first_error (\<lambda>e. validateKey (fk_Key e)) es \<noteq> None"
    using dotted_key_refused [OF assms(1)] by (intro first_error_mem [of e]) (simp_all del: append.simps)
  ultimately show "r \<noteq> None \<and> db3 = db2"
    by (cases "first_error (\<lambda>e. validateKey (fk_Key e)) es") (simp_all add: FSM_Apply_def applySetMulti_def multi_roundtrip)
qed

text \<open>A \<open>set-multi\<close> command is all or nothing: with one invalid key no entry takes effect; otherwise
  every key of the bucket holds what the last entry for it says, and keys without an entry keep
  their value.\<close>

theorem set_multi_all_or_nothing:
  assumes "db_fsm db = Some m" "db_update_err db = None"
    and "FSM_Apply db (Some \<lparr>fc_Op = ''set-multi'', fc_Key = key, fc_Value = marshal_multi es\<rparr>) = (r, db')"
  shows "if \<exists>e \<in> set es. validateKey (fk_Key e) \<noteq> None then r \<noteq> None \<and> db' = db
     else r = None \<and> (\<exists>m'. db_fsm db' = Some m' \<and>
       (\<forall>k. kv_get m' k = (case find (\<lambda>e. fk_Key e = k) (rev es) of
          None \<Rightarrow> kv_get m k
        | Some e \<Rightarrow> if fk_Delete e then None else Some (fk_Value e))))"
proof -
  have f: "first_error (\<lambda>e. validateKey (fk_Key e)) es = None \<longleftrightarrow> \<not> (\<exists>e \<in> set es. validateKey (fk_Key e) \<noteq> None)"
    by (induction es) (auto split: option.splits)
  have a: "(r, db') = applySetMulti db (marshal_multi es)" using assms(3) by (simp add: FSM_Apply_def)
  show ?thesis
  proof (cases "first_error (\<lambda>e. validateKey (fk_Key e)) es")
    case None
    then have "r = None" "db_fsm db' = Some (multi_entries es m)"
      using a assms(1,2) by (simp_all add: applySetMulti_def multi_roundtrip fsm_Update_def)
    then show ?thesis using f None by (simp add: multi_entries_get del: not_None_eq)
  next
    case (Some e)
    then show ?thesis using f a by (simp add: applySetMulti_def multi_roundtrip del: not_None_eq)
  qed
qed

theorem set_multi_all_or_nothing_witness:
  "\<exists>db' m'. FSM_Apply empty_db (Some \<lparr>fc_Op = ''set-multi'', fc_Key = [], fc_Value = marshal_multi
       [\<lparr>fk_Key = ''/a'', fk_Value = JNull, fk_Delete = False\<rparr>, \<lparr>fk_Key = ''/a'', fk_Value = JBad, fk_Delete = True\<rparr>]\<rparr>) = (None, db') \<and>
     db_fsm db' = Some m' \<and> kv_get m' ''/a'' = None"
proof -
  let ?es = "[\<lparr>fk_Key = ''/a'', fk_Value = JNull, fk_Delete = False\<rparr>, \<lparr>fk_Key = ''/a'', fk_Value = JBad, fk_Delete = True\<rparr>]"
  obtain r db' where a: "FSM_Apply empty_db (Some \<lparr>fc_Op = ''set-multi'', fc_Key = [], fc_Value = marshal_multi ?es\<rparr>) = (r, db')"
    by fastforce
  have "\<not> (\<exists>e \<in> set ?es. validateKey (fk_Key e) \<noteq> None)" by (simp add: validateKey_def HasPrefix_def)
  then show ?thesis
    using set_multi_all_or_nothing [OF empty_db_simps(1,3) a] a by auto
qed

text \<open>A bootstrap command succeeds only on an empty FSM, and only when no user of the payload carries
  a plaintext password, every user has a name and a password hash, and every channel an
  identifier; in every other case it reports an error and changes nothing.\<close>

theorem bootstrap_guarded:
  assumes "FSM_Apply db (Some \<lparr>fc_Op = ''bootstrap'', fc_Key = key, fc_Value = v\<rparr>) = (r, db')"
  shows "if r = None then db_fsm db = Some [] \<and> (\<exists>p. unmarshal_bootstrap v = Some p \<and>
       (\<forall>u \<in> set (bp_Users p). bu_Username u \<noteq> [] \<and> bu_Password u = [] \<and> bu_PasswordHash u \<noteq> []) \<and>
       (\<forall>c \<in> set (bp_Channels p). ch_ID c \<noteq> []))
     else db' = db"
proof (cases r)
  case None
  then have "applyBootstrap db v = (None, db')" using assms by (simp add: FSM_Apply_def)
  then obtain p m m1 m2 where p: "unmarshal_bootstrap v = Some p" "db_fsm db = Some m" "m = []"
    "boot_users (bp_Users p) (boot_global (bp_Global p) m) = Inr m1" "boot_channels (bp_Channels p) m1 = Inr m2"
    by (auto simp: applyBootstrap_def fsm_Update_ok bindE_Inr_iff split: option.splits if_splits)
  then show ?thesis using None boot_users_ok [OF p(4)] boot_channels_ok [OF p(5)] by simp
next
  case (Some e)
  then show ?thesis using assms FSM_Apply_err by simp
qed

theorem bootstrap_guarded_witness:
  "snd (FSM_Apply empty_db (Some \<lparr>fc_Op = ''bootstrap'', fc_Key = [], fc_Value = marshal_bootstrap
     \<lparr>bp_Global = None, bp_Users = [\<lparr>bu_Username = ''eve'', bu_PasswordHash = [], bu_Password = ''secret'',
        bu_Roles = [], bu_Channels = []\<rparr>], bp_Channels = [], bp_InternalAuthEnabled = None, bp_OIDCProviders = []\<rparr>\<rparr>)) = empty_db"
proof -
  let ?p = "\<lparr>bp_Global = None, bp_Users = [\<lparr>bu_Username = ''eve'', bu_PasswordHash = [], bu_Password = ''secret'',
        bu_Roles = [], bu_Channels = []\<rparr>], bp_Channels = [], bp_InternalAuthEnabled = None, bp_OIDCProviders = []\<rparr>"
  let ?c = "\<lparr>fc_Op = ''bootstrap'', fc_Key = [], fc_Value = marshal_bootstrap ?p\<rparr>"
  obtain r db' where a: "FSM_Apply empty_db (Some ?c) = (r, db')" by fastforce
  show ?thesis
    using bootstrap_guarded [OF a] a by (auto simp: bootstrap_roundtrip split: if_splits)
qed

end
