(* ===== verification/JsonText.thy ===== *)
theory JsonText
  imports Encoding
begin

text \<open>
  The text of JSON documents: \<open>json.Marshal\<close> (compact, with Go's HTML-safe escapes) and a parser
  for the grammar \<open>json.Unmarshal\<close> accepts. Where the program keeps a document inside a string
  (sealed secrets, session cookies, encrypted message envelopes) this is the string.

  Bytes above 127 are copied (the program's strings are UTF-8); a number with a fraction or an
  exponent decodes into no field of the program and is \<open>JBad\<close>; of two fields with one name the
  later one counts. The parser is bounded by fuel; twice the length of the input is enough,
  since every two calls consume a byte.
\<close>

section \<open>Decimal numbers\<close>

definition digit :: "nat \<Rightarrow> char" where
  "digit d = char_of (48 + d)"

definition is_digit :: "char \<Rightarrow> bool" where
  "is_digit c \<longleftrightarrow> CHR ''0'' \<le> c \<and> c \<le> CHR ''9''"

fun show_nat :: "nat \<Rightarrow> string" where
  "show_nat n = (if n < 10 then [digit n] else show_nat (n div 10) @ [digit (n mod 10)])"

declare show_nat.simps [simp del]

text \<open>\<open>strconv.Itoa\<close>, \<open>%d\<close>\<close>

definition Itoa :: "int \<Rightarrow> string" where
  "Itoa i = (if i < 0 then CHR ''-'' # show_nat (nat (- i)) else show_nat (nat i))"

fun read_nat :: "nat \<Rightarrow> string \<Rightarrow> nat \<times> string" where
  "read_nat acc [] = (acc, [])"
| "read_nat acc (c # s) =
     (if is_digit c then read_nat (acc * 10 + (of_char c - 48)) s else (acc, c # s))"

section \<open>Writing\<close>

definition esc_char :: "char \<Rightarrow> string" where
  "esc_char c =
     (if c = CHR 0x22 then [CHR 0x5C, CHR 0x22]
      else if c = CHR 0x5C then [CHR 0x5C, CHR 0x5C]
      else if c = CHR 0x08 then [CHR 0x5C, CHR ''b'']
      else if c = CHR 0x0C then [CHR 0x5C, CHR ''f'']
      else if c = CHR 0x0A then [CHR 0x5C, CHR ''n'']
      else if c = CHR 0x0D then [CHR 0x5C, CHR ''r'']
      else if c = CHR 0x09 then [CHR 0x5C, CHR ''t'']
      else if c < CHR 0x20 \<or> c = CHR ''<'' \<or> c = CHR ''>'' \<or> c = CHR ''&''
        then [CHR 0x5C, CHR ''u'', CHR ''0'', CHR ''0''] @ hex_EncodeToString [c]
      else [c])"

definition quote :: "string \<Rightarrow> string" where
  "quote s = CHR 0x22 # concat (map esc_char s) @ [CHR 0x22]"

fun json_Marshal :: "json \<Rightarrow> string" where
  "json_Marshal JNull = ''null''"
| "json_Marshal (JBool b) = (if b then ''true'' else ''false'')"
| "json_Marshal (JNum n) = Itoa n"
| "json_Marshal (JStr s) = quote s"
| "json_Marshal (JArr xs) = ''['' @ Join (map json_Marshal xs) '','' @ '']''"
| "json_Marshal (JObj fs) =
     ''{'' @ Join (map (\<lambda>p. quote (fst p) @ '':'' @ json_Marshal (snd p)) fs) '','' @ ''}''"
| "json_Marshal (JB64 d) = quote (base64_Std_Encode (json_Marshal d))"
| "json_Marshal JBad = []"

section \<open>Reading\<close>

definition json_ws :: "char \<Rightarrow> bool" where
  "json_ws c \<longleftrightarrow> c = CHR '' '' \<or> c = CHR 0x09 \<or> c = CHR 0x0A \<or> c = CHR 0x0D"

definition skip_ws :: "string \<Rightarrow> string" where
  "skip_ws s = dropWhile json_ws s"

definition hex_val :: "char \<Rightarrow> nat option" where
  "hex_val c = (if CHR ''0'' \<le> c \<and> c \<le> CHR ''9'' then Some (of_char c - 48)
     else if CHR ''a'' \<le> c \<and> c \<le> CHR ''f'' then Some (of_char c - 87)
     else if CHR ''A'' \<le> c \<and> c \<le> CHR ''F'' then Some (of_char c - 55)
     else None)"

definition hex4 :: "char \<Rightarrow> char \<Rightarrow> char \<Rightarrow> char \<Rightarrow> nat option" where
  "hex4 a b c d = do { w \<leftarrow> hex_val a; x \<leftarrow> hex_val b; y \<leftarrow> hex_val c; z \<leftarrow> hex_val d;
     Some (4096 * w + 256 * x + 16 * y + z) }"

text \<open>UTF-8 of a code point of the basic plane; a lone surrogate is U+FFFD.\<close>

definition utf8 :: "nat \<Rightarrow> string" where
  "utf8 n = (if n < 128 then [char_of n]
     else if n < 2048 then [char_of (192 + n div 64), char_of (128 + n mod 64)]
     else if 55296 \<le> n \<and> n < 57344 then [CHR 0xEF, CHR 0xBF, CHR 0xBD]
     else [char_of (224 + n div 4096), char_of (128 + n div 64 mod 64), char_of (128 + n mod 64)])"

definition unesc :: "char \<Rightarrow> char option" where
  "unesc e = (if e = CHR 0x22 \<or> e = CHR 0x5C \<or> e = CHR ''/'' then Some e
     else if e = CHR ''b'' then Some (CHR 0x08) else if e = CHR ''f'' then Some (CHR 0x0C)
     else if e = CHR ''n'' then Some (CHR 0x0A) else if e = CHR ''r'' then Some (CHR 0x0D)
     else if e = CHR ''t'' then Some (CHR 0x09) else None)"

text \<open>The rest of a string after its opening quote.\<close>

fun read_str :: "string \<Rightarrow> (string \<times> string) option" where
  "read_str [] = None"
| "read_str (c # s) =
     (if c = CHR 0x22 then Some ([], s)
      else if c < CHR 0x20 then None
      else if c = CHR 0x5C then
        (case s of
           [] \<Rightarrow> None
         | e # r \<Rightarrow>
             (if e = CHR ''u'' then
                (case r of
                   h1 # h2 # h3 # h4 # r' \<Rightarrow>
                     (case hex4 h1 h2 h3 h4 of None \<Rightarrow> None
                      | Some n \<Rightarrow> map_option (\<lambda>(t, z). (utf8 n @ t, z)) (read_str r'))
                 | _ \<Rightarrow> None)
              else (case unesc e of None \<Rightarrow> None
                    | Some x \<Rightarrow> map_option (\<lambda>(t, z). (x # t, z)) (read_str r))))
      else map_option (\<lambda>(t, z). (c # t, z)) (read_str s))"

text \<open>Fraction and exponent, after the integer part.\<close>

definition read_frac :: "string \<Rightarrow> string option" where
  "read_frac s = (case s of [] \<Rightarrow> Some []
     | c # r \<Rightarrow> (if c \<noteq> CHR ''.'' then Some s
         else if r = [] \<or> \<not> is_digit (hd r) then None else Some (dropWhile is_digit r)))"

definition read_exp :: "string \<Rightarrow> string option" where
  "read_exp s = (case s of [] \<Rightarrow> Some []
     | c # r \<Rightarrow> (if c \<noteq> CHR ''e'' \<and> c \<noteq> CHR ''E'' then Some s
         else (let r' = (if r \<noteq> [] \<and> (hd r = CHR ''+'' \<or> hd r = CHR ''-'') then tl r else r)
               in if r' = [] \<or> \<not> is_digit (hd r') then None else Some (dropWhile is_digit r'))))"

definition read_int :: "string \<Rightarrow> nat \<times> string" where
  "read_int s = (if hd s = CHR ''0'' then (0, tl s) else read_nat 0 s)"

definition read_num :: "string \<Rightarrow> (json \<times> string) option" where
  "read_num s = (let neg = (s \<noteq> [] \<and> hd s = CHR ''-''); s1 = (if neg then tl s else s)
     in if s1 = [] \<or> \<not> is_digit (hd s1) then None
        else (let (n, s2) = read_int s1
              in (case read_frac s2 of None \<Rightarrow> None
                  | Some s3 \<Rightarrow> (case read_exp s3 of None \<Rightarrow> None
                      | Some s4 \<Rightarrow> Some (if s4 = s2 then JNum (if neg then - int n else int n) else JBad, s4)))))"

definition expect :: "string \<Rightarrow> 'a \<Rightarrow> string \<Rightarrow> ('a \<times> string) option" where
  "expect w v s = (if prefix w s then Some (v, drop (length w) s) else None)"

text \<open>One document, the members of an object and the elements of an array, after their opening
  bracket.\<close>

fun read_doc :: "nat \<Rightarrow> string \<Rightarrow> (json \<times> string) option"
and read_members :: "nat \<Rightarrow> string \<Rightarrow> (fields \<times> string) option"
and read_elems :: "nat \<Rightarrow> string \<Rightarrow> (json list \<times> string) option" where
  "read_doc 0 s = None"
| "read_doc (Suc n) s = (case skip_ws s of
       [] \<Rightarrow> None
     | c # r \<Rightarrow>
         (if c = CHR 0x22 then map_option (\<lambda>(t, z). (JStr t, z)) (read_str r)
          else if c = CHR ''{'' then
            (if prefix ''}'' (skip_ws r) then Some (JObj [], tl (skip_ws r))
             else map_option (\<lambda>(fs, z). (JObj fs, z)) (read_members n r))
          else if c = CHR ''['' then
            (if prefix '']'' (skip_ws r) then Some (JArr [], tl (skip_ws r))
             else map_option (\<lambda>(xs, z). (JArr xs, z)) (read_elems n r))
          else if c = CHR ''n'' then expect ''null'' JNull (c # r)
          else if c = CHR ''t'' then expect ''true'' (JBool True) (c # r)
          else if c = CHR ''f'' then expect ''false'' (JBool False) (c # r)
          else read_num (c # r)))"
| "read_members 0 s = None"
| "read_members (Suc n) s =
     (if \<not> prefix [CHR 0x22] (skip_ws s) then None
      else (case read_str (tl (skip_ws s)) of None \<Rightarrow> None
        | Some (k, s1) \<Rightarrow>
            (if \<not> prefix '':'' (skip_ws s1) then None
             else (case read_doc n (tl (skip_ws s1)) of None \<Rightarrow> None
               | Some (v, s2) \<Rightarrow>
                   (if prefix '','' (skip_ws s2)
                    then map_option (\<lambda>(fs, z). (if jlookup fs k = None then (k, v) # fs else fs, z))
                           (read_members n (tl (skip_ws s2)))
                    else if prefix ''}'' (skip_ws s2) then Some ([(k, v)], tl (skip_ws s2))
                    else None)))))"
| "read_elems 0 s = None"
| "read_elems (Suc n) s =
     (case read_doc n s of None \<Rightarrow> None
      | Some (v, s1) \<Rightarrow>
          (if prefix '','' (skip_ws s1) then map_option (\<lambda>(xs, z). (v # xs, z)) (read_elems n (tl (skip_ws s1)))
           else if prefix '']'' (skip_ws s1) then Some ([v], tl (skip_ws s1))
           else None))"

definition json_Unmarshal :: "string \<Rightarrow> json" where
  "json_Unmarshal s = (case read_doc (2 * length s + 2) s of None \<Rightarrow> JBad
     | Some (d, r) \<Rightarrow> if skip_ws r = [] then d else JBad)"


section \<open>Lemmas on numbers\<close>

lemma is_digit_digit: "d < 10 \<Longrightarrow> is_digit (digit d)"
  by (auto simp: is_digit_def digit_def less_eq_char_def)

lemma digit_val: "d < 10 \<Longrightarrow> of_char (digit d) - 48 = d"
  by (simp add: digit_def)

lemma show_nat_digits: "list_all is_digit (show_nat n)"
proof (induction n rule: show_nat.induct)
  case (1 n)
  then show ?case by (subst show_nat.simps) (auto simp: is_digit_digit)
qed

lemma show_nat_not_Nil: "show_nat n \<noteq> []"
  by (subst show_nat.simps) simp

definition dec_val :: "nat \<Rightarrow> string \<Rightarrow> nat" where
  "dec_val = foldl (\<lambda>acc c. acc * 10 + (of_char c - 48))"

lemma dec_val_show: "dec_val 0 (show_nat n) = n"
proof (induction n rule: show_nat.induct)
  case (1 n)
  then show ?case by (subst show_nat.simps) (auto simp: dec_val_def digit_val)
qed

text \<open>\<open>strconv.ParseInt(s, 10, 64)\<close>: an optional sign, digits, and the range of an \<open>int64\<close>.\<close>

definition ParseInt :: "string \<Rightarrow> int result" where
  "ParseInt s =
     (let neg = prefix ''-'' s; d = (if prefix ''-'' s \<or> prefix ''+'' s then tl s else s);
          n = (if neg then - int (dec_val 0 d) else int (dec_val 0 d)) in
      if d = [] \<or> \<not> list_all is_digit d then Inl (ErrMsg ''invalid syntax'')
      else if n < -9223372036854775808 \<or> 9223372036854775807 < n then Inl (ErrMsg ''value out of range'')
      else Inr n)"

lemma read_nat_digits: "list_all is_digit s \<Longrightarrow> read_nat acc (s @ r) = read_nat (dec_val acc s) r"
  by (induction s arbitrary: acc) (auto simp: dec_val_def)

lemma hd_show_nat: "0 < n \<Longrightarrow> hd (show_nat n) \<noteq> CHR ''0''"
proof (induction n rule: show_nat.induct)
  case (1 n)
  have "d < 10 \<Longrightarrow> 0 < d \<Longrightarrow> digit d \<noteq> CHR ''0''" for d
    using digit_val [of d] by auto
  with 1 show ?case
    by (subst show_nat.simps) (auto simp: show_nat_not_Nil div_greater_zero_iff)
qed

lemma show_nat_0: "show_nat 0 = ''0''"
  by (simp add: show_nat.simps digit_def) code_simp

text \<open>What may follow a document.\<close>

definition stops :: "string \<Rightarrow> bool" where
  "stops r \<longleftrightarrow> (case r of [] \<Rightarrow> True | c # _ \<Rightarrow> \<not> is_digit c \<and> c \<noteq> CHR ''.'' \<and> c \<noteq> CHR ''e'' \<and> c \<noteq> CHR ''E'')"

lemma stops_simps [simp]: "stops []" "stops (CHR '','' # r)" "stops (CHR '']'' # r)" "stops (CHR ''}'' # r)"
  by (simp_all add: stops_def is_digit_def)

lemma read_nat_stops: "stops r \<Longrightarrow> read_nat acc r = (acc, r)"
  by (cases r) (auto simp: stops_def)

lemma read_frac_stops: "stops r \<Longrightarrow> read_frac r = Some r"
  by (auto simp: stops_def read_frac_def split: list.splits)

lemma read_exp_stops: "stops r \<Longrightarrow> read_exp r = Some r"
  by (auto simp: stops_def read_exp_def split: list.splits)

lemma read_digits:
  assumes "stops r"
  shows "read_int (show_nat n @ r) = (n, r)"
proof (cases "n = 0")
  case True
  then show ?thesis by (simp add: show_nat_0 read_int_def)
next
  case False
  then have "hd (show_nat n @ r) \<noteq> CHR ''0''" by (simp add: show_nat_not_Nil hd_show_nat)
  then show ?thesis by (simp add: read_int_def read_nat_digits show_nat_digits dec_val_show read_nat_stops assms)
qed

lemma hd_show_digit: "is_digit (hd (show_nat n @ r))"
  using show_nat_digits [of n] show_nat_not_Nil [of n] by (cases "show_nat n") auto

lemma not_minus: "is_digit c \<Longrightarrow> c \<noteq> CHR ''-''"
  by (auto simp: is_digit_def)

lemma read_num_Itoa:
  assumes "stops r"
  shows "read_num (Itoa n @ r) = Some (JNum n, r)"
proof (cases "n < 0")
  case True
  then show ?thesis
    using read_digits [OF assms, of "nat (- n)"] hd_show_digit [of "nat (- n)" r]
    by (simp add: read_num_def Itoa_def Let_def show_nat_not_Nil read_frac_stops read_exp_stops assms)
next
  case False
  then show ?thesis
    using read_digits [OF assms, of "nat n"] hd_show_digit [of "nat n" r] not_minus [OF hd_show_digit]
    by (simp add: read_num_def Itoa_def Let_def show_nat_not_Nil read_frac_stops read_exp_stops assms)
qed

section \<open>Lemmas on strings\<close>

lemma hex_digit_val: "n < 16 \<Longrightarrow> hex_val (hex_digits ! n) = Some n"
proof -
  have "list_all (\<lambda>n. hex_val (hex_digits ! n) = Some n) [0..<16]" by code_simp
  then show "n < 16 \<Longrightarrow> ?thesis" by (simp add: list_all_iff)
qed

lemma hex4_byte:
  "hex4 CHR ''0'' CHR ''0'' (hex_digits ! (of_char c div 16)) (hex_digits ! (of_char c mod 16)) = Some (of_char c)"
proof -
  have "of_char c < (256 :: nat)" by simp
  then have "of_char c div 16 < (16 :: nat)" by linarith
  moreover have "hex_val CHR ''0'' = Some 0" by (simp add: hex_val_def)
  moreover have "16 * (of_char c div 16) + of_char c mod 16 = (of_char c :: nat)" by simp
  ultimately show ?thesis by (simp add: hex4_def hex_digit_val)
qed

lemma utf8_byte: "of_char c < (128 :: nat) \<Longrightarrow> utf8 (of_char c) = [c]"
  by (simp add: utf8_def)

lemma read_str_esc:
  "read_str (esc_char c @ s) = map_option (\<lambda>(t, z). (c # t, z)) (read_str s)"
proof -
  have lo: "c < CHR 0x20 \<or> c = CHR ''<'' \<or> c = CHR ''>'' \<or> c = CHR ''&'' \<Longrightarrow> of_char c < (128 :: nat)"
    by (auto simp: less_char_def)
  let ?S = "{CHR 0x22, CHR 0x5C, CHR 0x08, CHR 0x0C, CHR 0x0A, CHR 0x0D, CHR 0x09}"
  let ?U = "c < CHR 0x20 \<or> c = CHR ''<'' \<or> c = CHR ''>'' \<or> c = CHR ''&''"
  have "c \<in> ?S \<or> c \<notin> ?S \<and> ?U \<or> c \<notin> ?S \<and> \<not> ?U" by argo
  then consider "c \<in> ?S" | (u) "c \<notin> ?S" ?U | (p) "c \<notin> ?S" "\<not> ?U" by argo
  then show ?thesis
  proof cases
    case u
    then have "esc_char c = [CHR 0x5C, CHR ''u'', CHR ''0'', CHR ''0''] @ hex_EncodeToString [c]"
      by (simp add: esc_char_def)
    then show ?thesis by (simp add: hex_EncodeToString_def hex4_byte utf8_byte lo [OF u(2)])
  qed (auto simp: esc_char_def unesc_def)
qed

lemma read_str_quote: "read_str (concat (map esc_char s) @ CHR 0x22 # r) = Some (s, r)"
  by (induction s) (simp_all add: read_str_esc)

section \<open>The round trip\<close>

fun plain :: "json \<Rightarrow> bool" where
  "plain (JArr xs) = list_all plain xs"
| "plain (JObj fs) = (distinct (map fst fs) \<and> list_all (\<lambda>p. plain (snd p)) fs)"
| "plain (JB64 d) = False"
| "plain JBad = False"
| "plain _ = True"

fun jsz :: "json \<Rightarrow> nat" where
  "jsz (JArr xs) = 2 + sum_list (map (\<lambda>x. Suc (jsz x)) xs)"
| "jsz (JObj fs) = 2 + sum_list (map (\<lambda>p. Suc (jsz (snd p))) fs)"
| "jsz _ = 1"

definition reads :: "json \<Rightarrow> bool" where
  "reads d \<longleftrightarrow> (\<forall>n r. jsz d \<le> n \<longrightarrow> stops r \<longrightarrow> read_doc n (json_Marshal d @ r) = Some (d, r))"

lemma skip_ws_simps [simp]:
  "skip_ws [] = []" "skip_ws (CHR '','' # r) = CHR '','' # r" "skip_ws (CHR '']'' # r) = CHR '']'' # r"
  "skip_ws (CHR ''}'' # r) = CHR ''}'' # r" "skip_ws (CHR '':'' # r) = CHR '':'' # r"
  "skip_ws (CHR 0x22 # r) = CHR 0x22 # r"
  by (simp_all add: skip_ws_def json_ws_def)

lemma read_elems_Join:
  "(\<And>x. x \<in> set xs \<Longrightarrow> reads x) \<Longrightarrow> xs \<noteq> [] \<Longrightarrow> sum_list (map (\<lambda>x. Suc (jsz x)) xs) \<le> n \<Longrightarrow>
     read_elems n (Join (map json_Marshal xs) '','' @ CHR '']'' # r) = Some (xs, r)"
proof (induction xs arbitrary: n)
  case (Cons x xs)
  from Cons.prems(3) obtain n' where n: "n = Suc n'" "jsz x \<le> n'" by (cases n) auto
  have x: "read_doc n' (json_Marshal x @ r') = Some (x, r')" if "stops r'" for r'
    using Cons.prems(1) n that by (simp add: reads_def)
  show ?case
  proof (cases xs)
    case Nil
    then show ?thesis using x n by simp
  next
    case (Cons y ys)
    have "read_elems n' (Join (map json_Marshal xs) '','' @ CHR '']'' # r) = Some (xs, r)"
      using Cons.IH Cons.prems Cons n by simp
    then show ?thesis using x n Cons by simp
  qed
qed simp

lemma jlookup_notin: "k \<notin> fst ` set fs \<Longrightarrow> jlookup fs k = None"
  by (induction fs) auto

lemma read_members_Join:
  "(\<And>p. p \<in> set fs \<Longrightarrow> reads (snd p)) \<Longrightarrow> fs \<noteq> [] \<Longrightarrow> distinct (map fst fs) \<Longrightarrow>
     sum_list (map (\<lambda>p. Suc (jsz (snd p))) fs) \<le> n \<Longrightarrow>
     read_members n (Join (map (\<lambda>p. quote (fst p) @ '':'' @ json_Marshal (snd p)) fs) '','' @ CHR ''}'' # r) = Some (fs, r)"
proof (induction fs arbitrary: n)
  case (Cons p fs)
  obtain k v where p: "p = (k, v)" by (cases p)
  from Cons.prems(4) p obtain n' where n: "n = Suc n'" "jsz v \<le> n'" by (cases n) auto
  have x: "read_doc n' (json_Marshal v @ r') = Some (v, r')" if "stops r'" for r'
    using Cons.prems(1) [of p] p n that by (simp add: reads_def)
  show ?case
  proof (cases fs)
    case Nil
    then show ?thesis using x n p by (simp add: quote_def read_str_quote)
  next
    case (Cons q qs)
    have "read_members n' (Join (map (\<lambda>p. quote (fst p) @ '':'' @ json_Marshal (snd p)) fs) '','' @ CHR ''}'' # r) = Some (fs, r)"
      using Cons.IH Cons.prems Cons n p by simp
    moreover have "jlookup fs k = None" using Cons.prems(3) p by (intro jlookup_notin) auto
    ultimately show ?thesis using x n Cons p by (simp add: quote_def read_str_quote)
  qed
qed simp

lemma read_doc_str: "read_doc (Suc n) (quote s @ r) = Some (JStr s, r)"
  by (simp add: quote_def read_str_quote)

lemma Itoa_cases: "\<exists>c s. Itoa n = c # s \<and> (is_digit c \<or> c = CHR ''-'')"
  using show_nat_not_Nil show_nat_digits by (auto simp: Itoa_def neq_Nil_conv) (metis list.pred_inject(2))

lemma read_doc_num:
  assumes "stops r" shows "read_doc (Suc n) (Itoa i @ r) = Some (JNum i, r)"
proof -
  obtain c s where c: "Itoa i = c # s" "is_digit c \<or> c = CHR ''-''" using Itoa_cases by blast
  have ws: "\<not> json_ws c"
    using c(2) by (auto simp: is_digit_def json_ws_def)
  have "c \<noteq> CHR 0x22 \<and> c \<noteq> CHR ''{'' \<and> c \<noteq> CHR ''['' \<and> c \<noteq> CHR ''n'' \<and> c \<noteq> CHR ''t'' \<and> c \<noteq> CHR ''f''"
    using c(2) by (auto simp: is_digit_def)
  then show ?thesis
    using read_num_Itoa [OF assms, of i] c(1) ws by (simp add: skip_ws_def)
qed

lemma Marshal_hd:
  assumes "plain d"
  shows "\<exists>c s. json_Marshal d = c # s \<and> \<not> json_ws c \<and> c \<noteq> CHR '']'' \<and> c \<noteq> CHR ''}''"
proof (cases d)
  case (JNum n)
  obtain c s where "Itoa n = c # s" "is_digit c \<or> c = CHR ''-''" using Itoa_cases by blast
  then show ?thesis using JNum by (auto simp: is_digit_def json_ws_def)
qed (use assms in \<open>auto simp: quote_def json_ws_def\<close>)

lemma Join_hd: "\<exists>s. Join (x # xs) sep = x @ s"
  by (cases xs) auto

lemma reads_plain: "plain d \<Longrightarrow> reads d"
proof (induction d rule: json.induct)
  case (JArr xs)
  have el: "reads x" if "x \<in> set xs" for x using JArr that by (simp add: list_all_iff)
  have "read_doc n (json_Marshal (JArr xs) @ r) = Some (JArr xs, r)" if n: "jsz (JArr xs) \<le> n" for n r
  proof (cases xs)
    case Nil
    then show ?thesis using n by (cases n) (simp_all add: skip_ws_def json_ws_def)
  next
    case (Cons x ys)
    obtain m where m: "n = Suc m" using n by (cases n) auto
    obtain c s where c: "json_Marshal x = c # s" "\<not> json_ws c" "c \<noteq> CHR '']''"
      using Marshal_hd [of x] JArr.prems Cons by auto
    obtain t where t: "Join (map json_Marshal xs) '','' = json_Marshal x @ t"
      using Join_hd Cons by (metis list.simps(9))
    have "read_elems m (Join (map json_Marshal xs) '','' @ CHR '']'' # r) = Some (xs, r)"
      by (rule read_elems_Join) (use el Cons n m in auto)
    then show ?thesis using m c t by (simp add: skip_ws_def json_ws_def)
  qed
  then show ?case by (simp add: reads_def)
next
  case (JObj fs)
  have el: "reads (snd p)" if "p \<in> set fs" for p
    using JObj.IH [OF that, of "snd p"] JObj.prems that by (cases p) (auto simp: list_all_iff)
  have "read_doc n (json_Marshal (JObj fs) @ r) = Some (JObj fs, r)" if n: "jsz (JObj fs) \<le> n" for n r
  proof (cases fs)
    case Nil
    then show ?thesis using n by (cases n) (simp_all add: skip_ws_def json_ws_def)
  next
    case (Cons p ps)
    obtain m where m: "n = Suc m" using n by (cases n) auto
    obtain t where t: "Join (map (\<lambda>p. quote (fst p) @ '':'' @ json_Marshal (snd p)) fs) '','' = CHR 0x22 # t"
      using Join_hd [of "quote (fst p) @ '':'' @ json_Marshal (snd p)"] Cons
      by (metis (no_types, lifting) append_Cons list.simps(9) quote_def)
    have "read_members m (Join (map (\<lambda>p. quote (fst p) @ '':'' @ json_Marshal (snd p)) fs) '','' @ CHR ''}'' # r) = Some (fs, r)"
      by (rule read_members_Join) (use el Cons n m JObj.prems in auto)
    then show ?thesis using m t by (simp add: skip_ws_def json_ws_def)
  qed
  then show ?case by (simp add: reads_def)
next
  case (JStr s)
  have "read_doc n (quote s @ r) = Some (JStr s, r)" if "1 \<le> n" for n r
    using that read_doc_str by (cases n) auto
  then show ?case by (simp add: reads_def)
next
  case (JNum i)
  have "read_doc n (Itoa i @ r) = Some (JNum i, r)" if "1 \<le> n" "stops r" for n r
    using that read_doc_num by (cases n) auto
  then show ?case by (simp add: reads_def)
next
  case (JBool b)
  have "read_doc n (json_Marshal (JBool b) @ r) = Some (JBool b, r)" if "1 \<le> n" for n r
    using that by (cases n) (simp_all add: expect_def skip_ws_def json_ws_def)
  then show ?case by (simp add: reads_def)
next
  case JNull
  have "read_doc n (json_Marshal JNull @ r) = Some (JNull, r)" if "1 \<le> n" for n r
    using that by (cases n) (simp_all add: expect_def skip_ws_def json_ws_def)
  then show ?case by (simp add: reads_def)
qed simp_all

lemma Join_length:
  "xs \<noteq> [] \<Longrightarrow> length (Join xs [c]) + 1 = sum_list (map length xs) + length xs"
proof (induction xs)
  case (Cons x xs)
  then show ?case by (cases xs) auto
qed simp

lemma Itoa_length: "1 \<le> length (Itoa n)"
  using Itoa_cases [of n] by auto

lemma sum_list_Suc_le:
  "(\<And>x. x \<in> set xs \<Longrightarrow> f x \<le> 2 * g x) \<Longrightarrow> sum_list (map (\<lambda>x. Suc (f x)) xs) \<le> 2 * sum_list (map g xs) + length xs"
  by (induction xs) force+

lemma jsz_le: "plain d \<Longrightarrow> jsz d \<le> 2 * length (json_Marshal d)"
proof (induction d rule: json.induct)
  case (JArr xs)
  have "sum_list (map (\<lambda>x. Suc (jsz x)) xs) \<le> 2 * sum_list (map (\<lambda>x. length (json_Marshal x)) xs) + length xs"
    by (rule sum_list_Suc_le) (use JArr in \<open>auto simp: list_all_iff\<close>)
  then show ?case using Join_length [of "map json_Marshal xs" "CHR '',''"]
    by (cases "xs = []") (auto simp: comp_def)
next
  case (JObj fs)
  let ?g = "\<lambda>p. length (quote (fst p) @ '':'' @ json_Marshal (snd p))"
  have "jsz (snd p) \<le> 2 * length (json_Marshal (snd p))" if "p \<in> set fs" for p
    using JObj.IH [OF that, of "snd p"] JObj.prems that by (cases p) (auto simp: list_all_iff)
  then have "sum_list (map (\<lambda>p. Suc (jsz (snd p))) fs) \<le> 2 * sum_list (map ?g fs) + length fs"
    by (intro sum_list_Suc_le) fastforce
  then show ?case using Join_length [of "map (\<lambda>p. quote (fst p) @ '':'' @ json_Marshal (snd p)) fs" "CHR '',''"]
    by (cases "fs = []") (auto simp: comp_def)
next
  case (JNum n)
  then show ?case using Itoa_length [of n] by simp
qed (auto simp: quote_def)

lemma json_roundtrip: "plain d \<Longrightarrow> json_Unmarshal (json_Marshal d) = d"
proof -
  assume p: "plain d"
  have "read_doc (2 * length (json_Marshal d) + 2) (json_Marshal d @ []) = Some (d, [])"
    using reads_plain [OF p] jsz_le [OF p] unfolding reads_def by (meson le_add1 le_trans stops_simps(1))
  then show ?thesis by (simp add: json_Unmarshal_def)
qed

interpretation json_text: codec json_Marshal "\<lambda>s. Some (json_Unmarshal s)" plain
  by unfold_locales (simp add: json_roundtrip)

section \<open>Plain structs\<close>

lemma plain_JStrs: "plain (JStrs ss)"
  by (simp add: JStrs_def list_all_iff)

text \<open>Building a struct's fields one by one keeps the document plain.\<close>

definition has_key :: "fields \<Rightarrow> string \<Rightarrow> bool" where
  "has_key fs k \<longleftrightarrow> k \<in> fst ` set fs"

lemma plain_fields [json_simps]:
  "plain (JObj [])" "\<not> has_key [] k"
  "a \<noteq> k \<Longrightarrow> has_key (jopt c a v fs) k = has_key fs k"
  "a \<noteq> k \<Longrightarrow> has_key (jreq a v fs) k = has_key fs k"
  "\<not> has_key fs a \<Longrightarrow> plain v \<Longrightarrow> plain (JObj (jopt c a v fs)) = plain (JObj fs)"
  "\<not> has_key fs a \<Longrightarrow> plain v \<Longrightarrow> plain (JObj (jreq a v fs)) = plain (JObj fs)"
  by (auto simp: has_key_def jopt_def jreq_def)

end
