(* ===== verification/Primitives.thy ===== *)
theory Primitives
  imports JsonText
begin

text \<open>
  The cryptographic primitives the program calls (\<open>crypto/aes\<close> with \<open>crypto/cipher\<close>'s GCM,
  \<open>crypto/hmac\<close>, \<open>crypto/sha256\<close>, \<open>golang.org/x/crypto/bcrypt\<close>, \<open>golang.org/x/crypto/nacl/box\<close>,
  \<open>golang.org/x/crypto/hkdf\<close>): a parameter of every definition that calls them. What a property
  relies on is one of the named hypotheses below.

  Each call of \<open>rand.Read\<close> takes its bytes, or its failure, from an explicit argument.
\<close>

record crypto =
  gcm_Seal :: "string \<Rightarrow> string \<Rightarrow> string \<Rightarrow> string \<Rightarrow> string"
  gcm_Open :: "string \<Rightarrow> string \<Rightarrow> string \<Rightarrow> string \<Rightarrow> string option"
  hmac_Sum :: "string \<Rightarrow> string \<Rightarrow> string"
  sha256_Sum :: "string \<Rightarrow> string"
  bcrypt_Compare :: "string \<Rightarrow> string \<Rightarrow> bool"
  bcrypt_Generate :: "string \<Rightarrow> string \<Rightarrow> string option"
  box_Seal :: "string \<Rightarrow> string \<Rightarrow> string \<Rightarrow> string \<Rightarrow> string"
  box_Open :: "string \<Rightarrow> string \<Rightarrow> string \<Rightarrow> string \<Rightarrow> string option"
  box_Public :: "string \<Rightarrow> string"
  hkdf_Read :: "string \<Rightarrow> string \<Rightarrow> string \<Rightarrow> nat \<Rightarrow> string"

text \<open>The arguments of \<open>gcm_Seal\<close> are key, nonce, plaintext and additional data; of \<open>gcm_Open\<close> key,
  nonce, ciphertext and additional data. \<open>aes.NewCipher\<close> accepts keys of three lengths; GCM panics
  on a nonce that is not 12 bytes long.\<close>

definition aes_key_ok :: "string \<Rightarrow> bool" where
  "aes_key_ok k \<longleftrightarrow> length k = 16 \<or> length k = 24 \<or> length k = 32"

definition nonce_panic :: error where
  "nonce_panic = ErrMsg ''crypto/cipher: incorrect nonce length given to GCM''"

section \<open>Hypotheses\<close>

text \<open>What was sealed opens; a ciphertext is longer than its plaintext by the tag.\<close>

definition aead_correct :: "crypto \<Rightarrow> bool" where
  "aead_correct C \<longleftrightarrow> (\<forall>k n p a. aes_key_ok k \<longrightarrow> length n = 12 \<longrightarrow>
     gcm_Open C k n (gcm_Seal C k n p a) a = Some p \<and> length p < length (gcm_Seal C k n p a))"

text \<open>A ciphertext that opens is the sealing of what it opens to, under the same key, nonce and
  additional data.\<close>

definition aead_authentic :: "crypto \<Rightarrow> bool" where
  "aead_authentic C \<longleftrightarrow> (\<forall>k n c a p. gcm_Open C k n c a = Some p \<longrightarrow> c = gcm_Seal C k n p a)"

text \<open>Every read of the random source succeeds with the wanted length.\<close>

definition rand_ok :: "nat \<Rightarrow> (nat \<Rightarrow> string option) \<Rightarrow> bool" where
  "rand_ok len ns \<longleftrightarrow> (\<forall>i. \<exists>n. ns i = Some n \<and> length n = len)"

lemma rand_okE:
  assumes "rand_ok len ns" obtains n where "ns i = Some n" "length n = len"
  using assms by (auto simp: rand_ok_def)

section \<open>A concrete instance\<close>

text \<open>Functions that satisfy the hypotheses, for evaluating the definitions on concrete inputs.
  A tag is prepended that binds key, nonce and additional data.\<close>

definition toy_tag :: "string \<Rightarrow> string \<Rightarrow> string \<Rightarrow> string" where
  "toy_tag k n a = quote k @ quote n @ quote a"

definition toy_crypto :: crypto where
  "toy_crypto = \<lparr>
     gcm_Seal = (\<lambda>k n p a. toy_tag k n a @ p),
     gcm_Open = (\<lambda>k n c a. if prefix (toy_tag k n a) c then Some (drop (length (toy_tag k n a)) c) else None),
     hmac_Sum = (\<lambda>k m. quote k @ m),
     sha256_Sum = (\<lambda>m. ''h'' @ m),
     bcrypt_Compare = (\<lambda>h p. h = ''$2a$'' @ p),
     bcrypt_Generate = (\<lambda>p salt. if length p \<le> 72 then Some (''$2a$'' @ p) else None),
     box_Seal = (\<lambda>m n pk sk. quote n @ m),
     box_Open = (\<lambda>c n pk sk. if prefix (quote n) c then Some (drop (length (quote n)) c) else None),
     box_Public = (\<lambda>sk. sk),
     hkdf_Read = (\<lambda>secret salt info len. replicate len CHR ''k'')\<rparr>"

lemma toy_tag_not_Nil: "toy_tag k n a \<noteq> []"
  by (simp add: toy_tag_def quote_def)

lemma toy_aead: "aead_correct toy_crypto" "aead_authentic toy_crypto"
  by (auto simp: aead_correct_def aead_authentic_def toy_crypto_def toy_tag_not_Nil prefix_def)

section \<open>Identifiers\<close>

text \<open>\<open>pkg/uuid\<close>: a version 4 UUID from 16 random bytes.\<close>

definition GenerateUUID :: "string option \<Rightarrow> string result" where
  "GenerateUUID rnd = bindE (of_option (ErrMsg ''generate uuid'') rnd) (\<lambda>b0.
     let b1 = b0[6 := char_of (of_char (b0 ! 6) mod 16 + 64 :: nat)];
         b = b1[8 := char_of (of_char (b1 ! 8) mod 64 + 128 :: nat)]
     in Inr (hex_EncodeToString (take 4 b) @ ''-'' @ hex_EncodeToString (take 2 (drop 4 b)) @ ''-'' @
          hex_EncodeToString (take 2 (drop 6 b)) @ ''-'' @ hex_EncodeToString (take 2 (drop 8 b)) @ ''-'' @
          hex_EncodeToString (drop 10 b)))"

definition uuid_char :: "char \<Rightarrow> bool" where
  "uuid_char c \<longleftrightarrow> c \<in> set hex_digits \<or> c = CHR ''-''"

lemma hex_chars: "c \<in> set (hex_EncodeToString bs) \<Longrightarrow> c \<in> set hex_digits"
proof -
  have l: "length hex_digits = 16" by (simp add: hex_digits_def)
  have "of_char b div 16 < (16 :: nat)" for b
    using nat_of_char_less_256 [of b] by (simp add: less_mult_imp_div_less)
  then show "c \<in> set (hex_EncodeToString bs) \<Longrightarrow> ?thesis"
    using l by (auto simp: hex_EncodeToString_def intro!: nth_mem)
qed

lemma GenerateUUID_chars: "GenerateUUID rnd = Inr s \<Longrightarrow> list_all uuid_char s"
  by (cases rnd) (auto simp: GenerateUUID_def Let_def list_all_iff uuid_char_def dest: hex_chars)

lemma GenerateUUID_length: "GenerateUUID (Some b) = Inr s \<Longrightarrow> length b = 16 \<Longrightarrow> length s = 36"
  by (auto simp: GenerateUUID_def Let_def hex_length)

end
