(* ===== verification/CryptoKeeper.thy ===== *)
theory CryptoKeeper
  imports Primitives
begin

text \<open>
  The at-rest key set \<open>internal/repository/cryptokeeper.go\<close>: loading and generating key files,
  sealing a value under the primary key and opening it with the key it names. The lemmas show
  that a loaded key set is usable, that what was sealed opens again under every key set that
  still has the key (key rotation), and that a generated key file loads.
\<close>

section \<open>Envelopes and key files\<close>

definition atRestContext :: string where
  "atRestContext = ''gohookbridge.at-rest.v1''"

record encrypted_value =
  ev_KID :: string
  ev_Alg :: string
  ev_Ver :: int
  ev_Non :: string
  ev_Ctx :: string
  ev_Ct :: string

definition marshal_encrypted_value :: "encrypted_value \<Rightarrow> json" where
  "marshal_encrypted_value ev = JObj (
     jreq ''kid'' (JStr (ev_KID ev)) (
     jreq ''alg'' (JStr (ev_Alg ev)) (
     jreq ''ver'' (JNum (ev_Ver ev)) (
     jreq ''non'' (JStr (ev_Non ev)) (
     jreq ''ctx'' (JStr (ev_Ctx ev)) (
     jreq ''ct'' (JStr (ev_Ct ev)) []))))))"

definition unmarshal_encrypted_value :: "json \<Rightarrow> encrypted_value option" where
  "unmarshal_encrypted_value d = do {
     fs \<leftarrow> jobj d;
     kid \<leftarrow> jstr fs ''kid'';
     alg \<leftarrow> jstr fs ''alg'';
     ver \<leftarrow> jint fs ''ver'';
     non \<leftarrow> jstr fs ''non'';
     ctx \<leftarrow> jstr fs ''ctx'';
     ct \<leftarrow> jstr fs ''ct'';
     Some \<lparr>ev_KID = kid, ev_Alg = alg, ev_Ver = ver, ev_Non = non, ev_Ctx = ctx, ev_Ct = ct\<rparr> }"

record crypto_keeper =
  ck_keys :: "(string, string) kv"
  ck_primary :: string

record crypto_key_file =
  kf_Primary :: string
  kf_Keys :: "(string, string) kv"

text \<open>A \<open>map[string]string\<close> field; the keys of the document's object are distinct.\<close>

fun dec_strmap :: "json \<Rightarrow> (string, string) kv option" where
  "dec_strmap (JObj fs) = mapO (\<lambda>(k, v). map_option (Pair k) (dec_str v)) fs"
| "dec_strmap _ = None"

definition marshal_key_file :: "crypto_key_file \<Rightarrow> json" where
  "marshal_key_file f = JObj (
     jreq ''primary'' (JStr (kf_Primary f)) (
     jreq ''keys'' (JObj (map (\<lambda>(k, v). (k, JStr v)) (kf_Keys f))) []))"

definition unmarshal_key_file :: "json \<Rightarrow> crypto_key_file option" where
  "unmarshal_key_file d = do {
     fs \<leftarrow> jobj d;
     p \<leftarrow> jstr fs ''primary'';
     ks \<leftarrow> jfield [] dec_strmap fs ''keys'';
     Some \<lparr>kf_Primary = p, kf_Keys = ks\<rparr> }"

section \<open>Operations\<close>

fun load_keys :: "(string, string) kv \<Rightarrow> (string, string) kv \<Rightarrow> (string, string) kv result" where
  "load_keys [] keys = Inr keys"
| "load_keys ((kid, b64) # r) keys = (case base64_Std_Decode b64 of
       None \<Rightarrow> Inl (ErrMsg ''decode key'')
     | Some key \<Rightarrow> (if length key \<noteq> 32 then Inl (ErrMsg ''key must be 32 bytes'')
                    else load_keys r (kv_put kid key keys)))"

text \<open>The argument is the outcome of reading the file.\<close>

definition LoadCryptoKeeper :: "string result \<Rightarrow> crypto_keeper result" where
  "LoadCryptoKeeper file = bindE file (\<lambda>data.
     (case unmarshal_key_file (json_Unmarshal data) of
        None \<Rightarrow> Inl (ErrMsg ''parse at-rest key file'')
      | Some parsed \<Rightarrow>
          (if kf_Primary parsed = [] \<or> length (kf_Keys parsed) = 0
           then Inl (ErrMsg ''at-rest key file must define primary and keys'')
           else bindE (load_keys (kf_Keys parsed) []) (\<lambda>keys.
             (case kv_get keys (kf_Primary parsed) of
                None \<Rightarrow> Inl (ErrMsg ''primary key not present in keys'')
              | Some _ \<Rightarrow> Inr \<lparr>ck_keys = keys, ck_primary = kf_Primary parsed\<rparr>)))))"

definition NewCryptoKeeper :: "string \<Rightarrow> (string, string) kv \<Rightarrow> crypto_keeper" where
  "NewCryptoKeeper primary keys = \<lparr>ck_keys = keys, ck_primary = primary\<rparr>"

text \<open>\<open>rnd\<close> is what \<open>rand.Read(nonce)\<close> gives.\<close>

definition Encrypt :: "crypto \<Rightarrow> crypto_keeper \<Rightarrow> string option \<Rightarrow> string \<Rightarrow> encrypted_value result" where
  "Encrypt C k rnd pt = (case kv_get (ck_keys k) (ck_primary k) of
       None \<Rightarrow> Inl (ErrMsg ''primary at-rest key missing'')
     | Some key \<Rightarrow>
         (if \<not> aes_key_ok key then Inl (ErrMsg ''crypto/aes: invalid key size'')
          else (case rnd of None \<Rightarrow> Inl (ErrMsg ''rand'')
            | Some nonce \<Rightarrow> Inr \<lparr>ev_KID = ck_primary k, ev_Alg = ''A256GCM'', ev_Ver = 1,
                ev_Non = base64_Std_Encode nonce, ev_Ctx = base64_Std_Encode atRestContext,
                ev_Ct = base64_Std_Encode (gcm_Seal C key nonce pt atRestContext)\<rparr>)))"

definition Decrypt :: "crypto \<Rightarrow> crypto_keeper \<Rightarrow> encrypted_value \<Rightarrow> string result" where
  "Decrypt C k ev =
     (if ev_Alg ev \<noteq> ''A256GCM'' \<or> ev_Ver ev \<noteq> 1 then Inl (ErrMsg ''unsupported at-rest envelope'')
      else bindE (of_option (ErrMsg ''unknown at-rest key'') (kv_get (ck_keys k) (ev_KID ev))) (\<lambda>key.
           bindE (of_option (ErrMsg ''decode nonce'') (base64_Std_Decode (ev_Non ev))) (\<lambda>nonce.
           bindE (of_option (ErrMsg ''decode ciphertext'') (base64_Std_Decode (ev_Ct ev))) (\<lambda>ct.
           bindE (of_option (ErrMsg ''decode context'') (base64_Std_Decode (ev_Ctx ev))) (\<lambda>ctx.
           if \<not> aes_key_ok key then Inl (ErrMsg ''crypto/aes: invalid key size'')
           else if length nonce \<noteq> 12 then Inl nonce_panic
           else of_option (ErrMsg ''decrypt at-rest value'') (gcm_Open C key nonce ct ctx))))))"

text \<open>The bytes \<open>GenerateKeyFile\<close> writes.\<close>

definition GenerateKeyFile :: "string option \<Rightarrow> string result" where
  "GenerateKeyFile rnd = bindE (of_option (ErrMsg ''rand'') rnd) (\<lambda>key.
     Inr (json_Marshal (marshal_key_file \<lparr>kf_Primary = ''k1'', kf_Keys = [(''k1'', base64_Std_Encode key)]\<rparr>)))"

definition keeper_wf :: "crypto_keeper \<Rightarrow> bool" where
  "keeper_wf k \<longleftrightarrow> kv_wf (ck_keys k) \<and> list_all (\<lambda>p. length (snd p) = 32) (ck_keys k) \<and>
     kv_get (ck_keys k) (ck_primary k) \<noteq> None"

section \<open>Lemmas\<close>

lemma encrypted_value_roundtrip: "unmarshal_encrypted_value (marshal_encrypted_value ev) = Some ev"
  by (simp add: marshal_encrypted_value_def unmarshal_encrypted_value_def json_simps)

interpretation encrypted_value_json: codec marshal_encrypted_value unmarshal_encrypted_value "\<lambda>_. True"
  by unfold_locales (rule encrypted_value_roundtrip)

lemma plain_encrypted_value: "plain (marshal_encrypted_value ev)"
  by (simp add: marshal_encrypted_value_def jreq_def)

text \<open>The JSON text of an envelope, as it is stored in a string field.\<close>

lemma encrypted_value_text:
  "unmarshal_encrypted_value (json_Unmarshal (json_Marshal (marshal_encrypted_value ev))) = Some ev"
  by (simp add: json_roundtrip plain_encrypted_value encrypted_value_roundtrip)

lemma kv_put_values: "set (kv_put k v m) \<subseteq> insert (k, v) (set m)"
  by (induction k v m rule: kv_put.induct) (auto split: if_splits)

lemma load_keys_wf:
  "load_keys ks keys = Inr keys' \<Longrightarrow> kv_wf keys \<Longrightarrow> list_all (\<lambda>p. length (snd p) = 32) keys \<Longrightarrow>
     kv_wf keys' \<and> list_all (\<lambda>p. length (snd p) = 32) keys'"
proof (induction ks keys rule: load_keys.induct)
  case (2 kid b64 r keys)
  then obtain key where k: "base64_Std_Decode b64 = Some key" "length key = 32"
    by (auto split: option.splits if_splits)
  have "list_all (\<lambda>p. length (snd p) = 32) (kv_put kid key keys)"
    using "2.prems"(3) k kv_put_values [of kid key keys] by (auto simp: list_all_iff)
  then show ?case using 2 k by (simp add: kvm.wf_put)
qed simp

lemma LoadCryptoKeeper_wf: "LoadCryptoKeeper file = Inr k \<Longrightarrow> keeper_wf k"
  unfolding LoadCryptoKeeper_def
  by (erule bindE_InrE) (auto simp: keeper_wf_def bindE_Inr_iff split: option.split_asm if_split_asm
      dest: load_keys_wf)

lemma keeper_wf_key:
  assumes "keeper_wf k" shows "\<exists>key. kv_get (ck_keys k) (ck_primary k) = Some key \<and> aes_key_ok key"
  using assms by (force simp: keeper_wf_def aes_key_ok_def kv_get_def list_all_iff dest: map_of_SomeD)

lemma Encrypt_ok:
  "keeper_wf k \<Longrightarrow> rnd = Some n \<Longrightarrow> \<exists>ev. Encrypt C k rnd p = Inr ev"
  using keeper_wf_key [of k] by (auto simp: Encrypt_def)

lemma Encrypt_Alg: "Encrypt C k rnd p = Inr ev \<Longrightarrow> ev_Alg ev = ''A256GCM''"
  by (auto simp: Encrypt_def split: option.splits if_splits)

lemma Decrypt_Encrypt:
  assumes "aead_correct C" "Encrypt C k rnd p = Inr ev" "\<And>n. rnd = Some n \<Longrightarrow> length n = 12"
    and "kv_get (ck_keys k') (ck_primary k) = kv_get (ck_keys k) (ck_primary k)"
  shows "Decrypt C k' ev = Inr p"
  using assms
  by (auto simp: Encrypt_def Decrypt_def Std_roundtrip aead_correct_def split: option.splits if_splits)

lemma Decrypt_authentic:
  assumes "aead_authentic C" "Decrypt C k ev = Inr p"
  shows "\<exists>key nonce ctx. kv_get (ck_keys k) (ev_KID ev) = Some key \<and>
     base64_Std_Decode (ev_Ctx ev) = Some ctx \<and>
     base64_Std_Decode (ev_Ct ev) = Some (gcm_Seal C key nonce p ctx)"
  using assms
  by (auto simp: Decrypt_def of_option_def aead_authentic_def bindE_Inr_iff split: option.splits if_splits) blast

lemma load_generated:
  assumes "GenerateKeyFile (Some key) = Inr data" "length key = 32"
  shows "LoadCryptoKeeper (Inr data) = Inr (NewCryptoKeeper ''k1'' [(''k1'', key)])"
proof -
  let ?f = "\<lparr>kf_Primary = ''k1'', kf_Keys = [(''k1'', base64_Std_Encode key)]\<rparr>"
  have "plain (marshal_key_file ?f)" by (simp add: marshal_key_file_def jreq_def)
  moreover have "unmarshal_key_file (marshal_key_file ?f) = Some ?f"
    by (simp add: marshal_key_file_def unmarshal_key_file_def json_simps)
  ultimately show ?thesis
    using assms by (auto simp: GenerateKeyFile_def LoadCryptoKeeper_def json_roundtrip Std_roundtrip
        kv_get_Cons NewCryptoKeeper_def)
qed

section \<open>Properties\<close>

text \<open>At-rest values survive key rotation: a value sealed under the primary key of one key set opens
  with every key set that still holds that key under its identifier, whatever its own primary is;
  a key set that does not hold it reports an error.\<close>

theorem at_rest_survives_rotation:
  assumes "aead_correct C" "Encrypt C k (Some n) p = Inr ev" "length n = 12"
  shows "(kv_get (ck_keys k') (ck_primary k) = kv_get (ck_keys k) (ck_primary k) \<longrightarrow> Decrypt C k' ev = Inr p) \<and>
     (kv_get (ck_keys k') (ck_primary k) = None \<longrightarrow> Decrypt C k' ev = Inl (ErrMsg ''unknown at-rest key''))"
proof (intro conjI impI)
  assume "kv_get (ck_keys k') (ck_primary k) = kv_get (ck_keys k) (ck_primary k)"
  then show "Decrypt C k' ev = Inr p" using Decrypt_Encrypt [OF assms(1,2)] assms(3) by simp
next
  assume "kv_get (ck_keys k') (ck_primary k) = None"
  then show "Decrypt C k' ev = Inl (ErrMsg ''unknown at-rest key'')"
    using assms(2) by (auto simp: Encrypt_def Decrypt_def split: option.splits if_splits)
qed

theorem at_rest_survives_rotation_witness:
  "\<exists>ev. Encrypt toy_crypto (NewCryptoKeeper ''k1'' [(''k1'', replicate 32 CHR ''a'')]) (Some (replicate 12 CHR ''n'')) ''secret'' = Inr ev \<and>
     Decrypt toy_crypto (NewCryptoKeeper ''k2'' [(''k1'', replicate 32 CHR ''a''), (''k2'', replicate 32 CHR ''b'')]) ev = Inr ''secret''"
proof -
  let ?k = "NewCryptoKeeper ''k1'' [(''k1'', replicate 32 CHR ''a'')]"
  have "keeper_wf ?k" by (simp add: keeper_wf_def NewCryptoKeeper_def kv_wf_def kv_get_Cons)
  then obtain ev where e: "Encrypt toy_crypto ?k (Some (replicate 12 CHR ''n'')) ''secret'' = Inr ev"
    using Encrypt_ok by blast
  then show ?thesis
    using at_rest_survives_rotation [OF toy_aead(1) e, of "NewCryptoKeeper ''k2'' [(''k1'', replicate 32 CHR ''a''), (''k2'', replicate 32 CHR ''b'')]"]
    by (simp add: NewCryptoKeeper_def kv_get_Cons)
qed

text \<open>The key file the program generates works: it loads, and every value sealed with the loaded key set
  opens to what was sealed.\<close>

theorem generated_key_file_works:
  assumes "aead_correct C" "GenerateKeyFile (Some key) = Inr data" "length key = 32" "length n = 12"
  shows "\<exists>k. LoadCryptoKeeper (Inr data) = Inr k \<and> (\<forall>p. \<exists>ev. Encrypt C k (Some n) p = Inr ev \<and> Decrypt C k ev = Inr p)"
proof -
  let ?k = "NewCryptoKeeper ''k1'' [(''k1'', key)]"
  have "keeper_wf ?k" using assms(3) by (simp add: keeper_wf_def NewCryptoKeeper_def kv_wf_def kv_get_Cons)
  then have "\<exists>ev. Encrypt C ?k (Some n) p = Inr ev \<and> Decrypt C ?k ev = Inr p" for p
    using Encrypt_ok Decrypt_Encrypt [OF assms(1), of ?k "Some n" p _ ?k] assms(4) by blast
  then show ?thesis using load_generated [OF assms(2,3)] by blast
qed

theorem generated_key_file_works_witness:
  "\<exists>data k. GenerateKeyFile (Some (replicate 32 CHR ''a'')) = Inr data \<and> LoadCryptoKeeper (Inr data) = Inr k"
proof -
  obtain data where g: "GenerateKeyFile (Some (replicate 32 CHR ''a'')) = Inr data" by (simp add: GenerateKeyFile_def)
  show ?thesis
    using generated_key_file_works [OF toy_aead(1) g, of "replicate 12 CHR ''n''"] g by auto
qed

end
