(* ===== verification/RaftStore.thy ===== *)
theory RaftStore
  imports Fsm CryptoKeeper
begin

text \<open>
  The repository \<open>internal/repository/raft.go\<close> (and \<open>migrate.go\<close>): the record store the services
  use, on top of the replicated state machine. Reads go to the local FSM bucket; every write is
  one command of the Raft log. Secrets are sealed before they are written and opened when they
  are read.

  The Raft library is a third-party package. Its verdict on a proposed command is part of the
  state: the entry commits and is applied to the local FSM before the future returns, or the
  future reports an error and the entry is lost, or it reports an error although the entry is
  applied (a timeout).
\<close>

section \<open>State\<close>

datatype raft_verdict = Committed | NotCommitted error | AppliedLate error

record raft_store =
  rs_db :: bolt_db
  rs_leader :: bool
  rs_verdict :: raft_verdict
  rs_keeper :: "crypto_keeper option"
  rs_nodeID :: string

text \<open>The successive reads of the random source during one operation.\<close>

type_synonym ns = "nat \<Rightarrow> string option"

section \<open>Sealing\<close>

definition sealString :: "crypto \<Rightarrow> raft_store \<Rightarrow> string option \<Rightarrow> string \<Rightarrow> string result" where
  "sealString C rs rnd pt = (case rs_keeper rs of
       None \<Rightarrow> Inr pt
     | Some k \<Rightarrow> (if pt = [] then Inr pt
         else bindE (Encrypt C k rnd pt) (\<lambda>ev. Inr (json_Marshal (marshal_encrypted_value ev)))))"

definition openString :: "crypto \<Rightarrow> raft_store \<Rightarrow> string \<Rightarrow> string result" where
  "openString C rs stored = (case rs_keeper rs of
       None \<Rightarrow> Inr stored
     | Some k \<Rightarrow> (if stored = [] then Inr stored
         else (case unmarshal_encrypted_value (json_Unmarshal stored) of
             None \<Rightarrow> Inr stored
           | Some ev \<Rightarrow> (if ev_Alg ev = [] \<or> ev_Ct ev = [] then Inr stored else Decrypt C k ev))))"

fun seal_strings :: "crypto \<Rightarrow> raft_store \<Rightarrow> ns \<Rightarrow> string list \<Rightarrow> string list result" where
  "seal_strings C rs ns [] = Inr []"
| "seal_strings C rs ns (s # ss) = bindE (sealString C rs (ns 0) s) (\<lambda>t.
     bindE (seal_strings C rs (\<lambda>i. ns (Suc i)) ss) (\<lambda>ts. Inr (t # ts)))"

definition sealChannel :: "crypto \<Rightarrow> raft_store \<Rightarrow> ns \<Rightarrow> channel \<Rightarrow> channel result" where
  "sealChannel C rs ns p = (if rs_keeper rs = None then Inr p
     else bindE (sealString C rs (ns 0) (ch_WebhookSecret p)) (\<lambda>ws.
          bindE (sealString C rs (ns 1) (ch_EncryptionKey p)) (\<lambda>ek.
          bindE (sealString C rs (ns 2) (ch_EncryptionPrivateKey p)) (\<lambda>pk.
          bindE (seal_strings C rs (\<lambda>i. ns (i + 3)) (ch_WebhookSignatures p)) (\<lambda>sigs.
          Inr (p\<lparr>ch_WebhookSecret := ws, ch_EncryptionKey := ek, ch_EncryptionPrivateKey := pk,
                 ch_WebhookSignatures := sigs\<rparr>))))))"

definition openChannel :: "crypto \<Rightarrow> raft_store \<Rightarrow> channel \<Rightarrow> channel result" where
  "openChannel C rs p = (if rs_keeper rs = None then Inr p
     else bindE (openString C rs (ch_WebhookSecret p)) (\<lambda>ws.
          bindE (openString C rs (ch_EncryptionKey p)) (\<lambda>ek.
          bindE (openString C rs (ch_EncryptionPrivateKey p)) (\<lambda>pk.
          bindE (mapE (openString C rs) (ch_WebhookSignatures p)) (\<lambda>sigs.
          Inr (p\<lparr>ch_WebhookSecret := ws, ch_EncryptionKey := ek, ch_EncryptionPrivateKey := pk,
                 ch_WebhookSignatures := sigs\<rparr>))))))"

definition sealConfig :: "crypto \<Rightarrow> raft_store \<Rightarrow> ns \<Rightarrow> global_config \<Rightarrow> global_config result" where
  "sealConfig C rs ns cfg = (if rs_keeper rs = None then Inr cfg
     else bindE (sealString C rs (ns 0) (sc_SessionSecret (gc_Server cfg))) (\<lambda>ss.
          bindE (sealString C rs (ns 1) (dc_WebhookSecret (gc_Defaults cfg))) (\<lambda>ws.
          Inr (cfg\<lparr>gc_Server := (gc_Server cfg)\<lparr>sc_SessionSecret := ss\<rparr>,
                   gc_Defaults := (gc_Defaults cfg)\<lparr>dc_WebhookSecret := ws\<rparr>\<rparr>))))"

definition openConfig :: "crypto \<Rightarrow> raft_store \<Rightarrow> global_config \<Rightarrow> global_config result" where
  "openConfig C rs cfg = (if rs_keeper rs = None then Inr cfg
     else bindE (openString C rs (sc_SessionSecret (gc_Server cfg))) (\<lambda>ss.
          bindE (openString C rs (dc_WebhookSecret (gc_Defaults cfg))) (\<lambda>ws.
          Inr (cfg\<lparr>gc_Server := (gc_Server cfg)\<lparr>sc_SessionSecret := ss\<rparr>,
                   gc_Defaults := (gc_Defaults cfg)\<lparr>dc_WebhookSecret := ws\<rparr>\<rparr>))))"

section \<open>Proposing commands\<close>

definition IsLeader :: "raft_store \<Rightarrow> bool" where
  "IsLeader rs = rs_leader rs"

text \<open>The response is the error value the FSM returned, if any.\<close>

definition Apply :: "raft_store \<Rightarrow> fsm_command \<Rightarrow> error option result \<times> raft_store" where
  "Apply rs cmd =
     (if \<not> IsLeader rs then (Inl (ErrMsg ''not the leader''), rs)
      else (let out = FSM_Apply (rs_db rs) (Some cmd); rs' = rs\<lparr>rs_db := snd out\<rparr> in
        (case rs_verdict rs of
           NotCommitted e \<Rightarrow> (Inl e, rs)
         | AppliedLate e \<Rightarrow> (Inl e, rs')
         | Committed \<Rightarrow> (Inr (fst out), rs'))))"

definition applyResponse :: "error option result \<Rightarrow> error option" where
  "applyResponse r = (case r of Inl e \<Rightarrow> Some e | Inr resp \<Rightarrow> resp)"

definition applyCommand :: "raft_store \<Rightarrow> string \<Rightarrow> string \<Rightarrow> json \<Rightarrow> error option \<times> raft_store" where
  "applyCommand rs op key v = (let (r, rs') = Apply rs \<lparr>fc_Op = op, fc_Key = key, fc_Value = v\<rparr>
     in (applyResponse r, rs'))"

definition applyMulti :: "raft_store \<Rightarrow> fsm_kv list \<Rightarrow> error option \<times> raft_store" where
  "applyMulti rs entries =
     (let (r, rs') = Apply rs \<lparr>fc_Op = ''set-multi'', fc_Key = [], fc_Value = marshal_multi entries\<rparr>
      in (applyResponse r, rs'))"

definition HasData :: "raft_store \<Rightarrow> bool result" where
  "HasData rs = bindE (listFSMKeys (rs_db rs) ''/'') (\<lambda>keys. Inr (length keys > 0))"

section \<open>Channels\<close>

definition channelKey :: "string \<Rightarrow> string" where
  "channelKey i = ''/channels/'' @ i @ ''/''"

definition GetChannel :: "crypto \<Rightarrow> raft_store \<Rightarrow> string \<Rightarrow> channel result" where
  "GetChannel C rs i = (if i = [] then Inl ErrInvalidArgument
     else bindE (getFSMValue (rs_db rs) (channelKey i)) (\<lambda>val. case val of
         None \<Rightarrow> Inl ErrNotFound
       | Some d \<Rightarrow> bindE (of_option json_error (unmarshal_channel d)) (openChannel C rs)))"

text \<open>The first path segment of a key below a prefix.\<close>

definition segment :: "string \<Rightarrow> string \<Rightarrow> string" where
  "segment pre key = hd (Split CHR ''/'' (TrimPrefix key pre))"

fun list_channels :: "crypto \<Rightarrow> raft_store \<Rightarrow> string list \<Rightarrow> string list \<Rightarrow> channel list result" where
  "list_channels C rs seen [] = Inr []"
| "list_channels C rs seen (key # keys) =
     (let i = segment ''/channels/'' key in
      if i = [] then list_channels C rs seen keys
      else if i \<in> set seen then list_channels C rs seen keys
      else bindE (getFSMValue (rs_db rs) (channelKey i)) (\<lambda>val. case val of
          None \<Rightarrow> list_channels C rs (i # seen) keys
        | Some d \<Rightarrow> bindE (of_option json_error (unmarshal_channel d)) (\<lambda>ch.
            bindE (openChannel C rs ch) (\<lambda>ch.
            bindE (list_channels C rs (i # seen) keys) (\<lambda>chs. Inr (MigrateChannel ch # chs))))))"

definition ListChannels :: "crypto \<Rightarrow> raft_store \<Rightarrow> channel list result" where
  "ListChannels C rs = bindE (listFSMKeys (rs_db rs) ''/channels/'') (list_channels C rs [])"

definition CreateChannel :: "crypto \<Rightarrow> ns \<Rightarrow> raft_store \<Rightarrow> channel \<Rightarrow> error option \<times> raft_store" where
  "CreateChannel C ns rs p = (if ch_ID p = [] then (Some ErrInvalidArgument, rs)
     else (case sealChannel C rs ns p of
         Inl e \<Rightarrow> (Some e, rs)
       | Inr sealed \<Rightarrow> (let (r, rs') = Apply rs \<lparr>fc_Op = ''create-channel'', fc_Key = channelKey (ch_ID p),
                                            fc_Value = marshal_channel sealed\<rparr>
                        in (applyResponse r, rs'))))"

definition UpdateChannel :: "crypto \<Rightarrow> ns \<Rightarrow> raft_store \<Rightarrow> channel \<Rightarrow> error option \<times> raft_store" where
  "UpdateChannel C ns rs p = (if ch_ID p = [] then (Some ErrInvalidArgument, rs)
     else (case sealChannel C rs ns p of
         Inl e \<Rightarrow> (Some e, rs)
       | Inr sealed \<Rightarrow> applyCommand rs ''set'' (channelKey (ch_ID p)) (marshal_channel sealed)))"

definition DeleteChannel :: "raft_store \<Rightarrow> string \<Rightarrow> error option \<times> raft_store" where
  "DeleteChannel rs i = applyCommand rs ''delete'' (channelKey i) JBad"

section \<open>Global configuration\<close>

definition GetGlobalConfig :: "crypto \<Rightarrow> raft_store \<Rightarrow> global_config result" where
  "GetGlobalConfig C rs =
     bindE (getFSMValue (rs_db rs) ''/global/server/'') (\<lambda>sv.
     bindE (case sv of None \<Rightarrow> Inr (gc_Server DefaultGlobalConfig)
            | Some d \<Rightarrow> of_option json_error (unmarshal_server_config d)) (\<lambda>sc.
     bindE (getFSMValue (rs_db rs) ''/global/defaults/'') (\<lambda>dv.
     bindE (case dv of None \<Rightarrow> Inr (gc_Defaults DefaultGlobalConfig)
            | Some d \<Rightarrow> of_option json_error (unmarshal_defaults_config d)) (\<lambda>dc.
     openConfig C rs \<lparr>gc_Server = sc, gc_Defaults = dc\<rparr>))))"

text \<open>\<open>None\<close> is a nil configuration.\<close>

definition UpdateGlobalConfig :: "crypto \<Rightarrow> ns \<Rightarrow> raft_store \<Rightarrow> global_config option \<Rightarrow> error option \<times> raft_store" where
  "UpdateGlobalConfig C ns rs cfg = (case cfg of None \<Rightarrow> (Some ErrInvalidArgument, rs)
     | Some c \<Rightarrow> (case sealConfig C rs ns c of
           Inl e \<Rightarrow> (Some e, rs)
         | Inr s \<Rightarrow> applyMulti rs
             [\<lparr>fk_Key = ''/global/server/'', fk_Value = marshal_server_config (gc_Server s), fk_Delete = False\<rparr>,
              \<lparr>fk_Key = ''/global/defaults/'', fk_Value = marshal_defaults_config (gc_Defaults s), fk_Delete = False\<rparr>]))"

section \<open>Users\<close>

definition userKey :: "string \<Rightarrow> string" where
  "userKey i = ''/users/'' @ i @ ''/''"

definition GetUser :: "raft_store \<Rightarrow> string \<Rightarrow> user result" where
  "GetUser rs i = bindE (getFSMValue (rs_db rs) (userKey i)) (\<lambda>val. case val of
       None \<Rightarrow> Inl ErrNotFound
     | Some d \<Rightarrow> of_option json_error (unmarshal_user d))"

definition GetUserByUsername :: "raft_store \<Rightarrow> string \<Rightarrow> user result" where
  "GetUserByUsername rs name =
     (case ok_or None (getFSMValue (rs_db rs) (''/users/by-username/'' @ name @ ''/'')) of
        None \<Rightarrow> Inl ErrNotFound
      | Some d \<Rightarrow> (case unmarshal_usernameIndex d of
            None \<Rightarrow> Inl ErrNotFound
          | Some i \<Rightarrow> GetUser rs i))"

fun list_users :: "raft_store \<Rightarrow> string list \<Rightarrow> string list \<Rightarrow> user list" where
  "list_users rs seen [] = []"
| "list_users rs seen (key # keys) =
     (let i = segment ''/users/'' key in
      if i = [] \<or> i = ''by-username'' then list_users rs seen keys
      else if i \<in> set seen then list_users rs seen keys
      else (case ok_or None (getFSMValue (rs_db rs) (userKey i)) of
          None \<Rightarrow> list_users rs (i # seen) keys
        | Some d \<Rightarrow> (case unmarshal_user d of
              None \<Rightarrow> list_users rs (i # seen) keys
            | Some u \<Rightarrow> u # list_users rs (i # seen) keys)))"

definition ListUsers :: "raft_store \<Rightarrow> user list result" where
  "ListUsers rs = bindE (listFSMKeys (rs_db rs) ''/users/'') (\<lambda>keys. Inr (list_users rs [] keys))"

definition GetUserByExternalIdentity :: "raft_store \<Rightarrow> string \<Rightarrow> string \<Rightarrow> string \<Rightarrow> user result" where
  "GetUserByExternalIdentity rs providerID issuer subject =
     (if providerID = [] \<or> issuer = [] \<or> subject = [] then Inl ErrInvalidArgument
      else bindE (ListUsers rs) (\<lambda>users.
        of_option ErrNotFound (find (\<lambda>u. list_ex (\<lambda>i. ei_ProviderID i = providerID \<and> ei_Issuer i = issuer \<and>
            ei_Subject i = subject) (us_ExternalIdentities u)) users)))"

definition CreateUser :: "raft_store \<Rightarrow> user \<Rightarrow> error option \<times> raft_store" where
  "CreateUser rs u0 =
     (let u = u0\<lparr>us_ID := (if us_ID u0 = [] then us_Username u0 else us_ID u0)\<rparr> in
      if us_ID u = [] then (Some ErrInvalidArgument, rs)
      else (let (r, rs') = Apply rs \<lparr>fc_Op = ''create-user'', fc_Key = userKey (us_ID u), fc_Value = marshal_user u\<rparr>
            in (applyResponse r, rs')))"

definition UpdateUser :: "raft_store \<Rightarrow> user \<Rightarrow> error option \<times> raft_store" where
  "UpdateUser rs u =
     (let oldUsername = (case GetUser rs (us_ID u) of
            Inl _ \<Rightarrow> []
          | Inr old \<Rightarrow> (if us_Username old \<noteq> us_Username u \<and> us_Username old \<noteq> []
                        then us_Username old else []));
          entries =
            [\<lparr>fk_Key = userKey (us_ID u), fk_Value = marshal_user u, fk_Delete = False\<rparr>,
             \<lparr>fk_Key = usernameIndexKey (us_Username u) @ ''/'', fk_Value = usernameIndexValue (us_ID u), fk_Delete = False\<rparr>] @
            (if oldUsername \<noteq> []
             then [\<lparr>fk_Key = ''/users/by-username/'' @ oldUsername @ ''/'', fk_Value = JBad, fk_Delete = True\<rparr>] else [])
      in applyMulti rs entries)"

definition DeleteUser :: "raft_store \<Rightarrow> string \<Rightarrow> error option \<times> raft_store" where
  "DeleteUser rs i = (case GetUser rs i of
       Inl e \<Rightarrow> (Some e, rs)
     | Inr u \<Rightarrow> applyMulti rs
         [\<lparr>fk_Key = userKey i, fk_Value = JBad, fk_Delete = True\<rparr>,
          \<lparr>fk_Key = ''/users/by-username/'' @ us_Username u @ ''/'', fk_Value = JBad, fk_Delete = True\<rparr>])"

section \<open>Ready stores\<close>

text \<open>A store whose node leads, whose proposals commit and whose database works.\<close>

definition store_ready :: "raft_store \<Rightarrow> bool" where
  "store_ready rs \<longleftrightarrow> rs_leader rs \<and> rs_verdict rs = Committed \<and> db_view_err (rs_db rs) = None \<and>
     db_update_err (rs_db rs) = None \<and>
     (case db_fsm (rs_db rs) of None \<Rightarrow> False | Some m \<Rightarrow> kv_wf m)"

definition bucket :: "raft_store \<Rightarrow> fsm_bucket" where
  "bucket rs = (case db_fsm (rs_db rs) of None \<Rightarrow> [] | Some m \<Rightarrow> m)"

definition with_bucket :: "raft_store \<Rightarrow> fsm_bucket \<Rightarrow> raft_store" where
  "with_bucket rs m = rs\<lparr>rs_db := (rs_db rs)\<lparr>db_fsm := Some m\<rparr>\<rparr>"

definition keeper_ok :: "raft_store \<Rightarrow> bool" where
  "keeper_ok rs = (case rs_keeper rs of None \<Rightarrow> True | Some k \<Rightarrow> keeper_wf k)"

lemma store_readyE:
  assumes "store_ready rs"
  obtains m where "db_fsm (rs_db rs) = Some m" "kv_wf m" "bucket rs = m" "rs_leader rs"
    "rs_verdict rs = Committed" "db_view_err (rs_db rs) = None" "db_update_err (rs_db rs) = None"
  using assms by (auto simp: store_ready_def bucket_def split: option.splits)

lemma with_bucket_simps [simp]:
  "bucket (with_bucket rs m) = m" "with_bucket (with_bucket rs m) m' = with_bucket rs m'"
  "rs_keeper (with_bucket rs m) = rs_keeper rs" "rs_leader (with_bucket rs m) = rs_leader rs"
  "rs_verdict (with_bucket rs m) = rs_verdict rs" "rs_nodeID (with_bucket rs m) = rs_nodeID rs"
  "keeper_ok (with_bucket rs m) = keeper_ok rs"
  by (simp_all add: with_bucket_def bucket_def keeper_ok_def)

lemma with_bucket_id: "store_ready rs \<Longrightarrow> with_bucket rs (bucket rs) = rs"
  by (erule store_readyE) (simp add: with_bucket_def)

lemma store_ready_with: "store_ready rs \<Longrightarrow> kv_wf m \<Longrightarrow> store_ready (with_bucket rs m)"
  by (auto simp: store_ready_def with_bucket_def)

lemma bucket_wf: "store_ready rs \<Longrightarrow> kv_wf (bucket rs)"
  by (erule store_readyE) simp

lemma get_ready: "store_ready rs \<Longrightarrow> getFSMValue (rs_db rs) k = Inr (kv_get (bucket rs) k)"
  by (erule store_readyE) (simp add: getFSMValue_def db_View_def)

lemma keys_ready: "store_ready rs \<Longrightarrow> listFSMKeys (rs_db rs) p = Inr (filter (prefix p) (kv_keys (bucket rs)))"
  by (erule store_readyE) (simp add: listFSMKeys_def db_View_def sorted_seek_prefix kvm.keys_sorted)

lemma Apply_ready:
  "store_ready rs \<Longrightarrow> Apply rs cmd =
     (Inr (fst (FSM_Apply (rs_db rs) (Some cmd))), rs\<lparr>rs_db := snd (FSM_Apply (rs_db rs) (Some cmd))\<rparr>)"
  by (simp add: store_ready_def Apply_def IsLeader_def Let_def)

text \<open>What a write command does to a ready store.\<close>

lemma applyCommand_set:
  "store_ready rs \<Longrightarrow> validateKey k = None \<Longrightarrow> op = ''set'' \<or> op = ''set-json'' \<Longrightarrow>
     applyCommand rs op k v = (None, with_bucket rs (kv_put k v (bucket rs)))"
  by (erule store_readyE) (auto simp: applyCommand_def Apply_def IsLeader_def Let_def applyResponse_def
      FSM_Apply_def applySet_def fsm_Update_def with_bucket_def)

lemma applyCommand_delete:
  "store_ready rs \<Longrightarrow> validateKey k = None \<Longrightarrow>
     applyCommand rs ''delete'' k v = (None, with_bucket rs (kv_del k (bucket rs)))"
  by (erule store_readyE) (auto simp: applyCommand_def Apply_def IsLeader_def Let_def applyResponse_def
      FSM_Apply_def applyDelete_def fsm_Update_def with_bucket_def)

lemma applyMulti_ready:
  "store_ready rs \<Longrightarrow> first_error (\<lambda>e. validateKey (fk_Key e)) es = None \<Longrightarrow>
     applyMulti rs es = (None, with_bucket rs (multi_entries es (bucket rs)))"
  by (erule store_readyE) (auto simp: applyMulti_def Apply_def IsLeader_def Let_def applyResponse_def
      FSM_Apply_def applySetMulti_def multi_roundtrip fsm_Update_def with_bucket_def)

text \<open>An invalid key is refused.\<close>

lemma applyCommand_invalid:
  "store_ready rs \<Longrightarrow> validateKey k = Some e \<Longrightarrow> op \<noteq> ''bootstrap'' \<Longrightarrow> op \<noteq> ''set-multi'' \<Longrightarrow>
     applyCommand rs op k v = (Some e, rs)"
  by (erule store_readyE) (auto simp: applyCommand_def Apply_def IsLeader_def Let_def applyResponse_def
      FSM_Apply_def)

text \<open>A write that reports an error has changed nothing, unless the Raft library lost the answer.\<close>

definition definite :: "raft_store \<Rightarrow> bool" where
  "definite rs = (case rs_verdict rs of AppliedLate _ \<Rightarrow> False | _ \<Rightarrow> True)"

lemma Apply_err:
  assumes "definite rs" "Apply rs cmd = (r, rs')" "applyResponse r = Some e"
  shows "rs' = rs"
proof -
  have "snd (FSM_Apply (rs_db rs) (Some cmd)) = rs_db rs" if "fst (FSM_Apply (rs_db rs) (Some cmd)) = Some e"
    using that FSM_Apply_err [of "rs_db rs" "Some cmd" e] by (metis prod.collapse)
  then show ?thesis
    using assms by (auto simp: Apply_def definite_def applyResponse_def Let_def split: if_splits raft_verdict.splits)
qed

lemma applyCommand_err: "definite rs \<Longrightarrow> applyCommand rs op k v = (Some e, rs') \<Longrightarrow> rs' = rs"
  by (auto simp: applyCommand_def split: prod.splits intro: Apply_err)

lemma applyMulti_err: "definite rs \<Longrightarrow> applyMulti rs es = (Some e, rs') \<Longrightarrow> rs' = rs"
  by (auto simp: applyMulti_def split: prod.splits intro: Apply_err)

text \<open>Whatever the outcome, the bucket stays well-formed and only the database changes.\<close>

lemma Apply_frame:
  "rs_keeper (snd (Apply rs cmd)) = rs_keeper rs" "rs_leader (snd (Apply rs cmd)) = rs_leader rs"
  "rs_verdict (snd (Apply rs cmd)) = rs_verdict rs" "rs_nodeID (snd (Apply rs cmd)) = rs_nodeID rs"
  by (simp_all add: Apply_def Let_def split: raft_verdict.splits)

lemma Apply_wf: "db_wf (rs_db rs) \<Longrightarrow> db_wf (rs_db (snd (Apply rs cmd)))"
  by (simp add: Apply_def Let_def FSM_Apply_wf split: raft_verdict.splits)

section \<open>Readable stores\<close>

text \<open>A store whose database can be read; proposals may be refused, fail or time out.\<close>

definition reads_ok :: "raft_store \<Rightarrow> bool" where
  "reads_ok rs \<longleftrightarrow> db_view_err (rs_db rs) = None \<and> (\<exists>m. db_fsm (rs_db rs) = Some m \<and> kv_wf m)"

lemma reads_okE:
  assumes "reads_ok rs"
  obtains m where "db_fsm (rs_db rs) = Some m" "kv_wf m" "bucket rs = m" "db_view_err (rs_db rs) = None"
  using assms by (auto simp: reads_ok_def bucket_def)

lemma reads_get: "reads_ok rs \<Longrightarrow> getFSMValue (rs_db rs) k = Inr (kv_get (bucket rs) k)"
  by (erule reads_okE) (simp add: getFSMValue_def db_View_def)

lemma reads_keys: "reads_ok rs \<Longrightarrow> listFSMKeys (rs_db rs) p = Inr (filter (prefix p) (kv_keys (bucket rs)))"
  by (erule reads_okE) (simp add: listFSMKeys_def db_View_def sorted_seek_prefix kvm.keys_sorted)

lemma reads_with: "reads_ok rs \<Longrightarrow> kv_wf m \<Longrightarrow> reads_ok (with_bucket rs m)"
  by (auto simp: reads_ok_def with_bucket_def)

lemma reads_with_id: "reads_ok rs \<Longrightarrow> with_bucket rs (bucket rs) = rs"
  by (erule reads_okE) (simp add: with_bucket_def)


lemma Apply_step:
  "snd (Apply rs cmd) = rs \<or> snd (Apply rs cmd) = rs\<lparr>rs_db := snd (FSM_Apply (rs_db rs) (Some cmd))\<rparr>"
  by (simp add: Apply_def Let_def split: raft_verdict.split)

lemma set_step:
  assumes "reads_ok rs" "op = ''set'' \<or> op = ''set-json''"
  shows "snd (applyCommand rs op k v) = rs \<or> snd (applyCommand rs op k v) = with_bucket rs (kv_put k v (bucket rs))"
  using assms Apply_step [of rs "\<lparr>fc_Op = op, fc_Key = k, fc_Value = v\<rparr>"]
  by (auto elim!: reads_okE simp: applyCommand_def case_prod_beta FSM_Apply_def applySet_def fsm_Update_def with_bucket_def split: option.splits)

lemma delete_step:
  assumes "reads_ok rs"
  shows "snd (applyCommand rs ''delete'' k v) = rs \<or> snd (applyCommand rs ''delete'' k v) = with_bucket rs (kv_del k (bucket rs))"
  using assms Apply_step [of rs "\<lparr>fc_Op = ''delete'', fc_Key = k, fc_Value = v\<rparr>"]
  by (auto elim!: reads_okE simp: applyCommand_def case_prod_beta FSM_Apply_def applyDelete_def fsm_Update_def with_bucket_def split: option.splits)

lemma multi_step:
  assumes "reads_ok rs"
  shows "snd (applyMulti rs es) = rs \<or> snd (applyMulti rs es) = with_bucket rs (multi_entries es (bucket rs))"
  using assms Apply_step [of rs "\<lparr>fc_Op = ''set-multi'', fc_Key = [], fc_Value = marshal_multi es\<rparr>"]
  by (auto elim!: reads_okE simp: applyMulti_def case_prod_beta FSM_Apply_def applySetMulti_def multi_roundtrip fsm_Update_def with_bucket_def split: option.splits)

lemma create_channel_step:
  assumes "reads_ok rs"
  shows "snd (Apply rs \<lparr>fc_Op = ''create-channel'', fc_Key = k, fc_Value = v\<rparr>) = rs \<or>
     snd (Apply rs \<lparr>fc_Op = ''create-channel'', fc_Key = k, fc_Value = v\<rparr>) = with_bucket rs (kv_put k v (bucket rs))"
  using assms Apply_step [of rs "\<lparr>fc_Op = ''create-channel'', fc_Key = k, fc_Value = v\<rparr>"]
  by (auto elim!: reads_okE simp: FSM_Apply_def applyCreateChannel_def fsm_Update_def with_bucket_def split: option.splits)

lemma create_user_step:
  assumes "reads_ok rs"
  shows "snd (Apply rs \<lparr>fc_Op = ''create-user'', fc_Key = k, fc_Value = marshal_user u\<rparr>) = rs \<or>
     kv_get (bucket rs) k = None \<and> us_Username u \<noteq> [] \<and>
     snd (Apply rs \<lparr>fc_Op = ''create-user'', fc_Key = k, fc_Value = marshal_user u\<rparr>) =
       with_bucket rs (kv_put (usernameIndexKey (us_Username u) @ ''/'') (usernameIndexValue (us_ID u))
         (kv_put k (marshal_user u) (bucket rs)))"
  using assms Apply_step [of rs "\<lparr>fc_Op = ''create-user'', fc_Key = k, fc_Value = marshal_user u\<rparr>"]
  by (auto elim!: reads_okE simp: FSM_Apply_def applyCreateUser_def fsm_Update_def with_bucket_def user_roundtrip Let_def split: option.splits if_splits)

lemma ready_reads: "store_ready rs \<Longrightarrow> reads_ok rs"
  by (erule store_readyE) (simp add: reads_ok_def)

section \<open>Sealing and opening\<close>

lemma open_seal:
  assumes "aead_correct C" "keeper_ok rs" "rnd = Some n" "length n = 12"
  shows "\<exists>s. sealString C rs rnd p = Inr s \<and> openString C rs s = Inr p"
proof (cases "rs_keeper rs = None \<or> p = []")
  case True
  then show ?thesis by (cases "rs_keeper rs") (auto simp: sealString_def openString_def)
next
  case False
  then obtain k where k: "rs_keeper rs = Some k" "keeper_wf k" using assms(2) by (auto simp: keeper_ok_def)
  obtain ev where ev: "Encrypt C k rnd p = Inr ev" using Encrypt_ok [OF k(2) assms(3)] by blast
  have d: "Decrypt C k ev = Inr p" using Decrypt_Encrypt [OF assms(1) ev] assms(3,4) by simp
  have "gcm_Seal C key n p atRestContext \<noteq> []" if "aes_key_ok key" for key
    using assms(1,4) that by (metis aead_correct_def list.size(3) not_less_zero)
  then have "ev_Ct ev \<noteq> []" "ev_Alg ev \<noteq> []"
    using ev assms(3) by (auto simp: Encrypt_def Std_Encode_empty split: option.splits if_splits)
  moreover have "json_Marshal (marshal_encrypted_value ev) \<noteq> []" by (simp add: marshal_encrypted_value_def)
  ultimately show ?thesis
    using False k ev d by (simp add: sealString_def openString_def encrypted_value_text)
qed

lemma open_seal_strings:
  assumes "aead_correct C" "keeper_ok rs"
  shows "rand_ok 12 ns \<Longrightarrow> \<exists>ts. seal_strings C rs ns ss = Inr ts \<and> mapE (openString C rs) ts = Inr ss"
proof (induction ss arbitrary: ns)
  case (Cons s ss)
  have "rand_ok 12 (\<lambda>i. ns (Suc i))" using Cons.prems by (simp add: rand_ok_def)
  then obtain ts where ts: "seal_strings C rs (\<lambda>i. ns (Suc i)) ss = Inr ts" "mapE (openString C rs) ts = Inr ss"
    using Cons.IH by blast
  obtain t where "sealString C rs (ns 0) s = Inr t" "openString C rs t = Inr s"
    using open_seal [OF assms] Cons.prems by (metis rand_ok_def)
  with ts show ?case by auto
qed simp

lemma open_sealChannel:
  assumes "aead_correct C" "keeper_ok rs" "rand_ok 12 ns"
  shows "\<exists>q. sealChannel C rs ns p = Inr q \<and> ch_ID q = ch_ID p \<and> openChannel C rs q = Inr p"
proof (cases "rs_keeper rs")
  case None
  then show ?thesis by (simp add: sealChannel_def openChannel_def)
next
  case (Some k)
  have s: "\<exists>t. sealString C rs (ns i) x = Inr t \<and> openString C rs t = Inr x" for i x
    using open_seal [OF assms(1,2)] assms(3) by (metis rand_ok_def)
  obtain ws ek pk where "sealString C rs (ns 0) (ch_WebhookSecret p) = Inr ws" "openString C rs ws = Inr (ch_WebhookSecret p)"
    "sealString C rs (ns 1) (ch_EncryptionKey p) = Inr ek" "openString C rs ek = Inr (ch_EncryptionKey p)"
    "sealString C rs (ns 2) (ch_EncryptionPrivateKey p) = Inr pk" "openString C rs pk = Inr (ch_EncryptionPrivateKey p)"
    using s by metis
  moreover have "rand_ok 12 (\<lambda>i. ns (i + 3))" using assms(3) by (simp add: rand_ok_def)
  then obtain sigs where "seal_strings C rs (\<lambda>i. ns (i + 3)) (ch_WebhookSignatures p) = Inr sigs"
    "mapE (openString C rs) sigs = Inr (ch_WebhookSignatures p)"
    using open_seal_strings [OF assms(1,2)] by blast
  ultimately show ?thesis using Some by (simp add: sealChannel_def openChannel_def)
qed

lemma open_sealConfig:
  assumes "aead_correct C" "keeper_ok rs" "rand_ok 12 ns"
  shows "\<exists>q. sealConfig C rs ns c = Inr q \<and> openConfig C rs q = Inr c"
proof (cases "rs_keeper rs")
  case None
  then show ?thesis by (simp add: sealConfig_def openConfig_def)
next
  case (Some k)
  have s: "\<exists>t. sealString C rs (ns i) x = Inr t \<and> openString C rs t = Inr x" for i x
    using open_seal [OF assms(1,2)] assms(3) by (metis rand_ok_def)
  obtain ss ws where "sealString C rs (ns 0) (sc_SessionSecret (gc_Server c)) = Inr ss"
    "openString C rs ss = Inr (sc_SessionSecret (gc_Server c))"
    "sealString C rs (ns 1) (dc_WebhookSecret (gc_Defaults c)) = Inr ws"
    "openString C rs ws = Inr (dc_WebhookSecret (gc_Defaults c))"
    using s by metis
  then show ?thesis using Some by (simp add: sealConfig_def openConfig_def)
qed

lemma open_with_bucket:
  "openString C (with_bucket rs m) s = openString C rs s"
  "openChannel C (with_bucket rs m) p = openChannel C rs p"
  "openConfig C (with_bucket rs m) c = openConfig C rs c"
proof -
  have *: "openString C (with_bucket rs m) = openString C rs" by (rule ext) (simp add: openString_def)
  show "openString C (with_bucket rs m) s = openString C rs s"
    "openChannel C (with_bucket rs m) p = openChannel C rs p"
    "openConfig C (with_bucket rs m) c = openConfig C rs c"
    by (simp_all add: openChannel_def openConfig_def *)
qed

text \<open>The text of an at-rest envelope.\<close>

definition is_envelope :: "string \<Rightarrow> bool" where
  "is_envelope s = (case unmarshal_encrypted_value (json_Unmarshal s) of
     None \<Rightarrow> False | Some ev \<Rightarrow> ev_Alg ev = ''A256GCM'' \<and> ev_Ver ev = 1)"

section \<open>The record interface\<close>

text \<open>What a client of a family of records relies on: on a ready store a valid write succeeds,
  is read back, and leaves every other record alone. \<open>rec\<close> is the record a write stores: the
  argument of a write may also carry the randomness it uses.\<close>

definition write_all :: "('s \<Rightarrow> 'k \<Rightarrow> 'v \<Rightarrow> error option \<times> 's) \<Rightarrow> ('k \<times> 'v) list \<Rightarrow> 's \<Rightarrow> 's" where
  "write_all wr kvs s = fold (\<lambda>(k, v) s. snd (wr s k v)) kvs s"

locale record_store =
  fixes rd :: "'s \<Rightarrow> 'k \<Rightarrow> 'r result"
    and wr :: "'s \<Rightarrow> 'k \<Rightarrow> 'v \<Rightarrow> error option \<times> 's"
    and ready :: "'s \<Rightarrow> bool"
    and valid :: "'k \<Rightarrow> 'v \<Rightarrow> bool"
    and rec :: "'v \<Rightarrow> 'r"
  assumes wr_ok: "ready s \<Longrightarrow> valid k v \<Longrightarrow> fst (wr s k v) = None"
    and wr_ready: "ready s \<Longrightarrow> valid k v \<Longrightarrow> ready (snd (wr s k v))"
    and rd_same: "ready s \<Longrightarrow> valid k v \<Longrightarrow> rd (snd (wr s k v)) k = Inr (rec v)"
    and rd_other: "ready s \<Longrightarrow> valid k v \<Longrightarrow> valid k' v' \<Longrightarrow> k' \<noteq> k \<Longrightarrow> rd (snd (wr s k v)) k' = rd s k'"
begin

lemma write_all_ready:
  "ready s \<Longrightarrow> \<forall>(k, v) \<in> set kvs. valid k v \<Longrightarrow> ready (write_all wr kvs s)"
  by (induction kvs arbitrary: s) (auto simp: write_all_def wr_ready)

lemma read_after_writes:
  assumes "ready s" "\<forall>(k, v) \<in> set kvs. valid k v" "valid k w"
  shows "rd (write_all wr kvs s) k = (case map_of (rev kvs) k of Some v \<Rightarrow> Inr (rec v) | None \<Rightarrow> rd s k)"
  using assms(1,2)
proof (induction kvs arbitrary: s rule: rev_induct)
  case (snoc p kvs)
  obtain a v where p: "p = (a, v)" by (cases p)
  have r: "ready (write_all wr kvs s)" using snoc.prems by (intro write_all_ready) auto
  have v: "valid a v" using snoc.prems p by auto
  have "write_all wr (kvs @ [p]) s = snd (wr (write_all wr kvs s) a v)" by (simp add: write_all_def p)
  then show ?case
    using snoc p r v rd_same [OF r v] rd_other [OF r v assms(3)] by (cases "k = a") auto
qed (simp add: write_all_def)

lemma overwrite:
  "ready s \<Longrightarrow> valid k v \<Longrightarrow> valid k v' \<Longrightarrow> rd (snd (wr (snd (wr s k v)) k v')) k = Inr (rec v')"
  by (simp add: rd_same wr_ready)

end

section \<open>Channels as records\<close>

definition sealing_ready :: "crypto \<Rightarrow> raft_store \<Rightarrow> bool" where
  "sealing_ready C rs \<longleftrightarrow> store_ready rs \<and> keeper_ok rs \<and> aead_correct C"

definition channel_ready :: "crypto \<Rightarrow> ns \<Rightarrow> raft_store \<Rightarrow> bool" where
  "channel_ready C ns rs \<longleftrightarrow> store_ready rs \<and> keeper_ok rs \<and> aead_correct C \<and> rand_ok 12 ns"

lemma channel_ready_iff: "channel_ready C ns rs \<longleftrightarrow> sealing_ready C rs \<and> rand_ok 12 ns"
  by (auto simp: channel_ready_def sealing_ready_def)

definition channel_valid :: "string \<Rightarrow> channel \<Rightarrow> bool" where
  "channel_valid i p \<longleftrightarrow> ch_ID p = i \<and> i \<noteq> [] \<and> validateKey (channelKey i) = None"

lemma channelKey_inject [simp]: "channelKey i = channelKey j \<longleftrightarrow> i = j"
  by (simp add: channelKey_def)

lemma userKey_inject [simp]: "userKey i = userKey j \<longleftrightarrow> i = j"
  by (simp add: userKey_def)

lemma GetChannel_ready:
  "store_ready rs \<Longrightarrow> i \<noteq> [] \<Longrightarrow> GetChannel C rs i = (case kv_get (bucket rs) (channelKey i) of
       None \<Rightarrow> Inl ErrNotFound
     | Some d \<Rightarrow> bindE (of_option json_error (unmarshal_channel d)) (openChannel C rs))"
  by (simp add: GetChannel_def get_ready)

lemma UpdateChannel_ready:
  assumes "channel_ready C ns rs" "channel_valid i p"
  shows "\<exists>q. UpdateChannel C ns rs p = (None, with_bucket rs (kv_put (channelKey i) (marshal_channel q) (bucket rs))) \<and>
           openChannel C rs q = Inr p"
proof -
  obtain q where "sealChannel C rs ns p = Inr q" "openChannel C rs q = Inr p"
    using open_sealChannel assms(1) unfolding channel_ready_def by metis
  then show ?thesis using assms
    by (auto simp: UpdateChannel_def channel_valid_def channel_ready_def applyCommand_set)
qed

lemma channel_put_read:
  assumes "store_ready rs" "openChannel C rs q = Inr p" "j \<noteq> []"
  shows "GetChannel C (with_bucket rs (kv_put (channelKey i) (marshal_channel q) (bucket rs))) j =
           (if j = i then Inr p else GetChannel C rs j)"
proof -
  have "store_ready (with_bucket rs (kv_put (channelKey i) (marshal_channel q) (bucket rs)))"
    using assms(1) by (simp add: store_ready_with kvm.wf_put bucket_wf)
  moreover have "openChannel C (with_bucket rs m) = openChannel C rs" for m
    by (rule ext) (rule open_with_bucket)
  ultimately show ?thesis
    using assms by (simp add: GetChannel_ready kvm.get_put channel_roundtrip split: option.split)
qed

interpretation channel_record: record_store "GetChannel C" "\<lambda>rs i w. UpdateChannel C (fst w) rs (snd w)"
  "sealing_ready C" "\<lambda>i w. rand_ok 12 (fst w) \<and> channel_valid i (snd w)" snd for C
proof
  fix s k and w :: "ns \<times> channel"
  assume "sealing_ready C s" and w: "rand_ok 12 (fst w) \<and> channel_valid k (snd w)"
  then have r: "channel_ready C (fst w) s" by (simp add: channel_ready_iff)
  obtain q where u: "UpdateChannel C (fst w) s (snd w) =
      (None, with_bucket s (kv_put (channelKey k) (marshal_channel q) (bucket s)))"
    and q: "openChannel C s q = Inr (snd w)" using UpdateChannel_ready [OF r] w by blast
  have s: "store_ready s" and k: "k \<noteq> []" using r w by (simp_all add: channel_ready_def channel_valid_def)
  show "fst (UpdateChannel C (fst w) s (snd w)) = None" by (simp add: u)
  show "sealing_ready C (snd (UpdateChannel C (fst w) s (snd w)))"
    using r by (simp add: u channel_ready_def sealing_ready_def store_ready_with kvm.wf_put bucket_wf)
  show "GetChannel C (snd (UpdateChannel C (fst w) s (snd w))) k = Inr (snd w)"
    using channel_put_read [OF s q k] by (simp add: u)
  show "GetChannel C (snd (UpdateChannel C (fst w) s (snd w))) k' = GetChannel C s k'"
    if "rand_ok 12 (fst w') \<and> channel_valid k' (snd w')" "k' \<noteq> k" for k' and w' :: "ns \<times> channel"
    using channel_put_read [OF s q, of k'] that by (simp add: u channel_valid_def)
qed

lemma CreateChannel_ready:
  assumes "channel_ready C ns rs" "channel_valid i p"
  shows "\<exists>q. openChannel C rs q = Inr p \<and> CreateChannel C ns rs p =
     (if kv_get (bucket rs) (channelKey i) \<noteq> None then (Some ErrAlreadyExists, rs)
      else (None, with_bucket rs (kv_put (channelKey i) (marshal_channel q) (bucket rs))))"
proof -
  obtain q where q: "sealChannel C rs ns p = Inr q" "openChannel C rs q = Inr p"
    using open_sealChannel assms(1) unfolding channel_ready_def by metis
  have s: "store_ready rs" using assms(1) by (simp add: channel_ready_def)
  obtain m where m: "db_fsm (rs_db rs) = Some m" "bucket rs = m" "db_update_err (rs_db rs) = None"
    using s by (rule store_readyE)
  show ?thesis
    using q assms(2) m
    by (auto simp: CreateChannel_def channel_valid_def Apply_ready [OF s] FSM_Apply_def applyCreateChannel_def
        fsm_Update_def applyResponse_def with_bucket_def split: option.splits)
qed

lemma DeleteChannel_ready:
  "store_ready rs \<Longrightarrow> validateKey (channelKey i) = None \<Longrightarrow>
     DeleteChannel rs i = (None, with_bucket rs (kv_del (channelKey i) (bucket rs)))"
  by (simp add: DeleteChannel_def applyCommand_delete)

lemma Contains_mem: "Contains s (c # p) \<Longrightarrow> c \<in> set s"
  by (induction s) (auto simp: prefix_def)

lemma validateKey_plain: "CHR ''.'' \<notin> set k \<Longrightarrow> HasPrefix k ''/'' \<Longrightarrow> validateKey k = None"
  using Contains_mem [of k "CHR ''.''" "''.''"] by (auto simp: validateKey_def)

lemma valid_channelid_key: "valid_channelid i \<Longrightarrow> validateKey (channelKey i) = None \<and> i \<noteq> [] \<and> CHR ''/'' \<notin> set i"
proof -
  assume v: "valid_channelid i"
  have "is_alnum c \<or> c = CHR ''_'' \<or> c = CHR ''-'' \<Longrightarrow> c \<noteq> CHR ''.'' \<and> c \<noteq> CHR ''/''" for c
    by (auto simp: is_alnum_def)
  moreover have "\<forall>c \<in> set i. is_alnum c \<or> c = CHR ''_'' \<or> c = CHR ''-''" "i \<noteq> []"
    using v by (auto simp: valid_channelid_def list_all_iff split: list.splits)
  ultimately have d: "CHR ''.'' \<notin> set i" "CHR ''/'' \<notin> set i" "i \<noteq> []" by blast+
  have "validateKey (channelKey i) = None"
    by (rule validateKey_plain) (simp_all add: channelKey_def HasPrefix_def d)
  with d show ?thesis by simp
qed

section \<open>Listing channels\<close>

lemma segment_no_slash: "CHR ''/'' \<notin> set (segment pre key)"
  unfolding segment_def hd_Split by (auto dest: set_takeWhileD)

lemma segment_key: "CHR ''/'' \<notin> set i \<Longrightarrow> segment pre (pre @ i @ CHR ''/'' # r) = i"
  by (simp add: segment_def hd_Split takeWhile_append)

lemma seen_step:
  "(\<exists>i \<in> f ` set (key # keys) - set seen. P i) \<longleftrightarrow>
     f key \<notin> set seen \<and> P (f key) \<or> (\<exists>i \<in> f ` set keys - set (f key # seen). P i)"
  by (simp add: Bex_def image_iff) metis

lemma skip_step:
  "f key \<in> set seen \<or> \<not> P (f key) \<Longrightarrow>
     (\<exists>i \<in> f ` set (key # keys) - set seen. P i) \<longleftrightarrow> (\<exists>i \<in> f ` set keys - set seen. P i)"
  by auto

lemma list_channels_set:
  assumes "db_view_err (rs_db rs) = None"
  shows "list_channels C rs seen keys = Inr chs \<Longrightarrow>
     set chs = MigrateChannel ` {ch. \<exists>i \<in> segment ''/channels/'' ` set keys - set seen. GetChannel C rs i = Inr ch}"
proof (induction keys arbitrary: seen chs)
  case (Cons key keys)
  let ?i = "segment ''/channels/'' key"
  show ?case
  proof (cases "?i = [] \<or> ?i \<in> set seen")
    case True
    then have "list_channels C rs seen keys = Inr chs" using Cons.prems by (simp add: Let_def split: if_splits)
    note Cons.IH [OF this]
    moreover have "GetChannel C rs [] = Inr ch \<Longrightarrow> False" for ch by (simp add: GetChannel_def)
    ultimately show ?thesis using True by auto
  next
    case False
    from Cons.prems False show ?thesis
    proof (cases "GetChannel C rs ?i")
      case (Inl e)
      then have "list_channels C rs (?i # seen) keys = Inr chs"
        using Cons.prems False
        by (auto simp: Let_def GetChannel_def bindE_Inr_iff of_option_def split: option.splits sum.splits)
      note Cons.IH [OF this]
      then show ?thesis unfolding seen_step using Inl by simp
    next
      case (Inr ch)
      then obtain chs' where "list_channels C rs (?i # seen) keys = Inr chs'" "chs = MigrateChannel ch # chs'"
        using Cons.prems False
        by (auto simp: Let_def GetChannel_def bindE_Inr_iff of_option_def split: option.splits sum.splits)
      moreover have "MigrateChannel ` {c. c = ch \<or> P c} = insert (MigrateChannel ch) (MigrateChannel ` {c. P c})" for P
        by auto
      ultimately show ?thesis
        unfolding seen_step using Cons.IH [of "?i # seen" chs'] Inr False by (simp add: eq_commute [of ch])
    qed
  qed
qed simp

text \<open>\<open>ListChannels\<close> returns exactly the channels \<open>GetChannel\<close> finds under identifiers without
  a slash, migrated.\<close>

lemma ListChannels_set:
  assumes "store_ready rs" "ListChannels C rs = Inr chs"
  shows "set chs = MigrateChannel ` {ch. \<exists>i. CHR ''/'' \<notin> set i \<and> GetChannel C rs i = Inr ch}"
proof -
  let ?ks = "filter (prefix ''/channels/'') (kv_keys (bucket rs))"
  have v: "db_view_err (rs_db rs) = None" using assms(1) by (rule store_readyE)
  have l: "list_channels C rs [] ?ks = Inr chs" using assms by (simp add: ListChannels_def keys_ready)
  have "(\<exists>i \<in> segment ''/channels/'' ` set ?ks. GetChannel C rs i = Inr ch) \<longleftrightarrow>
      (\<exists>i. CHR ''/'' \<notin> set i \<and> GetChannel C rs i = Inr ch)" for ch
  proof
    assume "\<exists>i. CHR ''/'' \<notin> set i \<and> GetChannel C rs i = Inr ch"
    then obtain i where i: "CHR ''/'' \<notin> set i" "GetChannel C rs i = Inr ch" by blast
    then have "i \<noteq> []" by (auto simp: GetChannel_def)
    then have "kv_get (bucket rs) (channelKey i) \<noteq> None"
      using i(2) assms(1) by (auto simp: GetChannel_ready split: option.splits)
    then have "channelKey i \<in> set ?ks" by (simp add: kvm.mem_keys channelKey_def)
    moreover have "segment ''/channels/'' (channelKey i) = i"
      using segment_key [OF i(1), of "''/channels/''" "[]"] by (simp add: channelKey_def)
    ultimately show "\<exists>i \<in> segment ''/channels/'' ` set ?ks. GetChannel C rs i = Inr ch"
      using i(2) by (metis imageI)
  qed (use segment_no_slash in blast)
  then show ?thesis using list_channels_set [OF v l] by simp
qed

section \<open>Users\<close>

lemma GetUser_ready:
  "store_ready rs \<Longrightarrow> GetUser rs i = (case kv_get (bucket rs) (userKey i) of
       None \<Rightarrow> Inl ErrNotFound | Some d \<Rightarrow> of_option json_error (unmarshal_user d))"
  by (simp add: GetUser_def get_ready)

lemma GetUserByUsername_ready:
  "store_ready rs \<Longrightarrow> GetUserByUsername rs name = (case kv_get (bucket rs) (usernameIndexKey name @ ''/'') of
       None \<Rightarrow> Inl ErrNotFound
     | Some d \<Rightarrow> (case unmarshal_usernameIndex d of None \<Rightarrow> Inl ErrNotFound | Some i \<Rightarrow> GetUser rs i))"
  by (simp add: GetUserByUsername_def get_ready usernameIndexKey_def)

definition user_keys_ok :: "user \<Rightarrow> bool" where
  "user_keys_ok u \<longleftrightarrow> us_ID u \<noteq> [] \<and> us_Username u \<noteq> [] \<and> CHR ''/'' \<notin> set (us_ID u) \<and>
     validateKey (userKey (us_ID u)) = None \<and> validateKey (usernameIndexKey (us_Username u) @ ''/'') = None"

lemma user_index_key:
  assumes "CHR ''/'' \<notin> set i" "n \<noteq> []" shows "userKey i \<noteq> usernameIndexKey n @ ''/''"
proof
  assume "userKey i = usernameIndexKey n @ ''/''"
  then have "i = ''by-username/'' @ n" by (simp add: userKey_def usernameIndexKey_def)
  then show False using assms(1) by simp
qed

lemma CreateUser_ready:
  assumes "store_ready rs" "user_keys_ok u"
  shows "CreateUser rs u = (if kv_get (bucket rs) (userKey (us_ID u)) \<noteq> None then (Some ErrAlreadyExists, rs)
     else (None, with_bucket rs (kv_put (usernameIndexKey (us_Username u) @ ''/'') (usernameIndexValue (us_ID u))
            (kv_put (userKey (us_ID u)) (marshal_user u) (bucket rs)))))"
proof -
  obtain m where m: "db_fsm (rs_db rs) = Some m" "bucket rs = m" "db_update_err (rs_db rs) = None"
    using assms(1) by (rule store_readyE)
  show ?thesis
    using assms(2) m
    by (simp add: CreateUser_def user_keys_ok_def Apply_ready [OF assms(1)] FSM_Apply_def applyCreateUser_def
        fsm_Update_def applyResponse_def with_bucket_def Let_def user_roundtrip)
qed

lemma list_users_set:
  assumes "db_view_err (rs_db rs) = None"
  shows "set (list_users rs seen keys) =
     {u. \<exists>i \<in> segment ''/users/'' ` set keys - set seen. i \<noteq> [] \<and> i \<noteq> ''by-username'' \<and> GetUser rs i = Inr u}"
proof (induction keys arbitrary: seen)
  case (Cons key keys)
  let ?i = "segment ''/users/'' key"
  have g: "GetUser rs i = (case ok_or None (getFSMValue (rs_db rs) (userKey i)) of
      None \<Rightarrow> Inl ErrNotFound | Some d \<Rightarrow> of_option json_error (unmarshal_user d))" for i
    using assms by (simp add: GetUser_def getFSMValue_def db_View_def)
  show ?case
  proof (cases "?i = [] \<or> ?i = ''by-username'' \<or> ?i \<in> set seen")
    case True
    then have "list_users rs seen (key # keys) = list_users rs seen keys"
      by (simp add: Let_def) blast
    then show ?thesis
      unfolding Cons by (simp only: Cons) (rule Collect_cong, rule skip_step [symmetric], use True in auto)
  next
    case False
    have "set (list_users rs seen (key # keys)) = {u. GetUser rs ?i = Inr u} \<union> set (list_users rs (?i # seen) keys)"
      using False g [of ?i] by (auto simp: Let_def split: option.splits)
    then show ?thesis unfolding seen_step Cons using False by auto
  qed
qed simp

lemma ListUsers_set:
  assumes "reads_ok rs" "ListUsers rs = Inr us"
  shows "set us = {u. \<exists>i. i \<noteq> [] \<and> i \<noteq> ''by-username'' \<and> CHR ''/'' \<notin> set i \<and> GetUser rs i = Inr u}"
proof -
  let ?ks = "filter (prefix ''/users/'') (kv_keys (bucket rs))"
  have v: "db_view_err (rs_db rs) = None" using assms(1) by (rule reads_okE)
  have l: "us = list_users rs [] ?ks" using assms by (simp add: ListUsers_def reads_keys)
  have "i \<in> segment ''/users/'' ` set ?ks" if i: "CHR ''/'' \<notin> set i" "GetUser rs i = Inr u" for i u
  proof -
    have "kv_get (bucket rs) (userKey i) \<noteq> None"
      using i(2) assms(1) by (auto simp: GetUser_def reads_get split: option.splits)
    then have "userKey i \<in> set ?ks" by (simp add: kvm.mem_keys userKey_def)
    moreover have "segment ''/users/'' (userKey i) = i"
      using segment_key [OF i(1), of "''/users/''" "[]"] by (simp add: userKey_def)
    ultimately show ?thesis by (metis imageI)
  qed
  then show ?thesis unfolding l list_users_set [OF v] using segment_no_slash by fastforce
qed

section \<open>The global configuration\<close>

lemma config_keys: "validateKey ''/global/server/'' = None" "validateKey ''/global/defaults/'' = None"
  by (simp_all add: validateKey_def HasPrefix_def)

lemma UpdateGlobalConfig_read:
  assumes "channel_ready C ns rs" "UpdateGlobalConfig C ns rs (Some cfg) = (r, rs')"
  shows "r = None" "store_ready rs'" "GetGlobalConfig C rs' = Inr cfg"
proof -
  have rs: "store_ready rs" "aead_correct C" "keeper_ok rs" "rand_ok 12 ns"
    using assms(1) by (simp_all add: channel_ready_def)
  obtain q where q: "sealConfig C rs ns cfg = Inr q" "openConfig C rs q = Inr cfg"
    using open_sealConfig [OF rs(2,3,4)] by blast
  let ?es = "[\<lparr>fk_Key = ''/global/server/'', fk_Value = marshal_server_config (gc_Server q), fk_Delete = False\<rparr>,
     \<lparr>fk_Key = ''/global/defaults/'', fk_Value = marshal_defaults_config (gc_Defaults q), fk_Delete = False\<rparr>]"
  have e: "r = None" "rs' = with_bucket rs (multi_entries ?es (bucket rs))"
    using assms(2) q(1) applyMulti_ready [OF rs(1), of ?es] config_keys by (simp_all add: UpdateGlobalConfig_def)
  then show "r = None" by simp
  show ready: "store_ready rs'"
    unfolding e by (rule store_ready_with [OF rs(1) kv_wf_multi [OF bucket_wf [OF rs(1)]]])
  have "kv_get (bucket rs') ''/global/server/'' = Some (marshal_server_config (gc_Server q))"
    "kv_get (bucket rs') ''/global/defaults/'' = Some (marshal_defaults_config (gc_Defaults q))"
    unfolding e by (simp_all add: kvm.get_put)
  moreover have "openConfig C rs' \<lparr>gc_Server = gc_Server q, gc_Defaults = gc_Defaults q\<rparr> = Inr cfg"
    unfolding e(2) open_with_bucket using q(2) by (cases q) simp
  ultimately show "GetGlobalConfig C rs' = Inr cfg"
    by (simp add: GetGlobalConfig_def get_ready [OF ready] server_config_roundtrip defaults_config_roundtrip)
qed

section \<open>Properties\<close>

text \<open>A leading node with at-rest encryption and no data, and a random source.\<close>

definition demo_store :: raft_store where
  "demo_store = \<lparr>rs_db = empty_db, rs_leader = True, rs_verdict = Committed,
     rs_keeper = Some (NewCryptoKeeper ''k1'' [(''k1'', replicate 32 CHR ''k'')]), rs_nodeID = ''n1''\<rparr>"

definition demo_ns :: ns where
  "demo_ns = (\<lambda>_. Some (replicate 12 CHR ''n''))"

text \<open>The fields of a channel that are sealed, and how a stored field relates to its clear form.\<close>

definition channel_secrets :: "channel \<Rightarrow> string list" where
  "channel_secrets p = ch_WebhookSecret p # ch_EncryptionKey p # ch_EncryptionPrivateKey p # ch_WebhookSignatures p"

definition sealed_form :: "string \<Rightarrow> string \<Rightarrow> bool" where
  "sealed_form clear stored = (if clear = [] then stored = [] else is_envelope stored)"

lemma sealString_form: "rs_keeper rs = Some k \<Longrightarrow> sealString C rs rnd p = Inr s \<Longrightarrow> sealed_form p s"
  by (auto simp: sealed_form_def sealString_def bindE_Inr_iff is_envelope_def encrypted_value_text Encrypt_def
      split: option.splits if_splits)

lemma seal_strings_form:
  "rs_keeper rs = Some k \<Longrightarrow> seal_strings C rs ns ss = Inr ts \<Longrightarrow> list_all2 sealed_form ss ts"
  by (induction ss arbitrary: ns ts) (auto simp: bindE_Inr_iff sealString_form)

lemma sealChannel_form:
  "rs_keeper rs = Some k \<Longrightarrow> sealChannel C rs ns p = Inr q \<Longrightarrow>
     list_all2 sealed_form (channel_secrets p) (channel_secrets q)"
  by (auto simp: sealChannel_def bindE_Inr_iff channel_secrets_def sealString_form seal_strings_form)

lemma demo_store_ready: "store_ready demo_store" "keeper_ok demo_store" "sealing_ready toy_crypto demo_store"
  "rand_ok 12 demo_ns" "channel_ready toy_crypto demo_ns demo_store" "bucket demo_store = []" "definite demo_store"
  "rs_keeper demo_store \<noteq> None"
  by (simp_all add: demo_store_def empty_db_def store_ready_def keeper_ok_def keeper_wf_def NewCryptoKeeper_def
      kv_wf_def kv_get_Cons sealing_ready_def channel_ready_def toy_aead rand_ok_def demo_ns_def bucket_def definite_def)

lemma demo_channel_valid: "channel_valid ''c1'' (zero_channel\<lparr>ch_ID := ''c1'', ch_WebhookSecret := w\<rparr>)"
  by (simp add: channel_valid_def channelKey_def validateKey_def HasPrefix_def)

text \<open>C4: Channels behave as a map from identifiers to records, whatever keys seal their secrets: after any
  sequence of updates, each with its own randomness, \<open>GetChannel\<close> returns for every identifier the
  last record written under it with its secrets in clear, and what was stored before for an
  identifier that was not written.\<close>

theorem channel_reads_follow_writes:
  assumes "sealing_ready C rs" "\<forall>(i, ns, p) \<in> set ws. rand_ok 12 ns \<and> channel_valid i p" "channel_valid j q"
  shows "GetChannel C (write_all (\<lambda>rs i w. UpdateChannel C (fst w) rs (snd w)) ws rs) j =
     (case map_of (rev ws) j of Some w \<Rightarrow> Inr (snd w) | None \<Rightarrow> GetChannel C rs j)"
proof -
  have "rand_ok 12 (fst (demo_ns, q)) \<and> channel_valid j (snd (demo_ns, q))"
    using assms(3) demo_store_ready(4) by simp
  moreover have "\<forall>(i, w) \<in> set ws. rand_ok 12 (fst w) \<and> channel_valid i (snd w)" using assms(2) by auto
  ultimately show ?thesis using channel_record.read_after_writes [OF assms(1)] by blast
qed

theorem channel_reads_follow_writes_witness:
  "GetChannel toy_crypto (write_all (\<lambda>rs i w. UpdateChannel toy_crypto (fst w) rs (snd w))
     [(''c1'', demo_ns, zero_channel\<lparr>ch_ID := ''c1'', ch_WebhookSecret := ''old''\<rparr>),
      (''c1'', demo_ns, zero_channel\<lparr>ch_ID := ''c1'', ch_WebhookSecret := ''new''\<rparr>)] demo_store) ''c1'' =
   Inr (zero_channel\<lparr>ch_ID := ''c1'', ch_WebhookSecret := ''new''\<rparr>)"
  using channel_reads_follow_writes [OF demo_store_ready(3) _ demo_channel_valid, where ws =
      "[(''c1'', demo_ns, zero_channel\<lparr>ch_ID := ''c1'', ch_WebhookSecret := ''old''\<rparr>),
        (''c1'', demo_ns, zero_channel\<lparr>ch_ID := ''c1'', ch_WebhookSecret := ''new''\<rparr>)]"]
    demo_channel_valid demo_store_ready(4) by simp

text \<open>Creating a channel succeeds exactly when its key is free. The new channel is then read back and
  every other channel is unchanged; a second creation reports \<open>ErrAlreadyExists\<close> and leaves the store
  as it was.\<close>

theorem create_channel_once:
  assumes "channel_ready C ns rs" "channel_valid i p" "CreateChannel C ns rs p = (r, rs')"
  shows "if kv_get (bucket rs) (channelKey i) = None
     then r = None \<and> GetChannel C rs' i = Inr p \<and> (\<forall>j. j \<noteq> i \<longrightarrow> GetChannel C rs' j = GetChannel C rs j)
     else r = Some ErrAlreadyExists \<and> rs' = rs"
proof -
  obtain q where q: "openChannel C rs q = Inr p" "CreateChannel C ns rs p =
     (if kv_get (bucket rs) (channelKey i) \<noteq> None then (Some ErrAlreadyExists, rs)
      else (None, with_bucket rs (kv_put (channelKey i) (marshal_channel q) (bucket rs))))"
    using CreateChannel_ready [OF assms(1,2)] by blast
  have s: "store_ready rs" "i \<noteq> []" using assms(1,2) by (simp_all add: channel_ready_def channel_valid_def)
  have "GetChannel C x [] = Inl ErrInvalidArgument" for x by (simp add: GetChannel_def)
  then have "GetChannel C (with_bucket rs (kv_put (channelKey i) (marshal_channel q) (bucket rs))) j = GetChannel C rs j"
    if "j \<noteq> i" for j
    using channel_put_read [OF s(1) q(1), of j i] that by (cases "j = []") simp_all
  then show ?thesis using q(2) assms(3) channel_put_read [OF s(1) q(1) s(2), of i] by auto
qed

theorem create_channel_once_witness:
  "\<exists>rs'. CreateChannel toy_crypto demo_ns demo_store (zero_channel\<lparr>ch_ID := ''c1'', ch_WebhookSecret := ''s''\<rparr>) = (None, rs') \<and>
     GetChannel toy_crypto rs' ''c1'' = Inr (zero_channel\<lparr>ch_ID := ''c1'', ch_WebhookSecret := ''s''\<rparr>)"
proof -
  obtain r rs' where c: "CreateChannel toy_crypto demo_ns demo_store
      (zero_channel\<lparr>ch_ID := ''c1'', ch_WebhookSecret := ''s''\<rparr>) = (r, rs')" by fastforce
  then show ?thesis
    using create_channel_once [OF demo_store_ready(5) demo_channel_valid c] by (simp add: demo_store_ready(6))
qed





text \<open>What a rename writes: the record, the index entry of the new name, and the removal of the old one.\<close>

lemma usernameIndexKey_inject [simp]: "usernameIndexKey a = usernameIndexKey b \<longleftrightarrow> a = b"
  by (simp add: usernameIndexKey_def)

lemma rename_ready:
  assumes "store_ready rs" "user_keys_ok u" "GetUser rs (us_ID u) = Inr old"
    and "us_Username old \<noteq> []" "us_Username old \<noteq> us_Username u"
    and "validateKey (usernameIndexKey (us_Username old) @ ''/'') = None" "UpdateUser rs u = (r, rs')"
  shows "r = None" "store_ready rs'"
    "kv_get (bucket rs') k =
       (if k = usernameIndexKey (us_Username old) @ ''/'' then None
        else if k = usernameIndexKey (us_Username u) @ ''/'' then Some (usernameIndexValue (us_ID u))
        else if k = userKey (us_ID u) then Some (marshal_user u) else kv_get (bucket rs) k)"
proof -
  let ?es = "[\<lparr>fk_Key = userKey (us_ID u), fk_Value = marshal_user u, fk_Delete = False\<rparr>,
     \<lparr>fk_Key = usernameIndexKey (us_Username u) @ ''/'', fk_Value = usernameIndexValue (us_ID u), fk_Delete = False\<rparr>,
     \<lparr>fk_Key = usernameIndexKey (us_Username old) @ ''/'', fk_Value = JBad, fk_Delete = True\<rparr>]"
  have "UpdateUser rs u = (None, with_bucket rs (multi_entries ?es (bucket rs)))"
    using assms applyMulti_ready [OF assms(1), of ?es]
    by (simp add: UpdateUser_def usernameIndexKey_def user_keys_ok_def)
  then have rs': "r = None" "rs' = with_bucket rs (multi_entries ?es (bucket rs))" using assms(7) by simp_all
  then show "r = None" by simp
  show "store_ready rs'"
    unfolding rs' by (rule store_ready_with [OF assms(1) kv_wf_multi [OF bucket_wf [OF assms(1)]]])
  show "kv_get (bucket rs') k =
       (if k = usernameIndexKey (us_Username old) @ ''/'' then None
        else if k = usernameIndexKey (us_Username u) @ ''/'' then Some (usernameIndexValue (us_ID u))
        else if k = userKey (us_ID u) then Some (marshal_user u) else kv_get (bucket rs) k)"
    unfolding rs' by (simp add: kvm.get_put kvm.get_del)
qed

lemma renamed_user:
  assumes "store_ready rs" "user_keys_ok u" "GetUser rs (us_ID u) = Inr old"
    and "us_Username old \<noteq> []" "us_Username old \<noteq> us_Username u"
    and "validateKey (usernameIndexKey (us_Username old) @ ''/'') = None" "UpdateUser rs u = (r, rs')"
  shows "GetUser rs' (us_ID u) = Inr u" "GetUserByUsername rs' (us_Username u) = Inr u"
    "GetUserByUsername rs' (us_Username old) = Inl ErrNotFound"
proof -
  note R = rename_ready [OF assms]
  have d: "userKey (us_ID u) \<noteq> usernameIndexKey n @ ''/''" if "n \<noteq> []" for n
    using assms(2) that by (intro user_index_key) (auto simp: user_keys_ok_def)
  show g: "GetUser rs' (us_ID u) = Inr u"
    using d [OF assms(4)] d [of "us_Username u"] assms(2)
    by (simp add: GetUser_ready [OF R(2)] R(3) user_roundtrip user_keys_ok_def)
  show "GetUserByUsername rs' (us_Username u) = Inr u"
    using g assms(5) by (simp add: GetUserByUsername_ready [OF R(2)] R(3) usernameIndex_roundtrip)
  show "GetUserByUsername rs' (us_Username old) = Inl ErrNotFound"
    by (simp add: GetUserByUsername_ready [OF R(2)] R(3))
qed

definition demo_user :: "string \<Rightarrow> string \<Rightarrow> user" where
  "demo_user i name = \<lparr>us_ID = i, us_Username = name, us_PasswordHash = ''h'', us_OIDCSubjects = [],
     us_ExternalIdentities = [], us_Roles = [], us_Channels = []\<rparr>"

text \<open>A store with the accounts \<open>bob\<close> and \<open>admin\<close>.\<close>

definition demo_users :: raft_store where
  "demo_users = with_bucket demo_store
     [(''/users/admin/'', marshal_user (demo_user ''admin'' ''admin'')),
      (''/users/bob/'', marshal_user (demo_user ''bob'' ''bob'')),
      (''/users/by-username/admin/'', usernameIndexValue ''admin''),
      (''/users/by-username/bob/'', usernameIndexValue ''bob'')]"

lemma demo_users_bucket: "bucket demo_users =
     [(''/users/admin/'', marshal_user (demo_user ''admin'' ''admin'')),
      (''/users/bob/'', marshal_user (demo_user ''bob'' ''bob'')),
      (''/users/by-username/admin/'', usernameIndexValue ''admin''),
      (''/users/by-username/bob/'', usernameIndexValue ''bob'')]"
  by (simp add: demo_users_def)

lemma demo_users_ready: "store_ready demo_users" "GetUser demo_users ''bob'' = Inr (demo_user ''bob'' ''bob'')"
  "GetUser demo_users ''admin'' = Inr (demo_user ''admin'' ''admin'')"
  "GetUserByUsername demo_users ''admin'' = Inr (demo_user ''admin'' ''admin'')"
proof -
  show r: "store_ready demo_users"
    unfolding demo_users_def by (rule store_ready_with) (simp_all add: demo_store_ready kv_wf_def)
  show g: "GetUser demo_users ''bob'' = Inr (demo_user ''bob'' ''bob'')"
    "GetUser demo_users ''admin'' = Inr (demo_user ''admin'' ''admin'')"
    by (simp_all add: GetUser_ready [OF r] demo_users_bucket userKey_def kv_get_Cons user_roundtrip)
  have "kv_get (bucket demo_users) (usernameIndexKey ''admin'' @ ''/'') = Some (usernameIndexValue ''admin'')"
    by (simp add: demo_users_bucket usernameIndexKey_def kv_get_Cons)
  then show "GetUserByUsername demo_users ''admin'' = Inr (demo_user ''admin'' ''admin'')"
    by (simp add: GetUserByUsername_ready [OF r] usernameIndex_roundtrip g)
qed

lemma demo_keys: "user_keys_ok (demo_user ''bob'' ''rob'')" "user_keys_ok (demo_user ''bob'' ''admin'')"
  "validateKey (usernameIndexKey (us_Username (demo_user ''bob'' ''bob'')) @ ''/'') = None"
  "us_Username (demo_user i n) = n" "us_ID (demo_user i n) = i"
  by (simp_all add: user_keys_ok_def demo_user_def userKey_def usernameIndexKey_def validateKey_def HasPrefix_def)

text \<open>Renaming a user moves the username index with the record: afterwards the user is found by its
  identifier and by the new name, and the old name resolves to nobody.\<close>

theorem rename_moves_index:
  assumes "store_ready rs" "user_keys_ok u" "GetUser rs (us_ID u) = Inr old"
    and "us_Username old \<noteq> []" "us_Username old \<noteq> us_Username u"
    and "validateKey (usernameIndexKey (us_Username old) @ ''/'') = None" "UpdateUser rs u = (r, rs')"
  shows "r = None \<and> GetUser rs' (us_ID u) = Inr u \<and> GetUserByUsername rs' (us_Username u) = Inr u \<and>
     GetUserByUsername rs' (us_Username old) = Inl ErrNotFound"
  using rename_ready(1) [OF assms] renamed_user [OF assms] by simp

theorem rename_moves_index_witness:
  "\<exists>rs'. UpdateUser demo_users (demo_user ''bob'' ''rob'') = (None, rs') \<and>
     GetUserByUsername rs' ''rob'' = Inr (demo_user ''bob'' ''rob'') \<and> GetUserByUsername rs' ''bob'' = Inl ErrNotFound"
proof -
  obtain r rs' where u: "UpdateUser demo_users (demo_user ''bob'' ''rob'') = (r, rs')" by fastforce
  then show ?thesis
    using rename_moves_index [OF demo_users_ready(1) demo_keys(1), of "demo_user ''bob'' ''bob''", OF _ _ _ demo_keys(3) u]
    by (simp add: demo_keys demo_users_ready)
qed

text \<open>Usernames are not kept unique: a rename to a name that belongs to another account succeeds, and
  from then on the name resolves to the renamed account, although the other account still exists
  under its identifier with the same username.\<close>

theorem rename_takes_over_username:
  assumes "store_ready rs" "user_keys_ok u" "GetUser rs (us_ID u) = Inr old"
    and "us_Username old \<noteq> []" "us_Username old \<noteq> us_Username u"
    and "validateKey (usernameIndexKey (us_Username old) @ ''/'') = None" "UpdateUser rs u = (r, rs')"
    and "GetUserByUsername rs (us_Username u) = Inr victim" "GetUser rs (us_ID victim) = Inr victim"
    and "us_ID victim \<noteq> us_ID u" "CHR ''/'' \<notin> set (us_ID victim)"
  shows "r = None \<and> GetUserByUsername rs' (us_Username u) = Inr u \<and> GetUser rs' (us_ID victim) = Inr victim"
proof -
  note R = rename_ready [OF assms(1-7)]
  have "userKey (us_ID victim) \<noteq> usernameIndexKey n @ ''/''" if "n \<noteq> []" for n
    using assms(11) that by (rule user_index_key)
  then have "kv_get (bucket rs') (userKey (us_ID victim)) = kv_get (bucket rs) (userKey (us_ID victim))"
    using assms(2,4,10) by (simp add: R(3) user_keys_ok_def)
  then have "GetUser rs' (us_ID victim) = GetUser rs (us_ID victim)"
    by (simp add: GetUser_ready [OF R(2)] GetUser_ready [OF assms(1)])
  then show ?thesis using R(1) renamed_user(2) [OF assms(1-7)] assms(9) by simp
qed

theorem rename_takes_over_username_witness:
  "\<exists>rs'. UpdateUser demo_users (demo_user ''bob'' ''admin'') = (None, rs') \<and>
     GetUserByUsername rs' ''admin'' = Inr (demo_user ''bob'' ''admin'') \<and>
     GetUser rs' ''admin'' = Inr (demo_user ''admin'' ''admin'')"
proof -
  obtain r rs' where u: "UpdateUser demo_users (demo_user ''bob'' ''admin'') = (r, rs')" by fastforce
  then show ?thesis
    using rename_takes_over_username [OF demo_users_ready(1) demo_keys(2), of "demo_user ''bob'' ''bob''" r rs'
        "demo_user ''admin'' ''admin''", OF _ _ _ demo_keys(3) u]
    by (simp add: demo_keys demo_users_ready)
qed

text \<open>A store with a channel and an access-control entry below it.\<close>

definition demo_channels :: raft_store where
  "demo_channels = with_bucket demo_store
     [(''/channels/c1/'', marshal_channel (zero_channel\<lparr>ch_ID := ''c1''\<rparr>)),
      (''/channels/c1/acl/x/'', marshal_channel_role_mapping
         \<lparr>cm_ID = ''x'', cm_ChannelID = ''c1'', cm_Type = ''user'', cm_Subject = ''bob'', cm_Role = ''read''\<rparr>)]"

lemma demo_channels_ready: "store_ready demo_channels"
  unfolding demo_channels_def by (rule store_ready_with) (simp_all add: demo_store_ready kv_wf_def)

lemma demo_channels_list:
  "ListChannels toy_crypto demo_channels = Inr [MigrateChannel (zero_channel\<lparr>ch_ID := ''c1''\<rparr>)]"
proof -
  have g: "getFSMValue (rs_db demo_channels) (channelKey ''c1'') = Inr (Some (marshal_channel (zero_channel\<lparr>ch_ID := ''c1''\<rparr>)))"
    by (simp add: get_ready [OF demo_channels_ready]) (simp add: demo_channels_def channelKey_def kv_get_Cons)
  have k: "listFSMKeys (rs_db demo_channels) ''/channels/'' = Inr [''/channels/c1/'', ''/channels/c1/acl/x/'']"
    by (simp add: keys_ready [OF demo_channels_ready]) (simp add: demo_channels_def kv_keys_def)
  have s: "segment ''/channels/'' ''/channels/c1/'' = ''c1''" "segment ''/channels/'' ''/channels/c1/acl/x/'' = ''c1''"
    by (simp_all add: segment_def TrimPrefix_def)
  have o: "openChannel toy_crypto demo_channels (zero_channel\<lparr>ch_ID := ''c1''\<rparr>) = Inr (zero_channel\<lparr>ch_ID := ''c1''\<rparr>)"
    by (simp add: openChannel_def openString_def zero_channel_def split: option.split)
  show ?thesis by (simp add: ListChannels_def k s g o channel_roundtrip)
qed

text \<open>\<open>ListChannels\<close> is exact: on a ready store the channels it returns are those \<open>GetChannel\<close> finds
  under an identifier without a slash, migrated to the current format; access-control entries
  stored below a channel do not appear and a channel with many of them appears once.\<close>

theorem list_channels_exact:
  assumes "store_ready rs" "ListChannels C rs = Inr chs"
  shows "set chs = MigrateChannel ` {ch. \<exists>i. CHR ''/'' \<notin> set i \<and> GetChannel C rs i = Inr ch}"
  by (rule ListChannels_set [OF assms])

theorem list_channels_exact_witness:
  "MigrateChannel ` {ch. \<exists>i. CHR ''/'' \<notin> set i \<and> GetChannel toy_crypto demo_channels i = Inr ch} =
     {MigrateChannel (zero_channel\<lparr>ch_ID := ''c1''\<rparr>)}"
  using list_channels_exact [OF demo_channels_ready demo_channels_list] by simp

end
