(* ===== verification/RaftAuth.thy ===== *)
theory RaftAuth
  imports RaftStore
begin

text \<open>
  The second half of \<open>internal/repository/raft.go\<close>: authentication settings, the session epoch,
  OIDC providers, roles, role mappings, channel ACLs, client cursors, and the two migrations
  (\<open>MigrateAtRest\<close>, and \<open>MigrateRBAC\<close> of \<open>migrate.go\<close>).
\<close>

text \<open>Decoding a document into a variable that is not a struct: \<open>null\<close> leaves it at zero.\<close>

definition dec_var :: "'a \<Rightarrow> (json \<Rightarrow> 'a option) \<Rightarrow> json \<Rightarrow> 'a option" where
  "dec_var z dec d = (case d of JNull \<Rightarrow> Some z | _ \<Rightarrow> dec d)"

section \<open>Setup mode and the session epoch\<close>

text \<open>\<open>fmt\<close> and \<open>parse\<close> are the JSON encoding of \<open>time.Time\<close> (an RFC 3339 string).\<close>

definition GetSetupModeEndTime :: "(json \<Rightarrow> time option) \<Rightarrow> raft_store \<Rightarrow> time" where
  "GetSetupModeEndTime parse rs = (case ok_or None (getFSMValue (rs_db rs) ''/meta/setup_end'') of
       None \<Rightarrow> 0
     | Some d \<Rightarrow> (case parse d of None \<Rightarrow> 0 | Some t \<Rightarrow> t))"

definition SetSetupModeEndTime :: "(time \<Rightarrow> json) \<Rightarrow> raft_store \<Rightarrow> time \<Rightarrow> error option \<times> raft_store" where
  "SetSetupModeEndTime fmt rs t = applyCommand rs ''set'' ''/meta/setup_end'' (fmt t)"

definition GetAuthEpoch :: "raft_store \<Rightarrow> int result" where
  "GetAuthEpoch rs = bindE (getFSMValue (rs_db rs) ''/meta/auth_epoch'') (\<lambda>val. case val of
       None \<Rightarrow> Inr 0
     | Some d \<Rightarrow> of_option json_error (dec_var 0 dec_int d))"

definition BumpAuthEpoch :: "raft_store \<Rightarrow> error option \<times> raft_store" where
  "BumpAuthEpoch rs = (case GetAuthEpoch rs of
       Inl e \<Rightarrow> (Some e, rs)
     | Inr current \<Rightarrow> applyCommand rs ''set'' ''/meta/auth_epoch'' (JNum (int64w (current + 1))))"

section \<open>Authentication providers\<close>

fun open_providers :: "crypto \<Rightarrow> raft_store \<Rightarrow> oidc_provider list \<Rightarrow> oidc_provider list result" where
  "open_providers C rs [] = Inr []"
| "open_providers C rs (p # ps) = bindE (openString C rs (op_ClientSecret p)) (\<lambda>s.
     bindE (open_providers C rs ps) (\<lambda>qs. Inr (p\<lparr>op_ClientSecret := s\<rparr> # qs)))"

fun seal_providers :: "crypto \<Rightarrow> raft_store \<Rightarrow> ns \<Rightarrow> oidc_provider list \<Rightarrow> oidc_provider list result" where
  "seal_providers C rs ns [] = Inr []"
| "seal_providers C rs ns (p # ps) = bindE (sealString C rs (ns 0) (op_ClientSecret p)) (\<lambda>s.
     bindE (seal_providers C rs (\<lambda>i. ns (Suc i)) ps) (\<lambda>qs. Inr (p\<lparr>op_ClientSecret := s\<rparr> # qs)))"

definition OIDCProviders :: "crypto \<Rightarrow> raft_store \<Rightarrow> oidc_provider list result" where
  "OIDCProviders C rs = bindE (getFSMValue (rs_db rs) ''/global/auth/oidc_providers'') (\<lambda>val. case val of
       None \<Rightarrow> Inr []
     | Some d \<Rightarrow> bindE (of_option json_error (dec_var [] (dec_arr unmarshal_oidc_provider) d)) (open_providers C rs))"

definition SetOIDCProviders :: "crypto \<Rightarrow> ns \<Rightarrow> raft_store \<Rightarrow> oidc_provider list \<Rightarrow> error option \<times> raft_store" where
  "SetOIDCProviders C ns rs providers = (case seal_providers C rs ns providers of
       Inl e \<Rightarrow> (Some e, rs)
     | Inr sealed \<Rightarrow> applyCommand rs ''set-json'' ''/global/auth/oidc_providers''
         (JArr (map marshal_oidc_provider sealed)))"

definition InternalAuthEnabled :: "raft_store \<Rightarrow> bool option result" where
  "InternalAuthEnabled rs = bindE (getFSMValue (rs_db rs) ''/global/auth/internal_enabled'') (\<lambda>val. case val of
       None \<Rightarrow> Inr None
     | Some d \<Rightarrow> bindE (of_option json_error (dec_var False dec_bool d)) (\<lambda>b. Inr (Some b)))"

definition SetInternalAuthEnabled :: "raft_store \<Rightarrow> bool \<Rightarrow> error option \<times> raft_store" where
  "SetInternalAuthEnabled rs enabled =
     applyCommand rs ''set-json'' ''/global/auth/internal_enabled'' (JBool enabled)"

section \<open>Roles\<close>

definition isDefaultRole :: "string \<Rightarrow> bool" where
  "isDefaultRole name = list_ex (\<lambda>r. ro_Name r = name) DefaultRoles"

definition roleKey :: "string \<Rightarrow> string" where
  "roleKey name = ''/rbac/roles/'' @ name @ ''/''"

definition GetRole :: "raft_store \<Rightarrow> string \<Rightarrow> role result" where
  "GetRole rs name = bindE (getFSMValue (rs_db rs) (roleKey name)) (\<lambda>val. case val of
       None \<Rightarrow> of_option ErrNotFound (find (\<lambda>r. ro_Name r = name) DefaultRoles)
     | Some d \<Rightarrow> of_option json_error (unmarshal_role d))"

fun list_roles :: "raft_store \<Rightarrow> string list \<Rightarrow> role list" where
  "list_roles rs [] = []"
| "list_roles rs (key # keys) =
     (let name = segment ''/rbac/roles/'' key in
      if name = [] then list_roles rs keys
      else if isDefaultRole name then list_roles rs keys
      else (case ok_or None (getFSMValue (rs_db rs) key) of
          None \<Rightarrow> list_roles rs keys
        | Some d \<Rightarrow> (case unmarshal_role d of
              None \<Rightarrow> list_roles rs keys
            | Some r \<Rightarrow> r # list_roles rs keys)))"

definition ListRoles :: "raft_store \<Rightarrow> role list result" where
  "ListRoles rs = bindE (listFSMKeys (rs_db rs) ''/rbac/roles/'') (\<lambda>keys.
     Inr (DefaultRoles @ list_roles rs keys))"

definition CreateRole :: "raft_store \<Rightarrow> role \<Rightarrow> error option \<times> raft_store" where
  "CreateRole rs r = (if isDefaultRole (ro_Name r) then (Some ErrAlreadyExists, rs)
     else applyCommand rs ''set'' (roleKey (ro_Name r)) (marshal_role r))"

section \<open>Client cursors\<close>

definition cursorKey :: "string \<Rightarrow> string \<Rightarrow> string" where
  "cursorKey channel clientID = ''/cursors/'' @ channel @ ''/'' @ clientID @ ''/''"

definition GetClientCursor :: "raft_store \<Rightarrow> string \<Rightarrow> string \<Rightarrow> client_cursor result" where
  "GetClientCursor rs channel clientID =
     (case ok_or None (getFSMValue (rs_db rs) (cursorKey channel clientID)) of
        None \<Rightarrow> Inl ErrNotFound
      | Some d \<Rightarrow> of_option json_error (unmarshal_client_cursor d))"

definition SetClientCursor :: "raft_store \<Rightarrow> client_cursor \<Rightarrow> error option \<times> raft_store" where
  "SetClientCursor rs c = applyCommand rs ''set'' (cursorKey (cc_Channel c) (cc_ClientID c)) (marshal_client_cursor c)"

section \<open>Role mappings\<close>

fun list_mappings :: "raft_store \<Rightarrow> string list \<Rightarrow> role_mapping list" where
  "list_mappings rs [] = []"
| "list_mappings rs (key # keys) =
     (if segment ''/rbac/mappings/'' key = [] then list_mappings rs keys
      else (case ok_or None (getFSMValue (rs_db rs) key) of
          None \<Rightarrow> list_mappings rs keys
        | Some d \<Rightarrow> (case unmarshal_role_mapping d of
              None \<Rightarrow> list_mappings rs keys
            | Some m \<Rightarrow> m # list_mappings rs keys)))"

definition ListRoleMappings :: "raft_store \<Rightarrow> role_mapping list result" where
  "ListRoleMappings rs = bindE (listFSMKeys (rs_db rs) ''/rbac/mappings/'') (\<lambda>keys. Inr (list_mappings rs keys))"

definition mappingKey :: "string \<Rightarrow> string" where
  "mappingKey i = ''/rbac/mappings/'' @ i @ ''/''"

definition same_mapping :: "role_mapping \<Rightarrow> role_mapping \<Rightarrow> bool" where
  "same_mapping e m \<longleftrightarrow> rm_Type e = rm_Type m \<and> rm_Subject e = rm_Subject m \<and> rm_Role e = rm_Role m \<and>
     rm_ChannelScope e = rm_ChannelScope m"

text \<open>\<open>rnd\<close> is the random source of the new mapping's identifier.\<close>

definition CreateRoleMapping :: "string option \<Rightarrow> raft_store \<Rightarrow> role_mapping \<Rightarrow> error option \<times> raft_store" where
  "CreateRoleMapping rnd rs m =
     (if list_ex (\<lambda>e. same_mapping e m) (ok_or [] (ListRoleMappings rs)) then (None, rs)
      else (case GenerateUUID rnd of
          Inl e \<Rightarrow> (Some e, rs)
        | Inr i \<Rightarrow> applyCommand rs ''set'' (mappingKey i) (marshal_role_mapping (m\<lparr>rm_ID := i\<rparr>))))"

definition DeleteRoleMapping :: "raft_store \<Rightarrow> string \<Rightarrow> error option \<times> raft_store" where
  "DeleteRoleMapping rs i = applyCommand rs ''delete'' (mappingKey i) JBad"

definition GetUserRoleMappings :: "raft_store \<Rightarrow> string \<Rightarrow> role_mapping list result" where
  "GetUserRoleMappings rs userID = bindE (ListRoleMappings rs) (\<lambda>all.
     Inr (filter (\<lambda>m. rm_Type m = ''user'' \<and> rm_Subject m = userID) all))"

definition GetGroupRoleMappings :: "raft_store \<Rightarrow> string \<Rightarrow> role_mapping list result" where
  "GetGroupRoleMappings rs groupName = bindE (ListRoleMappings rs) (\<lambda>all.
     Inr (filter (\<lambda>m. rm_Type m = ''group'' \<and> rm_Subject m = groupName) all))"

section \<open>Channel role mappings\<close>

definition aclPrefix :: "string \<Rightarrow> string" where
  "aclPrefix channelID = ''/channels/'' @ channelID @ ''/acl/''"

fun list_acl :: "raft_store \<Rightarrow> string list \<Rightarrow> channel_role_mapping list" where
  "list_acl rs [] = []"
| "list_acl rs (key # keys) = (case ok_or None (getFSMValue (rs_db rs) key) of
       None \<Rightarrow> list_acl rs keys
     | Some d \<Rightarrow> (case unmarshal_channel_role_mapping d of
           None \<Rightarrow> list_acl rs keys
         | Some m \<Rightarrow> m # list_acl rs keys))"

definition ListChannelRoleMappings :: "raft_store \<Rightarrow> string \<Rightarrow> channel_role_mapping list result" where
  "ListChannelRoleMappings rs channelID = bindE (listFSMKeys (rs_db rs) (aclPrefix channelID)) (\<lambda>keys.
     Inr (list_acl rs keys))"

definition CreateChannelRoleMapping ::
  "string option \<Rightarrow> raft_store \<Rightarrow> channel_role_mapping \<Rightarrow> error option \<times> raft_store" where
  "CreateChannelRoleMapping rnd rs m =
     (if list_ex (\<lambda>e. cm_Type e = cm_Type m \<and> cm_Subject e = cm_Subject m \<and> cm_Role e = cm_Role m)
           (ok_or [] (ListChannelRoleMappings rs (cm_ChannelID m))) then (None, rs)
      else (case GenerateUUID rnd of
          Inl e \<Rightarrow> (Some e, rs)
        | Inr i \<Rightarrow> (if cm_ChannelID m = [] then (Some ErrInvalidArgument, rs)
            else applyCommand rs ''set'' (aclPrefix (cm_ChannelID m) @ i @ ''/'')
                   (marshal_channel_role_mapping (m\<lparr>cm_ID := i\<rparr>)))))"

definition DeleteChannelRoleMapping :: "raft_store \<Rightarrow> string \<Rightarrow> string \<Rightarrow> error option \<times> raft_store" where
  "DeleteChannelRoleMapping rs channelID entryID =
     applyCommand rs ''delete'' (aclPrefix channelID @ entryID @ ''/'') JBad"

text \<open>A channel whose list cannot be read is skipped.\<close>

definition all_acls :: "raft_store \<Rightarrow> channel list \<Rightarrow> channel_role_mapping list" where
  "all_acls rs chs = concat (map (\<lambda>ch. ok_or [] (ListChannelRoleMappings rs (ch_ID ch))) chs)"

definition GetUserChannelRoleMappings :: "crypto \<Rightarrow> raft_store \<Rightarrow> string \<Rightarrow> channel_role_mapping list result" where
  "GetUserChannelRoleMappings C rs userID = bindE (ListChannels C rs) (\<lambda>chs.
     Inr (filter (\<lambda>a. cm_Type a = ''user'' \<and> cm_Subject a = userID) (all_acls rs chs)))"

definition GetGroupChannelRoleMappings :: "crypto \<Rightarrow> raft_store \<Rightarrow> string \<Rightarrow> channel_role_mapping list result" where
  "GetGroupChannelRoleMappings C rs groupName = bindE (ListChannels C rs) (\<lambda>chs.
     Inr (filter (\<lambda>a. cm_Type a = ''group'' \<and> cm_Subject a = groupName) (all_acls rs chs)))"

section \<open>Migrations\<close>

fun update_channels :: "crypto \<Rightarrow> (nat \<Rightarrow> ns) \<Rightarrow> raft_store \<Rightarrow> channel list \<Rightarrow> error option \<times> raft_store" where
  "update_channels C nss rs [] = (None, rs)"
| "update_channels C nss rs (ch # chs) = (case UpdateChannel C (nss 0) rs ch of
       (Some e, rs') \<Rightarrow> (Some e, rs')
     | (None, rs') \<Rightarrow> update_channels C (\<lambda>i. nss (Suc i)) rs' chs)"

text \<open>\<open>nss\<close> gives the random reads of each channel update, \<open>nc\<close> and \<open>np\<close> those of the last two
  writes.\<close>

definition MigrateAtRest :: "crypto \<Rightarrow> (nat \<Rightarrow> ns) \<Rightarrow> ns \<Rightarrow> ns \<Rightarrow> raft_store \<Rightarrow> error option \<times> raft_store" where
  "MigrateAtRest C nss nc np rs =
     (if rs_keeper rs = None then (Some (ErrMsg ''at-rest encryption is not configured''), rs)
      else (case ListChannels C rs of Inl e \<Rightarrow> (Some e, rs)
        | Inr channels \<Rightarrow> (case update_channels C nss rs channels of (Some e, rs1) \<Rightarrow> (Some e, rs1)
        | (None, rs1) \<Rightarrow> (case GetGlobalConfig C rs1 of Inl e \<Rightarrow> (Some e, rs1)
        | Inr cfg \<Rightarrow> (case UpdateGlobalConfig C nc rs1 (Some cfg) of (Some e, rs2) \<Rightarrow> (Some e, rs2)
        | (None, rs2) \<Rightarrow> (case OIDCProviders C rs2 of Inl e \<Rightarrow> (Some e, rs2)
        | Inr providers \<Rightarrow> (if length providers > 0 then SetOIDCProviders C np rs2 providers
                             else (None, rs2))))))))"

fun migrate_roles :: "ns \<Rightarrow> raft_store \<Rightarrow> user \<Rightarrow> string list \<Rightarrow> raft_store" where
  "migrate_roles ns rs u [] = rs"
| "migrate_roles ns rs u (r # rest) = migrate_roles (\<lambda>i. ns (Suc i))
     (snd (CreateRoleMapping (ns 0) rs \<lparr>rm_ID = [], rm_Type = ''user'', rm_Subject = us_ID u, rm_Role = r,
        rm_ChannelScope = ''*''\<rparr>)) u rest"

fun migrate_chans :: "ns \<Rightarrow> raft_store \<Rightarrow> user \<Rightarrow> string list \<Rightarrow> raft_store" where
  "migrate_chans ns rs u [] = rs"
| "migrate_chans ns rs u (ch # rest) =
     (if ch = ''*'' then migrate_chans ns rs u rest
      else migrate_chans (\<lambda>i. ns (Suc i))
        (snd (CreateChannelRoleMapping (ns 0) rs \<lparr>cm_ID = [], cm_ChannelID = ch, cm_Type = ''user'',
           cm_Subject = us_ID u, cm_Role = ''write''\<rparr>)) u rest)"

fun migrate_users :: "(nat \<Rightarrow> ns) \<Rightarrow> raft_store \<Rightarrow> user list \<Rightarrow> raft_store" where
  "migrate_users nss rs [] = rs"
| "migrate_users nss rs (u # us) = migrate_users (\<lambda>i. nss (i + 2))
     (migrate_chans (nss 1) (migrate_roles (nss 0) rs u (us_Roles u)) u (us_Channels u)) us"

text \<open>A mapping that cannot be created is only logged.\<close>

definition MigrateRBAC :: "(nat \<Rightarrow> ns) \<Rightarrow> raft_store \<Rightarrow> error option \<times> raft_store" where
  "MigrateRBAC nss rs =
     (if ok_or None (getFSMValue (rs_db rs) ''/meta/rbac_migrated'') \<noteq> None then (None, rs)
      else (case ListUsers rs of
          Inl e \<Rightarrow> (Some e, rs)
        | Inr users \<Rightarrow> (if length users = 0 then (None, rs)
            else applyCommand (migrate_users nss rs users) ''set'' ''/meta/rbac_migrated'' (JBool True))))"

section \<open>Lemmas\<close>

lemma meta_keys:
  "validateKey ''/meta/auth_epoch'' = None" "validateKey ''/global/auth/oidc_providers'' = None"
  "validateKey ''/global/auth/internal_enabled'' = None" "validateKey ''/meta/rbac_migrated'' = None"
  by (simp_all add: validateKey_def HasPrefix_def)

lemma GetAuthEpoch_ready:
  "store_ready rs \<Longrightarrow> GetAuthEpoch rs = (case kv_get (bucket rs) ''/meta/auth_epoch'' of
       None \<Rightarrow> Inr 0 | Some d \<Rightarrow> of_option json_error (dec_var 0 dec_int d))"
  by (simp add: GetAuthEpoch_def get_ready)

lemma BumpAuthEpoch_ready:
  assumes "store_ready rs" "GetAuthEpoch rs = Inr e" "BumpAuthEpoch rs = (r, rs')"
  shows "r = None" "GetAuthEpoch rs' = Inr (int64w (e + 1))" "store_ready rs'"
    "k \<noteq> ''/meta/auth_epoch'' \<Longrightarrow> kv_get (bucket rs') k = kv_get (bucket rs) k"
proof -
  have "(r, rs') = (None, with_bucket rs (kv_put ''/meta/auth_epoch'' (JNum (int64w (e + 1))) (bucket rs)))"
    using assms applyCommand_set [OF assms(1) meta_keys(1)] by (simp add: BumpAuthEpoch_def)
  then show "r = None" "GetAuthEpoch rs' = Inr (int64w (e + 1))" "store_ready rs'"
    "k \<noteq> ''/meta/auth_epoch'' \<Longrightarrow> kv_get (bucket rs') k = kv_get (bucket rs) k"
    using assms(1) by (simp_all add: GetAuthEpoch_ready store_ready_with kvm.wf_put bucket_wf kvm.get_put dec_var_def)
qed

lemma open_seal_providers:
  assumes "aead_correct C" "keeper_ok rs"
  shows "rand_ok 12 ns \<Longrightarrow> \<exists>qs. seal_providers C rs ns ps = Inr qs \<and> open_providers C rs qs = Inr ps"
proof (induction ps arbitrary: ns)
  case (Cons p ps)
  have "rand_ok 12 (\<lambda>i. ns (Suc i))" using Cons.prems by (simp add: rand_ok_def)
  then obtain qs where qs: "seal_providers C rs (\<lambda>i. ns (Suc i)) ps = Inr qs" "open_providers C rs qs = Inr ps"
    using Cons.IH by blast
  obtain t where "sealString C rs (ns 0) (op_ClientSecret p) = Inr t" "openString C rs t = Inr (op_ClientSecret p)"
    using open_seal [OF assms] Cons.prems by (metis rand_ok_def)
  with qs show ?case by auto
qed simp

lemma open_providers_with: "open_providers C (with_bucket rs m) ps = open_providers C rs ps"
  by (induction ps) (simp_all add: open_with_bucket)

lemma SetOIDCProviders_read:
  assumes "channel_ready C ns rs" "SetOIDCProviders C ns rs ps = (r, rs')"
  shows "r = None" "OIDCProviders C rs' = Inr ps" "store_ready rs'"
proof -
  have rs: "store_ready rs" "aead_correct C" "keeper_ok rs" "rand_ok 12 ns"
    using assms(1) by (simp_all add: channel_ready_def)
  obtain qs where qs: "seal_providers C rs ns ps = Inr qs" "open_providers C rs qs = Inr ps"
    using open_seal_providers [OF rs(2,3,4)] by blast
  have e: "(r, rs') = (None, with_bucket rs (kv_put ''/global/auth/oidc_providers''
      (JArr (map marshal_oidc_provider qs)) (bucket rs)))"
    using assms(2) qs(1) applyCommand_set [OF rs(1) meta_keys(2)] by (simp add: SetOIDCProviders_def)
  show "r = None" using e by simp
  show ready: "store_ready rs'" using e rs(1) by (simp add: store_ready_with kvm.wf_put bucket_wf)
  then show "OIDCProviders C rs' = Inr ps"
    using e qs(2) by (simp add: OIDCProviders_def get_ready kvm.get_put dec_var_def
        oidc_provider_dec_list open_providers_with del: dec_arr.simps)
qed

section \<open>Roles and cursors as records\<close>

definition role_valid :: "string \<Rightarrow> role \<Rightarrow> bool" where
  "role_valid n r \<longleftrightarrow> ro_Name r = n \<and> \<not> isDefaultRole n \<and> validateKey (roleKey n) = None"

lemma put_read:
  assumes "store_ready rs" "k' = k \<longrightarrow> dec v = Some x"
  shows "(case kv_get (bucket (with_bucket rs (kv_put k v (bucket rs)))) k' of None \<Rightarrow> z
            | Some d \<Rightarrow> of_option e (dec d)) =
         (if k' = k then Inr x else (case kv_get (bucket rs) k' of None \<Rightarrow> z | Some d \<Rightarrow> of_option e (dec d)))"
  using assms by (simp add: kvm.get_put)

interpretation role_record: record_store GetRole "\<lambda>rs n r. CreateRole rs r" store_ready role_valid "\<lambda>r. r"
proof
  fix s n r assume s: "store_ready s" and v: "role_valid n r"
  have u: "CreateRole s r = (None, with_bucket s (kv_put (roleKey n) (marshal_role r) (bucket s)))"
    using v applyCommand_set [OF s, of "roleKey n"] by (auto simp: CreateRole_def role_valid_def)
  show "fst (CreateRole s r) = None" by (simp add: u)
  show sr: "store_ready (snd (CreateRole s r))"
    using s by (simp add: u store_ready_with kvm.wf_put bucket_wf)
  show "GetRole (snd (CreateRole s r)) n = Inr r"
    using sr by (simp add: u GetRole_def get_ready kvm.get_put role_roundtrip)
  show "GetRole (snd (CreateRole s r)) n' = GetRole s n'" if "role_valid n' r'" "n' \<noteq> n" for n' r'
    using that sr s by (simp add: u GetRole_def get_ready kvm.get_put roleKey_def)
qed

definition cursor_valid :: "string \<times> string \<Rightarrow> client_cursor \<Rightarrow> bool" where
  "cursor_valid k c \<longleftrightarrow> k = (cc_Channel c, cc_ClientID c) \<and> CHR ''/'' \<notin> set (cc_Channel c) \<and>
     validateKey (cursorKey (fst k) (snd k)) = None"

lemma cursorKey_inject:
  assumes "CHR ''/'' \<notin> set c" "CHR ''/'' \<notin> set c'"
  shows "cursorKey c i = cursorKey c' i' \<longleftrightarrow> c = c' \<and> i = i'"
proof
  assume "cursorKey c i = cursorKey c' i'"
  then have "c @ CHR ''/'' # i = c' @ CHR ''/'' # i'" by (simp add: cursorKey_def)
  then have "SplitN2 CHR ''/'' (c @ CHR ''/'' # i) = SplitN2 CHR ''/'' (c' @ CHR ''/'' # i')"
    by simp
  then show "c = c' \<and> i = i'" using assms by (simp add: SplitN2_append)
qed simp

interpretation cursor_record: record_store "\<lambda>rs k. GetClientCursor rs (fst k) (snd k)"
  "\<lambda>rs k c. SetClientCursor rs c" store_ready cursor_valid "\<lambda>c. c"
proof
  fix s k c assume s: "store_ready s" and v: "cursor_valid k c"
  have u: "SetClientCursor s c = (None, with_bucket s (kv_put (cursorKey (fst k) (snd k)) (marshal_client_cursor c) (bucket s)))"
    using v applyCommand_set [OF s] by (auto simp: SetClientCursor_def cursor_valid_def)
  show "fst (SetClientCursor s c) = None" by (simp add: u)
  show sr: "store_ready (snd (SetClientCursor s c))"
    using s by (simp add: u store_ready_with kvm.wf_put bucket_wf)
  show "GetClientCursor (snd (SetClientCursor s c)) (fst k) (snd k) = Inr c"
    using sr by (simp add: u GetClientCursor_def get_ready kvm.get_put client_cursor_roundtrip)
  show "GetClientCursor (snd (SetClientCursor s c)) (fst k') (snd k') = GetClientCursor s (fst k') (snd k')"
    if k': "cursor_valid k' c'" "k' \<noteq> k" for k' c'
  proof -
    have "cursorKey (fst k') (snd k') \<noteq> cursorKey (fst k) (snd k)"
      using k' v cursorKey_inject by (auto simp: cursor_valid_def)
    then show ?thesis using sr s by (simp add: u GetClientCursor_def get_ready kvm.get_put)
  qed
qed

section \<open>Role mappings\<close>

lemma list_mappings_set:
  "reads_ok rs \<Longrightarrow> set (list_mappings rs keys) =
     {m. \<exists>k \<in> set keys. segment ''/rbac/mappings/'' k \<noteq> [] \<and>
        (\<exists>d. kv_get (bucket rs) k = Some d \<and> unmarshal_role_mapping d = Some m)}"
  by (induction keys) (auto simp: reads_get split: option.splits)

lemma ListRoleMappings_set:
  assumes "reads_ok rs" "ListRoleMappings rs = Inr ms"
  shows "set ms = {m. \<exists>k d. prefix ''/rbac/mappings/'' k \<and> segment ''/rbac/mappings/'' k \<noteq> [] \<and>
     kv_get (bucket rs) k = Some d \<and> unmarshal_role_mapping d = Some m}"
proof -
  have "ms = list_mappings rs (filter (prefix ''/rbac/mappings/'') (kv_keys (bucket rs)))"
    using assms by (simp add: ListRoleMappings_def reads_keys)
  then show ?thesis using list_mappings_set [OF assms(1)] by (auto simp: kvm.mem_keys)
qed

lemma ListRoleMappings_ready: "store_ready rs \<Longrightarrow> \<exists>ms. ListRoleMappings rs = Inr ms"
  by (simp add: ListRoleMappings_def keys_ready)

lemma uuid_key:
  assumes "GenerateUUID rnd = Inr i" "i \<noteq> []"
  shows "validateKey (mappingKey i) = None" "segment ''/rbac/mappings/'' (mappingKey i) = i"
    "prefix ''/rbac/mappings/'' (mappingKey i)"
proof -
  have c: "\<forall>c \<in> set i. uuid_char c" using GenerateUUID_chars [OF assms(1)] by (simp add: list_all_iff)
  have "\<not> uuid_char CHR ''.''" "\<not> uuid_char CHR ''/''" by (simp_all add: uuid_char_def hex_digits_def)
  then have i: "CHR ''.'' \<notin> set i" "CHR ''/'' \<notin> set i" using c by blast+
  show "validateKey (mappingKey i) = None"
    by (rule validateKey_plain) (simp_all add: mappingKey_def HasPrefix_def i)
  show "segment ''/rbac/mappings/'' (mappingKey i) = i"
    using segment_key [OF i(2), of "''/rbac/mappings/''" "[]"] by (simp add: mappingKey_def)
  show "prefix ''/rbac/mappings/'' (mappingKey i)" by (simp add: mappingKey_def)
qed

lemma GenerateUUID_Some: "GenerateUUID (Some b) = Inr i \<Longrightarrow> i \<noteq> []"
  by (auto simp: GenerateUUID_def Let_def)

lemma CreateRoleMapping_ready:
  assumes "store_ready rs" "CreateRoleMapping (Some b) rs m = (r, rs')"
  shows "r = None" "store_ready rs'" "\<exists>e \<in> set (ok_or [] (ListRoleMappings rs')). same_mapping e m"
proof -
  obtain ms where ms: "ListRoleMappings rs = Inr ms" using ListRoleMappings_ready [OF assms(1)] by blast
  have "r = None \<and> store_ready rs' \<and> (\<exists>e \<in> set (ok_or [] (ListRoleMappings rs')). same_mapping e m)"
  proof (cases "list_ex (\<lambda>e. same_mapping e m) ms")
    case True
    then show ?thesis using assms ms by (auto simp: CreateRoleMapping_def list_ex_iff)
  next
    case False
    obtain i where i: "GenerateUUID (Some b) = Inr i" by (simp add: GenerateUUID_def Let_def)
    note k = uuid_key [OF i GenerateUUID_Some [OF i]]
    have e: "(r, rs') = (None, with_bucket rs (kv_put (mappingKey i) (marshal_role_mapping (m\<lparr>rm_ID := i\<rparr>)) (bucket rs)))"
      using assms False ms i applyCommand_set [OF assms(1) k(1)] by (simp add: CreateRoleMapping_def)
    have sr: "store_ready rs'" using e assms(1) by (simp add: store_ready_with kvm.wf_put bucket_wf)
    obtain ms' where ms': "ListRoleMappings rs' = Inr ms'" using ListRoleMappings_ready [OF sr] by blast
    have "m\<lparr>rm_ID := i\<rparr> \<in> set ms'"
      unfolding ListRoleMappings_set [OF ready_reads [OF sr] ms'] using e k(2,3) GenerateUUID_Some [OF i]
      by (auto simp: kvm.get_put role_mapping_roundtrip)
    moreover have "same_mapping (m\<lparr>rm_ID := i\<rparr>) m" by (simp add: same_mapping_def)
    ultimately show ?thesis using e sr ms' by auto
  qed
  then show "r = None" "store_ready rs'" "\<exists>e \<in> set (ok_or [] (ListRoleMappings rs')). same_mapping e m" by auto
qed

lemma CreateRoleMapping_again:
  "\<exists>e \<in> set (ok_or [] (ListRoleMappings rs)). same_mapping e m \<Longrightarrow> CreateRoleMapping rnd rs m = (None, rs)"
  by (auto simp: CreateRoleMapping_def list_ex_iff)

section \<open>Channel access lists\<close>

lemma list_acl_cong:
  "(\<And>k. k \<in> set keys \<Longrightarrow> getFSMValue (rs_db rs) k = getFSMValue (rs_db rs') k) \<Longrightarrow> list_acl rs keys = list_acl rs' keys"
  by (induction keys) (auto split: option.split)

lemma ListChannelRoleMappings_del:
  assumes "store_ready rs" "\<not> prefix (aclPrefix i) k"
  shows "ListChannelRoleMappings (with_bucket rs (kv_del k (bucket rs))) i = ListChannelRoleMappings rs i"
proof -
  let ?rs = "with_bucket rs (kv_del k (bucket rs))"
  have r: "store_ready ?rs" by (rule store_ready_with [OF assms(1)]) (simp add: kvm.wf_del bucket_wf assms(1))
  have "filter (prefix (aclPrefix i)) (kv_keys (kv_del k m)) = filter (prefix (aclPrefix i)) (kv_keys m)"
    for m :: fsm_bucket using assms(2) by (induction m) (auto simp: kv_keys_def kv_del_def)
  moreover have "list_acl ?rs (filter (prefix (aclPrefix i)) ks) = list_acl rs (filter (prefix (aclPrefix i)) ks)" for ks
    by (rule list_acl_cong) (use assms in \<open>auto simp: get_ready r kvm.get_del\<close>)
  ultimately show ?thesis by (simp add: ListChannelRoleMappings_def keys_ready r assms(1))
qed

section \<open>Properties\<close>

text \<open>Creating a role mapping is idempotent: it succeeds, the mapping is listed afterwards, and creating
  the same mapping again (whatever identifier would be drawn) succeeds and changes nothing.\<close>

theorem role_mapping_created_once:
  assumes "store_ready rs" "CreateRoleMapping (Some b) rs m = (r, rs')"
  shows "r = None \<and> (\<exists>ms. ListRoleMappings rs' = Inr ms \<and> (\<exists>e \<in> set ms. same_mapping e m)) \<and>
     (\<forall>rnd. CreateRoleMapping rnd rs' m = (None, rs'))"
proof -
  note R = CreateRoleMapping_ready [OF assms]
  obtain ms where "ListRoleMappings rs' = Inr ms" using ListRoleMappings_ready [OF R(2)] by blast
  then show ?thesis using R CreateRoleMapping_again [OF R(3)] by auto
qed

theorem role_mapping_created_once_witness:
  "\<exists>rs'. CreateRoleMapping (Some (replicate 16 CHR ''u'')) demo_store
       \<lparr>rm_ID = [], rm_Type = ''user'', rm_Subject = ''bob'', rm_Role = ''editor'', rm_ChannelScope = ''*''\<rparr> = (None, rs') \<and>
     CreateRoleMapping None rs'
       \<lparr>rm_ID = [], rm_Type = ''user'', rm_Subject = ''bob'', rm_Role = ''editor'', rm_ChannelScope = ''*''\<rparr> = (None, rs')"
proof -
  let ?m = "\<lparr>rm_ID = [], rm_Type = ''user'', rm_Subject = ''bob'', rm_Role = ''editor'', rm_ChannelScope = ''*''\<rparr>"
  obtain r rs' where c: "CreateRoleMapping (Some (replicate 16 CHR ''u'')) demo_store ?m = (r, rs')" by fastforce
  then show ?thesis using role_mapping_created_once [OF demo_store_ready(1) c] by blast
qed

text \<open>Deleting a channel leaves its access list behind: the channel is gone, but every access-control
  entry stored below it is listed as before, and so applies to a channel that is created later
  under the same identifier.\<close>

theorem deleted_channel_keeps_acl:
  assumes "store_ready rs" "i \<noteq> []" "validateKey (channelKey i) = None" "DeleteChannel rs i = (r, rs')"
  shows "r = None \<and> GetChannel C rs' i = Inl ErrNotFound \<and>
     ListChannelRoleMappings rs' i = ListChannelRoleMappings rs i"
proof -
  have e: "r = None" "rs' = with_bucket rs (kv_del (channelKey i) (bucket rs))"
    using DeleteChannel_ready [OF assms(1,3)] assms(4) by simp_all
  have r: "store_ready rs'"
    unfolding e by (rule store_ready_with [OF assms(1)]) (simp add: kvm.wf_del bucket_wf assms(1))
  have "GetChannel C rs' i = Inl ErrNotFound"
    using assms(2) by (simp add: GetChannel_ready [OF r]) (simp add: e kvm.get_del)
  moreover have "\<not> prefix (aclPrefix i) (channelKey i)" by (simp add: aclPrefix_def channelKey_def)
  ultimately show ?thesis using ListChannelRoleMappings_del [OF assms(1), of i "channelKey i"] e by simp
qed

theorem deleted_channel_keeps_acl_witness:
  "\<exists>rs' a. DeleteChannel demo_channels ''c1'' = (None, rs') \<and> GetChannel toy_crypto rs' ''c1'' = Inl ErrNotFound \<and>
     ListChannelRoleMappings rs' ''c1'' = Inr [a] \<and> cm_Subject a = ''bob''"
proof -
  obtain r rs' where d: "DeleteChannel demo_channels ''c1'' = (r, rs')" by fastforce
  have k: "listFSMKeys (rs_db demo_channels) (aclPrefix ''c1'') = Inr [''/channels/c1/acl/x/'']"
    by (simp add: keys_ready [OF demo_channels_ready]) (simp add: demo_channels_def kv_keys_def aclPrefix_def)
  have "getFSMValue (rs_db demo_channels) ''/channels/c1/acl/x/'' = Inr (Some (marshal_channel_role_mapping
      \<lparr>cm_ID = ''x'', cm_ChannelID = ''c1'', cm_Type = ''user'', cm_Subject = ''bob'', cm_Role = ''read''\<rparr>))"
    by (simp add: get_ready [OF demo_channels_ready]) (simp add: demo_channels_def kv_get_Cons)
  then have "ListChannelRoleMappings demo_channels ''c1'' = Inr
      [\<lparr>cm_ID = ''x'', cm_ChannelID = ''c1'', cm_Type = ''user'', cm_Subject = ''bob'', cm_Role = ''read''\<rparr>]"
    by (simp add: ListChannelRoleMappings_def k channel_role_mapping_roundtrip)
  then show ?thesis
    using deleted_channel_keeps_acl [OF demo_channels_ready _ _ d, of toy_crypto] d
    by (simp add: channelKey_def validateKey_def HasPrefix_def)
qed

end
