(* ===== verification/Session.thy ===== *)
theory Session
  imports RaftAuth
begin

text \<open>
  Authentication: \<open>internal/service/session.go\<close> (signed session cookies and the session epoch) and
  \<open>internal/service/auth.go\<close> (which authentication providers are active, password checks, the
  bootstrap administrator). The lemmas show that a cookie decodes to the session it was made
  from until it expires, that only strings carrying the keyed signature decode, and what keeps
  at least one authentication provider configured.
\<close>

section \<open>Session tokens\<close>

record session_token =
  st_UserID :: string
  st_Username :: string
  st_Method :: string
  st_Provider :: string
  st_Issuer :: string
  st_Subject :: string
  st_ExpiresAt :: int
  st_Groups :: "string list"
  st_SessionID :: string
  st_AuthEpoch :: int

definition marshal_session :: "session_token \<Rightarrow> json" where
  "marshal_session t = JObj (
     jopt (st_UserID t \<noteq> []) ''user_id'' (JStr (st_UserID t)) (
     jopt (st_Username t \<noteq> []) ''username'' (JStr (st_Username t)) (
     jreq ''method'' (JStr (st_Method t)) (
     jopt (st_Provider t \<noteq> []) ''provider'' (JStr (st_Provider t)) (
     jopt (st_Issuer t \<noteq> []) ''issuer'' (JStr (st_Issuer t)) (
     jopt (st_Subject t \<noteq> []) ''subject'' (JStr (st_Subject t)) (
     jreq ''expires_at'' (JNum (st_ExpiresAt t)) (
     jopt (st_Groups t \<noteq> []) ''groups'' (JStrs (st_Groups t)) (
     jopt (st_SessionID t \<noteq> []) ''sid'' (JStr (st_SessionID t)) (
     jopt (st_AuthEpoch t \<noteq> 0) ''auth_epoch'' (JNum (st_AuthEpoch t)) []))))))))))"

definition unmarshal_session :: "json \<Rightarrow> session_token option" where
  "unmarshal_session d = do {
     fs \<leftarrow> jobj d;
     uid \<leftarrow> jstr fs ''user_id'';
     uname \<leftarrow> jstr fs ''username'';
     meth \<leftarrow> jstr fs ''method'';
     prov \<leftarrow> jstr fs ''provider'';
     iss \<leftarrow> jstr fs ''issuer'';
     sub \<leftarrow> jstr fs ''subject'';
     ex \<leftarrow> jint fs ''expires_at'';
     groups \<leftarrow> jstrs fs ''groups'';
     sid \<leftarrow> jstr fs ''sid'';
     epoch \<leftarrow> jint fs ''auth_epoch'';
     Some \<lparr>st_UserID = uid, st_Username = uname, st_Method = meth, st_Provider = prov, st_Issuer = iss,
       st_Subject = sub, st_ExpiresAt = ex, st_Groups = groups, st_SessionID = sid, st_AuthEpoch = epoch\<rparr> }"

definition sessionSecretKDFInfo :: string where
  "sessionSecretKDFInfo = ''gohookbridge.session.signing.v1''"

definition DeriveSessionSecret :: "crypto \<Rightarrow> string \<Rightarrow> string" where
  "DeriveSessionSecret C secret = hkdf_Read C secret [] sessionSecretKDFInfo 32"

definition MinSessionSecretLength :: nat where
  "MinSessionSecretLength = 32"

definition ValidateSessionSecret :: "string \<Rightarrow> error option" where
  "ValidateSessionSecret secret = (if secret = [] then None
     else if length secret < MinSessionSecretLength then Some (ErrMsg ''session_secret must be at least 32 characters'')
     else None)"

definition EncodeSession :: "crypto \<Rightarrow> session_token \<Rightarrow> string \<Rightarrow> string" where
  "EncodeSession C token secret =
     (let encoded = base64_RawURL_Encode (json_Marshal (marshal_session token));
          sig = base64_RawURL_Encode (hmac_Sum C secret encoded)
      in encoded @ ''.'' @ sig)"

definition DecodeSession :: "crypto \<Rightarrow> time \<Rightarrow> string \<Rightarrow> string \<Rightarrow> session_token result" where
  "DecodeSession C now tokenStr secret = (case SplitN2 CHR ''.'' tokenStr of
       None \<Rightarrow> Inl (ErrMsg ''invalid token format'')
     | Some (encoded, sigB64) \<Rightarrow>
         (let expectedSig = base64_RawURL_Encode (hmac_Sum C secret encoded) in
          if sigB64 \<noteq> expectedSig then Inl (ErrMsg ''invalid token signature'')
          else bindE (of_option (ErrMsg ''illegal base64 data'') (base64_RawURL_Decode encoded)) (\<lambda>data.
               bindE (of_option json_error (unmarshal_session (json_Unmarshal data))) (\<lambda>token.
               if st_ExpiresAt token < time_Unix now then Inl (ErrMsg ''token expired'')
               else Inr token))))"

definition svc_GetAuthEpoch :: "raft_store \<Rightarrow> int" where
  "svc_GetAuthEpoch rs = ok_or 0 (GetAuthEpoch rs)"

definition SessionEpochValid :: "raft_store \<Rightarrow> session_token option \<Rightarrow> bool" where
  "SessionEpochValid rs tok = (case tok of None \<Rightarrow> False | Some t \<Rightarrow> st_AuthEpoch t = svc_GetAuthEpoch rs)"

definition GenerateRandomHex :: "string option \<Rightarrow> string result" where
  "GenerateRandomHex rnd = bindE (of_option (ErrMsg ''generate random hex'') rnd) (\<lambda>b. Inr (hex_EncodeToString b))"

section \<open>Authentication providers\<close>

definition IsInternalAuthEnabled :: "raft_store \<Rightarrow> bool" where
  "IsInternalAuthEnabled rs = (case InternalAuthEnabled rs of
       Inr (Some flag) \<Rightarrow> flag
     | _ \<Rightarrow> length (ok_or [] (ListUsers rs)) > 0)"

definition svc_SetInternalAuthEnabled :: "crypto \<Rightarrow> raft_store \<Rightarrow> bool \<Rightarrow> error option \<times> raft_store" where
  "svc_SetInternalAuthEnabled C rs enabled =
     (if \<not> enabled then (case OIDCProviders C rs of
          Inl e \<Rightarrow> (Some e, rs)
        | Inr providers \<Rightarrow> (if length providers = 0 then (Some ErrInvalidArgument, rs)
                             else SetInternalAuthEnabled rs enabled))
      else SetInternalAuthEnabled rs enabled)"

definition ValidateAuthConfig :: "crypto \<Rightarrow> raft_store \<Rightarrow> error option" where
  "ValidateAuthConfig C rs = (case InternalAuthEnabled rs of
       Inl e \<Rightarrow> Some e
     | Inr flag \<Rightarrow> (if flag = Some False then (case OIDCProviders C rs of
           Inl e \<Rightarrow> Some e
         | Inr providers \<Rightarrow> (if length providers = 0 then Some ErrInvalidArgument else None))
        else None))"

definition BuildAuthConfig :: "crypto \<Rightarrow> raft_store \<Rightarrow> auth_config option" where
  "BuildAuthConfig C rs =
     (let users = ok_or [] (ListUsers rs);
          providers = ok_or [] (OIDCProviders C rs);
          hasInternal = (IsInternalAuthEnabled rs \<and> length users > 0);
          hasOIDC = (length providers > 0)
      in if \<not> hasInternal \<and> \<not> hasOIDC then None
         else Some \<lparr>ac_InternalEnabled = hasInternal,
                ac_Users = map (\<lambda>u. \<lparr>iu_Username = us_Username u, iu_PasswordHash = us_PasswordHash u\<rparr>) users,
                ac_OIDCEnabled = hasOIDC, ac_Providers = providers\<rparr>)"

definition ValidatePassword :: "crypto \<Rightarrow> string \<Rightarrow> string \<Rightarrow> bool" where
  "ValidatePassword C hash password = bcrypt_Compare C hash password"

definition IsSetupMode :: "raft_store \<Rightarrow> bool" where
  "IsSetupMode rs = (case ListUsers rs of Inl _ \<Rightarrow> True | Inr users \<Rightarrow> length users = 0)"

text \<open>\<open>salt\<close> is the randomness of \<open>bcrypt.GenerateFromPassword\<close>.\<close>

definition CreateDevAdmin :: "crypto \<Rightarrow> string \<Rightarrow> raft_store \<Rightarrow> string \<Rightarrow> error option \<times> raft_store" where
  "CreateDevAdmin C salt rs password =
     (if \<not> IsSetupMode rs then (None, rs)
      else (case bcrypt_Generate C password salt of
          None \<Rightarrow> (Some (ErrMsg ''bcrypt''), rs)
        | Some hash \<Rightarrow> CreateUser rs \<lparr>us_ID = ''admin'', us_Username = ''admin'', us_PasswordHash = hash,
            us_OIDCSubjects = [], us_ExternalIdentities = [], us_Roles = [''admin''], us_Channels = [''*'']\<rparr>))"

section \<open>Lemmas on sessions\<close>

lemma session_roundtrip: "unmarshal_session (marshal_session t) = Some t"
  by (simp add: marshal_session_def unmarshal_session_def json_simps)

interpretation session_json: codec marshal_session unmarshal_session "\<lambda>_. True"
  by unfold_locales (rule session_roundtrip)

lemma plain_session: "plain (marshal_session t)"
  unfolding marshal_session_def by (simp add: json_simps plain_JStrs del: plain.simps(2))

lemma DecodeSession_Inr:
  "DecodeSession C now s secret = Inr t \<longleftrightarrow>
     (\<exists>encoded data. s = encoded @ ''.'' @ base64_RawURL_Encode (hmac_Sum C secret encoded) \<and>
        CHR ''.'' \<notin> set encoded \<and> base64_RawURL_Decode encoded = Some data \<and>
        unmarshal_session (json_Unmarshal data) = Some t \<and> time_Unix now \<le> st_ExpiresAt t)"
proof
  assume "DecodeSession C now s secret = Inr t"
  then show "\<exists>encoded data. s = encoded @ ''.'' @ base64_RawURL_Encode (hmac_Sum C secret encoded) \<and>
        CHR ''.'' \<notin> set encoded \<and> base64_RawURL_Decode encoded = Some data \<and>
        unmarshal_session (json_Unmarshal data) = Some t \<and> time_Unix now \<le> st_ExpiresAt t"
    by (auto simp: DecodeSession_def Let_def of_option_def split: option.splits if_splits dest!: SplitN2_Some)
qed (auto simp: DecodeSession_def SplitN2_append)

lemma decode_encode_session:
  "DecodeSession C now (EncodeSession C t secret) secret =
     (if st_ExpiresAt t < time_Unix now then Inl (ErrMsg ''token expired'') else Inr t)"
  by (simp add: DecodeSession_def EncodeSession_def Let_def SplitN2_append url_no_dot RawURL_roundtrip
      json_roundtrip plain_session session_roundtrip)

lemma int64w_succ: "int64w (e + 1) \<noteq> e"
proof
  assume e: "int64w (e + 1) = e"
  then have r: "-9223372036854775808 \<le> e" "e < 9223372036854775808" using int64w_range [of "e + 1"] by simp_all
  show False
  proof (cases "e + 1 < 9223372036854775808")
    case True
    then show False using e r by (simp add: int64w_id)
  next
    case False
    then have "e = 9223372036854775807" using r by simp
    then show False using e by (simp add: int64w_def)
  qed
qed

section \<open>Lemmas on authentication providers\<close>

lemma InternalAuthEnabled_ready:
  "store_ready rs \<Longrightarrow> InternalAuthEnabled rs = (case kv_get (bucket rs) ''/global/auth/internal_enabled'' of
       None \<Rightarrow> Inr None
     | Some d \<Rightarrow> bindE (of_option json_error (dec_var False dec_bool d)) (\<lambda>b. Inr (Some b)))"
  by (simp add: InternalAuthEnabled_def get_ready)

lemma SetInternalAuthEnabled_ready:
  "store_ready rs \<Longrightarrow> SetInternalAuthEnabled rs b =
     (None, with_bucket rs (kv_put ''/global/auth/internal_enabled'' (JBool b) (bucket rs)))"
  by (simp add: SetInternalAuthEnabled_def applyCommand_set meta_keys)

lemma OIDCProviders_with:
  assumes "store_ready rs" "k \<noteq> ''/global/auth/oidc_providers''"
  shows "OIDCProviders C (with_bucket rs (kv_put k v (bucket rs))) = OIDCProviders C rs"
proof -
  have "store_ready (with_bucket rs (kv_put k v (bucket rs)))"
    using assms(1) by (simp add: store_ready_with kvm.wf_put bucket_wf)
  moreover have "open_providers C (with_bucket rs m) = open_providers C rs" for m
    by (rule ext) (rule open_providers_with)
  ultimately show ?thesis
    using assms by (simp add: OIDCProviders_def get_ready kvm.get_put split: option.split)
qed

lemma svc_SetInternalAuthEnabled_valid:
  assumes "store_ready rs" "svc_SetInternalAuthEnabled C rs b = (None, rs')"
  shows "ValidateAuthConfig C rs' = None" "InternalAuthEnabled rs' = Inr (Some b)" "store_ready rs'"
proof -
  have e: "rs' = with_bucket rs (kv_put ''/global/auth/internal_enabled'' (JBool b) (bucket rs))"
    and p: "\<not> b \<Longrightarrow> \<exists>ps. OIDCProviders C rs = Inr ps \<and> ps \<noteq> []"
    using assms SetInternalAuthEnabled_ready [OF assms(1)]
    by (auto simp: svc_SetInternalAuthEnabled_def split: if_splits sum.splits)
  show r: "store_ready rs'" using e assms(1) by (simp add: store_ready_with kvm.wf_put bucket_wf)
  then show i: "InternalAuthEnabled rs' = Inr (Some b)"
    using e by (simp add: InternalAuthEnabled_ready kvm.get_put dec_var_def)
  show "ValidateAuthConfig C rs' = None"
    using p i OIDCProviders_with [OF assms(1)] e by (cases b) (auto simp: ValidateAuthConfig_def)
qed

section \<open>Properties\<close>

definition demo_session :: session_token where
  "demo_session = \<lparr>st_UserID = ''bob'', st_Username = ''bob'', st_Method = ''internal'', st_Provider = [], st_Issuer = [],
     st_Subject = [], st_ExpiresAt = 9999999999, st_Groups = [], st_SessionID = ''s'', st_AuthEpoch = 0\<rparr>"

text \<open>C13: Session cookies are sound. A cookie decodes to the session it was made from, every field included,
  until its expiry time has passed, and is refused as expired from then on. And whatever string is
  accepted is a payload, a dot, and the encoded keyed signature of exactly that payload under the
  server's secret, where the payload encodes the returned session and has not expired.\<close>

theorem session_cookie_sound:
  "DecodeSession C now (EncodeSession C t secret) secret =
     (if st_ExpiresAt t < time_Unix now then Inl (ErrMsg ''token expired'') else Inr t) \<and>
   (DecodeSession C now s secret = Inr u \<longrightarrow>
     (\<exists>payload data. s = payload @ ''.'' @ base64_RawURL_Encode (hmac_Sum C secret payload) \<and>
        base64_RawURL_Decode payload = Some data \<and> unmarshal_session (json_Unmarshal data) = Some u \<and>
        time_Unix now \<le> st_ExpiresAt u))"
  unfolding DecodeSession_Inr decode_encode_session by blast

theorem session_cookie_sound_witness:
  "\<exists>payload. EncodeSession toy_crypto demo_session ''k'' = payload @ ''.'' @ base64_RawURL_Encode (hmac_Sum toy_crypto ''k'' payload)"
proof -
  have "DecodeSession toy_crypto 0 (EncodeSession toy_crypto demo_session ''k'') ''k'' = Inr demo_session"
    by (simp add: decode_encode_session demo_session_def time_Unix_def unix_epoch_def Second_def)
  then show ?thesis
    using session_cookie_sound [of toy_crypto 0 demo_session "''k''" "EncodeSession toy_crypto demo_session ''k''" demo_session]
    by blast
qed

text \<open>Bumping the session epoch revokes every outstanding session: on a ready store it succeeds, no
  session that was valid before is valid afterwards, and sessions issued with the new epoch are.\<close>

theorem epoch_bump_revokes_sessions:
  assumes "store_ready rs" "GetAuthEpoch rs = Inr e" "BumpAuthEpoch rs = (r, rs')"
  shows "r = None \<and> (\<forall>t. SessionEpochValid rs (Some t) \<longrightarrow> \<not> SessionEpochValid rs' (Some t)) \<and>
     (\<forall>t. st_AuthEpoch t = svc_GetAuthEpoch rs' \<longrightarrow> SessionEpochValid rs' (Some t))"
  using BumpAuthEpoch_ready(1,2) [OF assms] assms(2) int64w_succ [of e]
  by (auto simp: SessionEpochValid_def svc_GetAuthEpoch_def)

theorem epoch_bump_revokes_sessions_witness:
  "\<exists>rs'. BumpAuthEpoch demo_store = (None, rs') \<and> SessionEpochValid demo_store (Some demo_session) \<and>
     \<not> SessionEpochValid rs' (Some demo_session)"
proof -
  obtain r rs' where b: "BumpAuthEpoch demo_store = (r, rs')" by fastforce
  have e: "GetAuthEpoch demo_store = Inr 0" by (simp add: GetAuthEpoch_ready demo_store_ready)
  then have "SessionEpochValid demo_store (Some demo_session)"
    by (simp add: SessionEpochValid_def svc_GetAuthEpoch_def demo_session_def)
  then show ?thesis using epoch_bump_revokes_sessions [OF demo_store_ready(1) e b] b by blast
qed

text \<open>Internal authentication cannot be switched off when nothing else is configured: the service
  operation refuses without a change when there is no OIDC provider, and after every successful
  switch the stored authentication configuration is valid and holds the requested flag.\<close>

theorem auth_switch_keeps_a_provider:
  assumes "store_ready rs" "svc_SetInternalAuthEnabled C rs enabled = (r, rs')"
  shows "(OIDCProviders C rs = Inr [] \<longrightarrow> \<not> enabled \<longrightarrow> r = Some ErrInvalidArgument \<and> rs' = rs) \<and>
     (r = None \<longrightarrow> ValidateAuthConfig C rs' = None \<and> InternalAuthEnabled rs' = Inr (Some enabled))"
proof (intro conjI impI)
  assume "OIDCProviders C rs = Inr []" "\<not> enabled"
  then show "r = Some ErrInvalidArgument" "rs' = rs" using assms(2) by (simp_all add: svc_SetInternalAuthEnabled_def)
next
  assume "r = None"
  with assms show "ValidateAuthConfig C rs' = None" "InternalAuthEnabled rs' = Inr (Some enabled)"
    using svc_SetInternalAuthEnabled_valid by blast+
qed

theorem auth_switch_keeps_a_provider_witness:
  "svc_SetInternalAuthEnabled toy_crypto demo_store False = (Some ErrInvalidArgument, demo_store) \<and>
   ValidateAuthConfig toy_crypto (snd (svc_SetInternalAuthEnabled toy_crypto demo_store True)) = None"
proof -
  obtain r rs' where f: "svc_SetInternalAuthEnabled toy_crypto demo_store False = (r, rs')" by fastforce
  obtain r1 rs1 where t: "svc_SetInternalAuthEnabled toy_crypto demo_store True = (r1, rs1)" by fastforce
  have "OIDCProviders toy_crypto demo_store = Inr []" by (simp add: OIDCProviders_def get_ready demo_store_ready)
  moreover have "r1 = None"
    using t SetInternalAuthEnabled_ready [OF demo_store_ready(1)] by (simp add: svc_SetInternalAuthEnabled_def)
  ultimately show ?thesis
    using auth_switch_keeps_a_provider [OF demo_store_ready(1) f] auth_switch_keeps_a_provider [OF demo_store_ready(1) t] f t
    by simp
qed

end
