(* ===== verification/Authorization.thy ===== *)
theory Authorization
  imports Session
begin

text \<open>
  The authorisation core \<open>internal/service/authorization.go\<close>: which account a session speaks for,
  and which permissions an account holds through its own roles, role mappings, channel ACLs and
  channel ownership. \<open>None\<close> is the nil principal. The lemmas characterise every decision
  declaratively.
\<close>

section \<open>Principals\<close>

definition normalizeIssuer :: "string \<Rightarrow> string" where
  "normalizeIssuer issuer = TrimSuffix issuer ''/''"

definition ok :: "'a result \<Rightarrow> 'a option" where
  "ok r = (case r of Inl _ \<Rightarrow> None | Inr x \<Rightarrow> Some x)"

definition ResolvePrincipal :: "raft_store \<Rightarrow> session_token option \<Rightarrow> user option" where
  "ResolvePrincipal rs tok = (case tok of None \<Rightarrow> None
     | Some t \<Rightarrow>
         (if st_Method t = ''oidc'' then
            ok (GetUserByExternalIdentity rs (st_Provider t) (normalizeIssuer (st_Issuer t)) (st_Subject t))
          else (case (if st_UserID t \<noteq> [] then ok (GetUser rs (st_UserID t)) else None) of
              Some u \<Rightarrow> Some u
            | None \<Rightarrow> (if st_Username t = [] then None else ok (GetUserByUsername rs (st_Username t))))))"

definition ResolvePrincipalByUsername :: "raft_store \<Rightarrow> string \<Rightarrow> user option" where
  "ResolvePrincipalByUsername rs username = (if username = [] then None
     else (case GetUserByUsername rs username of
         Inr u \<Rightarrow> Some u
       | Inl _ \<Rightarrow> ok (GetUser rs username)))"

section \<open>Permission checks\<close>

definition hasChannelAccessList :: "string list \<Rightarrow> string \<Rightarrow> bool" where
  "hasChannelAccessList userChannels channelID = list_ex (\<lambda>ch. ch = ''*'' \<or> ch = channelID) userChannels"

text \<open>The two nested loops: a permission entry either grants, or the search continues.\<close>

fun role_entries_grant :: "user \<Rightarrow> permission \<Rightarrow> string \<Rightarrow> string list \<Rightarrow> bool" where
  "role_entries_grant user perm channelID [] = False"
| "role_entries_grant user perm channelID (p # ps) =
     (if p = perm \<or> p = ''*'' then
        (if HasPrefix perm ''channel:'' \<and> channelID \<noteq> [] then
           (if hasChannelAccessList (us_Channels user) channelID then True
            else role_entries_grant user perm channelID ps)
         else if p = ''*'' \<and> channelID \<noteq> [] then
           (if hasChannelAccessList (us_Channels user) channelID then True
            else role_entries_grant user perm channelID ps)
         else True)
      else role_entries_grant user perm channelID ps)"

fun checkGlobalRoles :: "raft_store \<Rightarrow> user \<Rightarrow> permission \<Rightarrow> string \<Rightarrow> string list \<Rightarrow> bool" where
  "checkGlobalRoles rs user perm channelID [] = False"
| "checkGlobalRoles rs user perm channelID (roleName # rest) = (case GetRole rs roleName of
       Inl _ \<Rightarrow> checkGlobalRoles rs user perm channelID rest
     | Inr role \<Rightarrow> (if role_entries_grant user perm channelID (ro_Permissions role) then True
                    else checkGlobalRoles rs user perm channelID rest))"

definition checkGlobalRolePermissions :: "raft_store \<Rightarrow> user \<Rightarrow> permission \<Rightarrow> string \<Rightarrow> bool" where
  "checkGlobalRolePermissions rs user perm channelID = checkGlobalRoles rs user perm channelID (us_Roles user)"

definition mappingMatchesUser :: "role_mapping \<Rightarrow> user \<Rightarrow> string list \<Rightarrow> bool" where
  "mappingMatchesUser m user groups =
     (if rm_Type m = ''user'' then rm_Subject m = us_ID user \<or> rm_Subject m = us_Username user
      else if rm_Type m = ''group'' then rm_Subject m \<in> set groups
      else False)"

definition channelACLMatchesUser :: "channel_role_mapping \<Rightarrow> user \<Rightarrow> string list \<Rightarrow> bool" where
  "channelACLMatchesUser a user groups =
     (if cm_Type a = ''user'' then cm_Subject a = us_ID user \<or> cm_Subject a = us_Username user
      else if cm_Type a = ''group'' then cm_Subject a \<in> set groups
      else False)"

fun mapping_entries_grant :: "role_mapping \<Rightarrow> permission \<Rightarrow> string \<Rightarrow> string list \<Rightarrow> bool" where
  "mapping_entries_grant m perm channelID [] = False"
| "mapping_entries_grant m perm channelID (p # ps) =
     (if p \<noteq> perm \<and> p \<noteq> ''*'' then mapping_entries_grant m perm channelID ps
      else if channelID = [] then
        (if rm_ChannelScope m = ''*'' then True else mapping_entries_grant m perm channelID ps)
      else if rm_ChannelScope m = ''*'' \<or> rm_ChannelScope m = channelID then True
      else mapping_entries_grant m perm channelID ps)"

fun checkMappings :: "raft_store \<Rightarrow> user \<Rightarrow> permission \<Rightarrow> string \<Rightarrow> string list \<Rightarrow> role_mapping list \<Rightarrow> bool" where
  "checkMappings rs user perm channelID groups [] = False"
| "checkMappings rs user perm channelID groups (m # ms) =
     (if \<not> mappingMatchesUser m user groups then checkMappings rs user perm channelID groups ms
      else (case GetRole rs (rm_Role m) of
          Inl _ \<Rightarrow> checkMappings rs user perm channelID groups ms
        | Inr role \<Rightarrow> (if mapping_entries_grant m perm channelID (ro_Permissions role) then True
                       else checkMappings rs user perm channelID groups ms)))"

definition checkRoleMappingPermissions :: "raft_store \<Rightarrow> user \<Rightarrow> permission \<Rightarrow> string \<Rightarrow> string list \<Rightarrow> bool" where
  "checkRoleMappingPermissions rs user perm channelID groups = (case ListRoleMappings rs of
       Inl _ \<Rightarrow> False
     | Inr mappings \<Rightarrow> checkMappings rs user perm channelID groups mappings)"

definition roleLevel :: "string \<Rightarrow> nat" where
  "roleLevel role = (if role = ''owner'' then 3 else if role = ''write'' then 2
     else if role = ''read'' then 1 else 0)"

definition checkChannelRoleMappingPermissions :: "raft_store \<Rightarrow> user \<Rightarrow> permission \<Rightarrow> string \<Rightarrow> string list \<Rightarrow> bool" where
  "checkChannelRoleMappingPermissions rs user perm channelID groups = (case ListChannelRoleMappings rs channelID of
       Inl _ \<Rightarrow> False
     | Inr acls \<Rightarrow> (let requiredLevel = (if perm = PermChannelWrite then 2 else 1)
         in list_ex (\<lambda>a. channelACLMatchesUser a user groups \<and> roleLevel (cm_Role a) \<ge> requiredLevel) acls))"

definition isChannelCreator :: "crypto \<Rightarrow> raft_store \<Rightarrow> user \<Rightarrow> string \<Rightarrow> bool" where
  "isChannelCreator C rs user channelID = (case GetChannel C rs channelID of
       Inl _ \<Rightarrow> False
     | Inr ch \<Rightarrow> ch_CreatedBy ch = us_ID user \<or> ch_CreatedBy ch = us_Username user)"

definition UserHasPermission :: "crypto \<Rightarrow> raft_store \<Rightarrow> user option \<Rightarrow> string list \<Rightarrow> permission \<Rightarrow> string \<Rightarrow> bool" where
  "UserHasPermission C rs user groups perm channelID = (case user of None \<Rightarrow> False
     | Some u \<Rightarrow>
         (if checkGlobalRolePermissions rs u perm channelID then True
          else if checkRoleMappingPermissions rs u perm channelID groups then True
          else if channelID \<noteq> [] \<and> HasPrefix perm ''channel:'' then
            (if (perm = PermChannelWrite \<or> perm = PermChannelRead) \<and>
                checkChannelRoleMappingPermissions rs u perm channelID groups then True
             else isChannelCreator C rs u channelID)
          else False))"

section \<open>Channel visibility\<close>

definition allChannels :: "crypto \<Rightarrow> raft_store \<Rightarrow> string list result" where
  "allChannels C rs = bindE (ListChannels C rs) (\<lambda>chs. Inr (map ch_ID chs))"

definition role_has_wildcard :: "raft_store \<Rightarrow> string \<Rightarrow> bool" where
  "role_has_wildcard rs roleName = (case GetRole rs roleName of
       Inl _ \<Rightarrow> False | Inr role \<Rightarrow> ''*'' \<in> set (ro_Permissions role))"

text \<open>The keys of the \<open>channelSet\<close> map, in one of the orders a \<open>range\<close> may take.\<close>

definition UserChannels :: "crypto \<Rightarrow> raft_store \<Rightarrow> user option \<Rightarrow> string list \<Rightarrow> string list result" where
  "UserChannels C rs user groups = (case user of None \<Rightarrow> Inr []
     | Some u \<Rightarrow>
         (if list_ex (role_has_wildcard rs) (us_Roles u) then allChannels C rs
          else if list_ex (\<lambda>m. mappingMatchesUser m u groups \<and> role_has_wildcard rs (rm_Role m))
                    (ok_or [] (ListRoleMappings rs)) then allChannels C rs
          else Inr (remdups (us_Channels u @
            map ch_ID (filter (\<lambda>ch. isChannelCreator C rs u (ch_ID ch) \<or>
                list_ex (\<lambda>a. channelACLMatchesUser a u groups) (ok_or [] (ListChannelRoleMappings rs (ch_ID ch))))
              (ok_or [] (ListChannels C rs)))))))"

definition IsAdmin :: "crypto \<Rightarrow> raft_store \<Rightarrow> user option \<Rightarrow> string list \<Rightarrow> bool" where
  "IsAdmin C rs user groups = UserHasPermission C rs user groups ''*'' []"

definition HasChannelAccess :: "string list \<Rightarrow> string \<Rightarrow> bool" where
  "HasChannelAccess userChannels channelID = hasChannelAccessList userChannels channelID"

section \<open>Delegation\<close>

definition role_perms :: "raft_store \<Rightarrow> string \<Rightarrow> string list" where
  "role_perms rs roleName = (case GetRole rs roleName of Inl _ \<Rightarrow> [] | Inr role \<Rightarrow> ro_Permissions role)"

text \<open>The set of keys of the \<open>perms\<close> map, as a list.\<close>

definition EffectivePermissions :: "raft_store \<Rightarrow> user option \<Rightarrow> string list \<Rightarrow> string list" where
  "EffectivePermissions rs user groups = (case user of None \<Rightarrow> []
     | Some u \<Rightarrow> concat (map (role_perms rs) (us_Roles u)) @
         concat (map (\<lambda>m. role_perms rs (rm_Role m))
           (filter (\<lambda>m. mappingMatchesUser m u groups) (ok_or [] (ListRoleMappings rs)))))"

definition GetUserPermissions :: "raft_store \<Rightarrow> user option \<Rightarrow> string list \<Rightarrow> string list" where
  "GetUserPermissions rs user groups = remdups (EffectivePermissions rs user groups)"

definition canAssignRole :: "raft_store \<Rightarrow> user option \<Rightarrow> string list \<Rightarrow> string \<Rightarrow> bool" where
  "canAssignRole rs actor actorGroups roleName = (case GetRole rs roleName of
       Inl _ \<Rightarrow> False
     | Inr role \<Rightarrow> (let actorPerms = EffectivePermissions rs actor actorGroups
         in list_all (\<lambda>p. if p = ''*'' then ''*'' \<in> set actorPerms
                          else ''*'' \<in> set actorPerms \<or> p \<in> set actorPerms) (ro_Permissions role)))"

definition CanAssignRoles :: "raft_store \<Rightarrow> user option \<Rightarrow> string list \<Rightarrow> string list \<Rightarrow> string \<Rightarrow> bool" where
  "CanAssignRoles rs actor actorGroups roles channelScope = (case actor of None \<Rightarrow> False
     | Some a \<Rightarrow>
         (if \<not> list_all (canAssignRole rs actor actorGroups) roles then False
          else if channelScope \<noteq> [] \<and> channelScope \<noteq> ''*'' \<and> \<not> hasChannelAccessList (us_Channels a) channelScope
          then False else True))"

definition CanAssignChannels :: "user option \<Rightarrow> string list \<Rightarrow> bool" where
  "CanAssignChannels actor channels = (case actor of None \<Rightarrow> False
     | Some a \<Rightarrow> list_all (hasChannelAccessList (us_Channels a)) channels)"

definition HasChannelRole :: "crypto \<Rightarrow> raft_store \<Rightarrow> user option \<Rightarrow> string list \<Rightarrow> string \<Rightarrow> string \<Rightarrow> bool" where
  "HasChannelRole C rs user groups channelID role = (case user of None \<Rightarrow> False
     | Some u \<Rightarrow> (let requiredLevel = roleLevel role in
         if isChannelCreator C rs u channelID \<and> requiredLevel \<le> 3 then True
         else (case ListChannelRoleMappings rs channelID of
             Inl _ \<Rightarrow> False
           | Inr acls \<Rightarrow> list_ex (\<lambda>a. channelACLMatchesUser a u groups \<and> roleLevel (cm_Role a) \<ge> requiredLevel) acls)))"

section \<open>Declarative characterisation\<close>

lemma role_entries_grant_iff:
  "role_entries_grant u perm c ps \<longleftrightarrow> (\<exists>p \<in> set ps. (p = perm \<or> p = ''*'') \<and>
     (c \<noteq> [] \<and> (HasPrefix perm ''channel:'' \<or> p = ''*'') \<longrightarrow> hasChannelAccessList (us_Channels u) c))"
  by (induction ps) auto

lemma checkGlobalRoles_iff:
  "checkGlobalRoles rs u perm c rns \<longleftrightarrow>
     (\<exists>rn \<in> set rns. \<exists>role. GetRole rs rn = Inr role \<and> role_entries_grant u perm c (ro_Permissions role))"
  by (induction rns) (auto split: sum.splits)

lemma mapping_entries_grant_iff:
  "mapping_entries_grant m perm c ps \<longleftrightarrow> (perm \<in> set ps \<or> ''*'' \<in> set ps) \<and>
     (rm_ChannelScope m = ''*'' \<or> c \<noteq> [] \<and> rm_ChannelScope m = c)"
  by (induction ps) auto

lemma checkMappings_iff:
  "checkMappings rs u perm c groups ms \<longleftrightarrow> (\<exists>m \<in> set ms. mappingMatchesUser m u groups \<and>
     (\<exists>role. GetRole rs (rm_Role m) = Inr role \<and> mapping_entries_grant m perm c (ro_Permissions role)))"
  by (induction ms) (auto split: sum.splits)

text \<open>The four grounds on which access is granted.\<close>

definition own_role_grants :: "raft_store \<Rightarrow> user \<Rightarrow> permission \<Rightarrow> string \<Rightarrow> bool" where
  "own_role_grants rs u perm c \<longleftrightarrow> (\<exists>rn \<in> set (us_Roles u). \<exists>role. GetRole rs rn = Inr role \<and>
     (\<exists>p \<in> set (ro_Permissions role). (p = perm \<or> p = ''*'') \<and>
       (c \<noteq> [] \<and> (HasPrefix perm ''channel:'' \<or> p = ''*'') \<longrightarrow> hasChannelAccessList (us_Channels u) c)))"

definition mapping_grants :: "raft_store \<Rightarrow> user \<Rightarrow> string list \<Rightarrow> permission \<Rightarrow> string \<Rightarrow> bool" where
  "mapping_grants rs u groups perm c \<longleftrightarrow> (\<exists>ms. ListRoleMappings rs = Inr ms \<and> (\<exists>m \<in> set ms.
     mappingMatchesUser m u groups \<and> (rm_ChannelScope m = ''*'' \<or> c \<noteq> [] \<and> rm_ChannelScope m = c) \<and>
     (\<exists>role. GetRole rs (rm_Role m) = Inr role \<and>
       (perm \<in> set (ro_Permissions role) \<or> ''*'' \<in> set (ro_Permissions role)))))"

definition acl_grants :: "raft_store \<Rightarrow> user \<Rightarrow> string list \<Rightarrow> permission \<Rightarrow> string \<Rightarrow> bool" where
  "acl_grants rs u groups perm c \<longleftrightarrow> c \<noteq> [] \<and> (perm = PermChannelWrite \<or> perm = PermChannelRead) \<and>
     (\<exists>acls. ListChannelRoleMappings rs c = Inr acls \<and> (\<exists>a \<in> set acls. channelACLMatchesUser a u groups \<and>
        (if perm = PermChannelWrite then cm_Role a \<in> {''write'', ''owner''}
         else cm_Role a \<in> {''read'', ''write'', ''owner''})))"

definition creator_grants :: "crypto \<Rightarrow> raft_store \<Rightarrow> user \<Rightarrow> permission \<Rightarrow> string \<Rightarrow> bool" where
  "creator_grants C rs u perm c \<longleftrightarrow> HasPrefix perm ''channel:'' \<and>
     (\<exists>ch. GetChannel C rs c = Inr ch \<and> (ch_CreatedBy ch = us_ID u \<or> ch_CreatedBy ch = us_Username u))"

lemma roleLevel_write: "2 \<le> roleLevel r \<longleftrightarrow> r \<in> {''write'', ''owner''}"
  by (auto simp: roleLevel_def)

lemma roleLevel_read: "1 \<le> roleLevel r \<longleftrightarrow> r \<in> {''read'', ''write'', ''owner''}"
  by (auto simp: roleLevel_def)

lemma checkGlobal_grants: "checkGlobalRolePermissions rs u perm c \<longleftrightarrow> own_role_grants rs u perm c"
  by (simp add: checkGlobalRolePermissions_def checkGlobalRoles_iff role_entries_grant_iff own_role_grants_def)

lemma checkMapping_grants: "checkRoleMappingPermissions rs u perm c groups \<longleftrightarrow> mapping_grants rs u groups perm c"
  by (auto simp: checkRoleMappingPermissions_def checkMappings_iff mapping_entries_grant_iff mapping_grants_def
      split: sum.splits)

lemma checkACL_grants:
  "c \<noteq> [] \<Longrightarrow> perm = PermChannelWrite \<or> perm = PermChannelRead \<Longrightarrow>
     checkChannelRoleMappingPermissions rs u perm c groups \<longleftrightarrow> acl_grants rs u groups perm c"
  by (auto simp: checkChannelRoleMappingPermissions_def acl_grants_def list_ex_iff roleLevel_write
      roleLevel_read [unfolded One_nat_def] PermChannelWrite_def PermChannelRead_def split: sum.splits)

lemma GetChannel_empty: "GetChannel C rs [] = Inl ErrInvalidArgument"
  by (simp add: GetChannel_def)

lemma isChannelCreator_grants:
  "HasPrefix perm ''channel:'' \<Longrightarrow> isChannelCreator C rs u c \<longleftrightarrow> creator_grants C rs u perm c"
  by (auto simp: isChannelCreator_def creator_grants_def split: sum.splits)

lemma channel_perm_prefix: "HasPrefix PermChannelWrite ''channel:''" "HasPrefix PermChannelRead ''channel:''"
  by (simp_all add: PermChannelWrite_def PermChannelRead_def HasPrefix_def)

lemma UserHasPermission_grounds:
  "UserHasPermission C rs (Some u) groups perm c \<longleftrightarrow>
     own_role_grants rs u perm c \<or> mapping_grants rs u groups perm c \<or>
     acl_grants rs u groups perm c \<or> creator_grants C rs u perm c"
proof (cases "c \<noteq> [] \<and> HasPrefix perm ''channel:''")
  case True
  have "acl_grants rs u groups perm c \<longleftrightarrow> (perm = PermChannelWrite \<or> perm = PermChannelRead) \<and>
      checkChannelRoleMappingPermissions rs u perm c groups"
    using checkACL_grants [of c perm rs u groups] True unfolding acl_grants_def by blast
  then show ?thesis
    using True by (auto simp: UserHasPermission_def checkGlobal_grants checkMapping_grants isChannelCreator_grants)
next
  case False
  then have "\<not> acl_grants rs u groups perm c" "\<not> creator_grants C rs u perm c"
    using channel_perm_prefix by (auto simp: acl_grants_def creator_grants_def GetChannel_empty)
  with False show ?thesis by (auto simp: UserHasPermission_def checkGlobal_grants checkMapping_grants)
qed

lemma EffectivePermissions_set:
  "set (EffectivePermissions rs (Some u) groups) =
     {p. \<exists>rn. (rn \<in> set (us_Roles u) \<or> (\<exists>m \<in> set (ok_or [] (ListRoleMappings rs)).
          mappingMatchesUser m u groups \<and> rm_Role m = rn)) \<and> p \<in> set (role_perms rs rn)}"
  by (auto simp: EffectivePermissions_def)

section \<open>Properties\<close>

text \<open>A store with an administrator role mapped to \<open>bob\<close> for the channel \<open>c1\<close> only, and an account linked
  to an OIDC identity.\<close>

definition demo_mapping :: role_mapping where
  "demo_mapping = \<lparr>rm_ID = ''m1'', rm_Type = ''user'', rm_Subject = ''bob'', rm_Role = ''admin'', rm_ChannelScope = ''c1''\<rparr>"

definition demo_linked :: user where
  "demo_linked = (demo_user ''carol'' ''carol'')\<lparr>us_ExternalIdentities :=
     [\<lparr>ei_ProviderID = ''idp'', ei_Issuer = ''https://idp'', ei_Subject = ''42''\<rparr>]\<rparr>"

definition demo_rbac :: raft_store where
  "demo_rbac = with_bucket demo_store
     [(''/rbac/mappings/m1/'', marshal_role_mapping demo_mapping),
      (''/users/carol/'', marshal_user demo_linked)]"

lemma demo_rbac_ready: "store_ready demo_rbac"
  unfolding demo_rbac_def by (rule store_ready_with) (simp_all add: demo_store_ready kv_wf_def)

lemma demo_rbac_get: "getFSMValue (rs_db demo_rbac) k = Inr (kv_get
     [(''/rbac/mappings/m1/'', marshal_role_mapping demo_mapping), (''/users/carol/'', marshal_user demo_linked)] k)"
  by (simp add: get_ready [OF demo_rbac_ready]) (simp add: demo_rbac_def)

lemma demo_rbac_keys: "listFSMKeys (rs_db demo_rbac) p = Inr (filter (prefix p) [''/rbac/mappings/m1/'', ''/users/carol/''])"
  by (simp add: keys_ready [OF demo_rbac_ready]) (simp add: demo_rbac_def kv_keys_def)

lemma demo_rbac_lists: "ListRoleMappings demo_rbac = Inr [demo_mapping]" "ListUsers demo_rbac = Inr [demo_linked]"
  by (simp_all add: ListRoleMappings_def ListUsers_def demo_rbac_keys segment_def TrimPrefix_def demo_rbac_get
      kv_get_Cons role_mapping_roundtrip user_roundtrip userKey_def)

lemma demo_rbac_admin: "GetRole demo_rbac ''admin'' = Inr \<lparr>ro_Name = ''admin'', ro_Permissions = [''*'']\<rparr>"
  by (simp add: GetRole_def demo_rbac_get roleKey_def kv_get_Cons DefaultRoles_def)

text \<open>C5: The access decision is exactly the disjunction of four grounds, and nobody is let in without a
  principal: a role the user holds itself (restricted to its channel list for channel permissions
  and for wildcard roles), a role mapped to the user or one of its groups (globally, or for the
  requested channel only), an entry of the channel's access list of sufficient level, or having
  created the channel.\<close>

theorem permission_grounds:
  "\<not> UserHasPermission C rs None groups perm c \<and>
   (UserHasPermission C rs (Some u) groups perm c \<longleftrightarrow>
     own_role_grants rs u perm c \<or> mapping_grants rs u groups perm c \<or>
     acl_grants rs u groups perm c \<or> creator_grants C rs u perm c)"
  using UserHasPermission_grounds by (simp add: UserHasPermission_def)

text \<open>Delegation cannot create permissions: who may assign a set of roles holds every permission of
  each of them, or the wildcard, and a scope that names a channel lies within the actor's own
  channels. A role that does not exist cannot be assigned.\<close>

theorem assignable_roles_are_held:
  assumes "CanAssignRoles rs (Some a) groups roles scope"
  shows "(\<forall>rn \<in> set roles. \<exists>role. GetRole rs rn = Inr role \<and>
       (''*'' \<in> set (EffectivePermissions rs (Some a) groups) \<or>
        set (ro_Permissions role) \<subseteq> set (EffectivePermissions rs (Some a) groups))) \<and>
     (scope = [] \<or> scope = ''*'' \<or> hasChannelAccessList (us_Channels a) scope)"
proof -
  have "\<exists>role. GetRole rs rn = Inr role \<and> (''*'' \<in> set (EffectivePermissions rs (Some a) groups) \<or>
      set (ro_Permissions role) \<subseteq> set (EffectivePermissions rs (Some a) groups))"
    if "canAssignRole rs (Some a) groups rn" for rn
    using that by (auto simp: canAssignRole_def list_all_iff split: sum.splits if_splits)
  then show ?thesis using assms by (auto simp: CanAssignRoles_def list_all_iff split: if_splits)
qed

theorem assignable_roles_are_held_witness:
  "CanAssignRoles demo_rbac (Some ((demo_user ''ann'' ''ann'')\<lparr>us_Roles := [''admin'']\<rparr>)) [] [''admin''] [] \<and>
   (''*'' \<in> set (EffectivePermissions demo_rbac (Some ((demo_user ''ann'' ''ann'')\<lparr>us_Roles := [''admin'']\<rparr>)) []))"
proof -
  have c: "CanAssignRoles demo_rbac (Some ((demo_user ''ann'' ''ann'')\<lparr>us_Roles := [''admin'']\<rparr>)) [] [''admin''] []"
    by (simp add: CanAssignRoles_def canAssignRole_def demo_rbac_admin EffectivePermissions_def role_perms_def)
  then show ?thesis using assignable_roles_are_held [OF c] by (auto simp: demo_rbac_admin)
qed

text \<open>A session of the OIDC method speaks only for an account that is linked to the identity it
  carries: provider, normalised issuer and subject are all present and equal to those of one of
  the account's external identities. The user identifier and the name in the session play no role.\<close>

theorem oidc_principal_is_linked:
  assumes "store_ready rs" "st_Method t = ''oidc''" "ResolvePrincipal rs (Some t) = Some u"
  shows "(\<exists>i. GetUser rs i = Inr u) \<and> st_Provider t \<noteq> [] \<and> st_Subject t \<noteq> [] \<and>
     (\<exists>x \<in> set (us_ExternalIdentities u). ei_ProviderID x = st_Provider t \<and>
        ei_Issuer x = normalizeIssuer (st_Issuer t) \<and> ei_Subject x = st_Subject t) \<and>
     ResolvePrincipal rs (Some (t\<lparr>st_UserID := uid, st_Username := name\<rparr>)) = Some u"
proof -
  have g: "GetUserByExternalIdentity rs (st_Provider t) (normalizeIssuer (st_Issuer t)) (st_Subject t) = Inr u"
    using assms(2,3) by (auto simp: ResolvePrincipal_def ok_def split: sum.splits)
  then obtain us where us: "ListUsers rs = Inr us" and n: "st_Provider t \<noteq> []" "st_Subject t \<noteq> []"
    and f: "find (\<lambda>u. list_ex (\<lambda>i. ei_ProviderID i = st_Provider t \<and> ei_Issuer i = normalizeIssuer (st_Issuer t) \<and>
      ei_Subject i = st_Subject t) (us_ExternalIdentities u)) us = Some u"
    by (auto simp: GetUserByExternalIdentity_def bindE_Inr_iff of_option_def split: if_splits option.splits)
  have "u \<in> set us" "list_ex (\<lambda>i. ei_ProviderID i = st_Provider t \<and> ei_Issuer i = normalizeIssuer (st_Issuer t) \<and>
      ei_Subject i = st_Subject t) (us_ExternalIdentities u)"
    using f by (auto simp: find_Some_iff)
  moreover have "ResolvePrincipal rs (Some (t\<lparr>st_UserID := uid, st_Username := name\<rparr>)) = Some u"
    using assms(2) g by (simp add: ResolvePrincipal_def ok_def)
  ultimately show ?thesis using n ListUsers_set [OF ready_reads [OF assms(1)] us] by (auto simp: list_ex_iff)
qed

theorem oidc_principal_is_linked_witness:
  "ResolvePrincipal demo_rbac (Some (demo_session\<lparr>st_Method := ''oidc'', st_Provider := ''idp'', st_Issuer := ''https://idp/'',
     st_Subject := ''42'', st_UserID := ''admin'', st_Username := ''admin''\<rparr>)) = Some demo_linked"
proof -
  let ?t = "demo_session\<lparr>st_Method := ''oidc'', st_Provider := ''idp'', st_Issuer := ''https://idp/'', st_Subject := ''42''\<rparr>"
  have r: "ResolvePrincipal demo_rbac (Some ?t) = Some demo_linked"
    by (simp add: ResolvePrincipal_def GetUserByExternalIdentity_def demo_rbac_lists normalizeIssuer_def TrimSuffix_def
        HasSuffix_def suffix_def demo_linked_def ok_def of_option_def)
  then show ?thesis
    using oidc_principal_is_linked [OF demo_rbac_ready _ r, of "''admin''" "''admin''"] by simp
qed

text \<open>Delegation ignores the scope of the actor's mappings: a role that is mapped to the actor for a
  single channel may be assigned by it with the global scope \<open>*\<close>, even where the actor itself holds
  none of the role's permissions outside that channel.\<close>

theorem scoped_role_assignable_globally:
  assumes "ListRoleMappings rs = Inr ms" "m \<in> set ms" "mappingMatchesUser m a groups" "GetRole rs (rm_Role m) = Inr role"
  shows "CanAssignRoles rs (Some a) groups [rm_Role m] ''*''"
proof -
  have "set (ro_Permissions role) \<subseteq> set (EffectivePermissions rs (Some a) groups)"
    using assms by (auto simp: EffectivePermissions_def role_perms_def)
  then have "canAssignRole rs (Some a) groups (rm_Role m)"
    using assms(4) by (auto simp: canAssignRole_def list_all_iff Let_def)
  then show ?thesis by (simp add: CanAssignRoles_def)
qed

theorem scoped_role_assignable_globally_witness:
  "CanAssignRoles demo_rbac (Some (demo_user ''bob'' ''bob'')) [] [''admin''] ''*'' \<and>
   \<not> UserHasPermission toy_crypto demo_rbac (Some (demo_user ''bob'' ''bob'')) [] PermUsersWrite []"
proof
  show "CanAssignRoles demo_rbac (Some (demo_user ''bob'' ''bob'')) [] [''admin''] ''*''"
    using scoped_role_assignable_globally [OF demo_rbac_lists(1), of demo_mapping "demo_user ''bob'' ''bob''" "[]"]
    by (simp add: demo_mapping_def mappingMatchesUser_def demo_keys demo_rbac_admin)
  show "\<not> UserHasPermission toy_crypto demo_rbac (Some (demo_user ''bob'' ''bob'')) [] PermUsersWrite []"
    by (simp add: UserHasPermission_def checkGlobalRolePermissions_def checkRoleMappingPermissions_def demo_rbac_lists
        demo_mapping_def demo_user_def mappingMatchesUser_def demo_rbac_admin)
qed

end
