(* ===== verification/ChannelService.thy ===== *)
theory ChannelService
  imports Authorization
begin

text \<open>
  Channel services: \<open>internal/service/channel.go\<close> (resolving a channel's effective settings,
  protected channels), the operations of \<open>internal/service/repository.go\<close> that do more than pass
  a call on, and \<open>internal/service/token.go\<close> (channel access tokens).
\<close>

section \<open>Effective settings\<close>

definition globalOrFail :: "crypto \<Rightarrow> raft_store \<Rightarrow> global_config result" where
  "globalOrFail C rs = GetGlobalConfig C rs"

definition ResolveChannelConfig :: "crypto \<Rightarrow> raft_store \<Rightarrow> string \<Rightarrow> channel result" where
  "ResolveChannelConfig C rs i = (case GetChannel C rs i of
       Inl err \<Rightarrow> (if err \<noteq> ErrNotFound then Inl err
         else bindE (globalOrFail C rs) (\<lambda>global.
           if sc_RequireKnownChannels (gc_Server global) then Inl ErrNotFound
           else Inr (zero_channel\<lparr>ch_ID := i,
                  ch_MaxBodySize := sc_MaxBodySize (gc_Server global),
                  ch_WebhookSecret := dc_WebhookSecret (gc_Defaults global),
                  ch_AllowedIPs := dc_AllowedIPs (gc_Defaults global),
                  ch_MessageTTLSeconds := dc_MessageTTLSeconds (gc_Defaults global)\<rparr>)))
     | Inr ch \<Rightarrow> bindE (globalOrFail C rs) (\<lambda>global. Inr (domain_ResolveChannelConfig ch global)))"

definition ResolveChannelWebhookSecret :: "crypto \<Rightarrow> raft_store \<Rightarrow> string \<Rightarrow> string result" where
  "ResolveChannelWebhookSecret C rs i = (case GetChannel C rs i of
       Inl err \<Rightarrow> (if err \<noteq> ErrNotFound then Inl err
         else bindE (globalOrFail C rs) (\<lambda>global. Inr (dc_WebhookSecret (gc_Defaults global))))
     | Inr p0 \<Rightarrow> (let p = MigrateChannel p0 in
         if ch_WebhookSecret p \<noteq> [] then Inr (ch_WebhookSecret p)
         else bindE (globalOrFail C rs) (\<lambda>global. Inr (dc_WebhookSecret (gc_Defaults global)))))"

definition ResolveChannelAllowedIPs :: "crypto \<Rightarrow> raft_store \<Rightarrow> string \<Rightarrow> string list result" where
  "ResolveChannelAllowedIPs C rs i = (case GetChannel C rs i of
       Inl err \<Rightarrow> (if err \<noteq> ErrNotFound then Inl err
         else bindE (globalOrFail C rs) (\<lambda>global. Inr (dc_AllowedIPs (gc_Defaults global))))
     | Inr p \<Rightarrow> (if length (ch_AllowedIPs p) > 0 then Inr (ch_AllowedIPs p)
         else bindE (globalOrFail C rs) (\<lambda>global. Inr (dc_AllowedIPs (gc_Defaults global)))))"

definition ResolveChannelMaxBodySize :: "crypto \<Rightarrow> raft_store \<Rightarrow> string \<Rightarrow> int result" where
  "ResolveChannelMaxBodySize C rs i = (case GetChannel C rs i of
       Inl err \<Rightarrow> (if err \<noteq> ErrNotFound then Inl err
         else bindE (globalOrFail C rs) (\<lambda>global. Inr (sc_MaxBodySize (gc_Server global))))
     | Inr p \<Rightarrow> (if ch_MaxBodySize p > 0 then Inr (ch_MaxBodySize p)
         else bindE (globalOrFail C rs) (\<lambda>global. Inr (sc_MaxBodySize (gc_Server global)))))"

definition ResolveChannelEncryption :: "crypto \<Rightarrow> raft_store \<Rightarrow> string \<Rightarrow> (string \<times> string \<times> string) result" where
  "ResolveChannelEncryption C rs i = bindE (GetChannel C rs i) (\<lambda>p0. let p = MigrateChannel p0 in
     Inr (ch_EncryptionMode p, ch_EncryptionKey p, ch_EncryptionPublicKey p))"

definition ResolveCORSOrigin :: "crypto \<Rightarrow> raft_store \<Rightarrow> string" where
  "ResolveCORSOrigin C rs = (case GetGlobalConfig C rs of Inl _ \<Rightarrow> ''*'' | Inr g \<Rightarrow> sc_CORSOrigin (gc_Server g))"

definition ResolveBehindReverseProxy :: "crypto \<Rightarrow> raft_store \<Rightarrow> bool" where
  "ResolveBehindReverseProxy C rs = (case GetGlobalConfig C rs of Inl _ \<Rightarrow> False
     | Inr g \<Rightarrow> sc_BehindReverseProxy (gc_Server g))"

definition ResolveTrustedProxyCIDRs :: "crypto \<Rightarrow> raft_store \<Rightarrow> string list" where
  "ResolveTrustedProxyCIDRs C rs = (case GetGlobalConfig C rs of Inl _ \<Rightarrow> []
     | Inr g \<Rightarrow> sc_TrustedProxyCIDRs (gc_Server g))"

definition SessionSecret :: "crypto \<Rightarrow> raft_store \<Rightarrow> string" where
  "SessionSecret C rs = (case GetGlobalConfig C rs of Inl _ \<Rightarrow> []
     | Inr g \<Rightarrow> (if sc_SessionSecret (gc_Server g) \<noteq> [] then sc_SessionSecret (gc_Server g) else []))"

definition SetSessionSecret :: "crypto \<Rightarrow> ns \<Rightarrow> raft_store \<Rightarrow> string \<Rightarrow> error option \<times> raft_store" where
  "SetSessionSecret C ns rs secret =
     (let global = ok_or DefaultGlobalConfig (GetGlobalConfig C rs)
      in UpdateGlobalConfig C ns rs
           (Some (global\<lparr>gc_Server := (gc_Server global)\<lparr>sc_SessionSecret := secret\<rparr>\<rparr>)))"

section \<open>Protected channels\<close>

text \<open>A snapshot (\<open>Snap\<close>, the keys of its map) or on-demand resolution through the service.\<close>

datatype protected_channels = Snap "string list" | Dynamic

definition is_protected :: "channel \<Rightarrow> bool" where
  "is_protected ch \<longleftrightarrow> ch_EncryptionMode ch = ''e2e'' \<and> ch_EncryptionPublicKey ch \<noteq> []"

definition NewProtectedChannels :: "crypto \<Rightarrow> raft_store \<Rightarrow> protected_channels" where
  "NewProtectedChannels C rs = (case ListChannels C rs of Inl _ \<Rightarrow> Snap []
     | Inr chs \<Rightarrow> Snap (map ch_ID (filter is_protected (map MigrateChannel chs))))"

definition ProtectedChannels_Has :: "crypto \<Rightarrow> raft_store \<Rightarrow> protected_channels option \<Rightarrow> string \<Rightarrow> bool" where
  "ProtectedChannels_Has C rs p channel = (case p of None \<Rightarrow> False
     | Some Dynamic \<Rightarrow> (case GetChannel C rs channel of Inl _ \<Rightarrow> False
         | Inr ch \<Rightarrow> is_protected (MigrateChannel ch))
     | Some (Snap cs) \<Rightarrow> channel \<in> set cs)"

definition ProtectedChannels_IsAllowed ::
  "crypto \<Rightarrow> raft_store \<Rightarrow> protected_channels option \<Rightarrow> string \<Rightarrow> string option \<Rightarrow> bool" where
  "ProtectedChannels_IsAllowed C rs p channel publicKey = (case (p, publicKey) of
       (None, _) \<Rightarrow> False
     | (_, None) \<Rightarrow> False
     | (Some Dynamic, Some pk) \<Rightarrow> (case GetChannel C rs channel of Inl _ \<Rightarrow> False
         | Inr ch0 \<Rightarrow> (let ch = MigrateChannel ch0 in
             if ch_EncryptionMode ch \<noteq> ''e2e'' then False
             else ch_EncryptionPublicKey ch = base64_RawURL_Encode pk))
     | (Some (Snap cs), Some pk) \<Rightarrow> channel \<in> set cs)"

section \<open>Operations that notify the broker\<close>

text \<open>A notification is a channel and its resolved message lifetime; \<open>notifier\<close> says whether one is
  wired in.\<close>

type_synonym notices = "(string \<times> int) list"

definition notifyChannelChanged :: "crypto \<Rightarrow> bool \<Rightarrow> raft_store \<Rightarrow> string \<Rightarrow> notices" where
  "notifyChannelChanged C notifier rs i = (if \<not> notifier then []
     else (case ResolveChannelConfig C rs i of Inl _ \<Rightarrow> []
       | Inr resolved \<Rightarrow> [(i, ch_MessageTTLSeconds resolved)]))"

definition svc_CreateChannel ::
  "crypto \<Rightarrow> ns \<Rightarrow> bool \<Rightarrow> raft_store \<Rightarrow> channel \<Rightarrow> error option \<times> raft_store \<times> notices" where
  "svc_CreateChannel C ns notifier rs p = (case CreateChannel C ns rs p of
       (Some e, rs') \<Rightarrow> (Some e, rs', [])
     | (None, rs') \<Rightarrow> (None, rs', notifyChannelChanged C notifier rs' (ch_ID p)))"

definition svc_UpdateChannel ::
  "crypto \<Rightarrow> ns \<Rightarrow> bool \<Rightarrow> raft_store \<Rightarrow> channel \<Rightarrow> error option \<times> raft_store \<times> notices" where
  "svc_UpdateChannel C ns notifier rs p = (case UpdateChannel C ns rs p of
       (Some e, rs') \<Rightarrow> (Some e, rs', [])
     | (None, rs') \<Rightarrow> (None, rs', notifyChannelChanged C notifier rs' (ch_ID p)))"

definition svc_UpdateGlobalConfig ::
  "crypto \<Rightarrow> ns \<Rightarrow> bool \<Rightarrow> raft_store \<Rightarrow> global_config option \<Rightarrow> error option \<times> raft_store \<times> notices" where
  "svc_UpdateGlobalConfig C ns notifier rs cfg = (case UpdateGlobalConfig C ns rs cfg of
       (Some e, rs') \<Rightarrow> (Some e, rs', [])
     | (None, rs') \<Rightarrow> (None, rs', if \<not> notifier then []
         else concat (map (\<lambda>ch. if ch_MessageTTLSeconds ch = 0
                then (case ResolveChannelConfig C rs' (ch_ID ch) of Inl _ \<Rightarrow> []
                  | Inr resolved \<Rightarrow> [(ch_ID ch, ch_MessageTTLSeconds resolved)])
                else []) (ok_or [] (ListChannels C rs')))))"

definition ListBindings :: "raft_store \<Rightarrow> user_binding list result" where
  "ListBindings rs = bindE (ListUsers rs) (\<lambda>users.
     Inr (map (\<lambda>u. \<lparr>ub_UserID = us_ID u, ub_Roles = us_Roles u, ub_Channels = us_Channels u\<rparr>) users))"

definition UpdateUserBinding :: "raft_store \<Rightarrow> user_binding \<Rightarrow> error option \<times> raft_store" where
  "UpdateUserBinding rs b = (case GetUser rs (ub_UserID b) of
       Inl e \<Rightarrow> (Some e, rs)
     | Inr u \<Rightarrow> UpdateUser rs (u\<lparr>us_Roles := ub_Roles b, us_Channels := ub_Channels b\<rparr>))"

section \<open>Channel access tokens\<close>

definition HashToken :: "crypto \<Rightarrow> string \<Rightarrow> string" where
  "HashToken C raw = hex_EncodeToString (sha256_Sum C raw)"

definition GenerateAccessToken :: "crypto \<Rightarrow> string option \<Rightarrow> (string \<times> string) result" where
  "GenerateAccessToken C rnd = bindE (of_option (ErrMsg ''generate access token'') rnd) (\<lambda>b.
     let raw = hex_EncodeToString b; h = sha256_Sum C raw in Inr (raw, hex_EncodeToString h))"

text \<open>\<open>rt\<close> and \<open>ru\<close> are the random bytes of the token and of its identifier, \<open>created\<close> the formatted
  current time.\<close>

definition CreateAccessToken ::
  "crypto \<Rightarrow> ns \<Rightarrow> string option \<Rightarrow> string option \<Rightarrow> string \<Rightarrow> raft_store \<Rightarrow> string \<Rightarrow> string \<Rightarrow> string \<Rightarrow>
     (string \<times> channel_access_token) result \<times> raft_store" where
  "CreateAccessToken C ns rt ru created rs channelID name scope0 =
     (let scope = (if scope0 \<noteq> ''produce'' \<and> scope0 \<noteq> ''consume'' \<and> scope0 \<noteq> ''both'' then ''both'' else scope0) in
      (case GetChannel C rs channelID of Inl e \<Rightarrow> (Inl e, rs)
       | Inr ch \<Rightarrow> (case GenerateAccessToken C rt of Inl e \<Rightarrow> (Inl e, rs)
       | Inr (raw, hash) \<Rightarrow> (case GenerateUUID ru of Inl e \<Rightarrow> (Inl e, rs)
       | Inr i \<Rightarrow>
           (let t = \<lparr>ct_ID = i, ct_Name = name, ct_TokenHash = hash, ct_Scope = scope, ct_CreatedAt = created\<rparr>;
                ch' = ch\<lparr>ch_AccessTokens := ch_AccessTokens ch @ [t], ch_AccessMode := ''token''\<rparr>
            in (case UpdateChannel C ns rs ch' of
                  (Some e, rs') \<Rightarrow> (Inl e, rs')
                | (None, rs') \<Rightarrow> (Inr (raw, t), rs')))))))"

definition DeleteAccessToken :: "crypto \<Rightarrow> ns \<Rightarrow> raft_store \<Rightarrow> string \<Rightarrow> string \<Rightarrow> error option \<times> raft_store" where
  "DeleteAccessToken C ns rs channelID tokenID = (case GetChannel C rs channelID of
       Inl e \<Rightarrow> (Some e, rs)
     | Inr ch \<Rightarrow> UpdateChannel C ns rs
         (ch\<lparr>ch_AccessTokens := filter (\<lambda>t. ct_ID t \<noteq> tokenID) (ch_AccessTokens ch)\<rparr>))"

definition ValidateChannelToken :: "crypto \<Rightarrow> raft_store \<Rightarrow> string \<Rightarrow> string \<Rightarrow> string \<Rightarrow> bool" where
  "ValidateChannelToken C rs channelID rawToken requiredScope = (case GetChannel C rs channelID of
       Inl _ \<Rightarrow> False
     | Inr ch \<Rightarrow> (let hash = HashToken C rawToken in
         list_ex (\<lambda>t. ct_TokenHash t = hash \<and> (ct_Scope t = ''both'' \<or> ct_Scope t = requiredScope))
           (ch_AccessTokens ch)))"

section \<open>Lemmas\<close>

lemma ResolveChannelConfig_ok:
  "GetChannel C rs i = Inr ch \<Longrightarrow> GetGlobalConfig C rs = Inr g \<Longrightarrow>
     ResolveChannelConfig C rs i = Inr (domain_ResolveChannelConfig ch g)"
  by (simp add: ResolveChannelConfig_def globalOrFail_def)

text \<open>The single-setting resolvers agree with the resolved configuration.\<close>

lemma resolvers_agree:
  assumes "GetChannel C rs i = Inr ch" "GetGlobalConfig C rs = Inr g"
  shows "ResolveChannelWebhookSecret C rs i = Inr (ch_WebhookSecret (domain_ResolveChannelConfig ch g))"
    "ResolveChannelAllowedIPs C rs i = Inr (ch_AllowedIPs (domain_ResolveChannelConfig ch g))"
    "0 \<le> ch_MaxBodySize ch \<Longrightarrow> ResolveChannelMaxBodySize C rs i = Inr (ch_MaxBodySize (domain_ResolveChannelConfig ch g))"
    "ResolveChannelEncryption C rs i = Inr (ch_EncryptionMode (domain_ResolveChannelConfig ch g),
       ch_EncryptionKey (domain_ResolveChannelConfig ch g), ch_EncryptionPublicKey (domain_ResolveChannelConfig ch g))"
  using assms
  by (simp_all add: ResolveChannelWebhookSecret_def ResolveChannelAllowedIPs_def ResolveChannelMaxBodySize_def
      ResolveChannelEncryption_def globalOrFail_def resolve_fields Let_def)

lemma UpdateChannel_read:
  assumes "channel_ready C ns rs" "channel_valid i p" "UpdateChannel C ns rs p = (r, rs')"
  shows "r = None" "GetChannel C rs' i = Inr p" "channel_ready C ns rs'"
  using channel_record.wr_ok [of C rs "(ns, p)" i] channel_record.rd_same [of C rs "(ns, p)" i]
    channel_record.wr_ready [of C rs "(ns, p)" i] assms by (simp_all add: channel_ready_iff)

lemma CreateAccessToken_cases:
  assumes "CreateAccessToken C ns rt ru created rs i name scope = (Inr (raw, t), rs')"
  obtains ch bs ch' where "GetChannel C rs i = Inr ch" "rt = Some bs" "raw = hex_EncodeToString bs"
    "ct_TokenHash t = HashToken C raw" "ct_Name t = name"
    "ct_Scope t = (if scope = ''produce'' \<or> scope = ''consume'' then scope else ''both'')"
    "ch' = ch\<lparr>ch_AccessTokens := ch_AccessTokens ch @ [t], ch_AccessMode := ''token''\<rparr>"
    "UpdateChannel C ns rs ch' = (None, rs')"
proof -
  from assms obtain ch where ch: "GetChannel C rs i = Inr ch"
    by (auto simp: CreateAccessToken_def Let_def split: sum.splits)
  from assms ch obtain bs where bs: "rt = Some bs"
    by (cases rt) (auto simp: CreateAccessToken_def GenerateAccessToken_def Let_def)
  from assms ch bs obtain u where u: "GenerateUUID ru = Inr u"
    by (auto simp: CreateAccessToken_def GenerateAccessToken_def Let_def split: sum.splits)
  show thesis
    by (rule that [of ch bs "ch\<lparr>ch_AccessTokens := ch_AccessTokens ch @ [t], ch_AccessMode := ''token''\<rparr>"])
      (use assms ch bs u in \<open>auto simp: CreateAccessToken_def GenerateAccessToken_def HashToken_def Let_def
        split: prod.splits option.splits\<close>)
qed

section \<open>Properties\<close>

lemma stored_channel_valid:
  "GetChannel C rs i = Inr ch \<Longrightarrow> validateKey (channelKey i) = None \<Longrightarrow> ch_ID x = i \<Longrightarrow> channel_valid i x"
  using GetChannel_empty [of C rs] by (auto simp: channel_valid_def)

lemma CreateAccessToken_succeeds:
  assumes "channel_ready C ns rs" "GetChannel C rs i = Inr ch" "ch_ID ch = i" "validateKey (channelKey i) = None"
  shows "\<exists>raw t rs'. CreateAccessToken C ns (Some b) (Some u) created rs i name scope = (Inr (raw, t), rs')"
proof -
  have v: "channel_valid i (ch\<lparr>ch_AccessTokens := ts, ch_AccessMode := m\<rparr>)" for ts m
    using assms(3) by (intro stored_channel_valid [OF assms(2,4)]) simp
  obtain uid where uid: "GenerateUUID (Some u) = Inr uid" by (simp add: GenerateUUID_def Let_def)
  let ?scope = "if scope \<noteq> ''produce'' \<and> scope \<noteq> ''consume'' \<and> scope \<noteq> ''both'' then ''both'' else scope"
  let ?t = "\<lparr>ct_ID = uid, ct_Name = name, ct_TokenHash = hex_EncodeToString (sha256_Sum C (hex_EncodeToString b)),
      ct_Scope = ?scope, ct_CreatedAt = created\<rparr>"
  obtain rs' where "UpdateChannel C ns rs (ch\<lparr>ch_AccessTokens := ch_AccessTokens ch @ [?t], ch_AccessMode := ''token''\<rparr>) = (None, rs')"
    using UpdateChannel_ready [OF assms(1) v] by blast
  then have "CreateAccessToken C ns (Some b) (Some u) created rs i name scope = (Inr (hex_EncodeToString b, ?t), rs')"
    unfolding CreateAccessToken_def GenerateAccessToken_def Let_def by (simp only: assms(2) uid of_option_simps bindE_simps sum.case prod.case option.case)
  then show ?thesis by blast
qed

text \<open>The life of a channel access token. After a successful creation the raw token is accepted for its
  scope (any scope when it is \<open>both\<close>), the channel is in token mode, and only the token's hash is
  stored; after deleting it, exactly the tokens whose identifiers differ from the deleted one are
  accepted.\<close>

theorem access_token_lifecycle:
  assumes "channel_ready C ns rs" "GetChannel C rs i = Inr ch" "ch_ID ch = i" "validateKey (channelKey i) = None"
    and "CreateAccessToken C ns rt ru created rs i name scope = (Inr (raw, t), rs')"
  shows "ct_TokenHash t = HashToken C raw \<and>
     (\<forall>sc. ct_Scope t = ''both'' \<or> ct_Scope t = sc \<longrightarrow> ValidateChannelToken C rs' i raw sc) \<and>
     (\<exists>ch'. GetChannel C rs' i = Inr ch' \<and> ch_AccessMode ch' = ''token'') \<and>
     (\<exists>rs''. DeleteAccessToken C ns rs' i (ct_ID t) = (None, rs'') \<and>
       (\<forall>tok sc. ValidateChannelToken C rs'' i tok sc \<longleftrightarrow>
          (\<exists>x \<in> set (ch_AccessTokens ch). ct_ID x \<noteq> ct_ID t \<and> ct_TokenHash x = HashToken C tok \<and>
             (ct_Scope x = ''both'' \<or> ct_Scope x = sc))))"
proof -
  obtain ch' where h: "ct_TokenHash t = HashToken C raw"
    and ch': "ch' = ch\<lparr>ch_AccessTokens := ch_AccessTokens ch @ [t], ch_AccessMode := ''token''\<rparr>"
    and u: "UpdateChannel C ns rs ch' = (None, rs')"
    using CreateAccessToken_cases [OF assms(5)] assms(2) by (metis Inr_inject)
  note v = stored_channel_valid [OF assms(2,4)]
  have i: "ch_ID ch' = i" using assms(3) by (simp add: ch')
  note U = UpdateChannel_read [OF assms(1) v [OF i] u]
  let ?del = "ch'\<lparr>ch_AccessTokens := filter (\<lambda>x. ct_ID x \<noteq> ct_ID t) (ch_AccessTokens ch')\<rparr>"
  obtain r rs'' where d: "UpdateChannel C ns rs' ?del = (r, rs'')" by fastforce
  have "ch_ID ?del = i" using i by simp
  note D = UpdateChannel_read [OF U(3) v [OF this] d]
  have "DeleteAccessToken C ns rs' i (ct_ID t) = (None, rs'')"
    using d D(1) U(2) by (simp add: DeleteAccessToken_def)
  moreover have "ValidateChannelToken C rs'' i tok sc \<longleftrightarrow>
      (\<exists>x \<in> set (ch_AccessTokens ch). ct_ID x \<noteq> ct_ID t \<and> ct_TokenHash x = HashToken C tok \<and>
         (ct_Scope x = ''both'' \<or> ct_Scope x = sc))" for tok sc
    using D(2) by (auto simp: ValidateChannelToken_def list_ex_iff Let_def ch')
  moreover have "ValidateChannelToken C rs' i raw sc" if "ct_Scope t = ''both'' \<or> ct_Scope t = sc" for sc
    using U(2) h that by (auto simp: ValidateChannelToken_def list_ex_iff Let_def ch')
  moreover have "\<exists>ch'. GetChannel C rs' i = Inr ch' \<and> ch_AccessMode ch' = ''token''" using U(2) by (simp add: ch')
  ultimately show ?thesis using h by blast
qed

lemma demo_channels_c1: "channel_ready toy_crypto demo_ns demo_channels"
    "GetChannel toy_crypto demo_channels ''c1'' = Inr (zero_channel\<lparr>ch_ID := ''c1''\<rparr>)"
    "validateKey (channelKey ''c1'') = None"
proof -
  show "channel_ready toy_crypto demo_ns demo_channels"
    using demo_store_ready(2,4) demo_channels_ready toy_aead by (simp add: channel_ready_def) (simp add: demo_channels_def)
  have "kv_get (bucket demo_channels) (channelKey ''c1'') = Some (marshal_channel (zero_channel\<lparr>ch_ID := ''c1''\<rparr>))"
    by (simp add: demo_channels_def channelKey_def kv_get_Cons)
  moreover have "openChannel toy_crypto demo_channels (zero_channel\<lparr>ch_ID := ''c1''\<rparr>) = Inr (zero_channel\<lparr>ch_ID := ''c1''\<rparr>)"
    by (simp add: openChannel_def openString_def zero_channel_def split: option.split)
  ultimately show "GetChannel toy_crypto demo_channels ''c1'' = Inr (zero_channel\<lparr>ch_ID := ''c1''\<rparr>)"
    by (simp add: GetChannel_ready [OF demo_channels_ready] channel_roundtrip)
  show "validateKey (channelKey ''c1'') = None" by (simp add: channelKey_def validateKey_def HasPrefix_def)
qed

theorem access_token_lifecycle_witness:
  "\<exists>raw t rs' rs''. CreateAccessToken toy_crypto demo_ns (Some (replicate 32 CHR ''t'')) (Some (replicate 16 CHR ''u''))
       ''now'' demo_channels ''c1'' ''ci'' ''produce'' = (Inr (raw, t), rs') \<and>
     ValidateChannelToken toy_crypto rs' ''c1'' raw ''produce'' \<and>
     DeleteAccessToken toy_crypto demo_ns rs' ''c1'' (ct_ID t) = (None, rs'') \<and>
     \<not> ValidateChannelToken toy_crypto rs'' ''c1'' raw ''produce''"
proof -
  let ?c = "CreateAccessToken toy_crypto demo_ns (Some (replicate 32 CHR ''t'')) (Some (replicate 16 CHR ''u''))
       ''now'' demo_channels ''c1'' ''ci'' ''produce''"
  obtain raw t rs' where c: "?c = (Inr (raw, t), rs')"
    using CreateAccessToken_succeeds [OF demo_channels_c1(1,2) _ demo_channels_c1(3)] by fastforce
  have sc: "ct_Scope t = ''produce''"
    using c by (rule CreateAccessToken_cases) simp
  show ?thesis
    using access_token_lifecycle [OF demo_channels_c1(1,2) _ demo_channels_c1(3) c] c sc by (auto simp: zero_channel_def)
qed

text \<open>The resolvers of single settings agree with the resolved configuration: for a stored channel and
  a readable global configuration, webhook secret, allowed addresses, body limit (for limits that
  are not negative) and encryption settings are those of \<open>ResolveChannelConfig\<close>.\<close>

theorem effective_settings_agree:
  assumes "GetChannel C rs i = Inr ch" "GetGlobalConfig C rs = Inr g" "0 \<le> ch_MaxBodySize ch"
  shows "\<exists>eff. ResolveChannelConfig C rs i = Inr eff \<and>
     ResolveChannelWebhookSecret C rs i = Inr (ch_WebhookSecret eff) \<and>
     ResolveChannelAllowedIPs C rs i = Inr (ch_AllowedIPs eff) \<and>
     ResolveChannelMaxBodySize C rs i = Inr (ch_MaxBodySize eff) \<and>
     ResolveChannelEncryption C rs i = Inr (ch_EncryptionMode eff, ch_EncryptionKey eff, ch_EncryptionPublicKey eff)"
  using ResolveChannelConfig_ok [OF assms(1,2)] resolvers_agree [OF assms(1,2)] assms(3) by blast

theorem effective_settings_agree_witness:
  "\<exists>eff. ResolveChannelConfig toy_crypto demo_channels ''c1'' = Inr eff \<and>
     ResolveChannelMaxBodySize toy_crypto demo_channels ''c1'' = Inr (ch_MaxBodySize eff)"
proof -
  have k: "kv_get (bucket demo_channels) ''/global/server/'' = None" "kv_get (bucket demo_channels) ''/global/defaults/'' = None"
    by (simp_all add: demo_channels_def kv_get_Cons)
  have "GetGlobalConfig toy_crypto demo_channels = Inr \<lparr>gc_Server = gc_Server DefaultGlobalConfig, gc_Defaults = gc_Defaults DefaultGlobalConfig\<rparr>"
    by (simp add: GetGlobalConfig_def get_ready [OF demo_channels_ready] k)
      (simp add: openConfig_def openString_def DefaultGlobalConfig_def split: option.split)
  then show ?thesis
    using effective_settings_agree [OF demo_channels_c1(2)] by (auto simp: zero_channel_def)
qed

text \<open>Storing a session secret while the global configuration cannot be read (for example because it is
  sealed under a key that is not loaded) succeeds and replaces the whole stored configuration by
  the defaults: the settings that were stored are lost.\<close>

theorem session_secret_overwrites_unreadable_config:
  assumes "channel_ready C ns rs" "GetGlobalConfig C rs = Inl e" "SetSessionSecret C ns rs secret = (r, rs')"
  shows "r = None \<and> GetGlobalConfig C rs' = Inr (DefaultGlobalConfig
     \<lparr>gc_Server := (gc_Server DefaultGlobalConfig)\<lparr>sc_SessionSecret := secret\<rparr>\<rparr>)"
proof -
  have "UpdateGlobalConfig C ns rs (Some (DefaultGlobalConfig
      \<lparr>gc_Server := (gc_Server DefaultGlobalConfig)\<lparr>sc_SessionSecret := secret\<rparr>\<rparr>)) = (r, rs')"
    using assms(2,3) by (simp add: SetSessionSecret_def)
  then show ?thesis using UpdateGlobalConfig_read [OF assms(1)] by blast
qed

theorem session_secret_overwrites_unreadable_config_witness:
  "\<exists>rs'. SetSessionSecret toy_crypto demo_ns (with_bucket demo_store [(''/global/server/'', JBad)]) ''new'' = (None, rs')"
proof -
  let ?rs = "with_bucket demo_store [(''/global/server/'', JBad)]"
  have r: "store_ready ?rs" by (rule store_ready_with) (simp_all add: demo_store_ready kv_wf_def)
  then have c: "channel_ready toy_crypto demo_ns ?rs"
    using demo_store_ready(2,4) toy_aead by (simp add: channel_ready_def)
  have g: "GetGlobalConfig toy_crypto ?rs = Inl json_error"
    by (simp add: GetGlobalConfig_def get_ready [OF r] kv_get_Cons unmarshal_server_config_def)
  obtain x rs' where s: "SetSessionSecret toy_crypto demo_ns ?rs ''new'' = (x, rs')" by fastforce
  then show ?thesis using session_secret_overwrites_unreadable_config [OF c g s] by blast
qed

end
