(* ===== verification/Envelope.thy ===== *)
theory Envelope
  imports Primitives
begin

text \<open>
  Message encryption: \<open>pkg/crypto\<close> (NaCl box envelopes, version 1 without and version 2 with a bound
  context) and \<open>pkg/encryption\<close> (AES-256-GCM payloads with the context as additional data). The
  lemmas show that a message opens again under the same context, that it is refused under another
  one, and that changing the unauthenticated version field of a version 2 envelope bypasses the
  context check.
\<close>

section \<open>NaCl envelopes\<close>

record encrypted_envelope =
  en_Encrypted :: bool
  en_Version :: int
  en_Ephemeral :: string
  en_Nonce :: string
  en_Ciphertext :: string
  en_Ctx :: string

definition marshal_envelope :: "encrypted_envelope \<Rightarrow> json" where
  "marshal_envelope e = JObj (
     jreq ''encrypted'' (JBool (en_Encrypted e)) (
     jreq ''version'' (JNum (en_Version e)) (
     jreq ''epk'' (JStr (en_Ephemeral e)) (
     jreq ''nonce'' (JStr (en_Nonce e)) (
     jreq ''ciphertext'' (JStr (en_Ciphertext e)) (
     jopt (en_Ctx e \<noteq> []) ''ctx'' (JStr (en_Ctx e)) []))))))"

definition unmarshal_envelope :: "json \<Rightarrow> encrypted_envelope option" where
  "unmarshal_envelope d = do {
     fs \<leftarrow> jobj d;
     enc \<leftarrow> jbool fs ''encrypted'';
     ver \<leftarrow> jint fs ''version'';
     epk \<leftarrow> jstr fs ''epk'';
     non \<leftarrow> jstr fs ''nonce'';
     ct \<leftarrow> jstr fs ''ciphertext'';
     ctx \<leftarrow> jstr fs ''ctx'';
     Some \<lparr>en_Encrypted = enc, en_Version = ver, en_Ephemeral = epk, en_Nonce = non,
       en_Ciphertext = ct, en_Ctx = ctx\<rparr> }"

definition encryptedEnvelopeVersion :: int where
  "encryptedEnvelopeVersion = 1"

definition encryptedEnvelopeVersionV2 :: int where
  "encryptedEnvelopeVersionV2 = 2"

definition contextSeparator :: char where
  "contextSeparator = CHR 0x00"

definition bytesToKey :: "string \<Rightarrow> string result" where
  "bytesToKey decoded = (if length decoded \<noteq> 32 then Inl (ErrMsg ''invalid key length'') else Inr decoded)"

definition EncodePublicKey :: "string \<Rightarrow> string" where
  "EncodePublicKey key = base64_RawURL_Encode key"

definition ParsePublicKey :: "string \<Rightarrow> string result" where
  "ParsePublicKey encoded = bindE (of_option (ErrMsg ''decode public key'') (base64_RawURL_Decode encoded)) bytesToKey"

text \<open>\<open>box.GenerateKey\<close> reads the private key from the random source.\<close>

definition GenerateKeyPair :: "crypto \<Rightarrow> string option \<Rightarrow> (string \<times> string) result" where
  "GenerateKeyPair C rnd = bindE (of_option (ErrMsg ''rand'') rnd) (\<lambda>sk. Inr (box_Public C sk, sk))"

text \<open>\<open>rk\<close> and \<open>rn\<close> are the random bytes of the ephemeral key and of the nonce.\<close>

definition seal :: "crypto \<Rightarrow> string option \<Rightarrow> string option \<Rightarrow> string \<Rightarrow> string \<Rightarrow> string \<Rightarrow> int \<Rightarrow> string result" where
  "seal C rk rn plaintext recipientPubKey ctx version =
     bindE (GenerateKeyPair C rk) (\<lambda>(ephemeralPubKey, ephemeralPrivKey).
     bindE (of_option (ErrMsg ''rand'') rn) (\<lambda>nonce.
       let payload = (if version = encryptedEnvelopeVersionV2
                      then ctx @ [contextSeparator] @ plaintext else plaintext);
           ciphertext = box_Seal C payload nonce recipientPubKey ephemeralPrivKey
       in Inr (json_Marshal (marshal_envelope \<lparr>en_Encrypted = True, en_Version = version,
            en_Ephemeral = base64_Std_Encode ephemeralPubKey, en_Nonce = base64_Std_Encode nonce,
            en_Ciphertext = base64_Std_Encode ciphertext,
            en_Ctx = (if version = encryptedEnvelopeVersionV2 then base64_Std_Encode ctx else [])\<rparr>))))"

definition box_Encrypt :: "crypto \<Rightarrow> string option \<Rightarrow> string option \<Rightarrow> string \<Rightarrow> string \<Rightarrow> string result" where
  "box_Encrypt C rk rn plaintext recipientPubKey = seal C rk rn plaintext recipientPubKey [] encryptedEnvelopeVersion"

definition EncryptWithContext ::
  "crypto \<Rightarrow> string option \<Rightarrow> string option \<Rightarrow> string \<Rightarrow> string \<Rightarrow> string \<Rightarrow> string result" where
  "EncryptWithContext C rk rn plaintext recipientPubKey ctx =
     seal C rk rn plaintext recipientPubKey ctx encryptedEnvelopeVersionV2"

text \<open>The parsed envelope with its decoded ephemeral key, nonce and ciphertext.\<close>

definition parseEncryptedEnvelope :: "string \<Rightarrow> (encrypted_envelope \<times> string \<times> string \<times> string) result" where
  "parseEncryptedEnvelope data =
     bindE (of_option (ErrMsg ''json'') (unmarshal_envelope (json_Unmarshal data))) (\<lambda>envelope.
     if \<not> en_Encrypted envelope then Inl (ErrMsg ''missing encrypted marker'')
     else if en_Version envelope \<noteq> encryptedEnvelopeVersion \<and> en_Version envelope \<noteq> encryptedEnvelopeVersionV2
     then Inl (ErrMsg ''unsupported envelope version'')
     else if en_Ephemeral envelope = [] \<or> en_Nonce envelope = [] \<or> en_Ciphertext envelope = []
     then Inl (ErrMsg ''incomplete encrypted envelope'')
     else bindE (of_option (ErrMsg ''decode ephemeral key'') (base64_Std_Decode (en_Ephemeral envelope))) (\<lambda>eb.
          bindE (bytesToKey eb) (\<lambda>ephemeralKey.
          bindE (of_option (ErrMsg ''decode nonce'') (base64_Std_Decode (en_Nonce envelope))) (\<lambda>nonce.
          if length nonce \<noteq> 24 then Inl (ErrMsg ''invalid nonce length'')
          else bindE (of_option (ErrMsg ''decode ciphertext'') (base64_Std_Decode (en_Ciphertext envelope))) (\<lambda>ct.
          Inr (envelope, ephemeralKey, nonce, ct))))))"

definition DecryptWithContext :: "crypto \<Rightarrow> string \<Rightarrow> string \<Rightarrow> string \<Rightarrow> string result" where
  "DecryptWithContext C envelope privateKey ctx =
     bindE (parseEncryptedEnvelope envelope) (\<lambda>(parsed, ephemeralPubKey, nonce, ciphertext).
     if \<not> en_Encrypted parsed then Inl (ErrMsg ''payload is not encrypted'')
     else (case box_Open C ciphertext nonce ephemeralPubKey privateKey of
         None \<Rightarrow> Inl (ErrMsg ''decrypt payload: invalid ciphertext'')
       | Some plaintext \<Rightarrow>
           (if en_Version parsed = encryptedEnvelopeVersionV2 then
              (case base64_Std_Decode (en_Ctx parsed) of
                 None \<Rightarrow> Inl (ErrMsg ''decode envelope context'')
               | Some envelopeCtx \<Rightarrow>
                   (if envelopeCtx \<noteq> ctx then Inl (ErrMsg ''envelope context mismatch'')
                    else (let pre = ctx @ [contextSeparator] in
                      if \<not> prefix pre plaintext then Inl (ErrMsg ''invalid envelope context prefix'')
                      else Inr (drop (length pre) plaintext))))
            else Inr plaintext)))"

definition box_Decrypt :: "crypto \<Rightarrow> string \<Rightarrow> string \<Rightarrow> string result" where
  "box_Decrypt C envelope privateKey = DecryptWithContext C envelope privateKey []"

definition ChannelContext :: "string \<Rightarrow> string" where
  "ChannelContext channel = ''gohookbridge.channel.'' @ channel"

text \<open>Only the four fields of the anonymous struct are decoded.\<close>

definition IsEncrypted :: "string \<Rightarrow> bool" where
  "IsEncrypted data = (case do {
       fs \<leftarrow> jobj (json_Unmarshal data);
       enc \<leftarrow> jbool fs ''encrypted'';
       epk \<leftarrow> jstr fs ''epk'';
       non \<leftarrow> jstr fs ''nonce'';
       ct \<leftarrow> jstr fs ''ciphertext'';
       Some (enc \<and> epk \<noteq> [] \<and> non \<noteq> [] \<and> ct \<noteq> []) } of
     None \<Rightarrow> False | Some b \<Rightarrow> b)"

section \<open>Key files\<close>

definition marshal_keypair :: "string \<Rightarrow> string \<Rightarrow> json" where
  "marshal_keypair pub priv = JObj (
     jreq ''public_key'' (JStr (base64_Std_Encode pub)) (
     jreq ''private_key'' (JStr (base64_Std_Encode priv)) []))"

text \<open>The bytes \<open>SaveKeyPair\<close> writes.\<close>

definition SaveKeyPair :: "string \<Rightarrow> string \<Rightarrow> string" where
  "SaveKeyPair pub priv = json_Marshal (marshal_keypair pub priv)"

definition decodeStdKey :: "string \<Rightarrow> string result" where
  "decodeStdKey encoded = bindE (of_option (ErrMsg ''illegal base64 data'') (base64_Std_Decode encoded)) bytesToKey"

definition loadKeyPair :: "string \<Rightarrow> (string \<times> string) result" where
  "loadKeyPair data = bindE (of_option (ErrMsg ''unmarshal key file'') (do {
       fs \<leftarrow> jobj (json_Unmarshal data);
       pub \<leftarrow> jstr fs ''public_key'';
       priv \<leftarrow> jstr fs ''private_key'';
       Some (pub, priv) })) (\<lambda>(pub, priv).
     bindE (decodeStdKey pub) (\<lambda>pk. bindE (decodeStdKey priv) (\<lambda>sk. Inr (pk, sk))))"

section \<open>AES-256-GCM payloads\<close>

record aes_payload =
  ap_Encrypted :: bool
  ap_Version :: int
  ap_Algorithm :: string
  ap_Nonce :: string
  ap_Ciphertext :: string

definition marshal_aes_payload :: "aes_payload \<Rightarrow> json" where
  "marshal_aes_payload p = JObj (
     jreq ''encrypted'' (JBool (ap_Encrypted p)) (
     jreq ''version'' (JNum (ap_Version p)) (
     jreq ''algorithm'' (JStr (ap_Algorithm p)) (
     jreq ''nonce'' (JStr (ap_Nonce p)) (
     jreq ''ciphertext'' (JStr (ap_Ciphertext p)) [])))))"

definition unmarshal_aes_payload :: "json \<Rightarrow> aes_payload option" where
  "unmarshal_aes_payload d = do {
     fs \<leftarrow> jobj d;
     enc \<leftarrow> jbool fs ''encrypted'';
     ver \<leftarrow> jint fs ''version'';
     alg \<leftarrow> jstr fs ''algorithm'';
     non \<leftarrow> jstr fs ''nonce'';
     ct \<leftarrow> jstr fs ''ciphertext'';
     Some \<lparr>ap_Encrypted = enc, ap_Version = ver, ap_Algorithm = alg, ap_Nonce = non, ap_Ciphertext = ct\<rparr> }"

definition GenerateAESKey :: "string option \<Rightarrow> string result" where
  "GenerateAESKey rnd = bindE (of_option (ErrMsg ''generate AES key'') rnd) (\<lambda>key. Inr (base64_Std_Encode key))"

definition AESEncryptWithContext :: "crypto \<Rightarrow> string option \<Rightarrow> string \<Rightarrow> string \<Rightarrow> string \<Rightarrow> string result" where
  "AESEncryptWithContext C rnd plaintext keyBase64 aad =
     bindE (of_option (ErrMsg ''decode AES key'') (base64_Std_Decode keyBase64)) (\<lambda>key.
     if length key \<noteq> 32 then Inl (ErrMsg ''AES key must be 32 bytes'')
     else bindE (of_option (ErrMsg ''generate nonce'') rnd) (\<lambda>nonce.
       Inr (json_Marshal (marshal_aes_payload \<lparr>ap_Encrypted = True, ap_Version = 1, ap_Algorithm = ''AES-256-GCM'',
         ap_Nonce = base64_Std_Encode nonce,
         ap_Ciphertext = base64_Std_Encode (gcm_Seal C key nonce plaintext aad)\<rparr>))))"

definition AESEncrypt :: "crypto \<Rightarrow> string option \<Rightarrow> string \<Rightarrow> string \<Rightarrow> string result" where
  "AESEncrypt C rnd plaintext keyBase64 = AESEncryptWithContext C rnd plaintext keyBase64 []"

definition AESDecryptWithContext :: "crypto \<Rightarrow> string \<Rightarrow> string \<Rightarrow> string \<Rightarrow> string result" where
  "AESDecryptWithContext C data keyBase64 aad =
     bindE (of_option (ErrMsg ''decode AES key'') (base64_Std_Decode keyBase64)) (\<lambda>key.
     if length key \<noteq> 32 then Inl (ErrMsg ''AES key must be 32 bytes'')
     else bindE (of_option (ErrMsg ''unmarshal encrypted payload'') (unmarshal_aes_payload (json_Unmarshal data))) (\<lambda>p.
     if \<not> ap_Encrypted p then Inl (ErrMsg ''payload is not encrypted'')
     else if ap_Algorithm p \<noteq> ''AES-256-GCM'' then Inl (ErrMsg ''unsupported algorithm'')
     else if ap_Version p \<noteq> 1 then Inl (ErrMsg ''unsupported version'')
     else bindE (of_option (ErrMsg ''decode nonce'') (base64_Std_Decode (ap_Nonce p))) (\<lambda>nonce.
     if length nonce \<noteq> 12 then Inl (ErrMsg ''invalid nonce length'')
     else bindE (of_option (ErrMsg ''decode ciphertext'') (base64_Std_Decode (ap_Ciphertext p))) (\<lambda>ct.
       of_option (ErrMsg ''decrypt payload'') (gcm_Open C key nonce ct aad)))))"

definition AESDecrypt :: "crypto \<Rightarrow> string \<Rightarrow> string \<Rightarrow> string result" where
  "AESDecrypt C data keyBase64 = AESDecryptWithContext C data keyBase64 []"

definition IsAESEncrypted :: "string \<Rightarrow> bool" where
  "IsAESEncrypted data = (case do {
       fs \<leftarrow> jobj (json_Unmarshal data);
       enc \<leftarrow> jbool fs ''encrypted'';
       alg \<leftarrow> jstr fs ''algorithm'';
       Some (enc \<and> alg = ''AES-256-GCM'') } of
     None \<Rightarrow> False | Some b \<Rightarrow> b)"

section \<open>Hypotheses on the primitives\<close>

text \<open>NaCl box: what was sealed for a key opens with it; a ciphertext is longer than its plaintext;
  keys are 32 bytes long. GCM: another context does not open.\<close>

definition box_correct :: "crypto \<Rightarrow> bool" where
  "box_correct C \<longleftrightarrow> (\<forall>sk. length sk = 32 \<longrightarrow> length (box_Public C sk) = 32) \<and>
     (\<forall>sk esk n m. length sk = 32 \<longrightarrow> length esk = 32 \<longrightarrow> length n = 24 \<longrightarrow>
        box_Open C (box_Seal C m n (box_Public C sk) esk) n (box_Public C esk) sk = Some m \<and>
        length m < length (box_Seal C m n (box_Public C sk) esk))"

definition aead_binds :: "crypto \<Rightarrow> bool" where
  "aead_binds C \<longleftrightarrow> (\<forall>k n p a a'. a' \<noteq> a \<longrightarrow> gcm_Open C k n (gcm_Seal C k n p a) a' = None)"

lemma quote_inject: "quote a @ x = quote b @ y \<Longrightarrow> a = b \<and> x = y"
proof -
  assume "quote a @ x = quote b @ y"
  then have "read_str (concat (map esc_char a) @ CHR 0x22 # x) = read_str (concat (map esc_char b) @ CHR 0x22 # y)"
    by (simp add: quote_def)
  then show ?thesis by (simp add: read_str_quote)
qed

lemma toy_box: "box_correct toy_crypto"
  by (auto simp: box_correct_def toy_crypto_def quote_def)

lemma toy_binds: "aead_binds toy_crypto"
proof -
  have "\<not> prefix (toy_tag k n a') (toy_tag k n a @ p)" if "a' \<noteq> a" for k n p a a'
  proof
    assume "prefix (toy_tag k n a') (toy_tag k n a @ p)"
    then obtain z where "quote a @ p = quote a' @ z" by (auto simp: prefix_def toy_tag_def)
    then show False using quote_inject [of a p a' z] that by simp
  qed
  then show ?thesis by (auto simp: aead_binds_def toy_crypto_def)
qed

section \<open>Lemmas\<close>

lemma envelope_roundtrip: "unmarshal_envelope (marshal_envelope e) = Some e"
  by (simp add: marshal_envelope_def unmarshal_envelope_def json_simps)

interpretation envelope_json: codec marshal_envelope unmarshal_envelope "\<lambda>_. True"
  by unfold_locales (rule envelope_roundtrip)

lemma plain_envelope: "plain (marshal_envelope e)"
  unfolding marshal_envelope_def by (simp add: json_simps del: plain.simps(2))

lemma envelope_text: "unmarshal_envelope (json_Unmarshal (json_Marshal (marshal_envelope e))) = Some e"
  by (simp add: json_roundtrip plain_envelope envelope_roundtrip)

lemma aes_payload_roundtrip: "unmarshal_aes_payload (marshal_aes_payload p) = Some p"
  by (simp add: marshal_aes_payload_def unmarshal_aes_payload_def json_simps)

interpretation aes_payload_json: codec marshal_aes_payload unmarshal_aes_payload "\<lambda>_. True"
  by unfold_locales (rule aes_payload_roundtrip)

lemma plain_aes_payload: "plain (marshal_aes_payload p)"
  unfolding marshal_aes_payload_def by (simp add: json_simps del: plain.simps(2))

lemma aes_payload_text: "unmarshal_aes_payload (json_Unmarshal (json_Marshal (marshal_aes_payload p))) = Some p"
  by (simp add: json_roundtrip plain_aes_payload aes_payload_roundtrip)

text \<open>A well-formed envelope, and what decrypting it amounts to.\<close>

lemma Decrypt_envelope:
  assumes "e = \<lparr>en_Encrypted = True, en_Version = v, en_Ephemeral = base64_Std_Encode epk,
      en_Nonce = base64_Std_Encode n, en_Ciphertext = base64_Std_Encode ct, en_Ctx = cx\<rparr>"
    and "length epk = 32" "length n = 24" "ct \<noteq> []" "v = 1 \<or> v = 2"
  shows "parseEncryptedEnvelope (json_Marshal (marshal_envelope e)) = Inr (e, epk, n, ct)"
proof -
  have "epk \<noteq> []" "n \<noteq> []" using assms(2,3) by auto
  then show ?thesis
    using assms by (auto simp: parseEncryptedEnvelope_def envelope_text Std_roundtrip Std_Encode_empty bytesToKey_def
        encryptedEnvelopeVersion_def encryptedEnvelopeVersionV2_def)
qed

lemma seal_parse:
  assumes "box_correct C" "length sk = 32" "length esk = 32" "length n = 24" "v = 1 \<or> v = 2"
  shows "\<exists>e ct. seal C (Some esk) (Some n) p (box_Public C sk) ctx v = Inr (json_Marshal (marshal_envelope e)) \<and>
     e = \<lparr>en_Encrypted = True, en_Version = v, en_Ephemeral = base64_Std_Encode (box_Public C esk),
       en_Nonce = base64_Std_Encode n, en_Ciphertext = base64_Std_Encode ct,
       en_Ctx = (if v = 2 then base64_Std_Encode ctx else [])\<rparr> \<and>
     length (box_Public C esk) = 32 \<and> ct \<noteq> [] \<and>
     box_Open C ct n (box_Public C esk) sk = Some (if v = 2 then ctx @ contextSeparator # p else p)"
proof -
  let ?m = "if v = 2 then ctx @ contextSeparator # p else p"
  let ?ct = "box_Seal C ?m n (box_Public C sk) esk"
  have "box_Open C ?ct n (box_Public C esk) sk = Some ?m" "length ?m < length ?ct" "length (box_Public C esk) = 32"
    using assms unfolding box_correct_def by blast+
  moreover have "seal C (Some esk) (Some n) p (box_Public C sk) ctx v = Inr (json_Marshal (marshal_envelope
      \<lparr>en_Encrypted = True, en_Version = v, en_Ephemeral = base64_Std_Encode (box_Public C esk),
       en_Nonce = base64_Std_Encode n, en_Ciphertext = base64_Std_Encode ?ct,
       en_Ctx = (if v = 2 then base64_Std_Encode ctx else [])\<rparr>))"
    by (simp add: seal_def GenerateKeyPair_def encryptedEnvelopeVersionV2_def Let_def)
  moreover have "?ct \<noteq> []" using \<open>length ?m < length ?ct\<close> by auto
  ultimately show ?thesis by blast
qed

lemma keypair_roundtrip:
  assumes "length pub = 32" "length priv = 32"
  shows "loadKeyPair (SaveKeyPair pub priv) = Inr (pub, priv)"
proof -
  have "plain (marshal_keypair pub priv)" by (simp add: marshal_keypair_def jreq_def)
  then have "json_Unmarshal (SaveKeyPair pub priv) = marshal_keypair pub priv"
    by (simp add: SaveKeyPair_def json_roundtrip)
  then show ?thesis
    using assms by (simp add: loadKeyPair_def marshal_keypair_def json_simps decodeStdKey_def
        Std_roundtrip bytesToKey_def)
qed

section \<open>Context binding\<close>

lemma Decrypt_sealed:
  assumes "box_correct C" "length sk = 32" "length esk = 32" "length n = 24" "v = 1 \<or> v = 2"
    and "seal C (Some esk) (Some n) p (box_Public C sk) ctx v = Inr e"
  shows "DecryptWithContext C e sk ctx' =
     (if v = 2 then if ctx' = ctx then Inr p else Inl (ErrMsg ''envelope context mismatch'') else Inr p)"
proof -
  obtain env ct where e: "e = json_Marshal (marshal_envelope env)" and env:
    "env = \<lparr>en_Encrypted = True, en_Version = v, en_Ephemeral = base64_Std_Encode (box_Public C esk),
       en_Nonce = base64_Std_Encode n, en_Ciphertext = base64_Std_Encode ct,
       en_Ctx = (if v = 2 then base64_Std_Encode ctx else [])\<rparr>"
    and k: "length (box_Public C esk) = 32" "ct \<noteq> []"
    and o: "box_Open C ct n (box_Public C esk) sk = Some (if v = 2 then ctx @ contextSeparator # p else p)"
    using seal_parse [OF assms(1-5), of p ctx] assms(6) by auto
  have "parseEncryptedEnvelope e = Inr (env, box_Public C esk, n, ct)"
    unfolding e by (rule Decrypt_envelope [OF env k(1) assms(4) k(2) assms(5)])
  then show ?thesis
    using o assms(5) by (auto simp: DecryptWithContext_def env encryptedEnvelopeVersionV2_def Std_roundtrip Let_def)
qed

text \<open>The version field is not authenticated: relabelled as version 1, a message sealed for one
  context opens under every context, with the context left in front of the plaintext.\<close>

lemma relabelled_opens:
  assumes "box_correct C" "length sk = 32" "length esk = 32" "length n = 24"
    and "EncryptWithContext C (Some esk) (Some n) p (box_Public C sk) ctx = Inr e"
    and "unmarshal_envelope (json_Unmarshal e) = Some env"
  shows "DecryptWithContext C (json_Marshal (marshal_envelope (env\<lparr>en_Version := 1\<rparr>))) sk ctx' =
     Inr (ctx @ contextSeparator # p)"
proof -
  obtain env' ct where e: "e = json_Marshal (marshal_envelope env')" and env:
    "env' = \<lparr>en_Encrypted = True, en_Version = 2, en_Ephemeral = base64_Std_Encode (box_Public C esk),
       en_Nonce = base64_Std_Encode n, en_Ciphertext = base64_Std_Encode ct, en_Ctx = base64_Std_Encode ctx\<rparr>"
    and k: "length (box_Public C esk) = 32" "ct \<noteq> []"
    and o: "box_Open C ct n (box_Public C esk) sk = Some (ctx @ contextSeparator # p)"
    using seal_parse [OF assms(1-4), of 2 p ctx] assms(5)
    by (auto simp: EncryptWithContext_def encryptedEnvelopeVersionV2_def)
  have "env = env'" using assms(6) by (simp add: e envelope_text)
  then have r: "env\<lparr>en_Version := 1\<rparr> = \<lparr>en_Encrypted = True, en_Version = 1,
      en_Ephemeral = base64_Std_Encode (box_Public C esk), en_Nonce = base64_Std_Encode n,
      en_Ciphertext = base64_Std_Encode ct, en_Ctx = base64_Std_Encode ctx\<rparr>" by (simp add: env)
  have "parseEncryptedEnvelope (json_Marshal (marshal_envelope (env\<lparr>en_Version := 1\<rparr>))) =
      Inr (env\<lparr>en_Version := 1\<rparr>, box_Public C esk, n, ct)"
    by (rule Decrypt_envelope [OF r k(1) assms(4) k(2)]) simp
  then show ?thesis using o by (simp add: DecryptWithContext_def r encryptedEnvelopeVersionV2_def)
qed

lemma AESDecrypt_sealed:
  assumes "aead_correct C" "base64_Std_Decode key = Some k" "length k = 32" "length n = 12"
  shows "\<exists>e. AESEncryptWithContext C (Some n) p key aad = Inr e \<and> AESDecryptWithContext C e key aad = Inr p \<and>
     (aead_binds C \<longrightarrow> (\<forall>aad'. aad' \<noteq> aad \<longrightarrow> AESDecryptWithContext C e key aad' = Inl (ErrMsg ''decrypt payload'')))"
proof -
  have o: "gcm_Open C k n (gcm_Seal C k n p aad) aad = Some p"
    using assms by (auto simp: aead_correct_def aes_key_ok_def)
  have b: "aead_binds C \<Longrightarrow> aad' \<noteq> aad \<Longrightarrow> gcm_Open C k n (gcm_Seal C k n p aad) aad' = None" for aad'
    by (simp add: aead_binds_def)
  show ?thesis
    using o b assms by (auto simp: AESEncryptWithContext_def AESDecryptWithContext_def aes_payload_text Std_roundtrip)
qed

lemma public_key_roundtrip:
  assumes "length k = 32"
  shows "ParsePublicKey (EncodePublicKey k) = Inr k" "EncodePublicKey k \<noteq> []"
proof -
  have r: "base64_RawURL_Decode (base64_RawURL_Encode k) = Some k" by (rule RawURL_roundtrip)
  then show "ParsePublicKey (EncodePublicKey k) = Inr k"
    using assms by (simp add: ParsePublicKey_def EncodePublicKey_def bytesToKey_def)
  have "base64_RawURL_Decode [] = Some []" using RawURL_roundtrip [of "[]"] by (simp add: base64_RawURL_Encode_def b64_enc_def)
  then show "EncodePublicKey k \<noteq> []" using r assms by (auto simp: EncodePublicKey_def)
qed

section \<open>Properties\<close>

text \<open>Messages sealed for a recipient in a context open with the recipient's private key in exactly that
  context: in every other context decryption reports a context mismatch.\<close>

theorem box_opens_in_its_context:
  assumes "box_correct C" "length sk = 32" "length esk = 32" "length n = 24"
  shows "\<exists>e. EncryptWithContext C (Some esk) (Some n) p (box_Public C sk) ctx = Inr e \<and>
     (\<forall>ctx'. DecryptWithContext C e sk ctx' =
        (if ctx' = ctx then Inr p else Inl (ErrMsg ''envelope context mismatch'')))"
proof -
  obtain e where e: "seal C (Some esk) (Some n) p (box_Public C sk) ctx 2 = Inr e"
    using seal_parse [OF assms, of 2 p ctx] by auto
  then show ?thesis
    using Decrypt_sealed [OF assms, of 2 p ctx e] by (simp add: EncryptWithContext_def encryptedEnvelopeVersionV2_def)
qed

theorem box_opens_in_its_context_witness:
  "\<exists>e. EncryptWithContext toy_crypto (Some (replicate 32 CHR ''e'')) (Some (replicate 24 CHR ''n'')) ''hello''
        (replicate 32 CHR ''s'') ''channel:a'' = Inr e \<and>
     DecryptWithContext toy_crypto e (replicate 32 CHR ''s'') ''channel:a'' = Inr ''hello'' \<and>
     DecryptWithContext toy_crypto e (replicate 32 CHR ''s'') ''channel:b'' = Inl (ErrMsg ''envelope context mismatch'')"
proof -
  have "box_Public toy_crypto x = x" for x by (simp add: toy_crypto_def)
  then show ?thesis
    using box_opens_in_its_context [OF toy_box, of "replicate 32 CHR ''s''" "replicate 32 CHR ''e''"
        "replicate 24 CHR ''n''" "''hello''" "''channel:a''"] by auto
qed

text \<open>AES-GCM payloads open with their key in the context they were sealed for and in no other one.\<close>

theorem aes_opens_in_its_context:
  assumes "aead_correct C" "aead_binds C" "base64_Std_Decode key = Some k" "length k = 32" "length n = 12"
  shows "\<exists>e. AESEncryptWithContext C (Some n) p key aad = Inr e \<and> AESDecryptWithContext C e key aad = Inr p \<and>
     (\<forall>aad'. aad' \<noteq> aad \<longrightarrow> AESDecryptWithContext C e key aad' = Inl (ErrMsg ''decrypt payload''))"
  using AESDecrypt_sealed [OF assms(1,3-5), of p aad] assms(2) by blast

theorem aes_opens_in_its_context_witness:
  "\<exists>e. AESEncryptWithContext toy_crypto (Some (replicate 12 CHR ''n'')) ''hello'' (base64_Std_Encode (replicate 32 CHR ''k'')) ''a'' = Inr e \<and>
     AESDecryptWithContext toy_crypto e (base64_Std_Encode (replicate 32 CHR ''k'')) ''a'' = Inr ''hello''"
  using aes_opens_in_its_context [OF toy_aead(1) toy_binds Std_roundtrip, of "replicate 32 CHR ''k''" "replicate 12 CHR ''n''"] by fastforce

text \<open>The version of a NaCl envelope is not authenticated: whoever changes the version field of a message
  sealed for one context from 2 to 1 makes it open under every context, the context and its
  separator remaining in front of the plaintext.\<close>

theorem relabelled_envelope_ignores_context:
  assumes "box_correct C" "length sk = 32" "length esk = 32" "length n = 24"
    and "EncryptWithContext C (Some esk) (Some n) p (box_Public C sk) ctx = Inr e"
    and "unmarshal_envelope (json_Unmarshal e) = Some env"
  shows "DecryptWithContext C (json_Marshal (marshal_envelope (env\<lparr>en_Version := 1\<rparr>))) sk ctx' =
     Inr (ctx @ contextSeparator # p)"
  by (rule relabelled_opens [OF assms])

theorem relabelled_envelope_ignores_context_witness:
  "\<exists>env. DecryptWithContext toy_crypto (json_Marshal (marshal_envelope (env\<lparr>en_Version := 1\<rparr>))) (replicate 32 CHR ''s'') ''channel:b'' =
     Inr (''channel:a'' @ contextSeparator # ''hello'')"
proof -
  let ?sk = "replicate 32 CHR ''s''" and ?esk = "replicate 32 CHR ''e''" and ?n = "replicate 24 CHR ''n''"
  obtain e env where "seal toy_crypto (Some ?esk) (Some ?n) ''hello'' (box_Public toy_crypto ?sk) ''channel:a'' 2 = Inr e"
    "e = json_Marshal (marshal_envelope env)"
    using seal_parse [OF toy_box, of ?sk ?esk ?n 2 "''hello''" "''channel:a''"] by auto
  then have "EncryptWithContext toy_crypto (Some ?esk) (Some ?n) ''hello'' (box_Public toy_crypto ?sk) ''channel:a'' = Inr e"
    "unmarshal_envelope (json_Unmarshal e) = Some env"
    by (simp_all add: EncryptWithContext_def encryptedEnvelopeVersionV2_def envelope_text)
  then show ?thesis
    using relabelled_envelope_ignores_context [OF toy_box, of ?sk ?esk ?n "''hello''" "''channel:a''" e env "''channel:b''"] by auto
qed

end
