(* ===== verification/Publish.thy ===== *)
theory Publish
  imports ChannelService Envelope
begin

text \<open>
  The publish policy \<open>internal/service/publish.go\<close>: every event body passes through the channel's
  encryption mode before it reaches the broker. The broker is any state with a publish operation.
\<close>

definition ChannelEncryptionContext :: "string \<Rightarrow> string" where
  "ChannelEncryptionContext channel = ChannelContext channel"

text \<open>\<open>r1\<close> and \<open>r2\<close> are the random bytes: the nonce of AES-GCM, or ephemeral key and nonce of a box.\<close>

definition EncryptForChannel ::
  "crypto \<Rightarrow> string option \<Rightarrow> string option \<Rightarrow> raft_store \<Rightarrow> string \<Rightarrow> string \<Rightarrow> string result" where
  "EncryptForChannel C r1 r2 rs channel body =
     bindE (ResolveChannelConfig C rs channel) (\<lambda>ch.
     bindE (if ch_EncryptionMode ch = [] then
              (case ResolveChannelEncryption C rs channel of
                 Inl rerr \<Rightarrow> (if rerr \<noteq> ErrNotFound then Inl rerr else Inr ([], [], []))
               | Inr res \<Rightarrow> Inr res)
            else Inr (ch_EncryptionMode ch, ch_EncryptionKey ch, ch_EncryptionPublicKey ch)) (\<lambda>(mode, key, pub).
       let aad = ChannelEncryptionContext channel in
       if mode = ''server_side'' then
         (if key = [] then Inl (ErrMsg ''server_side channel has no encryption key'')
          else AESEncryptWithContext C r1 body key aad)
       else if mode = ''e2e'' then
         (if pub = [] then Inl (ErrMsg ''e2e channel has no public key'')
          else if IsEncrypted body then Inr body
          else bindE (ParsePublicKey pub) (\<lambda>pubKey. EncryptWithContext C r1 r2 body pubKey aad))
       else Inr body))"

text \<open>\<open>None\<close> is a nil broker; \<open>pub\<close> is its \<open>Publish\<close>.\<close>

definition PublishEvent ::
  "crypto \<Rightarrow> string option \<Rightarrow> string option \<Rightarrow> raft_store \<Rightarrow> ('b \<Rightarrow> string \<Rightarrow> string \<Rightarrow> error option \<times> 'b) \<Rightarrow>
     'b option \<Rightarrow> string \<Rightarrow> string \<Rightarrow> string result \<times> 'b option" where
  "PublishEvent C r1 r2 rs pub broker channel body = (case broker of
       None \<Rightarrow> (Inl (ErrMsg ''publish: broker required''), None)
     | Some b \<Rightarrow> (case EncryptForChannel C r1 r2 rs channel body of
         Inl e \<Rightarrow> (Inl e, Some b)
       | Inr encrypted \<Rightarrow> (case pub b channel encrypted of
           (Some e, b') \<Rightarrow> (Inl e, Some b')
         | (None, b') \<Rightarrow> (Inr encrypted, Some b'))))"

section \<open>Lemmas\<close>

lemma mode_resolved:
  "ch_EncryptionMode (domain_ResolveChannelConfig ch g) = [] \<longleftrightarrow> ch_EncryptionMode ch = [] \<and> \<not> ch_EncryptionEnabled ch"
  by (auto simp: resolve_fields MigrateChannel_mode)

text \<open>For a stored channel the policy is decided by its migrated mode and keys.\<close>

lemma EncryptForChannel_stored:
  assumes "GetChannel C rs i = Inr ch" "GetGlobalConfig C rs = Inr g"
  shows "EncryptForChannel C r1 r2 rs i body =
     (let mode = ch_EncryptionMode (MigrateChannel ch) in
      if mode = ''server_side'' then
        (if ch_EncryptionKey ch = [] then Inl (ErrMsg ''server_side channel has no encryption key'')
         else AESEncryptWithContext C r1 body (ch_EncryptionKey ch) (ChannelContext i))
      else if mode = ''e2e'' then
        (if ch_EncryptionPublicKey ch = [] then Inl (ErrMsg ''e2e channel has no public key'')
         else if IsEncrypted body then Inr body
         else bindE (ParsePublicKey (ch_EncryptionPublicKey ch))
                (\<lambda>pk. EncryptWithContext C r1 r2 body pk (ChannelContext i)))
      else Inr body)"
proof -
  have r: "ResolveChannelEncryption C rs i = Inr (ch_EncryptionMode (MigrateChannel ch),
      ch_EncryptionKey ch, ch_EncryptionPublicKey ch)"
    using assms(1) by (simp add: ResolveChannelEncryption_def Let_def)
  show ?thesis
    unfolding EncryptForChannel_def ResolveChannelConfig_ok [OF assms] r
    by (simp add: resolve_fields Let_def ChannelEncryptionContext_def)
qed

section \<open>Properties\<close>

text \<open>A store with an end-to-end channel \<open>c1\<close> whose private key is \<open>kkk...\<close> in the concrete instance, and a
  channel \<open>c2\<close> that should be encrypted by the server and has no key.\<close>

definition demo_e2e :: channel where
  "demo_e2e = zero_channel\<lparr>ch_ID := ''c1'', ch_EncryptionMode := ''e2e'',
     ch_EncryptionPublicKey := EncodePublicKey (replicate 32 CHR ''k'')\<rparr>"

definition demo_keyless :: channel where
  "demo_keyless = zero_channel\<lparr>ch_ID := ''c2'', ch_EncryptionMode := ''server_side''\<rparr>"

definition demo_encrypted :: raft_store where
  "demo_encrypted = with_bucket demo_store
     [(''/channels/c1/'', marshal_channel demo_e2e), (''/channels/c2/'', marshal_channel demo_keyless)]"

lemma demo_encrypted_ready: "store_ready demo_encrypted"
  unfolding demo_encrypted_def by (rule store_ready_with) (simp_all add: demo_store_ready kv_wf_def)

lemma demo_encrypted_bucket: "bucket demo_encrypted =
     [(''/channels/c1/'', marshal_channel demo_e2e), (''/channels/c2/'', marshal_channel demo_keyless)]"
  by (simp add: demo_encrypted_def)

lemma demo_encrypted_read: "GetChannel toy_crypto demo_encrypted ''c1'' = Inr demo_e2e"
  "GetChannel toy_crypto demo_encrypted ''c2'' = Inr demo_keyless" "\<exists>g. GetGlobalConfig toy_crypto demo_encrypted = Inr g"
proof -
  have o: "openString toy_crypto rs [] = Inr []" for rs by (simp add: openString_def split: option.split)
  then have "openChannel toy_crypto demo_encrypted demo_e2e = Inr demo_e2e"
    "openChannel toy_crypto demo_encrypted demo_keyless = Inr demo_keyless"
    by (simp_all add: openChannel_def demo_e2e_def demo_keyless_def zero_channel_def)
  then show "GetChannel toy_crypto demo_encrypted ''c1'' = Inr demo_e2e"
    "GetChannel toy_crypto demo_encrypted ''c2'' = Inr demo_keyless"
    by (simp_all add: GetChannel_ready [OF demo_encrypted_ready] demo_encrypted_bucket channelKey_def kv_get_Cons channel_roundtrip)
  show "\<exists>g. GetGlobalConfig toy_crypto demo_encrypted = Inr g"
    by (simp add: GetGlobalConfig_def get_ready [OF demo_encrypted_ready] demo_encrypted_bucket kv_get_Cons)
      (simp add: openConfig_def o DefaultGlobalConfig_def)
qed

text \<open>Publishing fails closed. On a stored channel whose mode demands encryption but whose key for it is
  missing or unusable (no server-side key, one that is not 32 bytes in base64, no public key), an
  event that is not already end-to-end encrypted is refused and the broker does not see it.\<close>

theorem publish_fails_closed:
  assumes "GetChannel C rs i = Inr ch" "GetGlobalConfig C rs = Inr g"
    and "ch_EncryptionMode (MigrateChannel ch) = ''server_side'' \<and>
           (case base64_Std_Decode (ch_EncryptionKey ch) of None \<Rightarrow> True | Some k \<Rightarrow> length k \<noteq> 32) \<or>
         ch_EncryptionMode (MigrateChannel ch) = ''e2e'' \<and>
           (ch_EncryptionPublicKey ch = [] \<or> \<not> IsEncrypted body \<and> \<not> is_ok (ParsePublicKey (ch_EncryptionPublicKey ch)))"
  shows "\<exists>e. PublishEvent C r1 r2 rs pub (Some b) i body = (Inl e, Some b)"
proof -
  have "\<exists>e. EncryptForChannel C r1 r2 rs i body = Inl e"
    using assms(3) unfolding EncryptForChannel_stored [OF assms(1,2)]
    by (auto simp: Let_def AESEncryptWithContext_def is_ok_def split: option.splits sum.splits)
  then show ?thesis by (auto simp: PublishEvent_def)
qed

theorem publish_fails_closed_witness:
  "\<exists>e. PublishEvent toy_crypto (Some []) None demo_encrypted (\<lambda>b c d. (None, b @ [(c, d)])) (Some []) ''c2'' ''event'' = (Inl e, Some [])"
proof -
  obtain g where "GetGlobalConfig toy_crypto demo_encrypted = Inr g" using demo_encrypted_read(3) by blast
  moreover have "ch_EncryptionMode (MigrateChannel demo_keyless) = ''server_side''" "ch_EncryptionKey demo_keyless = []"
    by (simp_all add: demo_keyless_def MigrateChannel_mode zero_channel_def)
  moreover have "base64_Std_Decode [] = Some []" by (simp add: base64_Std_Decode_def unpad4_def strip_newlines_def b64_dec_def)
  ultimately show ?thesis using publish_fails_closed [OF demo_encrypted_read(2), of g] by simp
qed



end
