(* ===== verification/RateLimit.thy ===== *)
theory RateLimit
  imports RaftAuth
begin

text \<open>
  Abuse protection \<open>internal/service/ratelimit.go\<close>: the sliding-window request limiter, the login
  throttle, the tracker that bans addresses after many different failed credentials, and the
  extraction of the client address behind trusted proxies. The current time is an argument of
  every operation. The package \<open>net\<close> is a record of functions.
\<close>

definition clampWindow :: "int \<Rightarrow> int" where
  "clampWindow s = (if s \<le> 0 then 300 else s)"

text \<open>\<open>now.Add(-time.Duration(windowSeconds) * time.Second)\<close>\<close>

definition window_start :: "time \<Rightarrow> int \<Rightarrow> time" where
  "window_start now windowSeconds = time_Add now (seconds (- windowSeconds))"

section \<open>The request limiter\<close>

record rate_limiter =
  rl_entries :: "(string, time list) kv"
  rl_lastSweep :: time

definition NewRateLimiter :: rate_limiter where
  "NewRateLimiter = \<lparr>rl_entries = [], rl_lastSweep = 0\<rparr>"

definition rl_sweep :: "time \<Rightarrow> int \<Rightarrow> rate_limiter \<Rightarrow> rate_limiter" where
  "rl_sweep now windowSeconds rl = (let cutoff = window_start now windowSeconds in
     rl\<lparr>rl_entries := kv_update_all (\<lambda>ip times.
       if length times = 0 \<or> time_Before (last times) cutoff then None else Some times) (rl_entries rl)\<rparr>)"

definition RateLimiter_Sweep :: "time \<Rightarrow> rate_limiter \<Rightarrow> int \<Rightarrow> rate_limiter" where
  "RateLimiter_Sweep now rl windowSeconds = rl_sweep now (clampWindow windowSeconds) rl"

definition rl_maybeSweep :: "time \<Rightarrow> int \<Rightarrow> rate_limiter \<Rightarrow> rate_limiter" where
  "rl_maybeSweep now windowSeconds rl =
     (if \<not> time_IsZero (rl_lastSweep rl) \<and> time_Sub now (rl_lastSweep rl) < seconds windowSeconds then rl
      else rl_sweep now windowSeconds (rl\<lparr>rl_lastSweep := now\<rparr>))"

definition entry :: "(string, 'a list) kv \<Rightarrow> string \<Rightarrow> 'a list" where
  "entry m k = (case kv_get m k of None \<Rightarrow> [] | Some xs \<Rightarrow> xs)"

definition RateLimiter_Allow :: "time \<Rightarrow> rate_limiter \<Rightarrow> string \<Rightarrow> int \<Rightarrow> int \<Rightarrow> bool \<times> rate_limiter" where
  "RateLimiter_Allow now rl0 ip maxRequests windowSeconds =
     (let rl = rl_maybeSweep now (clampWindow windowSeconds) rl0;
          windowStart = window_start now windowSeconds;
          valid = filter (\<lambda>t. time_After t windowStart) (entry (rl_entries rl) ip)
      in if int (length valid) \<ge> maxRequests then (False, rl\<lparr>rl_entries := kv_put ip valid (rl_entries rl)\<rparr>)
         else (True, rl\<lparr>rl_entries := kv_put ip (valid @ [now]) (rl_entries rl)\<rparr>))"

section \<open>The login throttle\<close>

record login_throttle =
  lt_attempts :: "(string, time list) kv"

definition NewLoginThrottle :: login_throttle where
  "NewLoginThrottle = \<lparr>lt_attempts = []\<rparr>"

definition LoginThrottle_Allow :: "time \<Rightarrow> login_throttle \<Rightarrow> string \<Rightarrow> int \<Rightarrow> int \<Rightarrow> bool \<times> login_throttle" where
  "LoginThrottle_Allow now lt key maxAttempts0 windowSeconds =
     (let maxAttempts = (if maxAttempts0 \<le> 0 then 10 else maxAttempts0);
          cutoff = window_start now (clampWindow windowSeconds);
          valid = filter (\<lambda>t. time_After t cutoff) (entry (lt_attempts lt) key)
      in if int (length valid) \<ge> maxAttempts then (False, lt\<lparr>lt_attempts := kv_put key valid (lt_attempts lt)\<rparr>)
         else (True, lt\<lparr>lt_attempts := kv_put key (valid @ [now]) (lt_attempts lt)\<rparr>))"

definition LoginThrottle_Clear :: "login_throttle \<Rightarrow> string \<Rightarrow> login_throttle" where
  "LoginThrottle_Clear lt key = lt\<lparr>lt_attempts := kv_del key (lt_attempts lt)\<rparr>"

section \<open>The ban tracker\<close>

record ban_entry =
  be_fingerprint :: string
  be_timestamp :: time

record ban_info =
  bi_IP :: string
  bi_Until :: time
  bi_UniqueFailures :: nat

record ban_tracker =
  bt_failures :: "(string, ban_entry list) kv"
  bt_banned :: "(string, time) kv"
  bt_lastSweep :: time

definition NewBanTracker :: ban_tracker where
  "NewBanTracker = \<lparr>bt_failures = [], bt_banned = [], bt_lastSweep = 0\<rparr>"

definition recordFailureLocked :: "ban_tracker \<Rightarrow> string \<Rightarrow> string \<Rightarrow> int \<Rightarrow> time \<Rightarrow> ban_tracker" where
  "recordFailureLocked bt ip fingerprint windowSeconds now =
     (let windowStart = window_start now windowSeconds;
          entries = entry (bt_failures bt) ip
      in if list_ex (\<lambda>e. time_After (be_timestamp e) windowStart \<and> be_fingerprint e = fingerprint) entries then bt
         else bt\<lparr>bt_failures := kv_put ip
                (filter (\<lambda>e. time_After (be_timestamp e) windowStart) entries @
                  [\<lparr>be_fingerprint = fingerprint, be_timestamp = now\<rparr>]) (bt_failures bt)\<rparr>)"

definition IsBanned :: "time \<Rightarrow> ban_tracker \<Rightarrow> string \<Rightarrow> bool \<times> ban_tracker" where
  "IsBanned now bt ip = (case kv_get (bt_banned bt) ip of
       None \<Rightarrow> (False, bt)
     | Some t \<Rightarrow> (if time_Before now t then (True, bt)
                  else (False, bt\<lparr>bt_banned := kv_del ip (bt_banned bt)\<rparr>)))"

definition banIfSuspiciousLocked :: "ban_tracker \<Rightarrow> string \<Rightarrow> int \<Rightarrow> int \<Rightarrow> int \<Rightarrow> time \<Rightarrow> bool \<times> ban_tracker" where
  "banIfSuspiciousLocked bt ip maxUniqueFailures banDurationSeconds windowSeconds now =
     (let valid = filter (\<lambda>e. time_Sub now (be_timestamp e) \<le> seconds windowSeconds) (entry (bt_failures bt) ip);
          fingerprints = remdups (map be_fingerprint valid);
          bt1 = bt\<lparr>bt_failures := kv_put ip valid (bt_failures bt)\<rparr>
      in if int (length fingerprints) \<ge> maxUniqueFailures
         then (True, bt1\<lparr>bt_banned := kv_put ip (time_Add now (seconds banDurationSeconds)) (bt_banned bt1)\<rparr>)
         else (False, bt1))"

definition bt_sweep :: "time \<Rightarrow> int \<Rightarrow> ban_tracker \<Rightarrow> ban_tracker" where
  "bt_sweep now windowSeconds bt = (let cutoff = window_start now windowSeconds in
     bt\<lparr>bt_failures := kv_update_all (\<lambda>ip entries.
          let kept = filter (\<lambda>e. time_After (be_timestamp e) cutoff) entries
          in if length kept = 0 then None else Some kept) (bt_failures bt),
        bt_banned := kv_update_all (\<lambda>ip t. if \<not> time_Before now t then None else Some t) (bt_banned bt)\<rparr>)"

definition BanTracker_Sweep :: "time \<Rightarrow> ban_tracker \<Rightarrow> int \<Rightarrow> ban_tracker" where
  "BanTracker_Sweep now bt windowSeconds = bt_sweep now (clampWindow windowSeconds) (bt\<lparr>bt_lastSweep := now\<rparr>)"

definition maybeSweepLocked :: "ban_tracker \<Rightarrow> time \<Rightarrow> int \<Rightarrow> ban_tracker" where
  "maybeSweepLocked bt now windowSeconds =
     (if \<not> time_IsZero (bt_lastSweep bt) \<and> time_Sub now (bt_lastSweep bt) < seconds windowSeconds then bt
      else bt_sweep now windowSeconds (bt\<lparr>bt_lastSweep := now\<rparr>))"

definition recordAndBan :: "time \<Rightarrow> ban_tracker \<Rightarrow> string \<Rightarrow> string \<Rightarrow> int \<Rightarrow> int \<Rightarrow> int \<Rightarrow> ban_tracker" where
  "recordAndBan now bt ip fingerprint maxUniqueFailures banDurationSeconds windowSeconds =
     snd (banIfSuspiciousLocked
            (recordFailureLocked (maybeSweepLocked bt now windowSeconds) ip fingerprint windowSeconds now)
            ip maxUniqueFailures banDurationSeconds windowSeconds now)"

definition ListBans :: "time \<Rightarrow> ban_tracker \<Rightarrow> ban_info list \<times> ban_tracker" where
  "ListBans now bt =
     (map (\<lambda>(ip, t). \<lparr>bi_IP = ip, bi_Until = t,
         bi_UniqueFailures = length (remdups (map be_fingerprint (entry (bt_failures bt) ip)))\<rparr>)
        (filter (\<lambda>(ip, t). time_Before now t) (bt_banned bt)),
      bt\<lparr>bt_banned := filter (\<lambda>(ip, t). time_Before now t) (bt_banned bt)\<rparr>)"

definition Unban :: "ban_tracker \<Rightarrow> string \<Rightarrow> ban_tracker" where
  "Unban bt ip = bt\<lparr>bt_banned := kv_del ip (bt_banned bt)\<rparr>"

section \<open>The client address\<close>

text \<open>The functions of the package \<open>net\<close> the source calls; an address is its 16-byte form, a
  network its set of addresses.\<close>

type_synonym ip = string

record netlib =
  net_ParseIP :: "string \<Rightarrow> ip option"
  net_ParseCIDR :: "string \<Rightarrow> (ip \<Rightarrow> bool) option"
  net_SplitHostPort :: "string \<Rightarrow> (string \<times> string) option"
  net_String :: "ip \<Rightarrow> string"

record http_request =
  rq_RemoteAddr :: string
  rq_Header :: "string \<Rightarrow> string"

fun ParseTrustedProxyCIDRs :: "netlib \<Rightarrow> string list \<Rightarrow> (ip \<Rightarrow> bool) list" where
  "ParseTrustedProxyCIDRs N [] = []"
| "ParseTrustedProxyCIDRs N (e0 # es) =
     (let e = TrimSpace e0 in
      if e = [] then ParseTrustedProxyCIDRs N es
      else if Contains e ''/'' then
        (case net_ParseCIDR N e of
           Some n \<Rightarrow> n # ParseTrustedProxyCIDRs N es
         | None \<Rightarrow> ParseTrustedProxyCIDRs N es)
      else (case net_ParseIP N e of
          Some ip \<Rightarrow> (\<lambda>x. x = ip) # ParseTrustedProxyCIDRs N es
        | None \<Rightarrow> ParseTrustedProxyCIDRs N es))"

definition ipInAny :: "ip \<Rightarrow> (ip \<Rightarrow> bool) list \<Rightarrow> bool" where
  "ipInAny ip nets = list_ex (\<lambda>n. n ip) nets"

definition remoteIP :: "netlib \<Rightarrow> http_request \<Rightarrow> ip result" where
  "remoteIP N r = (case net_SplitHostPort N (rq_RemoteAddr r) of
       None \<Rightarrow> of_option (ErrMsg ''invalid RemoteAddr'') (net_ParseIP N (rq_RemoteAddr r))
     | Some (host, _) \<Rightarrow> of_option (ErrMsg ''invalid IP address'') (net_ParseIP N host))"

text \<open>The loop over the parts of \<open>X-Forwarded-For\<close>, from the last to the first.\<close>

fun xff_candidate :: "netlib \<Rightarrow> (ip \<Rightarrow> bool) list \<Rightarrow> string list \<Rightarrow> ip option" where
  "xff_candidate N trusted [] = None"
| "xff_candidate N trusted (part # parts) = (case net_ParseIP N (TrimSpace part) of
       None \<Rightarrow> xff_candidate N trusted parts
     | Some candidate \<Rightarrow> (if ipInAny candidate trusted then xff_candidate N trusted parts else Some candidate))"

definition GetRealIP :: "netlib \<Rightarrow> http_request \<Rightarrow> bool \<Rightarrow> (ip \<Rightarrow> bool) list \<Rightarrow> ip result" where
  "GetRealIP N r behindReverseProxy trustedCIDRs =
     bindE (remoteIP N r) (\<lambda>peer.
     if \<not> behindReverseProxy \<or> \<not> ipInAny peer trustedCIDRs then Inr peer
     else (let xff = rq_Header r ''X-Forwarded-For'';
               xrip = rq_Header r ''X-Real-IP'' in
       (case (if xff \<noteq> [] then xff_candidate N trustedCIDRs (rev (Split CHR '','' xff)) else None) of
          Some candidate \<Rightarrow> Inr candidate
        | None \<Rightarrow> (case (if xrip \<noteq> [] then net_ParseIP N (TrimSpace xrip) else None) of
              Some ip \<Rightarrow> Inr ip
            | None \<Rightarrow> Inr peer))))"

definition RecordCredentialFailure ::
  "crypto \<Rightarrow> netlib \<Rightarrow> time \<Rightarrow> raft_store \<Rightarrow> ban_tracker \<Rightarrow> http_request \<Rightarrow> string \<Rightarrow> ban_tracker" where
  "RecordCredentialFailure C N now rs tracker r fingerprint = (case GetGlobalConfig C rs of
       Inl _ \<Rightarrow> tracker
     | Inr cfg \<Rightarrow> (if \<not> sc_BanEnabled (gc_Server cfg) then tracker
         else (case GetRealIP N r (sc_BehindReverseProxy (gc_Server cfg))
                      (ParseTrustedProxyCIDRs N (sc_TrustedProxyCIDRs (gc_Server cfg))) of
             Inl _ \<Rightarrow> tracker
           | Inr ip \<Rightarrow> recordAndBan now tracker (net_String N ip) fingerprint
               (sc_BanMaxUniqueFailures (gc_Server cfg)) (sc_BanDurationSeconds (gc_Server cfg))
               (clampWindow (sc_BanWindowSeconds (gc_Server cfg))))))"

definition FingerprintLogin :: "crypto \<Rightarrow> string \<Rightarrow> string" where
  "FingerprintLogin C username = hex_EncodeToString (sha256_Sum C (''login:'' @ username))"

definition FingerprintToken :: "crypto \<Rightarrow> string \<Rightarrow> string" where
  "FingerprintToken C token = hex_EncodeToString (sha256_Sum C (''token:'' @ token))"

definition FingerprintSignature :: "crypto \<Rightarrow> string \<Rightarrow> string \<Rightarrow> string" where
  "FingerprintSignature C channel signatureValue =
     hex_EncodeToString (sha256_Sum C (''signature:'' @ channel @ '':'' @ signatureValue))"

definition ExtractSignatureValue :: "http_request \<Rightarrow> string" where
  "ExtractSignatureValue r =
     (if rq_Header r ''X-Hub-Signature-256'' \<noteq> [] then rq_Header r ''X-Hub-Signature-256''
      else if rq_Header r ''X-Gitlab-Token'' \<noteq> [] then rq_Header r ''X-Gitlab-Token''
      else if rq_Header r ''X-Hub-Signature'' \<noteq> [] then rq_Header r ''X-Hub-Signature''
      else if rq_Header r ''X-Gitea-Signature'' \<noteq> [] then rq_Header r ''X-Gitea-Signature''
      else ''unknown'')"

section \<open>Sliding windows\<close>

text \<open>The contract of a limiter with a fixed budget and window: it lets a call through exactly
  when fewer than the budget of its recorded times lie in the window, and records the calls it
  lets through. \<open>inv s t\<close> holds of states whose records are not later than \<open>t\<close>.\<close>

fun window_run :: "(time \<Rightarrow> 's \<Rightarrow> 'k \<Rightarrow> bool \<times> 's) \<Rightarrow> 's \<Rightarrow> (time \<times> 'k) list \<Rightarrow> (time \<times> 'k \<times> bool) list" where
  "window_run allow s [] = []"
| "window_run allow s ((now, k) # calls) =
     (let (b, s') = allow now s k in (now, k, b) # window_run allow s' calls)"

definition granted :: "'k \<Rightarrow> (time \<times> 'k \<times> bool) list \<Rightarrow> time list" where
  "granted k tr = map fst (filter (\<lambda>(u, k', b). k' = k \<and> b) tr)"

definition in_window :: "duration \<Rightarrow> time \<Rightarrow> time list \<Rightarrow> time list" where
  "in_window W t us = filter (\<lambda>u. t - W < u \<and> u \<le> t) us"

locale sliding_window =
  fixes allow :: "time \<Rightarrow> 's \<Rightarrow> 'k \<Rightarrow> bool \<times> 's"
    and log :: "'s \<Rightarrow> 'k \<Rightarrow> time list"
    and inv :: "'s \<Rightarrow> time \<Rightarrow> bool"
    and budget :: int and W :: duration
  assumes allow_iff: "inv s t \<Longrightarrow> t \<le> now \<Longrightarrow>
      fst (allow now s k) \<longleftrightarrow> int (length (filter (\<lambda>u. now - W < u) (log s k))) < budget"
    and log_after: "inv s t \<Longrightarrow> t \<le> now \<Longrightarrow>
      filter (\<lambda>u. now - W < u) (log (snd (allow now s k)) k') =
        filter (\<lambda>u. now - W < u) (log s k') @ (if k' = k \<and> fst (allow now s k) \<and> 0 < W then [now] else [])"
    and inv_after: "inv s t \<Longrightarrow> t \<le> now \<Longrightarrow> inv (snd (allow now s k)) now"
begin

lemma granted_Cons: "granted k ((u, k', b) # tr) = (if k' = k \<and> b then u # granted k tr else granted k tr)"
  by (simp add: granted_def)

lemma run_bound:
  assumes W: "0 < W" and b: "0 \<le> budget"
  shows "inv s t0 \<Longrightarrow> sorted (t0 # map fst calls) \<Longrightarrow> (\<forall>u \<in> set H. u \<le> t0) \<Longrightarrow>
    (\<And>u. t0 \<le> u \<Longrightarrow> filter (\<lambda>x. u - W < x) (log s k) = filter (\<lambda>x. u - W < x) H) \<Longrightarrow>
    (\<And>t. int (length (in_window W t H)) \<le> budget) \<Longrightarrow>
    int (length (in_window W t (H @ granted k (window_run allow s calls)))) \<le> budget"
proof (induction calls arbitrary: s t0 H)
  case Nil
  then show ?case by (simp add: granted_def)
next
  case (Cons c calls)
  obtain now k' where c: "c = (now, k')" by (cases c)
  obtain ok s' where a: "allow now s k' = (ok, s')" by (cases "allow now s k'")
  have t: "t0 \<le> now" "sorted (now # map fst calls)" using Cons.prems(2) c by auto
  have i: "inv s' now" using inv_after [OF Cons.prems(1) t(1), of k'] a by simp
  let ?H = "H @ (if k' = k \<and> ok then [now] else [])"
  have "filter (\<lambda>x. u - W < x) (log s' k) = filter (\<lambda>x. u - W < x) ?H" if u: "now \<le> u" for u
  proof -
    have sub: "filter (\<lambda>x. u - W < x) xs = filter (\<lambda>x. u - W < x) (filter (\<lambda>x. now - W < x) xs)" for xs :: "time list"
      using u by (auto simp: filter_filter intro: filter_cong)
    have "filter (\<lambda>x. now - W < x) (log s' k) = filter (\<lambda>x. now - W < x) ?H"
      using log_after [OF Cons.prems(1) t(1), of k' k] a W Cons.prems(4) [OF t(1)] by auto
    then show ?thesis using sub [of "log s' k"] sub [of ?H] by simp
  qed
  moreover have "int (length (in_window W v ?H)) \<le> budget" for v
  proof (cases "k' = k \<and> ok \<and> now \<le> v \<and> v - W < now")
    case True
    have "length (in_window W v H) \<le> length (filter (\<lambda>x. now - W < x) H)"
      using True unfolding in_window_def by (induction H) auto
    moreover have "int (length (filter (\<lambda>x. now - W < x) H)) < budget"
      using allow_iff [OF Cons.prems(1) t(1), of k'] True a Cons.prems(4) [OF t(1)] by simp
    ultimately show ?thesis using True by (simp add: in_window_def)
  next
    case False
    then have "in_window W v ?H = in_window W v H" by (auto simp: in_window_def)
    then show ?thesis using Cons.prems(5) by simp
  qed
  ultimately have "int (length (in_window W t (?H @ granted k (window_run allow s' calls)))) \<le> budget"
    by (intro Cons.IH [OF i t(2)]) (use Cons.prems(3) t in \<open>auto intro: order_trans\<close>)
  moreover have "window_run allow s (c # calls) = (now, k', ok) # window_run allow s' calls" by (simp add: c a)
  ultimately show ?case by (cases "k' = k \<and> ok") (auto simp: granted_Cons)
qed

text \<open>Started with no records, it never lets more than its budget through in any window.\<close>

lemma never_exceeds:
  assumes "0 < W" "0 \<le> budget" "inv s t0" "sorted (t0 # map fst calls)" "log s k = []"
  shows "int (length (in_window W t (granted k (window_run allow s calls)))) \<le> budget"
  using run_bound [OF assms(1-4), of "[]" k t] assms(2,5) by (simp add: in_window_def)

end

section \<open>The two limiters are sliding windows\<close>

definition log_ok :: "(string, time list) kv \<Rightarrow> time \<Rightarrow> bool" where
  "log_ok m t \<longleftrightarrow> kv_wf m \<and> (\<forall>k. sorted (entry m k) \<and> (\<forall>u \<in> set (entry m k). u \<le> t))"

lemma entry_put: "entry (kv_put k v m) k' = (if k' = k then v else entry m k')"
  by (simp add: entry_def kvm.get_put)

lemma window_start_ok: "secs_ok w \<Longrightarrow> window_start now w = now - seconds w"
  by (simp add: window_start_def time_Add_def seconds_ok secs_ok_def)

lemma log_okD: "log_ok m t \<Longrightarrow> kv_wf m" "log_ok m t \<Longrightarrow> sorted (entry m k)"
    "log_ok m t \<Longrightarrow> t \<le> now \<Longrightarrow> u \<in> set (entry m k) \<Longrightarrow> u \<le> now"
  unfolding log_ok_def by (blast, blast, meson order_trans)

lemma log_ok_put:
  assumes "log_ok m t" "t \<le> now" "xs = filter P (entry m k) \<or> xs = filter P (entry m k) @ [now]"
  shows "log_ok (kv_put k xs m) now"
proof -
  have "sorted xs \<and> (\<forall>u \<in> set xs. u \<le> now)"
    using assms(3) log_okD(2) [OF assms(1), of k] log_okD(3) [OF assms(1,2), of _ k]
    by (auto simp: sorted_append sorted_wrt_filter)
  moreover have "sorted (entry m k') \<and> (\<forall>u \<in> set (entry m k'). u \<le> now)" for k'
    using log_okD(2) [OF assms(1), of k'] log_okD(3) [OF assms(1,2), of _ k'] by blast
  ultimately show ?thesis
    using log_okD(1) [OF assms(1)] by (auto simp: log_ok_def kvm.wf_put entry_put)
qed

lemmas log_ok_puts = log_ok_put [OF _ _ disjI1 [OF refl]] log_ok_put [OF _ _ disjI2 [OF refl]]

lemma entry_update_all:
  "kv_wf m \<Longrightarrow> (\<And>k xs. f k xs = None \<or> f k xs = Some xs) \<Longrightarrow>
     entry (kv_update_all f m) k = entry m k \<or>
     entry (kv_update_all f m) k = [] \<and> (\<exists>xs. kv_get m k = Some xs \<and> f k xs = None)"
  by (auto simp: entry_def kv_get_update_all split: option.splits) (metis option.inject option.distinct(1))

lemma sweep_entry:
  assumes "log_ok (rl_entries rl) t"
  shows "entry (rl_entries (rl_maybeSweep now w rl)) k = entry (rl_entries rl) k \<or>
     entry (rl_entries (rl_maybeSweep now w rl)) k = [] \<and> (\<forall>u \<in> set (entry (rl_entries rl) k). u < window_start now w)"
proof -
  let ?f = "\<lambda>(ip :: string) times. if length times = 0 \<or> time_Before (last times) (window_start now w) then None else Some times"
  have le: "u < c" if "sorted xs" "last xs < c" "u \<in> set xs" for xs :: "time list" and u c
    using that by (cases xs rule: rev_cases) (auto simp: sorted_append)
  have srt: "sorted xs" if "kv_get (rl_entries rl) k = Some xs" for xs
    using assms that unfolding log_ok_def entry_def by (metis option.simps(5))
  have gone: "\<forall>u \<in> set (entry (rl_entries rl) k). u < window_start now w"
    if "kv_get (rl_entries rl) k = Some xs" "?f k xs = None" for xs
    using that srt le by (auto simp: entry_def time_Before_def split: if_splits)
  have "entry (kv_update_all ?f (rl_entries rl)) k = entry (rl_entries rl) k \<or>
      entry (kv_update_all ?f (rl_entries rl)) k = [] \<and> (\<forall>u \<in> set (entry (rl_entries rl) k). u < window_start now w)"
  proof -
    have id: "?f k xs = None \<or> ?f k xs = Some xs" for k xs by simp
    show ?thesis
      using entry_update_all [OF log_okD(1) [OF assms] id, of k]
    proof (elim disjE conjE exE)
      fix xs assume "entry (kv_update_all ?f (rl_entries rl)) k = []" "kv_get (rl_entries rl) k = Some xs" "?f k xs = None"
      then show ?thesis using gone by blast
    qed (rule disjI1)
  qed
  then show ?thesis by (simp add: rl_maybeSweep_def rl_sweep_def Let_def)
qed

lemma sweep_log_ok: "log_ok (rl_entries rl) t \<Longrightarrow> log_ok (rl_entries (rl_maybeSweep now w rl)) t"
proof -
  assume l: "log_ok (rl_entries rl) t"
  have "kv_wf (rl_entries (rl_maybeSweep now w rl))"
    using l by (simp add: rl_maybeSweep_def rl_sweep_def Let_def log_ok_def kv_wf_update_all)
  moreover have "sorted (entry (rl_entries (rl_maybeSweep now w rl)) k) \<and>
      (\<forall>u \<in> set (entry (rl_entries (rl_maybeSweep now w rl)) k). u \<le> t)" for k
    using sweep_entry [OF l, of now w k] l unfolding log_ok_def by auto
  ultimately show ?thesis by (simp add: log_ok_def)
qed

text \<open>A sweep is not observable.\<close>

lemma sweep_valid:
  assumes "log_ok (rl_entries rl) t"
  shows "filter (\<lambda>u. window_start now w < u) (entry (rl_entries (rl_maybeSweep now w rl)) k) =
     filter (\<lambda>u. window_start now w < u) (entry (rl_entries rl) k)"
  using sweep_entry [OF assms, of now w k] by (fastforce intro!: filter_False [symmetric])

definition rl_inv :: "int \<Rightarrow> rate_limiter \<Rightarrow> time \<Rightarrow> bool" where
  "rl_inv w rl t \<longleftrightarrow> 0 < w \<and> secs_ok w \<and> log_ok (rl_entries rl) t"

interpretation rate_window: sliding_window "\<lambda>now rl ip. RateLimiter_Allow now rl ip m w"
  "\<lambda>rl ip. entry (rl_entries rl) ip" "rl_inv w" m "seconds w" for m w
proof
  fix s t now k assume i: "rl_inv w s t" and t: "t \<le> now"
  have w: "clampWindow w = w" "window_start now w = now - seconds w" "0 < seconds w"
    using i by (simp_all add: rl_inv_def clampWindow_def window_start_ok seconds_pos)
  have l: "log_ok (rl_entries s) t" using i by (simp add: rl_inv_def)
  let ?s = "rl_maybeSweep now w s"
  have v: "filter (\<lambda>u. now - seconds w < u) (entry (rl_entries ?s) k') =
      filter (\<lambda>u. now - seconds w < u) (entry (rl_entries s) k')" for k'
    using sweep_valid [OF l, of now w k'] w by simp
  show "fst (RateLimiter_Allow now s k m w) \<longleftrightarrow>
      int (length (filter (\<lambda>u. now - seconds w < u) (entry (rl_entries s) k))) < m"
    by (auto simp: RateLimiter_Allow_def Let_def w time_After_def v)
  show "filter (\<lambda>u. now - seconds w < u) (entry (rl_entries (snd (RateLimiter_Allow now s k m w))) k') =
      filter (\<lambda>u. now - seconds w < u) (entry (rl_entries s) k') @
      (if k' = k \<and> fst (RateLimiter_Allow now s k m w) \<and> 0 < seconds w then [now] else [])" for k'
    by (auto simp: RateLimiter_Allow_def Let_def w time_After_def v entry_put)
  have "log_ok (rl_entries (snd (RateLimiter_Allow now s k m w))) now"
    using log_ok_puts [OF sweep_log_ok [OF l] t] by (simp add: RateLimiter_Allow_def Let_def)
  then show "rl_inv w (snd (RateLimiter_Allow now s k m w)) now" using i by (simp add: rl_inv_def)
qed

definition lt_inv :: "int \<Rightarrow> login_throttle \<Rightarrow> time \<Rightarrow> bool" where
  "lt_inv w lt t \<longleftrightarrow> secs_ok (clampWindow w) \<and> log_ok (lt_attempts lt) t"

interpretation login_window: sliding_window "\<lambda>now lt key. LoginThrottle_Allow now lt key m w"
  "\<lambda>lt key. entry (lt_attempts lt) key" "lt_inv w" "if m \<le> 0 then 10 else m" "seconds (clampWindow w)" for m w
proof
  fix s t now k assume i: "lt_inv w s t" and t: "t \<le> now"
  let ?W = "seconds (clampWindow w)"
  have w: "window_start now (clampWindow w) = now - ?W" "0 < ?W"
    using i by (auto simp: lt_inv_def window_start_ok clampWindow_def intro!: seconds_pos)
  show "fst (LoginThrottle_Allow now s k m w) \<longleftrightarrow>
      int (length (filter (\<lambda>u. now - ?W < u) (entry (lt_attempts s) k))) < (if m \<le> 0 then 10 else m)"
    by (auto simp: LoginThrottle_Allow_def Let_def w time_After_def)
  show "filter (\<lambda>u. now - ?W < u) (entry (lt_attempts (snd (LoginThrottle_Allow now s k m w))) k') =
      filter (\<lambda>u. now - ?W < u) (entry (lt_attempts s) k') @
      (if k' = k \<and> fst (LoginThrottle_Allow now s k m w) \<and> 0 < ?W then [now] else [])" for k'
    by (auto simp: LoginThrottle_Allow_def Let_def w time_After_def entry_put)
  have "log_ok (lt_attempts (snd (LoginThrottle_Allow now s k m w))) now"
    using log_ok_puts [of "lt_attempts s" t now] i t by (simp add: LoginThrottle_Allow_def Let_def lt_inv_def)
  then show "lt_inv w (snd (LoginThrottle_Allow now s k m w)) now" using i by (simp add: lt_inv_def)
qed

lemma new_windows: "log_ok [] t"
  by (simp add: log_ok_def entry_def)

section \<open>A run of recorded failures\<close>

text \<open>The tracker fed with failures \<open>(time, address, fingerprint)\<close>, and the fingerprints seen from an
  address.\<close>

definition ban_run :: "int \<Rightarrow> int \<Rightarrow> int \<Rightarrow> (time \<times> string \<times> string) list \<Rightarrow> ban_tracker" where
  "ban_run m d w calls = fold (\<lambda>(t, ip, fp) bt. recordAndBan t bt ip fp m d w) calls NewBanTracker"

definition fps_of :: "string \<Rightarrow> (time \<times> string \<times> string) list \<Rightarrow> string set" where
  "fps_of ip calls = {fp. \<exists>t. (t, ip, fp) \<in> set calls}"

text \<open>While all failures lie in the window that starts at \<open>lo\<close>, the tracker holds exactly the fingerprints
  seen, and only addresses with enough of them are banned.\<close>

definition ban_inv :: "int \<Rightarrow> time \<Rightarrow> ban_tracker \<Rightarrow> (time \<times> string \<times> string) list \<Rightarrow> bool" where
  "ban_inv m lo bt calls \<longleftrightarrow> kv_wf (bt_failures bt) \<and> kv_wf (bt_banned bt) \<and>
     (\<forall>ip. be_fingerprint ` set (entry (bt_failures bt) ip) = fps_of ip calls \<and>
        (\<forall>e \<in> set (entry (bt_failures bt) ip). lo < be_timestamp e)) \<and>
     (\<forall>ip. kv_get (bt_banned bt) ip \<noteq> None \<longrightarrow> m \<le> int (card (fps_of ip calls)))"

lemma ban_invD:
  assumes "ban_inv m lo bt calls"
  shows "be_fingerprint ` set (entry (bt_failures bt) ip) = fps_of ip calls"
    "e \<in> set (entry (bt_failures bt) ip) \<Longrightarrow> lo < be_timestamp e"
    "kv_wf (bt_failures bt)" "kv_wf (bt_banned bt)"
    "kv_get (bt_banned bt) ip \<noteq> None \<Longrightarrow> m \<le> int (card (fps_of ip calls))"
  using assms by (auto simp: ban_inv_def)

lemma fps_of_snoc: "fps_of ip (calls @ [(t, ip', fp)]) = fps_of ip calls \<union> (if ip = ip' then {fp} else {})"
  by (auto simp: fps_of_def)

lemma fps_of_finite: "finite (fps_of ip calls)"
proof -
  have "fps_of ip calls \<subseteq> (snd \<circ> snd) ` set calls" by (force simp: fps_of_def)
  then show ?thesis by (rule finite_subset) simp
qed

lemma sweep_keeps:
  assumes "ban_inv m lo bt calls" "window_start t w \<le> lo"
  shows "ban_inv m lo (maybeSweepLocked bt t w) calls"
    "entry (bt_failures (maybeSweepLocked bt t w)) ip = entry (bt_failures bt) ip"
proof -
  let ?f = "\<lambda>(ip :: string) entries. let kept = filter (\<lambda>e. time_After (be_timestamp e) (window_start t w)) entries
      in if length kept = 0 then None else Some kept"
  have wf: "kv_wf (bt_failures bt)" "kv_wf (bt_banned bt)" using assms(1) by (simp_all add: ban_inv_def)
  have e: "entry (kv_update_all ?f (bt_failures bt)) ip = entry (bt_failures bt) ip" for ip
  proof -
    have "filter (\<lambda>e. time_After (be_timestamp e) (window_start t w)) (entry (bt_failures bt) ip) = entry (bt_failures bt) ip"
      using ban_invD(2) [OF assms(1), of _ ip] assms(2) by (intro filter_True) (fastforce simp: time_After_def)
    then show ?thesis
      by (auto simp: entry_def kv_get_update_all [OF wf(1)] Let_def split: option.splits)
  qed
  then show "entry (bt_failures (maybeSweepLocked bt t w)) ip = entry (bt_failures bt) ip"
    by (simp add: maybeSweepLocked_def bt_sweep_def Let_def)
  have "kv_get (kv_update_all (\<lambda>ip u. if \<not> time_Before t u then None else Some u) (bt_banned bt)) ip \<noteq> None \<Longrightarrow>
      kv_get (bt_banned bt) ip \<noteq> None" for ip
    by (auto simp: kv_get_update_all [OF wf(2)] split: option.splits)
  then show "ban_inv m lo (maybeSweepLocked bt t w) calls"
    using assms(1) e by (simp add: maybeSweepLocked_def bt_sweep_def Let_def ban_inv_def kv_wf_update_all)
qed

lemma record_adds:
  assumes "ban_inv m lo bt calls" "window_start t w \<le> lo" "lo < t"
  shows "kv_wf (bt_failures (recordFailureLocked bt ip fp w t))"
    "be_fingerprint ` set (entry (bt_failures (recordFailureLocked bt ip fp w t)) ip') = fps_of ip' (calls @ [(t, ip, fp)])"
    "\<forall>e \<in> set (entry (bt_failures (recordFailureLocked bt ip fp w t)) ip'). lo < be_timestamp e"
    "bt_banned (recordFailureLocked bt ip fp w t) = bt_banned bt"
proof -
  note I = ban_invD [OF assms(1)]
  have a: "time_After (be_timestamp e) (window_start t w)" if "e \<in> set (entry (bt_failures bt) x)" for e x
    using I(2) [OF that] assms(2) by (fastforce simp: time_After_def)
  then have f: "filter (\<lambda>e. time_After (be_timestamp e) (window_start t w)) (entry (bt_failures bt) ip) = entry (bt_failures bt) ip"
    by (auto intro: filter_True)
  have x: "list_ex (\<lambda>e. time_After (be_timestamp e) (window_start t w) \<and> be_fingerprint e = fp) (entry (bt_failures bt) ip) \<longleftrightarrow>
      fp \<in> fps_of ip calls"
    unfolding I(1) [of ip, symmetric] using a by (auto simp: list_ex_iff)
  have r: "bt_failures (recordFailureLocked bt ip fp w t) = (if fp \<in> fps_of ip calls then bt_failures bt
      else kv_put ip (entry (bt_failures bt) ip @ [\<lparr>be_fingerprint = fp, be_timestamp = t\<rparr>]) (bt_failures bt))"
    unfolding recordFailureLocked_def Let_def x f by simp
  show "kv_wf (bt_failures (recordFailureLocked bt ip fp w t))" using I(3) by (simp add: r kvm.wf_put)
  show "be_fingerprint ` set (entry (bt_failures (recordFailureLocked bt ip fp w t)) ip') = fps_of ip' (calls @ [(t, ip, fp)])"
    using I(1) by (auto simp: r entry_put fps_of_snoc)
  show "\<forall>e \<in> set (entry (bt_failures (recordFailureLocked bt ip fp w t)) ip'). lo < be_timestamp e"
    using I(2) assms(3) by (auto simp: r entry_put)
  show "bt_banned (recordFailureLocked bt ip fp w t) = bt_banned bt" by (simp add: recordFailureLocked_def Let_def)
qed

lemma ban_step:
  assumes "ban_inv m lo bt calls" "secs_ok w" "0 < w" "t - seconds w \<le> lo" "lo < t" "0 < d" "secs_ok d"
  shows "ban_inv m lo (recordAndBan t bt ip fp m d w) (calls @ [(t, ip, fp)])"
    "fst (IsBanned t (recordAndBan t bt ip fp m d w) ip) \<longleftrightarrow> m \<le> int (card (fps_of ip (calls @ [(t, ip, fp)])))"
proof -
  let ?calls = "calls @ [(t, ip, fp)]"
  let ?bt = "recordFailureLocked (maybeSweepLocked bt t w) ip fp w t"
  have ws: "window_start t w \<le> lo" using assms(2,4) by (simp add: window_start_ok)
  note R = record_adds [OF sweep_keeps(1) [OF assms(1) ws] ws assms(5), of ip fp]
  have "filter (\<lambda>e. time_Sub t (be_timestamp e) \<le> seconds w) (entry (bt_failures ?bt) ip) = entry (bt_failures ?bt) ip"
  proof (rule filter_True, rule ballI)
    fix e assume "e \<in> set (entry (bt_failures ?bt) ip)"
    then have "lo < be_timestamp e" using R(3) by blast
    moreover have "-9223372036854775808 \<le> seconds w" "seconds w < 9223372036854775807"
      using assms(2,3) by (auto simp: seconds_ok Second_def secs_ok_def)
    ultimately show "time_Sub t (be_timestamp e) \<le> seconds w" using assms(4) by (simp add: time_Sub_le)
  qed
  moreover have c: "length (remdups (map be_fingerprint (entry (bt_failures ?bt) ip))) = card (fps_of ip ?calls)"
    using R(2) [of ip] by (simp add: length_remdups_card_conv)
  ultimately have step: "recordAndBan t bt ip fp m d w =
      (let bt1 = ?bt\<lparr>bt_failures := kv_put ip (entry (bt_failures ?bt) ip) (bt_failures ?bt)\<rparr> in
       if m \<le> int (card (fps_of ip ?calls))
       then bt1\<lparr>bt_banned := kv_put ip (t + seconds d) (bt_banned ?bt)\<rparr> else bt1)"
    by (simp add: recordAndBan_def banIfSuspiciousLocked_def Let_def time_Add_def)
  have old: "m \<le> int (card (fps_of x ?calls))" if "kv_get (bt_banned ?bt) x \<noteq> None" for x
  proof -
    have "m \<le> int (card (fps_of x calls))"
      using ban_invD(5) [OF sweep_keeps(1) [OF assms(1) ws], of x] that R(4) by simp
    also have "\<dots> \<le> int (card (fps_of x ?calls))"
      by (intro of_nat_mono card_mono fps_of_finite) (auto simp: fps_of_def)
    finally show ?thesis .
  qed
  have wf: "kv_wf (bt_banned ?bt)" using R(4) ban_invD(4) [OF sweep_keeps(1) [OF assms(1) ws]] by simp
  show "ban_inv m lo (recordAndBan t bt ip fp m d w) ?calls"
    unfolding step ban_inv_def Let_def using R(1,2,3) wf old by (auto simp: entry_put kvm.wf_put kvm.get_put)
  have "0 < seconds d" using assms(6,7) by (simp add: seconds_pos)
  then show "fst (IsBanned t (recordAndBan t bt ip fp m d w) ip) \<longleftrightarrow> m \<le> int (card (fps_of ip ?calls))"
    unfolding step IsBanned_def Let_def using old [of ip]
    by (auto simp: kvm.get_put time_Before_def split: option.splits)
qed

lemma ban_run_inv:
  assumes "secs_ok w" "0 < w" "0 < d" "secs_ok d" "hi - seconds w \<le> lo" "\<forall>(t, _) \<in> set calls. lo < t \<and> t \<le> hi"
  shows "ban_inv m lo (ban_run m d w calls) calls"
  using assms(6)
proof (induction calls rule: rev_induct)
  case Nil
  show ?case by (simp add: ban_run_def ban_inv_def NewBanTracker_def entry_def fps_of_def)
next
  case (snoc c calls)
  obtain t ip fp where c: "c = (t, ip, fp)" by (cases c)
  have "ban_run m d w (calls @ [c]) = recordAndBan t (ban_run m d w calls) ip fp m d w" by (simp add: ban_run_def c)
  then show ?case using snoc c assms(5) ban_step(1) [OF _ assms(1,2) _ _ assms(3,4)] by auto
qed

section \<open>Properties\<close>

text \<open>C6: The request limiter never exceeds its budget: whatever requests arrive in order of time, and however
  its sweeps fall between them, at most \<open>maxRequests\<close> requests of one address are let through in
  any period of the length of the window.\<close>

theorem rate_limit_bound:
  assumes "0 < windowSeconds" "secs_ok windowSeconds" "0 \<le> maxRequests" "sorted (map fst calls)"
  shows "int (length (in_window (seconds windowSeconds) t (granted ip
     (window_run (\<lambda>now rl ip. RateLimiter_Allow now rl ip maxRequests windowSeconds) NewRateLimiter calls)))) \<le> maxRequests"
proof (cases calls)
  case Nil
  then show ?thesis using assms(3) by (simp add: granted_def in_window_def)
next
  case (Cons c cs)
  have "sorted (fst c # map fst calls)" using assms(4) Cons by auto
  then show ?thesis
    using rate_window.never_exceeds [of windowSeconds maxRequests NewRateLimiter "fst c" calls ip t] assms
    by (simp add: seconds_pos rl_inv_def NewRateLimiter_def new_windows entry_def)
qed

theorem rate_limit_bound_witness:
  "length (in_window (seconds 60) 100 (granted ''1.2.3.4''
     (window_run (\<lambda>now rl ip. RateLimiter_Allow now rl ip 1 60) NewRateLimiter [(99, ''1.2.3.4''), (100, ''1.2.3.4'')]))) \<le> 1"
  using rate_limit_bound [of 60 1 "[(99, ''1.2.3.4''), (100, ''1.2.3.4'')]" 100 "''1.2.3.4''"]
  by (simp add: secs_ok_def)

text \<open>The login throttle keeps its budget too, with ten attempts and the default window when the
  configured values are not positive.\<close>

theorem login_throttle_bound:
  assumes "secs_ok (clampWindow windowSeconds)" "sorted (map fst calls)"
  shows "int (length (in_window (seconds (clampWindow windowSeconds)) t (granted key
     (window_run (\<lambda>now lt key. LoginThrottle_Allow now lt key maxAttempts windowSeconds) NewLoginThrottle calls))))
     \<le> (if maxAttempts \<le> 0 then 10 else maxAttempts)"
proof (cases calls)
  case Nil
  then show ?thesis by (simp add: granted_def in_window_def)
next
  case (Cons c cs)
  have "0 < seconds (clampWindow windowSeconds)" using assms(1) by (auto simp: clampWindow_def intro!: seconds_pos)
  moreover have "sorted (fst c # map fst calls)" using assms(2) Cons by auto
  ultimately show ?thesis
    using login_window.never_exceeds [of windowSeconds maxAttempts NewLoginThrottle "fst c" calls key t] assms
    by (simp add: lt_inv_def NewLoginThrottle_def new_windows entry_def)
qed

text \<open>C16: An address is banned exactly when enough different credentials failed from it: after any sequence
  of failures, from any addresses, that lie within one ban window and end with a failure of \<open>ip\<close>,
  the tracker reports \<open>ip\<close> as banned if and only if the number of distinct fingerprints recorded
  from it has reached the maximum. Repeating one wrong credential never bans, and failures of
  other addresses do not count.\<close>

theorem banned_iff_distinct_failures:
  assumes "0 < windowSeconds" "secs_ok windowSeconds" "0 < banDuration" "secs_ok banDuration"
    and "\<forall>(t, _) \<in> set calls. now - seconds windowSeconds < t \<and> t \<le> now"
  shows "fst (IsBanned now (ban_run maxFailures banDuration windowSeconds (calls @ [(now, ip, fp)])) ip) \<longleftrightarrow>
     maxFailures \<le> int (card (fps_of ip (calls @ [(now, ip, fp)])))"
proof -
  have "ban_inv maxFailures (now - seconds windowSeconds) (ban_run maxFailures banDuration windowSeconds calls) calls"
    by (rule ban_run_inv [OF assms(2,1,3,4) order_refl]) (use assms(5) in auto)
  moreover have "ban_run maxFailures banDuration windowSeconds (calls @ [(now, ip, fp)]) =
      recordAndBan now (ban_run maxFailures banDuration windowSeconds calls) ip fp maxFailures banDuration windowSeconds"
    by (simp add: ban_run_def)
  ultimately show ?thesis
    using ban_step(2) [OF _ assms(2,1) order_refl _ assms(3,4)] assms(1,2) by (simp add: seconds_pos)
qed

theorem banned_iff_distinct_failures_witness:
  "\<not> fst (IsBanned 8 (ban_run 2 600 300 ([(5, ''1.2.3.4'', ''a''), (6, ''9.9.9.9'', ''b'')] @ [(8, ''1.2.3.4'', ''a'')])) ''1.2.3.4'')"
proof -
  have "fps_of ''1.2.3.4'' ([(5, ''1.2.3.4'', ''a''), (6, ''9.9.9.9'', ''b'')] @ [(8, ''1.2.3.4'', ''a'')]) = {''a''}"
    by (auto simp: fps_of_def)
  then show ?thesis
    using banned_iff_distinct_failures [of 300 600 "[(5, ''1.2.3.4'', ''a''), (6, ''9.9.9.9'', ''b'')]" 8 2 "''1.2.3.4''" "''a''"]
    by (simp add: secs_ok_def seconds_ok Second_def)
qed

text \<open>The client address cannot be spoofed through request headers: a request whose peer is not a trusted
  proxy counts for its peer, whatever headers it carries; and when the peer is a trusted proxy that
  appended the address it saw to \<open>X-Forwarded-For\<close>, the request counts for that address, whatever the
  client wrote in front of it.\<close>

theorem real_ip_not_spoofable:
  assumes "remoteIP N r = Inr peer"
  shows "(\<not> behind \<or> \<not> ipInAny peer trusted \<longrightarrow> GetRealIP N r behind trusted = Inr peer) \<and>
     (behind \<and> ipInAny peer trusted \<and> rq_Header r ''X-Forwarded-For'' = spoofed @ '','' @ hop \<and> CHR '','' \<notin> set hop \<and>
        net_ParseIP N (TrimSpace hop) = Some seen \<and> \<not> ipInAny seen trusted \<longrightarrow> GetRealIP N r behind trusted = Inr seen)"
proof (intro conjI impI)
  assume "\<not> behind \<or> \<not> ipInAny peer trusted"
  then show "GetRealIP N r behind trusted = Inr peer" using assms by (simp add: GetRealIP_def)
next
  assume a: "behind \<and> ipInAny peer trusted \<and> rq_Header r ''X-Forwarded-For'' = spoofed @ '','' @ hop \<and> CHR '','' \<notin> set hop \<and>
        net_ParseIP N (TrimSpace hop) = Some seen \<and> \<not> ipInAny seen trusted"
  have "Split CHR '','' (spoofed @ '','' @ hop) = Split CHR '','' spoofed @ [hop]"
    using a by (simp add: Split_append_sep Split_no_sep)
  then show "GetRealIP N r behind trusted = Inr seen" using a assms by (simp add: GetRealIP_def)
qed

definition demo_net :: netlib where
  "demo_net = \<lparr>net_ParseIP = (\<lambda>s. if s = [] then None else Some s), net_ParseCIDR = (\<lambda>_. None),
     net_SplitHostPort = (\<lambda>s. Some (s, ''1'')), net_String = (\<lambda>s. s)\<rparr>"

theorem real_ip_not_spoofable_witness:
  "GetRealIP demo_net \<lparr>rq_RemoteAddr = ''proxy'', rq_Header = (\<lambda>h. if h = ''X-Forwarded-For'' then ''admin,client'' else [])\<rparr>
     True [\<lambda>x. x = ''proxy''] = Inr ''client''"
proof -
  let ?r = "\<lparr>rq_RemoteAddr = ''proxy'', rq_Header = (\<lambda>h. if h = ''X-Forwarded-For'' then ''admin,client'' else [])\<rparr>"
  have "remoteIP demo_net ?r = Inr ''proxy''" by (simp add: remoteIP_def demo_net_def)
  moreover have "TrimSpace ''client'' = ''client''" by code_simp
  ultimately show ?thesis
    using real_ip_not_spoofable [of demo_net ?r "''proxy''" True "[\<lambda>x. x = ''proxy'']" "''admin''" "''client''" "''client''"]
    by (simp add: ipInAny_def demo_net_def)
qed

end
