(* ===== verification/RingBuffer.thy ===== *)
theory RingBuffer
  imports Prelude
begin

text \<open>
  The replay buffer \<open>pkg/nats/buffer.go\<close>: a ring of recent messages bounded in entries and bytes,
  with a lifetime per channel. Payloads are shared with the subscribers, and eviction overwrites
  them in place, so they live in a heap of byte arrays and the ring keeps addresses.

  The lemmas relate the ring to the sequence of its live entries (\<open>ring_rep\<close>): eviction drops the
  oldest, \<open>Append\<close> always returns and adds at the end, \<open>Get\<close> filters the sequence.
\<close>

section \<open>State\<close>

type_synonym heap = "nat \<Rightarrow> string"

record ring_entry =
  re_channel :: string
  re_data :: "nat option"
  re_timestamp :: time

definition zero_entry :: ring_entry where
  "zero_entry = \<lparr>re_channel = [], re_data = None, re_timestamp = 0\<rparr>"

record ring_buffer =
  rb_entries :: "ring_entry list"
  rb_maxSize :: nat
  rb_maxBytes :: int
  rb_currentBytes :: int
  rb_maxAge :: duration
  rb_channelTTLs :: "(string, duration) kv"
  rb_head :: nat
  rb_tail :: nat
  rb_full :: bool

definition data_len :: "heap \<Rightarrow> ring_entry \<Rightarrow> int" where
  "data_len h e = (case re_data e of None \<Rightarrow> 0 | Some a \<Rightarrow> int (length (h a)))"

section \<open>Operations\<close>

definition NewRingBuffer :: "int \<Rightarrow> int \<Rightarrow> duration \<Rightarrow> ring_buffer" where
  "NewRingBuffer maxSize0 maxBytes maxAge =
     (let maxSize = nat (if maxSize0 \<le> 0 then 1 else maxSize0)
      in \<lparr>rb_entries = replicate maxSize zero_entry, rb_maxSize = maxSize, rb_maxBytes = maxBytes,
          rb_currentBytes = 0, rb_maxAge = maxAge, rb_channelTTLs = [], rb_head = 0, rb_tail = 0, rb_full = False\<rparr>)"

definition SetChannelTTL :: "ring_buffer \<Rightarrow> string \<Rightarrow> duration \<Rightarrow> ring_buffer" where
  "SetChannelTTL rb channel ttl = (if ttl \<le> 0
     then rb\<lparr>rb_channelTTLs := kv_del channel (rb_channelTTLs rb)\<rparr>
     else rb\<lparr>rb_channelTTLs := kv_put channel ttl (rb_channelTTLs rb)\<rparr>)"

definition lenLocked :: "ring_buffer \<Rightarrow> nat" where
  "lenLocked rb = (if rb_full rb then rb_maxSize rb
     else if rb_head rb \<ge> rb_tail rb then rb_head rb - rb_tail rb
     else rb_maxSize rb - rb_tail rb + rb_head rb)"

definition zero_data :: "heap \<Rightarrow> ring_entry \<Rightarrow> heap" where
  "zero_data h e = (case re_data e of None \<Rightarrow> h | Some a \<Rightarrow> h(a := replicate (length (h a)) CHR 0x00))"

definition evictOldestLocked :: "heap \<Rightarrow> ring_buffer \<Rightarrow> heap \<times> ring_buffer" where
  "evictOldestLocked h rb =
     (if lenLocked rb = 0 then (h, rb)
      else (let e = rb_entries rb ! rb_tail rb;
                tail = (rb_tail rb + 1) mod rb_maxSize rb
            in (zero_data h e,
                rb\<lparr>rb_currentBytes := rb_currentBytes rb - data_len h e,
                   rb_entries := (rb_entries rb)[rb_tail rb := zero_entry],
                   rb_tail := tail,
                   rb_full := (if tail = rb_head rb then False else rb_full rb)\<rparr>)))"

text \<open>The loop that makes room for \<open>n\<close> more bytes.\<close>

partial_function (option) evict_loop :: "int \<Rightarrow> heap \<Rightarrow> ring_buffer \<Rightarrow> (heap \<times> ring_buffer) option" where
  "evict_loop n h rb =
     (if lenLocked rb > 0 \<and> rb_currentBytes rb + n > rb_maxBytes rb
      then evict_loop n (fst (evictOldestLocked h rb)) (snd (evictOldestLocked h rb))
      else Some (h, rb))"

definition append_at_head :: "time \<Rightarrow> string \<Rightarrow> nat \<Rightarrow> heap \<Rightarrow> ring_buffer \<Rightarrow> ring_buffer" where
  "append_at_head now channel a h rb =
     (let next = (rb_head rb + 1) mod rb_maxSize rb
      in rb\<lparr>rb_entries := (rb_entries rb)[rb_head rb := \<lparr>re_channel = channel, re_data = Some a, re_timestamp = now\<rparr>],
            rb_currentBytes := rb_currentBytes rb + int (length (h a)),
            rb_full := (if next = rb_tail rb then True else rb_full rb),
            rb_head := next\<rparr>)"

definition Append :: "time \<Rightarrow> heap \<Rightarrow> ring_buffer \<Rightarrow> string \<Rightarrow> nat \<Rightarrow> (heap \<times> ring_buffer) option" where
  "Append now h rb channel a =
     (case (if rb_maxBytes rb > 0 then evict_loop (int (length (h a))) h rb else Some (h, rb)) of
        None \<Rightarrow> None
      | Some (h1, rb1) \<Rightarrow>
          (let (h2, rb2) = (if rb_full rb1 then evictOldestLocked h1 rb1 else (h1, rb1))
           in Some (h2, append_at_head now channel a h2 rb2)))"

definition entryExpired :: "ring_buffer \<Rightarrow> ring_entry \<Rightarrow> time \<Rightarrow> bool" where
  "entryExpired rb e now =
     (if time_IsZero (re_timestamp e) then True
      else (let age = (case kv_get (rb_channelTTLs rb) (re_channel e) of
                None \<Rightarrow> rb_maxAge rb
              | Some chTTL \<Rightarrow> (if chTTL > 0 \<and> (rb_maxAge rb \<le> 0 \<or> chTTL < rb_maxAge rb) then chTTL else rb_maxAge rb))
            in if age \<le> 0 then False
               else \<not> time_After (re_timestamp e) (time_Add now (- age))))"

fun get_loop :: "ring_buffer \<Rightarrow> string \<Rightarrow> time \<Rightarrow> int \<Rightarrow> time \<Rightarrow> nat list \<Rightarrow> nat option list \<Rightarrow> nat option list" where
  "get_loop rb channel since limit now [] result = result"
| "get_loop rb channel since limit now (i # is) result =
     (let e = rb_entries rb ! ((rb_tail rb + i) mod rb_maxSize rb) in
      if re_channel e \<noteq> channel \<or> \<not> time_After (re_timestamp e) since
      then get_loop rb channel since limit now is result
      else if entryExpired rb e now then get_loop rb channel since limit now is result
      else (let result' = result @ [re_data e] in
        if limit > 0 \<and> int (length result') \<ge> limit then result'
        else get_loop rb channel since limit now is result'))"

text \<open>The payloads are returned by reference.\<close>

definition Get :: "time \<Rightarrow> ring_buffer \<Rightarrow> string \<Rightarrow> time \<Rightarrow> int \<Rightarrow> nat option list" where
  "Get now rb channel since limit = (let n = lenLocked rb in
     if n = 0 then [] else get_loop rb channel since limit now [0..<n] [])"

definition RetainedBytes :: "ring_buffer \<Rightarrow> int" where
  "RetainedBytes rb = rb_currentBytes rb"

fun expire_loop :: "heap \<Rightarrow> ring_buffer \<Rightarrow> time \<Rightarrow> nat list \<Rightarrow> int \<Rightarrow> ring_entry list \<Rightarrow> int \<times> ring_entry list" where
  "expire_loop h rb now [] bytes kept = (bytes, kept)"
| "expire_loop h rb now (i # is) bytes kept =
     (let e = rb_entries rb ! ((rb_tail rb + i) mod rb_maxSize rb) in
      if entryExpired rb e now then expire_loop h rb now is (bytes - data_len h e) kept
      else expire_loop h rb now is bytes (kept @ [e]))"

definition evictExpired :: "time \<Rightarrow> heap \<Rightarrow> ring_buffer \<Rightarrow> ring_buffer" where
  "evictExpired now h rb = (let n = lenLocked rb in
     if n = 0 then rb
     else (let (bytes, kept) = expire_loop h rb now [0..<n] (rb_currentBytes rb) []
           in rb\<lparr>rb_currentBytes := bytes,
                 rb_entries := kept @ replicate (rb_maxSize rb - length kept) zero_entry,
                 rb_tail := 0, rb_full := (length kept = rb_maxSize rb),
                 rb_head := length kept mod rb_maxSize rb\<rparr>))"

section \<open>The sequence a ring represents\<close>

definition total_len :: "heap \<Rightarrow> ring_entry list \<Rightarrow> int" where
  "total_len h xs = sum_list (map (data_len h) xs)"

text \<open>The full flag is set when the ring is full, but may stay set after an eviction.\<close>

definition ring_rep :: "heap \<Rightarrow> ring_buffer \<Rightarrow> ring_entry list \<Rightarrow> bool" where
  "ring_rep h rb xs \<longleftrightarrow> rb_maxSize rb > 0 \<and> length (rb_entries rb) = rb_maxSize rb \<and>
     length xs \<le> rb_maxSize rb \<and> rb_tail rb < rb_maxSize rb \<and>
     rb_head rb = (rb_tail rb + length xs) mod rb_maxSize rb \<and>
     (\<forall>i < rb_maxSize rb. rb_entries rb ! ((rb_tail rb + i) mod rb_maxSize rb) = (if i < length xs then xs ! i else zero_entry)) \<and>
     (length xs = rb_maxSize rb \<longrightarrow> rb_full rb) \<and> (xs = [] \<longrightarrow> \<not> rb_full rb) \<and>
     rb_currentBytes rb = total_len h xs"

lemma ring_repD:
  assumes "ring_rep h rb xs"
  shows "0 < rb_maxSize rb" "length (rb_entries rb) = rb_maxSize rb" "length xs \<le> rb_maxSize rb"
    "rb_tail rb < rb_maxSize rb" "rb_head rb = (rb_tail rb + length xs) mod rb_maxSize rb"
    "i < rb_maxSize rb \<Longrightarrow> rb_entries rb ! ((rb_tail rb + i) mod rb_maxSize rb) = (if i < length xs then xs ! i else zero_entry)"
    "length xs = rb_maxSize rb \<Longrightarrow> rb_full rb" "xs = [] \<Longrightarrow> \<not> rb_full rb"
    "rb_currentBytes rb = total_len h xs"
  using assms by (simp_all add: ring_rep_def)

lemma ring_rep_new: "ring_rep h (NewRingBuffer n b a) []"
  by (auto simp: ring_rep_def NewRingBuffer_def Let_def total_len_def)

lemma mod_add_small: "a < m \<Longrightarrow> k \<le> m \<Longrightarrow> (a + k) mod m = (if a + k < m then a + k else a + k - (m :: nat))"
  by (simp add: mod_if)

lemma lenLocked_rep:
  assumes "ring_rep h rb xs"
  shows "lenLocked rb = (if rb_full rb then rb_maxSize rb else length xs)"
proof (cases "rb_full rb")
  case False
  then have "length xs < rb_maxSize rb" using ring_repD(3,7) [OF assms] by linarith
  then show ?thesis
    using False ring_repD(4,5) [OF assms] mod_add_small [of "rb_tail rb" "rb_maxSize rb" "length xs"]
    by (auto simp: lenLocked_def)
qed (simp add: lenLocked_def)

lemma lenLocked_0: "ring_rep h rb xs \<Longrightarrow> lenLocked rb = 0 \<longleftrightarrow> xs = []"
  using lenLocked_rep [of h rb xs] ring_repD(1,8) [of h rb xs] by auto

lemma data_len_zero: "data_len (zero_data h e) = data_len h"
  by (rule ext) (simp add: data_len_def zero_data_def split: option.splits)

lemma total_len_zero: "total_len (zero_data h e) xs = total_len h xs"
  by (simp add: total_len_def data_len_zero)

section \<open>Eviction\<close>

lemma evict_rep:
  assumes "ring_rep h rb (x # xs)"
  shows "ring_rep (fst (evictOldestLocked h rb)) (snd (evictOldestLocked h rb)) xs"
    "fst (evictOldestLocked h rb) = zero_data h x"
proof -
  let ?M = "rb_maxSize rb"
  note D = ring_repD [OF assms]
  have l: "lenLocked rb \<noteq> 0" using lenLocked_0 [OF assms] by simp
  have e: "rb_entries rb ! rb_tail rb = x" using D(6) [of 0] D(1,4) by simp
  have t: "(rb_tail rb + 1) mod ?M < ?M" using D(1) by simp
  have hd: "((rb_tail rb + 1) mod ?M + length xs) mod ?M = rb_head rb" using D(5) by (simp add: mod_simps)
  have ent: "(rb_entries rb)[rb_tail rb := zero_entry] ! (((rb_tail rb + 1) mod ?M + i) mod ?M) =
      (if i < length xs then xs ! i else zero_entry)" if i: "i < ?M" for i
  proof (cases "Suc i < ?M")
    case True
    have s: "((rb_tail rb + 1) mod ?M + i) mod ?M = (rb_tail rb + Suc i) mod ?M" by (simp add: mod_simps)
    have "(rb_tail rb + Suc i) mod ?M \<noteq> rb_tail rb"
      using True D(4) mod_add_small [of "rb_tail rb" ?M "Suc i"] by (simp split: if_splits)
    then show ?thesis using D(6) [OF True] s by simp
  next
    case False
    then have "Suc i = ?M" using i by simp
    moreover have "((rb_tail rb + 1) mod ?M + i) mod ?M = (rb_tail rb + Suc i) mod ?M" by (simp add: mod_simps)
    ultimately have "((rb_tail rb + 1) mod ?M + i) mod ?M = rb_tail rb" using D(4) by simp
    then show ?thesis using D(2,3,4) False by simp
  qed
  have full: "xs = [] \<Longrightarrow> (rb_tail rb + 1) mod ?M = rb_head rb" using D(5) by simp
  show "fst (evictOldestLocked h rb) = zero_data h x" using l e by (simp add: evictOldestLocked_def Let_def)
  show "ring_rep (fst (evictOldestLocked h rb)) (snd (evictOldestLocked h rb)) xs"
    using l e t hd ent full D
    by (auto simp: ring_rep_def evictOldestLocked_def Let_def total_len_def data_len_zero)
qed

text \<open>The flag of a full ring is only reset when its last entry goes.\<close>

lemma evict_full:
  assumes "ring_rep h rb (x # y # xs)" "rb_full rb"
  shows "rb_full (snd (evictOldestLocked h rb))"
proof -
  note D = ring_repD [OF assms(1)]
  have "(rb_tail rb + 1) mod rb_maxSize rb \<noteq> rb_head rb"
    using D(3,4,5) mod_add_small [of "rb_tail rb" "rb_maxSize rb" 1]
      mod_add_small [of "rb_tail rb" "rb_maxSize rb" "Suc (Suc (length xs))"]
    by (auto split: if_splits)
  then show ?thesis using assms(2) lenLocked_0 [OF assms(1)] by (simp add: evictOldestLocked_def Let_def)
qed

lemma evict_frame:
  "rb_maxSize (snd (evictOldestLocked h rb)) = rb_maxSize rb" "rb_maxBytes (snd (evictOldestLocked h rb)) = rb_maxBytes rb"
  "rb_maxAge (snd (evictOldestLocked h rb)) = rb_maxAge rb"
  "rb_channelTTLs (snd (evictOldestLocked h rb)) = rb_channelTTLs rb"
  by (simp_all add: evictOldestLocked_def Let_def)

definition ring_frame :: "ring_buffer \<Rightarrow> ring_buffer \<Rightarrow> bool" where
  "ring_frame rb rb' \<longleftrightarrow> rb_maxSize rb' = rb_maxSize rb \<and> rb_maxBytes rb' = rb_maxBytes rb \<and>
     rb_maxAge rb' = rb_maxAge rb \<and> rb_channelTTLs rb' = rb_channelTTLs rb"

text \<open>The loop ends. It drops the shortest prefix after which \<open>n\<close> more bytes fit.\<close>

lemma evict_loop_rep:
  assumes "ring_rep h rb xs"
  shows "\<exists>h' rb' k. evict_loop n h rb = Some (h', rb') \<and> k \<le> length xs \<and> ring_rep h' rb' (drop k xs) \<and>
     (drop k xs = [] \<or> total_len h (drop k xs) + n \<le> rb_maxBytes rb) \<and>
     (\<forall>j < k. total_len h (drop j xs) + n > rb_maxBytes rb) \<and>
     ring_frame rb rb' \<and> (\<forall>ys. total_len h' ys = total_len h ys) \<and> (\<forall>a. length (h' a) = length (h a)) \<and>
     (k = 0 \<longrightarrow> h' = h \<and> rb' = rb) \<and> (rb_full rb \<longrightarrow> drop k xs \<noteq> [] \<longrightarrow> rb_full rb')"
  using assms
proof (induction xs arbitrary: h rb)
  case Nil
  then have "evict_loop n h rb = Some (h, rb)"
    using lenLocked_0 [of h rb "[]"] by (subst evict_loop.simps) simp
  then show ?case using Nil by (auto simp: ring_frame_def)
next
  case (Cons x xs)
  show ?case
  proof (cases "rb_currentBytes rb + n > rb_maxBytes rb")
    case False
    then have "evict_loop n h rb = Some (h, rb)" by (subst evict_loop.simps) simp
    moreover have "total_len h (x # xs) + n \<le> rb_maxBytes rb" using False ring_repD(9) [OF Cons.prems] by simp
    ultimately show ?thesis using Cons.prems by (intro exI [of _ h] exI [of _ rb] exI [of _ 0]) (simp add: ring_frame_def)
  next
    case True
    let ?h = "fst (evictOldestLocked h rb)" and ?rb = "snd (evictOldestLocked h rb)"
    have z: "?h = zero_data h x" using evict_rep(2) [OF Cons.prems] .
    have s: "evict_loop n h rb = evict_loop n ?h ?rb"
      using True lenLocked_0 [OF Cons.prems] by (subst evict_loop.simps) simp
    obtain h' rb' k where IH: "evict_loop n ?h ?rb = Some (h', rb')" "k \<le> length xs" "ring_rep h' rb' (drop k xs)"
      "drop k xs = [] \<or> total_len ?h (drop k xs) + n \<le> rb_maxBytes ?rb"
      "\<forall>j < k. total_len ?h (drop j xs) + n > rb_maxBytes ?rb" "ring_frame ?rb rb'"
      "\<forall>ys. total_len h' ys = total_len ?h ys" "\<forall>a. length (h' a) = length (?h a)"
      "rb_full ?rb \<longrightarrow> drop k xs \<noteq> [] \<longrightarrow> rb_full rb'"
      using Cons.IH [OF evict_rep(1) [OF Cons.prems]] by blast
    have len: "length (?h a) = length (h a)" for a by (simp add: z zero_data_def split: option.splits)
    have "drop k xs \<noteq> [] \<Longrightarrow> xs \<noteq> []" by auto
    then have full: "rb_full rb \<longrightarrow> drop k xs \<noteq> [] \<longrightarrow> rb_full rb'"
      using IH(9) evict_full [of h rb x] Cons.prems by (cases xs) auto
    have "\<forall>j < Suc k. total_len h (drop j (x # xs)) + n > rb_maxBytes rb"
    proof (intro allI impI)
      fix j assume "j < Suc k"
      then show "total_len h (drop j (x # xs)) + n > rb_maxBytes rb"
        using IH(5) True ring_repD(9) [OF Cons.prems] by (cases j) (simp_all add: z total_len_zero evict_frame)
    qed
    then show ?thesis
      using IH(1-8) len s full by (intro exI [of _ h'] exI [of _ rb'] exI [of _ "Suc k"])
        (simp add: z total_len_zero evict_frame ring_frame_def)
  qed
qed

section \<open>Appending\<close>

lemma append_at_head_rep:
  assumes "ring_rep h rb xs" "length xs < rb_maxSize rb"
  shows "ring_rep h (append_at_head now ch a h rb) (xs @ [\<lparr>re_channel = ch, re_data = Some a, re_timestamp = now\<rparr>])"
proof -
  let ?M = "rb_maxSize rb" and ?e = "\<lparr>re_channel = ch, re_data = Some a, re_timestamp = now\<rparr>"
  note D = ring_repD [OF assms(1)]
  have ent: "(rb_entries rb)[rb_head rb := ?e] ! ((rb_tail rb + i) mod ?M) =
      (if i < Suc (length xs) then (xs @ [?e]) ! i else zero_entry)" if i: "i < ?M" for i
  proof (cases "i = length xs")
    case True
    then show ?thesis using D(1,2,5) by simp
  next
    case False
    have "(rb_tail rb + i) mod ?M \<noteq> rb_head rb"
      using False i assms(2) D(4,5) mod_add_small [of "rb_tail rb" ?M i] mod_add_small [of "rb_tail rb" ?M "length xs"]
      by (auto split: if_splits)
    then show ?thesis using D(6) [OF i] False by (auto simp: nth_append)
  qed
  have n: "(rb_head rb + 1) mod ?M = (rb_tail rb + Suc (length xs)) mod ?M" using D(5) by (simp add: mod_simps)
  then have "Suc (length xs) = ?M \<Longrightarrow> (rb_head rb + 1) mod ?M = rb_tail rb" using D(4) by (metis mod_add_self2 mod_less)
  moreover note n
  ultimately show ?thesis
    using ent D assms(2)
    by (auto simp: ring_rep_def append_at_head_def Let_def total_len_def data_len_def)
qed

text \<open>\<open>Append\<close> returns, and the new sequence is a suffix of the old one followed by the new entry:
  the byte budget evicts \<open>k\<close> entries, and a set full flag one more.\<close>

lemma Append_rep:
  assumes "ring_rep h rb xs"
  shows "\<exists>h' rb' k k'. Append now h rb ch a = Some (h', rb') \<and> ring_frame rb rb' \<and>
     ring_rep h' rb' (drop k' xs @ [\<lparr>re_channel = ch, re_data = Some a, re_timestamp = now\<rparr>]) \<and>
     (\<forall>b. length (h' b) = length (h b)) \<and> k \<le> k' \<and> k' \<le> Suc k \<and>
     (0 < rb_maxBytes rb \<longrightarrow> drop k xs = [] \<or> total_len h (drop k xs) + int (length (h a)) \<le> rb_maxBytes rb) \<and>
     (\<forall>j < k. 0 < rb_maxBytes rb \<and> total_len h (drop j xs) + int (length (h a)) > rb_maxBytes rb) \<and>
     (k = 0 \<longrightarrow> (k' = 0 \<longleftrightarrow> \<not> rb_full rb)) \<and> (rb_full rb \<longrightarrow> drop k xs \<noteq> [] \<longrightarrow> k' = Suc k)"
proof -
  let ?n = "int (length (h a))"
  obtain h1 rb1 k where L: "(if rb_maxBytes rb > 0 then evict_loop ?n h rb else Some (h, rb)) = Some (h1, rb1)"
    and k: "ring_rep h1 rb1 (drop k xs)" "ring_frame rb rb1" "\<forall>b. length (h1 b) = length (h b)"
      "0 < rb_maxBytes rb \<longrightarrow> drop k xs = [] \<or> total_len h (drop k xs) + ?n \<le> rb_maxBytes rb"
      "\<forall>j < k. 0 < rb_maxBytes rb \<and> total_len h (drop j xs) + ?n > rb_maxBytes rb" "k = 0 \<longrightarrow> h1 = h \<and> rb1 = rb"
      "rb_full rb \<longrightarrow> drop k xs \<noteq> [] \<longrightarrow> rb_full rb1"
  proof (cases "rb_maxBytes rb > 0")
    case True
    then show thesis using evict_loop_rep [OF assms, of ?n] that by auto
  next
    case False
    show thesis by (rule that [of h rb 0]) (use False assms in \<open>auto simp: ring_frame_def\<close>)
  qed
  let ?e = "\<lparr>re_channel = ch, re_data = Some a, re_timestamp = now\<rparr>"
  have frame: "ring_frame rb2 (append_at_head now ch a h2 rb2)" for h2 rb2
    by (simp add: ring_frame_def append_at_head_def Let_def)
  show ?thesis
  proof (cases "rb_full rb1")
    case True
    then obtain y ys where y: "drop k xs = y # ys" using ring_repD(8) [OF k(1)] by (cases "drop k xs") auto
    have E: "ring_rep (fst (evictOldestLocked h1 rb1)) (snd (evictOldestLocked h1 rb1)) ys"
      "fst (evictOldestLocked h1 rb1) = zero_data h1 y"
      using evict_rep k(1) y by auto
    have "length ys < rb_maxSize (snd (evictOldestLocked h1 rb1))"
      using ring_repD(3) [OF k(1)] y by (simp add: evict_frame)
    note R = append_at_head_rep [OF E(1) this, of now ch a]
    have ys: "ys = drop (Suc k) xs" using y by (metis drop_Suc drop_tl list.sel(3))
    have "ring_frame rb (snd (evictOldestLocked h1 rb1))" using k(2) by (simp add: ring_frame_def evict_frame)
    moreover have "\<forall>b. length (fst (evictOldestLocked h1 rb1) b) = length (h b)"
      using k(3) by (simp add: E(2) zero_data_def split: option.splits)
    moreover have "Append now h rb ch a = Some (fst (evictOldestLocked h1 rb1),
        append_at_head now ch a (fst (evictOldestLocked h1 rb1)) (snd (evictOldestLocked h1 rb1)))"
      using L True by (simp add: Append_def split: prod.splits)
    moreover have "k = 0 \<longrightarrow> (Suc k = 0 \<longleftrightarrow> \<not> rb_full rb)" using k(6) True by auto
    ultimately show ?thesis
      using R k(4,5) frame [of "snd (evictOldestLocked h1 rb1)" "fst (evictOldestLocked h1 rb1)"] ys
      by (intro exI [of _ "fst (evictOldestLocked h1 rb1)"]
          exI [of _ "append_at_head now ch a (fst (evictOldestLocked h1 rb1)) (snd (evictOldestLocked h1 rb1))"]
          exI [of _ k] exI [of _ "Suc k"]) (simp add: ring_frame_def)
  next
    case False
    have "length (drop k xs) < rb_maxSize rb1" using ring_repD(3,7) [OF k(1)] False by fastforce
    note R = append_at_head_rep [OF k(1) this, of now ch a]
    have "k = 0 \<longrightarrow> \<not> rb_full rb" using k(6) False by auto
    then show ?thesis
      using R L False k frame [of rb1 h1]
      by (intro exI [of _ h1] exI [of _ "append_at_head now ch a h1 rb1"] exI [of _ k] exI [of _ k])
        (simp add: Append_def ring_frame_def)
  qed
qed

section \<open>Reading and expiring\<close>

definition selected :: "ring_buffer \<Rightarrow> string \<Rightarrow> time \<Rightarrow> time \<Rightarrow> ring_entry \<Rightarrow> bool" where
  "selected rb ch since now e \<longleftrightarrow> re_channel e = ch \<and> since < re_timestamp e \<and> \<not> entryExpired rb e now"

definition slots :: "ring_buffer \<Rightarrow> nat list \<Rightarrow> ring_entry list" where
  "slots rb is = map (\<lambda>i. rb_entries rb ! ((rb_tail rb + i) mod rb_maxSize rb)) is"

lemma zero_expired: "entryExpired rb zero_entry now"
  by (simp add: entryExpired_def zero_entry_def time_IsZero_def)

lemma zero_len: "data_len h zero_entry = 0"
  by (simp add: data_len_def zero_entry_def)

lemma get_loop_take:
  "(0 < limit \<longrightarrow> int (length res) < limit) \<Longrightarrow>
     get_loop rb ch since limit now is res =
       (let all = res @ map re_data (filter (selected rb ch since now) (slots rb is))
        in if 0 < limit then take (nat limit) all else all)"
proof (induction "is" arbitrary: res)
  case Nil
  then show ?case by (auto simp: slots_def)
next
  case (Cons i "is")
  let ?e = "rb_entries rb ! ((rb_tail rb + i) mod rb_maxSize rb)"
  have sl: "slots rb (i # is) = ?e # slots rb is" by (simp add: slots_def)
  show ?case
  proof (cases "selected rb ch since now ?e")
    case False
    then have "get_loop rb ch since limit now (i # is) res = get_loop rb ch since limit now is res"
      by (auto simp: Let_def selected_def time_After_def)
    then show ?thesis using Cons False sl by simp
  next
    case True
    then have s: "get_loop rb ch since limit now (i # is) res =
        (if 0 < limit \<and> limit \<le> int (length res) + 1 then res @ [re_data ?e]
         else get_loop rb ch since limit now is (res @ [re_data ?e]))"
      by (auto simp: Let_def selected_def time_After_def)
    show ?thesis
    proof (cases "0 < limit \<and> limit \<le> int (length res) + 1")
      case True
      then have "nat limit = Suc (length res)" using Cons.prems by auto
      then show ?thesis using s True \<open>selected rb ch since now ?e\<close> sl by simp
    next
      case False
      then show ?thesis using s Cons.IH [of "res @ [re_data ?e]"] \<open>selected rb ch since now ?e\<close> sl by auto
    qed
  qed
qed

lemma slots_rep:
  assumes "ring_rep h rb xs"
  shows "slots rb [0..<lenLocked rb] = xs @ replicate (lenLocked rb - length xs) zero_entry"
proof (rule nth_equalityI)
  have l: "length xs \<le> lenLocked rb" "lenLocked rb \<le> rb_maxSize rb"
    using lenLocked_rep [OF assms] ring_repD(3) [OF assms] by simp_all
  show "length (slots rb [0..<lenLocked rb]) = length (xs @ replicate (lenLocked rb - length xs) zero_entry)"
    using l by (simp add: slots_def)
  fix i assume "i < length (slots rb [0..<lenLocked rb])"
  then have "i < lenLocked rb" by (simp add: slots_def)
  then show "slots rb [0..<lenLocked rb] ! i = (xs @ replicate (lenLocked rb - length xs) zero_entry) ! i"
    using l ring_repD(6) [OF assms, of i] by (simp add: slots_def nth_append)
qed

lemma Get_rep:
  assumes "ring_rep h rb xs"
  shows "Get now rb ch since limit =
     (let all = map re_data (filter (selected rb ch since now) xs) in if 0 < limit then take (nat limit) all else all)"
proof -
  have "filter (selected rb ch since now) (replicate n zero_entry) = []" for n
    by (simp add: selected_def zero_expired filter_empty_conv)
  then have "filter (selected rb ch since now) (slots rb [0..<lenLocked rb]) = filter (selected rb ch since now) xs"
    by (simp add: slots_rep [OF assms])
  then show ?thesis
    using lenLocked_0 [OF assms] get_loop_take [of limit "[]" rb ch since now "[0..<lenLocked rb]"]
    by (simp add: Get_def)
qed

lemma expire_loop_filter:
  "expire_loop h rb now is bytes kept =
     (bytes - total_len h (filter (\<lambda>e. entryExpired rb e now) (slots rb is)),
      kept @ filter (\<lambda>e. \<not> entryExpired rb e now) (slots rb is))"
  by (induction "is" arbitrary: bytes kept) (simp_all add: slots_def total_len_def Let_def)

lemma total_len_split:
  "total_len h xs = total_len h (filter P xs) + total_len h (filter (\<lambda>e. \<not> P e) xs)"
  by (induction xs) (auto simp: total_len_def)

lemma evictExpired_rep:
  assumes "ring_rep h rb xs"
  shows "ring_rep h (evictExpired now h rb) (filter (\<lambda>e. \<not> entryExpired rb e now) xs)"
proof (cases "xs = []")
  case True
  then show ?thesis using assms lenLocked_0 [OF assms] by (simp add: evictExpired_def)
next
  case False
  let ?live = "filter (\<lambda>e. \<not> entryExpired rb e now) xs" and ?M = "rb_maxSize rb"
  have z: "filter (\<lambda>e. \<not> entryExpired rb e now) (replicate n zero_entry) = []"
    "total_len h (filter (\<lambda>e. entryExpired rb e now) (replicate n zero_entry)) = 0" for n
    by (simp_all add: zero_expired filter_empty_conv total_len_def zero_len sum_list_replicate)
  have E: "expire_loop h rb now [0..<lenLocked rb] (rb_currentBytes rb) [] = (total_len h ?live, ?live)"
    using total_len_split [of h xs "\<lambda>e. entryExpired rb e now"] ring_repD(9) [OF assms] z
    by (simp add: expire_loop_filter slots_rep [OF assms] total_len_def)
  have M: "0 < ?M" "length ?live \<le> ?M"
    using ring_repD(1) [OF assms] le_trans [OF length_filter_le ring_repD(3) [OF assms]] by blast+
  have rb': "evictExpired now h rb = rb\<lparr>rb_currentBytes := total_len h ?live,
      rb_entries := ?live @ replicate (?M - length ?live) zero_entry, rb_tail := 0,
      rb_full := (length ?live = ?M), rb_head := length ?live mod ?M\<rparr>"
    using False lenLocked_0 [OF assms] E by (simp add: evictExpired_def Let_def)
  show ?thesis unfolding rb' ring_rep_def using M by (auto simp: nth_append)
qed

section \<open>Sequences of messages\<close>

text \<open>Appending a sequence of messages \<open>(time, channel, address)\<close>.\<close>

fun append_all :: "heap \<Rightarrow> ring_buffer \<Rightarrow> (time \<times> string \<times> nat) list \<Rightarrow> (heap \<times> ring_buffer) option" where
  "append_all h rb [] = Some (h, rb)"
| "append_all h rb ((now, ch, a) # ms) = (case Append now h rb ch a of
       None \<Rightarrow> None | Some (h', rb') \<Rightarrow> append_all h' rb' ms)"

definition message :: "time \<times> string \<times> nat \<Rightarrow> ring_entry" where
  "message m = \<lparr>re_channel = fst (snd m), re_data = Some (snd (snd m)), re_timestamp = fst m\<rparr>"

lemma drop_drop_append: "d \<le> length ys \<Longrightarrow> drop k (drop d ys @ zs) = drop (d + k) (ys @ zs)"
proof -
  assume "d \<le> length ys"
  then have "drop d ys @ zs = drop d (ys @ zs)" by simp
  then show ?thesis by (simp only: drop_drop add.commute)
qed

lemma append_at_head_full:
  assumes "ring_rep h rb xs" "length xs < rb_maxSize rb" "\<not> rb_full rb"
  shows "rb_full (append_at_head now ch a h rb) \<longleftrightarrow> Suc (length xs) = rb_maxSize rb"
proof -
  note D = ring_repD [OF assms(1)]
  have "(rb_head rb + 1) mod rb_maxSize rb = (rb_tail rb + Suc (length xs)) mod rb_maxSize rb"
    using D(5) by (simp add: mod_simps)
  moreover have "(rb_tail rb + Suc (length xs)) mod rb_maxSize rb = rb_tail rb \<longleftrightarrow> Suc (length xs) = rb_maxSize rb"
    using D(4) assms(2) mod_add_small [of "rb_tail rb" "rb_maxSize rb" "Suc (length xs)"] by auto
  ultimately show ?thesis using assms(3) by (simp add: append_at_head_def Let_def)
qed

lemma total_len_append: "total_len h (xs @ ys) = total_len h xs + total_len h ys"
  by (simp add: total_len_def)

lemma total_len_nonneg: "0 \<le> total_len h xs"
  by (induction xs) (auto simp: total_len_def data_len_def split: option.splits)

lemma total_len_drop: "total_len h (drop k xs) \<le> total_len h xs"
  using total_len_append [of h "take k xs" "drop k xs"] total_len_nonneg [of h "take k xs"] by simp

lemma total_len_drop_mono: "k \<le> k' \<Longrightarrow> total_len h (drop k' xs) \<le> total_len h (drop k xs)"
  using total_len_drop [of h "k' - k" "drop k xs"] by simp

lemma total_len_same: "\<forall>b. length (h' b) = length (h b) \<Longrightarrow> total_len h' xs = total_len h xs"
  by (induction xs) (auto simp: total_len_def data_len_def split: option.splits)

lemma data_len_message: "data_len h (message (now, ch, a)) = int (length (h a))"
  by (simp add: data_len_def message_def)

text \<open>Whatever the budgets are, the ring holds a suffix of the sequence that fits both of them, where the
  newest message is kept also when it is larger than the byte budget.\<close>

definition within_budget :: "heap \<Rightarrow> ring_buffer \<Rightarrow> ring_entry list \<Rightarrow> bool" where
  "within_budget h rb xs \<longleftrightarrow> (0 < rb_maxBytes rb \<longrightarrow> total_len h xs \<le> rb_maxBytes rb \<or> length xs = 1)"

lemma Append_suffix:
  assumes "ring_rep h rb xs"
  shows "\<exists>h' rb' d. Append now h rb ch a = Some (h', rb') \<and> ring_frame rb rb' \<and> d \<le> length xs \<and>
     ring_rep h' rb' (drop d (xs @ [message (now, ch, a)])) \<and> (\<forall>b. length (h' b) = length (h b)) \<and>
     within_budget h rb' (drop d (xs @ [message (now, ch, a)]))"
proof -
  obtain h' rb' k k' where A: "Append now h rb ch a = Some (h', rb')" "ring_frame rb rb'"
    "ring_rep h' rb' (drop k' xs @ [message (now, ch, a)])" "\<forall>b. length (h' b) = length (h b)" "k \<le> k'"
    "0 < rb_maxBytes rb \<longrightarrow> drop k xs = [] \<or> total_len h (drop k xs) + int (length (h a)) \<le> rb_maxBytes rb"
    unfolding message_def fst_conv snd_conv using Append_rep [OF assms, of now ch a] by blast
  define d where "d = min k' (length xs)"
  have d: "drop d (xs @ [message (now, ch, a)]) = drop k' xs @ [message (now, ch, a)]" by (auto simp: d_def min_def)
  have "within_budget h rb' (drop k' xs @ [message (now, ch, a)])"
  proof (cases "drop k xs = []")
    case True
    then have "drop k' xs = []" using A(5) by simp
    then show ?thesis by (simp add: within_budget_def)
  next
    case False
    then show ?thesis using A(2,6) total_len_drop_mono [OF A(5), of h xs]
      by (auto simp: within_budget_def ring_frame_def total_len_append total_len_def data_len_message)
  qed
  then show ?thesis using A(1-4) d by (intro exI [of _ h'] exI [of _ rb'] exI [of _ d]) (simp add: d_def)
qed

lemma append_all_suffix:
  assumes "ring_rep h rb xs" "within_budget h rb xs"
  shows "\<exists>h' rb' d. append_all h rb ms = Some (h', rb') \<and> ring_frame rb rb' \<and> d \<le> length xs + length ms \<and>
     (ms \<noteq> [] \<longrightarrow> d < length xs + length ms) \<and> ring_rep h' rb' (drop d (xs @ map message ms)) \<and>
     within_budget h rb' (drop d (xs @ map message ms))"
  using assms
proof (induction ms arbitrary: h rb xs)
  case Nil
  then show ?case by (intro exI [of _ h] exI [of _ rb] exI [of _ 0]) (simp add: ring_frame_def)
next
  case (Cons m ms)
  obtain now ch a where m: "m = (now, ch, a)" by (cases m)
  obtain h1 rb1 d where A: "Append now h rb ch a = Some (h1, rb1)" "ring_frame rb rb1" "d \<le> length xs"
    "ring_rep h1 rb1 (drop d (xs @ [message m]))" "\<forall>b. length (h1 b) = length (h b)"
    "within_budget h rb1 (drop d (xs @ [message m]))"
    using Append_suffix [OF Cons.prems(1), of now ch a] m by blast
  let ?xs = "drop d (xs @ [message m])"
  have t: "total_len h1 = total_len h" using total_len_same [OF A(5)] by (rule ext)
  then have "within_budget h1 rb1 ?xs" using A(6) by (simp add: within_budget_def)
  then obtain h' rb' e where I: "append_all h1 rb1 ms = Some (h', rb')" "ring_frame rb1 rb'" "e \<le> length ?xs + length ms"
    "ms \<noteq> [] \<longrightarrow> e < length ?xs + length ms" "ring_rep h' rb' (drop e (?xs @ map message ms))"
    "within_budget h1 rb' (drop e (?xs @ map message ms))"
    using Cons.IH [OF A(4)] by blast
  have s: "drop e (?xs @ map message ms) = drop (d + e) (xs @ map message (m # ms))"
    using drop_drop_append [of d "xs @ [message m]" e "map message ms"] A(3) by simp
  show ?case
  proof (cases "ms = []")
    case True
    then have "append_all h rb (m # ms) = Some (h1, rb1)" using A(1) m by simp
    then show ?thesis using A(2,3,4,6) True by (intro exI [of _ h1] exI [of _ rb1] exI [of _ d]) simp
  next
    case False
    then have "d + e < length xs + length (m # ms)" using I(4) A(3) by simp
    moreover have "within_budget h rb' (drop (d + e) (xs @ map message (m # ms)))"
      using I(6) unfolding s by (simp only: within_budget_def t)
    ultimately show ?thesis using I(1,2,5) A(1,2) m s
      by (intro exI [of _ h'] exI [of _ rb'] exI [of _ "d + e"]) (auto simp: ring_frame_def)
  qed
qed

text \<open>The number of live entries is determined by the ring.\<close>

lemma ring_count_unique:
  "t < M \<Longrightarrow> a \<le> M \<Longrightarrow> b \<le> (M :: nat) \<Longrightarrow> (t + a) mod M = (t + b) mod M \<Longrightarrow> a \<noteq> b \<Longrightarrow> a = M \<and> b = 0 \<or> b = M \<and> a = 0"
  by (auto simp: mod_add_small split: if_splits)

lemma ring_rep_length:
  assumes "ring_rep h rb xs" "ring_rep h' rb ys"
  shows "length xs = length ys"
proof -
  note D = ring_repD [OF assms(1)] and E = ring_repD [OF assms(2)]
  show ?thesis
  proof (rule ccontr)
    assume n: "length xs \<noteq> length ys"
    have "(rb_tail rb + length xs) mod rb_maxSize rb = (rb_tail rb + length ys) mod rb_maxSize rb"
      using D(5) E(5) by (rule trans [OF sym])
    from ring_count_unique [OF D(4) D(3) E(3) this n] show False
    proof (elim disjE conjE)
      assume "length xs = rb_maxSize rb" "length ys = 0"
      then show False using D(7) E(8) by simp
    next
      assume "length ys = rb_maxSize rb" "length xs = 0"
      then show False using E(7) D(8) by simp
    qed
  qed
qed

text \<open>As long as the budget is not exceeded no entry is evicted for its bytes, and the full flag is exact.\<close>

definition fits :: "heap \<Rightarrow> ring_buffer \<Rightarrow> ring_entry list \<Rightarrow> bool" where
  "fits h rb xs \<longleftrightarrow> rb_maxBytes rb \<le> 0 \<or> total_len h xs \<le> rb_maxBytes rb"

lemma no_byte_eviction:
  assumes "ring_rep h rb xs" "fits h rb (xs @ [message (now, ch, a)])"
  shows "(if rb_maxBytes rb > 0 then evict_loop (int (length (h a))) h rb else Some (h, rb)) = Some (h, rb)"
proof -
  have "0 < rb_maxBytes rb \<Longrightarrow> rb_currentBytes rb + int (length (h a)) \<le> rb_maxBytes rb"
    using assms(2) ring_repD(9) [OF assms(1)] by (simp add: fits_def total_len_append) (simp add: total_len_def data_len_message)
  then have "0 < rb_maxBytes rb \<Longrightarrow> evict_loop (int (length (h a))) h rb = Some (h, rb)"
    by (subst evict_loop.simps) simp
  then show ?thesis by simp
qed

lemma Append_fits:
  assumes "ring_rep h rb xs" "fits h rb (xs @ [message (now, ch, a)])" "rb_full rb \<longleftrightarrow> length xs = rb_maxSize rb"
  shows "\<exists>h' rb'. Append now h rb ch a = Some (h', rb') \<and> ring_frame rb rb' \<and> (\<forall>b. length (h' b) = length (h b)) \<and>
     ring_rep h' rb' (drop (Suc (length xs) - rb_maxSize rb) (xs @ [message (now, ch, a)])) \<and>
     (rb_full rb' \<longleftrightarrow> length (drop (Suc (length xs) - rb_maxSize rb) (xs @ [message (now, ch, a)])) = rb_maxSize rb')"
proof -
  obtain h' rb' k k' where A: "Append now h rb ch a = Some (h', rb')" "ring_frame rb rb'"
    "ring_rep h' rb' (drop k' xs @ [message (now, ch, a)])" "\<forall>b. length (h' b) = length (h b)" "k \<le> k'" "k' \<le> Suc k"
    "\<forall>j < k. 0 < rb_maxBytes rb \<and> total_len h (drop j xs) + int (length (h a)) > rb_maxBytes rb"
    "k = 0 \<longrightarrow> (k' = 0 \<longleftrightarrow> \<not> rb_full rb)"
    unfolding message_def fst_conv snd_conv using Append_rep [OF assms(1), of now ch a] by blast
  have k: "k = 0"
  proof (rule ccontr)
    assume "k \<noteq> 0"
    then have "0 < rb_maxBytes rb \<and> total_len h (drop 0 xs) + int (length (h a)) > rb_maxBytes rb" using A(7) by blast
    then show False using assms(2) by (simp add: fits_def total_len_append) (simp add: total_len_def data_len_message)
  qed
  have M: "0 < rb_maxSize rb" "length xs \<le> rb_maxSize rb" using ring_repD(1,3) [OF assms(1)] .
  show ?thesis
  proof (cases "rb_full rb")
    case True
    then have k': "k' = 1" "length xs = rb_maxSize rb" using A(6,8) k assms(3) by auto
    then have "drop k' xs @ [message (now, ch, a)] = drop (Suc (length xs) - rb_maxSize rb) (xs @ [message (now, ch, a)])"
      using M by (cases xs) auto
    moreover have "length (drop k' xs @ [message (now, ch, a)]) = rb_maxSize rb'"
      using k' M A(2) by (simp add: ring_frame_def)
    ultimately show ?thesis using A(1-4) ring_repD(7) [OF A(3)] by auto
  next
    case False
    then have k': "k' = 0" "length xs < rb_maxSize rb" using A(8) k assms(3) M(2) by auto
    have "h' = h" "rb' = append_at_head now ch a h rb"
      using A(1) no_byte_eviction [OF assms(1,2)] False by (auto simp: Append_def)
    then have "rb_full rb' \<longleftrightarrow> Suc (length xs) = rb_maxSize rb"
      using append_at_head_full [OF assms(1) k'(2) False] by simp
    then show ?thesis using A(1-4) k' by (auto simp: ring_frame_def)
  qed
qed

lemma append_all_fits:
  assumes "ring_rep h rb xs" "rb_full rb \<longleftrightarrow> length xs = rb_maxSize rb"
    and "\<forall>i. fits h rb (take (Suc (rb_maxSize rb)) (drop i (xs @ map message ms)))"
  shows "\<exists>h' rb'. append_all h rb ms = Some (h', rb') \<and> ring_frame rb rb' \<and>
     ring_rep h' rb' (drop (length xs + length ms - rb_maxSize rb) (xs @ map message ms))"
  using assms
proof (induction ms arbitrary: h rb xs)
  case Nil
  then show ?case using ring_repD(3) [OF Nil(1)] by (simp add: ring_frame_def)
next
  case (Cons m ms)
  obtain now ch a where m: "m = (now, ch, a)" by (cases m)
  let ?d = "Suc (length xs) - rb_maxSize rb"
  let ?xs = "drop ?d (xs @ [message m])"
  have l: "length xs \<le> rb_maxSize rb" using ring_repD(3) [OF Cons.prems(1)] .
  have "fits h rb (take (Suc (rb_maxSize rb)) (xs @ message m # map message ms))"
    using Cons.prems(3) by (metis drop0 list.map(2))
  moreover have "take (Suc (rb_maxSize rb)) (xs @ message m # map message ms) =
      (xs @ [message m]) @ take (rb_maxSize rb - length xs) (map message ms)" using l by (simp add: Suc_diff_le)
  ultimately have "fits h rb ((xs @ [message m]) @ take (rb_maxSize rb - length xs) (map message ms))" by (simp only:)
  then have f: "fits h rb (xs @ [message m])"
    using total_len_nonneg [of h "take (rb_maxSize rb - length xs) (map message ms)"]
    unfolding fits_def total_len_append [of h "xs @ [message m]"] by linarith
  obtain h1 rb1 where A: "Append now h rb ch a = Some (h1, rb1)" "ring_frame rb rb1"
    "\<forall>b. length (h1 b) = length (h b)" "ring_rep h1 rb1 ?xs" "rb_full rb1 \<longleftrightarrow> length ?xs = rb_maxSize rb1"
    using Append_fits [OF Cons.prems(1) f [unfolded m] Cons.prems(2)] m by blast
  have M: "rb_maxSize rb1 = rb_maxSize rb" "rb_maxBytes rb1 = rb_maxBytes rb" using A(2) by (simp_all add: ring_frame_def)
  have d: "?d \<le> length (xs @ [message m])" using ring_repD(1) [OF Cons.prems(1)] by auto
  have s: "drop e (?xs @ map message ms) = drop (?d + e) (xs @ map message (m # ms))" for e
    using drop_drop_append [OF d, of e "map message ms"] by simp
  have t: "total_len h1 = total_len h" using total_len_same [OF A(3)] by (rule ext)
  have w: "\<forall>i. fits h1 rb1 (take (Suc (rb_maxSize rb1)) (drop i (?xs @ map message ms)))"
    unfolding s M fits_def t using Cons.prems(3) unfolding fits_def by blast
  obtain h' rb' where I: "append_all h1 rb1 ms = Some (h', rb')" "ring_frame rb1 rb'"
    "ring_rep h' rb' (drop (length ?xs + length ms - rb_maxSize rb1) (?xs @ map message ms))"
    using Cons.IH [OF A(4,5) w] by blast
  have e: "?d + (length ?xs + length ms - rb_maxSize rb) = length xs + length (m # ms) - rb_maxSize rb"
    using l ring_repD(1) [OF Cons.prems(1)] by auto
  have "ring_rep h' rb' (drop (length xs + length (m # ms) - rb_maxSize rb) (xs @ map message (m # ms)))"
    using I(3) unfolding M s e .
  moreover have "append_all h rb (m # ms) = Some (h', rb')" using A(1) I(1) m by simp
  moreover have "ring_frame rb rb'" using A(2) I(2) by (simp add: ring_frame_def)
  ultimately show ?case by blast
qed

text \<open>Lifetimes are set per channel on the running ring.\<close>

definition set_ttls :: "(string \<times> duration) list \<Rightarrow> ring_buffer \<Rightarrow> ring_buffer" where
  "set_ttls ttls rb = fold (\<lambda>(channel, ttl) r. SetChannelTTL r channel ttl) ttls rb"

lemma SetChannelTTL_frame:
  "ring_rep h (SetChannelTTL rb c t) xs = ring_rep h rb xs"
  "rb_maxSize (SetChannelTTL rb c t) = rb_maxSize rb" "rb_maxBytes (SetChannelTTL rb c t) = rb_maxBytes rb"
  "rb_full (SetChannelTTL rb c t) = rb_full rb"
  by (simp_all add: SetChannelTTL_def ring_rep_def)

lemma set_ttls_frame:
  "ring_rep h rb xs \<Longrightarrow> ring_rep h (set_ttls ttls rb) xs"
  "rb_maxSize (set_ttls ttls rb) = rb_maxSize rb" "rb_maxBytes (set_ttls ttls rb) = rb_maxBytes rb"
  "rb_full (set_ttls ttls rb) = rb_full rb"
  by (induction ttls arbitrary: rb) (simp_all add: set_ttls_def SetChannelTTL_frame split: prod.splits)

lemma selected_frame: "ring_frame rb rb' \<Longrightarrow> selected rb' = selected rb"
proof -
  assume "ring_frame rb rb'"
  then have f: "rb_maxAge rb' = rb_maxAge rb" "rb_channelTTLs rb' = rb_channelTTLs rb" by (simp_all add: ring_frame_def)
  show ?thesis by (intro ext) (simp only: selected_def entryExpired_def f)
qed

text \<open>A full ring of three messages of three bytes with a budget of ten bytes, and a message of seven bytes
  at address 4: the newest old message and the new one would fit together.\<close>

definition demo_heap :: heap where
  "demo_heap = (\<lambda>a. if a = 4 then replicate 7 CHR ''d'' else ''abc'')"

definition demo_ring :: ring_buffer where
  "demo_ring = \<lparr>rb_entries = map message [(1, ''a'', 1), (2, ''a'', 2), (3, ''a'', 3)], rb_maxSize = 3, rb_maxBytes = 10,
     rb_currentBytes = 9, rb_maxAge = 0, rb_channelTTLs = [], rb_head = 0, rb_tail = 0, rb_full = True\<rparr>"

lemma demo_ring_rep: "ring_rep demo_heap demo_ring (map message [(1, ''a'', 1), (2, ''a'', 2), (3, ''a'', 3)])"
  by (auto simp: ring_rep_def demo_ring_def demo_heap_def total_len_def data_len_def message_def)

definition demo_log :: "(time \<times> string \<times> nat) list" where
  "demo_log = [(1, ''a'', 10), (2, ''b'', 11), (3, ''a'', 12), (4, ''a'', 13)]"

section \<open>Properties\<close>



text \<open>The clean-up pass removes exactly the expired entries: it keeps the others in order, and the byte
  count it leaves is the number of bytes of the entries that remain.\<close>

theorem cleanup_removes_expired:
  assumes "ring_rep h rb xs"
  shows "ring_rep h (evictExpired now h rb) (filter (\<lambda>e. \<not> entryExpired rb e now) xs) \<and>
     RetainedBytes (evictExpired now h rb) = total_len h (filter (\<lambda>e. \<not> entryExpired rb e now) xs)"
  using evictExpired_rep [OF assms] ring_repD(9) by (simp add: RetainedBytes_def)

theorem cleanup_removes_expired_witness:
  "RetainedBytes (evictExpired 5 (\<lambda>_. []) (NewRingBuffer 2 0 0)) = 0"
  using cleanup_removes_expired [OF ring_rep_new [of "\<lambda>_. []" 2 0 0], of 5] by (simp add: total_len_def)

text \<open>With a byte budget a full ring drops one live entry more than it must: when evicting \<open>k\<close> entries,
  but not fewer, makes the new message fit the budget, \<open>Append\<close> drops \<open>k + 1\<close>. For \<open>k > 0\<close> the extra
  entry fits the budget and has a free slot: the \<open>full\<close> flag stays set after the budget has evicted
  entries, and evicts once more.\<close>

theorem full_ring_drops_one_more:
  assumes "ring_rep h rb xs" "rb_full rb" "0 < rb_maxBytes rb" "k < length xs"
    and "total_len h (drop k xs) + int (length (h a)) \<le> rb_maxBytes rb"
    and "\<forall>j < k. rb_maxBytes rb < total_len h (drop j xs) + int (length (h a))"
  shows "\<exists>h' rb'. Append now h rb ch a = Some (h', rb') \<and> ring_rep h' rb' (drop (Suc k) xs @ [message (now, ch, a)])"
proof -
  obtain h' rb' k0 k' where A: "Append now h rb ch a = Some (h', rb')"
    "ring_rep h' rb' (drop k' xs @ [message (now, ch, a)])"
    "0 < rb_maxBytes rb \<longrightarrow> drop k0 xs = [] \<or> total_len h (drop k0 xs) + int (length (h a)) \<le> rb_maxBytes rb"
    "\<forall>j < k0. 0 < rb_maxBytes rb \<and> total_len h (drop j xs) + int (length (h a)) > rb_maxBytes rb"
    "rb_full rb \<longrightarrow> drop k0 xs \<noteq> [] \<longrightarrow> k' = Suc k0"
    unfolding message_def fst_conv snd_conv using Append_rep [OF assms(1), of now ch a] by blast
  have "\<not> k0 < k"
  proof
    assume "k0 < k"
    then have "rb_maxBytes rb < total_len h (drop k0 xs) + int (length (h a))" "drop k0 xs \<noteq> []"
      using assms(4,6) by auto
    then show False using A(3) assms(3) by simp
  qed
  moreover have "\<not> k < k0" using A(4) assms(5) by fastforce
  ultimately have "k0 = k" by simp
  then show ?thesis using A(1,2,5) assms(2,4) by auto
qed

theorem full_ring_drops_one_more_witness:
  "\<exists>h' rb'. Append 4 demo_heap demo_ring ''a'' 4 = Some (h', rb') \<and> ring_rep h' rb' [message (4, ''a'', 4)]"
proof -
  have "\<exists>h' rb'. Append 4 demo_heap demo_ring ''a'' 4 = Some (h', rb') \<and>
      ring_rep h' rb' (drop (Suc 2) (map message [(1, ''a'', 1), (2, ''a'', 2), (3, ''a'', 3)]) @ [message (4, ''a'', 4)])"
  proof (rule full_ring_drops_one_more [OF demo_ring_rep])
    show "\<forall>j < 2. rb_maxBytes demo_ring < total_len demo_heap (drop j (map message [(1, ''a'', 1), (2, ''a'', 2), (3, ''a'', 3)])) +
        int (length (demo_heap 4))"
      by (auto simp: less_2_cases_iff demo_ring_def demo_heap_def total_len_def data_len_def message_def)
  qed (simp_all add: demo_ring_def demo_heap_def total_len_def data_len_def message_def numeral_2_eq_2)
  then show ?thesis by simp
qed

end
