(* ===== verification/Broker.thy ===== *)
theory Broker
  imports RingBuffer
begin

text \<open>
  The event broker \<open>pkg/nats/broker.go\<close>: publishing to a subject, the handler that stores and fans
  out what arrives, subscribers with a bounded queue and byte budget, and the replay a new
  subscriber gets. The embedded NATS server is a third-party package; the messages it delivers
  are arguments of \<open>deliver\<close>, and its connection is the error, if any, that publishing data on a
  subject reports. A subscriber is known by its index; a queue is the list of the
  addresses of its messages, as in \<^typ>\<open>ring_buffer\<close>.
\<close>

section \<open>Subscribers\<close>

record subscriber =
  sb_queue :: "nat list"
  sb_cap :: nat
  sb_maxBytes :: int
  sb_bytes :: int
  sb_dropped :: int

definition Ack :: "subscriber \<Rightarrow> int \<Rightarrow> subscriber" where
  "Ack s n = (let b = sb_bytes s - n in s\<lparr>sb_bytes := (if b < 0 then 0 else b)\<rparr>)"

text \<open>Receiving takes the oldest message; the caller acknowledges its length.\<close>

definition receive :: "subscriber \<Rightarrow> (nat \<times> subscriber) option" where
  "receive s = (case sb_queue s of [] \<Rightarrow> None | a # q \<Rightarrow> Some (a, s\<lparr>sb_queue := q\<rparr>))"

definition trySend :: "heap \<Rightarrow> subscriber \<Rightarrow> nat \<Rightarrow> bool \<times> subscriber" where
  "trySend h s a = (let n = int (length (h a)) in
     if sb_maxBytes s > 0 \<and> sb_bytes s + n > sb_maxBytes s then (False, s\<lparr>sb_dropped := sb_dropped s + 1\<rparr>)
     else if length (sb_queue s) < sb_cap s
     then (True, s\<lparr>sb_queue := sb_queue s @ [a], sb_bytes := sb_bytes s + n\<rparr>)
     else (False, s\<lparr>sb_dropped := sb_dropped s + 1\<rparr>))"

section \<open>The broker\<close>

record broker =
  br_nc :: "(string \<Rightarrow> string \<Rightarrow> error option) option"
  br_heap :: heap
  br_buffer :: ring_buffer
  br_subs :: "(string, (nat, subscriber) kv) kv"
  br_subQueueDepth :: nat
  br_subQueueBytes :: int
  br_droppedFanout :: int

definition DefaultMaxAge :: duration where
  "DefaultMaxAge = 24 * 60 * 60 * Second"

definition New :: "(string \<Rightarrow> string \<Rightarrow> error option) \<Rightarrow> int \<Rightarrow> int \<Rightarrow> int \<Rightarrow> int \<Rightarrow> broker" where
  "New nc bufferSize bufferBytes subQueueDepth subQueueBytes =
     \<lparr>br_nc = Some nc, br_heap = (\<lambda>_. []), br_buffer = NewRingBuffer bufferSize bufferBytes DefaultMaxAge,
      br_subs = [], br_subQueueDepth = nat (if subQueueDepth \<le> 0 then 100 else subQueueDepth),
      br_subQueueBytes = subQueueBytes, br_droppedFanout = 0\<rparr>"

definition extractChannel :: "string \<Rightarrow> string" where
  "extractChannel subject = (if length subject \<le> length ''webhook.'' then [] else drop (length ''webhook.'') subject)"

text \<open>The subject and the data handed to NATS, or the error of the connection.\<close>

definition Publish :: "broker \<Rightarrow> string \<Rightarrow> string \<Rightarrow> (string \<times> string) result" where
  "Publish b channel data = (case br_nc b of
       None \<Rightarrow> Inl (ErrMsg ''nats not connected'')
     | Some nc \<Rightarrow> (case nc (''webhook.'' @ channel) data of
         Some e \<Rightarrow> Inl e
       | None \<Rightarrow> Inr (''webhook.'' @ channel, data)))"

definition Broker_SetChannelTTL :: "broker \<Rightarrow> string \<Rightarrow> duration \<Rightarrow> broker" where
  "Broker_SetChannelTTL b channel ttl = b\<lparr>br_buffer := SetChannelTTL (br_buffer b) channel ttl\<rparr>"

fun fanout_loop :: "heap \<Rightarrow> nat \<Rightarrow> (nat, subscriber) kv \<Rightarrow> (nat, subscriber) kv \<times> int" where
  "fanout_loop h a [] = ([], 0)"
| "fanout_loop h a ((i, s) # subs) =
     (let (sent, s') = trySend h s a; (subs', n) = fanout_loop h a subs
      in ((i, s') # subs', if sent then n else n + 1))"

definition fanout :: "broker \<Rightarrow> string \<Rightarrow> nat \<Rightarrow> broker" where
  "fanout b channel a = (case kv_get (br_subs b) channel of
       None \<Rightarrow> b
     | Some subs \<Rightarrow> (let (subs', n) = fanout_loop (br_heap b) a subs
         in b\<lparr>br_subs := kv_put channel subs' (br_subs b), br_droppedFanout := br_droppedFanout b + n\<rparr>))"

text \<open>The subscription handler: NATS delivers a message whose data it placed at address \<open>a\<close>.\<close>

definition deliver :: "time \<Rightarrow> broker \<Rightarrow> string \<Rightarrow> nat \<Rightarrow> string \<Rightarrow> broker option" where
  "deliver now b subject a data =
     (let b1 = b\<lparr>br_heap := (br_heap b)(a := data)\<rparr>; channel = extractChannel subject in
      if channel = [] then Some b1
      else (case Append now (br_heap b1) (br_buffer b1) channel a of
          None \<Rightarrow> None
        | Some (h, rb) \<Rightarrow> Some (fanout (b1\<lparr>br_heap := h, br_buffer := rb\<rparr>) channel a)))"

definition Subscribe :: "time \<Rightarrow> broker \<Rightarrow> string \<Rightarrow> nat \<Rightarrow> time \<Rightarrow> int \<Rightarrow> nat option list \<times> broker" where
  "Subscribe now b channel i since0 drainLimit =
     (let sub = \<lparr>sb_queue = [], sb_cap = br_subQueueDepth b, sb_maxBytes = br_subQueueBytes b, sb_bytes = 0,
                 sb_dropped = 0\<rparr>;
          subs = (case kv_get (br_subs b) channel of None \<Rightarrow> [] | Some m \<Rightarrow> m);
          b' = b\<lparr>br_subs := kv_put channel (kv_put i sub subs) (br_subs b)\<rparr>;
          since = (if time_IsZero since0 then time_Add now (- rb_maxAge (br_buffer b)) else since0)
      in (Get now (br_buffer b) channel since drainLimit, b'))"

text \<open>A subscriber that is no longer registered has a closed queue: closing it again panics.\<close>

definition Unsubscribe :: "broker \<Rightarrow> string \<Rightarrow> nat \<Rightarrow> broker result" where
  "Unsubscribe b channel i = (case kv_get (br_subs b) channel of
       None \<Rightarrow> Inr b
     | Some subs \<Rightarrow>
         (if kv_get subs i = None then Inl (ErrMsg ''panic: close of closed channel'')
          else (let subs' = kv_del i subs in
            if length subs' = 0 then Inr (b\<lparr>br_subs := kv_del channel (br_subs b)\<rparr>)
            else Inr (b\<lparr>br_subs := kv_put channel subs' (br_subs b)\<rparr>))))"

section \<open>Lemmas\<close>

lemma extractChannel_subject: "extractChannel (''webhook.'' @ c) = c"
  by (auto simp: extractChannel_def)

text \<open>The queue of a subscriber never exceeds its depth or its byte budget, and the budget counts
  the queued bytes as long as every received message is acknowledged once with its length.\<close>

definition queue_bytes :: "heap \<Rightarrow> nat list \<Rightarrow> int" where
  "queue_bytes h q = sum_list (map (\<lambda>a. int (length (h a))) q)"

definition sub_ok :: "heap \<Rightarrow> subscriber \<Rightarrow> bool" where
  "sub_ok h s \<longleftrightarrow> length (sb_queue s) \<le> sb_cap s \<and> sb_bytes s = queue_bytes h (sb_queue s) \<and>
     (sb_maxBytes s > 0 \<longrightarrow> sb_bytes s \<le> sb_maxBytes s)"

lemma trySend_ok: "sub_ok h s \<Longrightarrow> sub_ok h (snd (trySend h s a))"
  by (auto simp: sub_ok_def trySend_def Let_def queue_bytes_def)

lemma queue_bytes_nonneg: "0 \<le> queue_bytes h q"
  by (induction q) (simp_all add: queue_bytes_def)

lemma receive_ack_ok:
  assumes "sub_ok h s" "receive s = Some (a, s')"
  shows "sub_ok h (Ack s' (int (length (h a))))"
proof -
  obtain q where q: "sb_queue s = a # q" "s' = s\<lparr>sb_queue := q\<rparr>"
    using assms(2) by (auto simp: receive_def split: list.splits)
  then have "sb_bytes s = int (length (h a)) + queue_bytes h q"
    using assms(1) by (simp add: sub_ok_def queue_bytes_def)
  then show ?thesis
    using assms(1) q queue_bytes_nonneg [of h q] by (auto simp: sub_ok_def Ack_def Let_def)
qed

lemma trySend_result:
  "trySend h s a = (sent, s') \<Longrightarrow>
     (if sent then sb_queue s' = sb_queue s @ [a] \<and> sb_dropped s' = sb_dropped s
      else sb_queue s' = sb_queue s \<and> sb_dropped s' = sb_dropped s + 1)"
  by (auto simp: trySend_def Let_def split: if_splits)

lemma fanout_loop_get:
  "kv_get (fst (fanout_loop h a subs)) i = map_option (\<lambda>s. snd (trySend h s a)) (kv_get subs i)"
proof (induction subs)
  case (Cons p subs)
  obtain j s where p: "p = (j, s)" by (cases p)
  show ?case using Cons by (auto simp: p kv_get_Cons Let_def split: prod.splits)
qed simp

section \<open>Steps of a subscriber\<close>

text \<open>What happens to a subscriber: the fan-out tries to queue a message, or its reader takes the oldest
  message and acknowledges it with its length.\<close>

inductive sub_step :: "heap \<Rightarrow> subscriber \<Rightarrow> subscriber \<Rightarrow> bool" for h where
  Send: "sub_step h s (snd (trySend h s a))"
| Read: "receive s = Some (a, s') \<Longrightarrow> sub_step h s (Ack s' (int (length (h a))))"

inductive_cases sub_stepE: "sub_step h s s'"

lemma sub_step_ok: "sub_step h s s' \<Longrightarrow> sub_ok h s \<Longrightarrow> sub_ok h s'"
  by (erule sub_stepE) (auto intro: trySend_ok receive_ack_ok)

lemma sub_step_frame: "sub_step h s s' \<Longrightarrow> sb_cap s' = sb_cap s \<and> sb_maxBytes s' = sb_maxBytes s"
  by (erule sub_stepE) (auto simp: trySend_def Ack_def receive_def Let_def split: list.splits)

lemma sub_steps_ok:
  "(sub_step h)\<^sup>*\<^sup>* s s' \<Longrightarrow> sub_ok h s \<Longrightarrow> sub_ok h s' \<and> sb_cap s' = sb_cap s \<and> sb_maxBytes s' = sb_maxBytes s"
  by (induction rule: rtranclp_induct) (auto dest: sub_step_ok sub_step_frame)

section \<open>Delivery and shared payloads\<close>

lemma ring_rep_heap:
  assumes "ring_rep h rb xs" "\<forall>x \<in> set xs. re_data x \<noteq> Some a"
  shows "ring_rep (h(a := d)) rb xs"
proof -
  have "data_len (h(a := d)) x = data_len h x" if "x \<in> set xs" for x
    using assms(2) that by (auto simp: data_len_def split: option.split)
  then have "total_len (h(a := d)) xs = total_len h xs" unfolding total_len_def by (metis map_eq_conv)
  then show ?thesis using assms(1) by (simp add: ring_rep_def)
qed

lemma fanout_heap: "br_heap (fanout b c a) = br_heap b" "br_buffer (fanout b c a) = br_buffer b"
  by (simp_all add: fanout_def split: option.splits prod.splits)

lemma trySend_queue: "set (sb_queue s) \<subseteq> set (sb_queue (snd (trySend h s a)))"
  by (auto simp: trySend_def Let_def)

section \<open>Properties\<close>

text \<open>A slow consumer cannot make the broker grow: from its registration on, after any sequence of fan-outs
  and acknowledged reads, the queue of a subscriber holds at most the configured number of messages,
  its byte count is exactly the number of bytes queued, and it never exceeds the byte budget when
  there is one.\<close>

theorem subscriber_within_budget:
  assumes "(sub_step h)\<^sup>*\<^sup>* \<lparr>sb_queue = [], sb_cap = depth, sb_maxBytes = budget, sb_bytes = 0, sb_dropped = 0\<rparr> s"
  shows "length (sb_queue s) \<le> depth \<and> sb_bytes s = queue_bytes h (sb_queue s) \<and> (0 < budget \<longrightarrow> sb_bytes s \<le> budget)"
  using sub_steps_ok [OF assms] by (auto simp: sub_ok_def queue_bytes_def)

theorem subscriber_within_budget_witness:
  "sb_bytes (snd (trySend (\<lambda>_. ''abc'') \<lparr>sb_queue = [], sb_cap = 2, sb_maxBytes = 5, sb_bytes = 0, sb_dropped = 0\<rparr> 1)) \<le> 5"
  using subscriber_within_budget [OF r_into_rtranclp, OF sub_step.Send, of "\<lambda>_. ''abc''" 2 5 1] by simp

text \<open>Eviction destroys messages that subscribers have not read yet. The ring and the subscribers' queues
  share the payload, and the ring overwrites it with zeros when it evicts: delivering one more
  message to a full ring leaves the oldest message in the queue of its subscriber, zeroed.\<close>

theorem eviction_zeroes_queued_message:
  assumes "ring_rep (br_heap b) (br_buffer b) (x # xs)" "rb_full (br_buffer b)" "rb_maxBytes (br_buffer b) \<le> 0"
    and "re_data x = Some old" "\<forall>y \<in> set (x # xs). re_data y \<noteq> Some new" "c \<noteq> []"
    and "kv_get (br_subs b) c = Some subs" "kv_get subs i = Some s" "old \<in> set (sb_queue s)"
  shows "\<exists>b' subs' s'. deliver now b (''webhook.'' @ c) new data = Some b' \<and>
     kv_get (br_subs b') c = Some subs' \<and> kv_get subs' i = Some s' \<and> old \<in> set (sb_queue s') \<and>
     br_heap b' old = replicate (length (br_heap b old)) CHR 0x00"
proof -
  let ?h = "(br_heap b)(new := data)" and ?rb = "br_buffer b"
  have r: "ring_rep ?h ?rb (x # xs)" by (rule ring_rep_heap [OF assms(1,5)])
  have e: "fst (evictOldestLocked ?h ?rb) = zero_data ?h x" by (rule evict_rep(2) [OF r])
  have ne: "old \<noteq> new" using assms(4,5) by auto
  obtain rb' where A: "Append now ?h ?rb c new = Some (zero_data ?h x, rb')"
    using assms(2,3) e by (cases "evictOldestLocked ?h ?rb") (simp add: Append_def)
  let ?b = "b\<lparr>br_heap := zero_data ?h x, br_buffer := rb'\<rparr>"
  have d: "deliver now b (''webhook.'' @ c) new data = Some (fanout ?b c new)"
    using A assms(6) extractChannel_subject [of c] by (simp add: deliver_def Let_def)
  have s: "kv_get (br_subs (fanout ?b c new)) c = Some (fst (fanout_loop (zero_data ?h x) new subs))"
    using assms(7) by (simp add: fanout_def kvm.get_put split: prod.splits)
  have "kv_get (fst (fanout_loop (zero_data ?h x) new subs)) i = Some (snd (trySend (zero_data ?h x) s new))"
    using assms(8) by (simp add: fanout_loop_get)
  moreover have "old \<in> set (sb_queue (snd (trySend (zero_data ?h x) s new)))" using trySend_queue assms(9) by blast
  moreover have "br_heap (fanout ?b c new) old = replicate (length (br_heap b old)) CHR 0x00"
    using ne assms(4) by (simp add: fanout_heap zero_data_def)
  ultimately show ?thesis using d s by blast
qed

text \<open>A broker whose ring has one slot, with one subscriber that has not read the first message.\<close>

definition demo_broker :: broker where
  "demo_broker = (New (\<lambda>_ _. None) 1 0 10 0)\<lparr>br_heap := (\<lambda>_. ''abc''),
     br_buffer := (NewRingBuffer 1 0 DefaultMaxAge)\<lparr>rb_entries := [message (1, ''c'', 1)], rb_currentBytes := 3, rb_full := True\<rparr>,
     br_subs := [(''c'', [(0, \<lparr>sb_queue = [1], sb_cap = 10, sb_maxBytes = 0, sb_bytes = 3, sb_dropped = 0\<rparr>)])]\<rparr>"

theorem eviction_zeroes_queued_message_witness:
  "\<exists>b' subs' s'. deliver 2 demo_broker ''webhook.c'' 2 ''xyz'' = Some b' \<and> kv_get (br_subs b') ''c'' = Some subs' \<and>
     kv_get subs' 0 = Some s' \<and> 1 \<in> set (sb_queue s') \<and> br_heap b' 1 = [CHR 0x00, CHR 0x00, CHR 0x00]"
proof -
  have "ring_rep (br_heap demo_broker) (br_buffer demo_broker) [message (1, ''c'', 1)]"
    by (auto simp: ring_rep_def demo_broker_def NewRingBuffer_def total_len_def data_len_def message_def)
  then show ?thesis
    using eviction_zeroes_queued_message [of demo_broker "message (1, ''c'', 1)" "[]" 1 2 "''c''"
        "[(0, \<lparr>sb_queue = [1], sb_cap = 10, sb_maxBytes = 0, sb_bytes = 3, sb_dropped = 0\<rparr>)]" 0
        "\<lparr>sb_queue = [1], sb_cap = 10, sb_maxBytes = 0, sb_bytes = 3, sb_dropped = 0\<rparr>" 2 "''xyz''"]
    by (simp add: demo_broker_def NewRingBuffer_def message_def kv_get_Cons numeral_3_eq_3)
qed

end
