(* ===== verification/Http.thy ===== *)
theory Http
  imports Authorization Publish RateLimit Broker
begin

text \<open>
  The vocabulary of the HTTP layer \<open>internal/handler\<close>: requests with the context values the
  middlewares add, responses, the state of one server process, and handlers as functions from a
  request and the state. A middleware is a function from handlers to handlers, as in
  \<open>func(next http.Handler) http.Handler\<close>, so that routes compose the way \<open>internal/server\<close> composes them.

  What a request needs from outside (cryptography, the packages \<open>net\<close> and \<open>net/url\<close>, the time, the
  bytes each read of the random source gives) is the record \<open>env\<close>.
\<close>

section \<open>Requests and responses\<close>

text \<open>Header names are in canonical form and every name has at least one value, as \<open>net/http\<close> delivers
  them. A body is the data that arrives and the error, if any, with which the transfer ends.\<close>

record http_body =
  bd_data :: string
  bd_err :: "error option"

record web_request =
  wr_Method :: string
  wr_Path :: string
  wr_RemoteAddr :: string
  wr_Header :: "(string, string \<times> string list) kv"
  wr_Cookies :: "(string \<times> string) list"
  wr_Query :: "(string \<times> string) list"
  wr_Param :: "(string \<times> string) list"
  wr_TLS :: bool
  wr_Body :: http_body
  cx_Principal :: "user option"
  cx_Username :: string
  cx_Groups :: "string list"
  cx_ChannelID :: "string option"

definition or_empty :: "string option \<Rightarrow> string" where
  "or_empty x = (case x of None \<Rightarrow> [] | Some s \<Rightarrow> s)"

text \<open>\<open>textproto.CanonicalMIMEHeaderKey\<close> on header tokens: a letter is upper case at the start and
  after a hyphen, and lower case elsewhere.\<close>

definition upper_char :: "char \<Rightarrow> char" where
  "upper_char c = (if CHR ''a'' \<le> c \<and> c \<le> CHR ''z'' then char_of (of_char c - 32 :: nat) else c)"

fun canonical :: "bool \<Rightarrow> string \<Rightarrow> string" where
  "canonical up [] = []"
| "canonical up (c # s) = (if up then upper_char c else lower_char c) # canonical (c = CHR ''-'') s"

definition header_Get :: "web_request \<Rightarrow> string \<Rightarrow> string" where
  "header_Get r name = (case kv_get (wr_Header r) (canonical True name) of None \<Rightarrow> [] | Some (v, _) \<Rightarrow> v)"

text \<open>\<open>r.Cookie\<close>, \<open>r.URL.Query().Get\<close>, \<open>chi.URLParam\<close>\<close>

definition r_Cookie :: "web_request \<Rightarrow> string \<Rightarrow> string option" where
  "r_Cookie r name = map_of (wr_Cookies r) name"

definition query_Get :: "web_request \<Rightarrow> string \<Rightarrow> string" where
  "query_Get r name = or_empty (map_of (wr_Query r) name)"

definition URLParam :: "web_request \<Rightarrow> string \<Rightarrow> string" where
  "URLParam r name = or_empty (map_of (wr_Param r) name)"

text \<open>The part of a request the address functions of \<open>RateLimit\<close> look at.\<close>

definition http_of :: "web_request \<Rightarrow> http_request" where
  "http_of r = \<lparr>rq_RemoteAddr = wr_RemoteAddr r, rq_Header = header_Get r\<rparr>"

text \<open>\<open>io.ReadAll\<close> of \<open>http.MaxBytesReader\<close>: a negative limit counts as 0.\<close>

datatype 'a body_read = TooLarge | ReadError error | Body 'a

definition read_body :: "int \<Rightarrow> http_body \<Rightarrow> string body_read" where
  "read_body limit b = (if int (length (bd_data b)) > max 0 limit then TooLarge
     else (case bd_err b of Some e \<Rightarrow> ReadError e | None \<Rightarrow> Body (bd_data b)))"

record cookie =
  ck_Value :: string
  ck_Secure :: bool
  ck_MaxAge :: int

datatype payload = NoBody | PlainText string | JsonBody json

record http_response =
  rp_Status :: int
  rp_Header :: "(string, string) kv"
  rp_Cookie :: "cookie option"
  rp_Body :: payload

definition http_Error :: "string \<Rightarrow> int \<Rightarrow> http_response" where
  "http_Error msg status = \<lparr>rp_Status = status, rp_Header = [], rp_Cookie = None, rp_Body = PlainText msg\<rparr>"

definition writeJSON :: "int \<Rightarrow> json \<Rightarrow> http_response" where
  "writeJSON status v = \<lparr>rp_Status = status, rp_Header = [(''Content-Type'', ''application/json'')],
     rp_Cookie = None, rp_Body = JsonBody v\<rparr>"

definition writeError :: "int \<Rightarrow> string \<Rightarrow> http_response" where
  "writeError status msg = writeJSON status (JObj [(''error'', JStr msg)])"

definition WriteHeader :: "int \<Rightarrow> http_response" where
  "WriteHeader status = \<lparr>rp_Status = status, rp_Header = [], rp_Cookie = None, rp_Body = NoBody\<rparr>"

text \<open>\<open>err.Error()\<close>, without the text that wraps a sentinel error.\<close>

fun error_text :: "error \<Rightarrow> string" where
  "error_text ErrNotFound = ''not found''"
| "error_text ErrAlreadyExists = ''already exists''"
| "error_text ErrInvalidArgument = ''invalid argument''"
| "error_text (ErrMsg s) = s"

section \<open>The server process\<close>

record ip_ranges =
  ir_networks :: "(ip \<Rightarrow> bool) list"
  ir_ips :: "ip list"

record ip_cache_entry =
  ic_ranges :: ip_ranges
  ic_at :: time

text \<open>\<open>ws_sent\<close> is the sequence of messages handed to NATS, subject and data.\<close>

record web_state =
  ws_store :: raft_store
  ws_bans :: ban_tracker
  ws_limiter :: rate_limiter
  ws_throttle :: login_throttle
  ws_ipcache :: "(string, ip_cache_entry) kv"
  ws_broker :: broker
  ws_sent :: "(string \<times> string) list"

record env =
  en_C :: crypto
  en_N :: netlib
  en_url :: "string \<Rightarrow> (string \<times> string) option"
  en_now :: time
  en_rand :: "nat \<Rightarrow> string option"
  en_version :: string

type_synonym web_handler = "web_request \<Rightarrow> web_state \<Rightarrow> http_response \<times> web_state"
type_synonym middleware = "web_handler \<Rightarrow> web_handler"

text \<open>The notifier of \<open>internal/server\<close> passes message lifetimes on to the broker; the channel writes of the
  service run it.\<close>

definition OnChannelChanged :: "broker \<Rightarrow> string \<Rightarrow> int \<Rightarrow> broker" where
  "OnChannelChanged b channelID ttlSeconds =
     (if ttlSeconds > 0 then Broker_SetChannelTTL b channelID (seconds ttlSeconds) else b)"

definition notify :: "notices \<Rightarrow> broker \<Rightarrow> broker" where
  "notify ns b = fold (\<lambda>(i, ttl) b. OnChannelChanged b i ttl) ns b"

definition after_write :: "web_state \<Rightarrow> error option \<times> raft_store \<times> notices \<Rightarrow> error option \<times> web_state" where
  "after_write s w = (case w of (e, rs, ns) \<Rightarrow> (e, s\<lparr>ws_store := rs, ws_broker := notify ns (ws_broker s)\<rparr>))"

text \<open>\<open>decodeJSON\<close>: what \<open>json.Decoder.Decode\<close> makes of the capped body is an argument of the handlers
  that call it.\<close>

datatype 'a decoded = BodyTooLarge | Malformed | Decoded 'a

definition decodeJSON :: "'a decoded \<Rightarrow> http_response + 'a" where
  "decodeJSON d = (case d of
       BodyTooLarge \<Rightarrow> Inl (writeError 413 ''request body too large'')
     | Malformed \<Rightarrow> Inl (writeError 400 ''invalid JSON body'')
     | Decoded x \<Rightarrow> Inr x)"

section \<open>Lemmas\<close>

lemma response_simps [simp]:
  "rp_Status (http_Error msg st) = st" "rp_Status (writeJSON st v) = st" "rp_Status (writeError st msg) = st"
  "rp_Status (WriteHeader st) = st" "rp_Body (writeJSON st v) = JsonBody v" "rp_Body (WriteHeader st) = NoBody"
  "rp_Body (http_Error msg st) = PlainText msg"
  "rp_Body (writeError st msg) = JsonBody (JObj [(''error'', JStr msg)])"
  "rp_Cookie (http_Error msg st) = None" "rp_Cookie (writeJSON st v) = None" "rp_Cookie (writeError st msg) = None"
  "rp_Cookie (WriteHeader st) = None"
  by (simp_all add: http_Error_def writeJSON_def writeError_def WriteHeader_def)

lemma read_body_Body: "read_body limit b = Body x \<longleftrightarrow> x = bd_data b \<and> bd_err b = None \<and> int (length x) \<le> max 0 limit"
  by (auto simp: read_body_def max_def split: option.splits if_splits)

lemma decodeJSON_simps [simp]:
  "decodeJSON (Decoded x) = Inr x"
  "decodeJSON BodyTooLarge = Inl (writeError 413 ''request body too large'')"
  "decodeJSON Malformed = Inl (writeError 400 ''invalid JSON body'')"
  by (simp_all add: decodeJSON_def)

section \<open>A concrete site\<close>

text \<open>A single server without at-rest encryption whose store holds one channel \<open>c1\<close> with a webhook secret
  and an address list, and a request for it.\<close>

definition demo_channel :: channel where
  "demo_channel = zero_channel\<lparr>ch_ID := ''c1'', ch_WebhookSecret := ''s3cret'', ch_AllowedIPs := [''10.0.0.1'']\<rparr>"

definition demo_site :: raft_store where
  "demo_site = with_bucket (demo_store\<lparr>rs_keeper := None\<rparr>) [(''/channels/c1/'', marshal_channel demo_channel)]"

definition demo_web :: web_state where
  "demo_web = \<lparr>ws_store = demo_site, ws_bans = NewBanTracker, ws_limiter = NewRateLimiter, ws_throttle = NewLoginThrottle,
     ws_ipcache = [], ws_broker = New (\<lambda>_ _. None) 10 0 10 0, ws_sent = []\<rparr>"

definition demo_env :: env where
  "demo_env = \<lparr>en_C = toy_crypto, en_N = demo_net, en_url = (\<lambda>_. None), en_now = unix_epoch,
     en_rand = (\<lambda>_. Some (replicate 16 CHR ''r'')), en_version = ''1.0''\<rparr>"

definition demo_request :: web_request where
  "demo_request = \<lparr>wr_Method = ''POST'', wr_Path = ''/c1'', wr_RemoteAddr = ''10.0.0.1'',
     wr_Header = [(''Content-Type'', (''application/json'', [])), (''X-Gitlab-Token'', (''s3cret'', []))],
     wr_Cookies = [], wr_Query = [], wr_Param = [(''channel'', ''c1'')], wr_TLS = True,
     wr_Body = \<lparr>bd_data = ''{}'', bd_err = None\<rparr>,
     cx_Principal = None, cx_Username = [], cx_Groups = [], cx_ChannelID = None\<rparr>"

lemma demo_fields [simp]:
  "en_C demo_env = toy_crypto" "en_N demo_env = demo_net" "en_now demo_env = unix_epoch" "ws_store demo_web = demo_site"
  "ws_ipcache demo_web = []" "ws_sent demo_web = []" "ws_bans demo_web = NewBanTracker" "wr_Method demo_request = ''POST''"
  "URLParam demo_request ''channel'' = ''c1''" "ws_limiter demo_web = NewRateLimiter"
  by (simp_all add: demo_env_def demo_web_def demo_request_def URLParam_def or_empty_def)

lemma demo_site_ready: "store_ready demo_site" "rs_keeper demo_site = None"
  "bucket demo_site = [(''/channels/c1/'', marshal_channel demo_channel)]"
proof -
  have "store_ready (demo_store\<lparr>rs_keeper := None\<rparr>)" using demo_store_ready(1) by (simp add: store_ready_def)
  then show "store_ready demo_site" unfolding demo_site_def by (rule store_ready_with) (simp add: kv_wf_def)
qed (simp_all add: demo_site_def)

lemma demo_site_reads: "GetChannel C demo_site ''c1'' = Inr demo_channel" "GetGlobalConfig C demo_site = Inr DefaultGlobalConfig"
proof -
  show "GetChannel C demo_site ''c1'' = Inr demo_channel"
    by (simp add: GetChannel_ready [OF demo_site_ready(1)] demo_site_ready channelKey_def kv_get_Cons channel_roundtrip openChannel_def)
  show "GetGlobalConfig C demo_site = Inr DefaultGlobalConfig"
    by (simp add: GetGlobalConfig_def get_ready [OF demo_site_ready(1)] demo_site_ready kv_get_Cons openConfig_def)
qed

end
