(* ===== verification/Events.thy ===== *)
theory Events
  imports Http
begin

text \<open>
  The event stream \<open>internal/handler/events.go\<close>: the bound on concurrent streams, the handler that
  replays what a client missed and then relays the live queue until the client leaves, and the
  cursor it saves. While the stream is open the broker keeps delivering: a run is a sequence of
  stimuli, those of the stream and the deliveries of the broker in the order they take effect.
  Health probes are at the end.
\<close>

section \<open>The connection bound\<close>

record sse_limiter =
  sl_cap :: nat
  sl_used :: nat

definition newSSEConnLimiter :: "int \<Rightarrow> sse_limiter" where
  "newSSEConnLimiter limit = \<lparr>sl_cap = nat (if limit \<le> 0 then 1000 else limit), sl_used = 0\<rparr>"

definition acquire :: "sse_limiter \<Rightarrow> bool \<times> sse_limiter" where
  "acquire l = (if sl_used l < sl_cap l then (True, l\<lparr>sl_used := sl_used l + 1\<rparr>) else (False, l))"

text \<open>A release blocks while nothing is acquired.\<close>

definition release :: "sse_limiter \<Rightarrow> sse_limiter option" where
  "release l = (if sl_used l = 0 then None else Some (l\<lparr>sl_used := sl_used l - 1\<rparr>))"

section \<open>The stream\<close>

definition newline :: string where
  "newline = [CHR 0x0A]"

definition data_frame :: "string \<Rightarrow> string" where
  "data_frame data = ''data: '' @ data @ newline @ newline"

definition keepalive_frame :: string where
  "keepalive_frame = '': keepalive'' @ newline @ newline"

text \<open>What happens while a stream is open. \<open>Receive\<close> and \<open>Tick\<close> say whether the write they cause succeeds;
  \<open>Receive\<close> carries the time after the write. \<open>Deliver\<close> is a message of NATS, with its address.\<close>

datatype stimulus = Receive time bool | QueueClosed | Tick bool | Deliver time string nat string

text \<open>The frames written, the time of the last message among them in milliseconds, and whether the loop
  goes on.\<close>

record stream =
  sr_frames :: "string list"
  sr_last :: int
  sr_open :: bool

definition subscriber_of :: "broker \<Rightarrow> string \<Rightarrow> nat \<Rightarrow> subscriber option" where
  "subscriber_of b channel i = Option.bind (kv_get (br_subs b) channel) (\<lambda>subs. kv_get subs i)"

definition set_subscriber :: "broker \<Rightarrow> string \<Rightarrow> nat \<Rightarrow> subscriber \<Rightarrow> broker" where
  "set_subscriber b channel i sub = (case kv_get (br_subs b) channel of
       None \<Rightarrow> b
     | Some subs \<Rightarrow> b\<lparr>br_subs := kv_put channel (kv_put i sub subs) (br_subs b)\<rparr>)"

text \<open>One round of the loop of \<open>sseLoop\<close>; receiving waits while the queue is empty.\<close>

fun sse_step :: "string \<Rightarrow> nat \<Rightarrow> stimulus \<Rightarrow> broker \<times> stream \<Rightarrow> broker \<times> stream" where
  "sse_step channel i (Deliver now subject a data) (b, st) =
     ((case deliver now b subject a data of None \<Rightarrow> b | Some b' \<Rightarrow> b'), st)"
| "sse_step channel i (Receive now good) (b, st) =
     (if \<not> sr_open st then (b, st)
      else (case Option.bind (subscriber_of b channel i) receive of
          None \<Rightarrow> (b, st)
        | Some (a, sub) \<Rightarrow>
            (let data = br_heap b a; b' = set_subscriber b channel i (Ack sub (int (length data))) in
             if good then (b', st\<lparr>sr_frames := sr_frames st @ [data_frame data], sr_last := time_UnixMilli now\<rparr>)
             else (b', st\<lparr>sr_open := False\<rparr>))))"
| "sse_step channel i QueueClosed (b, st) = (b, st\<lparr>sr_open := False\<rparr>)"
| "sse_step channel i (Tick good) (b, st) =
     (if \<not> sr_open st then (b, st)
      else if good then (b, st\<lparr>sr_frames := sr_frames st @ [keepalive_frame]\<rparr>)
      else (b, st\<lparr>sr_open := False\<rparr>))"

definition sseLoop :: "string \<Rightarrow> nat \<Rightarrow> stimulus list \<Rightarrow> broker \<times> stream \<Rightarrow> broker \<times> stream" where
  "sseLoop channel i es c = fold (sse_step channel i) es c"

text \<open>The replay: every message of the past, until a write fails.\<close>

fun write_all_frames :: "(nat \<Rightarrow> bool) \<Rightarrow> string list \<Rightarrow> bool \<times> string list" where
  "write_all_frames wr [] = (True, [])"
| "write_all_frames wr (f # fs) = (if wr 0 then (let (done_ok, ws) = write_all_frames (\<lambda>n. wr (Suc n)) fs in (done_ok, f # ws)) else (False, []))"

definition payload_of :: "heap \<Rightarrow> nat option \<Rightarrow> string" where
  "payload_of h x = (case x of None \<Rightarrow> [] | Some a \<Rightarrow> h a)"

text \<open>The instant from which a client is served: its cursor, or the zero time.\<close>

definition replay_since :: "raft_store \<Rightarrow> string \<Rightarrow> string \<Rightarrow> time" where
  "replay_since rs channel clientID = (if clientID = [] then 0
     else (case GetClientCursor rs channel clientID of
         Inl _ \<Rightarrow> 0
       | Inr cursor \<Rightarrow> (if cc_LastTimestampMs cursor > 0 then time_OfUnixMilli (cc_LastTimestampMs cursor) else 0)))"

definition save_cursor :: "raft_store \<Rightarrow> string \<Rightarrow> string \<Rightarrow> int \<Rightarrow> time \<Rightarrow> raft_store" where
  "save_cursor rs channel clientID lastMsgTs now = (if clientID = [] then rs
     else (let lastTs = (if lastMsgTs = 0 then time_UnixMilli now else lastMsgTs)
           in snd (SetClientCursor rs \<lparr>cc_Channel = channel, cc_ClientID = clientID, cc_LastTimestampMs = lastTs\<rparr>)))"

text \<open>What a request for a stream ends with: an error response, or the frames the client got.\<close>

datatype stream_result = Refused http_response | Streamed "string list"

text \<open>\<open>i\<close> identifies the new subscriber, \<open>writes n\<close> says whether the n-th frame before the loop can be
  written, \<open>flusher\<close> whether the connection can stream; the client leaves after \<open>es\<close>, at time \<open>left\<close>.\<close>

definition HandleEventsGet ::
  "env \<Rightarrow> nat \<Rightarrow> bool \<Rightarrow> (nat \<Rightarrow> bool) \<Rightarrow> stimulus list \<Rightarrow> time \<Rightarrow> web_request \<Rightarrow> web_state \<Rightarrow> sse_limiter \<Rightarrow>
     stream_result \<times> web_state \<times> sse_limiter" where
  "HandleEventsGet E i flusher writes es left r s conns =
     (let channel = URLParam r ''channel''; clientID = query_Get r ''client_id'' in
      if channel = [] then (Refused (http_Error ''Channel name missing in URL'' 400), s, conns)
      else if length channel > 64 then (Refused (http_Error ''Channel name exceeds maximum length'' 400), s, conns)
      else (let (got, conns1) = acquire conns; closed = (case release conns1 of None \<Rightarrow> conns1 | Some c \<Rightarrow> c) in
        if \<not> got then (Refused (http_Error ''too many event stream connections'' 503), s, conns1)
        else if \<not> flusher then (Refused (http_Error ''Streaming unsupported'' 500), s, closed)
        else (let hello = [data_frame ''{\"message\":\"connected\"}'', data_frame ''{\"message\":\"ready\"}''];
                  (hello_ok, hello_frames) = write_all_frames writes hello in
          if \<not> hello_ok then (Streamed hello_frames, s, closed)
          else (let since = replay_since (ws_store s) channel clientID;
                    (historical, b1) = Subscribe (en_now E) (ws_broker s) channel i since 100;
                    (all_ok, past) = write_all_frames (\<lambda>n. writes (n + 2)) (map (\<lambda>x. data_frame (payload_of (br_heap b1) x)) historical) in
            if \<not> all_ok then (Streamed (hello_frames @ past), s\<lparr>ws_broker := ok_or b1 (Unsubscribe b1 channel i)\<rparr>, closed)
            else (let (b2, st) = sseLoop channel i es (b1, \<lparr>sr_frames = [], sr_last = 0, sr_open = True\<rparr>) in
              (Streamed (hello_frames @ past @ sr_frames st),
               s\<lparr>ws_store := save_cursor (ws_store s) channel clientID (sr_last st) left,
                 ws_broker := ok_or b2 (Unsubscribe b2 channel i)\<rparr>, closed))))))"

section \<open>Probes\<close>

definition RetReadyz :: "bool \<Rightarrow> http_response" where
  "RetReadyz cleanState = (if cleanState then writeJSON 200 (JObj [(''status'', JStr ''ready'')])
     else writeJSON 503 (JObj [(''status'', JStr ''not ready'')]))"

definition RetStartup :: "bool \<Rightarrow> http_response" where
  "RetStartup started = (if started then writeJSON 200 (JObj [(''status'', JStr ''started'')])
     else writeJSON 503 (JObj [(''status'', JStr ''starting'')]))"

section \<open>Lemmas\<close>

lemma subscriber_of_fanout:
  "subscriber_of (fanout b c a) channel i =
     (if c = channel then map_option (\<lambda>s. snd (trySend (br_heap b) s a)) (subscriber_of b channel i) else subscriber_of b channel i)"
  by (cases "kv_get (br_subs b) c")
    (auto simp: subscriber_of_def fanout_def kv_get_put fanout_loop_get Let_def case_prod_beta)

lemma subscriber_of_frame [simp]: "subscriber_of (b\<lparr>br_heap := h\<rparr>) = subscriber_of b" "subscriber_of (b\<lparr>br_buffer := rb\<rparr>) = subscriber_of b"
  by (simp_all add: subscriber_of_def fun_eq_iff)

fun addresses :: "stimulus list \<Rightarrow> nat list" where
  "addresses [] = []"
| "addresses (Deliver now subject a data # es) = a # addresses es"
| "addresses (_ # es) = addresses es"

text \<open>The messages delivered for a channel, with their addresses, and the bytes of all deliveries.\<close>

fun sent :: "string \<Rightarrow> stimulus list \<Rightarrow> (nat \<times> string) list" where
  "sent c [] = []"
| "sent c (Deliver now subject a data # es) = (if extractChannel subject = c then (a, data) # sent c es else sent c es)"
| "sent c (_ # es) = sent c es"

fun sent_bytes :: "stimulus list \<Rightarrow> int" where
  "sent_bytes [] = 0"
| "sent_bytes (Deliver now subject a data # es) = int (length data) + sent_bytes es"
| "sent_bytes (_ # es) = sent_bytes es"

text \<open>The ring has room for every delivery of a run, so none of them evicts a message.\<close>

definition ring_room :: "broker \<Rightarrow> ring_entry list \<Rightarrow> stimulus list \<Rightarrow> bool" where
  "ring_room b xs es \<longleftrightarrow> (rb_full (br_buffer b) \<longleftrightarrow> length xs = rb_maxSize (br_buffer b)) \<and>
     length xs + length (addresses es) \<le> rb_maxSize (br_buffer b) \<and>
     (0 < rb_maxBytes (br_buffer b) \<longrightarrow> total_len (br_heap b) xs + sent_bytes es \<le> rb_maxBytes (br_buffer b))"

text \<open>An evicted payload is overwritten with zeros.\<close>

definition zeroed :: "string \<Rightarrow> string" where
  "zeroed d = replicate (length d) CHR 0x00"

definition heap_step :: "heap \<Rightarrow> heap \<Rightarrow> bool" where
  "heap_step h h' \<longleftrightarrow> (\<forall>a. h' a = h a \<or> h' a = zeroed (h a))"

lemma heap_step_refl: "heap_step h h"
  by (simp add: heap_step_def)

lemma heap_step_trans: "heap_step h h1 \<Longrightarrow> heap_step h1 h2 \<Longrightarrow> heap_step h h2"
  by (auto simp: heap_step_def zeroed_def) (metis length_replicate)

lemma heap_step_evict: "heap_step h (fst (evictOldestLocked h rb))"
  by (auto simp: heap_step_def evictOldestLocked_def zero_data_def zeroed_def Let_def split: option.splits)

lemma heap_step_loop:
  assumes "evict_loop n h rb = Some r"
  shows "heap_step h (fst r)"
  by (rule evict_loop.raw_induct [where P = "\<lambda>n h rb r. heap_step h (fst r)", OF _ assms])
    (auto intro: heap_step_refl split: if_splits, blast intro: heap_step_trans [OF heap_step_evict])

lemma heap_step_Append:
  assumes "Append now h rb c a = Some (h', rb')"
  shows "heap_step h h'"
proof -
  obtain h1 rb1 where l: "(if rb_maxBytes rb > 0 then evict_loop (int (length (h a))) h rb else Some (h, rb)) = Some (h1, rb1)"
    and h': "h' = (if rb_full rb1 then fst (evictOldestLocked h1 rb1) else h1)"
    using assms by (auto simp: Append_def Let_def case_prod_beta split: option.splits if_splits)
  have "heap_step h h1" using l heap_step_loop [of _ h rb "(h1, rb1)"] heap_step_refl by (auto split: if_splits)
  then show ?thesis using h' heap_step_trans heap_step_evict by auto
qed

text \<open>A delivery to a ring with room leaves the other payloads alone; any delivery leaves them or zeroes them.\<close>

lemma deliver_room:
  assumes "ring_rep (br_heap b) (br_buffer b) xs" "\<forall>x \<in> set xs. re_data x \<noteq> Some a" "ring_room b xs (Deliver now subject a data # es)"
    and "deliver now b subject a data = Some b'"
  shows "br_heap b' = (br_heap b)(a := data) \<and> (\<exists>xs'. ring_rep (br_heap b') (br_buffer b') xs' \<and> ring_room b' xs' es \<and>
     set xs' \<subseteq> insert (message (now, extractChannel subject, a)) (set xs))"
proof -
  let ?b = "b\<lparr>br_heap := (br_heap b)(a := data)\<rparr>" and ?c = "extractChannel subject"
  have r: "ring_rep (br_heap ?b) (br_buffer ?b) xs" using ring_rep_heap [OF assms(1,2)] by simp
  have t: "total_len (br_heap ?b) xs = total_len (br_heap b) xs" using ring_repD(9) [OF r] ring_repD(9) [OF assms(1)] by simp
  show ?thesis
  proof (cases "?c = []")
    case True
    then have b': "b' = ?b" using assms(4) by (simp add: deliver_def Let_def)
    have "total_len (br_heap b) xs + sent_bytes es \<le> total_len (br_heap b) xs + (int (length data) + sent_bytes es)" by simp
    then have "ring_room ?b xs es" using assms(3) t by (auto simp: ring_room_def)
    then show ?thesis using r b' by auto
  next
    case False
    have len: "length xs < rb_maxSize (br_buffer ?b)" "\<not> rb_full (br_buffer ?b)"
      using assms(3) by (auto simp: ring_room_def)
    have bytes: "int (length data) + sent_bytes es \<ge> int (length data)"
      by (induction es rule: sent_bytes.induct) auto
    have f: "fits (br_heap ?b) (br_buffer ?b) (xs @ [message (now, ?c, a)])"
      using assms(3) t bytes by (auto simp: fits_def ring_room_def total_len_append) (auto simp: total_len_def data_len_message)
    let ?rb = "append_at_head now ?c a (br_heap ?b) (br_buffer ?b)"
    have A: "Append now (br_heap ?b) (br_buffer ?b) ?c a = Some (br_heap ?b, ?rb)"
      unfolding Append_def no_byte_eviction [OF r f] using len(2) by simp
    have b': "b' = fanout (?b\<lparr>br_buffer := ?rb\<rparr>) ?c a"
      using A assms(4) False by (simp add: deliver_def Let_def)
    have R: "ring_rep (br_heap ?b) ?rb (xs @ [message (now, ?c, a)])"
      using append_at_head_rep [OF r len(1)] by (simp add: message_def)
    have fr: "rb_maxSize ?rb = rb_maxSize (br_buffer b)" "rb_maxBytes ?rb = rb_maxBytes (br_buffer b)"
      by (simp_all add: append_at_head_def Let_def)
    have "total_len (br_heap ?b) (xs @ [message (now, ?c, a)]) = total_len (br_heap b) xs + int (length data)"
      unfolding total_len_append t by (simp add: total_len_def data_len_message)
    then have "ring_room b' (xs @ [message (now, ?c, a)]) es"
      using assms(3) append_at_head_full [OF r len, of now ?c a] fr unfolding b'
      by (auto simp: ring_room_def fanout_heap)
    then show ?thesis using R b' by (auto simp: fanout_heap)
  qed
qed

lemma deliver_any:
  assumes "ring_rep (br_heap b) (br_buffer b) xs" "\<forall>x \<in> set xs. re_data x \<noteq> Some a"
  shows "\<exists>b' xs' h. deliver now b subject a data = Some b' \<and> ring_rep (br_heap b') (br_buffer b') xs' \<and>
     set xs' \<subseteq> insert (message (now, extractChannel subject, a)) (set xs) \<and>
     heap_step ((br_heap b)(a := data)) (br_heap b') \<and>
     subscriber_of b' channel i = (if extractChannel subject = channel \<and> channel \<noteq> []
        then map_option (\<lambda>s. snd (trySend h s a)) (subscriber_of b channel i) else subscriber_of b channel i)"
proof -
  let ?b = "b\<lparr>br_heap := (br_heap b)(a := data)\<rparr>" and ?c = "extractChannel subject"
  have r: "ring_rep (br_heap ?b) (br_buffer ?b) xs" using ring_rep_heap [OF assms] by simp
  show ?thesis
  proof (cases "?c = []")
    case True
    then show ?thesis using r by (auto simp: deliver_def subscriber_of_def heap_step_refl intro: exI [of _ ?b])
  next
    case False
    obtain h' rb' k where a: "Append now (br_heap ?b) (br_buffer ?b) ?c a = Some (h', rb')"
      "ring_rep h' rb' (drop k xs @ [\<lparr>re_channel = ?c, re_data = Some a, re_timestamp = now\<rparr>])"
      using Append_rep [OF r] by blast
    let ?b2 = "?b\<lparr>br_heap := h', br_buffer := rb'\<rparr>"
    have "deliver now b subject a data = Some (fanout ?b2 ?c a)" using a(1) False by (simp add: deliver_def Let_def)
    moreover have "subscriber_of (fanout ?b2 ?c a) channel i = (if ?c = channel
        then map_option (\<lambda>s. snd (trySend h' s a)) (subscriber_of b channel i) else subscriber_of b channel i)"
      by (simp add: subscriber_of_fanout)
    ultimately show ?thesis
      using a(2) False set_drop_subset [of k xs] heap_step_Append [OF a(1)]
      by (intro exI [of _ "fanout ?b2 ?c a"] exI [of _ "drop k xs @ [\<lparr>re_channel = ?c, re_data = Some a, re_timestamp = now\<rparr>]"]
          exI [of _ h']) (auto simp: fanout_heap message_def)
  qed
qed

lemma subscriber_of_set: "subscriber_of b channel i = Some s0 \<Longrightarrow> subscriber_of (set_subscriber b channel i sub) channel i = Some sub"
  by (auto simp: subscriber_of_def set_subscriber_def kv_get_put split: option.splits Option.bind_splits)

lemma set_subscriber_frame:
  "br_heap (set_subscriber b c i s) = br_heap b" "br_buffer (set_subscriber b c i s) = br_buffer b"
  by (simp_all add: set_subscriber_def split: option.split)

lemma trySend_cases: "snd (trySend h s a) = s\<lparr>sb_dropped := sb_dropped s + 1\<rparr> \<or>
   snd (trySend h s a) = s\<lparr>sb_queue := sb_queue s @ [a], sb_bytes := sb_bytes s + int (length (h a))\<rparr>"
  by (simp add: trySend_def Let_def)

lemma subseq_snoc: "subseq xs ys \<Longrightarrow> subseq xs (ys @ [a])" "subseq xs ys \<Longrightarrow> subseq (xs @ [a]) (ys @ [a])"
  by (simp_all add: list_emb_prefix list_emb_append_mono)

lemma subseq_set: "subseq xs ys \<Longrightarrow> set xs \<subseteq> set ys"
  by (auto elim: list_emb_set)

text \<open>The frames of messages among those written, and what a frame or a payload may be for the message it
  stands for: that message or, where \<open>lossy\<close>, its zeros.\<close>

definition message_frames :: "stream \<Rightarrow> string list" where
  "message_frames st = filter (\<lambda>f. f \<noteq> keepalive_frame) (sr_frames st)"

definition carries :: "bool \<Rightarrow> string \<Rightarrow> string \<Rightarrow> bool" where
  "carries lossy s d \<longleftrightarrow> s = d \<or> lossy \<and> s = zeroed d"

definition frame_of :: "bool \<Rightarrow> string \<Rightarrow> nat \<times> string \<Rightarrow> bool" where
  "frame_of lossy f m \<longleftrightarrow> (\<exists>s. carries lossy s (snd m) \<and> f = data_frame s)"

definition queued :: "bool \<Rightarrow> heap \<Rightarrow> nat \<Rightarrow> nat \<times> string \<Rightarrow> bool" where
  "queued lossy h a m \<longleftrightarrow> fst m = a \<and> carries lossy (h a) (snd m)"

lemma carries_step: "carries lossy (h a) d \<Longrightarrow> h' a = h a \<or> lossy \<and> h' a = zeroed (h a) \<Longrightarrow> carries lossy (h' a) d"
  by (auto simp: carries_def zeroed_def)

text \<open>The invariant of a live stream: some of the messages \<open>ds\<close> delivered so far were selected, in order; the
  first of them are the message frames written, the others are queued; the rest was counted as dropped.\<close>

definition stream_inv :: "bool \<Rightarrow> string \<Rightarrow> nat \<Rightarrow> (nat \<times> string) list \<Rightarrow> broker \<times> stream \<Rightarrow> bool" where
  "stream_inv lossy channel i ds c \<longleftrightarrow> (\<exists>sub. subscriber_of (fst c) channel i = Some sub \<and>
     (sr_open (snd c) \<longrightarrow> (\<exists>ws qs. list_all2 (frame_of lossy) (message_frames (snd c)) ws \<and>
        list_all2 (queued lossy (br_heap (fst c))) (sb_queue sub) qs \<and>
        subseq (ws @ qs) ds \<and> int (length ds) = int (length (ws @ qs)) + sb_dropped sub)))"

lemma data_frame_not_keepalive: "data_frame d \<noteq> keepalive_frame"
  by (simp add: data_frame_def keepalive_frame_def)

lemma message_frames_simps:
  "message_frames (st\<lparr>sr_last := t\<rparr>) = message_frames st"
  "message_frames (st\<lparr>sr_frames := sr_frames st @ [keepalive_frame]\<rparr>) = message_frames st"
  "message_frames (st\<lparr>sr_frames := sr_frames st @ [data_frame d]\<rparr>) = message_frames st @ [data_frame d]"
  by (simp_all add: message_frames_def data_frame_not_keepalive)

lemma stream_inv_step:
  assumes "stream_inv lossy channel i ds (b, st)" "addresses [e] = []"
  shows "stream_inv lossy channel i ds (sse_step channel i e (b, st)) \<and>
     br_heap (fst (sse_step channel i e (b, st))) = br_heap b \<and> br_buffer (fst (sse_step channel i e (b, st))) = br_buffer b"
proof (cases e)
  case (Receive now good)
  show ?thesis
  proof (cases "sr_open st \<and> Option.bind (subscriber_of b channel i) receive \<noteq> None")
    case True
    then obtain sub a sub' where s: "subscriber_of b channel i = Some sub" "receive sub = Some (a, sub')" "sr_open st"
      by (auto split: Option.bind_splits)
    then have q: "sb_queue sub = a # sb_queue sub'" "sb_dropped sub' = sb_dropped sub"
      by (auto simp: receive_def split: list.splits)
    obtain ws qs where w: "list_all2 (frame_of lossy) (message_frames st) ws"
      "list_all2 (queued lossy (br_heap b)) (a # sb_queue sub') qs"
      "subseq (ws @ qs) ds" "int (length ds) = int (length (ws @ qs)) + sb_dropped sub"
      using assms(1) s q by (auto simp: stream_inv_def)
    then obtain m qs' where m: "qs = m # qs'" "queued lossy (br_heap b) a m" "list_all2 (queued lossy (br_heap b)) (sb_queue sub') qs'"
      by (auto simp: list_all2_Cons1)
    let ?st = "st\<lparr>sr_frames := sr_frames st @ [data_frame (br_heap b a)], sr_last := time_UnixMilli now\<rparr>"
    have "frame_of lossy (data_frame (br_heap b a)) m" using m(2) by (auto simp: frame_of_def queued_def)
    then have "list_all2 (frame_of lossy) (message_frames ?st) (ws @ [m])"
      unfolding message_frames_simps using w(1) by (simp add: list_all2_appendI)
    moreover have "subseq ((ws @ [m]) @ qs') ds" "int (length ds) = int (length ((ws @ [m]) @ qs')) + sb_dropped sub'"
      using w(3,4) m(1) q(2) by simp_all
    ultimately have "stream_inv lossy channel i ds (set_subscriber b channel i (Ack sub' n), ?st)" for n
      using m(3) subscriber_of_set [OF s(1)] unfolding stream_inv_def
      by (intro exI [of _ "Ack sub' n"] conjI impI exI [of _ "ws @ [m]"] exI [of _ qs'])
        (simp_all add: set_subscriber_frame Ack_def Let_def)
    then show ?thesis
      using s subscriber_of_set [OF s(1)]
      by (auto simp: Receive set_subscriber_frame Let_def) (auto simp: stream_inv_def)
  next
    case False
    then show ?thesis using assms(1) by (auto simp: Receive split: option.splits)
  qed
next
  case (Tick good)
  then show ?thesis using assms(1) by (auto simp: stream_inv_def message_frames_simps)
qed (use assms in \<open>auto simp: stream_inv_def\<close>)

lemma queued_step:
  assumes "list_all2 (queued lossy h) q qs" "\<forall>m \<in> set qs. fst m \<noteq> a"
    and "\<forall>a'. a' \<noteq> a \<longrightarrow> h' a' = h a' \<or> lossy \<and> h' a' = zeroed (h a')"
  shows "list_all2 (queued lossy h') q qs"
proof (rule list.rel_mono_strong [OF assms(1)])
  fix x m assume "m \<in> set qs" and q: "queued lossy h x m"
  then have "x \<noteq> a" using assms(2) by (auto simp: queued_def)
  then show "queued lossy h' x m" using q assms(3) carries_step [of lossy h x "snd m" h'] by (simp add: queued_def)
qed

lemma stream_inv_send:
  assumes "stream_inv lossy channel i ds (b, st)" "a \<notin> fst ` set ds" "carries lossy (br_heap b' a) data"
    and "\<forall>a'. a' \<noteq> a \<longrightarrow> br_heap b' a' = br_heap b a' \<or> lossy \<and> br_heap b' a' = zeroed (br_heap b a')"
    and "subscriber_of b' channel i = map_option (\<lambda>s. snd (trySend h s a)) (subscriber_of b channel i)"
  shows "stream_inv lossy channel i (ds @ [(a, data)]) (b', st)"
proof -
  obtain sub where s: "subscriber_of b channel i = Some sub" using assms(1) by (auto simp: stream_inv_def)
  have s': "subscriber_of b' channel i = Some (snd (trySend h sub a))" using assms(5) s by simp
  have "\<exists>ws qs. list_all2 (frame_of lossy) (message_frames st) ws \<and>
      list_all2 (queued lossy (br_heap b')) (sb_queue (snd (trySend h sub a))) qs \<and> subseq (ws @ qs) (ds @ [(a, data)]) \<and>
      int (length (ds @ [(a, data)])) = int (length (ws @ qs)) + sb_dropped (snd (trySend h sub a))" if "sr_open st"
  proof -
    obtain ws qs where w: "list_all2 (frame_of lossy) (message_frames st) ws" "list_all2 (queued lossy (br_heap b)) (sb_queue sub) qs"
      "subseq (ws @ qs) ds" "int (length ds) = int (length (ws @ qs)) + sb_dropped sub"
      using assms(1) s \<open>sr_open st\<close> by (auto simp: stream_inv_def)
    have "set qs \<subseteq> set ds" using subseq_set [OF w(3)] by auto
    then have "\<forall>m \<in> set qs. fst m \<noteq> a" using assms(2) by auto
    then have q: "list_all2 (queued lossy (br_heap b')) (sb_queue sub) qs"
      using queued_step [OF w(2) _ assms(4)] by blast
    from trySend_cases [of h sub a] show ?thesis
    proof
      assume "snd (trySend h sub a) = sub\<lparr>sb_dropped := sb_dropped sub + 1\<rparr>"
      then show ?thesis using w(1,3,4) q by (intro exI [of _ ws] exI [of _ qs]) (simp add: subseq_snoc)
    next
      assume t: "snd (trySend h sub a) = sub\<lparr>sb_queue := sb_queue sub @ [a], sb_bytes := sb_bytes sub + int (length (h a))\<rparr>"
      have "queued lossy (br_heap b') a (a, data)" using assms(3) by (simp add: queued_def)
      then have "list_all2 (queued lossy (br_heap b')) (sb_queue sub @ [a]) (qs @ [(a, data)])"
        using q by (simp add: list_all2_appendI)
      moreover have "subseq ((ws @ qs) @ [(a, data)]) (ds @ [(a, data)])" using w(3) by (rule subseq_snoc(2))
      ultimately show ?thesis using w(1,4) t by (intro exI [of _ ws] exI [of _ "qs @ [(a, data)]"]) simp
    qed
  qed
  then show ?thesis using s' by (simp add: stream_inv_def)
qed

lemma stream_inv_heap:
  assumes "stream_inv lossy channel i ds (b, st)" "a \<notin> fst ` set ds"
    and "\<forall>a'. a' \<noteq> a \<longrightarrow> br_heap b' a' = br_heap b a' \<or> lossy \<and> br_heap b' a' = zeroed (br_heap b a')"
    and "subscriber_of b' channel i = subscriber_of b channel i"
  shows "stream_inv lossy channel i ds (b', st)"
proof -
  have "list_all2 (queued lossy (br_heap b')) q qs" if "list_all2 (queued lossy (br_heap b)) q qs" "subseq (ws @ qs) ds" for q ws qs
  proof -
    have "set qs \<subseteq> set ds" using subseq_set [OF that(2)] by auto
    then have "\<forall>m \<in> set qs. fst m \<noteq> a" using assms(2) by auto
    from queued_step [OF that(1) this assms(3)] show ?thesis .
  qed
  then show ?thesis using assms(1,4) by (fastforce simp: stream_inv_def)
qed

lemma sent_addresses: "fst ` set (sent c es) \<subseteq> set (addresses es)"
  by (induction c es rule: sent.induct) auto

lemma sse_run_inv:
  assumes "stream_inv lossy channel i ds (b, st)" "ring_rep (br_heap b) (br_buffer b) xs" "lossy \<or> ring_room b xs es"
    and "distinct (addresses es)" "\<forall>a \<in> set (addresses es). a \<notin> fst ` set ds \<and> (\<forall>x \<in> set xs. re_data x \<noteq> Some a)" "channel \<noteq> []"
  shows "stream_inv lossy channel i (ds @ sent channel es) (sseLoop channel i es (b, st))"
  using assms
proof (induction es arbitrary: ds b st xs)
  case Nil
  then show ?case by (simp add: sseLoop_def)
next
  case (Cons e es)
  show ?case
  proof (cases "addresses [e] = []")
    case True
    then have e: "addresses (e # es) = addresses es" "sent channel (e # es) = sent channel es" "sent_bytes (e # es) = sent_bytes es"
      by (cases e; simp)+
    obtain b' st' where s: "sse_step channel i e (b, st) = (b', st')" by fastforce
    from stream_inv_step [OF Cons.prems(1) True]
    have i: "stream_inv lossy channel i ds (b', st')" and h: "br_heap b' = br_heap b" "br_buffer b' = br_buffer b"
      using s by simp_all
    have "lossy \<or> ring_room b' xs es" using Cons.prems(3) e h by (simp add: ring_room_def)
    then show ?thesis using Cons.IH [OF i, of xs] Cons.prems(2,4-6) e s h by (simp add: sseLoop_def)
  next
    case False
    then obtain now subject a data where e: "e = Deliver now subject a data" by (cases e) auto
    have f: "\<forall>x \<in> set xs. re_data x \<noteq> Some a" "a \<notin> fst ` set ds" using Cons.prems(5) by (simp_all add: e)
    obtain b' xs0 h where d: "deliver now b subject a data = Some b'" "ring_rep (br_heap b') (br_buffer b') xs0"
      "set xs0 \<subseteq> insert (message (now, extractChannel subject, a)) (set xs)" "heap_step ((br_heap b)(a := data)) (br_heap b')"
      "subscriber_of b' channel i = (if extractChannel subject = channel \<and> channel \<noteq> []
        then map_option (\<lambda>s. snd (trySend h s a)) (subscriber_of b channel i) else subscriber_of b channel i)"
      using deliver_any [OF Cons.prems(2) f(1), of now subject data channel i] by blast
    have "\<exists>xs'. ring_rep (br_heap b') (br_buffer b') xs' \<and> (lossy \<or> ring_room b' xs' es) \<and>
        set xs' \<subseteq> insert (message (now, extractChannel subject, a)) (set xs) \<and>
        carries lossy (br_heap b' a) data \<and>
        (\<forall>a'. a' \<noteq> a \<longrightarrow> br_heap b' a' = br_heap b a' \<or> lossy \<and> br_heap b' a' = zeroed (br_heap b a'))"
    proof (cases lossy)
      case True
      note z = spec [OF d(4) [unfolded heap_step_def]]
      have "carries lossy (br_heap b' a) data" using z [of a] True by (simp add: carries_def)
      moreover have "br_heap b' a' = br_heap b a' \<or> lossy \<and> br_heap b' a' = zeroed (br_heap b a')" if "a' \<noteq> a" for a'
        using z [of a'] that True by simp
      ultimately show ?thesis using d(2,3) True by blast
    next
      case False
      then have "ring_room b xs (Deliver now subject a data # es)" using Cons.prems(3) e by simp
      from deliver_room [OF Cons.prems(2) f(1) this d(1)] show ?thesis by (auto simp: carries_def)
    qed
    then obtain xs' where x: "ring_rep (br_heap b') (br_buffer b') xs'" "lossy \<or> ring_room b' xs' es"
      "set xs' \<subseteq> insert (message (now, extractChannel subject, a)) (set xs)" "carries lossy (br_heap b' a) data"
      "\<forall>a'. a' \<noteq> a \<longrightarrow> br_heap b' a' = br_heap b a' \<or> lossy \<and> br_heap b' a' = zeroed (br_heap b a')"
      by blast
    let ?ds = "if extractChannel subject = channel then ds @ [(a, data)] else ds"
    have i: "stream_inv lossy channel i ?ds (b', st)"
    proof (cases "extractChannel subject = channel")
      case True
      then have "subscriber_of b' channel i = map_option (\<lambda>s. snd (trySend h s a)) (subscriber_of b channel i)"
        using d(5) Cons.prems(6) by simp
      from stream_inv_send [OF Cons.prems(1) f(2) x(4,5) this] show ?thesis using True by simp
    next
      case False
      then have "subscriber_of b' channel i = subscriber_of b channel i" using d(5) by simp
      from stream_inv_heap [OF Cons.prems(1) f(2) x(5) this] show ?thesis using False by simp
    qed
    have fresh: "\<forall>a' \<in> set (addresses es). a' \<notin> fst ` set ?ds \<and> (\<forall>x \<in> set xs'. re_data x \<noteq> Some a')"
    proof (intro ballI conjI)
      fix a' assume a': "a' \<in> set (addresses es)"
      then have ne: "a' \<noteq> a" and o: "a' \<notin> fst ` set ds" "\<And>x. x \<in> set xs \<Longrightarrow> re_data x \<noteq> Some a'"
        using Cons.prems(4,5) by (auto simp: e)
      show "a' \<notin> fst ` set ?ds" using ne o(1) by simp
      fix y assume "y \<in> set xs'"
      then have "y = message (now, extractChannel subject, a) \<or> y \<in> set xs" using x(3) by blast
      then show "re_data y \<noteq> Some a'" using ne o(2) by (auto simp: message_def)
    qed
    have "distinct (addresses es)" using Cons.prems(4) by (simp add: e)
    from Cons.IH [OF i x(1,2) this fresh Cons.prems(6)] show ?thesis using d(1) by (simp add: e sseLoop_def split: if_splits)
  qed
qed

lemma registered_step: "subscriber_of b channel i \<noteq> None \<Longrightarrow> subscriber_of (fst (sse_step channel i e (b, st))) channel i \<noteq> None"
proof (cases e)
  case (Deliver now subject a data)
  assume r: "subscriber_of b channel i \<noteq> None"
  have "deliver now b subject a data = Some b' \<Longrightarrow> subscriber_of b' channel i \<noteq> None" for b'
    using r by (auto simp: deliver_def Let_def subscriber_of_fanout split: if_splits option.splits prod.splits)
  then show ?thesis using r by (simp add: Deliver split: option.split)
next
  case (Receive now good)
  assume r: "subscriber_of b channel i \<noteq> None"
  then obtain s0 where "subscriber_of b channel i = Some s0" by auto
  from subscriber_of_set [OF this] show ?thesis using r by (auto simp: Receive Let_def split: option.splits)
qed simp_all

lemma registered_run: "subscriber_of b channel i \<noteq> None \<Longrightarrow> subscriber_of (fst (sseLoop channel i es (b, st))) channel i \<noteq> None"
proof (induction es arbitrary: b st)
  case (Cons e es)
  then show ?case using registered_step [of b channel i e st] by (cases "sse_step channel i e (b, st)") (simp add: sseLoop_def)
qed (simp add: sseLoop_def)

lemma Unsubscribe_registered:
  assumes "subscriber_of b channel i \<noteq> None"
  shows "\<exists>b'. Unsubscribe b channel i = Inr b' \<and> subscriber_of b' channel i = None"
proof -
  obtain subs where s: "kv_get (br_subs b) channel = Some subs" "kv_get subs i \<noteq> None"
    using assms by (auto simp: subscriber_of_def split: Option.bind_splits)
  then show ?thesis by (auto simp: Unsubscribe_def Let_def subscriber_of_def kv_get_put kv_get_del)
qed

lemma Subscribe_registers: "subscriber_of (snd (Subscribe now b channel i since lim)) channel i =
   Some \<lparr>sb_queue = [], sb_cap = br_subQueueDepth b, sb_maxBytes = br_subQueueBytes b, sb_bytes = 0, sb_dropped = 0\<rparr>"
  by (simp add: Subscribe_def Let_def subscriber_of_def kv_get_put)

lemma acquire_release: "acquire l = (True, l') \<Longrightarrow> release l' = Some l"
  by (auto simp: acquire_def release_def split: if_splits)

section \<open>Properties\<close>

text \<open>What a registered subscriber has queued, and how many messages it lost.\<close>

definition the_queue :: "broker \<Rightarrow> string \<Rightarrow> nat \<Rightarrow> nat list" where
  "the_queue b channel i = (case subscriber_of b channel i of None \<Rightarrow> [] | Some sub \<Rightarrow> sb_queue sub)"

definition the_dropped :: "broker \<Rightarrow> string \<Rightarrow> nat \<Rightarrow> int" where
  "the_dropped b channel i = (case subscriber_of b channel i of None \<Rightarrow> 0 | Some sub \<Rightarrow> sb_dropped sub)"

text \<open>Two messages for the channel and one for another, and one read.\<close>

definition demo_run :: "stimulus list" where
  "demo_run = [Deliver 5 ''webhook.c'' 1 ''m1'', Deliver 5 ''webhook.d'' 2 ''m2'', Receive 6 True, Tick True,
     Deliver 7 ''webhook.c'' 3 ''m3'']"

definition demo_end :: "broker \<times> stream" where
  "demo_end = sseLoop ''c'' 7 demo_run (snd (Subscribe 4 (New (\<lambda>_ _. None) 3 0 2 0) ''c'' 7 0 100),
     \<lparr>sr_frames = [], sr_last = 0, sr_open = True\<rparr>)"

lemma list_all2_eq_map: "list_all2 (\<lambda>x y. x = g y) xs ys \<longleftrightarrow> xs = map g ys"
  by (induction xs arbitrary: ys) (auto simp: list_all2_Cons1)

definition new_stream :: stream where
  "new_stream = \<lparr>sr_frames = [], sr_last = 0, sr_open = True\<rparr>"



text \<open>Every way out of a stream request gives its slot back and unregisters its subscriber, whatever writes
  fail and whatever happens while it is open.\<close>

theorem stream_leaves_no_trace:
  assumes "HandleEventsGet E i flusher writes es left r s conns = (res, s', conns')"
    and "subscriber_of (ws_broker s) (URLParam r ''channel'') i = None"
  shows "conns' = conns \<and> subscriber_of (ws_broker s') (URLParam r ''channel'') i = None"
proof -
  let ?c = "URLParam r ''channel''"
  obtain got conns1 where g: "acquire conns = (got, conns1)" by fastforce
  have c: "got \<Longrightarrow> release conns1 = Some conns" "\<not> got \<Longrightarrow> conns1 = conns"
    using g acquire_release by (auto simp: acquire_def split: if_splits)
  have u: "subscriber_of b ?c i \<noteq> None \<Longrightarrow> subscriber_of (ok_or b (Unsubscribe b ?c i)) ?c i = None" for b
    using Unsubscribe_registered [of b ?c i] by auto
  have n: "subscriber_of (snd (Subscribe now b ?c i since lim)) ?c i \<noteq> None" for now b since lim
    by (simp add: Subscribe_registers)
  note un = u [OF n] u [OF registered_run [OF n]]
  show ?thesis
    using assms c un
    by (auto simp: HandleEventsGet_def Let_def g case_prod_beta split: if_split_asm)
qed

theorem stream_leaves_no_trace_witness:
  "snd (snd (HandleEventsGet demo_env 1 True (\<lambda>n. n < 2) [Tick False] 0 demo_request demo_web (newSSEConnLimiter 1))) = newSSEConnLimiter 1"
proof -
  have "subscriber_of (ws_broker demo_web) (URLParam demo_request ''channel'') 1 = None"
    by (simp add: demo_web_def New_def subscriber_of_def)
  moreover obtain res s' conns' where h: "HandleEventsGet demo_env 1 True (\<lambda>n. n < 2) [Tick False] 0 demo_request demo_web
      (newSSEConnLimiter 1) = (res, s', conns')" by (rule prod_cases3)
  ultimately have "conns' = newSSEConnLimiter 1" using stream_leaves_no_trace [OF h] by simp
  then show ?thesis unfolding h by simp
qed

text \<open>A backlog longer than the replay limit is lost. A client with more than 100 pending messages gets the
  oldest 100; when it leaves without having received a live message, its cursor is set to the
  time it left, and no later replay contains any of the others.\<close>

theorem backlog_beyond_limit_lost:
  assumes "ring_rep h rb xs" "store_ready rs" "client \<noteq> []" "CHR ''/'' \<notin> set channel"
    and "validateKey (cursorKey channel client) = None" "0 < time_UnixMilli left"
    and "100 < length (filter (selected rb channel since now) xs)"
    and "\<forall>x \<in> set xs. re_timestamp x \<le> time_OfUnixMilli (time_UnixMilli left)"
  shows "length (Get now rb channel since 100) = 100 \<and>
     Get later rb channel (replay_since (save_cursor rs channel client 0 left) channel client) 100 = []"
proof -
  let ?cur = "\<lparr>cc_Channel = channel, cc_ClientID = client, cc_LastTimestampMs = time_UnixMilli left\<rparr>"
  have "cursor_valid (channel, client) ?cur" using assms(4,5) by (simp add: cursor_valid_def)
  from cursor_record.rd_same [OF assms(2) this]
  have "replay_since (save_cursor rs channel client 0 left) channel client = time_OfUnixMilli (time_UnixMilli left)"
    using assms(3,6) by (simp add: replay_since_def save_cursor_def)
  moreover have "filter (selected rb channel (time_OfUnixMilli (time_UnixMilli left)) later) xs = []"
    using assms(8) by (auto simp: selected_def filter_empty_conv)
  ultimately show ?thesis using assms(7) by (simp add: Get_rep [OF assms(1)])
qed

definition backlog :: "(time \<times> string \<times> nat) list" where
  "backlog = map (\<lambda>n. (unix_epoch + int n + 1, ''c1'', n)) [0..<101]"

theorem backlog_beyond_limit_lost_witness:
  "\<exists>rb. length (Get (unix_epoch + 102) rb ''c1'' 0 100) = 100 \<and>
     Get (unix_epoch + 2000000) rb ''c1'' (replay_since (save_cursor demo_site ''c1'' ''me'' 0 (unix_epoch + 1000000)) ''c1'' ''me'') 100 = []"
proof -
  obtain h' rb where r: "ring_frame (NewRingBuffer 200 0 0) rb" "ring_rep h' rb (map message backlog)"
    using append_all_fits [OF ring_rep_new [of "\<lambda>_. []" 200 0 0], of backlog]
    by (auto simp: NewRingBuffer_def backlog_def fits_def)
  have "selected rb ''c1'' 0 now (message (t, ''c1'', n)) = (0 < t)" for now t n
    by (auto simp: selected_frame [OF r(1)] selected_def message_def entryExpired_def NewRingBuffer_def go_simps)
  then have "filter (selected rb ''c1'' 0 now) (map message backlog) = map message backlog" for now
    by (auto simp: backlog_def unix_epoch_def Second_def filter_id_conv)
  then have "100 < length (filter (selected rb ''c1'' 0 (unix_epoch + 102)) (map message backlog))" by (simp add: backlog_def)
  moreover have "\<forall>x \<in> set (map message backlog). re_timestamp x \<le> time_OfUnixMilli (time_UnixMilli (unix_epoch + 1000000))"
    by (auto simp: backlog_def message_def time_OfUnixMilli_def time_UnixMilli_def)
  moreover have "validateKey (cursorKey ''c1'' ''me'') = None" "0 < time_UnixMilli (unix_epoch + 1000000)"
    by code_simp+
  ultimately have "length (Get (unix_epoch + 102) rb ''c1'' 0 100) = 100 \<and>
     Get (unix_epoch + 2000000) rb ''c1'' (replay_since (save_cursor demo_site ''c1'' ''me'' 0 (unix_epoch + 1000000)) ''c1'' ''me'') 100 = []"
    using backlog_beyond_limit_lost [OF r(2) demo_site_ready(1), of "''me''" "''c1''"] by simp
  then show ?thesis by blast
qed

end
