(* ===== verification/Middleware.thy ===== *)
theory Middleware
  imports Http
begin

text \<open>
  The request guards of \<open>internal/handler\<close>: permissions and access lists (\<open>middleware.go\<close>), the
  restriction to addresses with its cache, channel access by session or token, bans and the
  request limit (\<open>ratelimit.go\<close>), browser hardening and the origin check (\<open>security.go\<close>), and the
  forwarding of writes to the Raft leader (\<open>leader_forward.go\<close>).
\<close>

section \<open>Principal and permissions\<close>

definition resolveRequestUser :: "web_request \<Rightarrow> web_state \<Rightarrow> user option" where
  "resolveRequestUser r s = (case cx_Principal r of
       Some u \<Rightarrow> Some u
     | None \<Rightarrow> ResolvePrincipalByUsername (ws_store s) (cx_Username r))"

definition withPrincipal :: "web_request \<Rightarrow> user \<Rightarrow> string list \<Rightarrow> web_request" where
  "withPrincipal r u groups =
     (let r1 = r\<lparr>cx_Principal := Some u, cx_Username := us_Username u\<rparr>
      in if length groups > 0 then r1\<lparr>cx_Groups := groups\<rparr> else r1)"

definition ChannelContext_mw :: middleware where
  "ChannelContext_mw next r s = (let channel = URLParam r ''channel'' in
     if channel \<noteq> [] then next (r\<lparr>cx_ChannelID := Some channel\<rparr>) s else next r s)"

definition RequirePermission :: "env \<Rightarrow> permission \<Rightarrow> middleware" where
  "RequirePermission E perm next r s = (case resolveRequestUser r s of
       None \<Rightarrow> (http_Error ''Unauthorized'' 401, s)
     | Some u \<Rightarrow>
         (if \<not> UserHasPermission (en_C E) (ws_store s) (Some u) (cx_Groups r) perm (or_empty (cx_ChannelID r))
          then (http_Error ''Forbidden'' 403, s)
          else next r s))"

definition RequireChannelACLPermission :: "env \<Rightarrow> middleware" where
  "RequireChannelACLPermission E next r s = (case resolveRequestUser r s of
       None \<Rightarrow> (http_Error ''Unauthorized'' 401, s)
     | Some u \<Rightarrow>
         (let may = (\<lambda>perm. UserHasPermission (en_C E) (ws_store s) (Some u) (cx_Groups r) perm (or_empty (cx_ChannelID r)))
          in if may PermChannelWrite then next r s
             else if may PermRBACWrite then next r s
             else if may PermAll then next r s
             else (http_Error ''Forbidden'' 403, s)))"

section \<open>Addresses\<close>

fun parseIPRanges :: "netlib \<Rightarrow> string list \<Rightarrow> ip_ranges result" where
  "parseIPRanges N [] = Inr \<lparr>ir_networks = [], ir_ips = []\<rparr>"
| "parseIPRanges N (r # rs) =
     (if Contains r ''/'' then
        (case net_ParseCIDR N r of
           None \<Rightarrow> Inl (ErrMsg (''invalid CIDR range '' @ r))
         | Some n \<Rightarrow> bindE (parseIPRanges N rs) (\<lambda>x. Inr (x\<lparr>ir_networks := n # ir_networks x\<rparr>)))
      else
        (case net_ParseIP N r of
           None \<Rightarrow> Inl (ErrMsg (''invalid IP address '' @ r))
         | Some ip \<Rightarrow> bindE (parseIPRanges N rs) (\<lambda>x. Inr (x\<lparr>ir_ips := ip # ir_ips x\<rparr>))))"

definition ranges_contains :: "ip_ranges \<Rightarrow> ip \<Rightarrow> bool" where
  "ranges_contains r ip = (if list_ex (\<lambda>allowedIP. ip = allowedIP) (ir_ips r) then True
     else list_ex (\<lambda>network. network ip) (ir_networks r))"

definition ipCacheTTL :: duration where
  "ipCacheTTL = 5 * 60 * Second"

definition ipCacheMax :: nat where
  "ipCacheMax = 10000"

definition allowedIPsHash :: "crypto \<Rightarrow> string list \<Rightarrow> string" where
  "allowedIPsHash C allowedIPs = hex_EncodeToString (sha256_Sum C (Join allowedIPs [CHR 0x00]))"

text \<open>The search for the oldest entry: the key and time found so far, then the entries left.\<close>

fun oldest_loop :: "string \<Rightarrow> time \<Rightarrow> (string, ip_cache_entry) kv \<Rightarrow> string" where
  "oldest_loop key oldest [] = key"
| "oldest_loop key oldest ((k, e) # m) =
     (if key = [] \<or> time_Before (ic_at e) oldest then oldest_loop k (ic_at e) m else oldest_loop key oldest m)"

definition evictOldestIPCache :: "(string, ip_cache_entry) kv \<Rightarrow> (string, ip_cache_entry) kv" where
  "evictOldestIPCache cache = (let key = oldest_loop [] 0 cache in if key \<noteq> [] then kv_del key cache else cache)"

text \<open>The parsed list of the cache, which is filled when it has no entry or one that is too old.\<close>

definition cached_ranges :: "env \<Rightarrow> string list \<Rightarrow> web_state \<Rightarrow> ip_ranges result \<times> web_state" where
  "cached_ranges E allowedIPs s =
     (let key = allowedIPsHash (en_C E) allowedIPs; now = en_now E; found = kv_get (ws_ipcache s) key;
          stale = (case found of None \<Rightarrow> False | Some e \<Rightarrow> time_Sub now (ic_at e) > ipCacheTTL);
          cache = (if stale then kv_del key (ws_ipcache s) else ws_ipcache s)
      in (case (if stale then None else found) of
            Some e \<Rightarrow> (Inr (ic_ranges e), s)
          | None \<Rightarrow> (case parseIPRanges (en_N E) allowedIPs of
              Inl e \<Rightarrow> (Inl e, s\<lparr>ws_ipcache := cache\<rparr>)
            | Inr ranges \<Rightarrow>
                (let room = (if length cache \<ge> ipCacheMax then evictOldestIPCache cache else cache)
                 in (Inr ranges, s\<lparr>ws_ipcache := kv_put key \<lparr>ic_ranges = ranges, ic_at = now\<rparr> room\<rparr>)))))"

definition IPRestrictMiddleware :: "env \<Rightarrow> middleware" where
  "IPRestrictMiddleware E next r s =
     (if wr_Method r \<noteq> ''POST'' then next r s
      else (let C = en_C E; N = en_N E; rs = ws_store s;
                allowedIPs = ok_or [] (ResolveChannelAllowedIPs C rs (URLParam r ''channel'')) in
        if length allowedIPs = 0 then next r s
        else (case GetRealIP N (http_of r) (ResolveBehindReverseProxy C rs)
                     (ParseTrustedProxyCIDRs N (ResolveTrustedProxyCIDRs C rs)) of
            Inl _ \<Rightarrow> (http_Error ''Failed to determine client IP'' 400, s)
          | Inr clientIP \<Rightarrow>
              (let (ranges, s1) = cached_ranges E allowedIPs s in
               (case ranges of
                  Inl _ \<Rightarrow> (http_Error ''Invalid IP configuration'' 500, s1)
                | Inr rg \<Rightarrow>
                    (if \<not> ranges_contains rg clientIP
                     then (http_Error (''IP address '' @ net_String N clientIP @ '' not allowed'') 403, s1)
                     else next r s1))))))"

section \<open>Channel access\<close>

definition sessionCookieName :: string where
  "sessionCookieName = ''gohookbridge_session''"

text \<open>The token of a request without a session: the query parameter, or the bearer token.\<close>

definition request_token :: "web_request \<Rightarrow> string" where
  "request_token r = (let token = query_Get r ''token''; auth = header_Get r ''Authorization'' in
     if token = [] \<and> HasPrefix auth ''Bearer '' then TrimPrefix auth ''Bearer '' else token)"

definition ChannelAccessMiddleware :: "env \<Rightarrow> string \<Rightarrow> middleware" where
  "ChannelAccessMiddleware E requiredScope next r s =
     (let C = en_C E; rs = ws_store s; channel = URLParam r ''channel'';
          sessionSecret = DeriveSessionSecret C (SessionSecret C rs);
          session = (case r_Cookie r sessionCookieName of
              None \<Rightarrow> None
            | Some v \<Rightarrow> (case DecodeSession C (en_now E) v sessionSecret of Inl _ \<Rightarrow> None | Inr t \<Rightarrow> Some t))
      in (case session of
          Some token \<Rightarrow>
            (let perm = (if requiredScope = ''produce'' then PermChannelWrite else PermChannelRead) in
             (case ResolvePrincipal rs (Some token) of
                Some u \<Rightarrow>
                  (if SessionEpochValid rs (Some token) \<and> UserHasPermission C rs (Some u) (st_Groups token) perm channel
                   then next (withPrincipal r u (st_Groups token)) s
                   else (http_Error ''Forbidden'' 403, s))
              | None \<Rightarrow> (http_Error ''Forbidden'' 403, s)))
        | None \<Rightarrow>
            (case ResolveChannelConfig C rs channel of
               Inl e \<Rightarrow> (if e = ErrNotFound then (http_Error ''channel not found'' 404, s)
                          else (http_Error ''channel configuration unavailable'' 503, s))
             | Inr chConfig \<Rightarrow>
                 (if ch_AccessMode chConfig \<noteq> ''token'' then next r s
                  else (let token = request_token r in
                    if token = [] then (http_Error ''Unauthorized'' 401, s)
                    else if \<not> ValidateChannelToken C rs channel token requiredScope
                    then (http_Error ''Unauthorized'' 401,
                      s\<lparr>ws_bans := RecordCredentialFailure C (en_N E) (en_now E) rs (ws_bans s) (http_of r) (FingerprintToken C token)\<rparr>)
                    else next r s)))))"

section \<open>Bans and limits\<close>

definition BanMiddleware :: "env \<Rightarrow> middleware" where
  "BanMiddleware E next r s = (case GetGlobalConfig (en_C E) (ws_store s) of
       Inl _ \<Rightarrow> next r s
     | Inr cfg \<Rightarrow> (if \<not> sc_BanEnabled (gc_Server cfg) then next r s
         else (case GetRealIP (en_N E) (http_of r) (sc_BehindReverseProxy (gc_Server cfg))
                      (ParseTrustedProxyCIDRs (en_N E) (sc_TrustedProxyCIDRs (gc_Server cfg))) of
             Inl _ \<Rightarrow> next r s
           | Inr ip \<Rightarrow> (let (banned, bt) = IsBanned (en_now E) (ws_bans s) (net_String (en_N E) ip);
                            s' = s\<lparr>ws_bans := bt\<rparr>
               in if banned then (writeError 403 ''IP address is banned due to suspicious activity'', s')
                  else next r s'))))"

definition RateLimitMiddleware :: "env \<Rightarrow> middleware" where
  "RateLimitMiddleware E next r s = (case GetGlobalConfig (en_C E) (ws_store s) of
       Inl _ \<Rightarrow> next r s
     | Inr cfg \<Rightarrow> (if \<not> sc_RateLimitEnabled (gc_Server cfg) then next r s
         else (case GetRealIP (en_N E) (http_of r) (sc_BehindReverseProxy (gc_Server cfg))
                      (ParseTrustedProxyCIDRs (en_N E) (sc_TrustedProxyCIDRs (gc_Server cfg))) of
             Inl _ \<Rightarrow> next r s
           | Inr ip \<Rightarrow> (let (allowed, rl) = RateLimiter_Allow (en_now E) (ws_limiter s) (net_String (en_N E) ip)
                                (sc_RateLimitRequests (gc_Server cfg)) (sc_RateLimitWindowSeconds (gc_Server cfg));
                            s' = s\<lparr>ws_limiter := rl\<rparr>
               in if \<not> allowed then (writeError 429 ''rate limit exceeded'', s')
                  else next r s'))))"

text \<open>The times in the reply are formatted by \<open>fmt\<close>, the JSON encoding of \<open>time.Time\<close>.\<close>

definition APIBansHandler :: "env \<Rightarrow> (time \<Rightarrow> json) \<Rightarrow> web_handler" where
  "APIBansHandler E fmt r s = (let (bans, bt) = ListBans (en_now E) (ws_bans s) in
     (writeJSON 200 (JArr (map (\<lambda>b. JObj [(''ip'', JStr (bi_IP b)), (''until'', fmt (bi_Until b)),
        (''unique_failures'', JNum (int (bi_UniqueFailures b)))]) bans)), s\<lparr>ws_bans := bt\<rparr>))"

definition APIUnbanHandler :: "env \<Rightarrow> web_handler" where
  "APIUnbanHandler E r s = (let ip = URLParam r ''ip'' in
     if ip = [] then (writeError 400 ''IP address required'', s)
     else if net_ParseIP (en_N E) ip = None then (writeError 400 (''invalid IP address '' @ ip), s)
     else (WriteHeader 204, s\<lparr>ws_bans := Unban (ws_bans s) ip\<rparr>))"

section \<open>Browser hardening\<close>

definition header_Set :: "string \<Rightarrow> string \<Rightarrow> http_response \<Rightarrow> http_response" where
  "header_Set k v p = (if kv_get (rp_Header p) k = None then p\<lparr>rp_Header := kv_put k v (rp_Header p)\<rparr> else p)"

text \<open>The headers are set before the inner handler runs, which may overwrite them.\<close>

definition SecurityHeadersMiddleware :: middleware where
  "SecurityHeadersMiddleware next r s = (let (p, s') = next r s;
       p1 = header_Set ''X-Frame-Options'' ''DENY'' (header_Set ''X-Content-Type-Options'' ''nosniff''
              (header_Set ''Referrer-Policy'' ''no-referrer''
              (header_Set ''Content-Security-Policy'' (''frame-ancestors '' @ [CHR 0x27] @ ''none'' @ [CHR 0x27]) p)));
       p2 = (if HasPrefix (wr_Path r) ''/api/'' then header_Set ''Cache-Control'' ''no-store'' p1 else p1);
       p3 = (if wr_TLS r then header_Set ''Strict-Transport-Security'' ''max-age=31536000; includeSubDomains'' p2 else p2)
     in (p3, s'))"

definition requestOrigin :: "env \<Rightarrow> web_request \<Rightarrow> string" where
  "requestOrigin E r = (let origin = header_Get r ''Origin''; referer = header_Get r ''Referer'' in
     if origin \<noteq> [] then origin
     else if referer = [] then []
     else (case en_url E referer of
         None \<Rightarrow> []
       | Some (scheme, host) \<Rightarrow> (if scheme = [] \<or> host = [] then [] else scheme @ ''://'' @ host)))"

definition MutationOriginValidation :: "env \<Rightarrow> middleware" where
  "MutationOriginValidation E next r s =
     (if wr_Method r \<notin> {''POST'', ''PUT'', ''PATCH'', ''DELETE''} then next r s
      else (let origin = requestOrigin E r in
        if origin = [] then next r s
        else (let allowed = ResolveCORSOrigin (en_C E) (ws_store s) in
          if allowed = [] \<or> allowed = ''*'' \<or> origin = allowed then next r s
          else (http_Error ''origin not allowed'' 403, s))))"

section \<open>Forwarding to the leader\<close>

definition leaderForwardedHeader :: string where
  "leaderForwardedHeader = ''X-Gohookbridge-Leader-Forwarded''"

definition StripForwardMarker :: middleware where
  "StripForwardMarker next r s = next (r\<lparr>wr_Header := kv_del leaderForwardedHeader (wr_Header r)\<rparr>) s"

definition isReadOnlyMethod :: "string \<Rightarrow> bool" where
  "isReadOnlyMethod m \<longleftrightarrow> m = ''GET'' \<or> m = ''HEAD'' \<or> m = ''OPTIONS''"

text \<open>\<open>leaderAddr\<close> is the leader's Raft address, \<open>join\<close> is \<open>net.JoinHostPort\<close>, and \<open>proxy\<close> what the reverse
  proxy to a host answers: the leader's response or a transport error.\<close>

definition LeaderForwardMiddleware ::
  "env \<Rightarrow> string \<Rightarrow> (string \<Rightarrow> string \<Rightarrow> string) \<Rightarrow> (string \<Rightarrow> string \<Rightarrow> web_request \<Rightarrow> error + http_response) \<Rightarrow> int \<Rightarrow> string \<Rightarrow> middleware" where
  "LeaderForwardMiddleware E leaderAddr join proxy httpPort scheme0 next r s =
     (let scheme = (if scheme0 = [] then ''https'' else scheme0) in
      if isReadOnlyMethod (wr_Method r) \<or> IsLeader (ws_store s) \<or> header_Get r leaderForwardedHeader \<noteq> [] then next r s
      else (case net_SplitHostPort (en_N E) leaderAddr of
          None \<Rightarrow> (http_Error ''{\"error\":\"no Raft leader available\"}'' 503, s)
        | Some (host, _) \<Rightarrow>
            (if leaderAddr = [] then (http_Error ''{\"error\":\"no Raft leader available\"}'' 503, s)
             else (case proxy scheme (join host (Itoa httpPort))
                          (r\<lparr>wr_Header := kv_put leaderForwardedHeader (''1'', []) (wr_Header r)\<rparr>) of
                 Inl e \<Rightarrow> (http_Error (''{\"error\":'' @ quote (''forward to Raft leader failed: '' @ error_text e) @ ''}'') 502, s)
               | Inr p \<Rightarrow> (p, s)))))"

section \<open>Guards\<close>

text \<open>
  The contract of a guard: what it does with a request depends on the request and the state
  alone, not on the handler behind it. Either it answers with an error, or it hands the request
  on, with \<open>enter\<close> added to its context. In both cases it neither writes to the store nor publishes.
\<close>

definition same_data :: "web_state \<Rightarrow> web_state \<Rightarrow> bool" where
  "same_data s s' \<longleftrightarrow> ws_store s' = ws_store s \<and> ws_sent s' = ws_sent s \<and> ws_broker s' = ws_broker s"

lemma same_data_refl [simp]: "same_data s s"
  by (simp add: same_data_def)

lemma same_data_trans: "same_data s s1 \<Longrightarrow> same_data s1 s2 \<Longrightarrow> same_data s s2"
  by (simp add: same_data_def)

lemma same_data_updates [simp]:
  "same_data s (s\<lparr>ws_bans := bt\<rparr>)" "same_data s (s\<lparr>ws_limiter := rl\<rparr>)" "same_data s (s\<lparr>ws_ipcache := c\<rparr>)"
  by (simp_all add: same_data_def)

text \<open>The state in which a guard leaves a request: what it is in front of a handler that does nothing.\<close>

definition probe :: "middleware \<Rightarrow> web_request \<Rightarrow> web_state \<Rightarrow> web_state" where
  "probe mw r s = snd (mw (\<lambda>_ s. (WriteHeader 0, s)) r s)"

locale guard =
  fixes mw :: middleware
    and pass :: "web_request \<Rightarrow> web_state \<Rightarrow> bool"
    and enter :: "web_request \<Rightarrow> web_state \<Rightarrow> web_request"
  assumes data: "same_data s (probe mw r s)"
    and passes: "pass r s \<Longrightarrow> mw next r s = next (enter r s) (probe mw r s)"
    and rejects: "\<not> pass r s \<Longrightarrow> snd (mw next r s) = probe mw r s \<and> 400 \<le> rp_Status (fst (mw next r s))"
begin

lemma rejected_unchanged: "\<not> pass r s \<Longrightarrow> mw next r s = (p, s') \<Longrightarrow> same_data s s' \<and> 400 \<le> rp_Status p"
  using rejects [of r s "next"] data [of s r] by simp

lemma sent_passed:
  assumes "mw next r s = (p, s')" "ws_sent s' \<noteq> ws_sent s"
  shows "pass r s \<and> next (enter r s) (probe mw r s) = (p, s')"
proof -
  have "pass r s" using rejected_unchanged [OF _ assms(1)] assms(2) by (auto simp: same_data_def)
  with passes [OF this, of "next"] assms(1) show ?thesis by simp
qed

end

definition ban_pass :: "env \<Rightarrow> web_request \<Rightarrow> web_state \<Rightarrow> bool" where
  "ban_pass E r s = (case GetGlobalConfig (en_C E) (ws_store s) of
       Inl _ \<Rightarrow> True
     | Inr cfg \<Rightarrow> \<not> sc_BanEnabled (gc_Server cfg) \<or>
         (case GetRealIP (en_N E) (http_of r) (sc_BehindReverseProxy (gc_Server cfg))
                 (ParseTrustedProxyCIDRs (en_N E) (sc_TrustedProxyCIDRs (gc_Server cfg))) of
            Inl _ \<Rightarrow> True
          | Inr ip \<Rightarrow> \<not> fst (IsBanned (en_now E) (ws_bans s) (net_String (en_N E) ip))))"

interpretation ban_guard: guard "BanMiddleware E" "ban_pass E" "\<lambda>r s. r"
  by unfold_locales (auto simp: ban_pass_def BanMiddleware_def probe_def Let_def case_prod_beta split: sum.splits)

definition rate_pass :: "env \<Rightarrow> web_request \<Rightarrow> web_state \<Rightarrow> bool" where
  "rate_pass E r s = (case GetGlobalConfig (en_C E) (ws_store s) of
       Inl _ \<Rightarrow> True
     | Inr cfg \<Rightarrow> \<not> sc_RateLimitEnabled (gc_Server cfg) \<or>
         (case GetRealIP (en_N E) (http_of r) (sc_BehindReverseProxy (gc_Server cfg))
                 (ParseTrustedProxyCIDRs (en_N E) (sc_TrustedProxyCIDRs (gc_Server cfg))) of
            Inl _ \<Rightarrow> True
          | Inr ip \<Rightarrow> fst (RateLimiter_Allow (en_now E) (ws_limiter s) (net_String (en_N E) ip)
              (sc_RateLimitRequests (gc_Server cfg)) (sc_RateLimitWindowSeconds (gc_Server cfg)))))"

interpretation rate_guard: guard "RateLimitMiddleware E" "rate_pass E" "\<lambda>r s. r"
  by unfold_locales (auto simp: rate_pass_def RateLimitMiddleware_def probe_def Let_def case_prod_beta split: sum.splits)

text \<open>The entry of the address cache that is used for a list, and the ranges it stands for.\<close>

definition fresh_entry :: "env \<Rightarrow> web_state \<Rightarrow> string list \<Rightarrow> ip_cache_entry option" where
  "fresh_entry E s l = (case kv_get (ws_ipcache s) (allowedIPsHash (en_C E) l) of
       None \<Rightarrow> None
     | Some e \<Rightarrow> if time_Sub (en_now E) (ic_at e) > ipCacheTTL then None else Some e)"

definition ranges_for :: "env \<Rightarrow> web_state \<Rightarrow> string list \<Rightarrow> ip_ranges result" where
  "ranges_for E s l = (case fresh_entry E s l of Some e \<Rightarrow> Inr (ic_ranges e) | None \<Rightarrow> parseIPRanges (en_N E) l)"

definition channel_allowlist :: "env \<Rightarrow> web_request \<Rightarrow> web_state \<Rightarrow> string list" where
  "channel_allowlist E r s = ok_or [] (ResolveChannelAllowedIPs (en_C E) (ws_store s) (URLParam r ''channel''))"

definition client_ip :: "env \<Rightarrow> web_request \<Rightarrow> web_state \<Rightarrow> ip result" where
  "client_ip E r s = GetRealIP (en_N E) (http_of r) (ResolveBehindReverseProxy (en_C E) (ws_store s))
     (ParseTrustedProxyCIDRs (en_N E) (ResolveTrustedProxyCIDRs (en_C E) (ws_store s)))"

definition ip_pass :: "env \<Rightarrow> web_request \<Rightarrow> web_state \<Rightarrow> bool" where
  "ip_pass E r s \<longleftrightarrow> wr_Method r \<noteq> ''POST'' \<or> channel_allowlist E r s = [] \<or>
     (case client_ip E r s of
        Inl _ \<Rightarrow> False
      | Inr ip \<Rightarrow> (case ranges_for E s (channel_allowlist E r s) of Inl _ \<Rightarrow> False | Inr rg \<Rightarrow> ranges_contains rg ip))"

lemma cached_ranges_result: "fst (cached_ranges E l s) = ranges_for E s l"
  by (simp add: cached_ranges_def ranges_for_def fresh_entry_def Let_def split: option.split sum.split)

lemma cached_ranges_data [simp]: "same_data s (snd (cached_ranges E l s))"
  by (simp add: cached_ranges_def Let_def split: option.split sum.split)

lemma IPRestrict_cases:
  "IPRestrictMiddleware E next r s =
     (if wr_Method r \<noteq> ''POST'' \<or> channel_allowlist E r s = [] then next r s
      else (case client_ip E r s of
          Inl _ \<Rightarrow> (http_Error ''Failed to determine client IP'' 400, s)
        | Inr ip \<Rightarrow> (let s1 = snd (cached_ranges E (channel_allowlist E r s) s) in
            (case ranges_for E s (channel_allowlist E r s) of
               Inl _ \<Rightarrow> (http_Error ''Invalid IP configuration'' 500, s1)
             | Inr rg \<Rightarrow> (if \<not> ranges_contains rg ip
                 then (http_Error (''IP address '' @ net_String (en_N E) ip @ '' not allowed'') 403, s1) else next r s1)))))"
  by (simp add: IPRestrictMiddleware_def Let_def channel_allowlist_def client_ip_def case_prod_beta cached_ranges_result
    split: sum.split)

interpretation ip_guard: guard "IPRestrictMiddleware E" "ip_pass E" "\<lambda>r s. r"
  by (unfold_locales; simp add: IPRestrict_cases ip_pass_def probe_def Let_def split: sum.splits; argo)

text \<open>The session of a request, when its cookie decodes.\<close>

definition request_session :: "env \<Rightarrow> web_request \<Rightarrow> web_state \<Rightarrow> session_token option" where
  "request_session E r s = (case r_Cookie r sessionCookieName of
       None \<Rightarrow> None
     | Some v \<Rightarrow> (case DecodeSession (en_C E) (en_now E) v
                         (DeriveSessionSecret (en_C E) (SessionSecret (en_C E) (ws_store s))) of
         Inl _ \<Rightarrow> None | Inr t \<Rightarrow> Some t))"

definition session_grants :: "env \<Rightarrow> string \<Rightarrow> web_request \<Rightarrow> web_state \<Rightarrow> session_token \<Rightarrow> bool" where
  "session_grants E scope r s t \<longleftrightarrow> (\<exists>u. ResolvePrincipal (ws_store s) (Some t) = Some u \<and> SessionEpochValid (ws_store s) (Some t) \<and>
     UserHasPermission (en_C E) (ws_store s) (Some u) (st_Groups t)
       (if scope = ''produce'' then PermChannelWrite else PermChannelRead) (URLParam r ''channel''))"

definition token_grants :: "env \<Rightarrow> string \<Rightarrow> web_request \<Rightarrow> web_state \<Rightarrow> bool" where
  "token_grants E scope r s = (case ResolveChannelConfig (en_C E) (ws_store s) (URLParam r ''channel'') of
       Inl _ \<Rightarrow> False
     | Inr ch \<Rightarrow> ch_AccessMode ch \<noteq> ''token'' \<or>
         request_token r \<noteq> [] \<and> ValidateChannelToken (en_C E) (ws_store s) (URLParam r ''channel'') (request_token r) scope)"

definition access_pass :: "env \<Rightarrow> string \<Rightarrow> web_request \<Rightarrow> web_state \<Rightarrow> bool" where
  "access_pass E scope r s = (case request_session E r s of
       Some t \<Rightarrow> session_grants E scope r s t
     | None \<Rightarrow> token_grants E scope r s)"

definition access_enter :: "env \<Rightarrow> web_request \<Rightarrow> web_state \<Rightarrow> web_request" where
  "access_enter E r s = (case request_session E r s of
       None \<Rightarrow> r
     | Some t \<Rightarrow> (case ResolvePrincipal (ws_store s) (Some t) of
         None \<Rightarrow> r | Some u \<Rightarrow> withPrincipal r u (st_Groups t)))"

lemma ChannelAccess_cases:
  "ChannelAccessMiddleware E scope next r s = (case request_session E r s of
       Some t \<Rightarrow> (if session_grants E scope r s t then next (access_enter E r s) s else (http_Error ''Forbidden'' 403, s))
     | None \<Rightarrow> (case ResolveChannelConfig (en_C E) (ws_store s) (URLParam r ''channel'') of
         Inl e \<Rightarrow> (if e = ErrNotFound then (http_Error ''channel not found'' 404, s)
                    else (http_Error ''channel configuration unavailable'' 503, s))
       | Inr ch \<Rightarrow> (if token_grants E scope r s then next r s
           else (http_Error ''Unauthorized'' 401, if request_token r = [] then s else
             s\<lparr>ws_bans := RecordCredentialFailure (en_C E) (en_N E) (en_now E) (ws_store s) (ws_bans s) (http_of r)
                  (FingerprintToken (en_C E) (request_token r))\<rparr>))))"
  by (simp add: ChannelAccessMiddleware_def request_session_def session_grants_def token_grants_def access_enter_def Let_def
    split: option.split sum.split)

interpretation access_guard: guard "ChannelAccessMiddleware E scope" "access_pass E scope" "access_enter E"
proof
  fix r s "next"
  show "same_data s (probe (ChannelAccessMiddleware E scope) r s)"
    by (simp add: ChannelAccess_cases probe_def split: option.split sum.split)
  show "access_pass E scope r s \<Longrightarrow> ChannelAccessMiddleware E scope next r s =
      next (access_enter E r s) (probe (ChannelAccessMiddleware E scope) r s)"
    by (cases "request_session E r s")
      (simp_all add: ChannelAccess_cases access_pass_def access_enter_def token_grants_def probe_def split: sum.splits)
  show "\<not> access_pass E scope r s \<Longrightarrow> snd (ChannelAccessMiddleware E scope next r s) = probe (ChannelAccessMiddleware E scope) r s \<and>
      400 \<le> rp_Status (fst (ChannelAccessMiddleware E scope next r s))"
    by (cases "request_session E r s") (simp_all add: ChannelAccess_cases access_pass_def probe_def split: sum.splits)
qed

definition perm_pass :: "env \<Rightarrow> permission \<Rightarrow> web_request \<Rightarrow> web_state \<Rightarrow> bool" where
  "perm_pass E perm r s \<longleftrightarrow> (\<exists>u. resolveRequestUser r s = Some u \<and>
     UserHasPermission (en_C E) (ws_store s) (Some u) (cx_Groups r) perm (or_empty (cx_ChannelID r)))"

interpretation perm_guard: guard "RequirePermission E perm" "perm_pass E perm" "\<lambda>r s. r"
  by unfold_locales (auto simp: perm_pass_def RequirePermission_def probe_def split: option.splits)

interpretation acl_guard: guard "RequireChannelACLPermission E"
  "\<lambda>r s. perm_pass E PermChannelWrite r s \<or> perm_pass E PermRBACWrite r s \<or> perm_pass E PermAll r s" "\<lambda>r s. r"
  by unfold_locales (auto simp: perm_pass_def RequireChannelACLPermission_def probe_def Let_def split: option.splits)

interpretation origin_guard: guard "MutationOriginValidation E"
  "\<lambda>r s. wr_Method r \<notin> {''POST'', ''PUT'', ''PATCH'', ''DELETE''} \<or> requestOrigin E r = [] \<or>
     ResolveCORSOrigin (en_C E) (ws_store s) \<in> {[], ''*'', requestOrigin E r}" "\<lambda>r s. r"
  by unfold_locales (auto simp: MutationOriginValidation_def probe_def Let_def)

text \<open>The cache of parsed address lists is correct for a set \<open>L\<close> of lists, those configured so far: every entry
  holds the ranges of one of them, under its key. A list is hashed with NUL between its entries, so two
  different lists without NUL have one key only when the hash collides on what is hashed for them.\<close>

definition hashed_text :: "string list \<Rightarrow> string" where
  "hashed_text l = Join l [CHR 0x00]"

definition lists_ok :: "crypto \<Rightarrow> string list set \<Rightarrow> bool" where
  "lists_ok C L \<longleftrightarrow> inj_on (sha256_Sum C) (hashed_text ` L) \<and> (\<forall>l \<in> L. l \<noteq> [] \<and> (\<forall>x \<in> set l. CHR 0x00 \<notin> set x))"

definition ipcache_ok :: "env \<Rightarrow> string list set \<Rightarrow> web_state \<Rightarrow> bool" where
  "ipcache_ok E L s \<longleftrightarrow> (\<forall>k e. kv_get (ws_ipcache s) k = Some e \<longrightarrow>
     (\<exists>l \<in> L. k = allowedIPsHash (en_C E) l \<and> parseIPRanges (en_N E) l = Inr (ic_ranges e)))"

lemma allowedIPsHash_inject:
  assumes "lists_ok C L" "a \<in> L" "b \<in> L" "allowedIPsHash C a = allowedIPsHash C b"
  shows "a = b"
proof -
  have "sha256_Sum C (hashed_text a) = sha256_Sum C (hashed_text b)"
    using assms(4) unfolding allowedIPsHash_def hex_inject hashed_text_def .
  moreover have "inj_on (sha256_Sum C) (hashed_text ` L)" using assms(1) by (simp only: lists_ok_def)
  ultimately have "hashed_text a = hashed_text b" using assms(2,3) by (meson imageI inj_onD)
  moreover have "Split (CHR 0x00) (hashed_text l) = l" if "l \<in> L" for l
    using that assms(1) by (simp add: Split_Join lists_ok_def hashed_text_def)
  ultimately show ?thesis using assms(2,3) by metis
qed

lemma ranges_for_parse:
  assumes "lists_ok (en_C E) L" "ipcache_ok E L s" "l \<in> L"
  shows "ranges_for E s l = parseIPRanges (en_N E) l"
proof (cases "fresh_entry E s l")
  case (Some e)
  then have "kv_get (ws_ipcache s) (allowedIPsHash (en_C E) l) = Some e"
    by (auto simp: fresh_entry_def split: option.splits if_splits)
  then obtain l' where "l' \<in> L" "allowedIPsHash (en_C E) l = allowedIPsHash (en_C E) l'"
    "parseIPRanges (en_N E) l' = Inr (ic_ranges e)"
    using assms(2) unfolding ipcache_ok_def by blast
  with allowedIPsHash_inject [OF assms(1,3)] Some show ?thesis by (simp add: ranges_for_def)
qed (simp add: ranges_for_def)

lemma kv_get_evict: "kv_get (evictOldestIPCache m) k = Some e \<Longrightarrow> kv_get m k = Some e"
  by (simp add: evictOldestIPCache_def Let_def kv_get_del split: if_splits)

lemma ipcache_ok_cached:
  assumes "ipcache_ok E L s" "l \<in> L"
  shows "ipcache_ok E L (snd (cached_ranges E l s))"
proof -
  have "kv_get (ws_ipcache (snd (cached_ranges E l s))) k = Some e \<Longrightarrow>
      kv_get (ws_ipcache s) k = Some e \<or> k = allowedIPsHash (en_C E) l \<and> parseIPRanges (en_N E) l = Inr (ic_ranges e)" for k e
    by (auto simp: cached_ranges_def Let_def kv_get_put kv_get_del split: option.splits sum.splits if_splits dest!: kv_get_evict)
  then show ?thesis using assms unfolding ipcache_ok_def by metis
qed

section \<open>Properties\<close>

text \<open>C38: The address restriction is exact and its cache is not observable. Let \<open>L\<close> hold the address lists
  configured so far, the current one among them, and let SHA-256 not collide on the texts hashed for
  them. With a cache that is correct for \<open>L\<close>, the empty one to begin with, a webhook
  for a channel with an address list is passed on exactly when the client address is known, the
  list parses, and one of its addresses or networks contains the client address; the cache stays
  correct for \<open>L\<close>, and a refused request leaves the store and the messages sent as they are.\<close>

theorem ip_restriction_exact:
  assumes "lists_ok (en_C E) L" "channel_allowlist E r s \<in> L" "ipcache_ok E L s" "wr_Method r = ''POST''"
  shows "ipcache_ok E L (s\<lparr>ws_ipcache := []\<rparr>) \<and> (\<exists>s1. ipcache_ok E L s1 \<and> same_data s s1 \<and>
     (if \<exists>ip rg. client_ip E r s = Inr ip \<and> parseIPRanges (en_N E) (channel_allowlist E r s) = Inr rg \<and> ranges_contains rg ip
      then IPRestrictMiddleware E next r s = next r s1
      else snd (IPRestrictMiddleware E next r s) = s1 \<and> 400 \<le> rp_Status (fst (IPRestrictMiddleware E next r s))))"
proof -
  have ne: "channel_allowlist E r s \<noteq> []" using assms(1,2) by (auto simp: lists_ok_def)
  note p = ranges_for_parse [OF assms(1,3,2)] ipcache_ok_cached [OF assms(3,2)]
  define s1 where "s1 = (case client_ip E r s of Inl _ \<Rightarrow> s | Inr _ \<Rightarrow> snd (cached_ranges E (channel_allowlist E r s) s))"
  have "ipcache_ok E L s1 \<and> same_data s s1"
    using p(2) assms(3) by (simp add: s1_def split: sum.split)
  moreover have "if \<exists>ip rg. client_ip E r s = Inr ip \<and> parseIPRanges (en_N E) (channel_allowlist E r s) = Inr rg \<and> ranges_contains rg ip
      then IPRestrictMiddleware E next r s = next r s1
      else snd (IPRestrictMiddleware E next r s) = s1 \<and> 400 \<le> rp_Status (fst (IPRestrictMiddleware E next r s))"
    using assms(4) ne by (simp add: IPRestrict_cases p(1) s1_def Let_def split: sum.split)
  moreover have "ipcache_ok E L (s\<lparr>ws_ipcache := []\<rparr>)" by (simp add: ipcache_ok_def)
  ultimately show ?thesis by blast
qed

lemma demo_allowlist: "channel_allowlist demo_env demo_request demo_web = [''10.0.0.1'']"
  by (simp add: channel_allowlist_def ResolveChannelAllowedIPs_def demo_site_reads demo_channel_def)

theorem ip_restriction_exact_witness:
  "\<exists>s1. ipcache_ok demo_env {[''10.0.0.1'']} s1 \<and>
     IPRestrictMiddleware demo_env (\<lambda>_ s. (WriteHeader 204, s)) demo_request demo_web = (WriteHeader 204, s1)"
proof -
  have "ipcache_ok demo_env {[''10.0.0.1'']} demo_web" by (simp add: ipcache_ok_def)
  moreover have "lists_ok (en_C demo_env) {[''10.0.0.1'']}" by (simp add: lists_ok_def)
  moreover note w = ip_restriction_exact [of demo_env "{[''10.0.0.1'']}" demo_request demo_web "\<lambda>_ s. (WriteHeader 204, s)"]
  have "client_ip demo_env demo_request demo_web = Inr ''10.0.0.1''"
    by (simp add: client_ip_def GetRealIP_def remoteIP_def ResolveBehindReverseProxy_def ResolveTrustedProxyCIDRs_def
      demo_site_reads DefaultGlobalConfig_def http_of_def demo_request_def demo_net_def)
  moreover have "parseIPRanges demo_net [''10.0.0.1''] = Inr \<lparr>ir_networks = [], ir_ips = [''10.0.0.1'']\<rparr>"
    by (simp add: demo_net_def)
  ultimately show ?thesis
    using w by (auto simp: demo_allowlist ranges_contains_def)
qed

end
