(* ===== verification/Webhook.thy ===== *)
theory Webhook
  imports Middleware
begin

text \<open>
  Webhook ingestion \<open>internal/handler/webhook.go\<close>: signature validation for the supported providers,
  the allowlist of relayed headers, the handler that turns a request into an event on the broker,
  and the handlers that send test payloads, replay events and generate channel keys; and the
  route of \<open>internal/server\<close> that puts the guards in front of the ingestion handler.
\<close>

section \<open>Signatures\<close>

definition validateGitHubWebhookSignature :: "crypto \<Rightarrow> string \<Rightarrow> string \<Rightarrow> string \<Rightarrow> bool" where
  "validateGitHubWebhookSignature C secret payload signatureHeader =
     (if \<not> HasPrefix signatureHeader ''sha256='' then False
      else TrimPrefix signatureHeader ''sha256='' = hex_EncodeToString (hmac_Sum C secret payload))"

definition validateBitbucketHMAC :: "crypto \<Rightarrow> string \<Rightarrow> string \<Rightarrow> string \<Rightarrow> bool" where
  "validateBitbucketHMAC C secret payload signatureHeader =
     (signatureHeader = hex_EncodeToString (hmac_Sum C secret payload))"

definition validateGiteaSignature :: "crypto \<Rightarrow> string \<Rightarrow> string \<Rightarrow> string \<Rightarrow> bool" where
  "validateGiteaSignature C secret payload signatureHeader =
     (if \<not> HasPrefix signatureHeader ''sha256='' then False
      else TrimPrefix signatureHeader ''sha256='' = hex_EncodeToString (hmac_Sum C secret payload))"

definition validateWebhookSignature :: "crypto \<Rightarrow> string \<Rightarrow> string \<Rightarrow> web_request \<Rightarrow> bool" where
  "validateWebhookSignature C secret payload r =
     (if secret = [] then True
      else if header_Get r ''X-Gitlab-Token'' \<noteq> [] then header_Get r ''X-Gitlab-Token'' = secret
      else if header_Get r ''X-Hub-Signature-256'' \<noteq> []
        then validateGitHubWebhookSignature C secret payload (header_Get r ''X-Hub-Signature-256'')
      else if header_Get r ''X-Hub-Signature'' \<noteq> []
        then validateBitbucketHMAC C secret payload (header_Get r ''X-Hub-Signature'')
      else if header_Get r ''X-Gitea-Signature'' \<noteq> []
        then validateGiteaSignature C secret payload (header_Get r ''X-Gitea-Signature'')
      else False)"

section \<open>Relayed headers\<close>

definition forwardedHeaderAllowlist :: "string list" where
  "forwardedHeaderAllowlist =
     [''content-type'', ''user-agent'', ''x-event-type'', ''x-github-event'', ''x-github-delivery'',
      ''x-github-hook-id'', ''x-gitlab-event'', ''x-gitlab-event-uuid'', ''x-gitea-event'',
      ''x-gitea-delivery'', ''x-gitea-signature'', ''x-event-key'', ''x-bitbucket-event'',
      ''x-bitbucket-delivery'', ''x-hub-signature'', ''x-hub-signature-256'']"

definition forwardedHeader :: "string \<Rightarrow> bool" where
  "forwardedHeader name \<longleftrightarrow> ToLower name \<in> set forwardedHeaderAllowlist"

definition sensitiveHeaderForLogs :: "string \<Rightarrow> bool" where
  "sensitiveHeaderForLogs header \<longleftrightarrow> ToLower header \<in> set
     [''authorization'', ''proxy-authorization'', ''cookie'', ''x-api-key'', ''x-auth-token'', ''password'', ''secret'',
      ''x-gitlab-token'', ''x-hub-signature'', ''x-hub-signature-256'', ''x-gitea-signature'', ''x-amz-signature'']"

text \<open>The loop over the headers fills the relay payload and the log line.\<close>

fun relay_headers :: "(string, string \<times> string list) kv \<Rightarrow> (string, json) kv \<Rightarrow> (string, json) kv" where
  "relay_headers [] p = p"
| "relay_headers ((k, v) # hs) p =
     (if forwardedHeader k then relay_headers hs (kv_put (ToLower k) (JStr (fst v)) p) else relay_headers hs p)"

fun headers_log :: "(string, string \<times> string list) kv \<Rightarrow> string" where
  "headers_log [] = []"
| "headers_log ((k, v) # hs) =
     (if forwardedHeader k then '' '' @ k @ ''='' @ fst v
      else if sensitiveHeaderForLogs k then '' '' @ k @ ''=<redacted>'' else []) @ headers_log hs"

section \<open>Handlers\<close>

text \<open>\<open>json.Valid\<close>, and the success of \<open>json.Unmarshal\<close> into an interface.\<close>

definition json_Valid :: "string \<Rightarrow> bool" where
  "json_Valid s = (case read_doc (2 * length s + 2) s of None \<Rightarrow> False | Some (d, r) \<Rightarrow> skip_ws r = [])"

definition publishEvent :: "web_state \<Rightarrow> string \<Rightarrow> string \<Rightarrow> web_state result" where
  "publishEvent s channel data = bindE (Publish (ws_broker s) channel data)
     (\<lambda>m. Inr (s\<lparr>ws_sent := ws_sent s @ [m]\<rparr>))"

definition relay_payload :: "env \<Rightarrow> web_request \<Rightarrow> string \<Rightarrow> string \<Rightarrow> json" where
  "relay_payload E r payloadBytes eventID = JObj
     (kv_put ''event_id'' (JStr eventID)
     (kv_put ''bodyB'' (JStr (base64_Std_Encode payloadBytes))
     (kv_put ''timestamp'' (JStr (Itoa (time_UnixMilli (en_now E))))
     (relay_headers (wr_Header r) []))))"

text \<open>The first half of the handler, up to the bytes that will be relayed: an answer with the state it leaves,
  or the channel configuration and the bytes. Reads 0 and 1 of the random source are for the
  encryption, read 2 for the event identifier.\<close>

definition webhook_payload :: "env \<Rightarrow> web_request \<Rightarrow> web_state \<Rightarrow> (http_response \<times> web_state) + (channel \<times> string)" where
  "webhook_payload E r s =
     (let C = en_C E; rs = ws_store s; channel = URLParam r ''channel'';
          unavailable = (http_Error ''channel configuration unavailable'' 503, s) in
      if \<not> Contains (header_Get r ''Content-Type'') ''application/json''
      then Inl (http_Error ''content-type must be application/json'' 400, s)
      else (case ResolveChannelConfig C rs channel of
        Inl e \<Rightarrow> Inl (if e = ErrNotFound then (http_Error ''channel not found'' 404, s) else unavailable)
      | Inr chConfig \<Rightarrow>
      (case (if ch_MaxBodySize chConfig = 0 then ResolveChannelMaxBodySize C rs channel else Inr (ch_MaxBodySize chConfig)) of
        Inl _ \<Rightarrow> Inl unavailable
      | Inr maxBodySize \<Rightarrow>
      (case ResolveChannelWebhookSecret C rs channel of
        Inl _ \<Rightarrow> Inl unavailable
      | Inr webhookSecret \<Rightarrow>
      (case GetGlobalConfig C rs of
        Inl _ \<Rightarrow> Inl unavailable
      | Inr globalCfg \<Rightarrow>
      if sc_RequireKnownChannels (gc_Server globalCfg) \<and> webhookSecret = []
      then Inl (http_Error ''channel signature validation unavailable'' 503, s)
      else (case read_body maxBodySize (wr_Body r) of
        TooLarge \<Rightarrow> Inl (http_Error ''request body too large'' 413, s)
      | ReadError e \<Rightarrow> Inl (http_Error (error_text e) 500, s)
      | Body body \<Rightarrow>
      if webhookSecret \<noteq> [] \<and> \<not> validateWebhookSignature C webhookSecret body r
      then Inl (http_Error ''invalid signature'' 401,
        s\<lparr>ws_bans := RecordCredentialFailure C (en_N E) (en_now E) rs (ws_bans s) (http_of r)
             (FingerprintSignature C channel (ExtractSignatureValue (http_of r)))\<rparr>)
      else if fst (ok_or ([], [], []) (ResolveChannelEncryption C rs channel)) = ''e2e'' \<and> IsEncrypted body
      then Inr (chConfig, body)
      else if \<not> json_Valid body then Inl (http_Error ''invalid JSON'' 400, s)
      else (case EncryptForChannel C (en_rand E 0) (en_rand E 1) rs channel body of
        Inl _ \<Rightarrow> Inl (http_Error ''encryption unavailable'' 503, s)
      | Inr encrypted \<Rightarrow> Inr (chConfig, encrypted))))))))"

definition HandleWebhookPost :: "env \<Rightarrow> web_handler" where
  "HandleWebhookPost E r s = (case webhook_payload E r s of
       Inl answer \<Rightarrow> answer
     | Inr (chConfig, payloadBytes) \<Rightarrow>
     (case GenerateUUID (en_rand E 2) of
       Inl _ \<Rightarrow> (http_Error ''Failed to generate event id'' 500, s)
     | Inr eventID \<Rightarrow>
     (let channel = URLParam r ''channel'';
          reencoded = json_Marshal (relay_payload E r payloadBytes eventID);
          s1 = (if ch_MessageTTLSeconds chConfig > 0
                then s\<lparr>ws_broker := Broker_SetChannelTTL (ws_broker s) channel (seconds (ch_MessageTTLSeconds chConfig))\<rparr>
                else s)
      in case publishEvent s1 channel reencoded of
       Inl _ \<Rightarrow> (http_Error ''event broker unavailable'' 502, s1)
     | Inr s2 \<Rightarrow> (writeJSON 202 (JObj [(''channel'', JStr channel), (''event_id'', JStr eventID),
         (''message'', JStr ''ok''), (''status'', JNum 202), (''version'', JStr (TrimSpace (en_version E)))]), s2))))"

definition HandleTestPayloadSend :: "env \<Rightarrow> web_handler" where
  "HandleTestPayloadSend E r s =
     (let C = en_C E; rs = ws_store s; channel = URLParam r ''channel'' in
      if channel = [] then (http_Error ''Channel name missing in URL'' 400, s)
      else if length channel > 64 then (http_Error ''Channel name exceeds maximum length'' 400, s)
      else (case ResolveChannelMaxBodySize C rs channel of
        Inl _ \<Rightarrow> (http_Error ''channel configuration unavailable'' 503, s)
      | Inr maxBodySize \<Rightarrow>
      (case read_body maxBodySize (wr_Body r) of
        TooLarge \<Rightarrow> (http_Error ''request body too large'' 413, s)
      | ReadError e \<Rightarrow> (http_Error (error_text e) 500, s)
      | Body body \<Rightarrow>
      if \<not> json_Valid body then (http_Error ''invalid JSON'' 400, s)
      else (case EncryptForChannel C (en_rand E 0) (en_rand E 1) rs channel body of
        Inl _ \<Rightarrow> (http_Error ''encryption unavailable'' 503, s)
      | Inr encryptedBody \<Rightarrow>
      (case publishEvent s channel (json_Marshal (JObj [(''bodyB'', JStr (base64_Std_Encode encryptedBody)),
              (''content-type'', JStr ''application/json''), (''timestamp'', JStr (Itoa (time_UnixMilli (en_now E)))),
              (''x-test-payload'', JStr ''true'')])) of
        Inl _ \<Rightarrow> (http_Error ''event broker unavailable'' 502, s)
      | Inr s' \<Rightarrow> (writeJSON 202 (JObj [(''channel'', JStr channel), (''message'', JStr ''test payload sent''),
          (''status'', JNum 202)]), s'))))))"

definition valid_event_id :: "string \<Rightarrow> bool" where
  "valid_event_id s \<longleftrightarrow> s \<noteq> [] \<and> length s \<le> 64 \<and> list_all (\<lambda>c. is_alnum c \<or> c = CHR ''-'') s"

definition HandleEventReplay :: "env \<Rightarrow> web_handler" where
  "HandleEventReplay E r s =
     (let C = en_C E; rs = ws_store s; channel = URLParam r ''channel''; eventID = URLParam r ''eventId'' in
      if channel = [] \<or> eventID = [] then (http_Error ''channel and eventId required'' 400, s)
      else if \<not> valid_event_id eventID then (http_Error ''invalid eventId'' 400, s)
      else (case ResolveChannelConfig C rs channel of
        Inl e \<Rightarrow> (if e = ErrNotFound then (http_Error ''channel not found'' 404, s)
                   else (http_Error ''channel configuration unavailable'' 503, s))
      | Inr ch \<Rightarrow>
      if ch_EncryptionMode ch = ''server_side'' \<and> ch_EncryptionKey ch \<noteq> []
      then (http_Error ''cannot replay events for server-side encrypted channels via API'' 400, s)
      else (case EncryptForChannel C (en_rand E 0) (en_rand E 1) rs channel
              (json_Marshal (JObj [(''original_event_id'', JStr eventID), (''replayed'', JBool True)])) of
        Inl _ \<Rightarrow> (http_Error ''encryption unavailable'' 503, s)
      | Inr encryptedBody \<Rightarrow>
      (case publishEvent s channel (json_Marshal (JObj [(''bodyB'', JStr (base64_Std_Encode encryptedBody)),
              (''event_id'', JStr eventID), (''timestamp'', JStr (Itoa (time_UnixMilli (en_now E)))),
              (''x-replay'', JStr ''true'')])) of
        Inl _ \<Rightarrow> (http_Error ''publish failed'' 502, s)
      | Inr s' \<Rightarrow> (writeJSON 202 (JObj [(''event_id'', JStr eventID), (''status'', JStr ''replayed'')]), s')))))"

text \<open>\<open>mode0\<close> is what the decoder left in the field \<open>mode\<close> of the request body. Read 0 of the random source
  is the key, the reads from 10 on seal the channel's secrets.\<close>

definition HandleGenerateEncryptionKey :: "env \<Rightarrow> string \<Rightarrow> web_handler" where
  "HandleGenerateEncryptionKey E mode0 r s =
     (let C = en_C E; rs = ws_store s; channel = URLParam r ''channel'' in
      case GetChannel C rs channel of
        Inl e \<Rightarrow> (if e = ErrNotFound then (http_Error ''channel not found'' 404, s)
                   else (http_Error (error_text e) 500, s))
      | Inr ch \<Rightarrow>
      (let mode = (if mode0 = [] then ''server_side'' else mode0) in
       if mode = ''server_side'' then
         (case GenerateAESKey (en_rand E 0) of
            Inl e \<Rightarrow> (http_Error (error_text e) 500, s)
          | Inr key \<Rightarrow>
          (case after_write s (svc_UpdateChannel C (\<lambda>i. en_rand E (10 + i)) True rs
                  (ch\<lparr>ch_EncryptionMode := ''server_side'', ch_EncryptionKey := key\<rparr>)) of
            (Some e, s') \<Rightarrow> (http_Error (error_text e) 500, s')
          | (None, s') \<Rightarrow> (writeJSON 200 (JObj [(''encryption_key'', JStr key), (''encryption_mode'', JStr ''server_side'')]), s')))
       else (http_Error (''unsupported encryption mode: '' @ mode) 400, s)))"

section \<open>The ingestion route\<close>

definition buildWebhookRouter :: "env \<Rightarrow> web_handler" where
  "buildWebhookRouter E =
     BanMiddleware E (RateLimitMiddleware E (IPRestrictMiddleware E (ChannelAccessMiddleware E ''produce''
       (HandleWebhookPost E))))"

section \<open>Lemmas\<close>

lemma publishEvent_Inr:
  "publishEvent s channel data = Inr s' \<longleftrightarrow>
     (\<exists>nc. br_nc (ws_broker s) = Some nc \<and> nc (''webhook.'' @ channel) data = None \<and>
        s' = s\<lparr>ws_sent := ws_sent s @ [(''webhook.'' @ channel, data)]\<rparr>)"
  by (auto simp: publishEvent_def Publish_def bindE_def split: option.splits sum.splits)

text \<open>What is known of a request that the ingestion handler published.\<close>

definition ingested :: "env \<Rightarrow> web_request \<Rightarrow> raft_store \<Rightarrow> string \<Rightarrow> string \<Rightarrow> bool" where
  "ingested E r rs secret payload \<longleftrightarrow>
     ResolveChannelWebhookSecret (en_C E) rs (URLParam r ''channel'') = Inr secret \<and>
     (\<exists>g. GetGlobalConfig (en_C E) rs = Inr g \<and> (sc_RequireKnownChannels (gc_Server g) \<longrightarrow> secret \<noteq> [])) \<and>
     bd_err (wr_Body r) = None \<and>
     (secret \<noteq> [] \<longrightarrow> validateWebhookSignature (en_C E) secret (bd_data (wr_Body r)) r) \<and>
     (payload = bd_data (wr_Body r) \<and> IsEncrypted (bd_data (wr_Body r)) \<and>
        fst (ok_or ([], [], []) (ResolveChannelEncryption (en_C E) rs (URLParam r ''channel''))) = ''e2e'' \<or>
      json_Valid (bd_data (wr_Body r)) \<and>
        EncryptForChannel (en_C E) (en_rand E 0) (en_rand E 1) rs (URLParam r ''channel'') (bd_data (wr_Body r)) = Inr payload)"

lemma webhook_payload_Inr:
  "webhook_payload E r s = Inr (ch, payload) \<Longrightarrow> \<exists>secret. ingested E r (ws_store s) secret payload"
  by (simp add: webhook_payload_def ingested_def Let_def read_body_Body
    split: if_split_asm sum.split_asm body_read.split_asm; argo)

lemma webhook_payload_Inl: "webhook_payload E r s = Inl (p, s') \<Longrightarrow> same_data s s' \<and> 400 \<le> rp_Status p"
  by (simp add: webhook_payload_def Let_def split: if_split_asm sum.split_asm body_read.split_asm; elim conjE; hypsubst; simp)

lemma HandleWebhookPost_sent:
  assumes "HandleWebhookPost E r s = (p, s')" "ws_sent s' \<noteq> ws_sent s"
  shows "\<exists>secret payload eventID. ingested E r (ws_store s) secret payload \<and> GenerateUUID (en_rand E 2) = Inr eventID \<and>
     rp_Status p = 202 \<and>
     ws_sent s' = ws_sent s @ [(''webhook.'' @ URLParam r ''channel'', json_Marshal (relay_payload E r payload eventID))]"
proof (cases "webhook_payload E r s")
  case (Inl a)
  then show ?thesis using assms webhook_payload_Inl [of E r s p s'] by (simp add: HandleWebhookPost_def same_data_def)
next
  case (Inr a)
  obtain ch payload where a: "a = (ch, payload)" by (cases a)
  obtain secret where "ingested E r (ws_store s) secret payload" using webhook_payload_Inr Inr a by blast
  moreover obtain eventID where "GenerateUUID (en_rand E 2) = Inr eventID"
    using assms Inr a by (cases "GenerateUUID (en_rand E 2)") (auto simp: HandleWebhookPost_def)
  moreover from this have "rp_Status p = 202 \<and>
      ws_sent s' = ws_sent s @ [(''webhook.'' @ URLParam r ''channel'', json_Marshal (relay_payload E r payload eventID))]"
    using assms Inr a by (simp add: HandleWebhookPost_def publishEvent_Inr Let_def split: sum.split_asm if_split_asm)
      (elim conjE exE; hypsubst; simp)+
  ultimately show ?thesis by blast
qed

text \<open>No guard reads what an earlier guard of the route writes.\<close>

lemma guard_frames:
  "ws_limiter (probe (BanMiddleware E) r s) = ws_limiter s" "ws_ipcache (probe (BanMiddleware E) r s) = ws_ipcache s"
  "ws_ipcache (probe (RateLimitMiddleware E) r s) = ws_ipcache s"
  by (simp_all add: probe_def BanMiddleware_def RateLimitMiddleware_def Let_def case_prod_beta split: sum.split)

lemma pass_cong:
  "ws_store s' = ws_store s \<Longrightarrow> ws_limiter s' = ws_limiter s \<Longrightarrow> rate_pass E r s' = rate_pass E r s"
  "ws_store s' = ws_store s \<Longrightarrow> ws_ipcache s' = ws_ipcache s \<Longrightarrow> ip_pass E r s' = ip_pass E r s"
  "ws_store s' = ws_store s \<Longrightarrow> access_pass E scope r s' = access_pass E scope r s"
  "ws_store s' = ws_store s \<Longrightarrow> access_enter E r s' = access_enter E r s"
  by (simp_all add: rate_pass_def ip_pass_def channel_allowlist_def client_ip_def ranges_for_def fresh_entry_def
    access_pass_def access_enter_def request_session_def session_grants_def token_grants_def
    cong: sum.case_cong option.case_cong)

lemma access_enter_fields:
  "URLParam (access_enter E r s) = URLParam r" "wr_Body (access_enter E r s) = wr_Body r"
  "wr_Header (access_enter E r s) = wr_Header r" "header_Get (access_enter E r s) = header_Get r"
  by (simp_all add: access_enter_def withPrincipal_def URLParam_def header_Get_def fun_eq_iff Let_def split: option.split)

lemma ingested_enter: "ingested E (access_enter E r s) rs secret payload = ingested E r rs secret payload"
  by (simp add: ingested_def access_enter_fields validateWebhookSignature_def)

lemma relay_payload_enter: "relay_payload E (access_enter E r s) = relay_payload E r"
  by (simp add: relay_payload_def access_enter_fields fun_eq_iff)

lemma relay_headers_get:
  "kv_get (relay_headers hs p) k = Some v \<Longrightarrow>
     kv_get p k = Some v \<or> k \<in> set forwardedHeaderAllowlist \<and> (\<exists>h x xs. (h, x, xs) \<in> set hs \<and> k = ToLower h \<and> v = JStr x)"
proof (induction hs p rule: relay_headers.induct)
  case (2 h x hs p)
  then show ?case
    by (cases x; cases "forwardedHeader h") (auto simp: kv_get_put forwardedHeader_def split: if_splits)
qed simp

lemma relay_headers_wf: "kv_wf p \<Longrightarrow> kv_wf (relay_headers hs p)"
  by (induction hs p rule: relay_headers.induct) (simp_all add: kv_wf_put)

lemma jlookup_kv: "jlookup m k = kv_get m k"
  by (induction m k rule: jlookup.induct) (simp_all add: kv_get_Cons)

lemma kv_wf_distinct: "kv_wf m \<Longrightarrow> distinct (map fst m)"
  by (simp add: kv_wf_def strict_sorted_iff)

lemma kv_put_list_all: "list_all P (map snd m) \<Longrightarrow> P v \<Longrightarrow> list_all P (map snd (kv_put k v m))"
  by (induction k v m rule: kv_put.induct) auto

lemma relay_headers_plain:
  "list_all plain (map snd p) \<Longrightarrow> list_all plain (map snd (relay_headers hs p))"
  by (induction hs p rule: relay_headers.induct) (simp_all add: kv_put_list_all)

lemma relay_payload_plain: "plain (relay_payload E r payload eventID)"
proof -
  let ?m = "kv_put ''event_id'' (JStr eventID) (kv_put ''bodyB'' (JStr (base64_Std_Encode payload))
     (kv_put ''timestamp'' (JStr (Itoa (time_UnixMilli (en_now E)))) (relay_headers (wr_Header r) [])))"
  have "kv_wf ?m" by (intro kv_wf_put relay_headers_wf) (simp add: kv_wf_def)
  moreover have "list_all plain (map snd ?m)" by (intro kv_put_list_all relay_headers_plain) simp_all
  ultimately show ?thesis by (simp add: relay_payload_def kv_wf_distinct list_all_iff)
qed

section \<open>Properties\<close>

text \<open>C8: Nothing reaches the broker past the guards. Whenever a webhook request makes the server publish, its
  address was not banned and within its request budget, on the channel's address list, and
  admitted to the channel (by a session with write permission, by a channel token, or because
  the channel is public); its body was complete, carried the channel's signature when the channel
  has a secret (and in strict mode it has one), and was encrypted by the channel's policy; and
  exactly one message was published, on the channel's subject, for which the sender got 202.\<close>

theorem webhook_ingress_guarded:
  assumes "buildWebhookRouter E r s = (p, s')" "ws_sent s' \<noteq> ws_sent s"
  shows "ban_pass E r s \<and> rate_pass E r s \<and> ip_pass E r s \<and> access_pass E ''produce'' r s \<and> rp_Status p = 202 \<and>
     (\<exists>secret payload eventID. ingested E r (ws_store s) secret payload \<and>
        ws_sent s' = ws_sent s @ [(''webhook.'' @ URLParam r ''channel'', json_Marshal (relay_payload E r payload eventID))])"
proof -
  let ?s1 = "probe (BanMiddleware E) r s"
  let ?s2 = "probe (RateLimitMiddleware E) r ?s1"
  let ?s3 = "probe (IPRestrictMiddleware E) r ?s2"
  let ?s4 = "probe (ChannelAccessMiddleware E ''produce'') r ?s3"
  note d = ban_guard.data [of s E r] rate_guard.data [of ?s1 E r] ip_guard.data [of ?s2 E r]
    access_guard.data [of ?s3 E "''produce''" r]
  note dd = d(1) same_data_trans [OF d(1,2)] same_data_trans [OF same_data_trans [OF d(1,2)] d(3)]
    same_data_trans [OF same_data_trans [OF same_data_trans [OF d(1,2)] d(3)] d(4)]
  have e: "ws_store ?s1 = ws_store s" "ws_store ?s2 = ws_store s" "ws_store ?s3 = ws_store s" "ws_store ?s4 = ws_store s"
    "ws_sent ?s1 = ws_sent s" "ws_sent ?s2 = ws_sent s" "ws_sent ?s3 = ws_sent s" "ws_sent ?s4 = ws_sent s"
    using dd by (simp_all add: same_data_def)
  note b = ban_guard.sent_passed [OF assms(1) [unfolded buildWebhookRouter_def] assms(2)]
  have "ws_sent s' \<noteq> ws_sent ?s1" using assms(2) e by simp
  note c = rate_guard.sent_passed [OF conjunct2 [OF b] this]
  have "ws_sent s' \<noteq> ws_sent ?s2" using assms(2) e by simp
  note i = ip_guard.sent_passed [OF conjunct2 [OF c] this]
  have "ws_sent s' \<noteq> ws_sent ?s3" using assms(2) e by simp
  note a = access_guard.sent_passed [OF conjunct2 [OF i] this]
  have "ws_sent s' \<noteq> ws_sent ?s4" using assms(2) e by simp
  note h = HandleWebhookPost_sent [OF conjunct2 [OF a] this]
  have "rate_pass E r s" using c pass_cong(1) [OF e(1) guard_frames(1)] by simp
  moreover have "ip_pass E r s" using i pass_cong(2) [of ?s2 s E r] e(2) guard_frames by simp
  moreover have "access_pass E ''produce'' r s" using a pass_cong(3) [OF e(3)] by simp
  moreover have "access_enter E r ?s3 = access_enter E r s" using pass_cong(4) [OF e(3)] by simp
  ultimately show ?thesis using b h e by (simp add: ingested_enter relay_payload_enter access_enter_fields) blast
qed

lemma demo_headers: "header_Get demo_request ''Content-Type'' = ''application/json''" "header_Get demo_request ''X-Gitlab-Token'' = ''s3cret''"
  "Contains ''application/json'' ''application/json''" "json_Valid ''{}''" "wr_Cookies demo_request = []"
  "wr_Body demo_request = \<lparr>bd_data = ''{}'', bd_err = None\<rparr>"
  by code_simp+

definition demo_resolved :: channel where
  "demo_resolved = demo_channel\<lparr>ch_AccessMode := ''public'', ch_MaxBodySize := 26214400\<rparr>"

lemma demo_reads: "ResolveChannelConfig C demo_site ''c1'' = Inr demo_resolved"
  "ResolveChannelWebhookSecret C demo_site ''c1'' = Inr ''s3cret''"
  "ResolveChannelEncryption C demo_site ''c1'' = Inr ([], [], [])"
  "EncryptForChannel C r1 r2 demo_site ''c1'' body = Inr body"
proof -
  have e: "domain_ResolveChannelConfig demo_channel DefaultGlobalConfig = demo_resolved"
    by (simp add: domain_ResolveChannelConfig_def MigrateChannel_def demo_channel_def zero_channel_def DefaultGlobalConfig_def
      demo_resolved_def Let_def)
  show "ResolveChannelConfig C demo_site ''c1'' = Inr demo_resolved"
    using ResolveChannelConfig_ok [OF demo_site_reads] e by simp
  show "ResolveChannelWebhookSecret C demo_site ''c1'' = Inr ''s3cret''" "ResolveChannelEncryption C demo_site ''c1'' = Inr ([], [], [])"
    using resolvers_agree [OF demo_site_reads] e by (simp_all add: demo_resolved_def demo_channel_def zero_channel_def)
  show "EncryptForChannel C r1 r2 demo_site ''c1'' body = Inr body"
    by (simp add: EncryptForChannel_stored [OF demo_site_reads] MigrateChannel_def demo_channel_def zero_channel_def Let_def)
qed

lemma demo_payload: "ws_store s = demo_site \<Longrightarrow> webhook_payload demo_env demo_request s = Inr (demo_resolved, ''{}'')"
  by (simp add: webhook_payload_def demo_headers demo_reads demo_site_reads demo_resolved_def Let_def DefaultGlobalConfig_def
    read_body_def validateWebhookSignature_def)

lemma demo_source: "en_rand demo_env i = Some (replicate 16 CHR ''r'')" "br_nc (ws_broker demo_web) = Some (\<lambda>_ _. None)"
  by (simp_all add: demo_env_def demo_web_def New_def)

lemma demo_published:
  "ws_store s = demo_site \<Longrightarrow> ws_broker s = ws_broker demo_web \<Longrightarrow> ws_sent s = [] \<Longrightarrow>
     ws_sent (snd (HandleWebhookPost demo_env demo_request s)) \<noteq> []"
  by (simp add: HandleWebhookPost_def demo_payload GenerateUUID_def demo_source demo_resolved_def demo_channel_def zero_channel_def
    Let_def publishEvent_def Publish_def)

lemma demo_route: "ws_sent (snd (buildWebhookRouter demo_env demo_request demo_web)) \<noteq> []"
proof -
  have ip: "ip_pass demo_env demo_request demo_web"
  proof -
    have "client_ip demo_env demo_request demo_web = Inr ''10.0.0.1''"
      by (simp add: client_ip_def GetRealIP_def remoteIP_def ResolveBehindReverseProxy_def ResolveTrustedProxyCIDRs_def
        demo_site_reads DefaultGlobalConfig_def http_of_def demo_request_def demo_net_def)
    then show ?thesis
      by (simp add: ip_pass_def demo_allowlist ranges_for_def fresh_entry_def demo_net_def ranges_contains_def)
  qed
  let ?s = "probe (IPRestrictMiddleware demo_env) demo_request demo_web"
  have s: "ws_store ?s = demo_site" "ws_broker ?s = ws_broker demo_web" "ws_sent ?s = []"
    using ip_guard.data [of demo_web demo_env demo_request] by (simp_all add: same_data_def)
  have "request_session demo_env demo_request s = None" for s
    by (simp add: request_session_def r_Cookie_def demo_headers)
  then have "ChannelAccessMiddleware demo_env scope next demo_request ?s = next demo_request ?s" for scope "next"
    using s(1) by (simp add: ChannelAccess_cases demo_reads token_grants_def demo_resolved_def)
  then show ?thesis
    using ip_guard.passes [OF ip] demo_published [OF s]
    by (simp add: buildWebhookRouter_def BanMiddleware_def RateLimitMiddleware_def demo_site_reads DefaultGlobalConfig_def)
qed

theorem webhook_ingress_guarded_witness:
  "ip_pass demo_env demo_request demo_web \<and> ws_sent (snd (buildWebhookRouter demo_env demo_request demo_web)) \<noteq> []"
  using webhook_ingress_guarded [of demo_env demo_request demo_web] demo_route prod.collapse
  by (metis demo_fields(6))



text \<open>The signature headers are listed as credentials that must not be logged, but the log line shows them:
  they are on the allowlist of relayed headers, which is looked at first.\<close>

lemma signature_headers_logged:
  "h \<in> {''X-Hub-Signature'', ''X-Hub-Signature-256'', ''X-Gitea-Signature''} \<Longrightarrow>
     sensitiveHeaderForLogs h \<and> headers_log [(h, sig, [])] = '' '' @ h @ ''='' @ sig"
proof -
  have l: "ToLower ''X-Hub-Signature'' = ''x-hub-signature''" "ToLower ''X-Hub-Signature-256'' = ''x-hub-signature-256''"
    "ToLower ''X-Gitea-Signature'' = ''x-gitea-signature''" by code_simp+
  assume "h \<in> {''X-Hub-Signature'', ''X-Hub-Signature-256'', ''X-Gitea-Signature''}"
  then show ?thesis
    by (elim insertE emptyE) (simp_all add: sensitiveHeaderForLogs_def forwardedHeader_def l forwardedHeaderAllowlist_def)
qed

end
