(* ===== verification/Client.thy ===== *)
theory Client
  imports Webhook
begin

text \<open>
  The client program \<open>internal/client/client.go\<close>: reading a relayed message, the headers it may
  reconstruct, the saved files and replay scripts, the request to the target, the command it runs
  and the callback of the event stream that puts them together; version check and subscription.

  Parameters stand for the packages outside the repository: \<open>golang.org/x/text/cases\<close> (\<open>ce_title\<close>),
  \<open>mapstructure\<close> (\<open>ce_decode\<close>), the cryptographic packages (\<open>ce_C\<close>), and for the two script templates
  embedded in the program (\<open>ce_curl\<close>, \<open>ce_httpie\<close>). \<open>ce_order\<close> is the order in which a \<open>range\<close> loop visits
  the members of a map. Log lines are not modelled.
\<close>

section \<open>Strings, numbers and times\<close>

text \<open>\<open>strings.ToLower\<close>: besides the ASCII letters only the Kelvin sign and the dotted capital I have an
  ASCII lower case; the callers only compare ASCII parts of the result.\<close>

fun ToLowerU :: "string \<Rightarrow> string" where
  "ToLowerU [] = []"
| "ToLowerU (c # s) =
     (if c = CHR 0xE2 \<and> prefix [CHR 0x84, CHR 0xAA] s then CHR ''k'' # ToLowerU (drop 2 s)
      else if c = CHR 0xC4 \<and> prefix [CHR 0xB0] s then CHR ''i'' # ToLowerU (drop 1 s)
      else lower_char c # ToLowerU s)"

text \<open>\<open>strings.EqualFold\<close> against an ASCII word.\<close>

fun fold_case :: "string \<Rightarrow> string" where
  "fold_case [] = []"
| "fold_case (c # s) =
     (if c = CHR 0xE2 \<and> prefix [CHR 0x84, CHR 0xAA] s then CHR ''k'' # fold_case (drop 2 s)
      else if c = CHR 0xC5 \<and> prefix [CHR 0xBF] s then CHR ''s'' # fold_case (drop 1 s)
      else lower_char c # fold_case s)"

definition EqualFold :: "string \<Rightarrow> string \<Rightarrow> bool" where
  "EqualFold s w \<longleftrightarrow> fold_case s = fold_case w"

text \<open>The proleptic Gregorian date of a day, counted from the Unix epoch.\<close>

definition civil :: "int \<Rightarrow> int \<times> int \<times> int" where
  "civil days =
     (let z = days + 719468; era = z div 146097; doe = z mod 146097;
          yoe = (doe - doe div 1460 + doe div 36524 - doe div 146096) div 365;
          doy = doe - (365 * yoe + yoe div 4 - yoe div 100);
          mp = (5 * doy + 2) div 153;
          d = doy - (153 * mp + 2) div 5 + 1;
          m = (if mp < 10 then mp + 3 else mp - 9);
          y = yoe + era * 400
      in (if m \<le> 2 then y + 1 else y, m, d))"

definition pad :: "nat \<Rightarrow> string \<Rightarrow> string" where
  "pad w s = replicate (w - length s) CHR ''0'' @ s"

definition appendInt :: "nat \<Rightarrow> int \<Rightarrow> string" where
  "appendInt w x = (if x < 0 then ''-'' @ pad w (show_nat (nat (- x))) else pad w (show_nat (nat x)))"

text \<open>\<open>Format("2006-01-02T15.04.01.000")\<close> of a time in UTC: in a Go layout \<open>01\<close> is the month, also where
  the seconds are expected.\<close>

definition format_ts :: "time \<Rightarrow> string" where
  "format_ts t =
     (let secs = time_Unix t; ns = (t - unix_epoch) mod Second in
      case civil (secs div 86400) of (y, m, d) \<Rightarrow>
        appendInt 4 y @ ''-'' @ appendInt 2 m @ ''-'' @ appendInt 2 d @ ''T'' @
        appendInt 2 (secs mod 86400 div 3600) @ ''.'' @ appendInt 2 (secs mod 3600 div 60) @ ''.'' @
        appendInt 2 m @ ''.'' @ appendInt 3 (ns div 1000000))"

section \<open>Data\<close>

record payloadMsg =
  pm_headers :: "(string, string) kv"
  pm_body :: string
  pm_timestamp :: string
  pm_contentType :: string
  pm_eventType :: string
  pm_eventID :: string

record messageBody =
  mb_Body :: string
  mb_BodyB :: string

record replayDataOpts =
  ro_targetCnxTimeout :: int
  ro_noReplay :: bool
  ro_saveDir :: string
  ro_smeeURL :: string
  ro_targetURL :: string
  ro_localDebugURL :: string
  ro_ignoreEvents :: "string list"
  ro_useHttpie :: bool
  ro_execCommand :: string
  ro_execOnEvents :: "string list"
  ro_execEnvVars :: "string list"
  ro_execTimeout :: duration
  ro_encryptionKeyFile :: string
  ro_encryptionKey :: string
  ro_resume :: bool
  ro_clientID :: string
  ro_token :: string

datatype tmpl_piece = TText string | THeaders | TTargetURL | TContentType | TFileBase | TLocalDebugURL

record client_env =
  ce_C :: crypto
  ce_title :: "string \<Rightarrow> string"
  ce_decode :: "json \<Rightarrow> fields result"
  ce_order :: "fields \<Rightarrow> fields"
  ce_curl :: "tmpl_piece list"
  ce_httpie :: "tmpl_piece list"

section \<open>Parsing a message\<close>

text \<open>The members of an object, after its opening brace, with the text of their values.\<close>

fun raw_members :: "nat \<Rightarrow> string \<Rightarrow> (string \<times> string \<times> json) list option" where
  "raw_members 0 s = None"
| "raw_members (Suc n) s =
     (if \<not> prefix [CHR 0x22] (skip_ws s) then None
      else (case read_str (tl (skip_ws s)) of None \<Rightarrow> None
        | Some (k, s1) \<Rightarrow>
            (if \<not> prefix '':'' (skip_ws s1) then None
             else (let t = skip_ws (tl (skip_ws s1)) in case read_doc n t of None \<Rightarrow> None
               | Some (v, s2) \<Rightarrow>
                   (let m = (k, take (length t - length s2) t, v) in
                    if prefix '','' (skip_ws s2) then map_option (Cons m) (raw_members n (tl (skip_ws s2)))
                    else if prefix ''}'' (skip_ws s2) then Some [m]
                    else None)))))"

text \<open>Decoding into \<open>messageBody\<close>: field names match without regard to case and a later member wins; \<open>body\<close>
  keeps the text of its value, \<open>bodyB\<close> must be a string or null.\<close>

fun mb_members :: "(string \<times> string \<times> json) list \<Rightarrow> messageBody \<Rightarrow> messageBody option" where
  "mb_members [] mb = Some mb"
| "mb_members ((k, raw, v) # ms) mb =
     (if ToLower k = ''body'' then mb_members ms (mb\<lparr>mb_Body := raw\<rparr>)
      else if ToLower k = ''bodyb'' then
        (case v of JStr s \<Rightarrow> mb_members ms (mb\<lparr>mb_BodyB := s\<rparr>) | JNull \<Rightarrow> mb_members ms mb | _ \<Rightarrow> None)
      else mb_members ms mb)"

definition decode_messageBody :: "string \<Rightarrow> messageBody result" where
  "decode_messageBody data =
     (let s = skip_ws data; zero = \<lparr>mb_Body = [], mb_BodyB = []\<rparr> in
      if prefix ''null'' s then Inr zero
      else if \<not> prefix ''{'' s then Inl (ErrMsg ''json'')
      else if prefix ''}'' (skip_ws (tl s)) then Inr zero
      else of_option (ErrMsg ''json'')
        (case raw_members (2 * length s + 1) (tl s) of None \<Rightarrow> None | Some ms \<Rightarrow> mb_members ms zero))"

text \<open>\<open>strings.NewReplacer(":", "-", " ", "_", "/", "_")\<close>, and the leftmost match of \<open>(\w+|\d+|_|-|:)\<close>: a run of word
  characters, or one hyphen or colon.\<close>

definition event_replace :: "string \<Rightarrow> string" where
  "event_replace s = map (\<lambda>c. if c = CHR '':'' then CHR ''-'' else if c = CHR '' '' \<or> c = CHR ''/'' then CHR ''_'' else c) s"

definition word_char :: "char \<Rightarrow> bool" where
  "word_char c \<longleftrightarrow> is_alnum c \<or> c = CHR ''_''"

definition pmEventRe_FindString :: "string \<Rightarrow> string" where
  "pmEventRe_FindString s =
     (case dropWhile (\<lambda>c. \<not> (word_char c \<or> c = CHR ''-'' \<or> c = CHR '':'')) s of
        [] \<Rightarrow> []
      | c # r \<Rightarrow> (if word_char c then takeWhile word_char (c # r) else [c]))"

definition event_type :: "string \<Rightarrow> string" where
  "event_type pv = pmEventRe_FindString (event_replace (ToLowerU pv))"

definition forwardableHeaderAllowlist :: "string list" where
  "forwardableHeaderAllowlist =
     [''content-type'', ''user-agent'', ''x-event-type'', ''x-github-event'', ''x-github-delivery'',
      ''x-github-hook-id'', ''x-gitlab-event'', ''x-gitlab-event-uuid'', ''x-gitea-event'',
      ''x-gitea-delivery'', ''x-gitea-signature'', ''x-event-key'', ''x-bitbucket-event'',
      ''x-bitbucket-delivery'', ''x-hub-signature'', ''x-hub-signature-256'']"

definition forwardableHeader :: "string \<Rightarrow> bool" where
  "forwardableHeader name \<longleftrightarrow> ToLowerU name \<in> set forwardableHeaderAllowlist"

text \<open>One turn of the loop over the payload; the second component of the state is the time \<open>dt\<close>.\<close>

definition parse_entry :: "client_env \<Rightarrow> string \<Rightarrow> string \<times> json \<Rightarrow> payloadMsg \<times> time \<Rightarrow> (payloadMsg \<times> time) result" where
  "parse_entry E data kv st = (case kv of (k, v) \<Rightarrow> case st of (pm, dt) \<Rightarrow>
     if k \<in> {''x-github-event'', ''x-gitlab-event'', ''x-event-key''} then
       (case v of JStr pv \<Rightarrow> Inr (pm\<lparr>pm_headers := kv_put (ce_title E k) pv (pm_headers pm), pm_eventType := event_type pv\<rparr>, dt)
        | _ \<Rightarrow> Inr st)
     else if k = ''x-github-delivery'' then
       (case v of JStr pv \<Rightarrow> Inr (pm\<lparr>pm_headers := kv_put (ce_title E k) pv (pm_headers pm), pm_eventID := pv\<rparr>, dt)
        | _ \<Rightarrow> Inr st)
     else if k = ''bodyB'' then
       bindE (decode_messageBody data) (\<lambda>mb.
       bindE (of_option (ErrMsg ''illegal base64 data'') (base64_Std_Decode (mb_BodyB mb))) (\<lambda>decoded.
       Inr (pm\<lparr>pm_body := decoded\<rparr>, dt)))
     else if k = ''body'' then
       bindE (decode_messageBody data) (\<lambda>mb. Inr (pm\<lparr>pm_body := mb_Body mb\<rparr>, dt))
     else if k = ''content-type'' then
       (case v of JStr pv \<Rightarrow>
          Inr (pm\<lparr>pm_contentType := pv, pm_headers := (if kv_get (pm_headers pm) ''Content-Type'' = None
                  then kv_put ''Content-Type'' pv (pm_headers pm) else pm_headers pm)\<rparr>, dt)
        | _ \<Rightarrow> Inr st)
     else if k = ''timestamp'' then
       (case v of JStr pv \<Rightarrow> (case ParseInt pv of Inl _ \<Rightarrow> Inr st | Inr tsInt \<Rightarrow> Inr (pm, time_OfUnixMilli tsInt))
        | _ \<Rightarrow> Inr st)
     else if forwardableHeader k then
       (case v of JStr pv \<Rightarrow> Inr (pm\<lparr>pm_headers := kv_put (ce_title E k) pv (pm_headers pm)\<rparr>, dt) | _ \<Rightarrow> Inr st)
     else Inr st)"

fun parse_entries :: "client_env \<Rightarrow> string \<Rightarrow> fields \<Rightarrow> payloadMsg \<times> time \<Rightarrow> (payloadMsg \<times> time) result" where
  "parse_entries E data [] st = Inr st"
| "parse_entries E data (kv # kvs) st = bindE (parse_entry E data kv st) (parse_entries E data kvs)"

definition zero_pm :: payloadMsg where
  "zero_pm = \<lparr>pm_headers = [], pm_body = [], pm_timestamp = [], pm_contentType = [], pm_eventType = [], pm_eventID = []\<rparr>"

text \<open>After the loop: the time stamp, and the content type as the only header when there is no other.\<close>

definition stamp :: "payloadMsg \<Rightarrow> time \<Rightarrow> payloadMsg" where
  "stamp pm dt = pm\<lparr>pm_timestamp := format_ts dt, pm_headers :=
     (if pm_headers pm = [] \<and> pm_contentType pm \<noteq> [] then [(''Content-Type'', pm_contentType pm)] else pm_headers pm)\<rparr>"

text \<open>\<open>message\<close> stays nil when the data is no JSON document.\<close>

definition parse :: "client_env \<Rightarrow> replayDataOpts \<Rightarrow> time \<Rightarrow> string \<Rightarrow> payloadMsg result" where
  "parse E opts now data =
     bindE (ce_decode E (case json_Unmarshal data of JBad \<Rightarrow> JNull | d \<Rightarrow> d)) (\<lambda>payload.
     bindE (parse_entries E data (ce_order E payload) (zero_pm, now)) (\<lambda>(pm0, dt).
     let pm = stamp pm0 dt
     in if ro_ignoreEvents opts \<noteq> [] \<and> pm_eventType pm \<noteq> [] \<and> pm_eventType pm \<in> set (ro_ignoreEvents opts) then Inr pm
        else if pm_headers pm = [] \<and> pm_body pm = [] then Inl (ErrMsg ''parsed message has no headers'')
        else Inr pm))"

end
