(* ===== verification/ClientRun.thy ===== *)
theory ClientRun
  imports Client
begin

text \<open>
  What the client does with a message (\<open>internal/client/client.go\<close>): the saved payload and replay script,
  the request to the target, the command, and the callback of the event stream; the version check
  and the subscription URL.

  The world outside is a state \<open>client_world\<close>: the files, the requests that were sent and the commands that
  were run. How a system call ends is an argument: \<open>io_fail i\<close> is the error of step \<open>i\<close> of the operation.
\<close>

section \<open>The world\<close>

record out_request =
  or_Method :: string
  or_URL :: string
  or_Header :: "(string, string list) kv"
  or_Body :: string

record exec_run =
  er_command :: string
  er_env :: "string list"
  er_payload :: string
  er_headers :: string
  er_timeout :: duration

text \<open>A file has its content and its permission bits.\<close>

record client_world =
  cw_files :: "(string, string \<times> nat) kv"
  cw_requests :: "out_request list"
  cw_runs :: "exec_run list"

record client_io =
  io_save :: "nat \<Rightarrow> error option"
  io_request :: "string \<Rightarrow> error option"
  io_do :: "out_request \<Rightarrow> error option"
  io_temp :: "nat \<Rightarrow> error option"
  io_names :: "string \<times> string"
  io_run :: "exec_run \<Rightarrow> error option"
  io_environ :: "(string \<times> string) list"

section \<open>Saving\<close>

definition shellQuote :: "string \<Rightarrow> string" where
  "shellQuote s = CHR 0x27 # concat (map (\<lambda>c. if c = CHR 0x27 then [CHR 0x27, CHR 0x5C, CHR 0x27, CHR 0x27] else [c]) s) @ [CHR 0x27]"

fun buildHeaders :: "(string, string) kv \<Rightarrow> string" where
  "buildHeaders [] = []"
| "buildHeaders ((k, v) # hs) = k @ ''='' @ v @ '' '' @ buildHeaders hs"

fun buildCurlHeaders :: "(string, string) kv \<Rightarrow> string" where
  "buildCurlHeaders [] = []"
| "buildCurlHeaders ((k, v) # hs) = ''-H '' @ shellQuote (k @ '': '' @ v) @ '' '' @ buildCurlHeaders hs"

fun buildHttpieHeaders :: "(string, string) kv \<Rightarrow> string" where
  "buildHttpieHeaders [] = []"
| "buildHttpieHeaders ((k, v) # hs) = shellQuote (k @ '':'' @ v) @ '' '' @ buildHttpieHeaders hs"

text \<open>The modes are 384 (0600) and 448 (0700). \<open>os.OpenFile\<close> with \<open>O_WRONLY|O_CREATE|O_TRUNC\<close>: the mode is only used for a new file.\<close>

definition open_trunc :: "string \<Rightarrow> nat \<Rightarrow> (string, string \<times> nat) kv \<Rightarrow> (string, string \<times> nat) kv" where
  "open_trunc path mode fs = kv_put path ([], case kv_get fs path of None \<Rightarrow> mode | Some (_, m) \<Rightarrow> m) fs"

definition write_file :: "string \<Rightarrow> string \<Rightarrow> (string, string \<times> nat) kv \<Rightarrow> (string, string \<times> nat) kv" where
  "write_file path content fs = (case kv_get fs path of None \<Rightarrow> fs | Some (_, m) \<Rightarrow> kv_put path (content, m) fs)"

definition chmod :: "string \<Rightarrow> nat \<Rightarrow> (string, string \<times> nat) kv \<Rightarrow> (string, string \<times> nat) kv" where
  "chmod path mode fs = (case kv_get fs path of None \<Rightarrow> fs | Some (c, _) \<Rightarrow> kv_put path (c, mode) fs)"

definition file_base :: "payloadMsg \<Rightarrow> string" where
  "file_base pm = (if pm_eventType pm \<noteq> [] then pm_eventType pm @ ''-'' @ pm_timestamp pm else pm_timestamp pm)"

text \<open>\<open>template.Execute\<close> writes the fields as they are.\<close>

definition script :: "client_env \<Rightarrow> replayDataOpts \<Rightarrow> payloadMsg \<Rightarrow> string" where
  "script E rd pm =
     (let headers = (if ro_useHttpie rd then buildHttpieHeaders (pm_headers pm) else buildCurlHeaders (pm_headers pm)) in
      concat (map (\<lambda>p. case p of TText s \<Rightarrow> s | THeaders \<Rightarrow> headers | TTargetURL \<Rightarrow> shellQuote (ro_targetURL rd)
          | TContentType \<Rightarrow> shellQuote (pm_contentType pm) | TFileBase \<Rightarrow> file_base pm
          | TLocalDebugURL \<Rightarrow> shellQuote (ro_localDebugURL rd))
        (if ro_useHttpie rd then ce_httpie E else ce_curl E)))"

text \<open>Steps: 0 creates the directory, 1 opens and 2 writes the payload file, 3 opens, 4 writes and 5
  changes the mode of the script.\<close>

definition saveData :: "client_env \<Rightarrow> client_io \<Rightarrow> replayDataOpts \<Rightarrow> payloadMsg \<Rightarrow> client_world \<Rightarrow> error option \<times> client_world" where
  "saveData E io rd pm w =
     (let jsonfile = ro_saveDir rd @ ''/'' @ file_base pm @ ''.json'';
          shscript = ro_saveDir rd @ ''/'' @ file_base pm @ ''.sh'';
          fs1 = open_trunc jsonfile 384 (cw_files w);
          fs2 = write_file jsonfile (pm_body pm) fs1;
          fs3 = open_trunc shscript 448 fs2;
          fs4 = write_file shscript (script E rd pm) fs3;
          fs5 = chmod shscript 448 fs4
      in case io_save io 0 of Some e \<Rightarrow> (Some e, w)
      | None \<Rightarrow> (case io_save io 1 of Some e \<Rightarrow> (Some e, w)
      | None \<Rightarrow> (case io_save io 2 of Some e \<Rightarrow> (Some e, w\<lparr>cw_files := fs1\<rparr>)
      | None \<Rightarrow> (case io_save io 3 of Some e \<Rightarrow> (Some e, w\<lparr>cw_files := fs2\<rparr>)
      | None \<Rightarrow> (case io_save io 4 of Some e \<Rightarrow> (Some e, w\<lparr>cw_files := fs3\<rparr>)
      | None \<Rightarrow> (case io_save io 5 of Some e \<Rightarrow> (Some e, w\<lparr>cw_files := fs4\<rparr>)
      | None \<Rightarrow> (None, w\<lparr>cw_files := fs5\<rparr>)))))))"

section \<open>Forwarding\<close>

text \<open>\<open>http.Header.Add\<close>: a name that is no token keeps its spelling.\<close>

definition token_char :: "char \<Rightarrow> bool" where
  "token_char c \<longleftrightarrow> is_alnum c \<or> c \<in> set ''!#$%&*+-.^_`|~'' \<or> c = CHR 0x27"

definition CanonicalHeaderKey :: "string \<Rightarrow> string" where
  "CanonicalHeaderKey k = (if list_all token_char k then canonical True k else k)"

definition header_Add :: "string \<Rightarrow> string \<Rightarrow> (string, string list) kv \<Rightarrow> (string, string list) kv" where
  "header_Add k v h = kv_put (CanonicalHeaderKey k)
     ((case kv_get h (CanonicalHeaderKey k) of None \<Rightarrow> [] | Some vs \<Rightarrow> vs) @ [v]) h"

definition replay_request :: "replayDataOpts \<Rightarrow> payloadMsg \<Rightarrow> out_request" where
  "replay_request ropts pm =
     (let h = fold (\<lambda>(k, v) h. header_Add k v h) (pm_headers pm) [] in
      \<lparr>or_Method = ''POST'', or_URL = ro_targetURL ropts,
       or_Header = (if kv_get (pm_headers pm) ''Content-Type'' = None then header_Add ''Content-Type'' (pm_contentType pm) h else h),
       or_Body = pm_body pm\<rparr>)"

definition replayData :: "client_io \<Rightarrow> replayDataOpts \<Rightarrow> payloadMsg \<Rightarrow> client_world \<Rightarrow> error option \<times> client_world" where
  "replayData io ropts pm w = (case io_request io (ro_targetURL ropts) of
       Some e \<Rightarrow> (Some e, w)
     | None \<Rightarrow> (io_do io (replay_request ropts pm), w\<lparr>cw_requests := cw_requests w @ [replay_request ropts pm]\<rparr>))"

section \<open>Running a command\<close>

definition execOutputLimit :: nat where
  "execOutputLimit = 1048576"

record limitedBuffer =
  lb_buf :: string
  lb_limit :: nat
  lb_truncated :: bool

definition limitedBuffer_Write :: "limitedBuffer \<Rightarrow> string \<Rightarrow> nat \<times> limitedBuffer" where
  "limitedBuffer_Write l p =
     (if lb_limit l \<le> length (lb_buf l) then (length p, l\<lparr>lb_truncated := True\<rparr>)
      else (let remaining = lb_limit l - length (lb_buf l) in
        if remaining < length p then (length p, l\<lparr>lb_truncated := True, lb_buf := lb_buf l @ take remaining p\<rparr>)
        else (length p, l\<lparr>lb_buf := lb_buf l @ p\<rparr>)))"

definition exec_allowlist :: "string list" where
  "exec_allowlist = [''PATH'', ''HOME'', ''TMPDIR'', ''TEMP'', ''TMP'', ''USER'', ''USERNAME'', ''LOGNAME'', ''SHELL'',
     ''LANG'', ''LC_ALL'', ''LC_CTYPE'', ''TZ'']"

text \<open>The process environment is a list of names and values; \<open>addEnvVar\<close> appends a variable once.\<close>

definition addEnvVar :: "(string \<times> string) list \<Rightarrow> string \<Rightarrow> string list \<times> string list \<Rightarrow> string list \<times> string list" where
  "addEnvVar environ name st = (case st of (execEnv, seen) \<Rightarrow>
     if name = [] then st else if name \<in> set seen then st
     else (case map_of environ name of None \<Rightarrow> st | Some value \<Rightarrow> (execEnv @ [name @ ''='' @ value], name # seen)))"

definition buildExecEnv :: "(string \<times> string) list \<Rightarrow> string list \<Rightarrow> string list" where
  "buildExecEnv environ extraVarNames =
     (let st1 = fold (addEnvVar environ) exec_allowlist ([], []);
          st2 = fold (\<lambda>(name, _) st. if HasPrefix name ''LC_'' then addEnvVar environ name st else st) environ st1
      in fst (fold (addEnvVar environ) extraVarNames st2))"

definition exec_selected :: "replayDataOpts \<Rightarrow> payloadMsg \<Rightarrow> bool" where
  "exec_selected rd pm \<longleftrightarrow>
     (ro_execOnEvents rd \<noteq> [] \<longrightarrow> pm_eventType pm \<noteq> [] \<and> pm_eventType pm \<in> set (ro_execOnEvents rd))"

definition exec_command :: "client_io \<Rightarrow> replayDataOpts \<Rightarrow> payloadMsg \<Rightarrow> exec_run" where
  "exec_command io rd pm = \<lparr>er_command = ro_execCommand rd,
     er_env = buildExecEnv (io_environ io) (ro_execEnvVars rd) @
       [''GOHOOKBRIDGE_EVENT_TYPE='' @ pm_eventType pm, ''GOHOOKBRIDGE_EVENT_ID='' @ pm_eventID pm,
        ''GOHOOKBRIDGE_CONTENT_TYPE='' @ pm_contentType pm, ''GOHOOKBRIDGE_TIMESTAMP='' @ pm_timestamp pm,
        ''GOHOOKBRIDGE_PAYLOAD_FILE='' @ fst (io_names io), ''GOHOOKBRIDGE_HEADERS_FILE='' @ snd (io_names io)],
     er_payload = pm_body pm, er_headers = json_Marshal (JObj (map (\<lambda>(k, v). (k, JStr v)) (pm_headers pm))),
     er_timeout = (if ro_execTimeout rd \<le> 0 then 30 * Second else ro_execTimeout rd)\<rparr>"

text \<open>Steps: 0 creates and 1 writes the payload file, 2 creates and 3 writes the headers file; both are
  removed at the end.\<close>

definition runExecCommand :: "client_io \<Rightarrow> replayDataOpts \<Rightarrow> payloadMsg \<Rightarrow> client_world \<Rightarrow> error option \<times> client_world" where
  "runExecCommand io rd pm w =
     (if \<not> exec_selected rd pm then (None, w)
      else if io_temp io 0 \<noteq> None then (Some (ErrMsg ''failed to create payload temp file''), w)
      else if io_temp io 1 \<noteq> None then (Some (ErrMsg ''failed to write payload temp file''), w)
      else if io_temp io 2 \<noteq> None then (Some (ErrMsg ''failed to create headers temp file''), w)
      else if io_temp io 3 \<noteq> None then (Some (ErrMsg ''failed to write headers temp file''), w)
      else (let run = exec_command io rd pm in
        (case io_run io run of None \<Rightarrow> None | Some e \<Rightarrow> Some (ErrMsg ''exec command failed''),
         w\<lparr>cw_runs := cw_runs w @ [run]\<rparr>)))"

section \<open>The callback of the event stream\<close>

record sse_event =
  ev_Event :: string
  ev_Data :: string

definition connection_message :: "string \<Rightarrow> bool" where
  "connection_message data \<longleftrightarrow> Contains (ToLowerU data) ''ready'' \<or>
     Contains (ToLowerU data) (CHR 0x22 # ''message'' @ [CHR 0x22]) \<and> Contains (ToLowerU data) (CHR 0x22 # ''connected'' @ [CHR 0x22])"

definition open_data :: "client_env \<Rightarrow> replayDataOpts \<Rightarrow> string \<Rightarrow> string \<Rightarrow> string result" where
  "open_data E opts channel data =
     (if ro_encryptionKey opts \<noteq> [] \<and> IsAESEncrypted data
      then AESDecryptWithContext (ce_C E) data (ro_encryptionKey opts) (ChannelContext channel) else Inr data)"

definition open_body :: "client_env \<Rightarrow> replayDataOpts \<Rightarrow> string \<Rightarrow> string option \<Rightarrow> string \<Rightarrow> string result" where
  "open_body E opts channel privateKey body =
     (case privateKey of
        Some sk \<Rightarrow> (if IsEncrypted body then DecryptWithContext (ce_C E) body sk (ChannelContext channel)
          else open_data E opts channel body)
      | None \<Rightarrow> open_data E opts channel body)"

text \<open>What the callback makes of an event: nothing, or the message it goes on with.\<close>

definition handle_message ::
  "client_env \<Rightarrow> replayDataOpts \<Rightarrow> string \<Rightarrow> string option \<Rightarrow> time \<Rightarrow> sse_event \<Rightarrow> payloadMsg option" where
  "handle_message E opts channel privateKey now msg =
     (if ev_Event msg = ''ready'' \<or> ev_Data msg = ''ready'' then None
      else if ev_Event msg = ''ping'' then None
      else if ev_Data msg = [] \<or> ev_Data msg = ''{}'' then None
      else if connection_message (ev_Data msg) then None
      else (case open_data E opts channel (ev_Data msg) of Inl _ \<Rightarrow> None
      | Inr payload \<Rightarrow> (case parse E opts now payload of Inl _ \<Rightarrow> None
      | Inr pm \<Rightarrow> (case open_body E opts channel privateKey (pm_body pm) of Inl _ \<Rightarrow> None
      | Inr body \<Rightarrow>
         (if pm_eventType pm = ''ready'' \<or> body \<noteq> [] \<and> ToLowerU body = ''ready'' then None
          else if body = [] \<and> list_ex (\<lambda>(k, v). EqualFold k ''Message'' \<and> EqualFold v ''connected'') (pm_headers pm) then None
          else if pm_headers pm = [] then None
          else Some (pm\<lparr>pm_body := body\<rparr>))))))"

definition process_message :: "client_env \<Rightarrow> client_io \<Rightarrow> replayDataOpts \<Rightarrow> payloadMsg \<Rightarrow> client_world \<Rightarrow> client_world" where
  "process_message E io opts pm w =
     (case (if ro_saveDir opts \<noteq> [] then saveData E io opts pm w else (None, w)) of
        (Some _, w1) \<Rightarrow> w1
      | (None, w1) \<Rightarrow>
      (case (if \<not> ro_noReplay opts then replayData io opts pm w1 else (None, w1)) of
        (Some _, w2) \<Rightarrow> w2
      | (None, w2) \<Rightarrow> (if ro_execCommand opts \<noteq> [] then snd (runExecCommand io opts pm w2) else w2)))"

definition on_event ::
  "client_env \<Rightarrow> client_io \<Rightarrow> replayDataOpts \<Rightarrow> string \<Rightarrow> string option \<Rightarrow> time \<Rightarrow> sse_event \<Rightarrow> client_world \<Rightarrow> client_world" where
  "on_event E io opts channel privateKey now msg w =
     (case handle_message E opts channel privateKey now msg of None \<Rightarrow> w | Some pm \<Rightarrow> process_message E io opts pm w)"

section \<open>Versions\<close>

text \<open>\<open>strconv.Atoi\<close> of a run of digits; an overflow counts as 0, as every other error.\<close>

definition version_part :: "string \<Rightarrow> int" where
  "version_part part = ok_or 0 (ParseInt (takeWhile is_digit part))"

definition parseVersion :: "string \<Rightarrow> int list" where
  "parseVersion version =
     (let result = map version_part (Split CHR ''.'' (TrimPrefix version ''v''))
      in result @ replicate (3 - length result) 0)"

fun isOlderVersion :: "int list \<Rightarrow> int list \<Rightarrow> bool" where
  "isOlderVersion (a # v1) (b # v2) = (if a < b then True else if a > b then False else isOlderVersion v1 v2)"
| "isOlderVersion v1 v2 = (length v1 < length v2)"

text \<open>How the request for the version ends: it could not be made, or an answer with its status, the version
  header and what the decoder finds in the body.\<close>

datatype version_reply = NoReply | Reply int string "string option"

definition checkServerVersion :: "version_reply \<Rightarrow> string \<Rightarrow> error option" where
  "checkServerVersion reply clientVersion = (case reply of
       NoReply \<Rightarrow> None
     | Reply status header body \<Rightarrow>
     if status = 404 then Some (ErrMsg ''The server appears to be too old'')
     else if status \<noteq> 200 then None
     else (case (if header = [] then body else Some header) of
         None \<Rightarrow> None
       | Some serverVersion \<Rightarrow>
         (if serverVersion \<noteq> [] \<and> serverVersion \<noteq> clientVersion \<and> serverVersion \<noteq> ''dev'' \<and> clientVersion \<noteq> ''dev'' \<and>
             isOlderVersion (parseVersion clientVersion) (parseVersion serverVersion)
          then Some (ErrMsg ''Client version is too old'') else None)))"

section \<open>Subscription\<close>

text \<open>\<open>filepath.Base\<close>\<close>

definition path_Base :: "string \<Rightarrow> string" where
  "path_Base p =
     (if p = [] then ''.''
      else (let s = rev (dropWhile (\<lambda>c. c = CHR ''/'') (rev p)) in
        if s = [] then ''/'' else rev (takeWhile (\<lambda>c. c \<noteq> CHR ''/'') (rev s))))"

text \<open>The identifier file of the client, \<open>None\<close> when it cannot be read; the second component is what is
  written to it. \<open>MustGenerateUUID\<close> panics when the random source fails.\<close>

definition getOrCreateClientID :: "string option \<Rightarrow> string option \<Rightarrow> (string \<times> string option) result" where
  "getOrCreateClientID file rnd = (case file of
       Some data \<Rightarrow> Inr (TrimSpace data, None)
     | None \<Rightarrow> bindE (GenerateUUID rnd) (\<lambda>i. Inr (i, Some i)))"

text \<open>\<open>setQuery u ps\<close> is what parsing the URL, setting the query parameters and printing it gives; \<open>newID\<close> is
  the result of \<open>getOrCreateClientID\<close>, \<open>readFile\<close> the content of the key file.\<close>

definition prepareSubscription ::
  "(string \<Rightarrow> (string \<times> string) list \<Rightarrow> string result) \<Rightarrow> string result \<Rightarrow> (string \<Rightarrow> string result) \<Rightarrow>
     string \<Rightarrow> string \<Rightarrow> bool \<Rightarrow> string \<Rightarrow> string \<Rightarrow> (string \<times> string \<times> string option) result" where
  "prepareSubscription setQuery newID readFile smeeURL encryptionKeyFile resume clientID token =
     (let channel = path_Base smeeURL; baseURL = TrimSuffix smeeURL (''/'' @ channel) in
      if HasPrefix smeeURL ''https://smee.io'' then
        (if encryptionKeyFile \<noteq> [] then Inl (ErrMsg ''client key files are only supported with gohookbridge server URLs'')
         else Inr (''messages'', smeeURL, None))
      else
        bindE (if resume \<or> token \<noteq> [] then
                 bindE (if resume then bindE (if clientID = [] then newID else Inr clientID) (\<lambda>i. Inr [(''client_id'', i)]) else Inr [])
                   (\<lambda>ps. setQuery (baseURL @ ''/events/'' @ channel) (ps @ (if token \<noteq> [] then [(''token'', token)] else [])))
               else Inr (baseURL @ ''/events/'' @ channel)) (\<lambda>sseURL.
        if encryptionKeyFile = [] then Inr (channel, sseURL, None)
        else bindE (bindE (readFile encryptionKeyFile) loadKeyPair) (\<lambda>(pub, priv).
             bindE (setQuery sseURL [(''pubkey'', EncodePublicKey pub)]) (\<lambda>u. Inr (channel, u, Some priv)))))"

text \<open>The addresses of \<open>clientAction\<close> (\<open>internal/client/command.go\<close>): from the environment, or from the
  arguments; with a command and one argument nothing is forwarded.\<close>

definition client_urls :: "string \<Rightarrow> string \<Rightarrow> string \<Rightarrow> bool \<Rightarrow> string list \<Rightarrow> (string \<times> string \<times> bool) result" where
  "client_urls envURL envTarget exec noReplay args =
     (if envURL \<noteq> [] \<and> envTarget \<noteq> [] then Inr (envURL, envTarget, noReplay)
      else if exec \<noteq> [] \<and> length args = 1 then Inr (args ! 0, [], True)
      else if length args \<noteq> 2 then Inl (ErrMsg ''need at least a smeeURL and a targetURL as arguments'')
      else Inr (args ! 0, args ! 1, noReplay))"

end
