(* ===== verification/ClientRelay.thy ===== *)
theory ClientRelay
  imports ClientRun "HOL-Library.Multiset"
begin

text \<open>
  From the webhook to the target: what the client reads out of a message the server relayed, and which
  headers a message can make the client send.
\<close>

section \<open>Hypotheses on the packages of the client\<close>

text \<open>\<open>mapstructure\<close> decodes an object into a map with its members; a \<open>range\<close> loop visits every member once;
  title case writes the relayed header names the way \<open>net/http\<close> does.\<close>

definition client_env_ok :: "client_env \<Rightarrow> bool" where
  "client_env_ok E \<longleftrightarrow> (\<forall>fs. ce_decode E (JObj fs) = Inr fs) \<and> (\<forall>fs. mset (ce_order E fs) = mset fs) \<and>
     (\<forall>k \<in> set forwardableHeaderAllowlist. ce_title E k = canonical True k)"

definition demo_client :: client_env where
  "demo_client = \<lparr>ce_C = toy_crypto, ce_title = canonical True,
     ce_decode = (\<lambda>d. case d of JObj fs \<Rightarrow> Inr fs | JNull \<Rightarrow> Inr [] | _ \<Rightarrow> Inl (ErrMsg ''expected a map'')),
     ce_order = rev, ce_curl = [TText ''curl '', THeaders, TTargetURL], ce_httpie = [THeaders]\<rparr>"

lemma demo_client_ok: "client_env_ok demo_client"
  by (simp add: client_env_ok_def demo_client_def)

section \<open>The text of a member\<close>

lemma skip_ws_Marshal: "plain d \<Longrightarrow> skip_ws (json_Marshal d @ r) = json_Marshal d @ r"
  using Marshal_hd [of d] by (auto simp: skip_ws_def)

lemma raw_members_Join:
  "(\<And>p. p \<in> set fs \<Longrightarrow> plain (snd p)) \<Longrightarrow> fs \<noteq> [] \<Longrightarrow> sum_list (map (\<lambda>p. Suc (jsz (snd p))) fs) \<le> n \<Longrightarrow>
     raw_members n (Join (map (\<lambda>p. quote (fst p) @ '':'' @ json_Marshal (snd p)) fs) '','' @ CHR ''}'' # r) =
       Some (map (\<lambda>p. (fst p, json_Marshal (snd p), snd p)) fs)"
proof (induction fs arbitrary: n)
  case (Cons p fs)
  obtain k v where p: "p = (k, v)" by (cases p)
  from Cons.prems(3) p obtain n' where n: "n = Suc n'" "jsz v \<le> n'" by (cases n) auto
  have v: "plain v" using Cons.prems(1) [of p] p by simp
  have x: "read_doc n' (json_Marshal v @ r') = Some (v, r')" if "stops r'" for r'
    using reads_plain [OF v] n that by (simp add: reads_def)
  show ?case
  proof (cases fs)
    case Nil
    then show ?thesis using x n p by (simp add: quote_def read_str_quote skip_ws_Marshal [OF v] Let_def)
  next
    case (Cons q qs)
    have "raw_members n' (Join (map (\<lambda>p. quote (fst p) @ '':'' @ json_Marshal (snd p)) fs) '','' @ CHR ''}'' # r) =
        Some (map (\<lambda>p. (fst p, json_Marshal (snd p), snd p)) fs)"
      using Cons.IH Cons.prems Cons n p by simp
    then show ?thesis using x n Cons p by (simp add: quote_def read_str_quote skip_ws_Marshal [OF v] Let_def)
  qed
qed simp

lemma mb_members_other:
  "\<forall>p \<in> set ms. ToLower (fst p) \<noteq> ''body'' \<and> ToLower (fst p) \<noteq> ''bodyb'' \<Longrightarrow> mb_members ms mb = Some mb"
  by (induction ms mb rule: mb_members.induct) auto

lemma mb_members_bodyB:
  assumes "distinct (map fst ms)" "(''bodyB'', raw, JStr b) \<in> set ms"
    and "\<And>k. k \<in> fst ` set ms \<Longrightarrow> k \<noteq> ''bodyB'' \<Longrightarrow> ToLower k \<noteq> ''body'' \<and> ToLower k \<noteq> ''bodyb''"
  shows "\<exists>mb'. mb_members ms mb = Some mb' \<and> mb_BodyB mb' = b"
  using assms
proof (induction ms arbitrary: mb)
  case (Cons m ms)
  obtain k t v where m: "m = (k, t, v)" by (cases m) auto
  have l: "ToLower ''bodyB'' = ''bodyb''" by code_simp
  show ?case
  proof (cases "k = ''bodyB''")
    case True
    then have "v = JStr b" using Cons.prems(1,2) m by (auto simp: image_iff)
    moreover have "\<forall>p \<in> set ms. ToLower (fst p) \<noteq> ''body'' \<and> ToLower (fst p) \<noteq> ''bodyb''"
    proof
      fix p assume p: "p \<in> set ms"
      then have "fst p \<noteq> ''bodyB''" using Cons.prems(1) m True by (auto simp: image_iff)
      then show "ToLower (fst p) \<noteq> ''body'' \<and> ToLower (fst p) \<noteq> ''bodyb''" using Cons.prems(3) [of "fst p"] p by simp
    qed
    ultimately show ?thesis using True m l by (simp add: mb_members_other)
  next
    case False
    then have "ToLower k \<noteq> ''body'' \<and> ToLower k \<noteq> ''bodyb''" using Cons.prems(3) m by auto
    then show ?thesis using Cons m False by simp
  qed
qed simp

lemma decode_messageBody_Marshal:
  assumes "plain (JObj fs)" "(''bodyB'', JStr b) \<in> set fs"
    and "\<And>k. k \<in> fst ` set fs \<Longrightarrow> k \<noteq> ''bodyB'' \<Longrightarrow> ToLower k \<noteq> ''body'' \<and> ToLower k \<noteq> ''bodyb''"
  shows "\<exists>mb. decode_messageBody (json_Marshal (JObj fs)) = Inr mb \<and> mb_BodyB mb = b"
proof -
  define t where "t = Join (map (\<lambda>p. quote (fst p) @ '':'' @ json_Marshal (snd p)) fs) '',''"
  let ?ms = "map (\<lambda>p. (fst p, json_Marshal (snd p), snd p)) fs"
  have m: "json_Marshal (JObj fs) = CHR ''{'' # t @ ''}''" by (simp add: t_def)
  have pl: "plain (snd p)" if "p \<in> set fs" for p using assms(1) that by (auto simp: list_all_iff)
  obtain p ps where fs: "fs = p # ps" using assms(2) by (cases fs) auto
  then obtain s where s: "t = CHR 0x22 # s"
    using Join_hd [of "quote (fst p) @ '':'' @ json_Marshal (snd p)" "map (\<lambda>p. quote (fst p) @ '':'' @ json_Marshal (snd p)) ps" "'',''"]
    by (auto simp: quote_def t_def)
  have "sum_list (map (\<lambda>p. Suc (jsz (snd p))) fs) \<le> 2 * length (json_Marshal (JObj fs)) + 1"
    using jsz_le [OF assms(1)] by (simp add: case_prod_beta)
  then have r: "raw_members (2 * length (json_Marshal (JObj fs)) + 1) (t @ ''}'') = Some ?ms"
    unfolding t_def using pl fs by (intro raw_members_Join) auto
  have "\<exists>mb. mb_members ?ms \<lparr>mb_Body = [], mb_BodyB = []\<rparr> = Some mb \<and> mb_BodyB mb = b"
  proof (rule mb_members_bodyB [where raw = "json_Marshal (JStr b)"])
    show "distinct (map fst ?ms)" using assms(1) by (simp add: comp_def)
    show "(''bodyB'', json_Marshal (JStr b), JStr b) \<in> set ?ms"
      using imageI [OF assms(2), of "\<lambda>p. (fst p, json_Marshal (snd p), snd p)"] by simp
    have "fst ` set ?ms = fst ` set fs" by (simp add: image_comp comp_def)
    then show "\<And>k. k \<in> fst ` set ?ms \<Longrightarrow> k \<noteq> ''bodyB'' \<Longrightarrow> ToLower k \<noteq> ''body'' \<and> ToLower k \<noteq> ''bodyb''"
      using assms(3) by simp
  qed
  then obtain mb where mb: "mb_members ?ms \<lparr>mb_Body = [], mb_BodyB = []\<rparr> = Some mb" "mb_BodyB mb = b" by blast
  have "skip_ws (CHR ''{'' # t @ ''}'') = CHR ''{'' # t @ ''}''" by (simp add: skip_ws_def json_ws_def)
  then have "decode_messageBody (json_Marshal (JObj fs)) = Inr mb"
    using r mb(1) unfolding decode_messageBody_def m Let_def by (simp add: s del: raw_members.simps)
  then show ?thesis using mb(2) by blast
qed

section \<open>Reading a relayed message\<close>

text \<open>The loop of \<open>parse\<close>, entry by entry.\<close>

lemma parse_entry_header:
  assumes "k \<in> set forwardableHeaderAllowlist" "ce_title E k = canonical True k"
    and "k = ''content-type'' \<Longrightarrow> kv_get (pm_headers pm) ''Content-Type'' = None"
  shows "\<exists>pm'. parse_entry E data (k, JStr v) (pm, dt) = Inr (pm', dt) \<and>
     pm_headers pm' = kv_put (canonical True k) v (pm_headers pm) \<and> pm_body pm' = pm_body pm \<and>
     pm_eventType pm' = (if k \<in> {''x-github-event'', ''x-gitlab-event'', ''x-event-key''} then event_type v else pm_eventType pm)"
proof -
  have c: "canonical True ''content-type'' = ''Content-Type''" by code_simp
  have f: "forwardableHeader k" if "k \<in> set forwardableHeaderAllowlist" for k
  proof -
    have "list_all (\<lambda>k. ToLowerU k = k) forwardableHeaderAllowlist" by code_simp
    then show ?thesis using that by (simp add: forwardableHeader_def list_all_iff)
  qed
  have b: "k \<noteq> ''bodyB'' \<and> k \<noteq> ''body'' \<and> k \<noteq> ''timestamp''" using assms(1) by (auto simp: forwardableHeaderAllowlist_def)
  show ?thesis
  proof (cases "k \<in> {''x-github-event'', ''x-gitlab-event'', ''x-event-key''}")
    case True
    then show ?thesis using assms(2) by (simp add: parse_entry_def)
  next
    case ev: False
    show ?thesis
    proof (cases "k = ''x-github-delivery'' \<or> k = ''content-type''")
      case True
      then show ?thesis using assms(2,3) c by (elim disjE) (simp_all add: parse_entry_def)
    next
      case False
      then show ?thesis using assms(2) b ev f [OF assms(1)] by (simp add: parse_entry_def)
    qed
  qed
qed

lemma canonical_inj: "inj_on (canonical True) (set forwardableHeaderAllowlist)"
proof -
  have "distinct (map (canonical True) forwardableHeaderAllowlist)" by code_simp
  then show ?thesis by (simp add: distinct_map)
qed

text \<open>A payload as the server builds it: relayed headers, the encoded body and the two fields of the server,
  in any order.\<close>

definition relayed :: "fields \<Rightarrow> bool" where
  "relayed fs \<longleftrightarrow> distinct (map fst fs) \<and>
     (\<forall>(k, v) \<in> set fs. k \<in> set forwardableHeaderAllowlist \<union> {''event_id'', ''bodyB'', ''timestamp''} \<and> (\<exists>x. v = JStr x))"

definition event_types :: "fields \<Rightarrow> string set" where
  "event_types fs = {event_type x |k x. (k, JStr x) \<in> set fs \<and> k \<in> {''x-github-event'', ''x-gitlab-event'', ''x-event-key''}}"

lemma relayed_Cons: "relayed (p # fs) \<Longrightarrow> relayed fs"
  by (simp add: relayed_def)

lemma relayed_keys:
  assumes "relayed fs" "k \<in> fst ` set fs"
  shows "k \<in> set forwardableHeaderAllowlist \<or> k = ''event_id'' \<or> k = ''bodyB'' \<or> k = ''timestamp''"
proof -
  obtain v where "(k, v) \<in> set fs" using assms(2) by auto
  then have "k \<in> set forwardableHeaderAllowlist \<union> {''event_id'', ''bodyB'', ''timestamp''}"
    using assms(1) unfolding relayed_def by blast
  then show ?thesis by (simp add: disj_commute disj_left_commute)
qed

lemma parse_entry_server:
  assumes "decode_messageBody data = Inr mb" "base64_Std_Decode (mb_BodyB mb) = Some body"
    and "k \<in> {''event_id'', ''bodyB'', ''timestamp''}"
  shows "\<exists>dt'. parse_entry E data (k, JStr x) (pm, dt) = Inr (if k = ''bodyB'' then pm\<lparr>pm_body := body\<rparr> else pm, dt')"
proof -
  have "\<not> forwardableHeader ''event_id''" by code_simp
  then show ?thesis
    using assms(3) by (elim insertE emptyE) (simp_all add: parse_entry_def assms(1,2) split: sum.split)
qed

lemma parse_entries_relayed:
  assumes "relayed fs" "\<forall>k \<in> set forwardableHeaderAllowlist. ce_title E k = canonical True k"
    and "decode_messageBody data = Inr mb" "base64_Std_Decode (mb_BodyB mb) = Some body"
    and "''content-type'' \<in> fst ` set fs \<Longrightarrow> kv_get (pm_headers pm) ''Content-Type'' = None" "kv_wf (pm_headers pm)"
  shows "\<exists>pm' dt'. parse_entries E data fs (pm, dt) = Inr (pm', dt') \<and> kv_wf (pm_headers pm') \<and>
     pm_body pm' = (if ''bodyB'' \<in> fst ` set fs then body else pm_body pm) \<and>
     pm_eventType pm' \<in> insert (pm_eventType pm) (event_types fs) \<and>
     (\<forall>k x. (k, JStr x) \<in> set fs \<longrightarrow> k \<in> set forwardableHeaderAllowlist \<longrightarrow> kv_get (pm_headers pm') (canonical True k) = Some x) \<and>
     (\<forall>h. h \<notin> canonical True ` (set forwardableHeaderAllowlist \<inter> fst ` set fs) \<longrightarrow> kv_get (pm_headers pm') h = kv_get (pm_headers pm) h)"
  using assms(1,5,6)
proof (induction fs arbitrary: pm dt)
  case (Cons p fs)
  let ?AL = "set forwardableHeaderAllowlist"
  obtain k x where p: "p = (k, JStr x)" using Cons.prems(1) by (cases p) (auto simp: relayed_def)
  have rel: "relayed fs" using Cons.prems(1) relayed_Cons by blast
  have new: "k \<notin> fst ` set fs" using Cons.prems(1) p by (simp add: relayed_def)
  have c: "canonical True ''content-type'' = ''Content-Type''" "''content-type'' \<in> ?AL"
    by code_simp (simp add: forwardableHeaderAllowlist_def)
  show ?case
  proof (cases "k \<in> ?AL")
    case True
    have "k = ''content-type'' \<Longrightarrow> kv_get (pm_headers pm) ''Content-Type'' = None" using Cons.prems(2) p by auto
    then obtain pm1 where e: "parse_entry E data (k, JStr x) (pm, dt) = Inr (pm1, dt)"
      "pm_headers pm1 = kv_put (canonical True k) x (pm_headers pm)" "pm_body pm1 = pm_body pm"
      "pm_eventType pm1 = (if k \<in> {''x-github-event'', ''x-gitlab-event'', ''x-event-key''} then event_type x else pm_eventType pm)"
      using parse_entry_header [OF True, of E pm data x dt] assms(2) True by blast
    have other: "canonical True k \<noteq> canonical True k'" if "k' \<in> ?AL" "k' \<in> fst ` set fs" for k'
      using canonical_inj True that new by (auto dest: inj_onD)
    have "''content-type'' \<in> fst ` set fs \<Longrightarrow> kv_get (pm_headers pm1) ''Content-Type'' = None"
      using Cons.prems(2) e(2) other [OF c(2)] c(1) by (simp add: kv_get_put)
    moreover have "kv_wf (pm_headers pm1)" using Cons.prems(3) e(2) by (simp add: kv_wf_put)
    ultimately obtain pm' dt' where r: "parse_entries E data fs (pm1, dt) = Inr (pm', dt')" "kv_wf (pm_headers pm')"
      "pm_body pm' = (if ''bodyB'' \<in> fst ` set fs then body else pm_body pm1)"
      "pm_eventType pm' \<in> insert (pm_eventType pm1) (event_types fs)"
      "\<And>k x. (k, JStr x) \<in> set fs \<Longrightarrow> k \<in> ?AL \<Longrightarrow> kv_get (pm_headers pm') (canonical True k) = Some x"
      "\<And>h. h \<notin> canonical True ` (?AL \<inter> fst ` set fs) \<Longrightarrow> kv_get (pm_headers pm') h = kv_get (pm_headers pm1) h"
      using Cons.IH [OF rel, of pm1 dt] by blast
    have "kv_get (pm_headers pm') (canonical True k) = Some x"
      using r(6) [of "canonical True k"] other e(2) by (auto simp: kv_get_put)
    moreover have "k \<noteq> ''bodyB''" using True by (auto simp: forwardableHeaderAllowlist_def)
    moreover have "insert (pm_eventType pm1) (event_types fs) \<subseteq> insert (pm_eventType pm) (event_types (p # fs))"
      using e(4) p by (auto simp: event_types_def)
    ultimately show ?thesis using p e r True by (auto simp: kv_get_put)
  next
    case False
    then have "k \<in> {''event_id'', ''bodyB'', ''timestamp''}" using Cons.prems(1) p by (auto simp: relayed_def)
    then obtain dt1 where e: "parse_entry E data (k, JStr x) (pm, dt) = Inr (if k = ''bodyB'' then pm\<lparr>pm_body := body\<rparr> else pm, dt1)"
      using parse_entry_server [OF assms(3,4)] by blast
    let ?pm1 = "if k = ''bodyB'' then pm\<lparr>pm_body := body\<rparr> else pm"
    have h: "pm_headers ?pm1 = pm_headers pm" "pm_eventType ?pm1 = pm_eventType pm" by simp_all
    obtain pm' dt' where r: "parse_entries E data fs (?pm1, dt1) = Inr (pm', dt')" "kv_wf (pm_headers pm')"
      "pm_body pm' = (if ''bodyB'' \<in> fst ` set fs then body else pm_body ?pm1)"
      "pm_eventType pm' \<in> insert (pm_eventType pm) (event_types fs)"
      "\<And>k x. (k, JStr x) \<in> set fs \<Longrightarrow> k \<in> ?AL \<Longrightarrow> kv_get (pm_headers pm') (canonical True k) = Some x"
      "\<And>h. h \<notin> canonical True ` (?AL \<inter> fst ` set fs) \<Longrightarrow> kv_get (pm_headers pm') h = kv_get (pm_headers pm) h"
      using Cons.IH [OF rel, of ?pm1 dt1] Cons.prems(2,3) unfolding h by auto
    moreover have "event_types fs \<subseteq> event_types (p # fs)" by (auto simp: event_types_def)
    moreover have "?AL \<inter> fst ` set (p # fs) = ?AL \<inter> fst ` set fs" using p False by auto
    ultimately show ?thesis using p e False by auto
  qed
qed simp

lemma allowlists_agree: "forwardableHeaderAllowlist = forwardedHeaderAllowlist"
  by (simp add: forwardableHeaderAllowlist_def forwardedHeaderAllowlist_def)

lemma kv_get_mem: "kv_wf m \<Longrightarrow> kv_get m k = Some v \<longleftrightarrow> (k, v) \<in> set m"
  by (simp add: kv_get_def map_of_eq_Some_iff kv_wf_distinct)

lemma relay_headers_has:
  assumes "\<And>h x. (h, x) \<in> set hs \<Longrightarrow> forwardedHeader h \<Longrightarrow> ToLower h = k \<Longrightarrow> fst x = v"
    and "kv_get p k = Some (JStr v) \<or> (\<exists>h x. (h, x) \<in> set hs \<and> forwardedHeader h \<and> ToLower h = k)"
  shows "kv_get (relay_headers hs p) k = Some (JStr v)"
  using assms
proof (induction hs p rule: relay_headers.induct)
  case (2 h x hs p)
  have i: "\<And>h x. (h, x) \<in> set hs \<Longrightarrow> forwardedHeader h \<Longrightarrow> ToLower h = k \<Longrightarrow> fst x = v"
    by (rule "2.prems"(1) [OF list.set_intros(2)])
  show ?case
  proof (cases "forwardedHeader h")
    case True
    have "kv_get (kv_put (ToLower h) (JStr (fst x)) p) k = Some (JStr v) \<or> (\<exists>h x. (h, x) \<in> set hs \<and> forwardedHeader h \<and> ToLower h = k)"
      using "2.prems"(1) [of h x] "2.prems"(2) True by (auto simp: kv_get_put)
    then show ?thesis using "2.IH"(1) [OF True i] True by simp
  next
    case False
    then have "kv_get p k = Some (JStr v) \<or> (\<exists>h x. (h, x) \<in> set hs \<and> forwardedHeader h \<and> ToLower h = k)"
      using "2.prems"(2) by auto
    then show ?thesis using "2.IH"(2) [OF False i] False by simp
  qed
qed simp

text \<open>The members of the relayed message.\<close>

definition relay_fields :: "env \<Rightarrow> web_request \<Rightarrow> string \<Rightarrow> string \<Rightarrow> fields" where
  "relay_fields E r payload eventID = (case relay_payload E r payload eventID of JObj fs \<Rightarrow> fs | _ \<Rightarrow> [])"

lemma relay_fields_obj: "relay_payload E r payload eventID = JObj (relay_fields E r payload eventID)"
  by (simp add: relay_fields_def relay_payload_def)

lemma relay_fields_wf: "kv_wf (relay_fields E r payload eventID)"
  by (simp add: relay_fields_def relay_payload_def kv_wf_put relay_headers_wf)

lemma relay_fields_get:
  "kv_get (relay_fields E r payload eventID) k =
     (if k = ''event_id'' then Some (JStr eventID) else if k = ''bodyB'' then Some (JStr (base64_Std_Encode payload))
      else if k = ''timestamp'' then Some (JStr (Itoa (time_UnixMilli (en_now E)))) else kv_get (relay_headers (wr_Header r) []) k)"
  by (simp add: relay_fields_def relay_payload_def kv_get_put)

lemma relay_fields_relayed: "relayed (relay_fields E r payload eventID)"
proof -
  have "k \<in> set forwardableHeaderAllowlist \<union> {''event_id'', ''bodyB'', ''timestamp''} \<and> (\<exists>x. v = JStr x)"
    if "(k, v) \<in> set (relay_fields E r payload eventID)" for k v
    using that relay_headers_get [of "wr_Header r" "[]" k v]
    unfolding kv_get_mem [OF relay_fields_wf, symmetric] relay_fields_get allowlists_agree by (auto split: if_split_asm)
  then show ?thesis using kv_wf_distinct [OF relay_fields_wf] by (auto simp: relayed_def)
qed

lemma relay_decode:
  "\<exists>mb. decode_messageBody (json_Marshal (relay_payload E r payload eventID)) = Inr mb \<and>
     base64_Std_Decode (mb_BodyB mb) = Some payload"
proof -
  let ?fs = "relay_fields E r payload eventID"
  have l: "list_all (\<lambda>k. ToLower k \<noteq> ''body'' \<and> ToLower k \<noteq> ''bodyb'') (''event_id'' # ''timestamp'' # forwardableHeaderAllowlist)"
    by code_simp
  have "\<exists>mb. decode_messageBody (json_Marshal (JObj ?fs)) = Inr mb \<and> mb_BodyB mb = base64_Std_Encode payload"
  proof (rule decode_messageBody_Marshal)
    show "plain (JObj ?fs)" using relay_payload_plain [of E r payload eventID] by (simp only: relay_fields_obj)
    show "(''bodyB'', JStr (base64_Std_Encode payload)) \<in> set ?fs"
      unfolding kv_get_mem [OF relay_fields_wf, symmetric] relay_fields_get by simp
    show "ToLower k \<noteq> ''body'' \<and> ToLower k \<noteq> ''bodyb''" if "k \<in> fst ` set ?fs" "k \<noteq> ''bodyB''" for k
    proof -
      have "k \<in> set (''event_id'' # ''timestamp'' # forwardableHeaderAllowlist)"
        using relayed_keys [OF relay_fields_relayed that(1)] that(2) by (elim disjE) simp_all
      then show ?thesis using l unfolding list_all_iff by blast
    qed
  qed
  then show ?thesis by (auto simp: relay_fields_obj Std_roundtrip)
qed

lemma order_relayed: "mset gs = mset fs \<Longrightarrow> relayed fs \<Longrightarrow> relayed gs \<and> set gs = set fs"
proof -
  assume m: "mset gs = mset fs" and r: "relayed fs"
  have "set gs = set fs" using m by (rule mset_eq_setD)
  moreover have "mset (map fst gs) = mset (map fst fs)" using m by simp
  then have "distinct (map fst gs) = distinct (map fst fs)" by (rule mset_eq_imp_distinct_iff)
  ultimately show ?thesis using r unfolding relayed_def by simp
qed

text \<open>Whatever the order of the loop, the client reads the payload and the relayed headers.\<close>

lemma parse_relayed:
  fixes E :: env and r :: web_request and payload eventID :: string
  defines "fs \<equiv> relay_fields E r payload eventID"
  assumes "client_env_ok E'" "payload \<noteq> []"
  shows "\<exists>pm. parse E' opts now (json_Marshal (relay_payload E r payload eventID)) = Inr pm \<and> pm_body pm = payload \<and>
     kv_wf (pm_headers pm) \<and> pm_eventType pm \<in> insert [] (event_types fs) \<and>
     (\<forall>k x. kv_get fs k = Some (JStr x) \<longrightarrow> k \<in> set forwardableHeaderAllowlist \<longrightarrow> kv_get (pm_headers pm) (canonical True k) = Some x) \<and>
     (\<forall>h \<in> fst ` set (pm_headers pm). h \<in> canonical True ` set forwardableHeaderAllowlist)"
proof -
  let ?AL = "set forwardableHeaderAllowlist" and ?data = "json_Marshal (relay_payload E r payload eventID)"
  have d: "json_Unmarshal ?data = JObj fs" using json_roundtrip [OF relay_payload_plain] by (simp add: fs_def relay_fields_obj)
  obtain mb where mb: "decode_messageBody ?data = Inr mb" "base64_Std_Decode (mb_BodyB mb) = Some payload" using relay_decode by blast
  have wf: "kv_wf fs" and rel: "relayed fs" unfolding fs_def by (rule relay_fields_wf relay_fields_relayed)+
  have E: "ce_decode E' (JObj fs) = Inr fs" "mset (ce_order E' fs) = mset fs" "\<forall>k \<in> ?AL. ce_title E' k = canonical True k"
    using assms(2) by (simp_all add: client_env_ok_def)
  have rel': "relayed (ce_order E' fs)" and set': "set (ce_order E' fs) = set fs" using order_relayed [OF E(2) rel] by simp_all
  obtain pm dt where p: "parse_entries E' ?data (ce_order E' fs) (zero_pm, now) = Inr (pm, dt)" "kv_wf (pm_headers pm)"
    "pm_body pm = (if ''bodyB'' \<in> fst ` set fs then payload else pm_body zero_pm)"
    "pm_eventType pm \<in> insert (pm_eventType zero_pm) (event_types (ce_order E' fs))"
    "\<And>k x. (k, JStr x) \<in> set fs \<Longrightarrow> k \<in> ?AL \<Longrightarrow> kv_get (pm_headers pm) (canonical True k) = Some x"
    "\<And>h. h \<notin> canonical True ` (?AL \<inter> fst ` set fs) \<Longrightarrow> kv_get (pm_headers pm) h = kv_get (pm_headers zero_pm) h"
    using parse_entries_relayed [OF rel' E(3) mb, of zero_pm now] unfolding set' by (auto simp: zero_pm_def)
  have b: "''bodyB'' \<in> fst ` set fs"
  proof -
    have "kv_get fs ''bodyB'' = Some (JStr (base64_Std_Encode payload))" unfolding fs_def relay_fields_get by simp
    then show ?thesis unfolding kv_get_mem [OF wf] by (rule rev_image_eqI) simp
  qed
  have k: "h \<in> canonical True ` ?AL" if "h \<in> fst ` set (pm_headers pm)" for h
  proof (rule ccontr)
    assume "h \<notin> canonical True ` ?AL"
    then have "h \<notin> canonical True ` (?AL \<inter> fst ` set fs)" by blast
    then have "kv_get (pm_headers pm) h = None" using p(6) by (simp add: zero_pm_def)
    then show False using that kv_mem_keys [of h "pm_headers pm"] by (simp add: kv_keys_def)
  qed
  have ct: "h \<in> canonical True ` ?AL" if "h = ''Content-Type''" for h
  proof -
    have "canonical True ''content-type'' = ''Content-Type''" by code_simp
    moreover have "''content-type'' \<in> ?AL" by (simp add: forwardableHeaderAllowlist_def)
    ultimately show ?thesis using that by (metis image_eqI)
  qed
  define pm2 where "pm2 = stamp pm dt"
  have f: "pm_body pm2 = payload" "pm_eventType pm2 = pm_eventType pm" "pm_headers pm \<noteq> [] \<Longrightarrow> pm_headers pm2 = pm_headers pm"
    "pm_headers pm = [] \<Longrightarrow> pm_headers pm2 = [] \<or> pm_headers pm2 = [(''Content-Type'', pm_contentType pm)]"
    using p(3) b by (simp_all add: pm2_def stamp_def)
  have "parse E' opts now ?data = Inr pm2"
    using assms(3) f(1) unfolding parse_def d by (simp add: E(1) p(1) pm2_def Let_def)
  moreover have "pm_eventType pm2 \<in> insert [] (event_types fs)" using p(4) f(2) set' by (simp add: event_types_def zero_pm_def)
  moreover have "kv_wf (pm_headers pm2)" using p(2) f(3,4) by (cases "pm_headers pm = []") (auto simp: kv_wf_def)
  moreover have "kv_get (pm_headers pm2) (canonical True k) = Some x" if "kv_get fs k = Some (JStr x)" "k \<in> ?AL" for k x
    using p(5) [of k x] that kv_get_mem [OF wf] f(3) by fastforce
  moreover have "\<forall>h \<in> fst ` set (pm_headers pm2). h \<in> canonical True ` ?AL"
    using k ct f(3,4) by (cases "pm_headers pm = []") auto
  ultimately show ?thesis using f(1) by blast
qed

section \<open>Letter case\<close>

lemma lower_char_cases:
  obtains "lower_char c = c" "\<not> (CHR ''A'' \<le> c \<and> c \<le> CHR ''Z'')"
  | n where "of_char c = (n :: nat)" "of_char (lower_char c) = n + 32" "65 \<le> n" "n \<le> 90"
proof (cases "CHR ''A'' \<le> c \<and> c \<le> CHR ''Z''")
  case True
  then have "65 \<le> (of_char c :: nat)" "of_char c \<le> (90 :: nat)" by (simp_all add: less_eq_char_def)
  moreover from this have "of_char (lower_char c) = (of_char c + 32 :: nat)" using True by (simp add: lower_char_def)
  ultimately show ?thesis using that(2) by blast
qed (use that in \<open>simp add: lower_char_def\<close>)

lemma char_case: "upper_char (lower_char c) = upper_char c" "lower_char (lower_char c) = lower_char c"
  "lower_char c = CHR ''-'' \<longleftrightarrow> c = CHR ''-''"
proof -
  have "upper_char (lower_char c) = upper_char c \<and> lower_char (lower_char c) = lower_char c \<and> (lower_char c = CHR ''-'' \<longleftrightarrow> c = CHR ''-'')"
  proof (cases c rule: lower_char_cases)
    case (2 n)
    have d: "x = CHR ''-'' \<longleftrightarrow> of_char x = (45 :: nat)" for x
    proof -
      have "x = CHR ''-'' \<longleftrightarrow> of_char x = (of_char (CHR ''-'') :: nat)" by (simp only: of_char_eq_iff)
      then show ?thesis by simp
    qed
    have "upper_char (lower_char c) = char_of n" "upper_char c = c" "lower_char (lower_char c) = lower_char c"
      using 2 by (simp_all add: upper_char_def lower_char_def [of "lower_char c"] less_eq_char_def)
    moreover have "c = char_of n" using 2(1) by (metis char_of_char)
    ultimately show ?thesis using 2 by (simp add: d)
  qed simp
  then show "upper_char (lower_char c) = upper_char c" "lower_char (lower_char c) = lower_char c"
    "lower_char c = CHR ''-'' \<longleftrightarrow> c = CHR ''-''" by simp_all
qed

lemma lower_upper: "lower_char (upper_char c) = lower_char c"
proof (cases "CHR ''a'' \<le> c \<and> c \<le> CHR ''z''")
  case True
  then have n: "97 \<le> (of_char c :: nat)" "of_char c \<le> (122 :: nat)" by (simp_all add: less_eq_char_def)
  then have u: "of_char (upper_char c) = (of_char c - 32 :: nat)" using True by (simp add: upper_char_def)
  have "65 \<le> of_char c - (32 :: nat)" "of_char c - (32 :: nat) \<le> 90" using n by auto
  then have "lower_char (upper_char c) = char_of (of_char c :: nat)" using n u by (simp add: lower_char_def less_eq_char_def)
  moreover have "lower_char c = c" using n by (simp add: lower_char_def less_eq_char_def)
  ultimately show ?thesis by simp
qed (auto simp: upper_char_def)

lemma canonical_ToLower: "canonical up (ToLower s) = canonical up s"
  by (induction s arbitrary: up) (simp_all add: ToLower_def char_case)

lemma ToLower_canonical: "ToLower (canonical up s) = ToLower s"
  by (induction s arbitrary: up) (simp_all add: ToLower_def char_case lower_upper)

lemma canonical_idem: "canonical up (canonical up s) = canonical up s"
  by (metis canonical_ToLower ToLower_canonical)

section \<open>The request to the target\<close>

lemma header_Add_fold:
  "distinct (map fst hs) \<Longrightarrow> \<forall>k \<in> fst ` set hs. CanonicalHeaderKey k = k \<Longrightarrow>
     kv_get (fold (\<lambda>(k, v) h. header_Add k v h) hs h0) k =
       (case map_of hs k of None \<Rightarrow> kv_get h0 k | Some v \<Rightarrow> Some ((case kv_get h0 k of None \<Rightarrow> [] | Some vs \<Rightarrow> vs) @ [v]))"
proof (induction hs arbitrary: h0)
  case (Cons p hs)
  obtain a v where p: "p = (a, v)" by (cases p)
  have "CanonicalHeaderKey a = a" "map_of hs a = None" using Cons.prems p by (auto simp: map_of_eq_None_iff)
  then show ?case using Cons p by (cases "k = a"; cases "map_of hs k") (simp_all add: header_Add_def kv_get_put)
qed simp

lemma canonical_fixed: "h \<in> canonical True ` A \<Longrightarrow> CanonicalHeaderKey h = h"
  by (auto simp: CanonicalHeaderKey_def canonical_idem)

lemma replay_request_header:
  assumes "kv_wf (pm_headers pm)" "\<forall>h \<in> fst ` set (pm_headers pm). h \<in> canonical True ` set forwardableHeaderAllowlist"
    and "kv_get (pm_headers pm) h = Some x"
  shows "kv_get (or_Header (replay_request opts pm)) h = Some [x]"
proof -
  have d: "distinct (map fst (pm_headers pm))" by (rule kv_wf_distinct [OF assms(1)])
  have "\<forall>k \<in> fst ` set (pm_headers pm). CanonicalHeaderKey k = k" using assms(2) canonical_fixed by blast
  then have "kv_get (fold (\<lambda>(k, v) h. header_Add k v h) (pm_headers pm) []) h = Some [x]"
    using header_Add_fold [OF d] assms(3) by (simp add: kv_get_def)
  moreover have "CanonicalHeaderKey ''Content-Type'' = ''Content-Type''" by code_simp
  ultimately show ?thesis
    using assms(3) by (auto simp: replay_request_def Let_def header_Add_def kv_get_put)
qed

section \<open>Decryption\<close>

lemma aes_shape:
  assumes "AESEncryptWithContext C (Some n) p key aad = Inr e"
  shows "IsAESEncrypted e" "\<not> IsEncrypted e" "key \<noteq> []" "\<exists>k. base64_Std_Decode key = Some k \<and> length k = 32"
proof -
  obtain k where k: "base64_Std_Decode key = Some k" "length k = 32"
    using assms by (auto simp: AESEncryptWithContext_def bindE_Inr_iff of_option_def split: option.split_asm if_split_asm)
  then have e: "e = json_Marshal (marshal_aes_payload \<lparr>ap_Encrypted = True, ap_Version = 1, ap_Algorithm = ''AES-256-GCM'',
         ap_Nonce = base64_Std_Encode n, ap_Ciphertext = base64_Std_Encode (gcm_Seal C k n p aad)\<rparr>)"
    using assms by (simp add: AESEncryptWithContext_def)
  show "IsAESEncrypted e" "\<not> IsEncrypted e"
    unfolding e IsAESEncrypted_def IsEncrypted_def json_roundtrip [OF plain_aes_payload]
    by (simp_all add: marshal_aes_payload_def json_simps jfield_none)
  have "base64_Std_Decode [] = Some []" by (simp add: base64_Std_Decode_def unpad4_def strip_newlines_def b64_dec_def)
  then show "key \<noteq> []" "\<exists>k. base64_Std_Decode key = Some k \<and> length k = 32" using k by auto
qed

lemma box_shape:
  assumes "box_correct C" "length sk = 32" "length esk = 32" "length n = 24"
    and "EncryptWithContext C (Some esk) (Some n) p (box_Public C sk) ctx = Inr e"
  shows "IsEncrypted e"
proof -
  obtain env ct where e: "e = json_Marshal (marshal_envelope env)" and env:
    "env = \<lparr>en_Encrypted = True, en_Version = 2, en_Ephemeral = base64_Std_Encode (box_Public C esk),
       en_Nonce = base64_Std_Encode n, en_Ciphertext = base64_Std_Encode ct, en_Ctx = base64_Std_Encode ctx\<rparr>"
    and k: "length (box_Public C esk) = 32" "ct \<noteq> []"
    using seal_parse [OF assms(1-4), of 2 p ctx] assms(5) by (auto simp: EncryptWithContext_def encryptedEnvelopeVersionV2_def)
  have "box_Public C esk \<noteq> []" "n \<noteq> []" using k(1) assms(4) by auto
  then show ?thesis
    unfolding e IsEncrypted_def json_roundtrip [OF plain_envelope] using k(2)
    by (simp add: env marshal_envelope_def json_simps Std_Encode_empty)
qed

lemma IsEncrypted_Nil: "\<not> IsEncrypted []" "\<not> IsAESEncrypted []"
  by code_simp+

text \<open>The client holds the key for which the server encrypts the channel, and the random source of the server
  delivers the bytes the primitives ask for.\<close>

definition holds_key :: "client_env \<Rightarrow> replayDataOpts \<Rightarrow> string option \<Rightarrow> channel \<Rightarrow> bool" where
  "holds_key E opts privateKey ch \<longleftrightarrow>
     (ch_EncryptionMode (MigrateChannel ch) = ''server_side'' \<longrightarrow> ro_encryptionKey opts = ch_EncryptionKey ch) \<and>
     (ch_EncryptionMode (MigrateChannel ch) = ''e2e'' \<longrightarrow> (\<exists>sk. privateKey = Some sk \<and> length sk = 32 \<and>
        ch_EncryptionPublicKey ch = EncodePublicKey (box_Public (ce_C E) sk)))"

definition random_ok :: "string option \<Rightarrow> string option \<Rightarrow> channel \<Rightarrow> bool" where
  "random_ok r1 r2 ch \<longleftrightarrow>
     (ch_EncryptionMode (MigrateChannel ch) = ''server_side'' \<longrightarrow> (\<exists>n. r1 = Some n \<and> length n = 12)) \<and>
     (ch_EncryptionMode (MigrateChannel ch) = ''e2e'' \<longrightarrow> (\<exists>k n. r1 = Some k \<and> r2 = Some n \<and> length k = 32 \<and> length n = 24))"

lemma open_encrypted:
  assumes "GetChannel C rs i = Inr ch" "GetGlobalConfig C rs = Inr g" "EncryptForChannel C r1 r2 rs i body = Inr payload"
    and "holds_key E' opts pk ch" "random_ok r1 r2 ch" "ce_C E' = C" "aead_correct C" "box_correct C"
    and "body \<noteq> []" "\<not> IsEncrypted body" "\<not> IsAESEncrypted body"
  shows "open_body E' opts i pk payload = Inr body" "payload \<noteq> []"
proof -
  note enc = assms(3) [unfolded EncryptForChannel_stored [OF assms(1,2)] Let_def]
  let ?mode = "ch_EncryptionMode (MigrateChannel ch)"
  have "open_body E' opts i pk payload = Inr body \<and> payload \<noteq> []"
  proof (cases "?mode = ''server_side''")
    case True
    obtain n where n: "r1 = Some n" "length n = 12" using assms(5) True by (auto simp: random_ok_def)
    have e: "AESEncryptWithContext C (Some n) body (ch_EncryptionKey ch) (ChannelContext i) = Inr payload"
      using enc True n by (simp split: if_split_asm)
    obtain k where k: "base64_Std_Decode (ch_EncryptionKey ch) = Some k" "length k = 32" using aes_shape(4) [OF e] by blast
    have "AESDecryptWithContext C payload (ch_EncryptionKey ch) (ChannelContext i) = Inr body"
      using AESDecrypt_sealed [OF assms(7) k n(2), of body "ChannelContext i"] e by auto
    moreover have "ro_encryptionKey opts = ch_EncryptionKey ch" using assms(4) True by (simp add: holds_key_def)
    ultimately show ?thesis
      using aes_shape [OF e] assms(6) IsEncrypted_Nil by (auto simp: open_body_def open_data_def split: option.split)
  next
    case not_ss: False
    show ?thesis
    proof (cases "?mode = ''e2e''")
      case True
      obtain esk n where r: "r1 = Some esk" "r2 = Some n" "length esk = 32" "length n = 24"
        using assms(5) True by (auto simp: random_ok_def)
      obtain sk where sk: "pk = Some sk" "length sk = 32" "ch_EncryptionPublicKey ch = EncodePublicKey (box_Public C sk)"
        using assms(4,6) True by (auto simp: holds_key_def)
      have "length (box_Public C sk) = 32" using assms(8) sk(2) by (simp add: box_correct_def)
      note pkr = public_key_roundtrip [OF this]
      have e: "EncryptWithContext C (Some esk) (Some n) body (box_Public C sk) (ChannelContext i) = Inr payload"
        using enc True not_ss assms(10) sk r pkr by simp
      have "DecryptWithContext C payload sk (ChannelContext i) = Inr body"
        using Decrypt_sealed [OF assms(8) sk(2) r(3,4), of 2 body "ChannelContext i" payload] e
        by (simp add: EncryptWithContext_def encryptedEnvelopeVersionV2_def)
      moreover have "IsEncrypted payload" by (rule box_shape [OF assms(8) sk(2) r(3,4) e])
      ultimately show ?thesis using sk(1) assms(6) IsEncrypted_Nil by (auto simp: open_body_def)
    next
      case False
      then have "payload = body" using enc not_ss by simp
      then show ?thesis using assms(9-11) by (auto simp: open_body_def open_data_def split: option.split)
    qed
  qed
  then show "open_body E' opts i pk payload = Inr body" "payload \<noteq> []" by simp_all
qed

lemma relayed_not_aes: "open_data E' opts i (json_Marshal (relay_payload E r payload eventID)) = Inr (json_Marshal (relay_payload E r payload eventID))"
proof -
  let ?fs = "relay_fields E r payload eventID"
  have "''encrypted'' \<notin> set forwardableHeaderAllowlist" by code_simp
  then have "''encrypted'' \<notin> fst ` set ?fs" using relayed_keys [OF relay_fields_relayed, of "''encrypted''" E r payload eventID] by auto
  then have "jlookup ?fs ''encrypted'' = None" by (rule jlookup_notin)
  moreover have "json_Unmarshal (json_Marshal (relay_payload E r payload eventID)) = JObj ?fs"
    unfolding json_roundtrip [OF relay_payload_plain] by (rule relay_fields_obj)
  ultimately have "\<not> IsAESEncrypted (json_Marshal (relay_payload E r payload eventID))"
    by (simp add: IsAESEncrypted_def jbool_def jfield_none split: option.split bind_splits)
  then show ?thesis by (simp add: open_data_def)
qed

lemma lower_r: "lower_char c = CHR ''r'' \<Longrightarrow> c = CHR ''r'' \<or> c = CHR ''R''"
proof (cases "CHR ''A'' \<le> c \<and> c \<le> CHR ''Z''")
  case True
  assume l: "lower_char c = CHR ''r''"
  have "of_char c \<le> (90 :: nat)" using True by (simp add: less_eq_char_def)
  moreover have "of_char (char_of (of_char c + 32 :: nat) :: char) = (of_char (CHR ''r'') :: nat)"
    using l True by (simp add: lower_char_def)
  ultimately have "of_char c = (82 :: nat)" by simp
  then have "of_char c = (of_char (CHR ''R'') :: nat)" by simp
  then show ?thesis by (simp only: of_char_eq_iff simp_thms)
qed (simp add: lower_char_def)

lemma valid_not_ready: "json_Valid b \<Longrightarrow> b \<noteq> [] \<and> ToLowerU b \<noteq> ''ready''"
proof -
  assume v: "json_Valid b"
  show ?thesis
  proof (intro conjI notI)
    assume "b = []" then show False using v by (simp add: json_Valid_def)
  next
    assume "ToLowerU b = ''ready''"
    then obtain c s where b: "b = c # s" "lower_char c = CHR ''r''" by (cases b) (auto split: if_split_asm)
    then show False using v lower_r [OF b(2)] by (auto simp: json_Valid_def skip_ws_def json_ws_def read_num_def read_int_def is_digit_def)
  qed
qed

section \<open>The relayed headers of a request\<close>

text \<open>Header names as \<open>net/http\<close> delivers them.\<close>

definition headers_ok :: "web_request \<Rightarrow> bool" where
  "headers_ok r \<longleftrightarrow> distinct (map fst (wr_Header r)) \<and> (\<forall>h \<in> fst ` set (wr_Header r). canonical True h = h)"

lemma relay_header_value:
  assumes "headers_ok r" "(h, x, xs) \<in> set (wr_Header r)" "forwardedHeader h"
  shows "kv_get (relay_fields E r payload eventID) (ToLower h) = Some (JStr x)" "ToLower h \<in> set forwardableHeaderAllowlist"
    "canonical True (ToLower h) = h"
proof -
  have can: "canonical True h = h" if "(h, y) \<in> set (wr_Header r)" for h y using assms(1) that by (force simp: headers_ok_def)
  show c: "canonical True (ToLower h) = h" using can [OF assms(2)] by (simp add: canonical_ToLower)
  have u: "fst y = x" if "(h', y) \<in> set (wr_Header r)" "ToLower h' = ToLower h" for h' y
  proof -
    have "h' = h" using can [OF that(1)] that(2) c canonical_ToLower by metis
    then show ?thesis using assms(1,2) that(1) by (metis eq_key_imp_eq_value fst_conv headers_ok_def)
  qed
  show AL: "ToLower h \<in> set forwardableHeaderAllowlist" using assms(3) by (simp add: forwardedHeader_def allowlists_agree)
  have "kv_get (relay_headers (wr_Header r) []) (ToLower h) = Some (JStr x)"
    by (rule relay_headers_has) (use u assms(2,3) in blast)+
  moreover have "ToLower h \<noteq> ''event_id''" "ToLower h \<noteq> ''bodyB''" "ToLower h \<noteq> ''timestamp''"
    using AL by (auto simp: forwardableHeaderAllowlist_def)
  ultimately show "kv_get (relay_fields E r payload eventID) (ToLower h) = Some (JStr x)" unfolding relay_fields_get by simp
qed

lemma relay_event_types:
  assumes "t \<in> event_types (relay_fields E r payload eventID)"
  shows "\<exists>h x xs. (h, x, xs) \<in> set (wr_Header r) \<and> t = event_type x"
proof -
  obtain k x where kx: "t = event_type x" "(k, JStr x) \<in> set (relay_fields E r payload eventID)"
    "k \<in> {''x-github-event'', ''x-gitlab-event'', ''x-event-key''}" using assms by (auto simp: event_types_def)
  then have "kv_get (relay_headers (wr_Header r) []) k = Some (JStr x)"
    unfolding kv_get_mem [OF relay_fields_wf, symmetric] relay_fields_get by auto
  then show ?thesis using relay_headers_get [of "wr_Header r" "[]" k] kx(1) by auto
qed

lemma relay_text:
  fixes E :: env and r :: web_request and payload eventID :: string
  defines "data \<equiv> json_Marshal (relay_payload E r payload eventID)"
  shows "data \<noteq> [] \<and> data \<noteq> ''ready'' \<and> data \<noteq> ''{}''"
proof -
  have d: "json_Unmarshal data = JObj (relay_fields E r payload eventID)"
    using json_roundtrip [OF relay_payload_plain] by (simp add: data_def relay_fields_obj)
  have "relay_fields E r payload eventID \<noteq> []"
    using relay_fields_get [of E r payload eventID "''bodyB''"] by auto
  then show ?thesis using d by (auto simp: json_Unmarshal_def skip_ws_def json_ws_def read_num_def is_digit_def)
qed

lemma sent_content_type:
  assumes "HandleWebhookPost E r s = (p, s')" "ws_sent s' \<noteq> ws_sent s"
  shows "\<exists>x xs. (''Content-Type'', x, xs) \<in> set (wr_Header r)"
proof -
  have "Contains (header_Get r ''Content-Type'') ''application/json''"
  proof (rule ccontr)
    assume "\<not> Contains (header_Get r ''Content-Type'') ''application/json''"
    then have "s' = s" using assms(1) by (simp add: HandleWebhookPost_def webhook_payload_def Let_def)
    then show False using assms(2) by simp
  qed
  then have "header_Get r ''Content-Type'' \<noteq> []" by auto
  moreover have "canonical True ''Content-Type'' = ''Content-Type''" by code_simp
  ultimately obtain v where "kv_get (wr_Header r) ''Content-Type'' = Some v" by (auto simp: header_Get_def split: option.split_asm)
  then show ?thesis unfolding kv_get_def by (cases v) (auto dest: map_of_SomeD)
qed

section \<open>Properties\<close>


definition demo_opts :: replayDataOpts where
  "demo_opts = \<lparr>ro_targetCnxTimeout = 5, ro_noReplay = False, ro_saveDir = [], ro_smeeURL = ''https://hooks.example/c1'',
     ro_targetURL = ''http://localhost:8080'', ro_localDebugURL = ''http://localhost:8080'', ro_ignoreEvents = [], ro_useHttpie = False,
     ro_execCommand = [], ro_execOnEvents = [], ro_execEnvVars = [], ro_execTimeout = 0, ro_encryptionKeyFile = [],
     ro_encryptionKey = [], ro_resume = False, ro_clientID = [], ro_token = []\<rparr>"

definition demo_io :: client_io where
  "demo_io = \<lparr>io_save = (\<lambda>_. None), io_request = (\<lambda>_. None), io_do = (\<lambda>_. None), io_temp = (\<lambda>_. None),
     io_names = (''/tmp/p'', ''/tmp/h''), io_run = (\<lambda>_. None), io_environ = [(''PATH'', ''/bin''), (''TOKEN'', ''t'')]\<rparr>"

definition demo_world :: client_world where
  "demo_world = \<lparr>cw_files = [], cw_requests = [], cw_runs = []\<rparr>"

definition demo_uuid :: string where
  "demo_uuid = ''72727272-7272-4272-b272-727272727272''"

definition demo_message :: string where
  "demo_message = json_Marshal (relay_payload demo_env demo_request ''{}'' demo_uuid)"

lemma Contains_set: "Contains s p \<Longrightarrow> set p \<subseteq> set s"
proof (induction s p rule: Contains.induct)
  case (2 c s p)
  then show ?case using set_mono_prefix [of p "c # s"] by auto
qed simp

lemma demo_quiet: "\<not> connection_message demo_message"
proof -
  have "list_all (\<lambda>c. c \<noteq> CHR ''r'' \<and> c \<noteq> CHR ''g'') (ToLowerU demo_message)" by code_simp
  then have "CHR ''r'' \<notin> set (ToLowerU demo_message)" "CHR ''g'' \<notin> set (ToLowerU demo_message)" by (auto simp: list_all_iff)
  then show ?thesis using Contains_set [of "ToLowerU demo_message"] unfolding connection_message_def by force
qed

lemma demo_sent: "ws_sent (snd (HandleWebhookPost demo_env demo_request demo_web)) = ws_sent demo_web @ [(''webhook.c1'', demo_message)]"
proof -
  have "replicate 16 CHR ''r'' = ''rrrrrrrrrrrrrrrr''" by code_simp
  then have "GenerateUUID (Some (replicate 16 CHR ''r'')) = Inr demo_uuid"
    by (simp add: GenerateUUID_def hex_EncodeToString_def hex_digits_def Let_def demo_uuid_def)
  then show ?thesis
    by (simp add: HandleWebhookPost_def demo_payload demo_source demo_resolved_def demo_channel_def zero_channel_def demo_message_def
      Let_def publishEvent_def Publish_def)
qed

lemma demo_client_fields [simp]:
  "ce_C demo_client = toy_crypto" "ro_saveDir demo_opts = []" "\<not> ro_noReplay demo_opts"
  "ro_targetURL demo_opts = ''http://localhost:8080''" "io_request demo_io u = None" "cw_requests demo_world = []" "cw_files demo_world = []"
  "bd_data (wr_Body demo_request) = ''{}''" "(''Content-Type'', ''application/json'', []) \<in> set (wr_Header demo_request)"
  by (simp_all add: demo_client_def demo_opts_def demo_io_def demo_world_def demo_request_def)


end
