(* ===== verification/ClientSafety.thy ===== *)
theory ClientSafety
  imports ClientRelay
begin

text \<open>
  What no message can make the client do: send a header outside the allowlist, write outside its
  directory, break out of the quoting of a replay script, or leak its environment to the command;
  the bounded output buffer and the version check. Two departures: ignored events are forwarded, and
  time stamps have no seconds.
\<close>

section \<open>The shell\<close>

text \<open>How a POSIX shell splits a line into words, as far as single quotes, backslashes and spaces go; \<open>None\<close>
  when another character has a meaning for the shell. The first argument is the word so far.\<close>

definition sh_plain :: "char \<Rightarrow> bool" where
  "sh_plain c \<longleftrightarrow> is_alnum c \<or> c \<in> set ''-_.:/=@%+,''"

definition so_far :: "string option \<Rightarrow> string" where
  "so_far cur = (case cur of None \<Rightarrow> [] | Some w \<Rightarrow> w)"

fun sh_scan :: "string option \<Rightarrow> string \<Rightarrow> string list option" and sh_quoted :: "string \<Rightarrow> string \<Rightarrow> string list option" where
  "sh_scan cur [] = Some (case cur of None \<Rightarrow> [] | Some w \<Rightarrow> [w])"
| "sh_scan cur (c # s) =
     (if c = CHR '' '' then (case cur of None \<Rightarrow> sh_scan None s | Some w \<Rightarrow> map_option (Cons w) (sh_scan None s))
      else if c = CHR 0x27 then sh_quoted (so_far cur) s
      else if c = CHR 0x5C then (case s of [] \<Rightarrow> None | d # s' \<Rightarrow> (if d = CHR 0x0A then None else sh_scan (Some (so_far cur @ [d])) s'))
      else if sh_plain c then sh_scan (Some (so_far cur @ [c])) s
      else None)"
| "sh_quoted w [] = None"
| "sh_quoted w (c # s) = (if c = CHR 0x27 then sh_scan (Some w) s else sh_quoted (w @ [c]) s)"

lemma so_far_simps [simp]: "so_far None = []" "so_far (Some w) = w"
  by (simp_all add: so_far_def)

lemma sh_quoted_content:
  "sh_quoted w (concat (map (\<lambda>c. if c = CHR 0x27 then [CHR 0x27, CHR 0x5C, CHR 0x27, CHR 0x27] else [c]) s) @ CHR 0x27 # r) =
     sh_scan (Some (w @ s)) r"
  by (induction s arbitrary: w) (auto simp: sh_plain_def)

lemma sh_scan_quote: "sh_scan cur (shellQuote s @ r) = sh_scan (Some (so_far cur @ s)) r"
  by (simp add: shellQuote_def sh_quoted_content)

lemma sh_scan_curl: "sh_scan None (buildCurlHeaders hs @ r) =
     map_option ((@) (concat (map (\<lambda>(k, v). [''-H'', k @ '': '' @ v]) hs))) (sh_scan None r)"
proof (induction hs rule: buildCurlHeaders.induct)
  case (2 k v hs)
  have "sh_plain CHR ''-''" "sh_plain CHR ''H''" by (simp_all add: sh_plain_def is_alnum_def)
  then have "sh_scan None (''-H '' @ x) = map_option (Cons ''-H'') (sh_scan None x)" for x by simp
  then show ?case using 2 by (simp add: sh_scan_quote option.map_comp comp_def del: sh_scan.simps(2)) (simp add: option.map_comp comp_def)
qed (simp add: option.map_ident)

lemma sh_scan_httpie: "sh_scan None (buildHttpieHeaders hs @ r) =
     map_option ((@) (map (\<lambda>(k, v). k @ '':'' @ v) hs)) (sh_scan None r)"
proof (induction hs rule: buildHttpieHeaders.induct)
  case (2 k v hs)
  then show ?case by (simp add: sh_scan_quote option.map_comp comp_def)
qed (simp add: option.map_ident)

section \<open>Bounded output\<close>

definition write_all :: "limitedBuffer \<Rightarrow> string list \<Rightarrow> limitedBuffer" where
  "write_all l ps = fold (\<lambda>p l. snd (limitedBuffer_Write l p)) ps l"

lemma write_step:
  "fst (limitedBuffer_Write l p) = length p" "lb_limit (snd (limitedBuffer_Write l p)) = lb_limit l"
  "lb_buf l = take (lb_limit l) s \<Longrightarrow> lb_buf (snd (limitedBuffer_Write l p)) = take (lb_limit l) (s @ p)"
  "lb_buf l = take (lb_limit l) s \<Longrightarrow> \<not> lb_truncated (snd (limitedBuffer_Write l p)) \<Longrightarrow>
     length (s @ p) \<le> lb_limit l \<and> \<not> lb_truncated l"
  by (auto simp: limitedBuffer_Write_def Let_def min_def split: if_splits)

lemma write_all_take:
  "lb_buf l = take (lb_limit l) s \<Longrightarrow> lb_limit (write_all l ps) = lb_limit l \<and> lb_buf (write_all l ps) = take (lb_limit l) (s @ concat ps)"
  unfolding write_all_def
proof (induction ps arbitrary: l s)
  case (Cons p ps)
  then show ?case using write_step(3) [of l s p] Cons.IH [of "snd (limitedBuffer_Write l p)" "s @ p"] by (simp add: write_step(2))
qed simp

section \<open>The environment of the command\<close>

definition env_of :: "(string \<times> string) list \<Rightarrow> string list \<Rightarrow> string list" where
  "env_of environ ns = map (\<lambda>n. n @ ''='' @ the (map_of environ n)) ns"

definition env_state :: "(string \<times> string) list \<Rightarrow> string list \<Rightarrow> string list \<times> string list \<Rightarrow> bool" where
  "env_state environ ns st \<longleftrightarrow> st = (env_of environ ns, rev ns) \<and> distinct ns"

definition env_names :: "(string \<times> string) list \<Rightarrow> string set \<Rightarrow> string set" where
  "env_names environ N = {n \<in> N. n \<noteq> [] \<and> n \<in> fst ` set environ}"

lemma addEnvVar_state:
  "env_state environ ns st \<Longrightarrow> \<exists>ns'. env_state environ ns' (addEnvVar environ n st) \<and> set ns' = set ns \<union> env_names environ {n}"
proof -
  assume st: "env_state environ ns st"
  show ?thesis
  proof (cases "n = [] \<or> n \<in> set ns \<or> map_of environ n = None")
    case True
    then have "addEnvVar environ n st = st" "env_names environ {n} \<subseteq> set ns"
      using st by (auto simp: addEnvVar_def env_state_def env_names_def split: option.split)
        (force simp: map_of_eq_None_iff)
    then show ?thesis using st by auto
  next
    case False
    then obtain v where v: "map_of environ n = Some v" by auto
    then have "n \<in> fst ` set environ" by (force dest: map_of_SomeD)
    then have "env_state environ (ns @ [n]) (addEnvVar environ n st)" "env_names environ {n} = {n}"
      using st False v by (auto simp: addEnvVar_def env_state_def env_of_def env_names_def)
    then show ?thesis by (intro exI [of _ "ns @ [n]"]) auto
  qed
qed

lemma addEnvVars_state:
  "env_state environ ns st \<Longrightarrow> \<exists>ns'. env_state environ ns' (fold (addEnvVar environ) names st) \<and> set ns' = set ns \<union> env_names environ (set names)"
proof (induction names arbitrary: ns st)
  case Nil
  then show ?case by (auto simp: env_names_def)
next
  case (Cons n names)
  obtain ns1 where 1: "env_state environ ns1 (addEnvVar environ n st)" "set ns1 = set ns \<union> env_names environ {n}"
    using addEnvVar_state [OF Cons.prems] by blast
  obtain ns2 where "env_state environ ns2 (fold (addEnvVar environ) names (addEnvVar environ n st))"
    "set ns2 = set ns1 \<union> env_names environ (set names)" using Cons.IH [OF 1(1)] by blast
  then show ?case using 1(2) by (intro exI [of _ ns2]) (auto simp: env_names_def)
qed

lemma fold_filter: "fold (\<lambda>(name, v) st. if P name then f name st else st) xs st = fold f (filter P (map fst xs)) st"
  by (induction xs arbitrary: st) (auto split: prod.split)

lemma buildExecEnv_names:
  "\<exists>ns. buildExecEnv environ extra = env_of environ ns \<and> distinct ns \<and>
     set ns = {n \<in> fst ` set environ. n \<noteq> [] \<and> (n \<in> set exec_allowlist \<or> HasPrefix n ''LC_'' \<or> n \<in> set extra)}"
proof -
  have "env_state environ [] ([], [])" by (simp add: env_state_def env_of_def)
  then obtain ns1 where 1: "env_state environ ns1 (fold (addEnvVar environ) exec_allowlist ([], []))"
    "set ns1 = env_names environ (set exec_allowlist)" using addEnvVars_state [of environ "[]"] by fastforce
  let ?lc = "filter (\<lambda>n. HasPrefix n ''LC_'') (map fst environ)"
  obtain ns2 where 2: "env_state environ ns2 (fold (addEnvVar environ) ?lc (fold (addEnvVar environ) exec_allowlist ([], [])))"
    "set ns2 = set ns1 \<union> env_names environ (set ?lc)" using addEnvVars_state [OF 1(1)] by blast
  obtain ns3 where 3: "env_state environ ns3 (fold (addEnvVar environ) extra (fold (addEnvVar environ) ?lc (fold (addEnvVar environ) exec_allowlist ([], []))))"
    "set ns3 = set ns2 \<union> env_names environ (set extra)" using addEnvVars_state [OF 2(1)] by blast
  have "buildExecEnv environ extra = env_of environ ns3"
    using 3(1) by (simp add: buildExecEnv_def Let_def fold_filter env_state_def)
  moreover have "set ns3 = {n \<in> fst ` set environ. n \<noteq> [] \<and> (n \<in> set exec_allowlist \<or> HasPrefix n ''LC_'' \<or> n \<in> set extra)}"
    unfolding 3(2) 2(2) 1(2) env_names_def by auto
  ultimately show ?thesis using 3(1) by (auto simp: env_state_def)
qed

section \<open>What a message can set\<close>

text \<open>The headers of a parsed message come from allowlisted fields, its event type is a cleaned word.\<close>

definition parsed :: "client_env \<Rightarrow> payloadMsg \<Rightarrow> bool" where
  "parsed E pm \<longleftrightarrow> (\<forall>h \<in> fst ` set (pm_headers pm). h = ''Content-Type'' \<or> (\<exists>k. forwardableHeader k \<and> h = ce_title E k)) \<and>
     (pm_eventType pm \<noteq> [] \<longrightarrow> pm_headers pm \<noteq> [] \<and> (\<exists>x. pm_eventType pm = event_type x))"

lemma kv_put_not_Nil: "kv_put k v m \<noteq> []"
  by (cases "(k, v, m)" rule: kv_put.cases) auto

lemma event_keys_forwardable: "k \<in> {''x-github-event'', ''x-gitlab-event'', ''x-event-key''} \<or> k = ''x-github-delivery'' \<Longrightarrow> forwardableHeader k"
proof -
  have "forwardableHeader ''x-github-event''" "forwardableHeader ''x-gitlab-event''" "forwardableHeader ''x-event-key''"
    "forwardableHeader ''x-github-delivery''" by code_simp+
  then show "k \<in> {''x-github-event'', ''x-gitlab-event'', ''x-event-key''} \<or> k = ''x-github-delivery'' \<Longrightarrow> forwardableHeader k"
    by (elim disjE insertE emptyE) simp_all
qed

lemma parsed_put:
  "parsed E pm \<Longrightarrow> forwardableHeader k \<Longrightarrow> pm_headers pm' = kv_put (ce_title E k) v (pm_headers pm) \<Longrightarrow>
     pm_eventType pm' = pm_eventType pm \<or> (\<exists>x. pm_eventType pm' = event_type x) \<Longrightarrow> parsed E pm'"
  by (auto simp: parsed_def kv_put_keys kv_put_not_Nil)

lemma parsed_content_type:
  assumes "parsed E pm" "pm_headers pm' = (if c then kv_put ''Content-Type'' x (pm_headers pm) else pm_headers pm)"
    and "pm_eventType pm' = pm_eventType pm"
  shows "parsed E pm'"
  using assms by (cases c) (auto simp: parsed_def kv_put_keys kv_put_not_Nil)

lemma parsed_entry:
  assumes "parsed E pm" "parse_entry E data (k, v) (pm, dt) = Inr (pm', dt')"
  shows "parsed E pm'"
proof -
  have put: "parsed E (pm\<lparr>pm_headers := kv_put (ce_title E k) x (pm_headers pm), pm_eventType := event_type y\<rparr>)"
    "parsed E (pm\<lparr>pm_headers := kv_put (ce_title E k) x (pm_headers pm), pm_eventID := y\<rparr>)"
    "parsed E (pm\<lparr>pm_headers := kv_put (ce_title E k) x (pm_headers pm)\<rparr>)" if "forwardableHeader k" for k x y
    by (rule parsed_put [OF assms(1) that, of _ x]; simp; blast?)+
  have same: "parsed E (pm\<lparr>pm_body := b\<rparr>)" for b using assms(1) by (simp add: parsed_def)
  consider (event) "k \<in> {''x-github-event'', ''x-gitlab-event'', ''x-event-key''}" | (delivery) "k = ''x-github-delivery''"
    | (body) "k \<in> {''bodyB'', ''body'', ''timestamp''}" | (ct) "k = ''content-type''"
    | (other) "k \<notin> {''x-github-event'', ''x-gitlab-event'', ''x-event-key''}" "k \<noteq> ''x-github-delivery''"
        "k \<notin> {''bodyB'', ''body'', ''timestamp''}" "k \<noteq> ''content-type''" by metis
  then show ?thesis
  proof cases
    case event
    then show ?thesis
      using assms put(1) [OF event_keys_forwardable [OF disjI1 [OF event]]] by (cases v) (auto simp: parse_entry_def)
  next
    case delivery
    then show ?thesis
      using assms put(2) [OF event_keys_forwardable [OF disjI2 [OF delivery]]] by (cases v) (auto simp: parse_entry_def)
  next
    case body
    then show ?thesis
      using assms same by (elim insertE emptyE; cases v)
        (auto simp: parse_entry_def bindE_Inr_iff split: sum.split_asm)
  next
    case ct
    then show ?thesis
      using assms by (cases v) (auto simp: parse_entry_def intro: parsed_content_type [OF assms(1)])
  next
    case other
    then show ?thesis using assms put(3) [of k] by (cases v) (auto simp: parse_entry_def split: if_split_asm)
  qed
qed

lemma parsed_entries: "parsed E (fst st) \<Longrightarrow> parse_entries E data fs st = Inr st' \<Longrightarrow> parsed E (fst st')"
proof (induction fs arbitrary: st)
  case (Cons kv fs)
  obtain k v pm dt where "kv = (k, v)" "st = (pm, dt)" by (cases kv; cases st)
  then show ?case using Cons parsed_entry [of E pm data k v dt] by (fastforce simp: bindE_Inr_iff)
qed simp

lemma parse_parsed:
  assumes "parse E opts now data = Inr pm"
  shows "parsed E pm" "\<exists>t. pm_timestamp pm = format_ts t"
proof -
  obtain fs pm0 dt where e: "parse_entries E data fs (zero_pm, now) = Inr (pm0, dt)" "pm = stamp pm0 dt"
    using assms by (auto simp: parse_def bindE_Inr_iff Let_def split: if_split_asm)
  have "parsed E zero_pm" by (simp add: parsed_def zero_pm_def)
  then have "parsed E pm0" using parsed_entries [of E "(zero_pm, now)" data fs] e(1) by simp
  then show "parsed E pm" unfolding e(2) by (auto simp: parsed_def stamp_def)
  show "\<exists>t. pm_timestamp pm = format_ts t" unfolding e(2) by (auto simp: stamp_def)
qed

lemma handled_parsed:
  assumes "handle_message E opts channel pk now msg = Some pm"
  shows "parsed E pm" "\<exists>t. pm_timestamp pm = format_ts t"
proof -
  obtain data pm0 body where "parse E opts now data = Inr pm0" "pm = pm0\<lparr>pm_body := body\<rparr>"
    using assms by (auto simp: handle_message_def split: if_split_asm sum.split_asm)
  then show "parsed E pm" "\<exists>t. pm_timestamp pm = format_ts t"
    using parse_parsed [of E opts now data pm0] by (auto simp: parsed_def)
qed

section \<open>File names\<close>

definition safe_char :: "char \<Rightarrow> bool" where
  "safe_char c \<longleftrightarrow> is_alnum c \<or> c = CHR ''-'' \<or> c = CHR ''_'' \<or> c = CHR ''.''"

lemma digit_safe: "is_digit c \<Longrightarrow> safe_char c"
  by (simp add: is_digit_def safe_char_def is_alnum_def)

lemma appendInt_safe: "list_all safe_char (appendInt w x)"
proof -
  have "list_all safe_char (show_nat n)" for n using show_nat_digits [of n] digit_safe by (auto simp: list_all_iff)
  moreover have "safe_char CHR ''0''" "safe_char CHR ''-''" by (simp_all add: safe_char_def is_alnum_def)
  ultimately show ?thesis by (auto simp: appendInt_def pad_def list_all_iff)
qed

lemma format_ts_safe: "list_all safe_char (format_ts t)"
proof -
  have "list_all safe_char ''-T.''" by (simp add: safe_char_def is_alnum_def)
  then show ?thesis using appendInt_safe by (simp add: format_ts_def Let_def split: prod.split)
qed

lemma event_type_safe: "list_all safe_char (event_type x)"
proof -
  define s where "s = event_replace (ToLowerU x)"
  have w: "word_char c \<Longrightarrow> safe_char c" for c by (auto simp: word_char_def safe_char_def)
  have colon: "CHR '':'' \<notin> set s" by (auto simp: s_def event_replace_def)
  show ?thesis
  proof (cases "dropWhile (\<lambda>c. \<not> (word_char c \<or> c = CHR ''-'' \<or> c = CHR '':'')) s")
    case (Cons c r)
    then have "c \<in> set s" by (metis list.set_intros(1) set_dropWhileD)
    then have "c \<noteq> CHR '':''" using colon by auto
    moreover have "word_char c \<or> c = CHR ''-'' \<or> c = CHR '':''" using Cons by (simp add: dropWhile_eq_Cons_conv)
    ultimately have "word_char c \<or> c = CHR ''-''" by blast
    moreover have "safe_char CHR ''-''" by (simp add: safe_char_def)
    moreover have "list_all safe_char (takeWhile word_char (c # r))" using w by (auto simp: list_all_iff dest: set_takeWhileD)
    ultimately show ?thesis
      unfolding event_type_def s_def [symmetric] pmEventRe_FindString_def Cons by auto
  next
    case Nil
    show ?thesis unfolding event_type_def s_def [symmetric] pmEventRe_FindString_def Nil by simp
  qed
qed

lemma file_base_safe:
  assumes "parsed E pm" "pm_timestamp pm = format_ts t"
  shows "list_all safe_char (file_base pm)"
proof -
  have "list_all safe_char (pm_eventType pm)"
    using assms(1) event_type_safe by (cases "pm_eventType pm = []") (auto simp: parsed_def)
  moreover have "safe_char CHR ''-''" by (simp add: safe_char_def)
  ultimately show ?thesis using assms(2) format_ts_safe by (simp add: file_base_def)
qed

section \<open>Header names\<close>

lemma case_high: "128 \<le> (of_char c :: nat) \<Longrightarrow> lower_char c = c" "128 \<le> (of_char c :: nat) \<Longrightarrow> upper_char c = c"
  "128 \<le> (of_char c :: nat) \<Longrightarrow> lower_char x = c \<longleftrightarrow> x = c" "128 \<le> (of_char c :: nat) \<Longrightarrow> upper_char x = c \<longleftrightarrow> x = c"
proof -
  assume c: "128 \<le> (of_char c :: nat)"
  show l: "lower_char c = c" "upper_char c = c" using c by (auto simp: lower_char_def upper_char_def less_eq_char_def)
  show "lower_char x = c \<longleftrightarrow> x = c"
  proof (cases x rule: lower_char_cases)
    case (2 n)
    then have "of_char (lower_char x) \<noteq> (of_char c :: nat)" "of_char x \<noteq> (of_char c :: nat)" using c by auto
    then show ?thesis by auto
  qed simp
  show "upper_char x = c \<longleftrightarrow> x = c"
  proof (cases "CHR ''a'' \<le> x \<and> x \<le> CHR ''z''")
    case True
    then have n: "97 \<le> (of_char x :: nat)" "of_char x \<le> (122 :: nat)" by (simp_all add: less_eq_char_def)
    then have "of_char (upper_char x) = (of_char x - 32 :: nat)" using True by (simp add: upper_char_def)
    then have "of_char (upper_char x) \<noteq> (of_char c :: nat)" "of_char x \<noteq> (of_char c :: nat)" using c n by auto
    then show ?thesis by auto
  qed (auto simp: upper_char_def)
qed

lemma high_bytes: "128 \<le> (of_char (CHR 0xE2) :: nat)" "128 \<le> (of_char (CHR 0xC4) :: nat)" "128 \<le> (of_char (CHR 0x84) :: nat)"
  "128 \<le> (of_char (CHR 0xAA) :: nat)" "128 \<le> (of_char (CHR 0xB0) :: nat)"
  by simp_all

lemmas high_case = case_high(1,2) [OF high_bytes(1)] case_high(1,2) [OF high_bytes(2)] case_high(1,2) [OF high_bytes(3)]
  case_high(1,2) [OF high_bytes(4)] case_high(1,2) [OF high_bytes(5)]

lemmas high_eq = case_high(3,4) [OF high_bytes(1)] case_high(3,4) [OF high_bytes(2)] case_high(3,4) [OF high_bytes(3)]
  case_high(3,4) [OF high_bytes(4)] case_high(3,4) [OF high_bytes(5)]

lemma canonical_prefix:
  "prefix [CHR 0x84, CHR 0xAA] (canonical up s) = prefix [CHR 0x84, CHR 0xAA] s" "prefix [CHR 0xB0] (canonical up s) = prefix [CHR 0xB0] s"
proof -
  show "prefix [CHR 0xB0] (canonical up s) = prefix [CHR 0xB0] s" by (cases s) (auto simp: high_eq eq_commute [of "CHR 0xB0"])
  show "prefix [CHR 0x84, CHR 0xAA] (canonical up s) = prefix [CHR 0x84, CHR 0xAA] s"
    by (cases s; cases "tl s") (auto simp: high_eq eq_commute [of "CHR 0x84"] eq_commute [of "CHR 0xAA"])
qed

lemma ToLowerU_canonical: "ToLowerU (canonical up s) = ToLowerU s"
proof (induction s arbitrary: up rule: ToLowerU.induct)
  case (2 c s)
  let ?c = "if up then upper_char c else lower_char c"
  have e: "(?c = CHR 0xE2) = (c = CHR 0xE2)" "(?c = CHR 0xC4) = (c = CHR 0xC4)" by (simp_all add: high_eq)
  consider (k) "c = CHR 0xE2" "prefix [CHR 0x84, CHR 0xAA] s" | (i) "c = CHR 0xC4" "prefix [CHR 0xB0] s"
    | (o) "\<not> (c = CHR 0xE2 \<and> prefix [CHR 0x84, CHR 0xAA] s)" "\<not> (c = CHR 0xC4 \<and> prefix [CHR 0xB0] s)" by blast
  then show ?case
  proof cases
    case k
    then obtain s' where "s = CHR 0x84 # CHR 0xAA # s'" by (auto simp: prefix_def)
    then show ?thesis using k(1) "2.IH"(1) by (simp add: high_case)
  next
    case i
    then obtain s' where s': "s = CHR 0xB0 # s'" by (auto simp: prefix_def)
    then show ?thesis using i "2.IH"(2) by (simp add: high_case)
  next
    case o
    have "lower_char ?c = lower_char c" by (simp add: char_case lower_upper)
    moreover have "ToLowerU (canonical (c = CHR ''-'') s) = ToLowerU s" by (rule "2.IH"(3) [OF o])
    ultimately show ?thesis unfolding canonical.simps ToLowerU.simps(2) e canonical_prefix if_not_P [OF o(1)] if_not_P [OF o(2)] by simp
  qed
qed simp

lemma forwardable_case: "forwardableHeader (canonical True h) = forwardableHeader h" "forwardableHeader (CanonicalHeaderKey h) = forwardableHeader h"
  by (simp_all add: forwardableHeader_def CanonicalHeaderKey_def ToLowerU_canonical)

lemma header_Add_keys: "fst ` set (header_Add k v h) = insert (CanonicalHeaderKey k) (fst ` set h)"
  by (simp add: header_Add_def kv_put_keys)

lemma fold_Add_keys: "fst ` set (fold (\<lambda>(k, v) h. header_Add k v h) hs h0) = CanonicalHeaderKey ` fst ` set hs \<union> fst ` set h0"
proof (induction hs arbitrary: h0)
  case (Cons p hs)
  then show ?case by (cases p) (simp add: header_Add_keys)
qed simp

lemma replay_request_keys:
  assumes "h \<in> fst ` set (or_Header (replay_request opts pm))"
  shows "h = CanonicalHeaderKey ''Content-Type'' \<or> h \<in> CanonicalHeaderKey ` fst ` set (pm_headers pm)"
  using assms by (auto simp: replay_request_def Let_def header_Add_keys fold_Add_keys split: if_split_asm)

section \<open>The effects of one message\<close>

lemma saveData_frame: "cw_requests (snd (saveData E io opts pm w)) = cw_requests w" "cw_runs (snd (saveData E io opts pm w)) = cw_runs w"
  by (simp_all add: saveData_def Let_def split: option.split)

lemma replayData_frame: "cw_files (snd (replayData io opts pm w)) = cw_files w"
  "cw_requests (snd (replayData io opts pm w)) = cw_requests w \<or> cw_requests (snd (replayData io opts pm w)) = cw_requests w @ [replay_request opts pm]"
  by (simp_all add: replayData_def split: option.split)

lemma runExec_frame: "cw_files (snd (runExecCommand io opts pm w)) = cw_files w" "cw_requests (snd (runExecCommand io opts pm w)) = cw_requests w"
  by (simp_all add: runExecCommand_def Let_def)

lemma process_requests:
  "cw_requests (process_message E io opts pm w) = cw_requests w \<or> cw_requests (process_message E io opts pm w) = cw_requests w @ [replay_request opts pm]"
  using saveData_frame [of E io opts pm w] replayData_frame [of io opts pm "snd (saveData E io opts pm w)"] replayData_frame [of io opts pm w]
  by (auto simp: process_message_def runExec_frame case_prod_beta split: option.split)

lemma process_files:
  "cw_files (process_message E io opts pm w) = cw_files w \<or> cw_files (process_message E io opts pm w) = cw_files (snd (saveData E io opts pm w))"
  by (simp add: process_message_def runExec_frame replayData_frame case_prod_beta split: option.split)

text \<open>The file operations touch their path only, and give a new file its mode.\<close>

lemma file_ops:
  "path \<noteq> p \<Longrightarrow> kv_get (open_trunc p m fs) path = kv_get fs path"
  "path \<noteq> p \<Longrightarrow> kv_get (write_file p c fs) path = kv_get fs path"
  "path \<noteq> p \<Longrightarrow> kv_get (chmod p m fs) path = kv_get fs path"
  by (auto simp: open_trunc_def write_file_def chmod_def kv_get_put split: option.split)

lemma saveData_files:
  assumes "kv_get (cw_files (snd (saveData E io rd pm w))) path \<noteq> kv_get (cw_files w) path"
  shows "path = ro_saveDir rd @ ''/'' @ file_base pm @ ''.json'' \<or> path = ro_saveDir rd @ ''/'' @ file_base pm @ ''.sh''"
proof (rule ccontr)
  assume "\<not> ?thesis"
  then have "path \<noteq> ro_saveDir rd @ ''/'' @ file_base pm @ ''.json''" "path \<noteq> ro_saveDir rd @ ''/'' @ file_base pm @ ''.sh''" by simp_all
  then have "kv_get (cw_files (snd (saveData E io rd pm w))) path = kv_get (cw_files w) path"
    unfolding saveData_def Let_def by (simp add: file_ops split: option.split)
  then show False using assms by simp
qed

section \<open>Properties\<close>

text \<open>C31: Whatever bytes arrive as a message, the client sends at most one request for it, and only with header
  names of the allowlist: a message cannot make the target see an \<open>Authorization\<close>, \<open>Cookie\<close>,
  \<open>X-Forwarded-For\<close> or any other header of the sender's choice. Title case is only assumed not to turn an
  allowlisted name into another one.\<close>

theorem client_headers_allowlisted:
  assumes "\<And>k. forwardableHeader k \<Longrightarrow> forwardableHeader (ce_title E k)"
  shows "cw_requests (on_event E io opts channel privateKey now msg w) = cw_requests w \<or>
     (\<exists>q. cw_requests (on_event E io opts channel privateKey now msg w) = cw_requests w @ [q] \<and>
        or_URL q = ro_targetURL opts \<and> (\<forall>h. kv_get (or_Header q) h \<noteq> None \<longrightarrow> forwardableHeader h))"
proof (cases "handle_message E opts channel privateKey now msg")
  case (Some pm)
  have ct: "forwardableHeader ''Content-Type''" by code_simp
  have h: "forwardableHeader h" if "h \<in> fst ` set (or_Header (replay_request opts pm))" for h
    using replay_request_keys [OF that] handled_parsed(1) [OF Some] assms ct by (auto simp: parsed_def forwardable_case)
  have "forwardableHeader h" if "kv_get (or_Header (replay_request opts pm)) h \<noteq> None" for h
    using h that kv_mem_keys [of h] by (metis kv_keys_def list.set_map)
  moreover have "or_URL (replay_request opts pm) = ro_targetURL opts" by (simp add: replay_request_def Let_def)
  ultimately show ?thesis using process_requests [of E io opts pm w] Some by (auto simp: on_event_def)
qed (simp add: on_event_def)

theorem client_headers_allowlisted_witness:
  "list_all (\<lambda>q. kv_get (or_Header q) ''Authorization'' = None)
     (cw_requests (on_event demo_client demo_io demo_opts ''c1'' None 0 \<lparr>ev_Event = [], ev_Data = demo_message\<rparr> demo_world))"
proof -
  have t: "forwardableHeader (ce_title demo_client k)" if "forwardableHeader k" for k
    using that by (simp add: demo_client_def forwardable_case)
  have "\<not> forwardableHeader ''Authorization''" by code_simp
  then show ?thesis
    using client_headers_allowlisted [of demo_client demo_io demo_opts "''c1''" None 0 "\<lparr>ev_Event = [], ev_Data = demo_message\<rparr>" demo_world] t
    by fastforce
qed

text \<open>Saving a message stays in the directory and never names a file by foreign characters. Every file that
  changes is the payload or the script of the message, directly below the directory, with a base name
  of letters, digits, hyphens, underscores and dots, whatever the message says its event type is.\<close>

theorem saved_files_confined:
  assumes "kv_get (cw_files (on_event E io opts channel privateKey now msg w)) path \<noteq> kv_get (cw_files w) path"
  shows "\<exists>base ext. path = ro_saveDir opts @ ''/'' @ base @ ext \<and> list_all safe_char base \<and> ext \<in> {''.json'', ''.sh''}"
proof -
  obtain pm where pm: "handle_message E opts channel privateKey now msg = Some pm"
    using assms by (cases "handle_message E opts channel privateKey now msg") (auto simp: on_event_def)
  then have "kv_get (cw_files (snd (saveData E io opts pm w))) path \<noteq> kv_get (cw_files w) path"
    using assms process_files [of E io opts pm w] by (auto simp: on_event_def)
  then have "path = ro_saveDir opts @ ''/'' @ file_base pm @ ''.json'' \<or> path = ro_saveDir opts @ ''/'' @ file_base pm @ ''.sh''"
    by (rule saveData_files)
  moreover obtain t where "pm_timestamp pm = format_ts t" using handled_parsed(2) [OF pm] by blast
  then have "list_all safe_char (file_base pm)" using file_base_safe handled_parsed(1) [OF pm] by blast
  ultimately show ?thesis by blast
qed

definition demo_saving :: replayDataOpts where
  "demo_saving = demo_opts\<lparr>ro_saveDir := ''d'', ro_noReplay := True\<rparr>"

definition demo_traversal :: sse_event where
  "demo_traversal = \<lparr>ev_Event = [], ev_Data = CHR ''{'' # quote ''x-event-key'' @ '':'' @ quote ''../a'' @ ''}''\<rparr>"

lemma demo_saved: "kv_get (cw_files (on_event demo_client demo_io demo_saving ''c1'' None unix_epoch demo_traversal demo_world))
    ''d/_a-1970-01-01T00.00.01.000.json'' = Some ([], 384)"
  by code_simp

theorem saved_files_confined_witness:
  "\<exists>base ext. ''d/_a-1970-01-01T00.00.01.000.json'' = ro_saveDir demo_saving @ ''/'' @ base @ ext \<and> list_all safe_char base"
  using saved_files_confined [of demo_client demo_io demo_saving "''c1''" None unix_epoch demo_traversal demo_world
      "''d/_a-1970-01-01T00.00.01.000.json''"] demo_saved by auto

text \<open>The header arguments of a replay script are exactly the headers: whatever characters a header value has,
  a shell reads one word per header (and the option in front of it for curl), and no character of it
  is interpreted.\<close>

theorem script_words_exact:
  "sh_scan None (buildCurlHeaders hs) = Some (concat (map (\<lambda>(k, v). [''-H'', k @ '': '' @ v]) hs)) \<and>
   sh_scan None (buildHttpieHeaders hs) = Some (map (\<lambda>(k, v). k @ '':'' @ v) hs) \<and>
   sh_scan None (shellQuote (ro_targetURL opts)) = Some [ro_targetURL opts]"
  using sh_scan_curl [of hs "[]"] sh_scan_httpie [of hs "[]"] sh_scan_quote [of None "ro_targetURL opts" "[]"] by simp

text \<open>The command sees of the environment exactly the variables of the allowlist, the locale variables and the
  ones named on the command line, each once and with its value; a secret in another variable is not
  passed on.\<close>

theorem exec_environment_exact:
  "\<exists>ns. buildExecEnv environ extra = map (\<lambda>n. n @ ''='' @ the (map_of environ n)) ns \<and> distinct ns \<and>
     set ns = {n \<in> fst ` set environ. n \<noteq> [] \<and> (n \<in> set exec_allowlist \<or> HasPrefix n ''LC_'' \<or> n \<in> set extra)}"
  using buildExecEnv_names [of environ extra] by (simp add: env_of_def)

text \<open>The captured output of a command is the beginning of what it wrote, at most the limit, in however many
  pieces it was written.\<close>

theorem exec_output_bounded:
  "lb_buf (fold (\<lambda>p l. snd (limitedBuffer_Write l p)) ps \<lparr>lb_buf = [], lb_limit = execOutputLimit, lb_truncated = False\<rparr>) =
     take execOutputLimit (concat ps)"
  using write_all_take [of "\<lparr>lb_buf = [], lb_limit = execOutputLimit, lb_truncated = False\<rparr>" "[]" ps] by (simp add: write_all_def)

text \<open>The option to ignore events has no effect: with any list of ignored events the client does the same as
  with none, for every message.\<close>

theorem ignore_events_has_no_effect:
  "on_event E io (opts\<lparr>ro_ignoreEvents := evs\<rparr>) channel privateKey now msg w =
   on_event E io (opts\<lparr>ro_ignoreEvents := []\<rparr>) channel privateKey now msg w"
proof -
  have p: "parse E (opts\<lparr>ro_ignoreEvents := evs\<rparr>) now data = parse E (opts\<lparr>ro_ignoreEvents := []\<rparr>) now data" for data
  proof -
    have "pm_eventType (stamp pm dt) \<noteq> [] \<Longrightarrow> pm_headers (stamp pm dt) \<noteq> []"
      if "parse_entries E data fs (zero_pm, now) = Inr (pm, dt)" for fs pm dt
    proof -
      have "parsed E zero_pm" by (simp add: parsed_def zero_pm_def)
      then have "parsed E pm" using parsed_entries [of E "(zero_pm, now)" data fs] that by simp
      then show "pm_eventType (stamp pm dt) \<noteq> [] \<Longrightarrow> pm_headers (stamp pm dt) \<noteq> []" by (simp add: parsed_def stamp_def)
    qed
    then show ?thesis unfolding parse_def bindE_def Let_def by (auto split: sum.split)
  qed
  have "handle_message E (opts\<lparr>ro_ignoreEvents := evs\<rparr>) channel privateKey now msg =
      handle_message E (opts\<lparr>ro_ignoreEvents := []\<rparr>) channel privateKey now msg"
  proof -
    have od: "open_data E (opts\<lparr>ro_ignoreEvents := evs\<rparr>) = open_data E (opts\<lparr>ro_ignoreEvents := []\<rparr>)"
      by (simp add: fun_eq_iff open_data_def)
    then have ob: "open_body E (opts\<lparr>ro_ignoreEvents := evs\<rparr>) = open_body E (opts\<lparr>ro_ignoreEvents := []\<rparr>)"
      by (simp add: open_body_def fun_eq_iff split: option.split)
    show ?thesis unfolding handle_message_def p od ob by (rule refl)
  qed
  moreover have "process_message E io (opts\<lparr>ro_ignoreEvents := evs\<rparr>) pm w = process_message E io (opts\<lparr>ro_ignoreEvents := []\<rparr>) pm w" for pm
  proof -
    let ?o1 = "opts\<lparr>ro_ignoreEvents := evs\<rparr>" and ?o2 = "opts\<lparr>ro_ignoreEvents := []\<rparr>"
    have f: "ro_saveDir ?o1 = ro_saveDir ?o2" "ro_noReplay ?o1 = ro_noReplay ?o2" "ro_execCommand ?o1 = ro_execCommand ?o2"
      "ro_targetURL ?o1 = ro_targetURL ?o2" "ro_useHttpie ?o1 = ro_useHttpie ?o2" "ro_localDebugURL ?o1 = ro_localDebugURL ?o2"
      "ro_execOnEvents ?o1 = ro_execOnEvents ?o2" "ro_execEnvVars ?o1 = ro_execEnvVars ?o2" "ro_execTimeout ?o1 = ro_execTimeout ?o2"
      by simp_all
    show ?thesis
      unfolding process_message_def saveData_def script_def replayData_def replay_request_def runExecCommand_def exec_selected_def
        exec_command_def f by (rule refl)
  qed
  ultimately show ?thesis by (simp add: on_event_def split: option.split)
qed

section \<open>Messages that mention \<open>ready\<close>\<close>

text \<open>A message whose text contains the letters of \<open>ready\<close>, in any case and place, is taken for the greeting of
  the stream and dropped: here a webhook whose sender calls itself \<open>AlreadyBot\<close>.\<close>

lemma ready_message_dropped: "connection_message (ev_Data msg) \<Longrightarrow> on_event E io opts channel privateKey now msg w = w"
  by (simp add: on_event_def handle_message_def)

definition ready_request :: web_request where
  "ready_request = demo_request\<lparr>wr_Header := [(''Content-Type'', (''application/json'', [])), (''User-Agent'', (''AlreadyBot'', [])),
     (''X-Gitlab-Token'', (''s3cret'', []))]\<rparr>"

lemma ready_webhook_lost:
  "on_event E io opts channel privateKey now \<lparr>ev_Event = [], ev_Data = json_Marshal (relay_payload demo_env ready_request ''{}'' demo_uuid)\<rparr> w = w"
proof (rule ready_message_dropped)
  have "Contains (ToLowerU (json_Marshal (relay_payload demo_env ready_request ''{}'' demo_uuid))) ''ready''" by code_simp
  then show "connection_message (ev_Data \<lparr>ev_Event = [], ev_Data = json_Marshal (relay_payload demo_env ready_request ''{}'' demo_uuid)\<rparr>)"
    by (simp add: connection_message_def)
qed

section \<open>Time stamps\<close>

text \<open>The layout of the time stamp has the month where the seconds belong: messages of one minute that arrive at
  the same millisecond of their second are saved under the same name, and the later one overwrites
  the earlier one.\<close>

lemma timestamp_lacks_seconds:
  assumes "time_Unix t div 60 = time_Unix t' div 60" "(t - unix_epoch) mod Second div 1000000 = (t' - unix_epoch) mod Second div 1000000"
  shows "format_ts t = format_ts t'"
proof -
  have k: "(s :: int) mod (60 * k) div 60 = s div 60 mod k" if "0 < k" for s k
    using that zmod_zmult2_eq [of k s 60] by simp
  have m: "(s :: int) div 86400 = s div 60 div 1440" "s mod 3600 div 60 = s div 60 mod 60" for s
    using zdiv_zmult2_eq [of 1440 s 60] k [of 60 s] by simp_all
  have h: "(s :: int) mod 86400 div 3600 = s div 60 mod 1440 div 60" for s
    using zdiv_zmult2_eq [of 60 "s mod 86400" 60] k [of 1440 s] by simp
  show ?thesis unfolding format_ts_def Let_def m h assms by simp
qed

section \<open>Versions\<close>

lemma isOlderVersion_less: "isOlderVersion v w \<longleftrightarrow> v < w"
proof (induction v arbitrary: w)
  case Nil
  then show ?case by (cases w) simp_all
next
  case (Cons a v)
  then show ?case by (cases w) auto
qed

text \<open>The text of a version: \<open>v1.2.3\<close>.\<close>

definition version_text :: "nat list \<Rightarrow> string" where
  "version_text ns = CHR ''v'' # Join (map show_nat ns) ''.''"

lemma version_part_show: "n < 9223372036854775808 \<Longrightarrow> version_part (show_nat n) = int n"
proof -
  assume n: "n < 9223372036854775808"
  have d: "list_all is_digit (show_nat n)" by (rule show_nat_digits)
  then have t: "takeWhile is_digit (show_nat n) = show_nat n" by (simp add: list_all_iff)
  obtain c s where c: "show_nat n = c # s" using show_nat_not_Nil by (cases "show_nat n") auto
  then have "is_digit c" using d by simp
  then have "\<not> prefix ''-'' (show_nat n)" "\<not> prefix ''+'' (show_nat n)" using c by (auto simp: is_digit_def)
  then have "ParseInt (takeWhile is_digit (show_nat n)) = Inr (int n)"
    unfolding t using n d show_nat_not_Nil [of n] dec_val_show [of n] by (simp add: ParseInt_def Let_def)
  then show ?thesis by (simp add: version_part_def)
qed

lemma parseVersion_text:
  assumes "3 \<le> length ns" "\<forall>n \<in> set ns. n < 9223372036854775808"
  shows "parseVersion (version_text ns) = map int ns"
proof -
  have "CHR ''.'' \<notin> set (show_nat n)" for n using show_nat_digits [of n] by (auto simp: list_all_iff is_digit_def)
  then have "Split CHR ''.'' (Join (map show_nat ns) ''.'') = map show_nat ns" using assms(1) by (intro Split_Join) auto
  moreover have "TrimPrefix (version_text ns) ''v'' = Join (map show_nat ns) ''.''" by (simp add: TrimPrefix_def version_text_def)
  ultimately show ?thesis using assms by (simp add: parseVersion_def Let_def version_part_show)
qed

text \<open>The version check orders versions by their numbers. For versions of at least three numbers, a client is
  told to upgrade exactly when its list of numbers is lexicographically smaller than the server's.\<close>

theorem version_check_exact:
  assumes "3 \<le> length cs" "3 \<le> length ss" "\<forall>n \<in> set (cs @ ss). n < 9223372036854775808"
  shows "checkServerVersion (Reply 200 (version_text ss) body) (version_text cs) \<noteq> None \<longleftrightarrow> map int cs < map int ss"
proof -
  have "version_text ns \<noteq> [] \<and> version_text ns \<noteq> ''dev''" for ns by (simp add: version_text_def)
  moreover have p: "parseVersion (version_text cs) = map int cs" "parseVersion (version_text ss) = map int ss"
    using assms by (auto intro!: parseVersion_text)
  ultimately show ?thesis by (auto simp: checkServerVersion_def isOlderVersion_less)
qed

theorem version_check_exact_witness:
  "checkServerVersion (Reply 200 (version_text [1, 10, 0]) None) (version_text [1, 9, 3]) \<noteq> None \<and>
   checkServerVersion (Reply 200 (version_text [1, 9, 3]) None) (version_text [1, 10, 0]) = None"
  using version_check_exact [of "[1, 9, 3]" "[1, 10, 0]" None] version_check_exact [of "[1, 10, 0]" "[1, 9, 3]" None]
  by (simp add: Cons_less_Cons)

end
