(* ===== verification/Replay.thy ===== *)
theory Replay
  imports ClientSafety
begin

text \<open>
  Replaying the deliveries of a GitHub hook (\<open>internal/client/replay.go\<close>, \<open>hook_list.go\<close>): the selection of new
  deliveries, the loop that fetches and forwards them, and the command that starts it. The GitHub API is
  a parameter: the answer to each call. A nil dereference is the outcome \<open>Panic\<close>.
\<close>

datatype 'a outcome = Panic | Fail error | Done 'a

record hook_delivery =
  hd_ID :: int
  hd_GUID :: string
  hd_DeliveredAt :: time

record hook_request =
  hr_Headers :: "(string, string) kv"
  hr_RawPayload :: string

text \<open>The details of a delivery; its request may be nil.\<close>

record delivery =
  dl_Request :: "hook_request option"
  dl_DeliveredAt :: time

text \<open>What \<open>GetHookDelivery\<close> returns: delivery and response may be nil.\<close>

record get_reply =
  gr_delivery :: "delivery option"
  gr_status :: "int option"
  gr_err :: "error option"

section \<open>Selection\<close>

text \<open>The loop that swaps the elements \<open>i\<close> and \<open>len - 1 - i\<close>, for \<open>i\<close> from \<open>k - 1\<close> down to 0.\<close>

fun swap_loop :: "nat \<Rightarrow> 'a list \<Rightarrow> 'a list" where
  "swap_loop 0 xs = xs"
| "swap_loop (Suc i) xs = (let opp = length xs - 1 - i in swap_loop i (xs[i := xs ! opp, opp := xs ! i]))"

definition chooseDeliveries :: "time \<Rightarrow> hook_delivery list \<Rightarrow> hook_delivery list" where
  "chooseDeliveries sinceTime dlvs =
     (let ret = takeWhile (\<lambda>d. \<not> time_Before (hd_DeliveredAt d) sinceTime) dlvs in swap_loop (length ret div 2) ret)"

definition next_since :: "time \<Rightarrow> hook_delivery list \<Rightarrow> time" where
  "next_since sinceTime deliveries =
     (if deliveries \<noteq> [] then time_Add (hd_DeliveredAt (last deliveries)) Second else sinceTime)"

section \<open>Forwarding\<close>

text \<open>The three attempts to fetch a delivery: none ends the loop early.\<close>

fun fetch :: "get_reply list \<Rightarrow> delivery option \<Rightarrow> delivery option outcome" where
  "fetch [] d = Done d"
| "fetch (r # rs) d = (case gr_status r of
       None \<Rightarrow> Panic
     | Some st \<Rightarrow> (if st = 404 then fetch rs (gr_delivery r)
         else (case gr_err r of Some e \<Rightarrow> Fail (ErrMsg ''cannot get delivery'') | None \<Rightarrow> fetch rs (gr_delivery r))))"

definition delivery_pm :: "hook_delivery \<Rightarrow> hook_request \<Rightarrow> time \<Rightarrow> payloadMsg" where
  "delivery_pm dv rq at =
     \<lparr>pm_headers = hr_Headers rq, pm_body = hr_RawPayload rq, pm_timestamp = format_ts at,
      pm_contentType = (case kv_get (hr_Headers rq) ''Content-Type'' of None \<Rightarrow> ''application/json'' | Some ct \<Rightarrow> ct),
      pm_eventType = (case kv_get (hr_Headers rq) ''X-GitHub-Event'' of None \<Rightarrow> [] | Some pv \<Rightarrow> event_type pv),
      pm_eventID = hd_GUID dv\<rparr>"

definition replay_delivery :: "client_env \<Rightarrow> client_io \<Rightarrow> replayDataOpts \<Rightarrow> payloadMsg \<Rightarrow> client_world \<Rightarrow> client_world" where
  "replay_delivery E io opts pm w =
     (case replayData io opts pm w of
        (Some _, w1) \<Rightarrow> w1
      | (None, w1) \<Rightarrow>
      (case (if ro_saveDir opts \<noteq> [] then saveData E io opts pm w1 else (None, w1)) of
        (Some _, w2) \<Rightarrow> w2
      | (None, w2) \<Rightarrow> (if ro_execCommand opts \<noteq> [] then snd (runExecCommand io opts pm w2) else w2)))"

text \<open>\<open>get dv\<close> are the answers to the three calls for a delivery.\<close>

fun replay_deliveries ::
  "client_env \<Rightarrow> client_io \<Rightarrow> replayDataOpts \<Rightarrow> (hook_delivery \<Rightarrow> get_reply list) \<Rightarrow> hook_delivery list \<Rightarrow> client_world \<Rightarrow> client_world outcome" where
  "replay_deliveries E io opts get [] w = Done w"
| "replay_deliveries E io opts get (dv # dvs) w = (case fetch (get dv) None of
       Panic \<Rightarrow> Panic
     | Fail e \<Rightarrow> Fail e
     | Done None \<Rightarrow> Panic
     | Done (Some d) \<Rightarrow> (case dl_Request d of
         None \<Rightarrow> Panic
       | Some rq \<Rightarrow> replay_deliveries E io opts get dvs (replay_delivery E io opts (delivery_pm dv rq (dl_DeliveredAt d)) w)))"

text \<open>One turn of the endless loop of \<open>replayHooks\<close>, and its first turns for the answers of the listings.\<close>

definition replay_round ::
  "client_env \<Rightarrow> client_io \<Rightarrow> replayDataOpts \<Rightarrow> (hook_delivery \<Rightarrow> get_reply list) \<Rightarrow> hook_delivery list result \<Rightarrow>
     time \<times> client_world \<Rightarrow> (time \<times> client_world) outcome" where
  "replay_round E io opts get listing st = (case st of (sinceTime, w) \<Rightarrow> case listing of
       Inl e \<Rightarrow> Fail (ErrMsg ''cannot list deliveries'')
     | Inr dlvs \<Rightarrow> (let deliveries = chooseDeliveries sinceTime dlvs in
         case replay_deliveries E io opts get deliveries w of
           Panic \<Rightarrow> Panic | Fail e \<Rightarrow> Fail e | Done w' \<Rightarrow> Done (next_since sinceTime deliveries, w')))"

fun replayHooks ::
  "client_env \<Rightarrow> client_io \<Rightarrow> replayDataOpts \<Rightarrow> (hook_delivery \<Rightarrow> get_reply list) \<Rightarrow> hook_delivery list result list \<Rightarrow>
     time \<times> client_world \<Rightarrow> (time \<times> client_world) outcome" where
  "replayHooks E io opts get [] st = Done st"
| "replayHooks E io opts get (l # ls) st = (case replay_round E io opts get l st of
       Panic \<Rightarrow> Panic | Fail e \<Rightarrow> Fail e | Done st' \<Rightarrow> replayHooks E io opts get ls st')"

section \<open>The command\<close>

text \<open>The lister of hooks and deliveries is set last, after the two listing commands: they run with a nil one.
  \<open>urlParse\<close> and \<open>timeParse\<close> are \<open>url.Parse\<close> and \<open>time.Parse\<close> with the layout of the option.\<close>

datatype ghop = OrgOP string | RepoOP string string
datatype replay_plan = ListHooks | ListDeliveries int | ReplayHooks ghop int string time

definition list_with :: "ghop option \<Rightarrow> replay_plan \<Rightarrow> replay_plan outcome" where
  "list_with g p = (case g of None \<Rightarrow> Panic | Some _ \<Rightarrow> Done p)"

definition replay ::
  "string list \<Rightarrow> bool \<Rightarrow> bool \<Rightarrow> string \<Rightarrow> (string \<Rightarrow> error option) \<Rightarrow> string \<Rightarrow> (string \<Rightarrow> time option) \<Rightarrow> time \<Rightarrow> replay_plan outcome" where
  "replay args list_hooks list_deliveries envTarget urlParse timeSince timeParse now =
     (let arg = (\<lambda>i. if i < length args then args ! i else []);
          orgRepo = arg 0;
          parts = Split CHR ''/'' orgRepo;
          org = (if Contains orgRepo ''/'' then parts ! 0 else orgRepo);
          repo = (if Contains orgRepo ''/'' then parts ! 1 else []);
          hookID = ParseInt (TrimSpace (arg 1));
          required = Fail (ErrMsg ''hook-id is required, use --list-hooks to get the hook id'')
      in if org = [] then Fail (ErrMsg ''at least an org is required or an org/repo'')
      else if list_hooks then list_with None ListHooks
      else if TrimSpace (arg 1) = [] then required
      else (case hookID of Inl _ \<Rightarrow> required
      | Inr i \<Rightarrow>
      if i = 0 then required
      else if list_deliveries then list_with None (ListDeliveries i)
      else if envTarget = [] \<and> length args \<noteq> 3 then Fail (ErrMsg ''missing the target url where to forward the webhook'')
      else (let targetURL = (if envTarget \<noteq> [] then envTarget else arg 2) in
        case urlParse targetURL of Some e \<Rightarrow> Fail e
        | None \<Rightarrow> (case (if timeSince = [] then Some now else timeParse timeSince) of
            None \<Rightarrow> Fail (ErrMsg ''cannot parse time-since'')
          | Some since \<Rightarrow> Done (ReplayHooks (if repo = [] then OrgOP org else RepoOP org repo) i targetURL since)))))"

section \<open>Lemmas\<close>

lemma swap_loop_length [simp]: "length (swap_loop k xs) = length xs"
  by (induction k xs rule: swap_loop.induct) (simp_all add: Let_def)

lemma swap_loop_nth:
  "2 * k \<le> length xs \<Longrightarrow> j < length xs \<Longrightarrow>
     swap_loop k xs ! j = (if j < k \<or> length xs - k \<le> j then xs ! (length xs - 1 - j) else xs ! j)"
proof (induction k xs rule: swap_loop.induct)
  case (2 i xs)
  let ?n = "length xs" and ?ys = "xs[i := xs ! (length xs - 1 - i), length xs - 1 - i := xs ! i]"
  have ys: "swap_loop (Suc i) xs ! j = (if j < i \<or> ?n - i \<le> j then ?ys ! (?n - 1 - j) else ?ys ! j)"
    using "2.IH" [OF refl] "2.prems" by (simp add: Let_def)
  have upd: "?ys ! m = (if m = ?n - 1 - i then xs ! i else if m = i then xs ! (?n - 1 - i) else xs ! m)" if "m < ?n" for m
    using that "2.prems" by (auto simp: nth_list_update)
  show ?case
  proof (cases "j < i \<or> ?n - i \<le> j")
    case True
    have m: "?n - 1 - j < ?n" using "2.prems" by simp
    have m1: "?n - 1 - j \<noteq> i" "?n - 1 - j \<noteq> ?n - 1 - i" using True "2.prems" by auto
    have m2: "j < Suc i \<or> ?n - Suc i \<le> j" using True by auto
    show ?thesis unfolding ys if_P [OF True] if_P [OF m2] upd [OF m] using m1 by simp
  next
    case False
    show ?thesis
    proof (cases "j = i \<or> j = ?n - 1 - i")
      case True
      then have r: "j < Suc i \<or> ?n - Suc i \<le> j" "?n - 1 - j = (if j = i then ?n - 1 - i else i)" using "2.prems" by auto
      have "i \<noteq> ?n - 1 - i" using "2.prems" by auto
      then show ?thesis unfolding ys if_not_P [OF False] if_P [OF r(1)] upd [OF "2.prems"(2)] r(2) using True by auto
    next
      case ne: False
      then have "\<not> (j < Suc i \<or> ?n - Suc i \<le> j)" using False "2.prems" by auto
      then show ?thesis unfolding ys if_not_P [OF False] upd [OF "2.prems"(2)] using ne by simp
    qed
  qed
qed simp

lemma swap_loop_rev: "swap_loop (length xs div 2) xs = rev xs"
proof (rule nth_equalityI)
  fix j assume j: "j < length (swap_loop (length xs div 2) xs)"
  have "swap_loop (length xs div 2) xs ! j = (if j < length xs div 2 \<or> length xs - length xs div 2 \<le> j then xs ! (length xs - 1 - j) else xs ! j)"
    using j by (intro swap_loop_nth) auto
  moreover have "\<not> (j < length xs div 2 \<or> length xs - length xs div 2 \<le> j) \<Longrightarrow> j = length xs - 1 - j" by linarith
  ultimately have "swap_loop (length xs div 2) xs ! j = xs ! (length xs - 1 - j)" by metis
  then show "swap_loop (length xs div 2) xs ! j = rev xs ! j" using j by (simp add: rev_nth)
qed simp

lemma choose_rev: "chooseDeliveries since dlvs = rev (takeWhile (\<lambda>d. since \<le> hd_DeliveredAt d) dlvs)"
  by (simp add: chooseDeliveries_def Let_def swap_loop_rev time_Before_def not_less)

text \<open>On a listing with the newest delivery first the selection is a filter.\<close>

definition newest_first :: "hook_delivery list \<Rightarrow> bool" where
  "newest_first l \<longleftrightarrow> sorted_wrt (\<lambda>a b. hd_DeliveredAt b \<le> hd_DeliveredAt a) l \<and> distinct l"

lemma choose_filter: "newest_first l \<Longrightarrow> chooseDeliveries since l = rev (filter (\<lambda>d. since \<le> hd_DeliveredAt d) l)"
proof -
  have "sorted_wrt (\<lambda>a b. hd_DeliveredAt b \<le> hd_DeliveredAt a) l \<Longrightarrow>
      takeWhile (\<lambda>d. since \<le> hd_DeliveredAt d) l = filter (\<lambda>d. since \<le> hd_DeliveredAt d) l"
    by (induction l) (force simp: filter_empty_conv eq_commute [of "[]"] not_le)+
  then show "newest_first l \<Longrightarrow> ?thesis" by (simp add: choose_rev newest_first_def)
qed

text \<open>Which deliveries the turns of the loop select.\<close>

fun selections :: "time \<Rightarrow> hook_delivery list list \<Rightarrow> hook_delivery list" where
  "selections since [] = []"
| "selections since (l # ls) =
     (let c = rev (filter (\<lambda>d. since \<le> hd_DeliveredAt d) l) in c @ selections (next_since since c) ls)"

lemma chosen_order:
  assumes "newest_first l" "c = rev (filter (\<lambda>d. since \<le> hd_DeliveredAt d) l)"
  shows "sorted (map hd_DeliveredAt c)" "distinct c" "x \<in> set c \<Longrightarrow> since \<le> hd_DeliveredAt x \<and> hd_DeliveredAt x < next_since since c"
    "since \<le> next_since since c"
proof -
  have s: "sorted_wrt (\<lambda>a b. hd_DeliveredAt a \<le> hd_DeliveredAt b) c"
    using assms by (simp add: newest_first_def sorted_wrt_rev sorted_wrt_filter)
  then show m: "sorted (map hd_DeliveredAt c)" by (simp add: sorted_wrt_map)
  show "distinct c" using assms by (simp add: newest_first_def)
  have l: "hd_DeliveredAt x \<le> hd_DeliveredAt (last c)" if "x \<in> set c" for x
    using sorted_ends [OF m, of "hd_DeliveredAt x"] that by (metis emptyE image_eqI last_map list.set(1) list.set_map)
  show "x \<in> set c \<Longrightarrow> since \<le> hd_DeliveredAt x \<and> hd_DeliveredAt x < next_since since c"
    using l [of x] assms(2) by (auto simp: next_since_def time_Add_def Second_def filter_empty_conv)
  have "last c \<in> set c" if "c \<noteq> []" using that by simp
  then show "since \<le> next_since since c" using assms(2) by (auto simp: next_since_def time_Add_def Second_def)
qed

lemma selections_ge: "x \<in> set (selections since ls) \<Longrightarrow> \<forall>l \<in> set ls. newest_first l \<Longrightarrow> since \<le> hd_DeliveredAt x"
proof (induction since ls rule: selections.induct)
  case (2 since l ls)
  let ?c = "rev (filter (\<lambda>d. since \<le> hd_DeliveredAt d) l)"
  have "since \<le> next_since since ?c" using chosen_order(4) [OF _ refl] "2.prems"(2) by simp
  then show ?case using "2.IH" [OF refl] "2.prems" by (fastforce simp: Let_def)
qed simp

lemma selections_order:
  "\<forall>l \<in> set ls. newest_first l \<Longrightarrow> sorted (map hd_DeliveredAt (selections since ls)) \<and> distinct (selections since ls)"
proof (induction since ls rule: selections.induct)
  case (2 since l ls)
  define c where "c = rev (filter (\<lambda>d. since \<le> hd_DeliveredAt d) l)"
  have l: "newest_first l" and ls: "\<forall>l \<in> set ls. newest_first l" using "2.prems" by simp_all
  note c = chosen_order [OF l c_def]
  have lt: "hd_DeliveredAt x < hd_DeliveredAt y" if "x \<in> set c" "y \<in> set (selections (next_since since c) ls)" for x y
    using c(3) [OF that(1)] selections_ge [OF that(2) ls] by simp
  have e: "selections since (l # ls) = c @ selections (next_since since c) ls" by (simp add: c_def Let_def)
  have "sorted (map hd_DeliveredAt (selections (next_since since c) ls)) \<and> distinct (selections (next_since since c) ls)"
    using "2.IH" [OF c_def ls] .
  then show ?case unfolding e using c(1,2) lt by (fastforce simp: sorted_append less_imp_le)
qed simp

text \<open>A GitHub API that answers every request.\<close>

definition good_reply :: "(hook_delivery \<Rightarrow> hook_request) \<Rightarrow> hook_delivery \<Rightarrow> get_reply list" where
  "good_reply req d = replicate 3 \<lparr>gr_delivery = Some \<lparr>dl_Request = Some (req d), dl_DeliveredAt = hd_DeliveredAt d\<rparr>,
     gr_status = Some 200, gr_err = None\<rparr>"

lemma fetch_good: "fetch (good_reply req d) None = Done (Some \<lparr>dl_Request = Some (req d), dl_DeliveredAt = hd_DeliveredAt d\<rparr>)"
  by (simp add: good_reply_def numeral_3_eq_3)

lemma replay_delivery_requests:
  "io_request io (ro_targetURL opts) = None \<Longrightarrow>
     cw_requests (replay_delivery E io opts pm w) = cw_requests w @ [replay_request opts pm]"
  by (auto simp: replay_delivery_def replayData_def case_prod_beta saveData_frame runExec_frame split: option.split)

lemma replay_deliveries_good:
  assumes "io_request io (ro_targetURL opts) = None"
  shows "\<exists>w'. replay_deliveries E io opts (good_reply req) ds w = Done w' \<and>
     cw_requests w' = cw_requests w @ map (\<lambda>d. replay_request opts (delivery_pm d (req d) (hd_DeliveredAt d))) ds"
proof (induction ds arbitrary: w)
  case (Cons d ds)
  then show ?case by (simp add: fetch_good) (metis append.assoc append_Cons append_Nil replay_delivery_requests [OF assms])
qed simp

section \<open>Properties\<close>


definition demo_delivery :: "int \<Rightarrow> hook_delivery" where
  "demo_delivery i = \<lparr>hd_ID = i, hd_GUID = ''guid'', hd_DeliveredAt = seconds i\<rparr>"


section \<open>Departures\<close>

text \<open>A delivery of the second after the last selected one is skipped for good when it is listed later.\<close>

lemma late_delivery_skipped:
  "c \<noteq> [] \<Longrightarrow> hd_DeliveredAt d < hd_DeliveredAt (last c) + Second \<Longrightarrow> d \<notin> set (chooseDeliveries (next_since since c) l)"
  by (auto simp: choose_rev next_since_def time_Add_def dest: set_takeWhileD)

text \<open>A delivery that GitHub does not find three times ends the program with a nil dereference.\<close>

lemma missing_delivery_panics:
  "get d = replicate 3 \<lparr>gr_delivery = None, gr_status = Some 404, gr_err = Some e\<rparr> \<Longrightarrow> replay_deliveries E io opts get (d # ds) w = Panic"
  by (simp add: numeral_3_eq_3)

text \<open>The listing commands run before the lister is set.\<close>

lemma list_hooks_panics: "Split CHR ''/'' orgRepo ! 0 \<noteq> [] \<Longrightarrow> orgRepo \<noteq> [] \<Longrightarrow> replay (orgRepo # args) True b t u ts tp now = Panic"
  by (simp add: replay_def Let_def list_with_def)

end
