(* ===== verification/Login.thy ===== *)
theory Login
  imports Middleware
begin

text \<open>
  Sessions over HTTP \<open>internal/handler/auth.go\<close>: the guard that turns a session cookie into a principal,
  the password login with its throttle, and the logout. The signing key \<open>secret\<close> and the flag \<open>secure\<close>
  are fixed when the server starts.
\<close>

section \<open>Cookies\<close>

definition sessionMaxAge :: int where
  "sessionMaxAge = 86400"

definition setSessionCookie :: "string \<Rightarrow> bool \<Rightarrow> http_response \<Rightarrow> http_response" where
  "setSessionCookie token secure p = p\<lparr>rp_Cookie := Some \<lparr>ck_Value = token, ck_Secure = secure, ck_MaxAge = sessionMaxAge\<rparr>\<rparr>"

definition clearSessionCookie :: "bool \<Rightarrow> http_response \<Rightarrow> http_response" where
  "clearSessionCookie secure p = p\<lparr>rp_Cookie := Some \<lparr>ck_Value = [], ck_Secure = secure, ck_MaxAge = - 1\<rparr>\<rparr>"

text \<open>\<open>url\<close> is the request's URL as a string.\<close>

definition unauthorizedResponse :: "string \<Rightarrow> bool \<Rightarrow> web_request \<Rightarrow> http_response" where
  "unauthorizedResponse url secure r = clearSessionCookie secure
     (if wr_Method r = ''GET''
      then (WriteHeader 302)\<lparr>rp_Header := [(''Location'', ''/?redirect='' @ url)]\<rparr>
      else http_Error ''Unauthorized'' 401)"

section \<open>Guards\<close>

definition RequireAuth :: "env \<Rightarrow> string \<Rightarrow> string \<Rightarrow> bool \<Rightarrow> middleware" where
  "RequireAuth E url secret secure next r s =
     (case r_Cookie r sessionCookieName of
        None \<Rightarrow> (unauthorizedResponse url secure r, s)
      | Some v \<Rightarrow>
      (case DecodeSession (en_C E) (en_now E) v secret of
        Inl _ \<Rightarrow> (unauthorizedResponse url secure r, s)
      | Inr token \<Rightarrow>
      (case ResolvePrincipal (ws_store s) (Some token) of
        None \<Rightarrow> (unauthorizedResponse url secure r, s)
      | Some u \<Rightarrow>
          (if \<not> SessionEpochValid (ws_store s) (Some token) then (unauthorizedResponse url secure r, s)
           else next (withPrincipal r u (st_Groups token)) s))))"

definition RequireAuthDynamic :: "env \<Rightarrow> string \<Rightarrow> string \<Rightarrow> bool \<Rightarrow> middleware" where
  "RequireAuthDynamic E url secret secure next r s =
     (if BuildAuthConfig (en_C E) (ws_store s) = None then next r s
      else RequireAuth E url secret secure next r s)"

section \<open>Handlers\<close>

definition LogoutHandler :: "bool \<Rightarrow> web_handler" where
  "LogoutHandler secure r s = (clearSessionCookie secure ((WriteHeader 302)\<lparr>rp_Header := [(''Location'', ''/'')]\<rparr>), s)"

definition APILogoutHandler :: "bool \<Rightarrow> web_handler" where
  "APILogoutHandler secure r s = (clearSessionCookie secure (writeJSON 200 (JObj [(''ok'', JBool True)])), s)"

definition APIAuthMethodsHandler :: "env \<Rightarrow> web_handler" where
  "APIAuthMethodsHandler E r s =
     (let cfg = BuildAuthConfig (en_C E) (ws_store s);
          localEnabled = (case cfg of None \<Rightarrow> False | Some c \<Rightarrow> ac_InternalEnabled c);
          providers = (case cfg of None \<Rightarrow> [] | Some c \<Rightarrow> if ac_OIDCEnabled c then ac_Providers c else [])
      in (writeJSON 200 (JObj [(''local_enabled'', JBool localEnabled),
            (''oidc_providers'', JArr (map (\<lambda>p. JObj [(''id'', JStr (op_ID p)), (''name'', JStr (op_Name p))]) providers))]), s))"

definition loginThrottleConfig :: "env \<Rightarrow> web_state \<Rightarrow> int \<times> int" where
  "loginThrottleConfig E s = (case GetGlobalConfig (en_C E) (ws_store s) of
       Inl _ \<Rightarrow> (10, 300)
     | Inr cfg \<Rightarrow> (if sc_LoginThrottleAttempts (gc_Server cfg) > 0 then sc_LoginThrottleAttempts (gc_Server cfg) else 10,
                   if sc_LoginThrottleCooldown (gc_Server cfg) > 0 then sc_LoginThrottleCooldown (gc_Server cfg) else 300))"

text \<open>The first account with the name decides.\<close>

fun password_valid :: "crypto \<Rightarrow> internal_user list \<Rightarrow> string \<Rightarrow> string \<Rightarrow> bool" where
  "password_valid C [] username password = False"
| "password_valid C (u # us) username password =
     (if iu_Username u = username then ValidatePassword C (iu_PasswordHash u) password
      else password_valid C us username password)"

definition APILoginHandler :: "env \<Rightarrow> string \<Rightarrow> bool \<Rightarrow> (string \<times> string) decoded \<Rightarrow> web_handler" where
  "APILoginHandler E secret secure dec r s =
     (let C = en_C E; rs = ws_store s; cfg = BuildAuthConfig C rs in
      if (case cfg of None \<Rightarrow> True | Some c \<Rightarrow> \<not> ac_InternalEnabled c)
      then (http_Error ''{\"error\":\"local auth not enabled\"}'' 404, s)
      else (case decodeJSON dec of
        Inl p \<Rightarrow> (p, s)
      | Inr (username, password) \<Rightarrow>
      (let throttleKey = FingerprintLogin C username;
           (attempts, cooldown) = loginThrottleConfig E s;
           (allowed, lt) = LoginThrottle_Allow (en_now E) (ws_throttle s) throttleKey attempts cooldown;
           s1 = s\<lparr>ws_throttle := lt\<rparr> in
       if \<not> allowed then (http_Error ''{\"error\":\"too many login attempts; try again later\"}'' 429, s1)
       else if \<not> password_valid C (case cfg of None \<Rightarrow> [] | Some c \<Rightarrow> ac_Users c) username password
       then (http_Error ''{\"error\":\"invalid credentials\"}'' 401,
         s1\<lparr>ws_bans := RecordCredentialFailure C (en_N E) (en_now E) rs (ws_bans s1) (http_of r) throttleKey\<rparr>)
       else (let s2 = s1\<lparr>ws_throttle := LoginThrottle_Clear lt throttleKey\<rparr> in
         case GetUserByUsername rs username of
           Inl _ \<Rightarrow> (http_Error ''{\"error\":\"invalid credentials\"}'' 401, s2)
         | Inr u \<Rightarrow>
         (case GenerateRandomHex (en_rand E 0) of
           Inl _ \<Rightarrow> (http_Error ''{\"error\":\"failed to create session\"}'' 500, s2)
         | Inr sessionID \<Rightarrow>
           (let token = \<lparr>st_UserID = us_ID u, st_Username = us_Username u, st_Method = ''internal'', st_Provider = [],
                  st_Issuer = [], st_Subject = [], st_ExpiresAt = time_Unix (en_now E) + sessionMaxAge, st_Groups = [],
                  st_SessionID = sessionID, st_AuthEpoch = svc_GetAuthEpoch rs\<rparr>
            in (setSessionCookie (EncodeSession C token secret) secure (writeJSON 200 (JObj [(''ok'', JBool True)])), s2)))))))"

section \<open>Lemmas\<close>

definition login_token :: "env \<Rightarrow> raft_store \<Rightarrow> user \<Rightarrow> string \<Rightarrow> session_token" where
  "login_token E rs u sid = \<lparr>st_UserID = us_ID u, st_Username = us_Username u, st_Method = ''internal'', st_Provider = [],
     st_Issuer = [], st_Subject = [], st_ExpiresAt = time_Unix (en_now E) + sessionMaxAge, st_Groups = [],
     st_SessionID = sid, st_AuthEpoch = svc_GetAuthEpoch rs\<rparr>"

lemma login_success:
  assumes "APILoginHandler E secret secure (Decoded (name, pw)) r s = (p, s')" "rp_Status p = 200"
  shows "\<exists>c u sid. BuildAuthConfig (en_C E) (ws_store s) = Some c \<and> password_valid (en_C E) (ac_Users c) name pw \<and>
     GetUserByUsername (ws_store s) name = Inr u \<and>
     rp_Cookie p = Some \<lparr>ck_Value = EncodeSession (en_C E) (login_token E (ws_store s) u sid) secret, ck_Secure = secure, ck_MaxAge = sessionMaxAge\<rparr> \<and>
     ws_store s' = ws_store s"
  using assms
  by (simp add: APILoginHandler_def Let_def case_prod_beta login_token_def
    split: if_split_asm option.split_asm sum.split_asm) ((elim conjE)?; hypsubst; simp add: setSessionCookie_def; blast?)+

lemma ResolvePrincipal_login:
  "GetUser rs (us_ID u) = Inr u \<Longrightarrow> us_ID u \<noteq> [] \<Longrightarrow> ResolvePrincipal rs (Some (login_token E rs0 u sid)) = Some u"
  by (simp add: ResolvePrincipal_def login_token_def ok_def)

section \<open>Sequences of logins\<close>

text \<open>A sequence of login requests with their times, and what they are answered.\<close>

fun login_run ::
  "env \<Rightarrow> string \<Rightarrow> bool \<Rightarrow> web_state \<Rightarrow> (time \<times> web_request \<times> string \<times> string) list \<Rightarrow> (time \<times> string \<times> http_response) list" where
  "login_run E secret secure s [] = []"
| "login_run E secret secure s ((now, r, name, pw) # calls) =
     (let (p, s') = APILoginHandler (E\<lparr>en_now := now\<rparr>) secret secure (Decoded (name, pw)) r s
      in (now, name, p) # login_run E secret secure s' calls)"

text \<open>What a login does to the throttle, for every password.\<close>

lemma login_effect:
  assumes "BuildAuthConfig (en_C E) (ws_store s) = Some c" "ac_InternalEnabled c" "loginThrottleConfig E s = (a, w)"
    and "LoginThrottle_Allow (en_now E) (ws_throttle s) (FingerprintLogin (en_C E) name) a w = (b, lt)"
    and "APILoginHandler E secret secure (Decoded (name, pw)) r s = (p, s')"
  shows "ws_store s' = ws_store s \<and>
     ws_throttle s' = (if b \<and> password_valid (en_C E) (ac_Users c) name pw then LoginThrottle_Clear lt (FingerprintLogin (en_C E) name) else lt) \<and>
     (\<not> password_valid (en_C E) (ac_Users c) name pw \<longrightarrow> rp_Status p = (if b then 401 else 429))"
proof (cases "b \<and> password_valid (en_C E) (ac_Users c) name pw")
  case False
  then show ?thesis using assms by (auto simp: APILoginHandler_def Let_def split: if_splits)
next
  case True
  then show ?thesis
    using assms by (auto simp: APILoginHandler_def Let_def split: sum.splits)
qed

lemma throttle_config_now: "loginThrottleConfig (E\<lparr>en_now := now\<rparr>) s = loginThrottleConfig E s"
  by (simp add: loginThrottleConfig_def)

lemma throttle_config_cong: "ws_store s' = ws_store s \<Longrightarrow> loginThrottleConfig E s' = loginThrottleConfig E s"
  by (simp add: loginThrottleConfig_def)

text \<open>The times at which a wrong password of a name was compared.\<close>

definition compared :: "string \<Rightarrow> (time \<times> string \<times> http_response) list \<Rightarrow> time list" where
  "compared name run = map fst (filter (\<lambda>(u, n, p). n = name \<and> rp_Status p = 401) run)"

lemma compared_Cons: "compared name ((u, n, p) # run) = (if n = name \<and> rp_Status p = 401 then u # compared name run else compared name run)"
  by (simp add: compared_def)

definition window_bounded :: "duration \<Rightarrow> int \<Rightarrow> time list \<Rightarrow> bool" where
  "window_bounded W a xs \<longleftrightarrow> (\<forall>t. int (length (filter (\<lambda>u. t - W < u \<and> u \<le> t) xs)) \<le> a)"

lemma length_filter_imp: "(\<And>x. P x \<Longrightarrow> Q x) \<Longrightarrow> length (filter P xs) \<le> length (filter Q xs)"
  by (induction xs) (auto simp: le_SucI)

lemma window_bounded_snoc:
  assumes "window_bounded W a xs" "int (length (filter (\<lambda>u. now - W < u) xs)) < a"
  shows "window_bounded W a (xs @ [now])"
  unfolding window_bounded_def
proof
  fix t
  show "int (length (filter (\<lambda>u. t - W < u \<and> u \<le> t) (xs @ [now]))) \<le> a"
  proof (cases "now \<le> t")
    case True
    then have "length (filter (\<lambda>u. t - W < u \<and> u \<le> t) xs) \<le> length (filter (\<lambda>u. now - W < u) xs)"
      by (intro length_filter_imp) auto
    then show ?thesis using assms(2) by simp
  next
    case False
    then show ?thesis using assms(1) by (simp add: window_bounded_def)
  qed
qed

text \<open>The state of the throttle between two logins: its invariant holds, also after a correct login has cleared a name.\<close>

lemma entry_del: "entry (kv_del k m) k' = (if k' = k then [] else entry m k')"
  by (simp add: entry_def kvm.get_del)

lemma lt_inv_Clear: "lt_inv w lt t \<Longrightarrow> lt_inv w (LoginThrottle_Clear lt k) t"
  by (auto simp: lt_inv_def LoginThrottle_Clear_def log_ok_def entry_del kvm.wf_del)

lemma entry_Allow_other: "k' \<noteq> k \<Longrightarrow> entry (lt_attempts (snd (LoginThrottle_Allow now lt k a w))) k' = entry (lt_attempts lt) k'"
  by (simp add: LoginThrottle_Allow_def Let_def entry_put)

lemma later_window: "now \<le> u \<Longrightarrow> filter (\<lambda>x. u - W < x) (filter (\<lambda>x. now - W < x) xs) = filter (\<lambda>x :: time. u - W < x) xs"
  by (auto simp: filter_filter intro!: filter_cong)

lemma login_step_inv:
  assumes "BuildAuthConfig (en_C E) (ws_store s) = Some c" "ac_InternalEnabled c" "loginThrottleConfig E s = (a, w)"
    and "lt_inv w (ws_throttle s) t" "t \<le> now" "APILoginHandler (E\<lparr>en_now := now\<rparr>) secret secure (Decoded (n, pw)) r s = (p, s')"
  shows "ws_store s' = ws_store s" "lt_inv w (ws_throttle s') now"
proof -
  obtain b lt where l: "LoginThrottle_Allow now (ws_throttle s) (FingerprintLogin (en_C E) n) a w = (b, lt)" by fastforce
  have "lt_inv w lt now" using login_window.inv_after [OF assms(4,5), of "FingerprintLogin (en_C E) n" a] l by simp
  then show "ws_store s' = ws_store s" "lt_inv w (ws_throttle s') now"
    using login_effect [of "E\<lparr>en_now := now\<rparr>" s c a w n b lt secret secure pw r p s'] assms(1-3,6) l lt_inv_Clear
    by (auto simp: throttle_config_now)
qed

text \<open>A stretch of logins without a correct one for the name, with the comparisons \<open>G\<close> made in it so far.\<close>

lemma stretch_bounded:
  assumes "BuildAuthConfig (en_C E) (ws_store s) = Some c" "ac_InternalEnabled c" "loginThrottleConfig E s = (a, w)"
    and "lt_inv w (ws_throttle s) t" "sorted (t # map fst calls)" "0 < a" "clampWindow w = w" "0 < seconds w"
    and "\<forall>(now, r, n, pw) \<in> set calls. FingerprintLogin (en_C E) n = FingerprintLogin (en_C E) name \<longrightarrow> \<not> password_valid (en_C E) (ac_Users c) n pw"
    and "window_bounded (seconds w) a G"
    and "\<And>u. t \<le> u \<Longrightarrow> length (filter (\<lambda>x. u - seconds w < x) G) \<le>
       length (filter (\<lambda>x. u - seconds w < x) (entry (lt_attempts (ws_throttle s)) (FingerprintLogin (en_C E) name)))"
  shows "window_bounded (seconds w) a (G @ compared name (login_run E secret secure s calls))"
  using assms
proof (induction calls arbitrary: s t G)
  case Nil
  then show ?case by (simp add: compared_def)
next
  case (Cons call calls)
  let ?k = "FingerprintLogin (en_C E) name" and ?W = "seconds w"
  obtain now r n pw where call: "call = (now, r, n, pw)" by (cases call)
  obtain p s' where h: "APILoginHandler (E\<lparr>en_now := now\<rparr>) secret secure (Decoded (n, pw)) r s = (p, s')" by fastforce
  obtain b lt where l: "LoginThrottle_Allow now (ws_throttle s) (FingerprintLogin (en_C E) n) a w = (b, lt)" by fastforce
  have t: "t \<le> now" "sorted (now # map fst calls)" using Cons.prems(5) by (simp_all add: call)
  note e = login_effect [of "E\<lparr>en_now := now\<rparr>" s c a w n b lt secret secure pw r p s']
  have e: "ws_store s' = ws_store s"
    "ws_throttle s' = (if b \<and> password_valid (en_C E) (ac_Users c) n pw then LoginThrottle_Clear lt (FingerprintLogin (en_C E) n) else lt)"
    "\<not> password_valid (en_C E) (ac_Users c) n pw \<longrightarrow> rp_Status p = (if b then 401 else 429)"
    using e Cons.prems(1-3) h l by (simp_all add: throttle_config_now)
  have inv: "lt_inv w (ws_throttle s') now" by (rule login_step_inv(2) [OF Cons.prems(1-4) t(1) h])
  have wrong: "FingerprintLogin (en_C E) n = ?k \<Longrightarrow> \<not> password_valid (en_C E) (ac_Users c) n pw" using Cons.prems(9) by (simp add: call)
  have cfg: "BuildAuthConfig (en_C E) (ws_store s') = Some c" "loginThrottleConfig E s' = (a, w)"
    unfolding e(1) throttle_config_cong [OF e(1)] by (rule Cons.prems)+
  have rest: "\<forall>(now, r, n, pw) \<in> set calls. FingerprintLogin (en_C E) n = ?k \<longrightarrow> \<not> password_valid (en_C E) (ac_Users c) n pw"
    using Cons.prems(9) by simp
  define G' where "G' = (if n = name \<and> rp_Status p = 401 then G @ [now] else G)"
  let ?log = "\<lambda>st. entry (lt_attempts st) ?k"
  have log: "\<exists>zs. filter (\<lambda>x. u - ?W < x) (?log (ws_throttle s')) = filter (\<lambda>x. u - ?W < x) (?log (ws_throttle s) @ zs) \<and>
      (n = name \<and> rp_Status p = 401 \<longrightarrow> zs = [now])" if "now \<le> u" for u
  proof (cases "FingerprintLogin (en_C E) n = ?k")
    case True
    then have "ws_throttle s' = lt" using e(2) wrong by simp
    moreover have "filter (\<lambda>x. now - ?W < x) (?log lt) = filter (\<lambda>x. now - ?W < x) (?log (ws_throttle s)) @ (if b then [now] else [])"
      using login_window.log_after [OF Cons.prems(4) t(1), of "FingerprintLogin (en_C E) n" a ?k] l True Cons.prems(7,8) by simp
    then have "filter (\<lambda>x. now - ?W < x) (?log lt) = filter (\<lambda>x. now - ?W < x) (?log (ws_throttle s) @ (if b then [now] else []))"
      using Cons.prems(8) by simp
    then have "filter (\<lambda>x. u - ?W < x) (?log lt) = filter (\<lambda>x. u - ?W < x) (?log (ws_throttle s) @ (if b then [now] else []))"
      using later_window [OF that] by metis
    ultimately show ?thesis using e(3) wrong [OF True] by (intro exI [of _ "if b then [now] else []"]) auto
  next
    case False
    then have "?log (ws_throttle s') = ?log (ws_throttle s)"
      using e(2) l entry_Allow_other [of ?k "FingerprintLogin (en_C E) n" now "ws_throttle s" a w]
      by (simp add: LoginThrottle_Clear_def entry_del)
    then show ?thesis using False by (intro exI [of _ "[]"]) auto
  qed
  have "window_bounded ?W a G'"
  proof (cases "n = name \<and> rp_Status p = 401")
    case True
    then have "b" using e(3) wrong by (auto split: if_splits)
    then have "int (length (filter (\<lambda>u. now - ?W < u) (?log (ws_throttle s)))) < a"
      using login_window.allow_iff [OF Cons.prems(4) t(1), of ?k a] l True Cons.prems(6,7) by simp
    then have "int (length (filter (\<lambda>u. now - ?W < u) G)) < a" using Cons.prems(11) [OF t(1)] by linarith
    then show ?thesis using window_bounded_snoc [OF Cons.prems(10)] True by (simp add: G'_def)
  qed (use Cons.prems(10) in \<open>auto simp: G'_def\<close>)
  moreover have "length (filter (\<lambda>x. u - ?W < x) G') \<le> length (filter (\<lambda>x. u - ?W < x) (?log (ws_throttle s')))" if "now \<le> u" for u
  proof -
    obtain zs where z: "filter (\<lambda>x. u - ?W < x) (?log (ws_throttle s')) = filter (\<lambda>x. u - ?W < x) (?log (ws_throttle s) @ zs)"
      "n = name \<and> rp_Status p = 401 \<longrightarrow> zs = [now]" using log [OF \<open>now \<le> u\<close>] by blast
    have "length (filter (\<lambda>x. u - ?W < x) G) \<le> length (filter (\<lambda>x. u - ?W < x) (?log (ws_throttle s)))"
      using Cons.prems(11) [of u] t(1) that by simp
    then show ?thesis using z by (simp add: G'_def)
  qed
  ultimately have "window_bounded ?W a (G' @ compared name (login_run E secret secure s' calls))"
    using Cons.IH [OF cfg(1) Cons.prems(2) cfg(2) inv t(2) Cons.prems(6-8) rest] by blast
  then show ?case using h by (cases "n = name \<and> rp_Status p = 401") (auto simp: call compared_Cons G'_def)
qed

lemma login_run_split:
  assumes "BuildAuthConfig (en_C E) (ws_store s) = Some c" "ac_InternalEnabled c" "loginThrottleConfig E s = (a, w)"
    and "lt_inv w (ws_throttle s) t" "sorted (t # map fst (earlier @ calls))"
  shows "\<exists>s1 t1. ws_store s1 = ws_store s \<and> lt_inv w (ws_throttle s1) t1 \<and> sorted (t1 # map fst calls) \<and>
     login_run E secret secure s (earlier @ calls) = login_run E secret secure s earlier @ login_run E secret secure s1 calls \<and>
     length (login_run E secret secure s earlier) = length earlier"
  using assms
proof (induction earlier arbitrary: s t)
  case Nil
  then show ?case by auto
next
  case (Cons call earlier)
  obtain now r n pw where call: "call = (now, r, n, pw)" by (cases call)
  obtain p s' where h: "APILoginHandler (E\<lparr>en_now := now\<rparr>) secret secure (Decoded (n, pw)) r s = (p, s')" by fastforce
  have t: "t \<le> now" "sorted (now # map fst (earlier @ calls))" using Cons.prems(5) by (auto simp: call)
  note i = login_step_inv [OF Cons.prems(1-4) t(1) h]
  have cfg: "BuildAuthConfig (en_C E) (ws_store s') = Some c" "loginThrottleConfig E s' = (a, w)"
    unfolding i(1) throttle_config_cong [OF i(1)] by (rule Cons.prems)+
  from Cons.IH [OF cfg(1) Cons.prems(2) cfg(2) i(2) t(2)] obtain s1 t1 where
    "ws_store s1 = ws_store s'" "lt_inv w (ws_throttle s1) t1" "sorted (t1 # map fst calls)"
    "login_run E secret secure s' (earlier @ calls) = login_run E secret secure s' earlier @ login_run E secret secure s1 calls"
    "length (login_run E secret secure s' earlier) = length earlier"
    by blast
  then show ?case using h i(1) by (auto simp: call)
qed

section \<open>A concrete set of accounts\<close>

text \<open>A store with the account \<open>ann\<close> whose password is \<open>pw\<close>.\<close>

definition demo_ann :: user where
  "demo_ann = (demo_user ''ann'' ''ann'')\<lparr>us_PasswordHash := ''$2a$pw'', us_Roles := [''admin''], us_Channels := [''*'']\<rparr>"

lemma demo_ids: "us_ID demo_ann = ''ann''" "us_Username demo_ann = ''ann''"
  by (simp_all add: demo_ann_def demo_user_def)

definition demo_accounts :: raft_store where
  "demo_accounts = with_bucket (demo_store\<lparr>rs_keeper := None\<rparr>)
     [(''/users/ann/'', marshal_user demo_ann), (''/users/by-username/ann/'', usernameIndexValue ''ann'')]"

lemma demo_accounts_ready: "store_ready demo_accounts" "rs_keeper demo_accounts = None"
  "bucket demo_accounts = [(''/users/ann/'', marshal_user demo_ann), (''/users/by-username/ann/'', usernameIndexValue ''ann'')]"
proof -
  have "store_ready (demo_store\<lparr>rs_keeper := None\<rparr>)" using demo_store_ready(1) by (simp add: store_ready_def)
  then show "store_ready demo_accounts" unfolding demo_accounts_def by (rule store_ready_with) (simp add: kv_wf_def)
qed (simp_all add: demo_accounts_def)

lemma demo_accounts_keys: "listFSMKeys (rs_db demo_accounts) p = Inr (filter (prefix p) [''/users/ann/'', ''/users/by-username/ann/''])"
  by (simp add: keys_ready [OF demo_accounts_ready(1)] demo_accounts_ready kv_keys_def)

lemma demo_accounts_reads:
  "GetUser demo_accounts ''ann'' = Inr demo_ann" "GetUserByUsername demo_accounts ''ann'' = Inr demo_ann"
  "GetGlobalConfig C demo_accounts = Inr DefaultGlobalConfig" "OIDCProviders C demo_accounts = Inr []"
  "InternalAuthEnabled demo_accounts = Inr None" "svc_GetAuthEpoch demo_accounts = 0"
proof -
  note r = demo_accounts_ready(1)
  show g: "GetUser demo_accounts ''ann'' = Inr demo_ann"
    by (simp add: GetUser_ready [OF r] demo_accounts_ready userKey_def kv_get_Cons user_roundtrip)
  have "kv_get (bucket demo_accounts) (usernameIndexKey ''ann'' @ ''/'') = Some (usernameIndexValue ''ann'')"
    by (simp add: demo_accounts_ready usernameIndexKey_def kv_get_Cons)
  then show "GetUserByUsername demo_accounts ''ann'' = Inr demo_ann"
    by (simp add: GetUserByUsername_ready [OF r] usernameIndex_roundtrip g)
  show "GetGlobalConfig C demo_accounts = Inr DefaultGlobalConfig"
    by (simp add: GetGlobalConfig_def get_ready [OF r] demo_accounts_ready kv_get_Cons openConfig_def)
  show "OIDCProviders C demo_accounts = Inr []"
    by (simp add: OIDCProviders_def get_ready [OF r] demo_accounts_ready kv_get_Cons)
  show "InternalAuthEnabled demo_accounts = Inr None"
    by (simp add: InternalAuthEnabled_def get_ready [OF r] demo_accounts_ready kv_get_Cons)
  show "svc_GetAuthEpoch demo_accounts = 0"
    by (simp add: svc_GetAuthEpoch_def GetAuthEpoch_def get_ready [OF r] demo_accounts_ready kv_get_Cons)
qed

lemma demo_accounts_list: "ListUsers demo_accounts = Inr [demo_ann]"
  by (simp add: ListUsers_def demo_accounts_keys segment_def TrimPrefix_def get_ready [OF demo_accounts_ready(1)]
      demo_accounts_ready kv_get_Cons user_roundtrip userKey_def)

definition demo_config :: auth_config where
  "demo_config = \<lparr>ac_InternalEnabled = True, ac_Users = [\<lparr>iu_Username = ''ann'', iu_PasswordHash = ''$2a$pw''\<rparr>],
     ac_OIDCEnabled = False, ac_Providers = []\<rparr>"

lemma demo_accounts_config: "BuildAuthConfig C demo_accounts = Some demo_config"
  by (simp add: BuildAuthConfig_def IsInternalAuthEnabled_def demo_accounts_list demo_accounts_reads demo_config_def demo_ann_def demo_user_def)

definition demo_desk :: web_state where
  "demo_desk = demo_web\<lparr>ws_store := demo_accounts\<rparr>"

lemma demo_throttle: "loginThrottleConfig demo_env demo_desk = (10, 300)"
  by (simp add: loginThrottleConfig_def demo_desk_def demo_accounts_reads DefaultGlobalConfig_def)

definition demo_login :: "http_response \<times> web_state" where
  "demo_login = APILoginHandler demo_env ''k'' True (Decoded (''ann'', ''pw'')) demo_request demo_desk"

lemma demo_login_ok: "\<exists>ck. rp_Status (fst demo_login) = 200 \<and> rp_Cookie (fst demo_login) = Some ck"
proof -
  have "fst (LoginThrottle_Allow unix_epoch NewLoginThrottle k 10 300)" for k
    by (simp add: LoginThrottle_Allow_def NewLoginThrottle_def entry_def Let_def)
  moreover have "password_valid toy_crypto (ac_Users demo_config) ''ann'' ''pw''" "ac_InternalEnabled demo_config"
    by (simp_all add: demo_config_def ValidatePassword_def toy_crypto_def)
  moreover have "GenerateRandomHex (en_rand demo_env 0) = Inr (hex_EncodeToString (replicate 16 CHR ''r''))"
    by (simp add: GenerateRandomHex_def demo_env_def of_option_def)
  moreover have "ws_store demo_desk = demo_accounts" "ws_throttle demo_desk = NewLoginThrottle"
    by (simp_all add: demo_desk_def demo_web_def)
  ultimately show ?thesis
    unfolding demo_login_def APILoginHandler_def demo_throttle
    by (simp add: demo_accounts_config demo_accounts_reads Let_def case_prod_beta setSessionCookie_def)
qed

text \<open>The same accounts with a damaged server section.\<close>

definition demo_damaged :: raft_store where
  "demo_damaged = with_bucket (demo_store\<lparr>rs_keeper := None\<rparr>)
     [(''/global/server/'', JStr ''damaged''), (''/users/ann/'', marshal_user demo_ann)]"

lemma demo_damaged_ready: "store_ready demo_damaged"
  "bucket demo_damaged = [(''/global/server/'', JStr ''damaged''), (''/users/ann/'', marshal_user demo_ann)]"
proof -
  have "store_ready (demo_store\<lparr>rs_keeper := None\<rparr>)" using demo_store_ready(1) by (simp add: store_ready_def)
  then show "store_ready demo_damaged" unfolding demo_damaged_def by (rule store_ready_with) (simp add: kv_wf_def)
qed (simp add: demo_damaged_def)

lemma demo_damaged_reads: "GetGlobalConfig C demo_damaged = Inl json_error" "GetUser demo_damaged ''ann'' = Inr demo_ann"
  "svc_GetAuthEpoch demo_damaged = 0" "GetRole demo_damaged ''admin'' = Inr \<lparr>ro_Name = ''admin'', ro_Permissions = [''*'']\<rparr>"
proof -
  note r = demo_damaged_ready(1)
  have "unmarshal_server_config (JStr ''damaged'') = None" by (simp add: unmarshal_server_config_def)
  then show "GetGlobalConfig C demo_damaged = Inl json_error"
    by (simp add: GetGlobalConfig_def get_ready [OF r] demo_damaged_ready kv_get_Cons)
  show "GetUser demo_damaged ''ann'' = Inr demo_ann"
    by (simp add: GetUser_ready [OF r] demo_damaged_ready userKey_def kv_get_Cons user_roundtrip)
  show "svc_GetAuthEpoch demo_damaged = 0"
    by (simp add: svc_GetAuthEpoch_def GetAuthEpoch_def get_ready [OF r] demo_damaged_ready kv_get_Cons)
  show "GetRole demo_damaged ''admin'' = Inr \<lparr>ro_Name = ''admin'', ro_Permissions = [''*'']\<rparr>"
    by (simp add: GetRole_def get_ready [OF r] demo_damaged_ready roleKey_def kv_get_Cons DefaultRoles_def)
qed

definition demo_forged :: session_token where
  "demo_forged = demo_session\<lparr>st_UserID := ''ann'', st_Method := ''internal'', st_AuthEpoch := 0, st_ExpiresAt := 9999999999, st_Groups := []\<rparr>"

section \<open>Properties\<close>

text \<open>C24: A login works, and only with the password. When the login handler answers 200, the submitted password
  is valid for an account of the name, and the cookie it sets is accepted by the guard of the API
  as long as a day has not passed and neither the session epoch nor the account has changed: the
  request goes on as that account, without groups.\<close>

theorem login_opens_session:
  assumes "APILoginHandler E secret secure (Decoded (name, pw)) r s = (p, s')" "rp_Status p = 200"
    and "rp_Cookie p = Some ck" "wr_Cookies r' = [(sessionCookieName, ck_Value ck)]"
    and "en_C E' = en_C E" "time_Unix (en_now E') \<le> time_Unix (en_now E) + 86400"
    and "svc_GetAuthEpoch (ws_store t) = svc_GetAuthEpoch (ws_store s)"
    and "\<And>u. GetUserByUsername (ws_store s) name = Inr u \<Longrightarrow> us_ID u \<noteq> [] \<and> GetUser (ws_store t) (us_ID u) = Inr u"
  shows "\<exists>u c. GetUserByUsername (ws_store s) name = Inr u \<and> BuildAuthConfig (en_C E) (ws_store s) = Some c \<and>
     password_valid (en_C E) (ac_Users c) name pw \<and>
     RequireAuth E' url secret secure' next r' t = next (withPrincipal r' u []) t"
proof -
  obtain c u sid where l: "BuildAuthConfig (en_C E) (ws_store s) = Some c" "password_valid (en_C E) (ac_Users c) name pw"
    "GetUserByUsername (ws_store s) name = Inr u"
    "rp_Cookie p = Some \<lparr>ck_Value = EncodeSession (en_C E) (login_token E (ws_store s) u sid) secret, ck_Secure = secure, ck_MaxAge = sessionMaxAge\<rparr>"
    using login_success [OF assms(1,2)] by blast
  let ?t = "login_token E (ws_store s) u sid"
  have "r_Cookie r' sessionCookieName = Some (EncodeSession (en_C E) ?t secret)"
    using assms(3,4) l(4) by (auto simp: r_Cookie_def)
  moreover have "DecodeSession (en_C E') (en_now E') (EncodeSession (en_C E) ?t secret) secret = Inr ?t"
    using assms(5,6) by (simp add: decode_encode_session) (simp add: login_token_def sessionMaxAge_def)
  moreover have "ResolvePrincipal (ws_store t) (Some ?t) = Some u" using assms(8) [OF l(3)] by (intro ResolvePrincipal_login) simp_all
  moreover have "SessionEpochValid (ws_store t) (Some ?t)" using assms(7) by (simp add: SessionEpochValid_def login_token_def)
  ultimately have "RequireAuth E' url secret secure' next r' t = next (withPrincipal r' u []) t"
    by (simp add: RequireAuth_def) (simp add: login_token_def)
  then show ?thesis using l by blast
qed

theorem login_opens_session_witness:
  "\<exists>ck. rp_Cookie (fst demo_login) = Some ck \<and>
     RequireAuth demo_env ''/api'' ''k'' True (\<lambda>r s. (WriteHeader 204, s))
       (demo_request\<lparr>wr_Cookies := [(sessionCookieName, ck_Value ck)]\<rparr>) demo_desk = (WriteHeader 204, demo_desk)"
proof -
  obtain ck where ck: "rp_Status (fst demo_login) = 200" "rp_Cookie (fst demo_login) = Some ck" using demo_login_ok by blast
  have u: "GetUserByUsername (ws_store demo_desk) ''ann'' = Inr demo_ann" by (simp add: demo_desk_def demo_accounts_reads)
  have g: "us_ID u \<noteq> [] \<and> GetUser (ws_store demo_desk) (us_ID u) = Inr u" if "GetUserByUsername (ws_store demo_desk) ''ann'' = Inr u" for u
    using that u demo_accounts_reads(1) by (auto simp: demo_desk_def demo_ids)
  let ?r = "demo_request\<lparr>wr_Cookies := [(sessionCookieName, ck_Value ck)]\<rparr>"
  have "RequireAuth demo_env ''/api'' ''k'' True (\<lambda>r s. (WriteHeader 204, s)) ?r demo_desk = (WriteHeader 204, demo_desk)"
    using login_opens_session [of demo_env "''k''" True "''ann''" "''pw''" demo_request demo_desk "fst demo_login" "snd demo_login" ck ?r
        demo_env demo_desk "''/api''" True "\<lambda>r s. (WriteHeader 204, s)"] ck g
    by (simp add: demo_login_def [symmetric]) (elim conjE exE)
  then show ?thesis using ck(2) by blast
qed



text \<open>While the global configuration cannot be read, sessions can be forged: the key that checks the cookies
  of channel requests is then derived from the empty secret, so anybody can sign a session for any
  account, and the channel guard lets it through with the account's permissions.\<close>

theorem unreadable_config_forges_sessions:
  assumes "GetGlobalConfig (en_C E) (ws_store s) = Inl e"
    and "st_Method t \<noteq> ''oidc''" "st_UserID t = us_ID u" "us_ID u \<noteq> []" "GetUser (ws_store s) (us_ID u) = Inr u"
    and "st_AuthEpoch t = svc_GetAuthEpoch (ws_store s)" "time_Unix (en_now E) \<le> st_ExpiresAt t"
    and "wr_Cookies r = [(sessionCookieName, EncodeSession (en_C E) t (DeriveSessionSecret (en_C E) []))]"
    and "UserHasPermission (en_C E) (ws_store s) (Some u) (st_Groups t) PermChannelWrite (URLParam r ''channel'')"
  shows "ChannelAccessMiddleware E ''produce'' next r s = next (withPrincipal r u (st_Groups t)) s"
proof -
  have "SessionSecret (en_C E) (ws_store s) = []" using assms(1) by (simp add: SessionSecret_def)
  then have "request_session E r s = Some t"
    using assms(7,8) by (simp add: request_session_def r_Cookie_def decode_encode_session)
  moreover have "ResolvePrincipal (ws_store s) (Some t) = Some u" using assms(2-5) by (simp add: ResolvePrincipal_def ok_def)
  ultimately show ?thesis
    using assms(6,9) by (simp add: ChannelAccess_cases session_grants_def access_enter_def SessionEpochValid_def)
qed

theorem unreadable_config_forges_sessions_witness:
  "ChannelAccessMiddleware demo_env ''produce'' (\<lambda>r s. (WriteHeader 204, s))
     (demo_request\<lparr>wr_Cookies := [(sessionCookieName, EncodeSession toy_crypto demo_forged (DeriveSessionSecret toy_crypto []))]\<rparr>)
     (demo_web\<lparr>ws_store := demo_damaged\<rparr>) = (WriteHeader 204, demo_web\<lparr>ws_store := demo_damaged\<rparr>)"
proof -
  let ?r = "demo_request\<lparr>wr_Cookies := [(sessionCookieName, EncodeSession toy_crypto demo_forged (DeriveSessionSecret toy_crypto []))]\<rparr>"
  let ?s = "demo_web\<lparr>ws_store := demo_damaged\<rparr>"
  have p: "UserHasPermission toy_crypto demo_damaged (Some demo_ann) [] PermChannelWrite (URLParam ?r ''channel'')"
    by (simp add: UserHasPermission_def checkGlobalRolePermissions_def demo_ann_def demo_user_def demo_damaged_reads
        hasChannelAccessList_def)
  show ?thesis
    using unreadable_config_forges_sessions [of demo_env ?s json_error demo_forged demo_ann ?r "\<lambda>r s. (WriteHeader 204, s)"] p
    by (simp add: demo_damaged_reads demo_ids demo_forged_def demo_session_def time_Unix_def unix_epoch_def)
qed

end
