(* ===== verification/Oidc.thy ===== *)
theory Oidc
  imports Login
begin

text \<open>
  Login through an OpenID Connect provider: \<open>internal/handler/oidc.go\<close>. The handlers set several cookies, so
  they return the response with the list of cookies. The network, \<open>net/url\<close> and the token verifier of the
  OIDC library are the record \<open>oidc_net\<close>.
\<close>

section \<open>Redirects and cookies of \<open>net/http\<close>\<close>

record url_parts =
  up_Scheme :: string
  up_Host :: string
  up_Hostname :: string
  up_Path :: string

text \<open>\<open>path.Clean\<close> of a rooted path.\<close>

fun clean_parts :: "string list \<Rightarrow> string list \<Rightarrow> string list" where
  "clean_parts acc [] = rev acc"
| "clean_parts acc (p # ps) =
     (if p = [] \<or> p = ''.'' then clean_parts acc ps
      else if p = ''..'' then clean_parts (tl acc) ps
      else clean_parts (p # acc) ps)"

definition path_Clean :: "string \<Rightarrow> string" where
  "path_Clean s = ''/'' @ Join (clean_parts [] (Split CHR ''/'' s)) ''/''"

definition hexEscapeNonASCII :: "string \<Rightarrow> string" where
  "hexEscapeNonASCII s = concat (map (\<lambda>c. if CHR 0x7F < c then CHR ''%'' # hex_EncodeToString [c] else [c]) s)"

text \<open>The \<open>Location\<close> that \<open>http.Redirect\<close> sets. A relative URL is resolved against the request's path and
  cleaned up to its query.\<close>

definition redirect_location :: "(string \<Rightarrow> url_parts option) \<Rightarrow> string \<Rightarrow> string \<Rightarrow> string" where
  "redirect_location urlparse oldpath url = hexEscapeNonASCII
     (case urlparse url of
        Some u \<Rightarrow> (if up_Scheme u = [] \<and> up_Host u = [] then
            (let old = (if oldpath = [] then ''/'' else oldpath);
                 olddir = rev (dropWhile (\<lambda>c. c \<noteq> CHR ''/'') (rev old));
                 abs = (if \<not> HasPrefix url ''/'' then olddir @ url else url);
                 p = takeWhile (\<lambda>c. c \<noteq> CHR ''?'') abs; q = dropWhile (\<lambda>c. c \<noteq> CHR ''?'') abs;
                 c = path_Clean p
             in (if HasSuffix p ''/'' \<and> \<not> HasSuffix c ''/'' then c @ ''/'' else c) @ q)
          else url)
      | None \<Rightarrow> url)"

definition http_Redirect :: "(string \<Rightarrow> url_parts option) \<Rightarrow> web_request \<Rightarrow> string \<Rightarrow> http_response" where
  "http_Redirect urlparse r url = (WriteHeader 302)\<lparr>rp_Header := [(''Location'', redirect_location urlparse (wr_Path r) url)]\<rparr>"

text \<open>\<open>http.SetCookie\<close> drops the bytes that a cookie value may not have; the quotes it puts around a value with
  a space or a comma are removed again when the cookie is read.\<close>

definition validCookieValueByte :: "char \<Rightarrow> bool" where
  "validCookieValueByte c \<longleftrightarrow> CHR 0x20 \<le> c \<and> c < CHR 0x7F \<and> c \<noteq> CHR 0x22 \<and> c \<noteq> CHR '';'' \<and> c \<noteq> CHR 0x5C"

definition sanitizeCookieValue :: "string \<Rightarrow> string" where
  "sanitizeCookieValue v = filter validCookieValueByte v"

definition new_cookie :: "string \<Rightarrow> bool \<Rightarrow> int \<Rightarrow> cookie" where
  "new_cookie v secure maxAge = \<lparr>ck_Value = sanitizeCookieValue v, ck_Secure = secure, ck_MaxAge = maxAge\<rparr>"

section \<open>The provider\<close>

definition oidcStateCookieName :: string where
  "oidcStateCookieName = ''oidc_state''"

definition oidcNonceCookieName :: string where
  "oidcNonceCookieName = ''oidc_nonce''"

definition oidcMaxBody :: int where
  "oidcMaxBody = 1048576"

text \<open>\<open>CheckRedirect\<close> of the client: the host of the first request of the chain.\<close>

definition CheckRedirect :: "string \<Rightarrow> string list \<Rightarrow> error option" where
  "CheckRedirect host via = (case via of [] \<Rightarrow> None
     | h # _ \<Rightarrow> (if host \<noteq> h then Some (ErrMsg ''cross-origin redirect refused'') else None))"

definition readCapped :: "http_body \<Rightarrow> int \<Rightarrow> string result" where
  "readCapped b limit =
     (if int (length (bd_data b)) > limit then Inl (ErrMsg ''response body exceeds the limit'')
      else (case bd_err b of Some e \<Rightarrow> Inl e | None \<Rightarrow> Inr (bd_data b)))"

text \<open>A reply of the provider: an error of the client (timeouts and refused redirects included), or a status
  and a body.\<close>

datatype idp_reply = NoResponse error | Response int http_body

record id_token =
  it_Subject :: string
  it_Nonce :: string
  it_Claims :: "fields option"

record oidc_net =
  on_parse :: "string \<Rightarrow> url_parts option"
  on_loopback :: "ip \<Rightarrow> bool"
  on_escape :: "string \<Rightarrow> string"
  on_get :: "string \<Rightarrow> string \<Rightarrow> idp_reply"
  on_post :: "string \<Rightarrow> (string \<times> string) list \<Rightarrow> idp_reply"
  on_provider :: "string \<Rightarrow> error option"
  on_verify :: "string \<Rightarrow> id_token result"

definition isLoopbackHost :: "netlib \<Rightarrow> oidc_net \<Rightarrow> string \<Rightarrow> bool" where
  "isLoopbackHost N P host =
     (if host = ''localhost'' then True
      else (case net_ParseIP N host of None \<Rightarrow> False | Some ip \<Rightarrow> on_loopback P ip))"

definition validateIssuer :: "netlib \<Rightarrow> oidc_net \<Rightarrow> oidc_provider \<Rightarrow> error option" where
  "validateIssuer N P p = (case on_parse P (op_IssuerURL p) of
       None \<Rightarrow> Some (ErrMsg ''parse issuer_url'')
     | Some u \<Rightarrow> (if up_Scheme u \<noteq> ''https'' \<and> \<not> op_AllowInsecureIssuer p \<and> \<not> isLoopbackHost N P (up_Hostname u)
         then Some (ErrMsg ''issuer_url must use https'') else None))"

definition endpointAllowed :: "oidc_net \<Rightarrow> oidc_provider \<Rightarrow> string \<Rightarrow> bool" where
  "endpointAllowed P p endpoint =
     (if op_AllowedEndpoints p = [] then True
      else (case on_parse P endpoint of None \<Rightarrow> False
        | Some u \<Rightarrow> list_ex (\<lambda>allowed. case on_parse P allowed of None \<Rightarrow> False
            | Some a \<Rightarrow> up_Host a = up_Host u \<and> HasPrefix (up_Path u) (up_Path a)) (op_AllowedEndpoints p)))"

record oidc_discovery =
  di_AuthorizationEndpoint :: string
  di_TokenEndpoint :: string
  di_UserinfoEndpoint :: string

definition unmarshal_discovery :: "json \<Rightarrow> oidc_discovery option" where
  "unmarshal_discovery d = do {
     fs \<leftarrow> (if d = JNull then Some [] else jobj d);
     a \<leftarrow> jstr fs ''authorization_endpoint'';
     t \<leftarrow> jstr fs ''token_endpoint'';
     u \<leftarrow> jstr fs ''userinfo_endpoint'';
     Some \<lparr>di_AuthorizationEndpoint = a, di_TokenEndpoint = t, di_UserinfoEndpoint = u\<rparr> }"

text \<open>\<open>oh_Resolver\<close> is false for the nil resolver of the tests.\<close>

record oidc_handler =
  oh_Provider :: oidc_provider
  oh_Discovery :: oidc_discovery
  oh_SessionSecret :: string
  oh_PublicURL :: string
  oh_SecureCookies :: bool
  oh_Resolver :: bool

definition ok_body :: "string \<Rightarrow> idp_reply \<Rightarrow> string result" where
  "ok_body what reply = (case reply of
       NoResponse e \<Rightarrow> Inl e
     | Response st b \<Rightarrow> (if st \<noteq> 200 then Inl (ErrMsg what) else readCapped b oidcMaxBody))"

definition NewOIDCHandler :: "netlib \<Rightarrow> oidc_net \<Rightarrow> oidc_provider \<Rightarrow> string \<Rightarrow> string \<Rightarrow> bool \<Rightarrow> oidc_handler result" where
  "NewOIDCHandler N P provider0 sessionSecret publicURL secureCookies =
     (let provider = (if op_GroupsClaim provider0 = [] then provider0\<lparr>op_GroupsClaim := ''groups''\<rparr> else provider0) in
      case validateIssuer N P provider of Some e \<Rightarrow> Inl e
      | None \<Rightarrow>
        bindE (ok_body ''oidc discovery'' (on_get P (TrimSuffix (op_IssuerURL provider) ''/'' @ ''/.well-known/openid-configuration'') [])) (\<lambda>body.
        bindE (of_option json_error (unmarshal_discovery (json_Unmarshal body))) (\<lambda>disc.
        if \<not> endpointAllowed P provider (di_TokenEndpoint disc) \<or> \<not> endpointAllowed P provider (di_UserinfoEndpoint disc)
        then Inl (ErrMsg ''oidc discovery returned endpoints outside allowed_endpoints'')
        else if di_TokenEndpoint disc = [] then Inl (ErrMsg ''oidc discovery is missing token_endpoint'')
        else (case on_provider P (op_IssuerURL provider) of Some e \<Rightarrow> Inl e
        | None \<Rightarrow> Inr \<lparr>oh_Provider = provider, oh_Discovery = disc, oh_SessionSecret = sessionSecret, oh_PublicURL = publicURL,
            oh_SecureCookies = secureCookies, oh_Resolver = False\<rparr>))))"

section \<open>Login\<close>

definition safeRedirectPath :: "string \<Rightarrow> string" where
  "safeRedirectPath redirect =
     (if redirect = [] then ''/''
      else if HasPrefix redirect ''/'' \<and> \<not> HasPrefix redirect ''//'' \<and> \<not> HasPrefix redirect [CHR ''/'', CHR 0x5C] \<and>
        \<not> Contains redirect [CHR 0x0D] \<and> \<not> Contains redirect [CHR 0x0A] then redirect
      else ''/'')"

definition callback_uri :: "oidc_handler \<Rightarrow> string" where
  "callback_uri h = oh_PublicURL h @ ''/auth/oidc/'' @ op_ID (oh_Provider h) @ ''/callback''"

definition auth_url :: "oidc_net \<Rightarrow> oidc_handler \<Rightarrow> string \<Rightarrow> string \<Rightarrow> string" where
  "auth_url P h state nonce =
     di_AuthorizationEndpoint (oh_Discovery h) @ ''?response_type=code&client_id='' @ on_escape P (op_ClientID (oh_Provider h)) @
     ''&scope='' @ on_escape P (Join (op_Scopes (oh_Provider h)) '' '') @ ''&state='' @ on_escape P state @
     ''&nonce='' @ on_escape P nonce @ ''&redirect_uri='' @ on_escape P (callback_uri h)"

type_synonym cookie_reply = "http_response \<times> (string \<times> cookie) list"

definition LoginHandler :: "env \<Rightarrow> oidc_net \<Rightarrow> oidc_handler \<Rightarrow> web_request \<Rightarrow> cookie_reply" where
  "LoginHandler E P h r =
     (let redirect = safeRedirectPath (query_Get r ''redirect'') in
      case GenerateRandomHex (en_rand E 0) of
        Inl e \<Rightarrow> (http_Error (''Failed to generate state: '' @ error_text e) 500, [])
      | Inr state \<Rightarrow>
      (case GenerateRandomHex (en_rand E 1) of
        Inl e \<Rightarrow> (http_Error (''Failed to generate nonce: '' @ error_text e) 500, [])
      | Inr nonce \<Rightarrow>
        (http_Redirect (on_parse P) r (auth_url P h state nonce),
         [(oidcStateCookieName, new_cookie (state @ ''|'' @ redirect) (oh_SecureCookies h) 300),
          (oidcNonceCookieName, new_cookie nonce (oh_SecureCookies h) 300)])))"

section \<open>The callback\<close>

definition decode_map :: "json \<Rightarrow> fields result" where
  "decode_map d = (case d of JObj fs \<Rightarrow> Inr fs | JNull \<Rightarrow> Inr [] | _ \<Rightarrow> Inl json_error)"

definition exchangeCode :: "oidc_net \<Rightarrow> oidc_handler \<Rightarrow> string \<Rightarrow> fields result" where
  "exchangeCode P h code =
     bindE (ok_body ''token endpoint'' (on_post P (di_TokenEndpoint (oh_Discovery h))
       [(''grant_type'', ''authorization_code''), (''code'', code), (''redirect_uri'', callback_uri h),
        (''client_id'', op_ClientID (oh_Provider h)), (''client_secret'', op_ClientSecret (oh_Provider h))])) (\<lambda>body.
     decode_map (json_Unmarshal body))"

definition getUserInfo :: "oidc_net \<Rightarrow> oidc_handler \<Rightarrow> string \<Rightarrow> fields result" where
  "getUserInfo P h accessToken =
     bindE (ok_body ''userinfo endpoint'' (on_get P (di_UserinfoEndpoint (oh_Discovery h)) (''Bearer '' @ accessToken))) (\<lambda>body.
     decode_map (json_Unmarshal body))"

definition claim_str :: "fields \<Rightarrow> string \<Rightarrow> string option" where
  "claim_str fs k = (case jlookup fs k of Some (JStr s) \<Rightarrow> Some s | _ \<Rightarrow> None)"

definition email_unverified :: "fields \<Rightarrow> bool" where
  "email_unverified fs = (jlookup fs ''email_verified'' = Some (JBool False))"

definition verifyIDToken :: "oidc_net \<Rightarrow> string \<Rightarrow> string \<Rightarrow> (id_token \<times> fields) result" where
  "verifyIDToken P rawIDToken nonce = bindE (on_verify P rawIDToken) (\<lambda>t.
     if nonce = [] \<or> it_Nonce t \<noteq> nonce then Inl (ErrMsg ''id token nonce mismatch'')
     else (case it_Claims t of None \<Rightarrow> Inl (ErrMsg ''decode id token claims'') | Some cs \<Rightarrow> Inr (t, cs)))"

fun string_items :: "json list \<Rightarrow> string list" where
  "string_items [] = []"
| "string_items (JStr s # xs) = s # string_items xs"
| "string_items (_ # xs) = string_items xs"

definition extractGroupsFromToken :: "fields \<Rightarrow> string \<Rightarrow> string list" where
  "extractGroupsFromToken claims name = (case jlookup claims (if name = [] then ''groups'' else name) of
       Some (JArr xs) \<Rightarrow> string_items xs
     | Some (JStr s) \<Rightarrow> Split CHR '','' s
     | _ \<Rightarrow> [])"

definition buildOIDCSession :: "env \<Rightarrow> oidc_handler \<Rightarrow> raft_store \<Rightarrow> string \<Rightarrow> fields \<Rightarrow> session_token result" where
  "buildOIDCSession E h rs subject claims =
     (let issuer = TrimSuffix (op_IssuerURL (oh_Provider h)) ''/'';
          tok = \<lparr>st_UserID = [], st_Username = [], st_Method = ''oidc'', st_Provider = op_ID (oh_Provider h), st_Issuer = issuer,
            st_Subject = subject, st_ExpiresAt = time_Unix (en_now E) + sessionMaxAge,
            st_Groups = extractGroupsFromToken claims (op_GroupsClaim (oh_Provider h)), st_SessionID = [], st_AuthEpoch = 0\<rparr>
      in if \<not> oh_Resolver h then
           Inr (tok\<lparr>st_Username := (case claim_str claims ''email'' of Some e \<Rightarrow> (if e \<noteq> [] then e else subject) | None \<Rightarrow> subject)\<rparr>)
         else (case GetUserByExternalIdentity rs (op_ID (oh_Provider h)) issuer subject of
             Inl _ \<Rightarrow> Inl (ErrMsg ''no account linked for external identity'')
           | Inr u \<Rightarrow> Inr (tok\<lparr>st_UserID := us_ID u, st_Username := us_Username u, st_AuthEpoch := svc_GetAuthEpoch rs,
               st_SessionID := ok_or [] (GenerateRandomHex (en_rand E 0))\<rparr>)))"

definition clearOIDCStateCookie :: "bool \<Rightarrow> string \<times> cookie" where
  "clearOIDCStateCookie secure = (oidcStateCookieName, new_cookie [] secure (- 1))"

definition clearOIDCNonceCookie :: "bool \<Rightarrow> string \<times> cookie" where
  "clearOIDCNonceCookie secure = (oidcNonceCookieName, new_cookie [] secure (- 1))"

text \<open>The common end of the two flows: the session of the subject, or 403.\<close>

definition open_session :: "env \<Rightarrow> oidc_net \<Rightarrow> oidc_handler \<Rightarrow> web_request \<Rightarrow> raft_store \<Rightarrow> string \<Rightarrow> string \<Rightarrow> fields \<Rightarrow> cookie_reply" where
  "open_session E P h r rs redirect subject claims =
     (let clear = clearOIDCStateCookie (oh_SecureCookies h) in
      case buildOIDCSession E h rs subject claims of
        Inl _ \<Rightarrow> (http_Error ''no account linked for this identity'' 403, [clear])
      | Inr tok \<Rightarrow>
        (http_Redirect (on_parse P) r redirect,
         [clear, clearOIDCNonceCookie (oh_SecureCookies h),
          (sessionCookieName, \<lparr>ck_Value = EncodeSession (en_C E) tok (oh_SessionSecret h), ck_Secure = oh_SecureCookies h,
             ck_MaxAge = sessionMaxAge\<rparr>)]))"

text \<open>Whose login it is: from the verified token when there is one, otherwise from the provider's user endpoint.\<close>

definition callback_identity :: "oidc_net \<Rightarrow> oidc_handler \<Rightarrow> web_request \<Rightarrow> http_response + (string \<times> fields)" where
  "callback_identity P h r = (case exchangeCode P h (query_Get r ''code'') of
       Inl e \<Rightarrow> Inl (http_Error (''Token exchange failed: '' @ error_text e) 500)
     | Inr token \<Rightarrow>
     (case claim_str token ''access_token'' of
       None \<Rightarrow> Inl (http_Error ''No access token in response'' 500)
     | Some accessToken \<Rightarrow>
     (let rawIDToken = or_empty (claim_str token ''id_token'') in
      if rawIDToken \<noteq> [] then
        (case verifyIDToken P rawIDToken (or_empty (r_Cookie r oidcNonceCookieName)) of
           Inl _ \<Rightarrow> Inl (http_Error ''ID token validation failed'' 400)
         | Inr (idToken, claims) \<Rightarrow>
            (if email_unverified claims then Inl (http_Error ''email not verified'' 403) else Inr (it_Subject idToken, claims)))
      else
        (case getUserInfo P h accessToken of
           Inl e \<Rightarrow> Inl (http_Error (''Userinfo failed: '' @ error_text e) 500)
         | Inr userInfo \<Rightarrow>
            (if email_unverified userInfo then Inl (http_Error ''email not verified'' 403)
             else (let sub = or_empty (claim_str userInfo ''sub'') in
               if sub = [] then Inl (http_Error ''userinfo missing sub'' 403) else Inr (sub, userInfo)))))))"

definition CallbackHandler :: "env \<Rightarrow> oidc_net \<Rightarrow> oidc_handler \<Rightarrow> web_request \<Rightarrow> raft_store \<Rightarrow> cookie_reply" where
  "CallbackHandler E P h r rs =
     (let code = query_Get r ''code''; state = query_Get r ''state'' in
      if code = [] \<or> state = [] then (http_Error ''Missing code or state'' 400, [])
      else (case r_Cookie r oidcStateCookieName of
        None \<Rightarrow> (http_Error ''Missing state cookie'' 400, [])
      | Some v \<Rightarrow>
      (case SplitN2 CHR ''|'' v of
        None \<Rightarrow> (http_Error ''Invalid state'' 400, [])
      | Some (expected, target) \<Rightarrow>
        if expected \<noteq> state then (http_Error ''Invalid state'' 400, [])
        else (case callback_identity P h r of
          Inl p \<Rightarrow> (p, [clearOIDCStateCookie (oh_SecureCookies h)])
        | Inr (subject, claims) \<Rightarrow> open_session E P h r rs (safeRedirectPath target) subject claims))))"

section \<open>Lemmas\<close>

lemma SplitN2_chars: "SplitN2 c s = Some (a, b) \<Longrightarrow> set a \<subseteq> set s \<and> set b \<subseteq> set s"
  by (auto dest: SplitN2_Some)

lemma open_session_cookie:
  "(sessionCookieName, ck) \<in> set (snd (open_session E P h r rs redirect subject claims)) \<longleftrightarrow>
     (\<exists>tok. buildOIDCSession E h rs subject claims = Inr tok \<and>
        ck = \<lparr>ck_Value = EncodeSession (en_C E) tok (oh_SessionSecret h), ck_Secure = oh_SecureCookies h, ck_MaxAge = sessionMaxAge\<rparr>)"
  by (simp add: open_session_def Let_def clearOIDCStateCookie_def clearOIDCNonceCookie_def sessionCookieName_def
      oidcStateCookieName_def oidcNonceCookieName_def split: sum.split)

lemma open_session_status:
  "rp_Status (fst (open_session E P h r rs redirect subject claims)) = 302 \<longleftrightarrow> is_ok (buildOIDCSession E h rs subject claims)"
  by (cases "buildOIDCSession E h rs subject claims") (simp_all add: open_session_def http_Redirect_def)

text \<open>How the callback gets to the end: the state of the request is the one of the cookie, and the identity comes
  from a verified token with the nonce of the cookie or, without a token, from the provider.\<close>

definition state_matches :: "web_request \<Rightarrow> string \<Rightarrow> bool" where
  "state_matches r target \<longleftrightarrow> query_Get r ''code'' \<noteq> [] \<and> query_Get r ''state'' \<noteq> [] \<and>
     (\<exists>v. r_Cookie r oidcStateCookieName = Some v \<and> SplitN2 CHR ''|'' v = Some (query_Get r ''state'', target))"

definition identity_proved :: "oidc_net \<Rightarrow> oidc_handler \<Rightarrow> web_request \<Rightarrow> string \<Rightarrow> fields \<Rightarrow> bool" where
  "identity_proved P h r subject claims \<longleftrightarrow> (\<exists>token. exchangeCode P h (query_Get r ''code'') = Inr token \<and>
     ((\<exists>raw t nonce. claim_str token ''id_token'' = Some raw \<and> raw \<noteq> [] \<and> on_verify P raw = Inr t \<and>
         r_Cookie r oidcNonceCookieName = Some nonce \<and> nonce \<noteq> [] \<and> it_Nonce t = nonce \<and> it_Claims t = Some claims \<and>
         subject = it_Subject t) \<or>
      (\<exists>a. or_empty (claim_str token ''id_token'') = [] \<and> claim_str token ''access_token'' = Some a \<and>
         getUserInfo P h a = Inr claims \<and> claim_str claims ''sub'' = Some subject \<and> subject \<noteq> [])))"

lemma verified_token:
  "verifyIDToken P raw nonce = Inr (t, cs) \<longleftrightarrow> on_verify P raw = Inr t \<and> nonce \<noteq> [] \<and> it_Nonce t = nonce \<and> it_Claims t = Some cs"
proof (cases "on_verify P raw")
  case (Inr i)
  then show ?thesis by (cases "nonce = [] \<or> it_Nonce i \<noteq> nonce"; cases "it_Claims i") (auto simp: verifyIDToken_def)
qed (simp add: verifyIDToken_def)

lemma or_empty_Some: "or_empty x \<noteq> [] \<longleftrightarrow> (\<exists>s. x = Some s \<and> s \<noteq> [])"
  by (auto simp: or_empty_def split: option.splits)

text \<open>Every other answer of the callback is an error without a session.\<close>

definition refused :: "cookie_reply \<Rightarrow> bool" where
  "refused p \<longleftrightarrow> rp_Status (fst p) \<in> {400, 403, 500} \<and> sessionCookieName \<notin> fst ` set (snd p)"

lemma refused_simps:
  "st \<in> {400, 403, 500} \<Longrightarrow> refused (http_Error m st, [])"
  "st \<in> {400, 403, 500} \<Longrightarrow> refused (http_Error m st, [clearOIDCStateCookie b])"
  by (auto simp: refused_def clearOIDCStateCookie_def sessionCookieName_def oidcStateCookieName_def)

lemma callback_identity_Inr:
  assumes "callback_identity P h r = Inr (subject, claims)"
  shows "identity_proved P h r subject claims" "\<not> email_unverified claims"
proof -
  obtain token a where t: "exchangeCode P h (query_Get r ''code'') = Inr token" "claim_str token ''access_token'' = Some a"
    using assms by (simp add: callback_identity_def split: sum.split_asm option.split_asm)
  have "identity_proved P h r subject claims \<and> \<not> email_unverified claims"
  proof (cases "or_empty (claim_str token ''id_token'') = []")
    case True
    then have u: "getUserInfo P h a = Inr claims" "\<not> email_unverified claims" "or_empty (claim_str claims ''sub'') = subject" "subject \<noteq> []"
      using assms t by (simp_all add: callback_identity_def Let_def split: sum.split_asm if_split_asm)
    then obtain z where "claim_str claims ''sub'' = Some z" "z \<noteq> []" using or_empty_Some by metis
    then have "claim_str claims ''sub'' = Some subject" using u(3) by (simp add: or_empty_def)
    then show ?thesis using t True u by (auto simp: identity_proved_def)
  next
    case False
    then obtain raw where raw: "claim_str token ''id_token'' = Some raw" "raw \<noteq> []" using or_empty_Some by blast
    then obtain i where v: "verifyIDToken P raw (or_empty (r_Cookie r oidcNonceCookieName)) = Inr (i, claims)"
      "\<not> email_unverified claims" "subject = it_Subject i"
      using assms t by (simp add: callback_identity_def Let_def or_empty_def split: sum.split_asm if_split_asm prod.split_asm)
    then have o: "on_verify P raw = Inr i" "it_Nonce i = or_empty (r_Cookie r oidcNonceCookieName)" "it_Claims i = Some claims"
      "or_empty (r_Cookie r oidcNonceCookieName) \<noteq> []" by (simp_all add: verified_token)
    then obtain n where "r_Cookie r oidcNonceCookieName = Some n" "n \<noteq> []" using or_empty_Some by blast
    then show ?thesis using t raw v o by (auto simp: identity_proved_def or_empty_def)
  qed
  then show "identity_proved P h r subject claims" "\<not> email_unverified claims" by blast+
qed

lemma callback_identity_Inl: "callback_identity P h r = Inl p \<Longrightarrow> rp_Status p \<in> {400, 403, 500}"
  by (auto simp: callback_identity_def Let_def split: sum.split_asm option.split_asm if_split_asm prod.split_asm)

lemma callback_cases:
  "refused (CallbackHandler E P h r rs) \<or>
   (\<exists>target subject claims. state_matches r target \<and> callback_identity P h r = Inr (subject, claims) \<and>
      CallbackHandler E P h r rs = open_session E P h r rs (safeRedirectPath target) subject claims)"
proof (cases "\<exists>target. state_matches r target")
  case True
  then obtain v target where v: "query_Get r ''code'' \<noteq> []" "query_Get r ''state'' \<noteq> []" "state_matches r target"
    "r_Cookie r oidcStateCookieName = Some v" "SplitN2 CHR ''|'' v = Some (query_Get r ''state'', target)"
    by (auto simp: state_matches_def)
  show ?thesis
  proof (cases "callback_identity P h r")
    case (Inl p)
    then show ?thesis using v callback_identity_Inl [OF Inl]
      by (simp add: CallbackHandler_def Let_def refused_def clearOIDCStateCookie_def sessionCookieName_def oidcStateCookieName_def)
  next
    case (Inr x)
    then show ?thesis using v by (cases x) (auto simp: CallbackHandler_def Let_def)
  qed
next
  case False
  then show ?thesis
    by (auto simp: CallbackHandler_def Let_def refused_simps state_matches_def split: option.split)
qed

section \<open>Redirects stay on the site\<close>

definition printable :: "char \<Rightarrow> bool" where
  "printable c \<longleftrightarrow> CHR 0x20 \<le> c \<and> c < CHR 0x7F"

text \<open>A location that a browser resolves on the same site: one slash, and after it neither a slash nor a backslash
  nor a character that browsers drop.\<close>

definition on_site :: "string \<Rightarrow> bool" where
  "on_site loc \<longleftrightarrow> list_all printable loc \<and>
     (\<exists>rest. loc = CHR ''/'' # rest \<and> (rest = [] \<or> hd rest \<noteq> CHR ''/'' \<and> hd rest \<noteq> CHR 0x5C))"

lemma hexEscape_printable: "list_all printable s \<Longrightarrow> hexEscapeNonASCII s = s"
  by (induction s) (auto simp: hexEscapeNonASCII_def printable_def)

lemma clean_parts_set:
  "x \<in> set (clean_parts acc ps) \<Longrightarrow> x \<in> set acc \<or> x \<in> set ps \<and> x \<noteq> []"
proof (induction acc ps rule: clean_parts.induct)
  case (2 acc p ps)
  have "set (tl acc) \<subseteq> set acc" by (cases acc) auto
  then show ?case using 2 by (auto split: if_splits)
qed simp

lemma Join_chars: "set (Join xs sep) \<subseteq> (\<Union>x \<in> set xs. set x) \<union> set sep"
  by (induction xs sep rule: Join.induct) auto

lemma Join_hd_first: "xs \<noteq> [] \<Longrightarrow> hd xs \<noteq> [] \<Longrightarrow> Join xs sep \<noteq> [] \<and> hd (Join xs sep) = hd (hd xs)"
  by (induction xs sep rule: Join.induct) auto

lemma path_Clean_on_site:
  assumes "list_all printable p" "CHR 0x5C \<notin> set p"
  shows "on_site (path_Clean p)"
proof -
  let ?ps = "clean_parts [] (Split CHR ''/'' p)"
  have part: "x \<noteq> [] \<and> CHR ''/'' \<notin> set x \<and> set x \<subseteq> set p" if "x \<in> set ?ps" for x
    using clean_parts_set [OF that] Split_part by auto
  have "set (Join ?ps ''/'') \<subseteq> set p \<union> {CHR ''/''}" using Join_chars [of ?ps "''/''"] part by auto
  then have pr: "list_all printable (Join ?ps ''/'')" using assms(1) by (auto simp: list_all_iff printable_def less_eq_char_def less_char_def)
  have "Join ?ps ''/'' = [] \<or> hd (Join ?ps ''/'') \<noteq> CHR ''/'' \<and> hd (Join ?ps ''/'') \<noteq> CHR 0x5C"
  proof (cases "?ps = []")
    case False
    then have h: "hd ?ps \<in> set ?ps" by simp
    then have "hd (hd ?ps) \<in> set (hd ?ps)" using part by simp
    then have "hd (hd ?ps) \<noteq> CHR ''/''" "hd (hd ?ps) \<in> set p" using part [OF h] by (metis, blast)
    then show ?thesis using Join_hd_first [OF False, of "''/''"] part [OF h] assms(2) by auto
  qed simp
  then show ?thesis using pr by (simp add: on_site_def path_Clean_def printable_def less_eq_char_def less_char_def)
qed

lemma on_site_append:
  assumes "on_site a" "list_all printable b" "a = ''/'' \<Longrightarrow> b = [] \<or> hd b \<noteq> CHR ''/'' \<and> hd b \<noteq> CHR 0x5C"
  shows "on_site (a @ b)"
proof -
  obtain rest where a: "a = CHR ''/'' # rest" "rest = [] \<or> hd rest \<noteq> CHR ''/'' \<and> hd rest \<noteq> CHR 0x5C"
    using assms(1) by (auto simp: on_site_def)
  show ?thesis using assms a by (cases rest) (auto simp: on_site_def)
qed

lemma redirect_on_site:
  assumes "list_all validCookieValueByte url" "HasPrefix url ''/''" "\<not> HasPrefix url ''//''"
  shows "on_site (redirect_location urlparse oldpath url)"
proof -
  have v: "list_all printable url" "CHR 0x5C \<notin> set url"
    using assms(1) by (auto simp: list_all_iff validCookieValueByte_def printable_def)
  obtain rest where rest: "url = CHR ''/'' # rest" using assms(2) by (auto simp: HasPrefix_def prefix_def)
  have raw: "on_site url"
    using v assms(3) rest by (cases rest) (auto simp: on_site_def HasPrefix_def)
  let ?p = "takeWhile (\<lambda>c. c \<noteq> CHR ''?'') url" and ?q = "dropWhile (\<lambda>c. c \<noteq> CHR ''?'') url"
  let ?c = "path_Clean ?p"
  have pq: "list_all printable ?p" "CHR 0x5C \<notin> set ?p" "list_all printable ?q"
    using v by (auto simp: list_all_iff dest: set_takeWhileD set_dropWhileD)
  let ?d = "if HasSuffix ?p ''/'' \<and> \<not> HasSuffix ?c ''/'' then ?c @ ''/'' else ?c"
  have c: "on_site ?c" by (rule path_Clean_on_site [OF pq(1,2)])
  have slash: "list_all printable ''/''" by (simp add: printable_def less_eq_char_def less_char_def)
  have d: "on_site ?d"
  proof (cases "HasSuffix ?p ''/'' \<and> \<not> HasSuffix ?c ''/''")
    case True
    then have "?c \<noteq> ''/''" by (metis HasSuffix_def suffix_order.refl)
    then show ?thesis using on_site_append [OF c slash] True by simp
  next
    case False
    then show ?thesis using c by (simp only: if_False)
  qed
  have "?q = [] \<or> hd ?q = CHR ''?''" using hd_dropWhile [of "\<lambda>c. c \<noteq> CHR ''?''" url] by auto
  then have "on_site (?d @ ?q)" using on_site_append [OF d pq(3)] by fastforce
  moreover have "list_all printable (?d @ ?q)" using calculation by (simp only: on_site_def)
  ultimately show ?thesis
    using raw v(1) assms(2) by (simp add: redirect_location_def hexEscape_printable Let_def split: option.split)
qed

lemma safeRedirect_cases:
  "safeRedirectPath t = ''/'' \<or> safeRedirectPath t = t \<and> HasPrefix t ''/'' \<and> \<not> HasPrefix t ''//''"
  by (simp add: safeRedirectPath_def)

text \<open>Cookies as \<open>net/http\<close> reads them: a cookie with a byte that a value may not have is skipped.\<close>

definition cookies_valid :: "web_request \<Rightarrow> bool" where
  "cookies_valid r \<longleftrightarrow> (\<forall>(n, v) \<in> set (wr_Cookies r). list_all validCookieValueByte v)"

lemma cookie_bytes: "cookies_valid r \<Longrightarrow> r_Cookie r n = Some v \<Longrightarrow> list_all validCookieValueByte v"
  by (auto simp: cookies_valid_def r_Cookie_def dest!: map_of_SomeD)

text \<open>C27: Whatever a link to the login asked for, the callback redirects to the site itself.\<close>

theorem oidc_redirect_on_site:
  assumes "cookies_valid r" "rp_Status (fst (CallbackHandler E P h r rs)) = 302"
  shows "\<exists>loc. rp_Header (fst (CallbackHandler E P h r rs)) = [(''Location'', loc)] \<and> on_site loc"
proof -
  have "\<not> refused (CallbackHandler E P h r rs)" using assms(2) by (simp add: refused_def)
  then obtain target subject claims where t: "state_matches r target"
    and e: "CallbackHandler E P h r rs = open_session E P h r rs (safeRedirectPath target) subject claims"
    using callback_cases [of E P h r rs] by blast
  then have l: "rp_Header (fst (CallbackHandler E P h r rs)) = [(''Location'', redirect_location (on_parse P) (wr_Path r) (safeRedirectPath target))]"
    using assms(2) open_session_status [of E P h r rs "safeRedirectPath target" subject claims]
    by (cases "buildOIDCSession E h rs subject claims") (simp_all add: open_session_def http_Redirect_def)
  obtain v where "r_Cookie r oidcStateCookieName = Some v" "SplitN2 CHR ''|'' v = Some (query_Get r ''state'', target)"
    using t by (auto simp: state_matches_def)
  then have "list_all validCookieValueByte target" using cookie_bytes [OF assms(1)] SplitN2_chars by (force simp: list_all_iff)
  moreover have "list_all validCookieValueByte ''/''" by (simp add: validCookieValueByte_def less_eq_char_def less_char_def)
  ultimately have "on_site (redirect_location (on_parse P) (wr_Path r) (safeRedirectPath target))"
    using safeRedirect_cases [of target] by (intro redirect_on_site) (auto simp: HasPrefix_def)
  then show ?thesis using l by blast
qed

section \<open>Sessions of the provider\<close>

lemma normalize_once: "\<not> HasSuffix url ''//'' \<Longrightarrow> normalizeIssuer (TrimSuffix url ''/'') = TrimSuffix url ''/''"
proof -
  assume n: "\<not> HasSuffix url ''//''"
  have "\<not> suffix ''/'' (TrimSuffix url ''/'')"
  proof
    assume s: "suffix ''/'' (TrimSuffix url ''/'')"
    show False
    proof (cases "suffix ''/'' url")
      case True
      then obtain u where u: "url = u @ ''/''" by (auto simp: suffix_def)
      then have "suffix ''/'' u" using s by simp
      then obtain w where "u = w @ ''/''" by (auto simp: suffix_def)
      then show False using n u by (simp add: HasSuffix_def suffix_def)
    next
      case False
      then show False using s by (simp add: TrimSuffix_def)
    qed
  qed
  then show ?thesis by (simp add: normalizeIssuer_def) (simp add: TrimSuffix_def)
qed

definition provider_issuer :: "oidc_handler \<Rightarrow> string" where
  "provider_issuer h = TrimSuffix (op_IssuerURL (oh_Provider h)) ''/''"

lemma buildOIDCSession_Inr:
  assumes "oh_Resolver h" "buildOIDCSession E h rs subject claims = Inr tok"
  shows "\<exists>u. GetUserByExternalIdentity rs (op_ID (oh_Provider h)) (provider_issuer h) subject = Inr u \<and>
     st_Method tok = ''oidc'' \<and> st_Provider tok = op_ID (oh_Provider h) \<and> st_Issuer tok = provider_issuer h \<and> st_Subject tok = subject \<and>
     st_ExpiresAt tok = time_Unix (en_now E) + sessionMaxAge \<and> st_AuthEpoch tok = svc_GetAuthEpoch rs \<and>
     st_Groups tok = extractGroupsFromToken claims (op_GroupsClaim (oh_Provider h))"
  using assms by (auto simp: buildOIDCSession_def Let_def provider_issuer_def split: sum.split_asm)

text \<open>C25: A login through a provider gives a session only to the linked account. If the callback sets a session
  cookie, the request carried the state of the browser's own login, the subject comes from a token that the
  library verified and that has the nonce of the browser, or, when the provider sent no token, from its user
  endpoint; the provider did not call the address unverified; and some account is linked to the subject. The
  cookie then passes the guard of the API for a day, as that account and with the groups of the token, unless
  the session epoch or the link changes.\<close>

theorem oidc_session_sound:
  assumes "(sessionCookieName, ck) \<in> set (snd (CallbackHandler E P h r rs))" "oh_Resolver h"
  shows "\<exists>target subject claims u. state_matches r target \<and> identity_proved P h r subject claims \<and> \<not> email_unverified claims \<and>
     GetUserByExternalIdentity rs (op_ID (oh_Provider h)) (provider_issuer h) subject = Inr u \<and>
     (\<forall>E' t r' url next secure. wr_Cookies r' = [(sessionCookieName, ck_Value ck)] \<and> en_C E' = en_C E \<and>
        time_Unix (en_now E') \<le> time_Unix (en_now E) + 86400 \<and> svc_GetAuthEpoch (ws_store t) = svc_GetAuthEpoch rs \<and>
        GetUserByExternalIdentity (ws_store t) (op_ID (oh_Provider h)) (provider_issuer h) subject = Inr u \<and>
        \<not> HasSuffix (op_IssuerURL (oh_Provider h)) ''//'' \<longrightarrow>
        RequireAuth E' url (oh_SessionSecret h) secure next r' t =
          next (withPrincipal r' u (extractGroupsFromToken claims (op_GroupsClaim (oh_Provider h)))) t)"
proof -
  have "\<not> refused (CallbackHandler E P h r rs)" using assms(1) by (force simp: refused_def)
  then obtain target subject claims where t: "state_matches r target" "callback_identity P h r = Inr (subject, claims)"
    and e: "CallbackHandler E P h r rs = open_session E P h r rs (safeRedirectPath target) subject claims"
    using callback_cases [of E P h r rs] by blast
  obtain tok where tok: "buildOIDCSession E h rs subject claims = Inr tok"
    "ck = \<lparr>ck_Value = EncodeSession (en_C E) tok (oh_SessionSecret h), ck_Secure = oh_SecureCookies h, ck_MaxAge = sessionMaxAge\<rparr>"
    using assms(1) unfolding e open_session_cookie by blast
  obtain u where u: "GetUserByExternalIdentity rs (op_ID (oh_Provider h)) (provider_issuer h) subject = Inr u"
    and f: "st_Method tok = ''oidc''" "st_Provider tok = op_ID (oh_Provider h)" "st_Issuer tok = provider_issuer h" "st_Subject tok = subject"
     "st_ExpiresAt tok = time_Unix (en_now E) + sessionMaxAge" "st_AuthEpoch tok = svc_GetAuthEpoch rs"
     "st_Groups tok = extractGroupsFromToken claims (op_GroupsClaim (oh_Provider h))"
    using buildOIDCSession_Inr [OF assms(2) tok(1)] by blast
  have "RequireAuth E' url (oh_SessionSecret h) secure next r' t =
      next (withPrincipal r' u (extractGroupsFromToken claims (op_GroupsClaim (oh_Provider h)))) t"
    if c: "wr_Cookies r' = [(sessionCookieName, ck_Value ck)]" "en_C E' = en_C E" "time_Unix (en_now E') \<le> time_Unix (en_now E) + 86400"
      "svc_GetAuthEpoch (ws_store t) = svc_GetAuthEpoch rs"
      "GetUserByExternalIdentity (ws_store t) (op_ID (oh_Provider h)) (provider_issuer h) subject = Inr u"
      "\<not> HasSuffix (op_IssuerURL (oh_Provider h)) ''//''"
    for E' t r' url "next" secure
  proof -
    have "r_Cookie r' sessionCookieName = Some (EncodeSession (en_C E) tok (oh_SessionSecret h))" using c(1) tok(2) by (simp add: r_Cookie_def)
    moreover have "DecodeSession (en_C E') (en_now E') (EncodeSession (en_C E) tok (oh_SessionSecret h)) (oh_SessionSecret h) = Inr tok"
      using c(2,3) f(5) by (simp add: decode_encode_session sessionMaxAge_def)
    moreover have "ResolvePrincipal (ws_store t) (Some tok) = Some u"
      using f c(5) normalize_once [OF c(6)] by (simp add: ResolvePrincipal_def ok_def provider_issuer_def)
    moreover have "SessionEpochValid (ws_store t) (Some tok)" using c(4) f(6) by (simp add: SessionEpochValid_def)
    ultimately show ?thesis using f(7) by (simp add: RequireAuth_def)
  qed
  then show ?thesis using t u callback_identity_Inr [OF t(2)] by blast
qed

section \<open>A login from start to end\<close>

definition browser_cookies :: "(string \<times> cookie) list \<Rightarrow> (string \<times> string) list" where
  "browser_cookies cs = map (\<lambda>(n, c). (n, ck_Value c)) cs"

lemma hex_cookie: "sanitizeCookieValue (hex_EncodeToString b) = hex_EncodeToString b" "CHR ''|'' \<notin> set (hex_EncodeToString b)"
  "b \<noteq> [] \<Longrightarrow> hex_EncodeToString b \<noteq> []"
proof -
  have "c \<in> set ''0123456789abcdef''" if "c \<in> set (hex_EncodeToString b)" for c
    using hex_chars [OF that] by (simp only: hex_digits_def)
  moreover have "list_all validCookieValueByte ''0123456789abcdef''" "CHR ''|'' \<notin> set ''0123456789abcdef''" by code_simp+
  ultimately show "sanitizeCookieValue (hex_EncodeToString b) = hex_EncodeToString b" "CHR ''|'' \<notin> set (hex_EncodeToString b)"
    unfolding sanitizeCookieValue_def filter_id_conv list_all_iff by blast+
  show "b \<noteq> [] \<Longrightarrow> hex_EncodeToString b \<noteq> []" using hex_length [of b] by auto
qed

text \<open>C26: A login that goes as it should ends in a session: the browser brings back the cookies of the login and the
  state, the provider's token carries the nonce, and an account is linked to its subject. The answer sets the
  session cookie and redirects to where the login was asked to go, as far as that is on the site.\<close>

theorem oidc_login_completes:
  assumes "en_rand E 0 = Some b0" "en_rand E 1 = Some b1" "b0 \<noteq> []" "b1 \<noteq> []"
    and "wr_Cookies r = browser_cookies (snd (LoginHandler E P h r0))"
    and "query_Get r ''code'' \<noteq> []" "query_Get r ''state'' = hex_EncodeToString b0"
    and "exchangeCode P h (query_Get r ''code'') = Inr token" "claim_str token ''access_token'' = Some a"
    and "claim_str token ''id_token'' = Some raw" "raw \<noteq> []" "on_verify P raw = Inr t" "it_Nonce t = hex_EncodeToString b1"
    and "it_Claims t = Some claims" "\<not> email_unverified claims" "oh_Resolver h"
    and "GetUserByExternalIdentity rs (op_ID (oh_Provider h)) (provider_issuer h) (it_Subject t) = Inr u"
  shows "\<exists>ck. (sessionCookieName, ck) \<in> set (snd (CallbackHandler E' P h r rs)) \<and>
     fst (CallbackHandler E' P h r rs) =
       http_Redirect (on_parse P) r (safeRedirectPath (sanitizeCookieValue (safeRedirectPath (query_Get r0 ''redirect''))))"
proof -
  let ?s = "hex_EncodeToString b0" and ?n = "hex_EncodeToString b1" and ?red = "safeRedirectPath (query_Get r0 ''redirect'')"
  have "validCookieValueByte CHR ''|''" by code_simp
  then have v: "sanitizeCookieValue (?s @ ''|'' @ ?red) = ?s @ ''|'' @ sanitizeCookieValue ?red"
    using hex_cookie(1) [of b0] by (simp add: sanitizeCookieValue_def)
  have ck: "r_Cookie r oidcStateCookieName = Some (?s @ ''|'' @ sanitizeCookieValue ?red)" "r_Cookie r oidcNonceCookieName = Some ?n"
    using assms(5) v hex_cookie(1) [of b1] assms(1,2)
    by (simp_all add: r_Cookie_def browser_cookies_def LoginHandler_def GenerateRandomHex_def of_option_def Let_def new_cookie_def
        oidcStateCookieName_def oidcNonceCookieName_def)
  have "callback_identity P h r = Inr (it_Subject t, claims)"
    using assms ck(2) hex_cookie(3) [of b1] by (simp add: callback_identity_def Let_def or_empty_def verifyIDToken_def)
  moreover have "SplitN2 CHR ''|'' (?s @ ''|'' @ sanitizeCookieValue ?red) = Some (?s, sanitizeCookieValue ?red)"
    using hex_cookie(2) by (simp add: SplitN2_append)
  moreover have "?s \<noteq> []" using hex_cookie(3) assms(3) by simp
  ultimately have e: "CallbackHandler E' P h r rs = open_session E' P h r rs (safeRedirectPath (sanitizeCookieValue ?red)) (it_Subject t) claims"
    using assms(6,7) ck(1) by (simp add: CallbackHandler_def)
  obtain tok where tok: "buildOIDCSession E' h rs (it_Subject t) claims = Inr tok"
    using assms(16,17) by (simp add: buildOIDCSession_def Let_def provider_issuer_def)
  have "\<exists>ck. (sessionCookieName, ck) \<in> set (snd (CallbackHandler E' P h r rs))" unfolding e open_session_cookie using tok by blast
  moreover have "fst (CallbackHandler E' P h r rs) = http_Redirect (on_parse P) r (safeRedirectPath (sanitizeCookieValue ?red))"
    unfolding e by (simp add: open_session_def tok)
  ultimately show ?thesis by blast
qed

section \<open>A concrete login\<close>

definition demo_idp :: oidc_handler where
  "demo_idp = \<lparr>oh_Provider = \<lparr>op_ID = ''idp'', op_Name = [], op_ClientID = ''c'', op_ClientSecret = ''s'', op_IssuerURL = ''https://idp/'',
       op_Scopes = [''openid''], op_GroupsClaim = ''groups'', op_AllowedEndpoints = [], op_AllowInsecureIssuer = False\<rparr>,
     oh_Discovery = \<lparr>di_AuthorizationEndpoint = ''https://idp/a'', di_TokenEndpoint = ''https://idp/t'', di_UserinfoEndpoint = ''https://idp/u''\<rparr>,
     oh_SessionSecret = ''k'', oh_PublicURL = ''https://hooks'', oh_SecureCookies = True, oh_Resolver = True\<rparr>"

definition demo_token :: fields where
  "demo_token = [(''access_token'', JStr ''a''), (''id_token'', JStr ''t'')]"

definition demo_oidc_net :: oidc_net where
  "demo_oidc_net = \<lparr>on_parse = (\<lambda>_. None), on_loopback = (\<lambda>_. False), on_escape = (\<lambda>s. s), on_get = (\<lambda>_ _. NoResponse (ErrMsg ''down'')),
     on_post = (\<lambda>_ _. Response 200 \<lparr>bd_data = json_Marshal (JObj demo_token), bd_err = None\<rparr>),
     on_provider = (\<lambda>_. None),
     on_verify = (\<lambda>_. Inr \<lparr>it_Subject = ''42'', it_Nonce = hex_EncodeToString (replicate 16 CHR ''r''), it_Claims = Some [(''groups'', JArr [JStr ''dev''])]\<rparr>)\<rparr>"

definition demo_start :: web_request where
  "demo_start = demo_request\<lparr>wr_Method := ''GET'', wr_Query := [(''redirect'', ''/channels'')]\<rparr>"

definition demo_return :: web_request where
  "demo_return = demo_request\<lparr>wr_Method := ''GET'', wr_Query := [(''code'', ''x''), (''state'', hex_EncodeToString (replicate 16 CHR ''r''))],
     wr_Cookies := browser_cookies (snd (LoginHandler demo_env demo_oidc_net demo_idp demo_start))\<rparr>"

lemma demo_oidc_facts:
  "exchangeCode demo_oidc_net demo_idp code = Inr demo_token"
  "provider_issuer demo_idp = ''https://idp''"
  "GetUserByExternalIdentity demo_rbac ''idp'' ''https://idp'' ''42'' = Inr demo_linked"
  "query_Get demo_return ''code'' = ''x''" "query_Get demo_return ''state'' = hex_EncodeToString (replicate 16 CHR ''r'')"
  "query_Get demo_start ''redirect'' = ''/channels''"
proof -
  have "json_Unmarshal (json_Marshal (JObj demo_token)) = JObj demo_token" by code_simp
  moreover have "int (length (json_Marshal (JObj demo_token))) \<le> 1048576" by code_simp
  ultimately show "exchangeCode demo_oidc_net demo_idp code = Inr demo_token"
    by (simp add: exchangeCode_def demo_oidc_net_def ok_body_def readCapped_def oidcMaxBody_def decode_map_def)
  show "provider_issuer demo_idp = ''https://idp''"
    by (simp add: provider_issuer_def demo_idp_def TrimSuffix_def suffix_def)
  show "GetUserByExternalIdentity demo_rbac ''idp'' ''https://idp'' ''42'' = Inr demo_linked"
    by (simp add: GetUserByExternalIdentity_def demo_rbac_lists demo_linked_def of_option_def)
qed (simp_all add: query_Get_def demo_return_def demo_start_def or_empty_def)

lemma demo_idp_fields [simp]: "oh_Resolver demo_idp" "op_ID (oh_Provider demo_idp) = ''idp''" "oh_SessionSecret demo_idp = ''k''"
  "op_GroupsClaim (oh_Provider demo_idp) = ''groups''" "op_IssuerURL (oh_Provider demo_idp) = ''https://idp/''"
  by (simp_all add: demo_idp_def)

definition demo_id_token :: id_token where
  "demo_id_token = \<lparr>it_Subject = ''42'', it_Nonce = hex_EncodeToString (replicate 16 CHR ''r''), it_Claims = Some [(''groups'', JArr [JStr ''dev''])]\<rparr>"

lemma demo_verified:
  "on_verify demo_oidc_net raw = Inr demo_id_token" "on_parse demo_oidc_net = (\<lambda>_. None)"
  "it_Subject demo_id_token = ''42''" "it_Nonce demo_id_token = hex_EncodeToString (replicate 16 CHR ''r'')"
  "it_Claims demo_id_token = Some [(''groups'', JArr [JStr ''dev''])]" "\<not> email_unverified [(''groups'', JArr [JStr ''dev''])]"
  "claim_str demo_token ''access_token'' = Some ''a''" "claim_str demo_token ''id_token'' = Some ''t''"
  by (simp_all add: demo_id_token_def demo_oidc_net_def email_unverified_def claim_str_def demo_token_def)

lemma demo_session_set:
  "\<exists>ck. CallbackHandler demo_env demo_oidc_net demo_idp demo_return demo_rbac =
     (http_Redirect (\<lambda>_. None) demo_return ''/channels'',
      [clearOIDCStateCookie True, clearOIDCNonceCookie True, (sessionCookieName, ck)])"
proof -
  let ?x = "hex_EncodeToString (replicate 16 CHR ''r'')"
  have rnd: "GenerateRandomHex (en_rand demo_env i) = Inr ?x" for i by (simp add: GenerateRandomHex_def demo_env_def of_option_def)
  have x: "?x = ''72727272727272727272727272727272''" by code_simp
  have "safeRedirectPath ''/channels'' = ''/channels''" by code_simp
  then have ck: "r_Cookie demo_return oidcStateCookieName = Some (sanitizeCookieValue (?x @ ''|'' @ ''/channels''))"
    "r_Cookie demo_return oidcNonceCookieName = Some (sanitizeCookieValue ?x)"
    by (simp_all add: r_Cookie_def demo_return_def browser_cookies_def LoginHandler_def rnd new_cookie_def demo_oidc_facts(6)
        oidcStateCookieName_def oidcNonceCookieName_def)
  have s: "sanitizeCookieValue (?x @ ''|'' @ ''/channels'') = ?x @ ''|'' @ ''/channels''" unfolding x by code_simp
  have "SplitN2 CHR ''|'' (?x @ ''|'' @ ''/channels'') = Some (?x, ''/channels'')" unfolding x by code_simp
  moreover have "?x \<noteq> []" unfolding x by simp
  moreover have "callback_identity demo_oidc_net demo_idp demo_return = Inr (''42'', [(''groups'', JArr [JStr ''dev''])])"
    using ck(2) hex_cookie(1,3) [of "replicate 16 CHR ''r''"]
    by (simp add: callback_identity_def demo_oidc_facts or_empty_def verifyIDToken_def demo_verified)
  moreover obtain tok where "buildOIDCSession demo_env demo_idp demo_rbac ''42'' [(''groups'', JArr [JStr ''dev''])] = Inr tok"
    using demo_oidc_facts(2,3) by (simp add: buildOIDCSession_def Let_def provider_issuer_def)
  ultimately show ?thesis using ck(1) s \<open>safeRedirectPath ''/channels'' = ''/channels''\<close>
    by (simp add: CallbackHandler_def demo_oidc_facts open_session_def)
      (simp add: demo_idp_def demo_verified)
qed

theorem oidc_redirect_on_site_witness:
  "\<exists>loc. rp_Header (fst (CallbackHandler demo_env demo_oidc_net demo_idp demo_return demo_rbac)) = [(''Location'', loc)] \<and> on_site loc"
proof (rule oidc_redirect_on_site)
  show "rp_Status (fst (CallbackHandler demo_env demo_oidc_net demo_idp demo_return demo_rbac)) = 302"
    using demo_session_set by (auto simp: http_Redirect_def)
  have "list_all validCookieValueByte (sanitizeCookieValue v)" for v by (simp add: sanitizeCookieValue_def list_all_iff)
  then show "cookies_valid demo_return"
    by (simp add: cookies_valid_def demo_return_def browser_cookies_def LoginHandler_def Let_def new_cookie_def split: sum.split)
qed

theorem oidc_login_completes_witness:
  "\<exists>ck. (sessionCookieName, ck) \<in> set (snd (CallbackHandler demo_env demo_oidc_net demo_idp demo_return demo_rbac))"
proof -
  have r: "en_rand demo_env 0 = Some (replicate 16 CHR ''r'')" "en_rand demo_env 1 = Some (replicate 16 CHR ''r'')" by (simp_all add: demo_env_def)
  have c: "wr_Cookies demo_return = browser_cookies (snd (LoginHandler demo_env demo_oidc_net demo_idp demo_start))" by (simp add: demo_return_def)
  have g: "GetUserByExternalIdentity demo_rbac (op_ID (oh_Provider demo_idp)) (provider_issuer demo_idp) (it_Subject demo_id_token) = Inr demo_linked"
    by (simp add: demo_oidc_facts demo_verified)
  show ?thesis
    using oidc_login_completes [OF r _ _ c _ demo_oidc_facts(5) demo_oidc_facts(1) demo_verified(7,8) _ demo_verified(1,4,5,6) _ g, of demo_env]
    by (auto simp: demo_oidc_facts)
qed

theorem oidc_session_sound_witness:
  "\<exists>(ck :: cookie) u. GetUserByExternalIdentity demo_rbac ''idp'' ''https://idp'' ''42'' = Inr u \<and>
     RequireAuth demo_env ''/api'' ''k'' True (\<lambda>r s. (WriteHeader 204, s))
       (demo_request\<lparr>wr_Cookies := [(sessionCookieName, ck_Value ck)]\<rparr>) (demo_web\<lparr>ws_store := demo_rbac\<rparr>) =
     (WriteHeader 204, demo_web\<lparr>ws_store := demo_rbac\<rparr>)"
proof -
  obtain ck where "(sessionCookieName, ck) \<in> set (snd (CallbackHandler demo_env demo_oidc_net demo_idp demo_return demo_rbac))"
    using demo_session_set by (metis list.set_intros snd_conv)
  from oidc_session_sound [OF this demo_idp_fields(1)]
  obtain subject claims u where i: "identity_proved demo_oidc_net demo_idp demo_return subject claims"
    "GetUserByExternalIdentity demo_rbac ''idp'' ''https://idp'' subject = Inr u"
    and a: "\<And>E' t r' url next secure. wr_Cookies r' = [(sessionCookieName, ck_Value ck)] \<and> en_C E' = en_C demo_env \<and>
        time_Unix (en_now E') \<le> time_Unix (en_now demo_env) + 86400 \<and> svc_GetAuthEpoch (ws_store t) = svc_GetAuthEpoch demo_rbac \<and>
        GetUserByExternalIdentity (ws_store t) ''idp'' ''https://idp'' subject = Inr u \<and> \<not> HasSuffix ''https://idp/'' ''//'' \<Longrightarrow>
        RequireAuth E' url ''k'' secure next r' t = next (withPrincipal r' u (extractGroupsFromToken claims ''groups'')) t"
    by (simp add: demo_oidc_facts) blast
  have sub: "subject = ''42''" using i(1) by (auto simp: identity_proved_def demo_oidc_facts demo_verified or_empty_def)
  have ns: "\<not> HasSuffix ''https://idp/'' ''//''" by (simp add: HasSuffix_def suffix_def)
  show ?thesis
    by (intro exI [of _ ck] exI [of _ u]) (use sub ns i(2) a [of "demo_request\<lparr>wr_Cookies := [(sessionCookieName, ck_Value ck)]\<rparr>" demo_env "demo_web\<lparr>ws_store := demo_rbac\<rparr>"
        "''/api''" True "\<lambda>r s. (WriteHeader 204, s)"] in auto)
qed

section \<open>Departures\<close>

text \<open>The allowlist of endpoints compares host and path and not the scheme: an endpoint without TLS on the same
  host passes.\<close>

lemma endpoint_scheme_ignored:
  "on_parse P e = Some u \<Longrightarrow> on_parse P e' = Some (u\<lparr>up_Scheme := ''http''\<rparr>) \<Longrightarrow> endpointAllowed P p e' = endpointAllowed P p e"
proof -
  assume e: "on_parse P e = Some u" "on_parse P e' = Some (u\<lparr>up_Scheme := ''http''\<rparr>)"
  have f: "up_Host (u\<lparr>up_Scheme := ''http''\<rparr>) = up_Host u" "up_Path (u\<lparr>up_Scheme := ''http''\<rparr>) = up_Path u" by simp_all
  show ?thesis unfolding endpointAllowed_def e option.case f by (rule refl)
qed

text \<open>An issuer with two slashes at its end logs in under an identity that no later request resolves.\<close>

lemma double_slash_issuer_locked_out:
  "op_IssuerURL (oh_Provider h) = base @ ''//'' \<Longrightarrow> \<not> HasSuffix base ''/'' \<Longrightarrow>
     provider_issuer h = base @ ''/'' \<and> normalizeIssuer (provider_issuer h) = base"
proof -
  assume "op_IssuerURL (oh_Provider h) = base @ ''//''" "\<not> HasSuffix base ''/''"
  then have "provider_issuer h = base @ ''/''" using TrimSuffix_append [of "base @ ''/''" "''/''"] by (simp add: provider_issuer_def)
  then show ?thesis by (simp add: normalizeIssuer_def)
qed

end
