(* ===== verification/Proxy.thy ===== *)
theory Proxy
  imports Webhook
begin

text \<open>
  The encrypting proxy and the producer \<open>internal/proxy\<close>: what a webhook becomes before it is sent to the server. The call
  upstream is a parameter. The lemmas show that the server can only learn the metadata of a webhook that comes
  through the proxy, that the owner of the channel reads exactly what was sent, and what happens to signatures on the way.
\<close>

section \<open>Headers\<close>

definition proxyForwardAllowlist :: "string list" where
  "proxyForwardAllowlist =
     [''content-type'', ''user-agent'', ''x-event-type'', ''x-github-event'', ''x-github-delivery'', ''x-github-hook-id'',
      ''x-gitlab-event'', ''x-gitlab-event-uuid'', ''x-gitlab-token'', ''x-gitea-event'', ''x-gitea-delivery'', ''x-gitea-signature'',
      ''x-event-key'', ''x-bitbucket-event'', ''x-bitbucket-delivery'', ''x-hub-signature'', ''x-hub-signature-256'']"

type_synonym http_header = "(string, string \<times> string list) kv"

definition forwardableProxyHeaders :: "netlib \<Rightarrow> web_request \<Rightarrow> http_header" where
  "forwardableProxyHeaders N r =
     (let fwd = filter (\<lambda>(k, _). ToLower k \<in> set proxyForwardAllowlist) (wr_Header r);
          clientIP = (case net_SplitHostPort N (wr_RemoteAddr r) of None \<Rightarrow> wr_RemoteAddr r | Some (host, _) \<Rightarrow> host)
      in kv_put ''X-Forwarded-For'' (clientIP, []) fwd)"

section \<open>The proxy\<close>

record proxy_request =
  pq_URL :: string
  pq_Header :: http_header
  pq_Body :: string
  pq_ContentLength :: int

text \<open>\<open>newRequest\<close> is the error of \<open>http.NewRequestWithContext\<close> for the target, if any. The result comes with the request
  that was sent upstream.\<close>

definition proxyHandler ::
  "crypto \<Rightarrow> netlib \<Rightarrow> string option \<Rightarrow> string option \<Rightarrow> string \<Rightarrow> string \<Rightarrow> error option \<Rightarrow> int \<Rightarrow> (proxy_request \<Rightarrow> error + http_response) \<Rightarrow>
     web_request \<Rightarrow> http_response \<times> proxy_request option" where
  "proxyHandler C N rk rn pubKey targetURL newRequest maxBodySize upstream r =
     (if wr_Method r \<noteq> ''POST'' then (http_Error ''only POST is supported'' 405, None)
      else (case read_body maxBodySize (wr_Body r) of
          TooLarge \<Rightarrow> (http_Error ''request body too large'' 413, None)
        | ReadError e \<Rightarrow>
            (if Contains (error_text e) ''http: request body too large'' then (http_Error ''request body too large'' 413, None)
             else (http_Error (error_text e) 500, None))
        | Body body \<Rightarrow>
      (case box_Encrypt C rk rn body pubKey of
          Inl _ \<Rightarrow> (http_Error ''encryption failed'' 500, None)
        | Inr encrypted \<Rightarrow>
      (case newRequest of
          Some e \<Rightarrow> (http_Error (error_text e) 500, None)
        | None \<Rightarrow>
          (let req = \<lparr>pq_URL = targetURL, pq_Header = kv_put ''Content-Type'' (''application/json'', []) (forwardableProxyHeaders N r),
                 pq_Body = encrypted, pq_ContentLength = int (length encrypted)\<rparr>
           in case upstream req of
               Inl e \<Rightarrow> (http_Error (''upstream error: '' @ error_text e) 502, Some req)
             | Inr resp \<Rightarrow> (resp, Some req))))))"

text \<open>The key of \<open>--pubkey\<close> or \<open>--pubkey-file\<close>; \<open>file\<close> is what reading the file gives.\<close>

definition proxy_key :: "string \<Rightarrow> string \<Rightarrow> string result \<Rightarrow> string result" where
  "proxy_key pubKeyStr pubKeyFile file =
     (if pubKeyStr \<noteq> [] then ParsePublicKey pubKeyStr
      else if pubKeyFile \<noteq> [] then bindE file (\<lambda>data. bindE (loadKeyPair data) (\<lambda>(pub, _). Inr pub))
      else Inl (ErrMsg ''public key required: use --pubkey or --pubkey-file''))"

section \<open>The producer\<close>

text \<open>\<open>with_token\<close> is \<open>urlutil.URLWithQueryParam\<close> for the token, \<open>post\<close> the status and body of the answer.\<close>

definition produce ::
  "crypto \<Rightarrow> string option \<Rightarrow> string option \<Rightarrow> string \<Rightarrow> string result \<Rightarrow> string result \<Rightarrow> string \<Rightarrow> (string \<Rightarrow> string \<Rightarrow> string) \<Rightarrow>
     (string \<Rightarrow> string \<Rightarrow> (int \<times> string result) result) \<Rightarrow> string result" where
  "produce C rk rn serverURL key input token with_token post =
     (if serverURL = [] then Inl (ErrMsg ''server URL required'')
      else bindE key (\<lambda>pubKey. bindE input (\<lambda>payload.
        if payload = [] then Inl (ErrMsg ''empty payload'')
        else bindE (box_Encrypt C rk rn payload pubKey) (\<lambda>encrypted.
        bindE (post (if token \<noteq> [] then with_token serverURL token else serverURL) encrypted) (\<lambda>(status, reply).
        bindE reply (\<lambda>body. if status \<ge> 300 then Inl (ErrMsg ''server returned an error'') else Inr body))))))"

section \<open>Lemmas\<close>

lemma kv_get_filter: "kv_get (filter (\<lambda>(k, _). P k) m) k = (if P k then kv_get m k else None)"
  by (induction m) (auto simp: kv_get_Cons kv_get_def)

lemma forwardable_get:
  "kv_get (forwardableProxyHeaders N r) k = (if k = ''X-Forwarded-For'' then Some (case net_SplitHostPort N (wr_RemoteAddr r) of None \<Rightarrow> wr_RemoteAddr r | Some (host, _) \<Rightarrow> host, [])
     else if ToLower k \<in> set proxyForwardAllowlist then kv_get (wr_Header r) k else None)"
  by (simp add: forwardableProxyHeaders_def Let_def kvm.get_put kv_get_filter)

lemma box_Encrypt_sealed:
  assumes "box_correct C" "length sk = 32" "length esk = 32" "length n = 24"
  shows "\<exists>e. box_Encrypt C (Some esk) (Some n) p (box_Public C sk) = Inr e \<and> IsEncrypted e \<and> (\<forall>ctx. DecryptWithContext C e sk ctx = Inr p)"
proof -
  let ?e = "\<lparr>en_Encrypted = True, en_Version = 1, en_Ephemeral = base64_Std_Encode (box_Public C esk), en_Nonce = base64_Std_Encode n,
            en_Ciphertext = base64_Std_Encode (box_Seal C p n (box_Public C sk) esk), en_Ctx = []\<rparr>"
  have b: "box_Encrypt C (Some esk) (Some n) p (box_Public C sk) = Inr (json_Marshal (marshal_envelope ?e))"
    by (simp add: box_Encrypt_def seal_def GenerateKeyPair_def encryptedEnvelopeVersion_def encryptedEnvelopeVersionV2_def of_option_def)
  have "\<forall>ctx. DecryptWithContext C (json_Marshal (marshal_envelope ?e)) sk ctx = Inr p"
    using Decrypt_sealed [OF assms, of 1 p "[]"] b by (simp add: box_Encrypt_def encryptedEnvelopeVersion_def)
  moreover have "IsEncrypted (json_Marshal (marshal_envelope ?e))"
  proof -
    have "length (box_Public C esk) = 32" "length p < length (box_Seal C p n (box_Public C sk) esk)"
      using assms unfolding box_correct_def by blast+
    then have "box_Public C esk \<noteq> []" "n \<noteq> []" "box_Seal C p n (box_Public C sk) esk \<noteq> []" using assms(4) by auto
    then show ?thesis using plain_envelope [of ?e]
      by (simp add: IsEncrypted_def json_roundtrip) (simp add: marshal_envelope_def json_simps Std_Encode_empty)
  qed
  ultimately show ?thesis using b by blast
qed

section \<open>Properties\<close>

text \<open>What leaves the proxy. For every \<open>POST\<close> within the size limit the request upstream carries the body only as an
  envelope, which the server recognizes and which opens with the channel's private key to exactly the
  bytes received; of the headers only those of the allowlist pass, unchanged; and the forwarded
  address is the one of the connection, whatever the sender claims. The answer is the one of the server.\<close>

theorem proxy_seals_and_filters:
  assumes "box_correct C" "length sk = 32" "length esk = 32" "length n = 24"
    and "wr_Method r = ''POST''" "read_body maxBodySize (wr_Body r) = Body body"
    and "proxyHandler C N (Some esk) (Some n) (box_Public C sk) url None maxBodySize upstream r = (p, sent)"
  shows "\<exists>q. sent = Some q \<and> IsEncrypted (pq_Body q) \<and> (\<forall>ctx. DecryptWithContext C (pq_Body q) sk ctx = Inr body) \<and>
     pq_ContentLength q = int (length (pq_Body q)) \<and> (\<forall>a. upstream q = Inr a \<longrightarrow> p = a) \<and>
     kv_get (pq_Header q) ''Content-Type'' = Some (''application/json'', []) \<and>
     kv_get (pq_Header q) ''X-Forwarded-For'' = Some (case net_SplitHostPort N (wr_RemoteAddr r) of None \<Rightarrow> wr_RemoteAddr r | Some (host, _) \<Rightarrow> host, []) \<and>
     (\<forall>k v. kv_get (pq_Header q) k = Some v \<longrightarrow> k \<in> {''Content-Type'', ''X-Forwarded-For''} \<or>
        ToLower k \<in> set proxyForwardAllowlist \<and> kv_get (wr_Header r) k = Some v)"
proof -
  obtain e where e: "box_Encrypt C (Some esk) (Some n) body (box_Public C sk) = Inr e" "IsEncrypted e" "\<forall>ctx. DecryptWithContext C e sk ctx = Inr body"
    using box_Encrypt_sealed [OF assms(1-4)] by blast
  let ?q = "\<lparr>pq_URL = url, pq_Header = kv_put ''Content-Type'' (''application/json'', []) (forwardableProxyHeaders N r),
                 pq_Body = e, pq_ContentLength = int (length e)\<rparr>"
  have "sent = Some ?q" "\<forall>a. upstream ?q = Inr a \<longrightarrow> p = a"
    using assms(5-7) e(1) by (auto simp: proxyHandler_def Let_def split: sum.splits)
  then show ?thesis using e(2,3) by (auto simp: kvm.get_put forwardable_get split: if_splits)
qed

theorem proxy_seals_and_filters_witness:
  "\<exists>q. snd (proxyHandler toy_crypto demo_net (Some (replicate 32 CHR ''e'')) (Some (replicate 24 CHR ''n'')) (replicate 32 CHR ''s'') ''https://hooks/c1'' None
        100 (\<lambda>_. Inr (WriteHeader 202)) demo_request) = Some q \<and> DecryptWithContext toy_crypto (pq_Body q) (replicate 32 CHR ''s'') [] = Inr ''{}''"
proof -
  have b: "read_body 100 (wr_Body demo_request) = Body ''{}''" by (simp add: read_body_def demo_request_def)
  have k: "box_Public toy_crypto x = x" for x by (simp add: toy_crypto_def)
  let ?h = "\<lambda>key. proxyHandler toy_crypto demo_net (Some (replicate 32 CHR ''e'')) (Some (replicate 24 CHR ''n'')) key ''https://hooks/c1'' None
        100 (\<lambda>_. Inr (WriteHeader 202)) demo_request"
  obtain p sent where h: "?h (box_Public toy_crypto (replicate 32 CHR ''s'')) = (p, sent)" by fastforce
  show ?thesis
    using proxy_seals_and_filters [OF toy_box _ _ _ _ b h] h by (auto simp: k)
qed

text \<open>The request as the server receives it.\<close>

definition received :: "proxy_request \<Rightarrow> web_request \<Rightarrow> web_request" where
  "received q r = r\<lparr>wr_Method := ''POST'', wr_Header := pq_Header q, wr_Body := \<lparr>bd_data = pq_Body q, bd_err = None\<rparr>\<rparr>"

lemma received_fields: "URLParam (received q r) = URLParam r" "wr_Body (received q r) = \<lparr>bd_data = pq_Body q, bd_err = None\<rparr>"
  "kv_get (pq_Header q) ''Content-Type'' = Some (''application/json'', []) \<Longrightarrow> Contains (header_Get (received q r) ''Content-Type'') ''application/json''"
proof -
  have "canonical True ''Content-Type'' = ''Content-Type''" "Contains ''application/json'' ''application/json''" by code_simp+
  then show "kv_get (pq_Header q) ''Content-Type'' = Some (''application/json'', []) \<Longrightarrow> Contains (header_Get (received q r) ''Content-Type'') ''application/json''"
    by (simp add: header_Get_def received_def)
qed (simp_all add: received_def URLParam_def fun_eq_iff)


definition demo_sealed :: "http_response \<times> proxy_request option" where
  "demo_sealed = proxyHandler toy_crypto demo_net (Some (replicate 32 CHR ''e'')) (Some (replicate 24 CHR ''n'')) (box_Public toy_crypto (replicate 32 CHR ''s''))
     ''https://hooks/c1'' None 100 (\<lambda>_. Inr (WriteHeader 202)) demo_request"

lemma demo_sealed_short: "case snd demo_sealed of None \<Rightarrow> False | Some q \<Rightarrow> length (pq_Body q) \<le> 1000"
  by code_simp


text \<open>The signatures do not survive the proxy. A provider signs the body it sends, the proxy forwards this signature with
  another body, and the server checks it against that one: on a channel with a secret every webhook that is signed
  by the scheme of GitHub is refused with 401.\<close>

theorem proxied_signature_refused:
  assumes "GetChannel (en_C E) (ws_store s) (URLParam r ''channel'') = Inr ch" "GetGlobalConfig (en_C E) (ws_store s) = Inr g"
    and "ch_WebhookSecret (domain_ResolveChannelConfig ch g) = secret" "secret \<noteq> []"
    and "0 < ch_MaxBodySize (domain_ResolveChannelConfig ch g)" "int (length (pq_Body q)) \<le> ch_MaxBodySize (domain_ResolveChannelConfig ch g)"
    and "kv_get (pq_Header q) ''Content-Type'' = Some (''application/json'', [])" "kv_get (pq_Header q) ''X-Gitlab-Token'' = None"
    and "kv_get (pq_Header q) ''X-Hub-Signature-256'' = Some (''sha256='' @ hex_EncodeToString (hmac_Sum (en_C E) secret body), [])"
    and "hmac_Sum (en_C E) secret (pq_Body q) \<noteq> hmac_Sum (en_C E) secret body"
  shows "rp_Status (fst (HandleWebhookPost E (received q r) s)) = 401"
proof -
  let ?r = "received q r" and ?c = "domain_ResolveChannelConfig ch g"
  have u: "URLParam ?r = URLParam r" by (rule received_fields)
  have n: "canonical True ''Content-Type'' = ''Content-Type''" "canonical True ''X-Gitlab-Token'' = ''X-Gitlab-Token''"
    "canonical True ''X-Hub-Signature-256'' = ''X-Hub-Signature-256''" by code_simp+
  have h: "header_Get ?r ''Content-Type'' = ''application/json''" "header_Get ?r ''X-Gitlab-Token'' = []"
    "header_Get ?r ''X-Hub-Signature-256'' = ''sha256='' @ hex_EncodeToString (hmac_Sum (en_C E) secret body)"
    using assms(7-9) n by (simp_all add: header_Get_def received_def)
  have "\<not> validateWebhookSignature (en_C E) secret (pq_Body q) ?r"
    using assms(4,10) h by (simp add: validateWebhookSignature_def validateGitHubWebhookSignature_def HasPrefix_def TrimPrefix_def hex_inject)
  moreover have "ResolveChannelConfig (en_C E) (ws_store s) (URLParam r ''channel'') = Inr ?c" by (rule ResolveChannelConfig_ok [OF assms(1,2)])
  moreover have "ResolveChannelWebhookSecret (en_C E) (ws_store s) (URLParam r ''channel'') = Inr secret" using resolvers_agree(1) [OF assms(1,2)] assms(3) by simp
  moreover have "Contains ''application/json'' ''application/json''" by code_simp
  moreover have "read_body (ch_MaxBodySize ?c) (wr_Body ?r) = Body (pq_Body q)" using assms(5,6) by (simp add: read_body_def received_def)
  ultimately show ?thesis using assms(2,4,5) h(1)
    by (simp add: HandleWebhookPost_def webhook_payload_def Let_def u http_Error_def)
qed

theorem proxied_signature_refused_witness:
  "rp_Status (fst (HandleWebhookPost demo_env (received \<lparr>pq_URL = [], pq_Header = [(''Content-Type'', (''application/json'', [])),
      (''X-Hub-Signature-256'', (''sha256='' @ hex_EncodeToString (hmac_Sum toy_crypto ''s3cret'' ''{}''), []))], pq_Body = ''sealed'', pq_ContentLength = 6\<rparr> demo_request) demo_web)) = 401"
proof -
  have "ch_WebhookSecret (domain_ResolveChannelConfig demo_channel DefaultGlobalConfig) = ''s3cret''"
    "ch_MaxBodySize (domain_ResolveChannelConfig demo_channel DefaultGlobalConfig) = 26214400"
    by (simp_all add: domain_ResolveChannelConfig_def MigrateChannel_def demo_channel_def zero_channel_def DefaultGlobalConfig_def Let_def)
  then show ?thesis
    by (intro proxied_signature_refused [where ch = demo_channel and g = DefaultGlobalConfig and secret = "''s3cret''" and body = "''{}''"])
      (simp_all add: demo_site_reads kv_get_Cons toy_crypto_def)
qed

end
