(* ===== verification/Urls.thy ===== *)
theory Urls
  imports Proxy
begin

text \<open>
  Query strings and what is logged of them: the query functions of \<open>net/url\<close>, the request logger \<open>handler/logging.go\<close>, the URLs of the
  proxy program (\<open>pkg/urlutil/url.go\<close>, \<open>redactedTargetURL\<close> of \<open>proxy/proxy.go\<close>), and the pages of \<open>web/handler.go\<close>. The lemmas show that
  encoding and parsing a query are inverse, that the log does not depend on a credential, and where it does.
\<close>

section \<open>Queries of \<open>net/url\<close>\<close>

definition upper_hex :: string where
  "upper_hex = ''0123456789ABCDEF''"

definition unreserved :: "char \<Rightarrow> bool" where
  "unreserved c \<longleftrightarrow> c \<in> set url_alphabet \<or> c = CHR ''.'' \<or> c = CHR ''~''"

definition escape_char :: "char \<Rightarrow> string" where
  "escape_char c = (if unreserved c then [c] else if c = CHR '' '' then ''+''
     else [CHR ''%'', upper_hex ! (of_char c div 16), upper_hex ! (of_char c mod 16)])"

definition QueryEscape :: "string \<Rightarrow> string" where
  "QueryEscape s = concat (map escape_char s)"

definition unhex :: "char \<Rightarrow> nat option" where
  "unhex c = alpha_index hex_digits (lower_char c)"

fun QueryUnescape :: "string \<Rightarrow> string option" where
  "QueryUnescape [] = Some []"
| "QueryUnescape (c # s) =
     (if c = CHR ''%'' then
        (case s of
           a # b # t \<Rightarrow> (case (unhex a, unhex b) of
               (Some x, Some y) \<Rightarrow> map_option ((#) (char_of (16 * x + y))) (QueryUnescape t)
             | _ \<Rightarrow> None)
         | _ \<Rightarrow> None)
      else map_option ((#) (if c = CHR ''+'' then CHR '' '' else c)) (QueryUnescape s))"

text \<open>The parameters of a query in their order. Segments with a semicolon or a wrong escape are left out; the error they give is
  ignored by \<open>URL.Query\<close>. Queries are within the package's limit on the number of parameters.\<close>

definition parse_segment :: "string \<Rightarrow> (string \<times> string) list" where
  "parse_segment seg = (if CHR '';'' \<in> set seg \<or> seg = [] then []
     else (let (k, v) = (case SplitN2 CHR ''='' seg of None \<Rightarrow> (seg, []) | Some kv \<Rightarrow> kv) in
       case (QueryUnescape k, QueryUnescape v) of (Some k', Some v') \<Rightarrow> [(k', v')] | _ \<Rightarrow> []))"

definition parse_pairs :: "string \<Rightarrow> (string \<times> string) list" where
  "parse_pairs raw = concat (map parse_segment (Split CHR ''&'' raw))"

type_synonym query_values = "(string, string list) kv"

definition values_of :: "query_values \<Rightarrow> string \<Rightarrow> string list" where
  "values_of q k = (case kv_get q k of None \<Rightarrow> [] | Some vs \<Rightarrow> vs)"

fun add_pairs :: "(string \<times> string) list \<Rightarrow> query_values \<Rightarrow> query_values" where
  "add_pairs [] q = q"
| "add_pairs ((k, v) # ps) q = add_pairs ps (kv_put k (values_of q k @ [v]) q)"

definition ParseQuery :: "string \<Rightarrow> query_values" where
  "ParseQuery raw = add_pairs (parse_pairs raw) []"

definition values_Get :: "query_values \<Rightarrow> string \<Rightarrow> string" where
  "values_Get q k = (case values_of q k of [] \<Rightarrow> [] | v # _ \<Rightarrow> v)"

definition values_Set :: "query_values \<Rightarrow> string \<Rightarrow> string \<Rightarrow> query_values" where
  "values_Set q k v = kv_put k [v] q"

definition flat_pairs :: "query_values \<Rightarrow> (string \<times> string) list" where
  "flat_pairs q = concat (map (\<lambda>(k, vs). map (Pair k) vs) q)"

definition values_Encode :: "query_values \<Rightarrow> string" where
  "values_Encode q = Join (map (\<lambda>(k, v). QueryEscape k @ ''='' @ QueryEscape v) (flat_pairs q)) ''&''"

section \<open>The request log\<close>

definition sensitiveQueryParams :: "string list" where
  "sensitiveQueryParams = [''token'', ''code'', ''state'', ''client_secret'', ''secret'', ''password'']"

text \<open>What the logger uses of a request: the escaped path, the query and the request line.\<close>

record log_request =
  lr_Path :: string
  lr_RawQuery :: string
  lr_RequestURI :: string

definition url_RequestURI :: "string \<Rightarrow> string \<Rightarrow> string" where
  "url_RequestURI path raw = (if path = [] then ''/'' else path) @ (if raw \<noteq> [] then ''?'' @ raw else [])"

definition redacted :: string where
  "redacted = ''<redacted>''"

fun redact_params :: "string list \<Rightarrow> query_values \<times> bool \<Rightarrow> query_values \<times> bool" where
  "redact_params [] s = s"
| "redact_params (p # ps) (q, changed) =
     redact_params ps (if values_Get q p \<noteq> [] then (values_Set q p redacted, True) else (q, changed))"

definition sanitizeRequestForLog :: "log_request \<Rightarrow> log_request" where
  "sanitizeRequestForLog r = (let (q, changed) = redact_params sensitiveQueryParams (ParseQuery (lr_RawQuery r), False) in
     if changed then r\<lparr>lr_RawQuery := values_Encode q, lr_RequestURI := url_RequestURI (lr_Path r) (values_Encode q)\<rparr> else r)"

section \<open>The URLs of the proxy\<close>

text \<open>A parsed URL around its query; \<open>url.Parse\<close> itself is the argument \<open>urlparse\<close>.\<close>

record parsed_url =
  pu_Before :: string
  pu_RawQuery :: string
  pu_ForceQuery :: bool
  pu_After :: string

definition url_String :: "parsed_url \<Rightarrow> string" where
  "url_String u = pu_Before u @ (if pu_ForceQuery u \<or> pu_RawQuery u \<noteq> [] then ''?'' @ pu_RawQuery u else []) @ pu_After u"

definition URLWithQueryParam :: "(string \<Rightarrow> parsed_url option) \<Rightarrow> string \<Rightarrow> string \<Rightarrow> string \<Rightarrow> string" where
  "URLWithQueryParam urlparse rawURL key v = (case urlparse rawURL of
       None \<Rightarrow> rawURL
     | Some u \<Rightarrow> url_String (u\<lparr>pu_RawQuery := values_Encode (values_Set (ParseQuery (pu_RawQuery u)) key v)\<rparr>))"

definition redactedTargetURL :: "(string \<Rightarrow> parsed_url option) \<Rightarrow> string \<Rightarrow> string" where
  "redactedTargetURL urlparse rawURL = (case urlparse rawURL of
       None \<Rightarrow> ''<invalid-url>''
     | Some u \<Rightarrow> (let q = ParseQuery (pu_RawQuery u) in
         if values_Get q ''token'' \<noteq> [] then url_String (u\<lparr>pu_RawQuery := values_Encode (values_Set q ''token'' redacted)\<rparr>)
         else url_String u))"

section \<open>The pages\<close>

text \<open>\<open>opens\<close> says whether the embedded file system opens a name, \<open>fileServer\<close> answers a path with the headers set so far.\<close>

definition spa_headers :: "(string, string) kv" where
  "spa_headers = kv_put ''X-Frame-Options'' ''DENY'' (kv_put ''X-Content-Type-Options'' ''nosniff'' (kv_put ''Referrer-Policy'' ''no-referrer''
     (kv_put ''Content-Security-Policy'' [CHR ''f'', CHR ''r'', CHR ''a'', CHR ''m'', CHR ''e'', CHR ''-'', CHR ''a'', CHR ''n'', CHR ''c'', CHR ''e'', CHR ''s'',
        CHR ''t'', CHR ''o'', CHR ''r'', CHR ''s'', CHR '' '', CHR 0x27, CHR ''n'', CHR ''o'', CHR ''n'', CHR ''e'', CHR 0x27] [])))"

definition spaHandlerFrom ::
  "(string \<Rightarrow> bool) \<Rightarrow> (string \<Rightarrow> (string, string) kv \<Rightarrow> http_response) \<Rightarrow> web_request \<Rightarrow> http_response" where
  "spaHandlerFrom opens fileServer r =
     (let p = TrimPrefix (wr_Path r) ''/'' in
      if p \<noteq> [] \<and> opens p then
        fileServer (wr_Path r) (if HasPrefix p ''assets/'' then kv_put ''Cache-Control'' ''public, max-age=31536000, immutable'' spa_headers else spa_headers)
      else fileServer ''/'' (kv_put ''Content-Type'' ''text/html; charset=utf-8'' (kv_put ''Cache-Control'' ''no-cache'' spa_headers)))"

section \<open>Lemmas\<close>

lemma unhex_upper: "n < 16 \<Longrightarrow> unhex (upper_hex ! n) = Some n"
proof -
  have "\<forall>n \<in> set [0..<16]. unhex (upper_hex ! n) = Some n" by code_simp
  then show "n < 16 \<Longrightarrow> unhex (upper_hex ! n) = Some n" by simp
qed

lemma percent_reserved: "\<not> unreserved CHR ''%''" "\<not> unreserved CHR ''+''"
  by code_simp+

lemma unescape_char: "QueryUnescape (escape_char c @ t) = map_option ((#) c) (QueryUnescape t)"
proof -
  have "of_char c div 16 < (16 :: nat)" using less_mult_imp_div_less [of "of_char c" 16 16] by simp
  then have "unhex (upper_hex ! (of_char c div 16)) = Some (of_char c div 16)" "unhex (upper_hex ! (of_char c mod 16)) = Some (of_char c mod 16)"
    by (simp_all add: unhex_upper)
  moreover have "char_of (16 * (of_char c div 16) + of_char c mod 16 :: nat) = c" by simp
  moreover have "unreserved c \<Longrightarrow> c \<noteq> CHR ''%'' \<and> c \<noteq> CHR ''+''" using percent_reserved by blast
  ultimately show ?thesis by (simp add: escape_char_def)
qed

lemma QueryUnescape_Escape: "QueryUnescape (QueryEscape s) = Some s"
  by (induction s) (simp_all add: QueryEscape_def unescape_char)

interpretation query_escape: codec QueryEscape QueryUnescape "\<lambda>_. True"
  by unfold_locales (simp add: QueryUnescape_Escape)

definition escaped_chars :: string where
  "escaped_chars = url_alphabet @ upper_hex @ ''.~+%''"

lemma escape_char_chars: "set (escape_char c) \<subseteq> set escaped_chars"
proof -
  have "upper_hex ! (of_char c div 16) \<in> set upper_hex" "upper_hex ! (of_char c mod 16) \<in> set upper_hex"
    using less_mult_imp_div_less [of "of_char c" 16 16] by (simp_all add: nth_mem upper_hex_def del: set_simps nth_Cons_numeral)
  then show ?thesis by (auto simp: escape_char_def unreserved_def escaped_chars_def)
qed

lemma QueryEscape_chars: "set (QueryEscape s) \<subseteq> set escaped_chars"
  using escape_char_chars by (auto simp: QueryEscape_def)

lemma no_separators: "CHR ''&'' \<notin> set escaped_chars" "CHR ''='' \<notin> set escaped_chars" "CHR '';'' \<notin> set escaped_chars"
  by code_simp+

lemma escaped_separators: "CHR ''&'' \<notin> set (QueryEscape s)" "CHR ''='' \<notin> set (QueryEscape s)" "CHR '';'' \<notin> set (QueryEscape s)"
  using QueryEscape_chars [of s] no_separators by blast+

lemma parse_encoded_segment: "parse_segment (QueryEscape k @ ''='' @ QueryEscape v) = [(k, v)]"
  using SplitN2_append [OF escaped_separators(2) [of k], of "QueryEscape v"]
  by (simp add: parse_segment_def escaped_separators QueryUnescape_Escape)

lemma parse_encoded_pairs: "parse_pairs (values_Encode q) = flat_pairs q"
proof (cases "flat_pairs q = []")
  case True
  then show ?thesis by (simp add: parse_pairs_def values_Encode_def parse_segment_def)
next
  case False
  let ?segs = "map (\<lambda>(k, v). QueryEscape k @ ''='' @ QueryEscape v) (flat_pairs q)"
  have "\<forall>x \<in> set ?segs. CHR ''&'' \<notin> set x" by (auto simp: escaped_separators)
  then have "Split CHR ''&'' (values_Encode q) = ?segs" using Split_Join [of ?segs "CHR ''&''"] False by (simp add: values_Encode_def)
  then have "parse_pairs (values_Encode q) = concat (map (\<lambda>p. [p]) (flat_pairs q))"
    by (simp add: parse_pairs_def comp_def case_prod_beta parse_encoded_segment [simplified])
  then show ?thesis by simp
qed

definition pair_values :: "(string \<times> string) list \<Rightarrow> string \<Rightarrow> string list" where
  "pair_values ps k = map snd (filter (\<lambda>p. fst p = k) ps)"

lemma add_pairs_get: "kv_get (add_pairs ps q) k = (if pair_values ps k = [] then kv_get q k else Some (values_of q k @ pair_values ps k))"
  by (induction ps q rule: add_pairs.induct) (auto simp: pair_values_def kvm.get_put values_of_def simp del: kv_put.simps)

lemma add_pairs_wf: "kv_wf q \<Longrightarrow> kv_wf (add_pairs ps q)"
  by (induction ps q rule: add_pairs.induct) (simp_all add: kv_wf_put del: kv_put.simps)

lemma ParseQuery_wf: "kv_wf (ParseQuery raw)"
  by (simp add: ParseQuery_def add_pairs_wf)

lemma ParseQuery_get: "kv_get (ParseQuery raw) k = (if pair_values (parse_pairs raw) k = [] then None else Some (pair_values (parse_pairs raw) k))"
  by (simp add: ParseQuery_def add_pairs_get values_of_def)

lemma query_Get_values: "wr_Query r = parse_pairs raw \<Longrightarrow> query_Get r k = values_Get (ParseQuery raw) k"
proof -
  have "or_empty (map_of ps k) = (case pair_values ps k of [] \<Rightarrow> [] | v # _ \<Rightarrow> v)" for ps
    by (induction ps) (auto simp: pair_values_def or_empty_def)
  then show "wr_Query r = parse_pairs raw \<Longrightarrow> query_Get r k = values_Get (ParseQuery raw) k"
    by (simp add: query_Get_def values_Get_def values_of_def ParseQuery_get)
qed

lemma pair_values_flat: "kv_wf q \<Longrightarrow> pair_values (flat_pairs q) k = values_of q k"
proof (induction q)
  case (Cons b q)
  obtain a vs where b: "b = (a, vs)" by force
  have w: "kv_wf q" "a \<notin> fst ` set q" using Cons.prems by (auto simp: b kv_wf_Cons)
  have "pair_values (flat_pairs (b # q)) k = (if k = a then vs else []) @ pair_values (flat_pairs q) k"
    by (auto simp: pair_values_def flat_pairs_def b comp_def)
  then show ?case using Cons.IH [OF w(1)] kv_get_notin [OF w(2)] by (auto simp: values_of_def b kv_get_Cons)
qed (simp add: pair_values_def flat_pairs_def values_of_def)

text \<open>A query as parsing makes them: ordered keys, each with a value.\<close>

definition query_wf :: "query_values \<Rightarrow> bool" where
  "query_wf q \<longleftrightarrow> kv_wf q \<and> (\<forall>k. kv_get q k \<noteq> Some [])"

lemma ParseQuery_query_wf: "query_wf (ParseQuery raw)"
  by (simp add: query_wf_def ParseQuery_wf ParseQuery_get)

lemma values_Set_wf: "query_wf q \<Longrightarrow> query_wf (values_Set q k v)"
  by (simp add: query_wf_def values_Set_def kv_wf_put kvm.get_put del: kv_put.simps)

lemma ParseQuery_Encode:
  assumes "query_wf q"
  shows "ParseQuery (values_Encode q) = q"
proof (rule kv_ext [OF ParseQuery_wf])
  show "kv_wf q" using assms by (simp add: query_wf_def)
  then show "kv_get (ParseQuery (values_Encode q)) k = kv_get q k" for k
    using assms by (auto simp: ParseQuery_get parse_encoded_pairs pair_values_flat values_of_def query_wf_def split: option.splits)
qed

interpretation query_codec: codec values_Encode "\<lambda>raw. Some (ParseQuery raw)" query_wf
  by unfold_locales (simp add: ParseQuery_Encode)

lemma values_Get_Set: "values_Get (values_Set q k v) k' = (if k' = k then v else values_Get q k')"
  by (simp add: values_Get_def values_of_def values_Set_def kvm.get_put del: kv_put.simps)

lemma kv_get_Set: "kv_get (values_Set q k v) k' = (if k' = k then Some [v] else kv_get q k')"
  by (simp add: values_Set_def kvm.get_put del: kv_put.simps)

lemma redact_params_wf: "query_wf q \<Longrightarrow> query_wf (fst (redact_params ps (q, ch)))"
  by (induction ps "(q, ch)" arbitrary: q ch rule: redact_params.induct) (simp_all add: values_Set_wf)

lemma redact_params_get:
  "distinct ps \<Longrightarrow> kv_get (fst (redact_params ps (q, ch))) k = (if k \<in> set ps \<and> values_Get q k \<noteq> [] then Some [redacted] else kv_get q k)"
proof (induction ps arbitrary: q ch)
  case (Cons p ps)
  have d: "distinct ps" "p \<notin> set ps" using Cons.prems by simp_all
  show ?case
  proof (cases "values_Get q p = []")
    case True
    then show ?thesis using Cons.IH [OF d(1)] d(2) by auto
  next
    case False
    then have "kv_get (fst (redact_params (p # ps) (q, ch))) k =
        (if k \<in> set ps \<and> values_Get (values_Set q p redacted) k \<noteq> [] then Some [redacted] else kv_get (values_Set q p redacted) k)"
      using Cons.IH [OF d(1)] by simp
    then show ?thesis using False d(2) by (auto simp: values_Get_Set kv_get_Set)
  qed
qed simp

lemma redact_params_changed: "distinct ps \<Longrightarrow> snd (redact_params ps (q, ch)) \<longleftrightarrow> ch \<or> (\<exists>p \<in> set ps. values_Get q p \<noteq> [])"
proof (induction ps arbitrary: q ch)
  case (Cons p ps)
  have d: "distinct ps" "\<forall>k \<in> set ps. values_Get (values_Set q p redacted) k = values_Get q k" using Cons.prems by (auto simp: values_Get_Set)
  show ?case using Cons.IH [OF d(1)] d(2) by (cases "values_Get q p = []") auto
qed simp

lemma sensitive_distinct: "distinct sensitiveQueryParams"
  by code_simp

lemma sanitize_query:
  "kv_get (ParseQuery (lr_RawQuery (sanitizeRequestForLog r))) k =
     (if k \<in> set sensitiveQueryParams \<and> values_Get (ParseQuery (lr_RawQuery r)) k \<noteq> [] then Some [redacted] else kv_get (ParseQuery (lr_RawQuery r)) k)"
proof -
  let ?q = "ParseQuery (lr_RawQuery r)"
  obtain q ch where q: "redact_params sensitiveQueryParams (?q, False) = (q, ch)" by force
  have g: "kv_get q k = (if k \<in> set sensitiveQueryParams \<and> values_Get ?q k \<noteq> [] then Some [redacted] else kv_get ?q k)"
    using redact_params_get [OF sensitive_distinct, of ?q False k] q by simp
  have "query_wf q" using redact_params_wf [OF ParseQuery_query_wf, of sensitiveQueryParams "lr_RawQuery r" False] q by simp
  moreover have "\<not> ch \<Longrightarrow> \<forall>p \<in> set sensitiveQueryParams. values_Get ?q p = []"
    using redact_params_changed [OF sensitive_distinct, of ?q False] q by simp
  ultimately show ?thesis using g q by (cases ch) (auto simp: sanitizeRequestForLog_def ParseQuery_Encode)
qed

section \<open>Properties\<close>


definition demo_line :: "string \<Rightarrow> log_request" where
  "demo_line raw = \<lparr>lr_Path = ''/c1'', lr_RawQuery = raw, lr_RequestURI = ''/c1?'' @ raw\<rparr>"

lemma demo_queries: "ParseQuery ''token=a&n=1'' = [(''n'', [''1'']), (''token'', [''a''])]" "ParseQuery ''n=1&token=b'' = [(''n'', [''1'']), (''token'', [''b''])]"
  by code_simp+


text \<open>Only the first value of a parameter is looked at: a credential behind an empty one, and one in a segment that does not parse, is logged as
  it came.\<close>

theorem later_value_logged:
  "sanitizeRequestForLog (demo_line ''token=&token=s3cret'') = demo_line ''token=&token=s3cret'' \<and>
   sanitizeRequestForLog (demo_line ''token=s3cret;x=1'') = demo_line ''token=s3cret;x=1''"
proof -
  have "\<not> snd (redact_params sensitiveQueryParams (ParseQuery ''token=&token=s3cret'', False))"
    "\<not> snd (redact_params sensitiveQueryParams (ParseQuery ''token=s3cret;x=1'', False))" by code_simp+
  then show ?thesis by (simp add: sanitizeRequestForLog_def demo_line_def case_prod_beta)
qed

text \<open>What \<open>url.Parse\<close> and \<open>URL.String\<close> promise for a URL whose query is replaced by an encoded one.\<close>

definition url_reparses :: "(string \<Rightarrow> parsed_url option) \<Rightarrow> bool" where
  "url_reparses urlparse \<longleftrightarrow> (\<forall>s u q. urlparse s = Some u \<longrightarrow>
     urlparse (url_String (u\<lparr>pu_RawQuery := values_Encode q\<rparr>)) = Some (u\<lparr>pu_RawQuery := values_Encode q\<rparr>))"

lemma reparsed: "url_reparses urlparse \<Longrightarrow> urlparse s = Some u \<Longrightarrow>
    urlparse (URLWithQueryParam urlparse s k v) = Some (u\<lparr>pu_RawQuery := values_Encode (values_Set (ParseQuery (pu_RawQuery u)) k v)\<rparr>)"
  by (simp add: url_reparses_def URLWithQueryParam_def)

text \<open>The token of the proxy reaches the server and not the log: the target URL with the token parses to a query that has it as its only
  value for \<open>token\<close> and every other parameter of the target as before; and what the proxy prints at its start is the same for every token.\<close>

theorem proxy_token_kept_from_log:
  assumes "url_reparses urlparse" "urlparse target = Some u" "token \<noteq> []" "token' \<noteq> []"
  shows "(\<exists>v. urlparse (URLWithQueryParam urlparse target ''token'' token) = Some v \<and> (\<forall>k. kv_get (ParseQuery (pu_RawQuery v)) k =
        (if k = ''token'' then Some [token] else kv_get (ParseQuery (pu_RawQuery u)) k))) \<and>
     redactedTargetURL urlparse (URLWithQueryParam urlparse target ''token'' token) = redactedTargetURL urlparse (URLWithQueryParam urlparse target ''token'' token')"
proof -
  let ?q = "ParseQuery (pu_RawQuery u)"
  have w: "ParseQuery (values_Encode (values_Set ?q k v)) = values_Set ?q k v" for k v by (intro ParseQuery_Encode values_Set_wf ParseQuery_query_wf)
  have "values_Set (values_Set ?q k v) k redacted = values_Set ?q k redacted" for k v
    by (rule kv_ext) (use values_Set_wf [OF values_Set_wf [OF ParseQuery_query_wf]] values_Set_wf [OF ParseQuery_query_wf] in \<open>simp_all add: query_wf_def kv_get_Set\<close>)
  then have "redactedTargetURL urlparse (URLWithQueryParam urlparse target ''token'' t) =
      url_String (u\<lparr>pu_RawQuery := values_Encode (values_Set ?q ''token'' redacted)\<rparr>)" if "t \<noteq> []" for t
    using reparsed [OF assms(1,2)] that by (simp add: redactedTargetURL_def w values_Get_Set Let_def)
  then show ?thesis using reparsed [OF assms(1,2)] assms(3,4) by (simp add: w kv_get_Set)
qed

definition demo_parse :: "string \<Rightarrow> parsed_url option" where
  "demo_parse s = Some (case SplitN2 CHR ''?'' s of
       None \<Rightarrow> \<lparr>pu_Before = s, pu_RawQuery = [], pu_ForceQuery = False, pu_After = []\<rparr>
     | Some (a, b) \<Rightarrow> \<lparr>pu_Before = a, pu_RawQuery = b, pu_ForceQuery = False, pu_After = []\<rparr>)"

lemma SplitN2_None: "c \<notin> set s \<longleftrightarrow> SplitN2 c s = None"
  by (induction s) (auto split: option.splits)

lemma demo_parse_reparses: "url_reparses demo_parse"
proof -
  have "CHR ''?'' \<notin> set (pu_Before u) \<and> pu_ForceQuery u = False \<and> pu_After u = []" if "demo_parse s = Some u" for s u
    using that SplitN2_Some [of "CHR ''?''" s] by (auto simp: demo_parse_def SplitN2_None split: option.splits)
  moreover have "demo_parse (url_String (u\<lparr>pu_RawQuery := raw\<rparr>)) = Some (u\<lparr>pu_RawQuery := raw\<rparr>)"
    if "CHR ''?'' \<notin> set (pu_Before u) \<and> pu_ForceQuery u = False \<and> pu_After u = []" for u raw
    using that SplitN2_append [of "CHR ''?''" "pu_Before u" raw] by (cases "raw = []") (simp_all add: demo_parse_def url_String_def SplitN2_None)
  ultimately show ?thesis unfolding url_reparses_def by blast
qed

theorem proxy_token_kept_from_log_witness:
  "redactedTargetURL demo_parse (URLWithQueryParam demo_parse ''https://h/c1?n=1'' ''token'' ''a'') =
   redactedTargetURL demo_parse (URLWithQueryParam demo_parse ''https://h/c1?n=1'' ''token'' ''b'')"
  by (rule conjunct2 [OF proxy_token_kept_from_log [OF demo_parse_reparses, of _ "the (demo_parse ''https://h/c1?n=1'')"]]) (simp_all add: demo_parse_def)

text \<open>Deep links of the pages work: every path that is not a file gets the answer of the start page.\<close>

lemma spa_fallback:
  assumes "\<not> opens (TrimPrefix (wr_Path r) ''/'')"
  shows "spaHandlerFrom opens fileServer r = spaHandlerFrom opens fileServer (r\<lparr>wr_Path := ''/''\<rparr>)"
  using assms by (simp add: spaHandlerFrom_def TrimPrefix_def)

end
