(* ===== verification/StoreFrame.thy ===== *)
theory StoreFrame
  imports RaftAuth
begin

text \<open>
  What a repository write may change. A write is framed by a set of keys when it leaves every other key of
  the bucket and the rest of the store alone, whatever became of the proposal: refused, applied, or
  applied with the answer lost. The locale \<open>store_write\<close> is this contract; every write of the repository that
  the management API uses interprets it.
\<close>

section \<open>Frames\<close>

text \<open>\<open>framed ks rs rs'\<close>: \<open>rs'\<close> differs from \<open>rs\<close> at most in the values of the keys in \<open>ks\<close>.\<close>

definition framed :: "string set \<Rightarrow> raft_store \<Rightarrow> raft_store \<Rightarrow> bool" where
  "framed ks rs rs' \<longleftrightarrow> (\<exists>m. rs' = with_bucket rs m \<and> kv_wf m \<and> (\<forall>k. k \<notin> ks \<longrightarrow> kv_get m k = kv_get (bucket rs) k))"

lemma framed_refl: "reads_ok rs \<Longrightarrow> framed ks rs rs"
  unfolding framed_def using reads_with_id [of rs] by (metis reads_okE)

lemma framed_reads: "reads_ok rs \<Longrightarrow> framed ks rs rs' \<Longrightarrow> reads_ok rs'"
  by (auto simp: framed_def intro: reads_with)

lemma framed_trans: "framed ks rs rs1 \<Longrightarrow> framed ks rs1 rs2 \<Longrightarrow> framed ks rs rs2"
  by (auto simp: framed_def)

lemma framed_mono: "framed ks rs rs' \<Longrightarrow> ks \<subseteq> ks' \<Longrightarrow> framed ks' rs rs'"
  by (auto simp: framed_def)

lemma framed_get: "framed ks rs rs' \<Longrightarrow> k \<notin> ks \<Longrightarrow> kv_get (bucket rs') k = kv_get (bucket rs) k"
  by (auto simp: framed_def)

lemma framed_keeper: "framed ks rs rs' \<Longrightarrow> rs_keeper rs' = rs_keeper rs"
  by (auto simp: framed_def)

lemma multi_entries_outside: "kv_wf m \<Longrightarrow> k \<notin> fk_Key ` set es \<Longrightarrow> kv_get (multi_entries es m) k = kv_get m k"
  by (induction es m rule: multi_entries.induct) (auto simp: kvm.get_put kvm.get_del kvm.wf_put kvm.wf_del)

lemma framed_put: "reads_ok rs \<Longrightarrow> k \<in> ks \<Longrightarrow> framed ks rs (with_bucket rs (kv_put k v (bucket rs)))"
  by (auto elim!: reads_okE simp: framed_def kvm.get_put kvm.wf_put intro!: exI [of _ "kv_put k v (bucket rs)"])

lemma framed_set:
  "reads_ok rs \<Longrightarrow> op = ''set'' \<or> op = ''set-json'' \<Longrightarrow> k \<in> ks \<Longrightarrow> framed ks rs (snd (applyCommand rs op k v))"
  using set_step [of rs op k v] framed_put [of rs k ks v] framed_refl [of rs ks] by auto

lemma framed_delete: "reads_ok rs \<Longrightarrow> k \<in> ks \<Longrightarrow> framed ks rs (snd (applyCommand rs ''delete'' k v))"
proof -
  assume a: "reads_ok rs" "k \<in> ks"
  then have "framed ks rs (with_bucket rs (kv_del k (bucket rs)))"
    by (auto elim!: reads_okE simp: framed_def kvm.get_del kvm.wf_del intro!: exI [of _ "kv_del k (bucket rs)"])
  then show ?thesis using delete_step [OF a(1), of k v] framed_refl [OF a(1), of ks] by auto
qed

lemma framed_multi: "reads_ok rs \<Longrightarrow> fk_Key ` set es \<subseteq> ks \<Longrightarrow> framed ks rs (snd (applyMulti rs es))"
proof -
  assume a: "reads_ok rs" "fk_Key ` set es \<subseteq> ks"
  have w: "kv_wf (bucket rs)" using a(1) by (rule reads_okE) simp
  have "framed ks rs (with_bucket rs (multi_entries es (bucket rs)))"
    unfolding framed_def using multi_entries_outside [OF w, of _ es] a(2) kv_wf_multi [OF w]
    by (intro exI [of _ "multi_entries es (bucket rs)"] conjI refl allI impI) blast+
  then show ?thesis using multi_step [OF a(1), of es] framed_refl [OF a(1), of ks] by auto
qed

section \<open>The contract of a write\<close>

text \<open>
  The contract of a repository write: it changes only keys it names. Every such write keeps the store
  readable and leaves the records outside its keys alone.
\<close>

locale store_write =
  fixes wr :: "raft_store \<Rightarrow> raft_store"
    and ks :: "string set"
  assumes writes: "reads_ok rs \<Longrightarrow> framed ks rs (wr rs)"
begin

lemma readable: "reads_ok rs \<Longrightarrow> reads_ok (wr rs)"
  using framed_reads writes by blast

lemma keeps: "reads_ok rs \<Longrightarrow> k \<notin> ks \<Longrightarrow> getFSMValue (rs_db (wr rs)) k = getFSMValue (rs_db rs) k"
  using framed_get [OF writes] by (simp add: reads_get readable)

lemma keeps_user: "reads_ok rs \<Longrightarrow> userKey i \<notin> ks \<Longrightarrow> GetUser (wr rs) i = GetUser rs i"
  by (simp add: GetUser_def keeps)

end

definition below :: "string \<Rightarrow> string set" where
  "below p = {k. prefix p k}"

interpretation bump_write: store_write "\<lambda>rs. snd (BumpAuthEpoch rs)" "{''/meta/auth_epoch''}"
  by unfold_locales (auto simp: BumpAuthEpoch_def framed_refl framed_set split: sum.splits)

interpretation create_channel_write: store_write "\<lambda>rs. snd (CreateChannel C ns rs p)" "{channelKey (ch_ID p)}"
proof
  fix rs assume a: "reads_ok rs"
  then show "framed {channelKey (ch_ID p)} rs (snd (CreateChannel C ns rs p))"
    using create_channel_step [OF a] framed_put [OF a] framed_refl [OF a]
    by (simp add: CreateChannel_def case_prod_beta split: sum.split) (metis singletonI)
qed

interpretation update_channel_write: store_write "\<lambda>rs. snd (UpdateChannel C ns rs p)" "{channelKey (ch_ID p)}"
  by unfold_locales (simp add: UpdateChannel_def framed_refl framed_set split: sum.split)

interpretation delete_channel_write: store_write "\<lambda>rs. snd (DeleteChannel rs i)" "{channelKey i}"
  by unfold_locales (simp add: DeleteChannel_def framed_delete)

interpretation config_write: store_write "\<lambda>rs. snd (UpdateGlobalConfig C ns rs cfg)" "{''/global/server/'', ''/global/defaults/''}"
  by unfold_locales (auto simp: UpdateGlobalConfig_def framed_refl intro!: framed_multi split: option.split sum.split)

interpretation providers_write: store_write "\<lambda>rs. snd (SetOIDCProviders C ns rs ps)" "{''/global/auth/oidc_providers''}"
  by unfold_locales (simp add: SetOIDCProviders_def framed_refl framed_set split: sum.split)

interpretation switch_write: store_write "\<lambda>rs. snd (SetInternalAuthEnabled rs b)" "{''/global/auth/internal_enabled''}"
  by unfold_locales (simp add: SetInternalAuthEnabled_def framed_set)

interpretation mapping_write: store_write "\<lambda>rs. snd (CreateRoleMapping rnd rs m)" "below ''/rbac/mappings/''"
  by unfold_locales (auto simp: CreateRoleMapping_def framed_refl below_def mappingKey_def intro!: framed_set split: sum.split)

interpretation unmap_write: store_write "\<lambda>rs. snd (DeleteRoleMapping rs i)" "below ''/rbac/mappings/''"
  by unfold_locales (simp add: DeleteRoleMapping_def framed_delete below_def mappingKey_def)

interpretation acl_write: store_write "\<lambda>rs. snd (CreateChannelRoleMapping rnd rs m)" "below (aclPrefix (cm_ChannelID m))"
  by unfold_locales (auto simp: CreateChannelRoleMapping_def framed_refl below_def intro!: framed_set split: sum.split)

interpretation unacl_write: store_write "\<lambda>rs. snd (DeleteChannelRoleMapping rs c i)" "below (aclPrefix c)"
  by unfold_locales (simp add: DeleteChannelRoleMapping_def framed_delete below_def)

interpretation create_user_write: store_write "\<lambda>rs. snd (CreateUser rs u)" "below ''/users/''"
proof
  fix rs assume a: "reads_ok rs"
  let ?u = "u\<lparr>us_ID := (if us_ID u = [] then us_Username u else us_ID u)\<rparr>"
  have "framed (below ''/users/'') rs (with_bucket rs (kv_put (usernameIndexKey (us_Username u) @ ''/'') x (kv_put (userKey i) y (bucket rs))))" for x y i
    using framed_put [OF a, of "userKey i" "below ''/users/''" y]
      framed_put [of "with_bucket rs (kv_put (userKey i) y (bucket rs))" "usernameIndexKey (us_Username u) @ ''/''" "below ''/users/''" x]
    by (auto simp: below_def userKey_def usernameIndexKey_def intro: framed_trans framed_reads [OF a])
  then show "framed (below ''/users/'') rs (snd (CreateUser rs u))"
    using create_user_step [OF a, of "userKey (us_ID ?u)" ?u] framed_refl [OF a, of "below ''/users/''"]
    by (auto simp: CreateUser_def case_prod_beta Let_def)
qed

lemma users_multi: "reads_ok rs \<Longrightarrow> list_all (\<lambda>e. prefix ''/users/'' (fk_Key e)) es \<Longrightarrow> framed (below ''/users/'') rs (snd (applyMulti rs es))"
  by (rule framed_multi) (auto simp: below_def list_all_iff)

interpretation update_user_write: store_write "\<lambda>rs. snd (UpdateUser rs u)" "below ''/users/''"
  by unfold_locales (auto simp: UpdateUser_def Let_def userKey_def usernameIndexKey_def intro!: users_multi)

interpretation delete_user_write: store_write "\<lambda>rs. snd (DeleteUser rs i)" "below ''/users/''"
  by unfold_locales (auto simp: DeleteUser_def framed_refl userKey_def intro!: users_multi split: sum.split)

end
