(* ===== verification/Api.thy ===== *)
theory Api
  imports Login StoreFrame
begin

text \<open>
  The management API \<open>internal/handler/api.go\<close> with its request and reply types \<open>dto.go\<close>: channels,
  configuration, users, bindings, access tokens, role mappings, access lists, OIDC providers, the
  authentication switch, and the routes with their permissions.

  What the decoder made of a body is an argument of type \<open>decoded\<close>. A pointer field is an \<open>option\<close>, and so
  is a slice whose absence the handler tells from an empty one; elsewhere a nil slice is \<open>[]\<close>. The
  struct validator is a third-party package: its verdict on a value is a field of \<open>api_params\<close>. Reads of
  the random source are numbered: 0 and 1 for what a handler generates itself, from 10 on for the sealing
  of secrets.
\<close>

section \<open>Parameters\<close>

text \<open>The failed fields with their tags, or another error.\<close>

datatype invalid = ValidationErrors "(string \<times> string) list" | InvalidOther string

record user_input =
  ui_Username :: string
  ui_Password :: string
  ui_Roles :: "string list option"
  ui_Channels :: "string list option"

text \<open>The verdicts of \<open>domain.ValidateStruct\<close>, the formatted current time of a new token, and the text form of the
  end of the set-up period.\<close>

record api_params =
  ap_Channel :: "channel \<Rightarrow> invalid option"
  ap_NewUser :: "user_input \<Rightarrow> invalid option"
  ap_UserUpdate :: "user_input \<Rightarrow> invalid option"
  ap_Binding :: "user_binding \<Rightarrow> invalid option"
  ap_created :: string
  ap_fmt :: "time \<Rightarrow> json"
  ap_parse :: "json \<Rightarrow> time option"

definition validateStruct :: "invalid option \<Rightarrow> string" where
  "validateStruct v = (case v of
       None \<Rightarrow> []
     | Some (InvalidOther msg) \<Rightarrow> msg
     | Some (ValidationErrors ve) \<Rightarrow> Join (map (\<lambda>(field, tag). field @ '': '' @ tag) ve) ''; '')"

definition sealing :: "env \<Rightarrow> ns" where
  "sealing E = (\<lambda>i. en_rand E (10 + i))"

definition internal_error :: "error \<Rightarrow> http_response" where
  "internal_error e = writeError 500 (error_text e)"

text \<open>The reply to a channel that cannot be read.\<close>

definition channel_error :: "error \<Rightarrow> http_response" where
  "channel_error e = (if e = ErrNotFound then writeError 404 ''channel not found'' else internal_error e)"

section \<open>Replies\<close>

definition token_response :: "channel_access_token \<Rightarrow> json" where
  "token_response t = JObj [(''id'', JStr (ct_ID t)), (''name'', JStr (ct_Name t)), (''scope'', JStr (ct_Scope t)),
     (''created_at'', JStr (ct_CreatedAt t))]"

definition toChannelResponse :: "channel \<Rightarrow> json" where
  "toChannelResponse p0 = (let p = MigrateChannel p0 in JObj (
     jreq ''id'' (JStr (ch_ID p)) (
     jopt (ch_Description p \<noteq> []) ''description'' (JStr (ch_Description p)) (
     jopt (ch_CreatedBy p \<noteq> []) ''created_by'' (JStr (ch_CreatedBy p)) (
     jreq ''webhook_secret_configured'' (JBool (ch_WebhookSecret p \<noteq> [])) (
     jopt (ch_AllowedIPs p \<noteq> []) ''allowed_ips'' (JStrs (ch_AllowedIPs p)) (
     jopt (ch_MaxBodySize p \<noteq> 0) ''max_body_size'' (JNum (ch_MaxBodySize p)) (
     jopt (ch_MessageTTLSeconds p \<noteq> 0) ''message_ttl_seconds'' (JNum (ch_MessageTTLSeconds p)) (
     jopt (ch_EncryptionMode p \<noteq> []) ''encryption_mode'' (JStr (ch_EncryptionMode p)) (
     jopt (ch_EncryptionPublicKey p \<noteq> []) ''encryption_public_key'' (JStr (ch_EncryptionPublicKey p)) (
     jreq ''encryption_key_configured'' (JBool (ch_EncryptionKey p \<noteq> [])) (
     jopt (ch_AccessMode p \<noteq> []) ''access_mode'' (JStr (ch_AccessMode p)) (
     jopt (ch_AccessTokens p \<noteq> []) ''access_tokens'' (JArr (map token_response (ch_AccessTokens p))) []
     )))))))))))))"

definition server_response :: "server_config \<Rightarrow> json" where
  "server_response c = JObj (
     jreq ''max_body_size'' (JNum (sc_MaxBodySize c)) (
     jreq ''behind_reverse_proxy'' (JBool (sc_BehindReverseProxy c)) (
     jreq ''cors_origin'' (JStr (sc_CORSOrigin c)) (
     jreq ''footer'' (JStr (sc_Footer c)) (
     jopt (sc_TrustedProxyCIDRs c \<noteq> []) ''trusted_proxy_cidrs'' (JStrs (sc_TrustedProxyCIDRs c)) (
     jreq ''require_known_channels'' (JBool (sc_RequireKnownChannels c)) (
     jreq ''rate_limit_enabled'' (JBool (sc_RateLimitEnabled c)) (
     jreq ''rate_limit_requests'' (JNum (sc_RateLimitRequests c)) (
     jreq ''rate_limit_window_seconds'' (JNum (sc_RateLimitWindowSeconds c)) (
     jreq ''ban_enabled'' (JBool (sc_BanEnabled c)) (
     jreq ''ban_max_unique_failures'' (JNum (sc_BanMaxUniqueFailures c)) (
     jreq ''ban_window_seconds'' (JNum (sc_BanWindowSeconds c)) (
     jreq ''ban_duration_seconds'' (JNum (sc_BanDurationSeconds c)) (
     jreq ''login_throttle_attempts'' (JNum (sc_LoginThrottleAttempts c)) (
     jreq ''login_throttle_cooldown_seconds'' (JNum (sc_LoginThrottleCooldown c)) []
     )))))))))))))))"

definition defaults_response :: "defaults_config \<Rightarrow> json" where
  "defaults_response d = JObj (
     jreq ''webhook_secret_configured'' (JBool (dc_WebhookSecret d \<noteq> [])) (
     jopt (dc_AllowedIPs d \<noteq> []) ''allowed_ips'' (JStrs (dc_AllowedIPs d)) (
     jopt (dc_MessageTTLSeconds d \<noteq> 0) ''message_ttl_seconds'' (JNum (dc_MessageTTLSeconds d)) [])))"

definition toGlobalConfigResponse :: "global_config \<Rightarrow> json" where
  "toGlobalConfigResponse cfg = JObj [(''server'', server_response (gc_Server cfg)),
     (''defaults'', defaults_response (gc_Defaults cfg))]"

definition user_response :: "user \<Rightarrow> json" where
  "user_response u = JObj [(''id'', JStr (us_ID u)), (''username'', JStr (us_Username u)),
     (''roles'', JStrs (us_Roles u)), (''channels'', JStrs (us_Channels u))]"

definition binding_response :: "user_binding \<Rightarrow> json" where
  "binding_response b = JObj [(''user_id'', JStr (ub_UserID b)), (''roles'', JStrs (ub_Roles b)),
     (''channels'', JStrs (ub_Channels b))]"

definition account_response :: "user \<Rightarrow> json" where
  "account_response u = JObj [(''id'', JStr (us_ID u)), (''username'', JStr (us_Username u))]"

definition writeCSV :: "channel list \<Rightarrow> http_response" where
  "writeCSV channels = \<lparr>rp_Status = 200,
     rp_Header = [(''Content-Disposition'', ''attachment; filename=channels.csv''), (''Content-Type'', ''text/csv'')],
     rp_Cookie = None, rp_Body = PlainText (''id'' @ [CHR 0x0A] @ concat (map (\<lambda>ch. ch_ID ch @ [CHR 0x0A]) channels))\<rparr>"

section \<open>Channels\<close>

definition channelCtx :: middleware where
  "channelCtx next r s = next (r\<lparr>cx_ChannelID := Some (URLParam r ''id'')\<rparr>) s"

definition listChannels :: "env \<Rightarrow> web_handler" where
  "listChannels E r s =
     (let C = en_C E; rs = ws_store s; format = query_Get r ''format'';
          user = resolveRequestUser r s;
          allowedChannels = ok_or [] (UserChannels C rs user (cx_Groups r)) in
      case ListChannels C rs of
        Inl e \<Rightarrow> (internal_error e, s)
      | Inr channels \<Rightarrow>
          (let filtered = map MigrateChannel (filter (\<lambda>p. HasChannelAccess allowedChannels (ch_ID p)) channels) in
           if format = ''csv'' then (writeCSV filtered, s)
           else (writeJSON 200 (JArr (map toChannelResponse filtered)), s)))"

definition validEncryptionMode :: "string \<Rightarrow> bool" where
  "validEncryptionMode mode \<longleftrightarrow> mode = [] \<or> mode = ''server_side'' \<or> mode = ''e2e''"

definition quoted :: "string \<Rightarrow> string" where
  "quoted w = CHR 0x27 # w @ [CHR 0x27]"

definition mode_error :: http_response where
  "mode_error = writeError 400 (''encryption_mode must be '' @ quoted [] @ '', '' @ quoted ''server_side'' @ '', or '' @ quoted ''e2e'')"

definition validateChannelUpdate :: "env \<Rightarrow> api_params \<Rightarrow> channel \<Rightarrow> string" where
  "validateChannelUpdate E A ch =
     (let msg = validateStruct (ap_Channel A ch) in
      if msg \<noteq> [] then msg
      else if ch_MaxBodySize ch < 0 then ''max_body_size must be >= 0''
      else if ch_MessageTTLSeconds ch < 0 then ''message_ttl_seconds must be >= 0''
      else (case parseIPRanges (en_N E) (ch_AllowedIPs ch) of Inl e \<Rightarrow> error_text e | Inr _ \<Rightarrow> []))"

definition createChannel :: "env \<Rightarrow> api_params \<Rightarrow> channel decoded \<Rightarrow> web_handler" where
  "createChannel E A body r s = (case decodeJSON body of
       Inl p \<Rightarrow> (p, s)
     | Inr ch0 \<Rightarrow>
         (let C = en_C E; username = cx_Username r;
              ch = ch0\<lparr>ch_CreatedBy := username, ch_AccessTokens := [], ch_AccessMode := [],
                     ch_WebhookSignatures := [], ch_EncryptionEnabled := False\<rparr> in
          if \<not> validEncryptionMode (ch_EncryptionMode ch) then (mode_error, s)
          else if validateChannelUpdate E A ch \<noteq> [] then (writeError 400 (validateChannelUpdate E A ch), s)
          else (case after_write s (svc_CreateChannel C (sealing E) True (ws_store s) ch) of
              (Some e, s') \<Rightarrow> (if e = ErrAlreadyExists then writeError 409 (error_text e) else internal_error e, s')
            | (None, s') \<Rightarrow> (writeJSON 201 (toChannelResponse ch),
                s'\<lparr>ws_store := snd (CreateChannelRoleMapping (en_rand E 0) (ws_store s')
                   \<lparr>cm_ID = [], cm_ChannelID = ch_ID ch, cm_Type = ''user'', cm_Subject = username, cm_Role = ''owner''\<rparr>)\<rparr>))))"

definition getChannel :: "env \<Rightarrow> web_handler" where
  "getChannel E r s = (case GetChannel (en_C E) (ws_store s) (URLParam r ''id'') of
       Inl e \<Rightarrow> (channel_error e, s)
     | Inr p \<Rightarrow> (writeJSON 200 (toChannelResponse p), s))"

record channel_update =
  cu_Description :: "string option"
  cu_WebhookSecret :: "string option"
  cu_AllowedIPs :: "string list option"
  cu_MaxBodySize :: "int option"
  cu_MessageTTLSeconds :: "int option"
  cu_EncryptionMode :: "string option"
  cu_EncryptionKey :: "string option"
  cu_EncryptionPublicKey :: "string option"

text \<open>\<open>if req.F != nil { x.F = *req.F }\<close>\<close>

definition given :: "'a option \<Rightarrow> 'a \<Rightarrow> 'a" where
  "given new old = (case new of None \<Rightarrow> old | Some v \<Rightarrow> v)"

definition merge_channel :: "channel_update \<Rightarrow> channel \<Rightarrow> channel" where
  "merge_channel req ch = ch\<lparr>ch_Description := given (cu_Description req) (ch_Description ch),
     ch_WebhookSecret := given (cu_WebhookSecret req) (ch_WebhookSecret ch),
     ch_AllowedIPs := given (cu_AllowedIPs req) (ch_AllowedIPs ch),
     ch_MaxBodySize := given (cu_MaxBodySize req) (ch_MaxBodySize ch),
     ch_MessageTTLSeconds := given (cu_MessageTTLSeconds req) (ch_MessageTTLSeconds ch),
     ch_EncryptionMode := given (cu_EncryptionMode req) (ch_EncryptionMode ch),
     ch_EncryptionKey := given (cu_EncryptionKey req) (ch_EncryptionKey ch),
     ch_EncryptionPublicKey := given (cu_EncryptionPublicKey req) (ch_EncryptionPublicKey ch)\<rparr>"

definition updateChannel :: "env \<Rightarrow> api_params \<Rightarrow> channel_update decoded \<Rightarrow> web_handler" where
  "updateChannel E A body r s = (case decodeJSON body of
       Inl p \<Rightarrow> (p, s)
     | Inr req \<Rightarrow>
         (if (case cu_EncryptionMode req of None \<Rightarrow> False | Some m \<Rightarrow> \<not> validEncryptionMode m) then (mode_error, s)
          else (case GetChannel (en_C E) (ws_store s) (URLParam r ''id'') of
              Inl e \<Rightarrow> (channel_error e, s)
            | Inr old \<Rightarrow>
                (let ch = merge_channel req old; msg = validateChannelUpdate E A ch in
                 if msg \<noteq> [] then (writeError 400 msg, s)
                 else (case after_write s (svc_UpdateChannel (en_C E) (sealing E) True (ws_store s) ch) of
                     (Some e, s') \<Rightarrow> (internal_error e, s')
                   | (None, s') \<Rightarrow> (writeJSON 200 (toChannelResponse ch), s'))))))"

definition deleteChannel :: web_handler where
  "deleteChannel r s = (case DeleteChannel (ws_store s) (URLParam r ''id'') of
       (Some e, rs) \<Rightarrow> (internal_error e, s\<lparr>ws_store := rs\<rparr>)
     | (None, rs) \<Rightarrow> (WriteHeader 204, s\<lparr>ws_store := rs\<rparr>))"

definition generateSecret :: "env \<Rightarrow> web_handler" where
  "generateSecret E r s = (case GetChannel (en_C E) (ws_store s) (URLParam r ''id'') of
       Inl e \<Rightarrow> (channel_error e, s)
     | Inr ch \<Rightarrow>
       (case en_rand E 0 of
          None \<Rightarrow> (writeError 500 ''failed to generate secret'', s)
        | Some b \<Rightarrow>
            (let secret = hex_EncodeToString b in
             case after_write s (svc_UpdateChannel (en_C E) (sealing E) True (ws_store s) (ch\<lparr>ch_WebhookSecret := secret\<rparr>)) of
               (Some e, s') \<Rightarrow> (internal_error e, s')
             | (None, s') \<Rightarrow> (writeJSON 200 (JObj [(''webhook_secret'', JStr secret)]), s'))))"

section \<open>Global configuration\<close>

definition getGlobalConfig :: "env \<Rightarrow> web_handler" where
  "getGlobalConfig E r s = (case GetGlobalConfig (en_C E) (ws_store s) of
       Inl e \<Rightarrow> (internal_error e, s)
     | Inr cfg \<Rightarrow> (writeJSON 200 (toGlobalConfigResponse cfg), s))"

record server_update =
  su_MaxBodySize :: "int option"
  su_BehindReverseProxy :: "bool option"
  su_CORSOrigin :: "string option"
  su_Footer :: "string option"
  su_TrustedProxyCIDRs :: "string list option"
  su_RateLimitEnabled :: "bool option"
  su_RateLimitRequests :: "int option"
  su_RateLimitWindowSeconds :: "int option"
  su_BanEnabled :: "bool option"
  su_BanMaxUniqueFailures :: "int option"
  su_BanWindowSeconds :: "int option"
  su_BanDurationSeconds :: "int option"
  su_RequireKnownChannels :: "bool option"
  su_LoginThrottleAttempts :: "int option"
  su_LoginThrottleCooldown :: "int option"
  su_SessionSecret :: "string option"

record defaults_update =
  du_WebhookSecret :: "string option"
  du_AllowedIPs :: "string list option"
  du_MessageTTLSeconds :: "int option"

record config_update =
  gu_Server :: "server_update option"
  gu_Defaults :: "defaults_update option"

definition applyServerUpdate :: "server_config \<Rightarrow> server_update \<Rightarrow> server_config" where
  "applyServerUpdate sc req = sc\<lparr>
     sc_MaxBodySize := given (su_MaxBodySize req) (sc_MaxBodySize sc),
     sc_BehindReverseProxy := given (su_BehindReverseProxy req) (sc_BehindReverseProxy sc),
     sc_CORSOrigin := given (su_CORSOrigin req) (sc_CORSOrigin sc),
     sc_Footer := given (su_Footer req) (sc_Footer sc),
     sc_TrustedProxyCIDRs := given (su_TrustedProxyCIDRs req) (sc_TrustedProxyCIDRs sc),
     sc_RateLimitEnabled := given (su_RateLimitEnabled req) (sc_RateLimitEnabled sc),
     sc_RateLimitRequests := given (su_RateLimitRequests req) (sc_RateLimitRequests sc),
     sc_RateLimitWindowSeconds := given (su_RateLimitWindowSeconds req) (sc_RateLimitWindowSeconds sc),
     sc_BanEnabled := given (su_BanEnabled req) (sc_BanEnabled sc),
     sc_BanMaxUniqueFailures := given (su_BanMaxUniqueFailures req) (sc_BanMaxUniqueFailures sc),
     sc_BanWindowSeconds := given (su_BanWindowSeconds req) (sc_BanWindowSeconds sc),
     sc_BanDurationSeconds := given (su_BanDurationSeconds req) (sc_BanDurationSeconds sc),
     sc_RequireKnownChannels := given (su_RequireKnownChannels req) (sc_RequireKnownChannels sc),
     sc_LoginThrottleAttempts := given (su_LoginThrottleAttempts req) (sc_LoginThrottleAttempts sc),
     sc_LoginThrottleCooldown := given (su_LoginThrottleCooldown req) (sc_LoginThrottleCooldown sc)\<rparr>"

definition applyDefaultsUpdate :: "env \<Rightarrow> defaults_config \<Rightarrow> defaults_update \<Rightarrow> string + defaults_config" where
  "applyDefaultsUpdate E dc req =
     (case (case du_AllowedIPs req of None \<Rightarrow> None
            | Some ips \<Rightarrow> (case parseIPRanges (en_N E) ips of Inl e \<Rightarrow> Some (error_text e) | Inr _ \<Rightarrow> None)) of
        Some msg \<Rightarrow> Inl msg
      | None \<Rightarrow>
          (if (case du_MessageTTLSeconds req of None \<Rightarrow> False | Some n \<Rightarrow> n < 0) then Inl ''message_ttl_seconds must be >= 0''
           else Inr (dc\<lparr>dc_WebhookSecret := given (du_WebhookSecret req) (dc_WebhookSecret dc),
                  dc_AllowedIPs := given (du_AllowedIPs req) (dc_AllowedIPs dc),
                  dc_MessageTTLSeconds := given (du_MessageTTLSeconds req) (dc_MessageTTLSeconds dc)\<rparr>)))"

definition updateGlobalConfig :: "env \<Rightarrow> config_update decoded \<Rightarrow> web_handler" where
  "updateGlobalConfig E body r s = (case decodeJSON body of
       Inl p \<Rightarrow> (p, s)
     | Inr req \<Rightarrow>
         (if (case gu_Server req of None \<Rightarrow> False | Some su \<Rightarrow> given (su_SessionSecret su) [] \<noteq> [])
          then (writeError 400 ''session_secret cannot be changed via API'', s)
          else (case GetGlobalConfig (en_C E) (ws_store s) of
              Inl e \<Rightarrow> (internal_error e, s)
            | Inr cfg0 \<Rightarrow>
                (let sc = (case gu_Server req of None \<Rightarrow> gc_Server cfg0 | Some su \<Rightarrow> applyServerUpdate (gc_Server cfg0) su) in
                 case (case gu_Defaults req of None \<Rightarrow> Inr (gc_Defaults cfg0)
                       | Some du \<Rightarrow> applyDefaultsUpdate E (gc_Defaults cfg0) du) of
                   Inl msg \<Rightarrow> (writeError 400 msg, s)
                 | Inr dc \<Rightarrow>
                     (let cfg = \<lparr>gc_Server = sc, gc_Defaults = dc\<rparr> in
                      case after_write s (svc_UpdateGlobalConfig (en_C E) (sealing E) True (ws_store s) (Some cfg)) of
                        (Some e, s') \<Rightarrow> (internal_error e, s')
                      | (None, s') \<Rightarrow> (writeJSON 200 (toGlobalConfigResponse cfg), s'))))))"

section \<open>Users\<close>

definition listUsers :: web_handler where
  "listUsers r s = (case ListUsers (ws_store s) of
       Inl e \<Rightarrow> (internal_error e, s)
     | Inr users \<Rightarrow> (writeJSON 200 (JArr (map user_response users)), s))"

definition resolveActor :: "web_request \<Rightarrow> web_state \<Rightarrow> user option \<times> string list" where
  "resolveActor r s = (case resolveRequestUser r s of
       None \<Rightarrow> (None, [])
     | Some u \<Rightarrow> (Some u, cx_Groups r))"

definition forbidden :: http_response where
  "forbidden = writeError 403 ''forbidden: insufficient privileges''"

text \<open>\<open>bcrypt.GenerateFromPassword\<close> with the random source.\<close>

definition hash_password :: "env \<Rightarrow> string \<Rightarrow> string option" where
  "hash_password E password = (case en_rand E 0 of None \<Rightarrow> None | Some salt \<Rightarrow> bcrypt_Generate (en_C E) password salt)"

definition slice :: "'a list option \<Rightarrow> 'a list" where
  "slice xs = (case xs of None \<Rightarrow> [] | Some l \<Rightarrow> l)"

definition createUser :: "env \<Rightarrow> api_params \<Rightarrow> user_input decoded \<Rightarrow> web_handler" where
  "createUser E A body r s = (case decodeJSON body of
       Inl p \<Rightarrow> (p, s)
     | Inr input \<Rightarrow>
         (let msg = validateStruct (ap_NewUser A input); (actor, groups) = resolveActor r s in
          if msg \<noteq> [] then (writeError 400 msg, s)
          else if actor = None \<or> \<not> CanAssignRoles (ws_store s) actor groups (slice (ui_Roles input)) ''*'' then (forbidden, s)
          else if \<not> CanAssignChannels actor (slice (ui_Channels input)) then (forbidden, s)
          else (case hash_password E (ui_Password input) of
              None \<Rightarrow> (writeError 500 ''failed to hash password'', s)
            | Some hash \<Rightarrow>
                (let user = \<lparr>us_ID = ui_Username input, us_Username = ui_Username input, us_PasswordHash = hash,
                       us_OIDCSubjects = [], us_ExternalIdentities = [], us_Roles = slice (ui_Roles input),
                       us_Channels = slice (ui_Channels input)\<rparr> in
                 case CreateUser (ws_store s) user of
                   (Some e, rs) \<Rightarrow> (if e = ErrAlreadyExists then writeError 409 ''user already exists'' else internal_error e,
                                   s\<lparr>ws_store := rs\<rparr>)
                 | (None, rs) \<Rightarrow> (writeJSON 201 (account_response user), s\<lparr>ws_store := rs\<rparr>)))))"

definition getUser :: web_handler where
  "getUser r s = (case GetUser (ws_store s) (URLParam r ''id'') of
       Inl e \<Rightarrow> (if e = ErrNotFound then writeError 404 ''user not found'' else internal_error e, s)
     | Inr u \<Rightarrow> (writeJSON 200 (user_response u), s))"

definition hasAdminRole :: "string list \<Rightarrow> bool" where
  "hasAdminRole roles = list_ex (\<lambda>r. r = ''admin'') roles"

text \<open>\<open>BumpAuthEpoch\<close> with its error ignored.\<close>

definition bump :: "web_state \<Rightarrow> web_state" where
  "bump s = s\<lparr>ws_store := snd (BumpAuthEpoch (ws_store s))\<rparr>"

definition updateUser :: "env \<Rightarrow> api_params \<Rightarrow> user_input decoded \<Rightarrow> web_handler" where
  "updateUser E A body r s = (case decodeJSON body of
       Inl p \<Rightarrow> (p, s)
     | Inr input \<Rightarrow>
         (let rs = ws_store s; msg = validateStruct (ap_UserUpdate A input); (actor, groups) = resolveActor r s in
          if msg \<noteq> [] then (writeError 400 msg, s)
          else if actor = None then (writeError 401 ''Unauthorized'', s)
          else (case GetUser rs (URLParam r ''id'') of
              Inl _ \<Rightarrow> (writeError 404 ''user not found'', s)
            | Inr u \<Rightarrow>
                (if \<not> CanAssignRoles rs actor groups (us_Roles u) ''*'' then (forbidden, s)
                 else if ui_Roles input \<noteq> None \<and> \<not> CanAssignRoles rs actor groups (slice (ui_Roles input)) ''*'' then (forbidden, s)
                 else if ui_Roles input \<noteq> None \<and> hasAdminRole (us_Roles u) \<and> \<not> hasAdminRole (slice (ui_Roles input))
                 then (writeError 400 ''cannot remove admin role'', s)
                 else if ui_Channels input \<noteq> None \<and> \<not> CanAssignChannels actor (slice (ui_Channels input)) then (forbidden, s)
                 else (case (if ui_Password input = [] then Some (us_PasswordHash u) else hash_password E (ui_Password input)) of
                     None \<Rightarrow> (writeError 500 ''failed to hash password'', s)
                   | Some hash \<Rightarrow>
                       (let u' = u\<lparr>us_Username := (if ui_Username input \<noteq> [] then ui_Username input else us_Username u),
                              us_PasswordHash := hash, us_Roles := given (ui_Roles input) (us_Roles u),
                              us_Channels := given (ui_Channels input) (us_Channels u)\<rparr> in
                        case UpdateUser rs u' of
                          (Some e, rs') \<Rightarrow> (internal_error e, s\<lparr>ws_store := rs'\<rparr>)
                        | (None, rs') \<Rightarrow>
                            (let s' = s\<lparr>ws_store := rs'\<rparr> in (writeJSON 200 (account_response u'),
                               if ui_Password input \<noteq> [] \<or> ui_Roles input \<noteq> None then bump s' else s'))))))))"

text \<open>The checks of a deletion, and the deletion itself: two requests can interleave between them.\<close>

definition deleteUser_check :: "web_request \<Rightarrow> raft_store \<Rightarrow> http_response option" where
  "deleteUser_check r rs = (let i = URLParam r ''id'' in
     case GetUser rs i of
       Inl _ \<Rightarrow> Some (writeError 404 ''user not found'')
     | Inr u \<Rightarrow>
         (if \<not> hasAdminRole (us_Roles u) then None
          else (case ListUsers rs of
              Inl _ \<Rightarrow> Some (writeError 500 ''failed to list users'')
            | Inr users \<Rightarrow>
                (let adminCount = length (filter (\<lambda>usr. hasAdminRole (us_Roles usr) \<and> us_ID usr \<noteq> i) users) in
                 if adminCount = 0 then Some (writeError 400 ''cannot delete the last admin user'') else None))))"

definition deleteUser_commit :: web_handler where
  "deleteUser_commit r s = (case DeleteUser (ws_store s) (URLParam r ''id'') of
       (Some e, rs) \<Rightarrow> (internal_error e, s\<lparr>ws_store := rs\<rparr>)
     | (None, rs) \<Rightarrow> (WriteHeader 204, bump (s\<lparr>ws_store := rs\<rparr>)))"

definition deleteUser :: web_handler where
  "deleteUser r s = (case deleteUser_check r (ws_store s) of
       Some p \<Rightarrow> (p, s)
     | None \<Rightarrow> deleteUser_commit r s)"

section \<open>Roles and bindings\<close>

definition listRoles :: web_handler where
  "listRoles r s = (case ListRoles (ws_store s) of
       Inl e \<Rightarrow> (internal_error e, s)
     | Inr roles \<Rightarrow> (writeJSON 200 (JArr (map marshal_role roles)), s))"

definition api_listBindings :: web_handler where
  "api_listBindings r s = (case ListBindings (ws_store s) of
       Inl e \<Rightarrow> (internal_error e, s)
     | Inr bindings \<Rightarrow> (writeJSON 200 (JArr (map binding_response bindings)), s))"

definition updateBinding :: "api_params \<Rightarrow> user_binding decoded \<Rightarrow> web_handler" where
  "updateBinding A body r s = (case decodeJSON body of
       Inl p \<Rightarrow> (p, s)
     | Inr b0 \<Rightarrow>
         (let rs = ws_store s; userID = URLParam r ''userID''; b = b0\<lparr>ub_UserID := userID\<rparr>;
              msg = validateStruct (ap_Binding A b); (actor, groups) = resolveActor r s in
          if msg \<noteq> [] then (writeError 400 msg, s)
          else (case GetUser rs userID of
              Inl _ \<Rightarrow> (writeError 500 ''failed to get user'', s)
            | Inr u \<Rightarrow>
                (if actor = None \<or> \<not> CanAssignRoles rs actor groups (us_Roles u) ''*'' \<or>
                    \<not> CanAssignRoles rs actor groups (ub_Roles b) ''*'' then (forbidden, s)
                 else if \<not> CanAssignChannels actor (ub_Channels b) then (forbidden, s)
                 else if hasAdminRole (us_Roles u) \<and> \<not> hasAdminRole (ub_Roles b)
                 then (writeError 400 ''cannot remove admin role'', s)
                 else (case UpdateUserBinding rs b of
                     (Some e, rs') \<Rightarrow> (internal_error e, s\<lparr>ws_store := rs'\<rparr>)
                   | (None, rs') \<Rightarrow> (writeJSON 200 (binding_response b), bump (s\<lparr>ws_store := rs'\<rparr>)))))))"

definition getMe :: "env \<Rightarrow> web_handler" where
  "getMe E r s =
     (let C = en_C E; rs = ws_store s in
      if IsSetupMode rs then (writeJSON 200 (JObj [(''setup_mode'', JBool True)]), s)
      else (case resolveRequestUser r s of
          None \<Rightarrow> (writeError 401 ''Unauthorized'', s)
        | Some user \<Rightarrow>
            (let groups = cx_Groups r; permissions = GetUserPermissions rs (Some user) groups;
                 channels = ok_or [] (UserChannels C rs (Some user) groups);
                 providers = ok_or [] (OIDCProviders C rs) in
             (writeJSON 200 (JObj [
                (''username'', JStr (us_Username user)), (''roles'', JStrs (us_Roles user)),
                (''channels'', JStrs channels), (''permissions'', JStrs permissions),
                (''auth_methods'', JObj [
                   (''oidc_providers'', JArr (map (\<lambda>p. JObj [(''id'', JStr (op_ID p)), (''name'', JStr (op_Name p))]) providers)),
                   (''local_enabled'', JBool (IsInternalAuthEnabled rs))])]), s))))"

section \<open>Access tokens and modes\<close>

definition api_createAccessToken :: "env \<Rightarrow> api_params \<Rightarrow> (string \<times> string) decoded \<Rightarrow> web_handler" where
  "api_createAccessToken E A body r s = (case decodeJSON body of
       Inl p \<Rightarrow> (p, s)
     | Inr (name0, scope0) \<Rightarrow>
         (let name = (if name0 = [] then ''default'' else name0); scope = (if scope0 = [] then ''both'' else scope0) in
          if scope \<noteq> ''produce'' \<and> scope \<noteq> ''consume'' \<and> scope \<noteq> ''both''
          then (writeError 400 (''scope must be '' @ quoted ''produce'' @ '', '' @ quoted ''consume'' @ '', or '' @ quoted ''both''), s)
          else (case CreateAccessToken (en_C E) (sealing E) (en_rand E 0) (en_rand E 1) (ap_created A) (ws_store s)
                       (URLParam r ''id'') name scope of
              (Inl e, rs) \<Rightarrow> (internal_error e, s\<lparr>ws_store := rs\<rparr>)
            | (Inr (raw, t), rs) \<Rightarrow>
                (writeJSON 201 (JObj [(''token'', JStr raw), (''id'', JStr (ct_ID t)), (''name'', JStr (ct_Name t)),
                   (''scope'', JStr (ct_Scope t)), (''created_at'', JStr (ct_CreatedAt t))]), s\<lparr>ws_store := rs\<rparr>))))"

definition listAccessTokens :: "env \<Rightarrow> web_handler" where
  "listAccessTokens E r s = (case GetChannel (en_C E) (ws_store s) (URLParam r ''id'') of
       Inl e \<Rightarrow> (channel_error e, s)
     | Inr ch \<Rightarrow> (writeJSON 200 (JObj [(''access_mode'', JStr (ch_AccessMode ch)),
         (''tokens'', JArr (map token_response (ch_AccessTokens ch)))]), s))"

definition api_deleteAccessToken :: "env \<Rightarrow> web_handler" where
  "api_deleteAccessToken E r s =
     (case DeleteAccessToken (en_C E) (sealing E) (ws_store s) (URLParam r ''id'') (URLParam r ''tokenID'') of
        (Some e, rs) \<Rightarrow> (internal_error e, s\<lparr>ws_store := rs\<rparr>)
      | (None, rs) \<Rightarrow> (WriteHeader 204, s\<lparr>ws_store := rs\<rparr>))"

definition updateAccessMode :: "env \<Rightarrow> string decoded \<Rightarrow> web_handler" where
  "updateAccessMode E body r s = (case decodeJSON body of
       Inl p \<Rightarrow> (p, s)
     | Inr mode \<Rightarrow>
         (if mode \<noteq> ''public'' \<and> mode \<noteq> ''token''
          then (writeError 400 (''access_mode must be '' @ quoted ''public'' @ '' or '' @ quoted ''token''), s)
          else (case GetChannel (en_C E) (ws_store s) (URLParam r ''id'') of
              Inl e \<Rightarrow> (channel_error e, s)
            | Inr ch \<Rightarrow>
                (if mode = ''token'' \<and> length (ch_AccessTokens ch) = 0
                 then (writeError 400 ''cannot enable token access without tokens'', s)
                 else (case after_write s (svc_UpdateChannel (en_C E) (sealing E) True (ws_store s) (ch\<lparr>ch_AccessMode := mode\<rparr>)) of
                     (Some e, s') \<Rightarrow> (internal_error e, s')
                   | (None, s') \<Rightarrow> (writeJSON 200 (JObj [(''access_mode'', JStr mode)]), s'))))))"

section \<open>Mappings and access lists\<close>

definition listRoleMappings :: web_handler where
  "listRoleMappings r s = (case ListRoleMappings (ws_store s) of
       Inl e \<Rightarrow> (internal_error e, s)
     | Inr mappings \<Rightarrow> (writeJSON 200 (JArr (map marshal_role_mapping mappings)), s))"

definition type_error :: http_response where
  "type_error = writeError 400 (''type must be '' @ quoted ''user'' @ '' or '' @ quoted ''group'')"

text \<open>The repository stores the new identifier in the value it is given, unless an equal entry exists.\<close>

definition created_mapping :: "string option \<Rightarrow> raft_store \<Rightarrow> role_mapping \<Rightarrow> role_mapping" where
  "created_mapping rnd rs m = (if list_ex (\<lambda>e. same_mapping e m) (ok_or [] (ListRoleMappings rs)) then m
     else m\<lparr>rm_ID := ok_or (rm_ID m) (GenerateUUID rnd)\<rparr>)"

definition createRoleMapping :: "env \<Rightarrow> role_mapping decoded \<Rightarrow> web_handler" where
  "createRoleMapping E body r s = (case decodeJSON body of
       Inl p \<Rightarrow> (p, s)
     | Inr m0 \<Rightarrow>
         (if rm_Type m0 \<noteq> ''user'' \<and> rm_Type m0 \<noteq> ''group'' then (type_error, s)
          else if rm_Subject m0 = [] then (writeError 400 ''subject required'', s)
          else if rm_Role m0 = [] then (writeError 400 ''role required'', s)
          else (let rs = ws_store s; m = (if rm_ChannelScope m0 = [] then m0\<lparr>rm_ChannelScope := ''*''\<rparr> else m0);
                    (actor, groups) = resolveActor r s in
            if actor = None \<or> \<not> CanAssignRoles rs actor groups [rm_Role m] (rm_ChannelScope m) then (forbidden, s)
            else (case CreateRoleMapping (en_rand E 0) rs m of
                (Some e, rs') \<Rightarrow> (internal_error e, s\<lparr>ws_store := rs'\<rparr>)
              | (None, rs') \<Rightarrow> (writeJSON 201 (marshal_role_mapping (created_mapping (en_rand E 0) rs m)), s\<lparr>ws_store := rs'\<rparr>)))))"

definition deleteRoleMapping :: web_handler where
  "deleteRoleMapping r s = (case DeleteRoleMapping (ws_store s) (URLParam r ''id'') of
       (Some e, rs) \<Rightarrow> (internal_error e, s\<lparr>ws_store := rs\<rparr>)
     | (None, rs) \<Rightarrow> (WriteHeader 204, s\<lparr>ws_store := rs\<rparr>))"

definition listChannelACL :: web_handler where
  "listChannelACL r s = (case ListChannelRoleMappings (ws_store s) (URLParam r ''id'') of
       Inl e \<Rightarrow> (internal_error e, s)
     | Inr acls \<Rightarrow> (writeJSON 200 (if acls = [] then JNull else JArr (map marshal_channel_role_mapping acls)), s))"

definition created_acl :: "string option \<Rightarrow> raft_store \<Rightarrow> channel_role_mapping \<Rightarrow> channel_role_mapping" where
  "created_acl rnd rs m =
     (if list_ex (\<lambda>e. cm_Type e = cm_Type m \<and> cm_Subject e = cm_Subject m \<and> cm_Role e = cm_Role m)
           (ok_or [] (ListChannelRoleMappings rs (cm_ChannelID m))) then m
      else m\<lparr>cm_ID := ok_or (cm_ID m) (GenerateUUID rnd)\<rparr>)"

definition addChannelACLEntry :: "env \<Rightarrow> channel_role_mapping decoded \<Rightarrow> web_handler" where
  "addChannelACLEntry E body r s = (case decodeJSON body of
       Inl p \<Rightarrow> (p, s)
     | Inr m0 \<Rightarrow>
         (if cm_Type m0 \<noteq> ''user'' \<and> cm_Type m0 \<noteq> ''group'' then (type_error, s)
          else if cm_Subject m0 = [] then (writeError 400 ''subject required'', s)
          else if cm_Role m0 \<noteq> ''owner'' \<and> cm_Role m0 \<noteq> ''write'' \<and> cm_Role m0 \<noteq> ''read''
          then (writeError 400 (''role must be '' @ quoted ''owner'' @ '', '' @ quoted ''write'' @ '', or '' @ quoted ''read''), s)
          else (let m = m0\<lparr>cm_ChannelID := URLParam r ''id''\<rparr> in
            case CreateChannelRoleMapping (en_rand E 0) (ws_store s) m of
              (Some e, rs') \<Rightarrow> (internal_error e, s\<lparr>ws_store := rs'\<rparr>)
            | (None, rs') \<Rightarrow> (writeJSON 201 (marshal_channel_role_mapping (created_acl (en_rand E 0) (ws_store s) m)),
                s\<lparr>ws_store := rs'\<rparr>))))"

definition deleteChannelACLEntry :: web_handler where
  "deleteChannelACLEntry r s = (case DeleteChannelRoleMapping (ws_store s) (URLParam r ''id'') (URLParam r ''entryID'') of
       (Some e, rs) \<Rightarrow> (internal_error e, s\<lparr>ws_store := rs\<rparr>)
     | (None, rs) \<Rightarrow> (WriteHeader 204, s\<lparr>ws_store := rs\<rparr>))"

section \<open>Authentication settings\<close>

definition redact :: "oidc_provider \<Rightarrow> oidc_provider" where
  "redact p = (if op_ClientSecret p \<noteq> [] then p\<lparr>op_ClientSecret := ''<redacted>''\<rparr> else p)"

definition listOIDCProviders :: "env \<Rightarrow> web_handler" where
  "listOIDCProviders E r s = (case OIDCProviders (en_C E) (ws_store s) of
       Inl e \<Rightarrow> (internal_error e, s)
     | Inr providers \<Rightarrow> (writeJSON 200 (JArr (map (marshal_oidc_provider \<circ> redact) providers)), s))"

definition default_claim :: "oidc_provider \<Rightarrow> oidc_provider" where
  "default_claim p = (if op_GroupsClaim p = [] then p\<lparr>op_GroupsClaim := ''groups''\<rparr> else p)"

definition last_provider_error :: http_response where
  "last_provider_error = writeError 400
     ''cannot remove the last OIDC provider while internal auth is disabled: at least one auth provider is required''"

definition updateAllOIDCProviders :: "env \<Rightarrow> oidc_provider list decoded \<Rightarrow> web_handler" where
  "updateAllOIDCProviders E body r s = (case decodeJSON body of
       Inl p \<Rightarrow> (p, s)
     | Inr ps \<Rightarrow>
         (let providers = map default_claim ps in
          if \<not> IsInternalAuthEnabled (ws_store s) \<and> length providers = 0 then (last_provider_error, s)
          else (case SetOIDCProviders (en_C E) (sealing E) (ws_store s) providers of
              (Some e, rs) \<Rightarrow> (internal_error e, s\<lparr>ws_store := rs\<rparr>)
            | (None, rs) \<Rightarrow> (writeJSON 200 (JArr (map marshal_oidc_provider providers)), bump (s\<lparr>ws_store := rs\<rparr>)))))"

text \<open>The first provider with the identifier is replaced; \<open>None\<close> when there is none.\<close>

fun replace_provider :: "string \<Rightarrow> oidc_provider \<Rightarrow> oidc_provider list \<Rightarrow> oidc_provider list option" where
  "replace_provider i updated [] = None"
| "replace_provider i updated (p # ps) =
     (if op_ID p = i then Some (updated # ps) else map_option ((#) p) (replace_provider i updated ps))"

definition updateOIDCProvider :: "env \<Rightarrow> oidc_provider decoded \<Rightarrow> web_handler" where
  "updateOIDCProvider E body r s = (case decodeJSON body of
       Inl p \<Rightarrow> (p, s)
     | Inr updated0 \<Rightarrow>
       (case OIDCProviders (en_C E) (ws_store s) of
          Inl e \<Rightarrow> (internal_error e, s)
        | Inr ps \<Rightarrow>
            (let updated = default_claim updated0;
                 providers = (case replace_provider (URLParam r ''id'') updated ps of None \<Rightarrow> ps @ [updated] | Some qs \<Rightarrow> qs) in
             case SetOIDCProviders (en_C E) (sealing E) (ws_store s) providers of
               (Some e, rs) \<Rightarrow> (internal_error e, s\<lparr>ws_store := rs\<rparr>)
             | (None, rs) \<Rightarrow> (writeJSON 200 (marshal_oidc_provider updated), bump (s\<lparr>ws_store := rs\<rparr>)))))"

definition deleteOIDCProvider :: "env \<Rightarrow> web_handler" where
  "deleteOIDCProvider E r s = (case OIDCProviders (en_C E) (ws_store s) of
       Inl e \<Rightarrow> (internal_error e, s)
     | Inr providers \<Rightarrow>
         (let updated = filter (\<lambda>p. op_ID p \<noteq> URLParam r ''id'') providers in
          if \<not> IsInternalAuthEnabled (ws_store s) \<and> length updated = 0 then (last_provider_error, s)
          else (case SetOIDCProviders (en_C E) (sealing E) (ws_store s) updated of
              (Some e, rs) \<Rightarrow> (internal_error e, s\<lparr>ws_store := rs\<rparr>)
            | (None, rs) \<Rightarrow> (WriteHeader 204, bump (s\<lparr>ws_store := rs\<rparr>)))))"

definition getInternalAuth :: web_handler where
  "getInternalAuth r s = (writeJSON 200 (JObj [(''enabled'', JBool (IsInternalAuthEnabled (ws_store s)))]), s)"

definition setInternalAuth :: "env \<Rightarrow> bool decoded \<Rightarrow> web_handler" where
  "setInternalAuth E body r s = (case decodeJSON body of
       Inl p \<Rightarrow> (p, s)
     | Inr enabled \<Rightarrow>
       (case svc_SetInternalAuthEnabled (en_C E) (ws_store s) enabled of
          (Some e, rs) \<Rightarrow> (if e = ErrInvalidArgument then writeError 400 (error_text e) else internal_error e, s\<lparr>ws_store := rs\<rparr>)
        | (None, rs) \<Rightarrow> (writeJSON 200 (JObj [(''enabled'', JBool enabled)]), s\<lparr>ws_store := rs\<rparr>)))"

section \<open>Set-up mode\<close>

text \<open>The end of the set-up period, started when it is first asked for.\<close>

definition setup_end :: "env \<Rightarrow> api_params \<Rightarrow> web_state \<Rightarrow> time result \<times> web_state" where
  "setup_end E A s =
     (let t = GetSetupModeEndTime (ap_parse A) (ws_store s) in
      if \<not> time_IsZero t then (Inr t, s)
      else (let t = time_Add (en_now E) (seconds 300) in
        case SetSetupModeEndTime (ap_fmt A) (ws_store s) t of
          (Some e, rs) \<Rightarrow> (Inl e, s\<lparr>ws_store := rs\<rparr>)
        | (None, rs) \<Rightarrow> (Inr t, s\<lparr>ws_store := rs\<rparr>)))"

definition SetupModeMiddleware :: "env \<Rightarrow> api_params \<Rightarrow> middleware" where
  "SetupModeMiddleware E A next r s =
     (if IsSetupMode (ws_store s) then
        (case setup_end E A s of
           (Inl e, s') \<Rightarrow> (writeError 500 ''failed to set setup mode end time'', s')
         | (Inr t, s') \<Rightarrow> (if time_Before (en_now E) t then next r s' else (http_Error ''Setup mode expired'' 401, s')))
      else (http_Error ''Setup mode expired'' 401, s))"

definition AdaptiveAuthMiddleware :: "env \<Rightarrow> api_params \<Rightarrow> middleware" where
  "AdaptiveAuthMiddleware E A next r s =
     (if IsSetupMode (ws_store s) then
        (case setup_end E A s of
           (Inl e, s') \<Rightarrow> (writeError 500 ''failed to set setup mode end time'', s')
         | (Inr t, s') \<Rightarrow> next r s')
      else next r s)"

section \<open>Routes\<close>

datatype api_call =
    CreateChannelCall "channel decoded" | ListChannelsCall | GetChannelCall | UpdateChannelCall "channel_update decoded"
  | DeleteChannelCall | GenerateSecretCall | CreateTokenCall "(string \<times> string) decoded" | ListTokensCall | DeleteTokenCall
  | AccessModeCall "string decoded" | ListACLCall | AddACLCall "channel_role_mapping decoded" | DeleteACLCall
  | GetConfigCall | UpdateConfigCall "config_update decoded"
  | ListUsersCall | CreateUserCall "user_input decoded" | GetUserCall | UpdateUserCall "user_input decoded" | DeleteUserCall
  | ListRolesCall | ListBindingsCall | UpdateBindingCall "user_binding decoded"
  | ListMappingsCall | CreateMappingCall "role_mapping decoded" | DeleteMappingCall
  | ListProvidersCall | UpdateProvidersCall "oidc_provider list decoded" | UpdateProviderCall "oidc_provider decoded" | DeleteProviderCall
  | GetSwitchCall | SetSwitchCall "bool decoded" | GetMeCall

definition RegisterAPIHandlers :: "env \<Rightarrow> api_params \<Rightarrow> api_call \<Rightarrow> web_handler" where
  "RegisterAPIHandlers E A call = (case call of
       CreateChannelCall b \<Rightarrow> RequirePermission E PermChannelWrite (createChannel E A b)
     | ListChannelsCall \<Rightarrow> RequirePermission E PermChannelRead (listChannels E)
     | GetChannelCall \<Rightarrow> channelCtx (RequirePermission E PermChannelRead (getChannel E))
     | UpdateChannelCall b \<Rightarrow> channelCtx (RequirePermission E PermChannelWrite (updateChannel E A b))
     | DeleteChannelCall \<Rightarrow> channelCtx (RequirePermission E PermChannelWrite deleteChannel)
     | GenerateSecretCall \<Rightarrow> channelCtx (RequirePermission E PermChannelWrite (generateSecret E))
     | CreateTokenCall b \<Rightarrow> channelCtx (RequirePermission E PermChannelWrite (api_createAccessToken E A b))
     | ListTokensCall \<Rightarrow> channelCtx (RequirePermission E PermChannelRead (listAccessTokens E))
     | DeleteTokenCall \<Rightarrow> channelCtx (RequirePermission E PermChannelWrite (api_deleteAccessToken E))
     | AccessModeCall b \<Rightarrow> channelCtx (RequirePermission E PermChannelWrite (updateAccessMode E b))
     | ListACLCall \<Rightarrow> channelCtx (RequirePermission E PermChannelRead listChannelACL)
     | AddACLCall b \<Rightarrow> channelCtx (RequireChannelACLPermission E (addChannelACLEntry E b))
     | DeleteACLCall \<Rightarrow> channelCtx (RequireChannelACLPermission E deleteChannelACLEntry)
     | GetConfigCall \<Rightarrow> RequirePermission E PermGlobalRead (getGlobalConfig E)
     | UpdateConfigCall b \<Rightarrow> RequirePermission E PermGlobalWrite (updateGlobalConfig E b)
     | ListUsersCall \<Rightarrow> RequirePermission E PermUsersRead listUsers
     | CreateUserCall b \<Rightarrow> RequirePermission E PermUsersWrite (createUser E A b)
     | GetUserCall \<Rightarrow> RequirePermission E PermUsersRead getUser
     | UpdateUserCall b \<Rightarrow> RequirePermission E PermUsersWrite (updateUser E A b)
     | DeleteUserCall \<Rightarrow> RequirePermission E PermUsersWrite deleteUser
     | ListRolesCall \<Rightarrow> RequirePermission E PermRBACRead listRoles
     | ListBindingsCall \<Rightarrow> RequirePermission E PermRBACRead api_listBindings
     | UpdateBindingCall b \<Rightarrow> RequirePermission E PermRBACWrite (updateBinding A b)
     | ListMappingsCall \<Rightarrow> RequirePermission E PermRBACRead listRoleMappings
     | CreateMappingCall b \<Rightarrow> RequirePermission E PermRBACWrite (createRoleMapping E b)
     | DeleteMappingCall \<Rightarrow> RequirePermission E PermRBACWrite deleteRoleMapping
     | ListProvidersCall \<Rightarrow> RequirePermission E PermGlobalWrite (listOIDCProviders E)
     | UpdateProvidersCall b \<Rightarrow> RequirePermission E PermGlobalWrite (updateAllOIDCProviders E b)
     | UpdateProviderCall b \<Rightarrow> RequirePermission E PermGlobalWrite (updateOIDCProvider E b)
     | DeleteProviderCall \<Rightarrow> RequirePermission E PermGlobalWrite (deleteOIDCProvider E)
     | GetSwitchCall \<Rightarrow> RequirePermission E PermGlobalWrite getInternalAuth
     | SetSwitchCall b \<Rightarrow> RequirePermission E PermGlobalWrite (setInternalAuth E b)
     | GetMeCall \<Rightarrow> getMe E)"

end
