(* ===== verification/ApiAccess.thy ===== *)
theory ApiAccess
  imports Api
begin

text \<open>
  Who may change what through the management API: every handler writes only below the keys of its area, and
  nothing changes without one of the permissions of the route.
\<close>

section \<open>What the handlers touch\<close>

text \<open>The keys below which a call may write.\<close>

fun call_area :: "api_call \<Rightarrow> string set" where
  "call_area (CreateChannelCall _) = below ''/channels/''"
| "call_area (UpdateChannelCall _) = below ''/channels/''"
| "call_area DeleteChannelCall = below ''/channels/''"
| "call_area GenerateSecretCall = below ''/channels/''"
| "call_area (CreateTokenCall _) = below ''/channels/''"
| "call_area DeleteTokenCall = below ''/channels/''"
| "call_area (AccessModeCall _) = below ''/channels/''"
| "call_area (AddACLCall _) = below ''/channels/''"
| "call_area DeleteACLCall = below ''/channels/''"
| "call_area (UpdateConfigCall _) = below ''/global/''"
| "call_area (CreateUserCall _) = below ''/users/''"
| "call_area (UpdateUserCall _) = insert ''/meta/auth_epoch'' (below ''/users/'')"
| "call_area DeleteUserCall = insert ''/meta/auth_epoch'' (below ''/users/'')"
| "call_area (UpdateBindingCall _) = insert ''/meta/auth_epoch'' (below ''/users/'')"
| "call_area (CreateMappingCall _) = below ''/rbac/mappings/''"
| "call_area DeleteMappingCall = below ''/rbac/mappings/''"
| "call_area (UpdateProvidersCall _) = insert ''/meta/auth_epoch'' (below ''/global/'')"
| "call_area (UpdateProviderCall _) = insert ''/meta/auth_epoch'' (below ''/global/'')"
| "call_area DeleteProviderCall = insert ''/meta/auth_epoch'' (below ''/global/'')"
| "call_area (SetSwitchCall _) = below ''/global/''"
| "call_area _ = {}"

lemma after_write_store: "ws_store (snd (after_write s w)) = fst (snd w)"
  by (simp add: after_write_def case_prod_beta)

lemma svc_writes:
  "fst (snd (svc_CreateChannel C ns n rs p)) = snd (CreateChannel C ns rs p)"
  "fst (snd (svc_UpdateChannel C ns n rs p)) = snd (UpdateChannel C ns rs p)"
  "fst (snd (svc_UpdateGlobalConfig C ns n rs cfg)) = snd (UpdateGlobalConfig C ns rs cfg)"
  by (simp_all add: svc_CreateChannel_def svc_UpdateChannel_def svc_UpdateGlobalConfig_def case_prod_beta split: option.split)

lemma svc_switch_write: "reads_ok rs \<Longrightarrow> framed {''/global/auth/internal_enabled''} rs (snd (svc_SetInternalAuthEnabled C rs b))"
  by (simp add: svc_SetInternalAuthEnabled_def framed_refl switch_write.writes split: sum.split)

lemma token_write:
  "reads_ok rs \<Longrightarrow> framed (below ''/channels/'') rs (snd (CreateAccessToken C ns rt ru created rs i name scope))"
  "reads_ok rs \<Longrightarrow> framed (below ''/channels/'') rs (snd (DeleteAccessToken C ns rs i t))"
  by (simp_all add: CreateAccessToken_def DeleteAccessToken_def Let_def framed_refl case_prod_beta
      framed_mono [OF update_channel_write.writes] below_def channelKey_def split: sum.split option.split)

lemma area_keys:
  "{channelKey i} \<subseteq> below ''/channels/''" "below (aclPrefix i) \<subseteq> below ''/channels/''"
  "{''/global/server/'', ''/global/defaults/''} \<subseteq> below ''/global/''" "{''/global/auth/oidc_providers''} \<subseteq> below ''/global/''"
  "{''/global/auth/internal_enabled''} \<subseteq> below ''/global/''"
  by (auto simp: below_def channelKey_def aclPrefix_def prefix_def)

lemmas area_writes =
  framed_mono [OF create_channel_write.writes area_keys(1)] framed_mono [OF update_channel_write.writes area_keys(1)]
  framed_mono [OF delete_channel_write.writes area_keys(1)] framed_mono [OF acl_write.writes area_keys(2)]
  framed_mono [OF unacl_write.writes area_keys(2)] framed_mono [OF config_write.writes area_keys(3)]
  framed_mono [OF providers_write.writes area_keys(4)] framed_mono [OF svc_switch_write area_keys(5)]
  create_user_write.writes update_user_write.writes delete_user_write.writes mapping_write.writes unmap_write.writes token_write

text \<open>A write followed by a new session epoch.\<close>

lemma framed_bump:
  assumes "reads_ok rs" "framed ks rs rs'"
  shows "framed (insert ''/meta/auth_epoch'' ks) rs rs'" "framed (insert ''/meta/auth_epoch'' ks) rs (snd (BumpAuthEpoch rs'))"
proof -
  show 1: "framed (insert ''/meta/auth_epoch'' ks) rs rs'" using assms(2) framed_mono by blast
  have "framed {''/meta/auth_epoch''} rs' (snd (BumpAuthEpoch rs'))" using assms framed_reads bump_write.writes by blast
  then show "framed (insert ''/meta/auth_epoch'' ks) rs (snd (BumpAuthEpoch rs'))" using 1 framed_trans framed_mono by blast
qed

lemma bump_store [simp]: "ws_store (bump s) = snd (BumpAuthEpoch (ws_store s))"
  by (simp add: bump_def)

text \<open>A handler's outcome that changed the store only below \<open>ks\<close>, with rules that follow the branches of the handler.\<close>

definition keeps :: "string set \<Rightarrow> web_state \<Rightarrow> http_response \<times> web_state \<Rightarrow> bool" where
  "keeps ks s out \<longleftrightarrow> framed ks (ws_store s) (ws_store (snd out))"

lemma keeps_intros:
  "keeps ks s x \<Longrightarrow> keeps ks s y \<Longrightarrow> keeps ks s (if c then x else y)"
  "(\<And>a. keeps ks s (f a)) \<Longrightarrow> (\<And>b. keeps ks s (g b)) \<Longrightarrow> keeps ks s (case z of Inl a \<Rightarrow> f a | Inr b \<Rightarrow> g b)"
  "keeps ks s x \<Longrightarrow> (\<And>b. keeps ks s (g b)) \<Longrightarrow> keeps ks s (case v of None \<Rightarrow> x | Some b \<Rightarrow> g b)"
  by (simp_all split: sum.split option.split)

lemmas keeps_simps = keeps_def after_write_store svc_writes

abbreviation with_epoch :: "string \<Rightarrow> string set" where
  "with_epoch p \<equiv> insert ''/meta/auth_epoch'' (below p)"

lemma channel_handlers_framed:
  assumes "reads_ok (ws_store s)"
  shows "keeps (below ''/channels/'') s (createChannel E A b r s)"
    "keeps (below ''/channels/'') s (updateChannel E A b' r s)"
    "keeps (below ''/channels/'') s (deleteChannel r s)"
    "keeps (below ''/channels/'') s (generateSecret E r s)"
    "keeps (below ''/channels/'') s (api_createAccessToken E A tb r s)"
    "keeps (below ''/channels/'') s (api_deleteAccessToken E r s)"
    "keeps (below ''/channels/'') s (updateAccessMode E mb r s)"
    "keeps (below ''/channels/'') s (addChannelACLEntry E ab r s)"
    "keeps (below ''/channels/'') s (deleteChannelACLEntry r s)"
proof -
  note refl = framed_refl [OF assms, of "below ''/channels/''"] and w = area_writes [OF assms]
  have c: "framed (below ''/channels/'') (ws_store s) (snd (CreateChannelRoleMapping rnd (snd (CreateChannel C ns (ws_store s) p)) m))" for rnd C ns p m
    using w(1) [of C ns p] area_writes(4) [OF framed_reads [OF assms w(1)]] framed_trans by blast
  show "keeps (below ''/channels/'') s (createChannel E A b r s)"
    unfolding createChannel_def Let_def case_prod_beta by (intro keeps_intros) (simp_all add: keeps_simps refl w c)
  show "keeps (below ''/channels/'') s (updateChannel E A b' r s)"
    unfolding updateChannel_def Let_def case_prod_beta by (intro keeps_intros) (simp_all add: keeps_simps refl w)
  show "keeps (below ''/channels/'') s (deleteChannel r s)"
    unfolding deleteChannel_def Let_def case_prod_beta by (intro keeps_intros) (simp_all add: keeps_simps w)
  show "keeps (below ''/channels/'') s (generateSecret E r s)"
    unfolding generateSecret_def Let_def case_prod_beta by (intro keeps_intros) (simp_all add: keeps_simps refl w)
  show "keeps (below ''/channels/'') s (api_createAccessToken E A tb r s)"
    unfolding api_createAccessToken_def Let_def case_prod_beta by (intro keeps_intros) (simp_all add: keeps_simps refl w)
  show "keeps (below ''/channels/'') s (api_deleteAccessToken E r s)"
    unfolding api_deleteAccessToken_def Let_def case_prod_beta by (intro keeps_intros) (simp_all add: keeps_simps w)
  show "keeps (below ''/channels/'') s (updateAccessMode E mb r s)"
    unfolding updateAccessMode_def Let_def case_prod_beta by (intro keeps_intros) (simp_all add: keeps_simps refl w)
  show "keeps (below ''/channels/'') s (addChannelACLEntry E ab r s)"
    unfolding addChannelACLEntry_def Let_def case_prod_beta by (intro keeps_intros) (simp_all add: keeps_simps refl w)
  show "keeps (below ''/channels/'') s (deleteChannelACLEntry r s)"
    unfolding deleteChannelACLEntry_def Let_def case_prod_beta by (intro keeps_intros) (simp_all add: keeps_simps w)
qed

lemma user_handlers_framed:
  assumes "reads_ok (ws_store s)"
  shows "keeps (below ''/users/'') s (createUser E A b r s)"
    "keeps (with_epoch ''/users/'') s (updateUser E A b r s)"
    "keeps (with_epoch ''/users/'') s (deleteUser r s)"
    "keeps (with_epoch ''/users/'') s (updateBinding A bb r s)"
    "keeps (below ''/rbac/mappings/'') s (createRoleMapping E mb r s)"
    "keeps (below ''/rbac/mappings/'') s (deleteRoleMapping r s)"
proof -
  note refl = framed_refl [OF assms] and w = area_writes [OF assms]
  note e = framed_bump [OF assms area_writes(10) [OF assms]] framed_bump [OF assms area_writes(11) [OF assms]]
  show "keeps (below ''/users/'') s (createUser E A b r s)"
    unfolding createUser_def Let_def case_prod_beta by (intro keeps_intros) (simp_all add: keeps_simps refl w)
  show "keeps (with_epoch ''/users/'') s (updateUser E A b r s)"
    unfolding updateUser_def Let_def case_prod_beta by (intro keeps_intros) (simp_all add: keeps_simps refl e)
  show "keeps (with_epoch ''/users/'') s (deleteUser r s)"
    unfolding deleteUser_def deleteUser_commit_def Let_def case_prod_beta by (intro keeps_intros) (simp_all add: keeps_simps refl e)
  have "framed (below ''/users/'') (ws_store s) (snd (UpdateUserBinding (ws_store s) bd))" for bd
    using refl w by (simp add: UpdateUserBinding_def split: sum.split)
  note f = framed_bump [OF assms this]
  show "keeps (with_epoch ''/users/'') s (updateBinding A bb r s)"
    unfolding updateBinding_def Let_def case_prod_beta by (intro keeps_intros) (simp_all add: keeps_simps refl f)
  show "keeps (below ''/rbac/mappings/'') s (createRoleMapping E mb r s)"
    unfolding createRoleMapping_def Let_def case_prod_beta by (intro keeps_intros) (simp_all add: keeps_simps refl w)
  show "keeps (below ''/rbac/mappings/'') s (deleteRoleMapping r s)"
    unfolding deleteRoleMapping_def Let_def case_prod_beta by (intro keeps_intros) (simp_all add: keeps_simps w)
qed

lemma setting_handlers_framed:
  assumes "reads_ok (ws_store s)"
  shows "keeps (below ''/global/'') s (updateGlobalConfig E b r s)"
    "keeps (with_epoch ''/global/'') s (updateAllOIDCProviders E pb r s)"
    "keeps (with_epoch ''/global/'') s (updateOIDCProvider E qb r s)"
    "keeps (with_epoch ''/global/'') s (deleteOIDCProvider E r s)"
    "keeps (below ''/global/'') s (setInternalAuth E sb r s)"
proof -
  note refl = framed_refl [OF assms] and w = area_writes [OF assms]
  note e = framed_bump [OF assms area_writes(7) [OF assms]]
  show "keeps (below ''/global/'') s (updateGlobalConfig E b r s)"
    unfolding updateGlobalConfig_def Let_def case_prod_beta by (intro keeps_intros) (simp_all add: keeps_simps refl w)
  show "keeps (with_epoch ''/global/'') s (updateAllOIDCProviders E pb r s)"
    unfolding updateAllOIDCProviders_def Let_def case_prod_beta by (intro keeps_intros) (simp_all add: keeps_simps refl e)
  show "keeps (with_epoch ''/global/'') s (updateOIDCProvider E qb r s)"
    unfolding updateOIDCProvider_def Let_def case_prod_beta by (intro keeps_intros) (simp_all add: keeps_simps refl e)
  show "keeps (with_epoch ''/global/'') s (deleteOIDCProvider E r s)"
    unfolding deleteOIDCProvider_def Let_def case_prod_beta by (intro keeps_intros) (simp_all add: keeps_simps refl e)
  show "keeps (below ''/global/'') s (setInternalAuth E sb r s)"
    unfolding setInternalAuth_def Let_def case_prod_beta by (intro keeps_intros) (simp_all add: keeps_simps refl w)
qed

lemma reading_handlers:
  "snd (listChannels E r s) = s" "snd (getChannel E r s) = s" "snd (listAccessTokens E r s) = s" "snd (listChannelACL r s) = s"
  "snd (getGlobalConfig E r s) = s" "snd (listUsers r s) = s" "snd (getUser r s) = s" "snd (listRoles r s) = s"
  "snd (api_listBindings r s) = s" "snd (listRoleMappings r s) = s" "snd (listOIDCProviders E r s) = s" "snd (getInternalAuth r s) = s"
  "snd (getMe E r s) = s"
  by (simp_all add: listChannels_def getChannel_def listAccessTokens_def listChannelACL_def getGlobalConfig_def listUsers_def
      getUser_def listRoles_def api_listBindings_def listRoleMappings_def listOIDCProviders_def getInternalAuth_def getMe_def
      Let_def split: sum.split option.split)

text \<open>The handler behind the guards of a route, the permissions one of which is asked for, and the request as the guards
  see it.\<close>

fun call_handler :: "env \<Rightarrow> api_params \<Rightarrow> api_call \<Rightarrow> web_handler" where
  "call_handler E A (CreateChannelCall b) = createChannel E A b"
| "call_handler E A ListChannelsCall = listChannels E"
| "call_handler E A GetChannelCall = getChannel E"
| "call_handler E A (UpdateChannelCall b) = updateChannel E A b"
| "call_handler E A DeleteChannelCall = deleteChannel"
| "call_handler E A GenerateSecretCall = generateSecret E"
| "call_handler E A (CreateTokenCall b) = api_createAccessToken E A b"
| "call_handler E A ListTokensCall = listAccessTokens E"
| "call_handler E A DeleteTokenCall = api_deleteAccessToken E"
| "call_handler E A (AccessModeCall b) = updateAccessMode E b"
| "call_handler E A ListACLCall = listChannelACL"
| "call_handler E A (AddACLCall b) = addChannelACLEntry E b"
| "call_handler E A DeleteACLCall = deleteChannelACLEntry"
| "call_handler E A GetConfigCall = getGlobalConfig E"
| "call_handler E A (UpdateConfigCall b) = updateGlobalConfig E b"
| "call_handler E A ListUsersCall = listUsers"
| "call_handler E A (CreateUserCall b) = createUser E A b"
| "call_handler E A GetUserCall = getUser"
| "call_handler E A (UpdateUserCall b) = updateUser E A b"
| "call_handler E A DeleteUserCall = deleteUser"
| "call_handler E A ListRolesCall = listRoles"
| "call_handler E A ListBindingsCall = api_listBindings"
| "call_handler E A (UpdateBindingCall b) = updateBinding A b"
| "call_handler E A ListMappingsCall = listRoleMappings"
| "call_handler E A (CreateMappingCall b) = createRoleMapping E b"
| "call_handler E A DeleteMappingCall = deleteRoleMapping"
| "call_handler E A ListProvidersCall = listOIDCProviders E"
| "call_handler E A (UpdateProvidersCall b) = updateAllOIDCProviders E b"
| "call_handler E A (UpdateProviderCall b) = updateOIDCProvider E b"
| "call_handler E A DeleteProviderCall = deleteOIDCProvider E"
| "call_handler E A GetSwitchCall = getInternalAuth"
| "call_handler E A (SetSwitchCall b) = setInternalAuth E b"
| "call_handler E A GetMeCall = getMe E"

fun on_channel :: "api_call \<Rightarrow> bool" where
  "on_channel GetChannelCall = True"
| "on_channel (UpdateChannelCall _) = True"
| "on_channel DeleteChannelCall = True"
| "on_channel GenerateSecretCall = True"
| "on_channel (CreateTokenCall _) = True"
| "on_channel ListTokensCall = True"
| "on_channel DeleteTokenCall = True"
| "on_channel (AccessModeCall _) = True"
| "on_channel ListACLCall = True"
| "on_channel (AddACLCall _) = True"
| "on_channel DeleteACLCall = True"
| "on_channel _ = False"

definition call_request :: "api_call \<Rightarrow> web_request \<Rightarrow> web_request" where
  "call_request c r = (if on_channel c then r\<lparr>cx_ChannelID := Some (URLParam r ''id'')\<rparr> else r)"

text \<open>The permissions of which a caller needs one.\<close>

fun call_perms :: "api_call \<Rightarrow> permission list" where
  "call_perms (CreateChannelCall _) = [PermChannelWrite]"
| "call_perms ListChannelsCall = [PermChannelRead]"
| "call_perms GetChannelCall = [PermChannelRead]"
| "call_perms (UpdateChannelCall _) = [PermChannelWrite]"
| "call_perms DeleteChannelCall = [PermChannelWrite]"
| "call_perms GenerateSecretCall = [PermChannelWrite]"
| "call_perms (CreateTokenCall _) = [PermChannelWrite]"
| "call_perms ListTokensCall = [PermChannelRead]"
| "call_perms DeleteTokenCall = [PermChannelWrite]"
| "call_perms (AccessModeCall _) = [PermChannelWrite]"
| "call_perms ListACLCall = [PermChannelRead]"
| "call_perms (AddACLCall _) = [PermChannelWrite, PermRBACWrite, PermAll]"
| "call_perms DeleteACLCall = [PermChannelWrite, PermRBACWrite, PermAll]"
| "call_perms GetConfigCall = [PermGlobalRead]"
| "call_perms (UpdateConfigCall _) = [PermGlobalWrite]"
| "call_perms ListUsersCall = [PermUsersRead]"
| "call_perms (CreateUserCall _) = [PermUsersWrite]"
| "call_perms GetUserCall = [PermUsersRead]"
| "call_perms (UpdateUserCall _) = [PermUsersWrite]"
| "call_perms DeleteUserCall = [PermUsersWrite]"
| "call_perms ListRolesCall = [PermRBACRead]"
| "call_perms ListBindingsCall = [PermRBACRead]"
| "call_perms (UpdateBindingCall _) = [PermRBACWrite]"
| "call_perms ListMappingsCall = [PermRBACRead]"
| "call_perms (CreateMappingCall _) = [PermRBACWrite]"
| "call_perms DeleteMappingCall = [PermRBACWrite]"
| "call_perms GetMeCall = []"
| "call_perms _ = [PermGlobalWrite]"

definition authorized :: "env \<Rightarrow> api_call \<Rightarrow> web_request \<Rightarrow> web_state \<Rightarrow> bool" where
  "authorized E call r s \<longleftrightarrow> (\<exists>u perm. resolveRequestUser r s = Some u \<and> perm \<in> set (call_perms call) \<and>
     UserHasPermission (en_C E) (ws_store s) (Some u) (cx_Groups r) perm (or_empty (cx_ChannelID (call_request call r))))"

lemma require_perm:
  "perm_pass E perm r s \<Longrightarrow> RequirePermission E perm next r s = next r s"
  "\<not> perm_pass E perm r s \<Longrightarrow> snd (RequirePermission E perm next r s) = s \<and> 400 \<le> rp_Status (fst (RequirePermission E perm next r s))"
  by (auto simp: perm_pass_def RequirePermission_def split: option.splits)

lemma require_acl:
  "perm_pass E PermChannelWrite r s \<or> perm_pass E PermRBACWrite r s \<or> perm_pass E PermAll r s \<Longrightarrow>
     RequireChannelACLPermission E next r s = next r s"
  "\<not> (perm_pass E PermChannelWrite r s \<or> perm_pass E PermRBACWrite r s \<or> perm_pass E PermAll r s) \<Longrightarrow>
     snd (RequireChannelACLPermission E next r s) = s \<and> 400 \<le> rp_Status (fst (RequireChannelACLPermission E next r s))"
  by (auto simp: perm_pass_def RequireChannelACLPermission_def Let_def split: option.splits)

lemma call_request_fields [simp]:
  "resolveRequestUser (call_request c r) s = resolveRequestUser r s" "cx_Groups (call_request c r) = cx_Groups r"
  "resolveActor (call_request c r) s = resolveActor r s" "cx_Username (call_request c r) = cx_Username r"
  "URLParam (call_request c r) n = URLParam r n"
  by (simp_all add: call_request_def resolveRequestUser_def resolveActor_def URLParam_def split: option.split)

lemma authorized_iff: "authorized E call r s \<longleftrightarrow> (\<exists>perm \<in> set (call_perms call). perm_pass E perm (call_request call r) s)"
  by (auto simp: authorized_def perm_pass_def)

lemma api_authorized: "authorized E call r s \<Longrightarrow> RegisterAPIHandlers E A call r s = call_handler E A call (call_request call r) s"
  unfolding authorized_iff
  by (cases call) (simp_all add: RegisterAPIHandlers_def require_perm require_acl call_request_def channelCtx_def)

lemma api_refused:
  "\<not> authorized E call r s \<Longrightarrow> call \<noteq> GetMeCall \<Longrightarrow>
     snd (RegisterAPIHandlers E A call r s) = s \<and> 400 \<le> rp_Status (fst (RegisterAPIHandlers E A call r s))"
  unfolding authorized_iff
  by (cases call) (simp_all add: RegisterAPIHandlers_def require_perm require_acl call_request_def channelCtx_def)

lemma call_handler_keeps: "reads_ok (ws_store s) \<Longrightarrow> keeps (call_area call) s (call_handler E A call r s)"
  by (cases call)
    (simp_all add: channel_handlers_framed user_handlers_framed setting_handlers_framed, simp_all add: keeps_def reading_handlers framed_refl)

lemma api_cases:
  assumes "RegisterAPIHandlers E A call r s = (p, s')"
  obtains "authorized E call r s" "call_handler E A call (call_request call r) s = (p, s')" | "s' = s"
proof (cases "authorized E call r s")
  case True
  then show ?thesis using api_authorized [OF True, of A] assms that(1) by simp
next
  case False
  have "s' = s"
  proof (cases "call = GetMeCall")
    case True
    then show ?thesis using assms reading_handlers(13) [of E r s] by (simp add: RegisterAPIHandlers_def)
  next
    case c: False
    then show ?thesis using api_refused [OF False c, of A] assms by simp
  qed
  then show ?thesis by (rule that(2))
qed

end
