(* ===== verification/ApiUsers.thy ===== *)
theory ApiUsers
  imports ApiAccess
begin

text \<open>
  Accounts and privileges under the management API: the last administrator is kept, privileges are only
  passed on, and what two deletions at the same time can do.
\<close>

section \<open>Accounts\<close>

text \<open>An identifier the list of users can show: it stands for one path segment.\<close>

definition listable :: "string \<Rightarrow> bool" where
  "listable i \<longleftrightarrow> i \<noteq> [] \<and> i \<noteq> ''by-username'' \<and> CHR ''/'' \<notin> set i"

text \<open>Every record is stored under its own identifier.\<close>

definition own_ids :: "raft_store \<Rightarrow> bool" where
  "own_ids rs \<longleftrightarrow> (\<forall>i u. CHR ''/'' \<notin> set i \<longrightarrow> GetUser rs i = Inr u \<longrightarrow> us_ID u = i)"

definition has_admin :: "raft_store \<Rightarrow> bool" where
  "has_admin rs \<longleftrightarrow> (\<exists>i u. listable i \<and> GetUser rs i = Inr u \<and> hasAdminRole (us_Roles u))"

definition accounts_ok :: "raft_store \<Rightarrow> bool" where
  "accounts_ok rs \<longleftrightarrow> reads_ok rs \<and> own_ids rs \<and> has_admin rs"

lemma GetUser_reads:
  "reads_ok rs \<Longrightarrow> GetUser rs i = (case kv_get (bucket rs) (userKey i) of
       None \<Rightarrow> Inl ErrNotFound | Some d \<Rightarrow> of_option json_error (unmarshal_user d))"
  by (simp add: GetUser_def reads_get)

lemma index_is_no_user: "CHR ''/'' \<notin> set i \<Longrightarrow> userKey i \<noteq> ''/users/by-username/'' @ n @ ''/''"
proof
  assume i: "CHR ''/'' \<notin> set i" and "userKey i = ''/users/by-username/'' @ n @ ''/''"
  then have "i = ''by-username/'' @ n" by (simp add: userKey_def)
  then show False using i by simp
qed

lemma reads_wf: "reads_ok rs \<Longrightarrow> kv_wf (bucket rs)"
  by (erule reads_okE) simp

text \<open>What the three writes do to the records a reader can address.\<close>

lemma CreateUser_users:
  assumes "reads_ok rs" "us_ID u \<noteq> []" "CHR ''/'' \<notin> set i"
  shows "GetUser (snd (CreateUser rs u)) i = GetUser rs i \<or>
     i = us_ID u \<and> GetUser rs i = Inl ErrNotFound \<and> GetUser (snd (CreateUser rs u)) i = Inr u"
proof -
  let ?rs = "with_bucket rs (kv_put (usernameIndexKey (us_Username u) @ ''/'') (usernameIndexValue (us_ID u))
         (kv_put (userKey (us_ID u)) (marshal_user u) (bucket rs)))"
  have "snd (CreateUser rs u) = rs \<or> kv_get (bucket rs) (userKey (us_ID u)) = None \<and> snd (CreateUser rs u) = ?rs"
    using create_user_step [OF assms(1), of "userKey (us_ID u)" u] assms(2) by (simp add: CreateUser_def case_prod_beta Let_def) blast
  moreover have "reads_ok ?rs" using assms(1) by (simp add: reads_with kvm.wf_put reads_wf)
  then have "GetUser ?rs i = (if i = us_ID u then Inr u else GetUser rs i)"
    using assms(1) index_is_no_user [OF assms(3), of "us_Username u"]
    by (simp add: GetUser_reads kvm.get_put usernameIndexKey_def user_roundtrip)
  moreover have "kv_get (bucket rs) (userKey (us_ID u)) = None \<Longrightarrow> GetUser rs (us_ID u) = Inl ErrNotFound"
    using assms(1) by (simp add: GetUser_reads)
  ultimately show ?thesis by (cases "i = us_ID u") auto
qed

lemma UpdateUser_users:
  assumes "reads_ok rs" "CHR ''/'' \<notin> set i"
  shows "GetUser (snd (UpdateUser rs u)) i = GetUser rs i \<or> i = us_ID u \<and> GetUser (snd (UpdateUser rs u)) i = Inr u"
proof -
  let ?put = "\<lambda>m. kv_put (usernameIndexKey (us_Username u) @ ''/'') (usernameIndexValue (us_ID u)) (kv_put (userKey (us_ID u)) (marshal_user u) m)"
  obtain old where "snd (UpdateUser rs u) = rs \<or> snd (UpdateUser rs u) = with_bucket rs (?put (bucket rs)) \<or>
      snd (UpdateUser rs u) = with_bucket rs (kv_del (''/users/by-username/'' @ old @ ''/'') (?put (bucket rs)))"
    using multi_step [OF assms(1)] unfolding UpdateUser_def Let_def by fastforce
  moreover have "reads_ok (with_bucket rs (?put (bucket rs)))" "reads_ok (with_bucket rs (kv_del k (?put (bucket rs))))" for k
    using assms(1) by (simp_all add: reads_with kvm.wf_put kvm.wf_del reads_wf)
  then have "GetUser (with_bucket rs (?put (bucket rs))) i = (if i = us_ID u then Inr u else GetUser rs i)"
    "GetUser (with_bucket rs (kv_del (''/users/by-username/'' @ n @ ''/'') (?put (bucket rs)))) i = (if i = us_ID u then Inr u else GetUser rs i)" for n
    using assms(1) index_is_no_user [OF assms(2)]
    by (simp_all add: GetUser_reads kvm.get_put kvm.get_del usernameIndexKey_def user_roundtrip)
  ultimately show ?thesis by (cases "i = us_ID u") auto
qed

lemma DeleteUser_users:
  assumes "reads_ok rs" "CHR ''/'' \<notin> set i"
  shows "GetUser (snd (DeleteUser rs j)) i = GetUser rs i \<or> i = j \<and> GetUser (snd (DeleteUser rs j)) i = Inl ErrNotFound"
proof -
  obtain old where "snd (DeleteUser rs j) = rs \<or>
      snd (DeleteUser rs j) = with_bucket rs (kv_del (''/users/by-username/'' @ old @ ''/'') (kv_del (userKey j) (bucket rs)))"
    using multi_step [OF assms(1)] unfolding DeleteUser_def by (cases "GetUser rs j") fastforce+
  moreover have "reads_ok (with_bucket rs (kv_del k (kv_del l (bucket rs))))" for k l
    using assms(1) by (simp add: reads_with kvm.wf_del reads_wf)
  then have "GetUser (with_bucket rs (kv_del (''/users/by-username/'' @ n @ ''/'') (kv_del (userKey j) (bucket rs)))) i =
      (if i = j then Inl ErrNotFound else GetUser rs i)" for n
    using assms(1) index_is_no_user [OF assms(2)] by (simp add: GetUser_reads kvm.get_del)
  ultimately show ?thesis by (cases "i = j") auto
qed

text \<open>A path parameter of the router is one segment.\<close>

definition one_segment :: "web_request \<Rightarrow> bool" where
  "one_segment r \<longleftrightarrow> (\<forall>n. CHR ''/'' \<notin> set (URLParam r n))"

text \<open>What may become of an account: it is kept, it is written with roles and channels that it had or that
  the actor may assign and without losing the administrator role, or it is removed while another
  administrator is left.\<close>

inductive account_step :: "raft_store \<Rightarrow> user option \<Rightarrow> string list \<Rightarrow> string \<Rightarrow> user result \<Rightarrow> bool"
  for rs :: raft_store and actor :: "user option" and groups :: "string list" and i :: string where
  kept: "account_step rs actor groups i (GetUser rs i)"
| written: "us_ID u' = i \<Longrightarrow>
    (\<exists>u. GetUser rs i = Inr u \<and> us_Roles u = us_Roles u') \<or> CanAssignRoles rs actor groups (us_Roles u') ''*'' \<Longrightarrow>
    (\<exists>u. GetUser rs i = Inr u \<and> us_Channels u = us_Channels u') \<or> CanAssignChannels actor (us_Channels u') \<Longrightarrow>
    (\<And>u. GetUser rs i = Inr u \<Longrightarrow> hasAdminRole (us_Roles u) \<Longrightarrow> hasAdminRole (us_Roles u')) \<Longrightarrow>
    account_step rs actor groups i (Inr u')"
| removed: "(\<And>u. GetUser rs i = Inr u \<Longrightarrow> hasAdminRole (us_Roles u) \<Longrightarrow>
      \<exists>j v. listable j \<and> j \<noteq> i \<and> GetUser rs j = Inr v \<and> hasAdminRole (us_Roles v)) \<Longrightarrow>
    account_step rs actor groups i (Inl ErrNotFound)"

inductive_cases account_stepE: "account_step rs actor groups i out"

text \<open>A call changes one account at most.\<close>

definition accounts_step :: "raft_store \<Rightarrow> user option \<Rightarrow> string list \<Rightarrow> raft_store \<Rightarrow> bool" where
  "accounts_step rs actor groups rs' \<longleftrightarrow> (\<exists>i0. (\<forall>i. CHR ''/'' \<notin> set i \<longrightarrow> i \<noteq> i0 \<longrightarrow> GetUser rs' i = GetUser rs i) \<and>
     (CHR ''/'' \<notin> set i0 \<longrightarrow> account_step rs actor groups i0 (GetUser rs' i0)))"

lemma accounts_step_same: "(\<And>i. CHR ''/'' \<notin> set i \<Longrightarrow> GetUser rs' i = GetUser rs i) \<Longrightarrow> accounts_step rs actor groups rs'"
  unfolding accounts_step_def by (rule exI [of _ "''/''"]) simp

lemma accounts_step_refl: "accounts_step rs actor groups rs"
  by (rule accounts_step_same) simp

lemma accounts_step_then:
  "accounts_step rs actor groups rs1 \<Longrightarrow> (\<And>i. GetUser rs2 i = GetUser rs1 i) \<Longrightarrow> accounts_step rs actor groups rs2"
  by (simp add: accounts_step_def)

lemma accounts_step_ok:
  assumes "accounts_ok rs" "accounts_step rs actor groups rs'" "reads_ok rs'"
  shows "accounts_ok rs'"
proof -
  obtain i0 where o: "\<And>i. CHR ''/'' \<notin> set i \<Longrightarrow> i \<noteq> i0 \<Longrightarrow> GetUser rs' i = GetUser rs i"
    and c: "CHR ''/'' \<notin> set i0 \<Longrightarrow> account_step rs actor groups i0 (GetUser rs' i0)"
    using assms(2) by (auto simp: accounts_step_def)
  obtain a u where a: "listable a" "GetUser rs a = Inr u" "hasAdminRole (us_Roles u)"
    using assms(1) by (auto simp: accounts_ok_def has_admin_def)
  have own: "us_ID v = i" if "CHR ''/'' \<notin> set i" "GetUser rs i = Inr v" for i v
    using assms(1) that by (auto simp: accounts_ok_def own_ids_def)
  have "us_ID v = i" if v: "CHR ''/'' \<notin> set i" "GetUser rs' i = Inr v" for i v
  proof (cases "i = i0")
    case True
    then show ?thesis using c v own by (auto elim!: account_stepE)
  next
    case False
    then show ?thesis using o [OF v(1) False] own [OF v(1)] v(2) by simp
  qed
  moreover have "has_admin rs'"
  proof (cases "a = i0")
    case True
    then have "account_step rs actor groups i0 (GetUser rs' i0)" using c a(1) by (simp add: listable_def)
    then show ?thesis
    proof (cases rule: account_step.cases)
      case kept
      then show ?thesis unfolding has_admin_def using a True by metis
    next
      case (written u')
      have "hasAdminRole (us_Roles u')" by (rule written(5)) (use a True in auto)
      then show ?thesis unfolding has_admin_def using a(1) written(1) True by blast
    next
      case removed
      then obtain j v where "listable j" "j \<noteq> i0" "GetUser rs j = Inr v" "hasAdminRole (us_Roles v)" using a True by blast
      then show ?thesis unfolding has_admin_def using o [of j] by (metis listable_def)
    qed
  next
    case False
    then show ?thesis unfolding has_admin_def using a o [of a] by (metis listable_def)
  qed
  ultimately show ?thesis using assms(3) by (simp add: accounts_ok_def own_ids_def)
qed

definition accounts_out :: "user option \<Rightarrow> string list \<Rightarrow> web_state \<Rightarrow> http_response \<times> web_state \<Rightarrow> bool" where
  "accounts_out actor groups s out \<longleftrightarrow> accounts_step (ws_store s) actor groups (ws_store (snd out))"

lemma accounts_out_same: "accounts_out actor groups s (p, s)"
  by (simp add: accounts_out_def accounts_step_refl)

lemma bump_users: "reads_ok rs \<Longrightarrow> GetUser (snd (BumpAuthEpoch rs)) i = GetUser rs i"
  by (rule bump_write.keeps_user) (auto simp: userKey_def)

lemma createUser_accounts:
  assumes "reads_ok (ws_store s)"
  shows "accounts_out (fst (resolveActor r s)) (snd (resolveActor r s)) s (createUser E A b r s)"
proof -
  have step: "accounts_step (ws_store s) actor groups (snd (CreateUser (ws_store s) u))"
    if "CanAssignRoles (ws_store s) actor groups (us_Roles u) ''*''" "CanAssignChannels actor (us_Channels u)" "us_ID u = us_Username u"
    for u :: user and actor groups
  proof (cases "us_ID u = []")
    case True
    then show ?thesis using that(3) by (simp add: CreateUser_def accounts_step_refl)
  next
    case False
    note c = CreateUser_users [OF assms False]
    show ?thesis
      unfolding accounts_step_def
    proof (intro exI [of _ "us_ID u"] conjI allI impI)
      show "GetUser (snd (CreateUser (ws_store s) u)) i = GetUser (ws_store s) i" if "CHR ''/'' \<notin> set i" "i \<noteq> us_ID u" for i
        using c [OF that(1)] that(2) by blast
      assume "CHR ''/'' \<notin> set (us_ID u)"
      with c [of "us_ID u"] consider "GetUser (snd (CreateUser (ws_store s) u)) (us_ID u) = GetUser (ws_store s) (us_ID u)" |
        "GetUser (ws_store s) (us_ID u) = Inl ErrNotFound" "GetUser (snd (CreateUser (ws_store s) u)) (us_ID u) = Inr u" by blast
      then show "account_step (ws_store s) actor groups (us_ID u) (GetUser (snd (CreateUser (ws_store s) u)) (us_ID u))"
        by cases (use that in \<open>auto intro: account_step.kept account_step.written\<close>)
    qed
  qed
  show ?thesis
    unfolding createUser_def Let_def case_prod_beta
    by (auto simp: accounts_out_same accounts_out_def accounts_step_refl split: sum.split option.split intro!: step)
qed

lemma update_accounts:
  assumes "reads_ok rs" "us_ID u' = i" "GetUser rs i = Inr u"
    and "us_Roles u' = us_Roles u \<or> CanAssignRoles rs actor groups (us_Roles u') ''*''"
    and "us_Channels u' = us_Channels u \<or> CanAssignChannels actor (us_Channels u')"
    and "hasAdminRole (us_Roles u) \<Longrightarrow> hasAdminRole (us_Roles u')"
  shows "accounts_step rs actor groups (snd (UpdateUser rs u'))"
  unfolding accounts_step_def
proof (intro exI [of _ i] conjI allI impI)
  note c = UpdateUser_users [OF assms(1), of _ u']
  show "GetUser (snd (UpdateUser rs u')) j = GetUser rs j" if "CHR ''/'' \<notin> set j" "j \<noteq> i" for j
    using c [OF that(1)] that(2) assms(2) by blast
  assume "CHR ''/'' \<notin> set i"
  with c [of i] assms(2) consider "GetUser (snd (UpdateUser rs u')) i = GetUser rs i" | "GetUser (snd (UpdateUser rs u')) i = Inr u'" by blast
  then show "account_step rs actor groups i (GetUser (snd (UpdateUser rs u')) i)"
  proof cases
    case 1
    then show ?thesis using account_step.kept [of rs actor groups i] by simp
  next
    case 2
    have "account_step rs actor groups i (Inr u')" by (rule account_step.written) (use assms in auto)
    then show ?thesis using 2 by simp
  qed
qed

lemma accounts_out_intros:
  "(c \<Longrightarrow> accounts_out a g s x) \<Longrightarrow> (\<not> c \<Longrightarrow> accounts_out a g s y) \<Longrightarrow> accounts_out a g s (if c then x else y)"
  "(\<And>e. z = Inl e \<Longrightarrow> accounts_out a g s (f e)) \<Longrightarrow> (\<And>b. z = Inr b \<Longrightarrow> accounts_out a g s (h b)) \<Longrightarrow>
     accounts_out a g s (case z of Inl e \<Rightarrow> f e | Inr b \<Rightarrow> h b)"
  "(v = None \<Longrightarrow> accounts_out a g s x) \<Longrightarrow> (\<And>b. v = Some b \<Longrightarrow> accounts_out a g s (k b)) \<Longrightarrow>
     accounts_out a g s (case v of None \<Rightarrow> x | Some b \<Rightarrow> k b)"
  by (simp_all split: sum.split option.split)

text \<open>An update leads on to the next state with or without a new session epoch.\<close>

lemma accounts_out_update:
  assumes "reads_ok (ws_store s)" "accounts_step (ws_store s) a g rs'" "reads_ok rs'"
  shows "accounts_out a g s (p, s\<lparr>ws_store := rs'\<rparr>)" "accounts_out a g s (p, bump (s\<lparr>ws_store := rs'\<rparr>))"
    "accounts_out a g s (p, if c then bump (s\<lparr>ws_store := rs'\<rparr>) else s\<lparr>ws_store := rs'\<rparr>)"
  using assms accounts_step_then [OF assms(2) bump_users [OF assms(3)]] by (simp_all add: accounts_out_def)

lemma updateUser_accounts:
  assumes "accounts_ok (ws_store s)" "one_segment r"
  shows "accounts_out (fst (resolveActor r s)) (snd (resolveActor r s)) s (updateUser E A b r s)"
proof -
  have r: "reads_ok (ws_store s)" using assms(1) by (simp add: accounts_ok_def)
  have i: "us_ID u = URLParam r ''id''" if "GetUser (ws_store s) (URLParam r ''id'') = Inr u" for u
    using that assms by (auto simp: accounts_ok_def own_ids_def one_segment_def)
  have step: "accounts_step (ws_store s) a g (snd (UpdateUser (ws_store s) (u\<lparr>us_Username := n, us_PasswordHash := h,
      us_Roles := given ro (us_Roles u), us_Channels := given co (us_Channels u)\<rparr>)))"
    if "GetUser (ws_store s) (URLParam r ''id'') = Inr u" "\<not> (ro \<noteq> None \<and> \<not> CanAssignRoles (ws_store s) a g (slice ro) ''*'')"
      "\<not> (ro \<noteq> None \<and> hasAdminRole (us_Roles u) \<and> \<not> hasAdminRole (slice ro))" "\<not> (co \<noteq> None \<and> \<not> CanAssignChannels a (slice co))"
    for a g u n h ro co
    by (rule update_accounts [OF r _ that(1)]) (use i [OF that(1)] that(2-4) in \<open>cases ro; cases co; simp add: given_def slice_def\<close>)+
  show ?thesis
    unfolding updateUser_def Let_def case_prod_beta
    by (intro accounts_out_intros accounts_out_same accounts_out_update r update_user_write.readable step)
qed

lemma updateBinding_accounts:
  assumes "accounts_ok (ws_store s)" "one_segment r"
  shows "accounts_out (fst (resolveActor r s)) (snd (resolveActor r s)) s (updateBinding A b r s)"
proof -
  have r: "reads_ok (ws_store s)" using assms(1) by (simp add: accounts_ok_def)
  have i: "us_ID u = URLParam r ''userID''" if "GetUser (ws_store s) (URLParam r ''userID'') = Inr u" for u
    using that assms by (auto simp: accounts_ok_def own_ids_def one_segment_def)
  have step: "accounts_step (ws_store s) a g (snd (UpdateUserBinding (ws_store s) (x\<lparr>ub_UserID := URLParam r ''userID''\<rparr>)))"
    if "GetUser (ws_store s) (URLParam r ''userID'') = Inr u" "CanAssignRoles (ws_store s) a g (ub_Roles x) ''*''"
      "CanAssignChannels a (ub_Channels x)" "hasAdminRole (us_Roles u) \<longrightarrow> hasAdminRole (ub_Roles x)" for a g u x
    using update_accounts [OF r _ that(1), of "u\<lparr>us_Roles := ub_Roles x, us_Channels := ub_Channels x\<rparr>" a g] i [OF that(1)] that
    by (simp add: UpdateUserBinding_def)
  have "reads_ok (snd (UpdateUserBinding (ws_store s) x))" for x
    using r update_user_write.readable by (simp add: UpdateUserBinding_def split: sum.split)
  note u = accounts_out_update [OF r step this]
  show ?thesis
    unfolding updateBinding_def Let_def case_prod_beta by (intro accounts_out_intros accounts_out_same u) simp_all
qed

lemma deleteUser_accounts:
  assumes "accounts_ok (ws_store s)" "one_segment r"
  shows "accounts_out actor groups s (deleteUser r s)"
proof -
  let ?i = "URLParam r ''id''" and ?rs = "ws_store s"
  have r: "reads_ok ?rs" using assms(1) by (simp add: accounts_ok_def)
  have o: "\<exists>j v. listable j \<and> j \<noteq> ?i \<and> GetUser ?rs j = Inr v \<and> hasAdminRole (us_Roles v)"
    if chk: "deleteUser_check r ?rs = None" "GetUser ?rs ?i = Inr u" "hasAdminRole (us_Roles u)" for u
  proof -
    obtain us where us: "ListUsers ?rs = Inr us" "filter (\<lambda>usr. hasAdminRole (us_Roles usr) \<and> us_ID usr \<noteq> ?i) us \<noteq> []"
      using chk by (cases "ListUsers ?rs") (simp_all add: deleteUser_check_def Let_def split: if_split_asm)
    then obtain v where v: "v \<in> set us" "hasAdminRole (us_Roles v)" "us_ID v \<noteq> ?i" by (auto simp: filter_empty_conv)
    then obtain j where "listable j" "GetUser ?rs j = Inr v" using ListUsers_set [OF r us(1)] by (auto simp: listable_def)
    moreover from this have "us_ID v = j" using assms(1) by (auto simp: accounts_ok_def own_ids_def listable_def)
    ultimately show ?thesis using v by blast
  qed
  have "accounts_step ?rs actor groups (snd (DeleteUser ?rs ?i))" if "deleteUser_check r ?rs = None"
    unfolding accounts_step_def
  proof (intro exI [of _ ?i] conjI allI impI)
    show "GetUser (snd (DeleteUser ?rs ?i)) j = GetUser ?rs j" if "CHR ''/'' \<notin> set j" "j \<noteq> ?i" for j
      using DeleteUser_users [OF r that(1), of ?i] that(2) by blast
    assume "CHR ''/'' \<notin> set ?i"
    from DeleteUser_users [OF r this, of ?i] show "account_step ?rs actor groups ?i (GetUser (snd (DeleteUser ?rs ?i)) ?i)"
      using account_step.kept [of ?rs actor groups ?i] account_step.removed [of ?rs ?i] o [OF that] by auto
  qed
  then show ?thesis
    unfolding deleteUser_def deleteUser_commit_def case_prod_beta
    by (intro accounts_out_intros accounts_out_same accounts_out_update r delete_user_write.readable) simp_all
qed

lemma framed_users: "reads_ok rs \<Longrightarrow> framed ks rs rs' \<Longrightarrow> userKey i \<notin> ks \<Longrightarrow> GetUser rs' i = GetUser rs i"
  by (simp add: GetUser_reads framed_reads framed_get)

fun user_call :: "api_call \<Rightarrow> bool" where
  "user_call (CreateUserCall _) = True"
| "user_call (UpdateUserCall _) = True"
| "user_call DeleteUserCall = True"
| "user_call (UpdateBindingCall _) = True"
| "user_call _ = False"

lemma area_no_user: "\<not> user_call call \<Longrightarrow> userKey i \<notin> call_area call"
  by (cases call) (simp_all add: below_def userKey_def)

lemma call_accounts:
  assumes "accounts_ok (ws_store s)" "one_segment r" "RegisterAPIHandlers E A call r s = (p, s')"
  shows "accounts_step (ws_store s) (fst (resolveActor r s)) (snd (resolveActor r s)) (ws_store s')"
  using assms(3)
proof (cases rule: api_cases)
  case 1
  have r: "reads_ok (ws_store s)" using assms(1) by (simp add: accounts_ok_def)
  have o: "one_segment (call_request call r)" using assms(2) by (simp add: one_segment_def)
  show ?thesis
  proof (cases "user_call call")
    case True
    then have "accounts_out (fst (resolveActor r s)) (snd (resolveActor r s)) s (call_handler E A call (call_request call r) s)"
      using createUser_accounts [OF r, of "call_request call r" E A] updateUser_accounts [OF assms(1) o, of E A]
        updateBinding_accounts [OF assms(1) o, of A] deleteUser_accounts [OF assms(1) o]
      by (cases call) simp_all
    then show ?thesis using 1(2) by (simp add: accounts_out_def)
  next
    case False
    have "framed (call_area call) (ws_store s) (ws_store s')"
      using call_handler_keeps [OF r, of call E A "call_request call r"] 1(2) by (simp add: keeps_def)
    then show ?thesis using framed_users [OF r] area_no_user [OF False] by (intro accounts_step_same) blast
  qed
next
  case 2
  then show ?thesis by (simp add: accounts_step_refl)
qed

lemma call_readable: "reads_ok (ws_store s) \<Longrightarrow> RegisterAPIHandlers E A call r s = (p, s') \<Longrightarrow> reads_ok (ws_store s')"
  by (erule api_cases) (use call_handler_keeps [of s call E A "call_request call r"] framed_reads in \<open>auto simp: keeps_def\<close>)

text \<open>A sequence of calls.\<close>

fun api_run :: "(env \<times> api_params \<times> api_call \<times> web_request) list \<Rightarrow> web_state \<Rightarrow> web_state" where
  "api_run [] s = s"
| "api_run ((E, A, call, r) # calls) s = api_run calls (snd (RegisterAPIHandlers E A call r s))"

lemma api_run_ok:
  assumes "accounts_ok (ws_store s)" "\<forall>(E, A, call, r) \<in> set calls. one_segment r"
  shows "accounts_ok (ws_store (api_run calls s))"
  using assms
proof (induction calls s rule: api_run.induct)
  case (2 E A call r calls s)
  obtain p s' where h: "RegisterAPIHandlers E A call r s = (p, s')" by fastforce
  have "reads_ok (ws_store s)" using "2.prems"(1) by (simp add: accounts_ok_def)
  then have "accounts_ok (ws_store s')"
    using accounts_step_ok [OF "2.prems"(1) call_accounts [OF "2.prems"(1) _ h] call_readable [OF _ h]] "2.prems"(2) by simp
  then show ?case using 2 h by simp
qed simp

section \<open>Delegation\<close>

definition mappings :: "raft_store \<Rightarrow> role_mapping set" where
  "mappings rs = {m. \<exists>k d. prefix ''/rbac/mappings/'' k \<and> segment ''/rbac/mappings/'' k \<noteq> [] \<and>
     kv_get (bucket rs) k = Some d \<and> unmarshal_role_mapping d = Some m}"

lemma mappings_mono:
  "(\<And>k d. prefix ''/rbac/mappings/'' k \<Longrightarrow> kv_get (bucket rs') k = Some d \<Longrightarrow> kv_get (bucket rs) k = Some d) \<Longrightarrow> mappings rs' \<subseteq> mappings rs"
  unfolding mappings_def by blast

lemma CreateRoleMapping_mappings:
  assumes "reads_ok rs" "m' \<in> mappings (snd (CreateRoleMapping rnd rs m))"
  shows "m' \<in> mappings rs \<or> (\<exists>i. m' = m\<lparr>rm_ID := i\<rparr>)"
proof -
  have "snd (CreateRoleMapping rnd rs m) = rs \<or> (\<exists>i. snd (CreateRoleMapping rnd rs m) =
      with_bucket rs (kv_put (mappingKey i) (marshal_role_mapping (m\<lparr>rm_ID := i\<rparr>)) (bucket rs)))"
    using set_step [OF assms(1), of "''set''"] by (auto simp: CreateRoleMapping_def split: sum.split)
  then consider "snd (CreateRoleMapping rnd rs m) = rs" |
    i where "snd (CreateRoleMapping rnd rs m) = with_bucket rs (kv_put (mappingKey i) (marshal_role_mapping (m\<lparr>rm_ID := i\<rparr>)) (bucket rs))"
    by blast
  then show ?thesis
  proof cases
    case 1
    then show ?thesis using assms(2) by simp
  next
    case 2
    then show ?thesis using assms(2) by (auto simp: mappings_def kvm.get_put role_mapping_roundtrip split: if_splits)
  qed
qed

lemma DeleteRoleMapping_mappings: "reads_ok rs \<Longrightarrow> mappings (snd (DeleteRoleMapping rs i)) \<subseteq> mappings rs"
  using delete_step [of rs "mappingKey i" JBad] unfolding DeleteRoleMapping_def
  by (intro mappings_mono) (auto simp: kvm.get_del split: if_splits)

text \<open>Roles whose permissions somebody holds.\<close>

definition roles_held :: "raft_store \<Rightarrow> user \<Rightarrow> string list \<Rightarrow> string list \<Rightarrow> bool" where
  "roles_held rs a groups roles \<longleftrightarrow> (\<forall>name \<in> set roles. \<exists>role. GetRole rs name = Inr role \<and>
     (''*'' \<in> set (EffectivePermissions rs (Some a) groups) \<or>
      set (ro_Permissions role) \<subseteq> set (EffectivePermissions rs (Some a) groups)))"

lemma canAssignRole_held:
  assumes "canAssignRole rs (Some a) groups name"
  shows "\<exists>role. GetRole rs name = Inr role \<and> (''*'' \<in> set (EffectivePermissions rs (Some a) groups) \<or>
     set (ro_Permissions role) \<subseteq> set (EffectivePermissions rs (Some a) groups))"
proof (cases "GetRole rs name")
  case (Inr role)
  have "p \<in> set (EffectivePermissions rs (Some a) groups) \<or> ''*'' \<in> set (EffectivePermissions rs (Some a) groups)"
    if "p \<in> set (ro_Permissions role)" for p
    using assms that by (simp add: canAssignRole_def Inr Let_def list_all_iff) metis
  then show ?thesis using Inr by blast
qed (use assms in \<open>simp add: canAssignRole_def\<close>)

lemma CanAssignRoles_held:
  "CanAssignRoles rs actor groups roles scope \<Longrightarrow> \<exists>a. actor = Some a \<and> roles_held rs a groups roles"
  using canAssignRole_held
  by (fastforce simp: CanAssignRoles_def roles_held_def list_all_iff split: option.split_asm if_split_asm)

text \<open>A scope somebody may hand on: a single channel only when it is among his own; \<open>*\<close> is not compared with them.\<close>

definition scope_held :: "user \<Rightarrow> string \<Rightarrow> bool" where
  "scope_held a scope \<longleftrightarrow> scope = ''*'' \<or> ''*'' \<in> set (us_Channels a) \<or> scope \<in> set (us_Channels a)"

lemma CanAssignRoles_scope: "CanAssignRoles rs (Some a) groups roles scope \<Longrightarrow> scope \<noteq> [] \<Longrightarrow> scope_held a scope"
  by (auto simp: CanAssignRoles_def scope_held_def hasChannelAccessList_def list_ex_iff split: if_split_asm)

lemma createRoleMapping_cases:
  "ws_store (snd (createRoleMapping E b r s)) = ws_store s \<or>
     (\<exists>m. CanAssignRoles (ws_store s) (fst (resolveActor r s)) (snd (resolveActor r s)) [rm_Role m] (rm_ChannelScope m) \<and> rm_ChannelScope m \<noteq> [] \<and>
        ws_store (snd (createRoleMapping E b r s)) = snd (CreateRoleMapping (en_rand E 0) (ws_store s) m))"
proof (cases b)
  case (Decoded m0)
  define m where "m = (if rm_ChannelScope m0 = [] then m0\<lparr>rm_ChannelScope := ''*''\<rparr> else m0)"
  show ?thesis
  proof (cases "CanAssignRoles (ws_store s) (fst (resolveActor r s)) (snd (resolveActor r s)) [rm_Role m] (rm_ChannelScope m)")
    case True
    have "ws_store (snd (createRoleMapping E b r s)) \<in> {ws_store s, snd (CreateRoleMapping (en_rand E 0) (ws_store s) m)}"
      unfolding createRoleMapping_def Decoded decodeJSON_simps sum.case Let_def case_prod_beta unfolding m_def [symmetric] by (simp split: option.split)
    moreover have "rm_ChannelScope m \<noteq> []" by (simp add: m_def)
    ultimately show ?thesis using True by blast
  next
    case False
    then show ?thesis unfolding createRoleMapping_def Decoded decodeJSON_simps sum.case Let_def case_prod_beta unfolding m_def [symmetric] by simp
  qed
qed (simp_all add: createRoleMapping_def)

lemma call_mappings:
  assumes "reads_ok (ws_store s)" "RegisterAPIHandlers E A call r s = (p, s')" "m \<in> mappings (ws_store s')"
  shows "m \<in> mappings (ws_store s) \<or> (\<exists>a. fst (resolveActor r s) = Some a \<and> roles_held (ws_store s) a (snd (resolveActor r s)) [rm_Role m] \<and>
     scope_held a (rm_ChannelScope m))"
  using assms(2)
proof (cases rule: api_cases)
  case 1
  consider b where "call = CreateMappingCall b" | "call = DeleteMappingCall" | "call_area call \<inter> below ''/rbac/mappings/'' = {}"
    by (cases call) (auto simp: below_def prefix_def)
  then show ?thesis
  proof cases
    case c: 1
    then have "ws_store s' = ws_store s \<or> (\<exists>m. CanAssignRoles (ws_store s) (fst (resolveActor r s)) (snd (resolveActor r s)) [rm_Role m] (rm_ChannelScope m) \<and>
        rm_ChannelScope m \<noteq> [] \<and> ws_store s' = snd (CreateRoleMapping (en_rand E 0) (ws_store s) m))"
      using createRoleMapping_cases [of E b "call_request call r" s] 1(2) by simp
    then consider "ws_store s' = ws_store s" |
      m0 where "CanAssignRoles (ws_store s) (fst (resolveActor r s)) (snd (resolveActor r s)) [rm_Role m0] (rm_ChannelScope m0)"
        "rm_ChannelScope m0 \<noteq> []" "ws_store s' = snd (CreateRoleMapping (en_rand E 0) (ws_store s) m0)" by blast
    then show ?thesis
    proof cases
      case 1
      then show ?thesis using assms(3) by simp
    next
      case (2 m0)
      obtain a where a: "fst (resolveActor r s) = Some a" "roles_held (ws_store s) a (snd (resolveActor r s)) [rm_Role m0]"
        using CanAssignRoles_held [OF 2(1)] by blast
      have "scope_held a (rm_ChannelScope m0)" using CanAssignRoles_scope 2(1,2) a(1) by simp
      then show ?thesis using CreateRoleMapping_mappings [OF assms(1)] assms(3) 2(3) a by fastforce
    qed
  next
    case 2
    then have "ws_store s' = snd (DeleteRoleMapping (ws_store s) (URLParam r ''id''))"
      using 1(2) by (simp add: deleteRoleMapping_def case_prod_beta split: option.split_asm) auto
    then show ?thesis using assms(3) DeleteRoleMapping_mappings [OF assms(1)] by auto
  next
    case 3
    have "framed (call_area call) (ws_store s) (ws_store s')"
      using call_handler_keeps [OF assms(1), of call E A "call_request call r"] 1(2) by (simp add: keeps_def)
    then have "mappings (ws_store s') \<subseteq> mappings (ws_store s)"
      using 3 framed_get by (intro mappings_mono) (fastforce simp: below_def)
    then show ?thesis using assms(3) by blast
  qed
next
  case 2
  then show ?thesis using assms(3) by simp
qed

text \<open>What is known of an account after a call.\<close>

lemma account_grants:
  assumes "accounts_ok (ws_store s)" "one_segment r" "RegisterAPIHandlers E A call r s = (p, s')"
    and "CHR ''/'' \<notin> set i" "GetUser (ws_store s') i = Inr u'"
  shows "((\<exists>u. GetUser (ws_store s) i = Inr u \<and> us_Roles u = us_Roles u') \<or>
      CanAssignRoles (ws_store s) (fst (resolveActor r s)) (snd (resolveActor r s)) (us_Roles u') ''*'') \<and>
    ((\<exists>u. GetUser (ws_store s) i = Inr u \<and> us_Channels u = us_Channels u') \<or> CanAssignChannels (fst (resolveActor r s)) (us_Channels u'))"
proof -
  obtain i0 where i0: "\<And>i. CHR ''/'' \<notin> set i \<Longrightarrow> i \<noteq> i0 \<Longrightarrow> GetUser (ws_store s') i = GetUser (ws_store s) i"
    "CHR ''/'' \<notin> set i0 \<Longrightarrow> account_step (ws_store s) (fst (resolveActor r s)) (snd (resolveActor r s)) i0 (GetUser (ws_store s') i0)"
    using call_accounts [OF assms(1-3)] by (auto simp: accounts_step_def)
  show ?thesis
  proof (cases "i = i0")
    case True
    then have "account_step (ws_store s) (fst (resolveActor r s)) (snd (resolveActor r s)) i (Inr u')" using i0(2) assms(4,5) by simp
    then show ?thesis by (cases rule: account_step.cases) (blast dest: sym)+
  next
    case False
    then show ?thesis using i0(1) assms(4,5) by simp
  qed
qed

section \<open>Concrete calls\<close>

definition demo_params :: api_params where
  "demo_params = \<lparr>ap_Channel = (\<lambda>_. None), ap_NewUser = (\<lambda>_. None), ap_UserUpdate = (\<lambda>_. None), ap_Binding = (\<lambda>_. None),
     ap_created = ''now'', ap_fmt = (\<lambda>_. JNull), ap_parse = (\<lambda>_. None)\<rparr>"

text \<open>The administrator \<open>ann\<close> asks for her own account.\<close>

definition demo_call :: web_request where
  "demo_call = demo_request\<lparr>cx_Principal := Some demo_ann, wr_Param := [(''id'', ''ann'')]\<rparr>"

lemma demo_call_fields: "resolveRequestUser demo_call s = Some demo_ann" "cx_Groups demo_call = []" "cx_ChannelID demo_call = None"
  "URLParam demo_call ''id'' = ''ann''" "one_segment demo_call" "resolveActor demo_call s = (Some demo_ann, [])"
  by (auto simp: demo_call_def demo_request_def resolveRequestUser_def URLParam_def one_segment_def resolveActor_def or_empty_def)

lemma demo_accounts_ok: "accounts_ok demo_accounts"
proof -
  have r: "reads_ok demo_accounts" by (rule ready_reads [OF demo_accounts_ready(1)])
  have "i = ''ann'' \<and> u = demo_ann" if "CHR ''/'' \<notin> set i" "GetUser demo_accounts i = Inr u" for i u
  proof -
    have "userKey i \<in> {''/users/ann/'', ''/users/by-username/ann/''}"
      using that(2) by (auto simp: GetUser_reads [OF r] demo_accounts_ready kv_get_Cons split: if_splits)
    then have "i = ''ann''" using that(1) by (auto simp: userKey_def)
    then show ?thesis using that(2) demo_accounts_reads(1) by simp
  qed
  then have "own_ids demo_accounts" unfolding own_ids_def using demo_ids(1) by blast
  moreover have "has_admin demo_accounts"
    unfolding has_admin_def using demo_accounts_reads(1)
    by (intro exI [of _ "''ann''"] exI [of _ demo_ann]) (simp add: listable_def hasAdminRole_def demo_ann_def)
  ultimately show ?thesis using r by (simp add: accounts_ok_def)
qed

lemma demo_role: "GetRole demo_accounts ''admin'' = Inr \<lparr>ro_Name = ''admin'', ro_Permissions = [''*'']\<rparr>"
  by (simp add: GetRole_def get_ready [OF demo_accounts_ready(1)] demo_accounts_ready roleKey_def kv_get_Cons DefaultRoles_def)

lemma demo_power: "UserHasPermission C demo_accounts (Some demo_ann) [] perm []"
  by (simp add: UserHasPermission_def checkGlobalRolePermissions_def demo_ann_def demo_role)

lemma demo_authorized: "call_perms call \<noteq> [] \<Longrightarrow> \<not> on_channel call \<Longrightarrow> authorized demo_env call demo_call demo_desk"
  by (cases "call_perms call") (auto simp: authorized_def demo_call_fields call_request_def demo_desk_def demo_power or_empty_def)

lemma demo_switch:
  "RegisterAPIHandlers demo_env demo_params (SetSwitchCall (Decoded True)) demo_call demo_desk =
     (writeJSON 200 (JObj [(''enabled'', JBool True)]),
      demo_desk\<lparr>ws_store := with_bucket demo_accounts (kv_put ''/global/auth/internal_enabled'' (JBool True) (bucket demo_accounts))\<rparr>)"
proof -
  have "authorized demo_env (SetSwitchCall (Decoded True)) demo_call demo_desk" by (rule demo_authorized) simp_all
  then show ?thesis
    by (simp add: api_authorized setInternalAuth_def svc_SetInternalAuthEnabled_def demo_desk_def
        SetInternalAuthEnabled_ready [OF demo_accounts_ready(1)])
qed

lemma demo_switch_changes: "demo_desk\<lparr>ws_store := with_bucket demo_accounts (kv_put ''/global/auth/internal_enabled'' (JBool True) (bucket demo_accounts))\<rparr> \<noteq> demo_desk"
proof
  assume "demo_desk\<lparr>ws_store := with_bucket demo_accounts (kv_put ''/global/auth/internal_enabled'' (JBool True) (bucket demo_accounts))\<rparr> = demo_desk"
  from arg_cong [OF this, of "\<lambda>s. kv_get (bucket (ws_store s)) ''/global/auth/internal_enabled''"] show False
    by (simp add: kvm.get_put demo_desk_def demo_accounts_ready kv_get_Cons)
qed

definition demo_bob :: user_input where
  "demo_bob = \<lparr>ui_Username = ''bob'', ui_Password = ''pw'', ui_Roles = Some [''admin''], ui_Channels = Some [''*'']\<rparr>"

definition demo_created :: user where
  "demo_created = \<lparr>us_ID = ''bob'', us_Username = ''bob'', us_PasswordHash = ''$2a$pw'', us_OIDCSubjects = [],
     us_ExternalIdentities = [], us_Roles = [''admin''], us_Channels = [''*'']\<rparr>"

lemma demo_may: "CanAssignRoles demo_accounts (Some demo_ann) [] [''admin''] ''*''" "CanAssignChannels (Some demo_ann) [''*'']"
proof -
  have "''*'' \<in> set (EffectivePermissions demo_accounts (Some demo_ann) [])"
    by (simp add: EffectivePermissions_def role_perms_def demo_role demo_ann_def)
  then show "CanAssignRoles demo_accounts (Some demo_ann) [] [''admin''] ''*''"
    by (simp add: CanAssignRoles_def canAssignRole_def demo_role)
  show "CanAssignChannels (Some demo_ann) [''*'']" by (simp add: CanAssignChannels_def hasChannelAccessList_def demo_ann_def)
qed

lemma demo_create:
  "\<exists>s'. RegisterAPIHandlers demo_env demo_params (CreateUserCall (Decoded demo_bob)) demo_call demo_desk =
     (writeJSON 201 (account_response demo_created), s') \<and> GetUser (ws_store s') ''bob'' = Inr demo_created"
proof -
  let ?m = "kv_put (usernameIndexKey ''bob'' @ ''/'') (usernameIndexValue ''bob'') (kv_put (userKey ''bob'') (marshal_user demo_created) (bucket demo_accounts))"
  have k: "user_keys_ok demo_created"
    by (simp add: user_keys_ok_def demo_created_def userKey_def usernameIndexKey_def validateKey_def HasPrefix_def)
  have "kv_get (bucket demo_accounts) (userKey ''bob'') = None" by (simp add: demo_accounts_ready userKey_def kv_get_Cons)
  then have c: "CreateUser demo_accounts demo_created = (None, with_bucket demo_accounts ?m)"
    using CreateUser_ready [OF demo_accounts_ready(1) k] by (simp add: demo_created_def)
  have h: "hash_password demo_env ''pw'' = Some ''$2a$pw''"
    by (simp add: hash_password_def demo_env_def toy_crypto_def)
  have "authorized demo_env (CreateUserCall (Decoded demo_bob)) demo_call demo_desk" by (rule demo_authorized) simp_all
  then have "RegisterAPIHandlers demo_env demo_params (CreateUserCall (Decoded demo_bob)) demo_call demo_desk =
      (writeJSON 201 (account_response demo_created), demo_desk\<lparr>ws_store := with_bucket demo_accounts ?m\<rparr>)"
    using demo_may h c
    by (simp add: api_authorized createUser_def demo_bob_def demo_params_def validateStruct_def demo_call_fields demo_desk_def slice_def
        demo_created_def [symmetric])
  moreover have "reads_ok (with_bucket demo_accounts ?m)"
    using ready_reads [OF demo_accounts_ready(1)] by (simp add: reads_with kvm.wf_put reads_wf)
  then have "GetUser (with_bucket demo_accounts ?m) ''bob'' = Inr demo_created"
    by (simp add: GetUser_reads kvm.get_put user_roundtrip) (simp add: userKey_def usernameIndexKey_def)
  ultimately show ?thesis by auto
qed

text \<open>Two administrators who are deleted at the same time.\<close>

definition demo_twins :: raft_store where
  "demo_twins = with_bucket (demo_store\<lparr>rs_keeper := None\<rparr>)
     [(''/users/ann/'', marshal_user demo_ann), (''/users/bob/'', marshal_user demo_created)]"

lemma demo_twins_ready: "store_ready demo_twins"
  "bucket demo_twins = [(''/users/ann/'', marshal_user demo_ann), (''/users/bob/'', marshal_user demo_created)]"
proof -
  have "store_ready (demo_store\<lparr>rs_keeper := None\<rparr>)" using demo_store_ready(1) by (simp add: store_ready_def)
  then show "store_ready demo_twins" unfolding demo_twins_def by (rule store_ready_with) (simp add: kv_wf_def)
qed (simp add: demo_twins_def)

lemma demo_twins_list: "ListUsers demo_twins = Inr [demo_ann, demo_created]"
  by (simp add: ListUsers_def keys_ready [OF demo_twins_ready(1)] kv_keys_def segment_def TrimPrefix_def
      get_ready [OF demo_twins_ready(1)] demo_twins_ready kv_get_Cons user_roundtrip userKey_def)

lemma demo_twins_get: "GetUser demo_twins ''ann'' = Inr demo_ann" "GetUser demo_twins ''bob'' = Inr demo_created"
  by (simp_all add: GetUser_ready [OF demo_twins_ready(1)] demo_twins_ready userKey_def kv_get_Cons user_roundtrip)

definition demo_other :: web_request where
  "demo_other = demo_request\<lparr>wr_Param := [(''id'', ''bob'')]\<rparr>"

lemma delete_commit_ready:
  assumes "store_ready (ws_store s)" "GetUser (ws_store s) (URLParam r ''id'') = Inr u"
    and "validateKey (userKey (URLParam r ''id'')) = None" "validateKey (''/users/by-username/'' @ us_Username u @ ''/'') = None"
    and "GetAuthEpoch (ws_store s) = Inr n" "CHR ''/'' \<notin> set i"
  shows "rp_Status (fst (deleteUser_commit r s)) = 204" "store_ready (ws_store (snd (deleteUser_commit r s)))"
    "GetUser (ws_store (snd (deleteUser_commit r s))) i = (if i = URLParam r ''id'' then Inl ErrNotFound else GetUser (ws_store s) i)"
    "\<exists>n. GetAuthEpoch (ws_store (snd (deleteUser_commit r s))) = Inr n"
proof -
  let ?i = "URLParam r ''id''" and ?rs = "ws_store s"
  let ?x = "''/users/by-username/'' @ us_Username u @ ''/''"
  let ?rs1 = "with_bucket ?rs (kv_del ?x (kv_del (userKey ?i) (bucket ?rs)))"
  have d: "DeleteUser ?rs ?i = (None, ?rs1)"
    using applyMulti_ready [OF assms(1), of "[\<lparr>fk_Key = userKey ?i, fk_Value = JBad, fk_Delete = True\<rparr>, \<lparr>fk_Key = ?x, fk_Value = JBad, fk_Delete = True\<rparr>]"] assms(2-4)
    by (simp add: DeleteUser_def)
  have r1: "store_ready ?rs1" using assms(1) by (simp add: store_ready_with kvm.wf_del bucket_wf)
  have "GetAuthEpoch ?rs1 = GetAuthEpoch ?rs"
    using r1 assms(1) by (simp add: GetAuthEpoch_ready kvm.get_del) (simp add: userKey_def)
  then obtain q rs2 where b: "BumpAuthEpoch ?rs1 = (q, rs2)" "GetAuthEpoch ?rs1 = Inr n" using assms(5) by fastforce
  note B = BumpAuthEpoch_ready [OF r1 b(2,1)]
  have out: "deleteUser_commit r s = (WriteHeader 204, bump (s\<lparr>ws_store := ?rs1\<rparr>))" "ws_store (bump (s\<lparr>ws_store := ?rs1\<rparr>)) = rs2"
    using d b(1) by (simp_all add: deleteUser_commit_def)
  show "rp_Status (fst (deleteUser_commit r s)) = 204" "store_ready (ws_store (snd (deleteUser_commit r s)))"
    "\<exists>n. GetAuthEpoch (ws_store (snd (deleteUser_commit r s))) = Inr n" using out B by simp_all
  have "GetUser rs2 i = GetUser ?rs1 i" using B(3) r1 B(4) [of "userKey i"] by (simp add: GetUser_ready userKey_def)
  moreover have "GetUser ?rs1 i = (if i = ?i then Inl ErrNotFound else GetUser ?rs i)"
    using r1 assms(1) index_is_no_user [OF assms(6), of "us_Username u"] by (simp add: GetUser_ready kvm.get_del)
  ultimately show "GetUser (ws_store (snd (deleteUser_commit r s))) i = (if i = ?i then Inl ErrNotFound else GetUser ?rs i)"
    using out by simp
qed

section \<open>Properties\<close>

text \<open>C17: Nobody changes anything through the management API without permission, and nobody changes more than the
  call is about. Whatever a call changed, the caller was resolved to an account that holds one of the
  permissions of the route, for the channel in the path where there is one; and the store changed only
  below the keys of the call's area, whether the proposal was committed, refused, or lost its answer.\<close>

theorem api_changes_authorized:
  assumes "reads_ok (ws_store s)" "RegisterAPIHandlers E A call r s = (p, s')" "s' \<noteq> s"
  shows "authorized E call r s \<and> framed (call_area call) (ws_store s) (ws_store s')"
  using assms(2)
proof (cases rule: api_cases)
  case 1
  then show ?thesis using call_handler_keeps [OF assms(1), of call E A "call_request call r"] by (simp add: keeps_def)
next
  case 2
  then show ?thesis using assms(3) by simp
qed

theorem api_changes_authorized_witness:
  "authorized demo_env (SetSwitchCall (Decoded True)) demo_call demo_desk \<and>
   framed (below ''/global/'') demo_accounts
     (ws_store (snd (RegisterAPIHandlers demo_env demo_params (SetSwitchCall (Decoded True)) demo_call demo_desk)))"
  using api_changes_authorized [OF _ demo_switch demo_switch_changes] demo_accounts_ok
  by (simp add: demo_switch) (simp add: demo_desk_def accounts_ok_def)

text \<open>C18: The last administrator cannot be lost. Starting from accounts that are stored under their own identifiers
  and include an administrator, every sequence of calls of the management API leaves it so: creating,
  renaming, changing, rebinding and deleting accounts, by anybody and with proposals that may fail.\<close>

theorem administrator_remains:
  assumes "accounts_ok (ws_store s)" "\<forall>(E, A, call, r) \<in> set calls. one_segment r"
  shows "accounts_ok (ws_store (api_run calls s))"
  using api_run_ok [OF assms] .

theorem administrator_remains_witness:
  "accounts_ok (ws_store (api_run [(demo_env, demo_params, DeleteUserCall, demo_call), (demo_env, demo_params, DeleteUserCall, demo_call)] demo_desk))"
  using administrator_remains [of demo_desk "[(demo_env, demo_params, DeleteUserCall, demo_call), (demo_env, demo_params, DeleteUserCall, demo_call)]"]
    demo_accounts_ok demo_call_fields(5) by (simp add: demo_desk_def)



text \<open>The check for the last administrator and the deletion are two steps: when two requests that delete the two
  administrators run at the same time, both checks pass before either deletion is proposed, both
  deletions succeed, and no administrator is left.\<close>

theorem concurrent_deletes_remove_administrators:
  "\<exists>s r1 r2. has_admin (ws_store s) \<and> deleteUser_check r1 (ws_store s) = None \<and> deleteUser_check r2 (ws_store s) = None \<and>
     (case deleteUser_commit r1 s of (p1, s1) \<Rightarrow> case deleteUser_commit r2 s1 of (p2, s2) \<Rightarrow>
        rp_Status p1 = 204 \<and> rp_Status p2 = 204 \<and> \<not> has_admin (ws_store s2))"
proof -
  let ?s = "demo_web\<lparr>ws_store := demo_twins\<rparr>"
  let ?s1 = "snd (deleteUser_commit demo_call ?s)"
  have a: "URLParam demo_other ''id'' = ''bob''" "us_ID demo_created = ''bob''" "us_Username demo_created = ''bob''" "us_Username demo_ann = ''ann''"
    by (simp_all add: demo_other_def URLParam_def or_empty_def demo_created_def demo_ids)
  have adm: "hasAdminRole (us_Roles demo_ann)" "hasAdminRole (us_Roles demo_created)"
    by (simp_all add: hasAdminRole_def demo_ann_def demo_created_def)
  have chk: "deleteUser_check demo_call demo_twins = None" "deleteUser_check demo_other demo_twins = None"
    by (simp_all add: deleteUser_check_def demo_call_fields a demo_twins_get demo_twins_list adm demo_ids)
  have k: "validateKey (userKey ''ann'') = None" "validateKey (''/users/by-username/'' @ ''ann'' @ ''/'') = None"
    "validateKey (userKey ''bob'') = None" "validateKey (''/users/by-username/'' @ ''bob'' @ ''/'') = None"
    by (simp_all add: userKey_def validateKey_def HasPrefix_def)
  have e: "GetAuthEpoch demo_twins = Inr 0" by (simp add: GetAuthEpoch_ready [OF demo_twins_ready(1)] demo_twins_ready kv_get_Cons)
  have h1: "store_ready (ws_store ?s)" "GetUser (ws_store ?s) (URLParam demo_call ''id'') = Inr demo_ann"
    "validateKey (userKey (URLParam demo_call ''id'')) = None" "validateKey (''/users/by-username/'' @ us_Username demo_ann @ ''/'') = None"
    "GetAuthEpoch (ws_store ?s) = Inr 0"
    using demo_twins_ready(1) k e by (simp_all add: demo_call_fields(4) demo_twins_get a(4))
  note s1 = delete_commit_ready(1,2,4) [OF h1, of "[]", simplified] delete_commit_ready(3) [OF h1]
  obtain n where n: "GetAuthEpoch (ws_store ?s1) = Inr n" using s1(3) by blast
  have h2: "GetUser (ws_store ?s1) (URLParam demo_other ''id'') = Inr demo_created"
    "validateKey (userKey (URLParam demo_other ''id'')) = None" "validateKey (''/users/by-username/'' @ us_Username demo_created @ ''/'') = None"
    using k by (simp_all add: s1(4) a(1,3) demo_twins_get demo_call_fields(4))
  note s2 = delete_commit_ready(1) [OF s1(2) h2 n, of "[]", simplified] delete_commit_ready(3) [OF s1(2) h2 n]
  have t: "GetUser demo_twins i = Inl ErrNotFound" if "i \<noteq> ''ann''" "i \<noteq> ''bob''" for i
    using that by (simp add: GetUser_ready [OF demo_twins_ready(1)] demo_twins_ready kv_get_Cons userKey_def)
  have "GetUser (ws_store (snd (deleteUser_commit demo_other ?s1))) i = Inl ErrNotFound" if "listable i" for i
    using that s2(2) [of i] s1(4) [of i] t [of i] unfolding a(1) demo_call_fields(4) listable_def
    by (cases "i = ''ann''"; cases "i = ''bob''") simp_all
  then have "\<not> has_admin (ws_store (snd (deleteUser_commit demo_other ?s1)))" unfolding has_admin_def by force
  moreover have "has_admin demo_twins"
    unfolding has_admin_def by (intro exI [of _ "''ann''"] exI [of _ demo_ann]) (simp add: listable_def adm demo_twins_get)
  ultimately show ?thesis using s1(1) s2(1) chk
    by (intro exI [of _ ?s] exI [of _ demo_call] exI [of _ demo_other]) (simp add: case_prod_beta)
qed

end
