(* ===== verification/Cluster.thy ===== *)
theory Cluster
  imports RateLimit
begin

text \<open>
  Forming the Raft cluster: peer discovery (\<open>internal/repository/raft_discovery.go\<close>), which node seeds the
  cluster, the reconciliation of the membership and the readiness of a node
  (\<open>internal/repository/raft.go\<close>). The Raft library and name resolution are parameters.
\<close>

section \<open>Discovery\<close>

record raft_peer =
  rp_ID :: string
  rp_Address :: string

record discovery_config =
  dc_NodeID :: string
  dc_AdvertiseAddr :: string
  dc_BindAddr :: string
  dc_Peers :: "raft_peer list"
  dc_Replicas :: int
  dc_StatefulSetName :: string
  dc_HeadlessService :: string
  dc_Namespace :: string
  dc_ClusterDomain :: string
  dc_RaftPort :: int

datatype peer_resolver = StaticResolver discovery_config | DnsResolver discovery_config string | SingleResolver discovery_config

definition clusterDomain :: "discovery_config \<Rightarrow> string" where
  "clusterDomain cfg = dc_ClusterDomain cfg"

definition NewPeerResolver :: "discovery_config \<Rightarrow> peer_resolver" where
  "NewPeerResolver cfg =
     (if dc_Peers cfg \<noteq> [] then StaticResolver cfg
      else if dc_StatefulSetName cfg \<noteq> [] \<and> dc_HeadlessService cfg \<noteq> [] then DnsResolver cfg (clusterDomain cfg)
      else SingleResolver cfg)"

text \<open>\<open>net.JoinHostPort\<close>\<close>

definition JoinHostPort :: "string \<Rightarrow> string \<Rightarrow> string" where
  "JoinHostPort host port = (if CHR '':'' \<in> set host then ''['' @ host @ '']:'' @ port else host @ '':'' @ port)"

definition raftPort :: "netlib \<Rightarrow> discovery_config \<Rightarrow> int" where
  "raftPort N cfg =
     (if dc_RaftPort cfg \<noteq> 0 then dc_RaftPort cfg
      else (case net_SplitHostPort N (dc_BindAddr cfg) of
          None \<Rightarrow> 6001
        | Some (_, portStr) \<Rightarrow> (case ParseInt portStr of Inl _ \<Rightarrow> 6001 | Inr p \<Rightarrow> (if 0 < p then p else 6001))))"

definition podAddress :: "netlib \<Rightarrow> discovery_config \<Rightarrow> string \<Rightarrow> string \<Rightarrow> string" where
  "podAddress N cfg domain host =
     (let name = host @ ''.'' @ dc_HeadlessService cfg @ ''.'' @ dc_Namespace cfg @ ''.svc'';
          name' = (if domain \<noteq> [] then name @ ''.'' @ domain else name)
      in name' @ '':'' @ Itoa (raftPort N cfg))"

definition pod_name :: "discovery_config \<Rightarrow> nat \<Rightarrow> string" where
  "pod_name cfg i = dc_StatefulSetName cfg @ ''-'' @ Itoa (int i)"

definition dns_Resolve :: "netlib \<Rightarrow> discovery_config \<Rightarrow> string \<Rightarrow> raft_peer list result" where
  "dns_Resolve N cfg domain =
     (if dc_Replicas cfg < 1 then Inl (ErrMsg ''raft discovery: replicas must be >= 1'')
      else if dc_StatefulSetName cfg = [] then Inl (ErrMsg ''raft discovery: statefulset_name is required'')
      else if dc_HeadlessService cfg = [] then Inl (ErrMsg ''raft discovery: headless_service is required'')
      else if dc_Namespace cfg = [] then Inl (ErrMsg ''raft discovery: namespace is required'')
      else Inr (map (\<lambda>i. \<lparr>rp_ID = pod_name cfg i, rp_Address = podAddress N cfg domain (pod_name cfg i)\<rparr>) [0..<nat (dc_Replicas cfg)]))"

definition podOrdinal :: "string \<Rightarrow> string \<Rightarrow> int option" where
  "podOrdinal host sts =
     (if sts = [] \<or> \<not> HasPrefix host (sts @ ''-'') then None
      else (let suffix = TrimPrefix host (sts @ ''-'') in
        if suffix = [] then None
        else (case ParseInt suffix of Inl _ \<Rightarrow> None | Inr n \<Rightarrow> (if n < 0 then None else Some n))))"

definition selfFor :: "netlib \<Rightarrow> discovery_config \<Rightarrow> string \<Rightarrow> string \<Rightarrow> raft_peer result" where
  "selfFor N cfg domain host =
     (if podOrdinal host (dc_StatefulSetName cfg) \<noteq> None then Inr \<lparr>rp_ID = host, rp_Address = podAddress N cfg domain host\<rparr>
      else if dc_AdvertiseAddr cfg \<noteq> [] then Inr \<lparr>rp_ID = dc_NodeID cfg, rp_Address = dc_AdvertiseAddr cfg\<rparr>
      else Inl (ErrMsg ''raft discovery: hostname does not match and advertise_addr is unset''))"

definition deriveBindHost :: "netlib \<Rightarrow> string \<Rightarrow> int \<Rightarrow> string" where
  "deriveBindHost N bindAddr port = (case net_SplitHostPort N bindAddr of
       None \<Rightarrow> JoinHostPort ''127.0.0.1'' (Itoa port)
     | Some (host, portStr) \<Rightarrow>
         JoinHostPort (if host = [] \<or> host = ''0.0.0.0'' \<or> host = ''::'' then ''127.0.0.1'' else host) portStr)"

definition matchSelf :: "discovery_config \<Rightarrow> raft_peer result" where
  "matchSelf cfg =
     (case (if dc_NodeID cfg = [] then None else find (\<lambda>p. rp_ID p = dc_NodeID cfg) (dc_Peers cfg)) of
        Some p \<Rightarrow> Inr p
      | None \<Rightarrow> (case (if dc_AdvertiseAddr cfg = [] then None else find (\<lambda>p. rp_Address p = dc_AdvertiseAddr cfg) (dc_Peers cfg)) of
          Some p \<Rightarrow> Inr p
        | None \<Rightarrow> Inl (ErrMsg ''raft discovery: self not found in explicit peers'')))"

definition synthesizeSelf :: "netlib \<Rightarrow> discovery_config \<Rightarrow> raft_peer result" where
  "synthesizeSelf N cfg =
     (if dc_NodeID cfg = [] \<and> dc_AdvertiseAddr cfg = []
      then Inl (ErrMsg ''raft discovery: cannot identify self without node_id or advertise_addr'')
      else Inr \<lparr>rp_ID = dc_NodeID cfg, rp_Address =
        (if dc_AdvertiseAddr cfg = [] then deriveBindHost N (dc_BindAddr cfg) (raftPort N cfg) else dc_AdvertiseAddr cfg)\<rparr>)"

definition static_Resolve :: "netlib \<Rightarrow> discovery_config \<Rightarrow> raft_peer list result" where
  "static_Resolve N cfg = (case matchSelf cfg of
       Inr _ \<Rightarrow> Inr (dc_Peers cfg)
     | Inl _ \<Rightarrow> bindE (synthesizeSelf N cfg) (\<lambda>self. Inr (sort_key rp_ID (dc_Peers cfg @ [self]))))"

definition static_Self :: "netlib \<Rightarrow> discovery_config \<Rightarrow> raft_peer result" where
  "static_Self N cfg = (case matchSelf cfg of Inr p \<Rightarrow> Inr p | Inl _ \<Rightarrow> synthesizeSelf N cfg)"

definition single_Self :: "netlib \<Rightarrow> discovery_config \<Rightarrow> raft_peer result" where
  "single_Self N cfg = Inr \<lparr>rp_ID = dc_NodeID cfg, rp_Address =
     (if dc_AdvertiseAddr cfg = [] then deriveBindHost N (dc_BindAddr cfg) (raftPort N cfg) else dc_AdvertiseAddr cfg)\<rparr>"

text \<open>The interface \<open>PeerResolver\<close>; \<open>host\<close> is the host name of the machine.\<close>

definition Resolve :: "netlib \<Rightarrow> peer_resolver \<Rightarrow> raft_peer list result" where
  "Resolve N r = (case r of
       StaticResolver cfg \<Rightarrow> static_Resolve N cfg
     | DnsResolver cfg domain \<Rightarrow> dns_Resolve N cfg domain
     | SingleResolver cfg \<Rightarrow> bindE (single_Self N cfg) (\<lambda>self. Inr [self]))"

definition Self :: "netlib \<Rightarrow> string \<Rightarrow> peer_resolver \<Rightarrow> raft_peer result" where
  "Self N host r = (case r of
       StaticResolver cfg \<Rightarrow> static_Self N cfg
     | DnsResolver cfg domain \<Rightarrow> selfFor N cfg domain host
     | SingleResolver cfg \<Rightarrow> single_Self N cfg)"

definition deriveAdvertiseAddr :: "netlib \<Rightarrow> discovery_config \<Rightarrow> string \<Rightarrow> string" where
  "deriveAdvertiseAddr N cfg hostname =
     (if dc_AdvertiseAddr cfg \<noteq> [] then dc_AdvertiseAddr cfg
      else if podOrdinal hostname (dc_StatefulSetName cfg) \<noteq> None \<and> dc_HeadlessService cfg \<noteq> [] \<and> dc_Namespace cfg \<noteq> []
      then podAddress N cfg (clusterDomain cfg) hostname
      else deriveBindHost N (dc_BindAddr cfg) (raftPort N cfg))"

fun dedupe :: "string list \<Rightarrow> string list \<Rightarrow> string list" where
  "dedupe seen [] = []"
| "dedupe seen (n # ns) = (if n \<in> set seen then dedupe seen ns else n # dedupe (n # seen) ns)"

definition PodSANs :: "discovery_config \<Rightarrow> string \<Rightarrow> string list" where
  "PodSANs cfg hostname =
     (let base = hostname @ ''.'' @ dc_HeadlessService cfg; baseNS = base @ ''.'' @ dc_Namespace cfg in
      dedupe [] ([hostname, ''localhost''] @
        (if dc_HeadlessService cfg = [] then []
         else base # (if dc_Namespace cfg = [] then []
           else [baseNS, baseNS @ ''.svc''] @ (if clusterDomain cfg = [] then [] else [baseNS @ ''.svc.'' @ clusterDomain cfg])))))"

section \<open>Starting a node\<close>

text \<open>The part of \<open>RaftConfig\<close> that decides how a node starts.\<close>

record raft_config =
  rc_NodeID :: string
  rc_BindAddr :: string
  rc_AdvertiseAddr :: string
  rc_Peers :: "string list"
  rc_RecoveryMode :: bool
  rc_SingleNodeRecovery :: bool

fun parsePeers :: "string list \<Rightarrow> raft_peer list" where
  "parsePeers [] = []"
| "parsePeers (e # es) = (case SplitN2 CHR ''='' e of
       None \<Rightarrow> parsePeers es
     | Some (a, b) \<Rightarrow> (if a = [] \<or> b = [] then parsePeers es else \<lparr>rp_ID = a, rp_Address = b\<rparr> # parsePeers es))"

definition legacyResolver :: "raft_config \<Rightarrow> peer_resolver" where
  "legacyResolver cfg = NewPeerResolver \<lparr>dc_NodeID = rc_NodeID cfg, dc_AdvertiseAddr = rc_AdvertiseAddr cfg,
     dc_BindAddr = rc_BindAddr cfg, dc_Peers = parsePeers (rc_Peers cfg), dc_Replicas = 0, dc_StatefulSetName = [],
     dc_HeadlessService = [], dc_Namespace = [], dc_ClusterDomain = [], dc_RaftPort = 0\<rparr>"

definition resolveBootstrapState :: "netlib \<Rightarrow> string \<Rightarrow> string \<Rightarrow> peer_resolver \<Rightarrow> (string \<times> bool) result" where
  "resolveBootstrapState N host cfgNodeID r =
     bindE (Resolve N r) (\<lambda>resolved.
     let shouldBootstrap = (case Self N host r of Inl _ \<Rightarrow> True
           | Inr self \<Rightarrow> (if resolved = [] then True else rp_ID self = rp_ID (hd resolved)));
         nodeID = (if cfgNodeID = [] then (case Self N host r of Inl _ \<Rightarrow> [] | Inr self \<Rightarrow> rp_ID self) else cfgNodeID)
     in Inr (if nodeID = [] then ''node1'' else nodeID, shouldBootstrap))"

text \<open>How \<open>NewRaftStore\<close> starts the node: recovery of a single survivor, a new cluster of one, or an empty
  node that waits to be added.\<close>

datatype start_mode = RecoverCluster | BootstrapCluster | JoinCluster

definition start_mode :: "raft_config \<Rightarrow> bool \<Rightarrow> bool \<Rightarrow> start_mode" where
  "start_mode cfg shouldBootstrap hasState =
     (if rc_SingleNodeRecovery cfg \<and> shouldBootstrap \<and> \<not> rc_RecoveryMode cfg \<and> hasState then RecoverCluster
      else if shouldBootstrap then BootstrapCluster else JoinCluster)"

record raft_server =
  sv_Voter :: bool
  sv_ID :: string
  sv_Address :: string

fun conf_servers :: "string list \<Rightarrow> raft_peer list \<Rightarrow> raft_server list" where
  "conf_servers seen [] = []"
| "conf_servers seen (p # ps) =
     (if rp_ID p = [] \<or> rp_Address p = [] \<or> rp_ID p \<in> set seen then conf_servers seen ps
      else \<lparr>sv_Voter = True, sv_ID = rp_ID p, sv_Address = rp_Address p\<rparr> # conf_servers (rp_ID p # seen) ps)"

definition raftConfigurationFromPeers :: "raft_peer list \<Rightarrow> raft_server list" where
  "raftConfigurationFromPeers peers = conf_servers [] peers"

section \<open>Membership\<close>

text \<open>A configuration of the cluster: the address of each server. The library adds and removes servers; name
  resolution says whether a host resolves and to which address.\<close>

type_synonym membership = "(string, string) kv"

record raft_lib =
  rl_add :: "membership \<Rightarrow> string \<Rightarrow> string \<Rightarrow> error option \<times> membership"
  rl_remove :: "membership \<Rightarrow> string \<Rightarrow> error option \<times> membership"
  rl_lookup :: "string \<Rightarrow> bool"
  rl_resolve :: "string \<Rightarrow> string option"

definition peerResolvable :: "netlib \<Rightarrow> raft_lib \<Rightarrow> raft_peer \<Rightarrow> bool" where
  "peerResolvable N L p = (case net_SplitHostPort N (rp_Address p) of
       None \<Rightarrow> True
     | Some (host, _) \<Rightarrow> (if host = [] \<or> net_ParseIP N host \<noteq> None then True else rl_lookup L host))"

definition addrChanged :: "netlib \<Rightarrow> raft_lib \<Rightarrow> string \<Rightarrow> string \<Rightarrow> bool" where
  "addrChanged N L current desired =
     (if current = desired then False
      else (case net_SplitHostPort N desired of
          None \<Rightarrow> True
        | Some (host, _) \<Rightarrow> (if net_ParseIP N host \<noteq> None then True
            else (case rl_resolve L desired of None \<Rightarrow> True | Some a \<Rightarrow> current \<noteq> a))))"

record reconciled =
  rec_added :: "string list"
  rec_updated :: "string list"
  rec_removed :: "string list"

text \<open>The three loops of \<open>ReconcileMembership\<close>; \<open>cur\<close> is the configuration read at the start. They range over
  maps, whose order Go leaves open: the lists of identifiers are arguments. A failing call ends the
  reconciliation.\<close>

fun add_missing ::
  "netlib \<Rightarrow> raft_lib \<Rightarrow> membership \<Rightarrow> (string, raft_peer) kv \<Rightarrow> string list \<Rightarrow> reconciled \<times> membership \<Rightarrow>
     error option \<times> reconciled \<times> membership" where
  "add_missing N L cur des [] st = (None, st)"
| "add_missing N L cur des (i # ids) (r, c) = (case kv_get des i of
       None \<Rightarrow> add_missing N L cur des ids (r, c)
     | Some p \<Rightarrow>
        (if kv_get cur i = None \<and> peerResolvable N L p then
           (case rl_add L c i (rp_Address p) of
              (Some e, c') \<Rightarrow> (Some e, r, c')
            | (None, c') \<Rightarrow> add_missing N L cur des ids (r\<lparr>rec_added := rec_added r @ [i]\<rparr>, c'))
         else add_missing N L cur des ids (r, c)))"

fun update_addresses ::
  "netlib \<Rightarrow> raft_lib \<Rightarrow> membership \<Rightarrow> (string, raft_peer) kv \<Rightarrow> string list \<Rightarrow> reconciled \<times> membership \<Rightarrow>
     error option \<times> reconciled \<times> membership" where
  "update_addresses N L cur des [] st = (None, st)"
| "update_addresses N L cur des (i # ids) (r, c) = (case (kv_get cur i, kv_get des i) of
       (Some a, Some p) \<Rightarrow>
        (if addrChanged N L a (rp_Address p) \<and> peerResolvable N L p then
           (case rl_remove L c i of
              (Some e, c1) \<Rightarrow> (Some e, r, c1)
            | (None, c1) \<Rightarrow> (case rl_add L c1 i (rp_Address p) of
                (Some e, c2) \<Rightarrow> (Some e, r, c2)
              | (None, c2) \<Rightarrow> update_addresses N L cur des ids (r\<lparr>rec_updated := rec_updated r @ [i]\<rparr>, c2)))
         else update_addresses N L cur des ids (r, c))
     | _ \<Rightarrow> update_addresses N L cur des ids (r, c))"

fun remove_extra ::
  "raft_lib \<Rightarrow> (string, raft_peer) kv \<Rightarrow> string list \<Rightarrow> reconciled \<times> membership \<Rightarrow> error option \<times> reconciled \<times> membership" where
  "remove_extra L des [] st = (None, st)"
| "remove_extra L des (i # ids) (r, c) =
     (if kv_get des i = None then
        (case rl_remove L c i of
           (Some e, c') \<Rightarrow> (Some e, r, c')
         | (None, c') \<Rightarrow> remove_extra L des ids (r\<lparr>rec_removed := rec_removed r @ [i]\<rparr>, c'))
      else remove_extra L des ids (r, c))"

definition desiredByID :: "raft_peer list \<Rightarrow> (string, raft_peer) kv" where
  "desiredByID desired = fold (\<lambda>p m. if rp_ID p \<noteq> [] then kv_put (rp_ID p) p m else m) desired []"

definition no_changes :: reconciled where
  "no_changes = \<lparr>rec_added = [], rec_updated = [], rec_removed = []\<rparr>"

text \<open>\<open>range_add\<close>, \<open>range_update\<close> and \<open>range_remove\<close> order the identifiers of the maps that the loops range over.\<close>

type_synonym range_order = "string list \<Rightarrow> string list"

definition ReconcileMembership ::
  "netlib \<Rightarrow> raft_lib \<Rightarrow> range_order \<times> range_order \<times> range_order \<Rightarrow> raft_peer list \<Rightarrow> membership result \<Rightarrow> membership \<Rightarrow>
     error option \<times> reconciled \<times> membership" where
  "ReconcileMembership N L ord desired current c0 = (case ord of (range_add, range_update, range_remove) \<Rightarrow>
     case current of
       Inl e \<Rightarrow> (Some e, no_changes, c0)
     | Inr cur \<Rightarrow> (let des = desiredByID desired in
        case add_missing N L cur des (range_add (kv_keys des)) (no_changes, c0) of
          (Some e, st) \<Rightarrow> (Some e, st)
        | (None, st1) \<Rightarrow>
        (case update_addresses N L cur des (range_update (kv_keys des)) st1 of
          (Some e, st) \<Rightarrow> (Some e, st)
        | (None, st2) \<Rightarrow> remove_extra L des (range_remove (kv_keys cur)) st2)))"

text \<open>One tick of the join loop: whether the node leads, the error of reading the configuration, the library and
  the orders of the ranges. \<open>StartJoinLoop\<close> takes the ticks as a list.\<close>

record join_tick =
  jt_leader :: bool
  jt_conf :: "error option"
  jt_lib :: raft_lib
  jt_order :: "range_order \<times> range_order \<times> range_order"

definition join_step :: "netlib \<Rightarrow> peer_resolver \<Rightarrow> join_tick \<Rightarrow> membership \<Rightarrow> error option \<times> membership" where
  "join_step N r t c =
     (if \<not> jt_leader t then (None, c)
      else (case Resolve N r of
          Inl e \<Rightarrow> (Some e, c)
        | Inr desired \<Rightarrow>
            (case ReconcileMembership N (jt_lib t) (jt_order t) desired (case jt_conf t of None \<Rightarrow> Inr c | Some e \<Rightarrow> Inl e) c of
               (e, _, c') \<Rightarrow> (e, c'))))"

fun StartJoinLoop :: "netlib \<Rightarrow> peer_resolver option \<Rightarrow> join_tick list \<Rightarrow> membership \<Rightarrow> membership" where
  "StartJoinLoop N None ts c = c"
| "StartJoinLoop N (Some r) [] c = c"
| "StartJoinLoop N (Some r) (t # ts) c = StartJoinLoop N (Some r) ts (snd (join_step N r t c))"

section \<open>Readiness\<close>

text \<open>\<open>stats\<close> are the statistics of the Raft library; a missing key reads as the empty string.
  \<open>parseDuration\<close> is \<open>time.ParseDuration\<close>.\<close>

definition cleanStateFromStats :: "(string \<Rightarrow> duration option) \<Rightarrow> (string \<Rightarrow> string) \<Rightarrow> bool" where
  "cleanStateFromStats parseDuration stats =
     (let state = stats ''state'' in
      if state \<noteq> ''Leader'' \<and> state \<noteq> ''Follower'' then False
      else if stats ''commit_index'' \<noteq> stats ''applied_index'' then False
      else if stats ''fsm_pending'' \<noteq> ''0'' then False
      else if state = ''Follower'' \<and> stats ''commit_index'' = ''0'' then False
      else if state = ''Follower'' then
        (if stats ''last_contact'' = ''never'' \<or> stats ''last_contact'' = [] then False
         else (case parseDuration (stats ''last_contact'') of None \<Rightarrow> False | Some d \<Rightarrow> d \<le> 15 * Second))
      else True)"

definition IsVoter :: "raft_server list result \<Rightarrow> string \<Rightarrow> bool" where
  "IsVoter cfg nodeID = (case cfg of Inl _ \<Rightarrow> False | Inr servers \<Rightarrow> list_ex (\<lambda>s. sv_ID s = nodeID \<and> sv_Voter s) servers)"

definition IsStarted :: "bool \<Rightarrow> raft_server list result \<Rightarrow> string \<Rightarrow> bool" where
  "IsStarted isLeader cfg nodeID \<longleftrightarrow> isLeader \<or> IsVoter cfg nodeID"

text \<open>\<open>transfer\<close> is the result of the leadership transfer, \<open>notLeader\<close> the library's sentinel error.\<close>

definition StepDown :: "raft_server list result \<Rightarrow> string \<Rightarrow> error \<Rightarrow> error option \<Rightarrow> error option" where
  "StepDown cfg nodeID notLeader transfer = (case cfg of
       Inl e \<Rightarrow> Some e
     | Inr servers \<Rightarrow>
        (if filter (\<lambda>s. sv_Voter s \<and> sv_ID s \<noteq> nodeID) servers = [] then None
         else (case transfer of None \<Rightarrow> None | Some e \<Rightarrow> (if e = notLeader then None else Some e))))"

section \<open>One node seeds the cluster\<close>

lemma ParseInt_Itoa: "0 \<le> n \<Longrightarrow> n < 9223372036854775808 \<Longrightarrow> ParseInt (Itoa n) = Inr n"
proof -
  assume n: "0 \<le> n" "n < 9223372036854775808"
  have d: "is_digit (hd (show_nat (nat n)))" using hd_show_digit [of "nat n" "[]"] by simp
  then have "\<not> prefix ''-'' (show_nat (nat n))" "\<not> prefix ''+'' (show_nat (nat n))"
    by (cases "show_nat (nat n)"; auto simp: is_digit_def less_eq_char_def)+
  then show ?thesis using n by (simp add: ParseInt_def Itoa_def show_nat_not_Nil show_nat_digits dec_val_show)
qed

lemma Itoa_inj: "Itoa (int i) = Itoa (int j) \<Longrightarrow> i = j"
  unfolding Itoa_def by (metis dec_val_show nat_int of_nat_less_0_iff)

lemma pod_name_inj: "pod_name cfg i = pod_name cfg j \<longleftrightarrow> i = j"
  by (auto simp: pod_name_def dest: Itoa_inj)

lemma podOrdinal_pod: "dc_StatefulSetName cfg \<noteq> [] \<Longrightarrow> int i < 9223372036854775808 \<Longrightarrow>
    podOrdinal (pod_name cfg i) (dc_StatefulSetName cfg) = Some (int i)"
proof -
  assume n: "dc_StatefulSetName cfg \<noteq> []" "int i < 9223372036854775808"
  let ?p = "dc_StatefulSetName cfg @ ''-''"
  have e: "pod_name cfg i = ?p @ Itoa (int i)" by (simp add: pod_name_def)
  have p: "HasPrefix (pod_name cfg i) ?p" "TrimPrefix (pod_name cfg i) ?p = Itoa (int i)" unfolding e by (rule HasPrefix_append TrimPrefix_append)+
  have "Itoa (int i) \<noteq> []" using Itoa_length [of "int i"] by (metis list.size(3) not_one_le_zero)
  then show ?thesis using n p by (simp add: podOrdinal_def ParseInt_Itoa)
qed

text \<open>The pods of a StatefulSet share one configuration and differ in their host name. Pod 0, and no other pod,
  seeds the cluster, and the identifier of a node is its pod's name; this holds of pods beyond the configured
  number of replicas too.\<close>

theorem pod_zero_bootstraps:
  assumes "dc_Peers cfg = []" "dc_StatefulSetName cfg \<noteq> []" "dc_HeadlessService cfg \<noteq> []" "dc_Namespace cfg \<noteq> []"
    "1 \<le> dc_Replicas cfg" "int i < 9223372036854775808"
  shows "resolveBootstrapState N (pod_name cfg i) [] (NewPeerResolver cfg) = Inr (pod_name cfg i, i = 0)"
proof -
  let ?p = "\<lambda>i. \<lparr>rp_ID = pod_name cfg i, rp_Address = podAddress N cfg (clusterDomain cfg) (pod_name cfg i)\<rparr>"
  have "Resolve N (NewPeerResolver cfg) = Inr (map ?p [0..<nat (dc_Replicas cfg)])"
    using assms by (simp add: Resolve_def NewPeerResolver_def dns_Resolve_def)
  moreover have "Self N (pod_name cfg i) (NewPeerResolver cfg) = Inr (?p i)"
    using assms podOrdinal_pod [of cfg i] by (simp add: Self_def NewPeerResolver_def selfFor_def)
  moreover have "[0..<nat (dc_Replicas cfg)] = 0 # [1..<nat (dc_Replicas cfg)]" using assms(5) by (simp add: upt_rec)
  moreover have "pod_name cfg i \<noteq> []" by (simp add: pod_name_def)
  ultimately show ?thesis by (simp add: resolveBootstrapState_def pod_name_inj)
qed

definition demo_discovery :: discovery_config where
  "demo_discovery = \<lparr>dc_NodeID = [], dc_AdvertiseAddr = [], dc_BindAddr = '':6001'', dc_Peers = [], dc_Replicas = 3,
     dc_StatefulSetName = ''ghb'', dc_HeadlessService = ''ghb-raft'', dc_Namespace = ''hooks'', dc_ClusterDomain = [],
     dc_RaftPort = 6001\<rparr>"

theorem pod_zero_bootstraps_witness:
  "resolveBootstrapState demo_net (pod_name demo_discovery 0) [] (NewPeerResolver demo_discovery) = Inr (pod_name demo_discovery 0, True) \<and>
   resolveBootstrapState demo_net (pod_name demo_discovery 2) [] (NewPeerResolver demo_discovery) = Inr (pod_name demo_discovery 2, False)"
  using pod_zero_bootstraps [of demo_discovery 0 demo_net] pod_zero_bootstraps [of demo_discovery 2 demo_net]
  by (simp add: demo_discovery_def)

text \<open>The two forms of explicit peers: the list of all nodes, the same on every node, or, on each node, the list
  of the others.\<close>

definition full_config :: "discovery_config \<Rightarrow> raft_peer list \<Rightarrow> raft_peer \<Rightarrow> discovery_config" where
  "full_config base ps self = base\<lparr>dc_Peers := ps, dc_NodeID := rp_ID self, dc_AdvertiseAddr := rp_Address self\<rparr>"

definition others_config :: "discovery_config \<Rightarrow> raft_peer list \<Rightarrow> raft_peer \<Rightarrow> discovery_config" where
  "others_config base ps self = base\<lparr>dc_Peers := filter (\<lambda>p. p \<noteq> self) ps, dc_NodeID := rp_ID self, dc_AdvertiseAddr := rp_Address self\<rparr>"

definition valid_peers :: "raft_peer list \<Rightarrow> bool" where
  "valid_peers ps \<longleftrightarrow> distinct (map rp_ID ps) \<and> distinct (map rp_Address ps) \<and> (\<forall>p \<in> set ps. rp_ID p \<noteq> [] \<and> rp_Address p \<noteq> [])"

lemma valid_peers_inj: "valid_peers ps \<Longrightarrow> p \<in> set ps \<Longrightarrow> q \<in> set ps \<Longrightarrow> (rp_ID p = rp_ID q \<longleftrightarrow> p = q) \<and> (rp_Address p = rp_Address q \<longleftrightarrow> p = q)"
  unfolding valid_peers_def distinct_map by (metis inj_onD)

lemma find_unique: "x \<in> set xs \<Longrightarrow> P x \<Longrightarrow> (\<And>y. y \<in> set xs \<Longrightarrow> P y \<Longrightarrow> y = x) \<Longrightarrow> find P xs = Some x"
proof (induction xs)
  case (Cons a xs)
  show ?case
  proof (cases "P a")
    case True
    then show ?thesis using Cons.prems(3) [of a] by simp
  next
    case False
    then have "x \<in> set xs" using Cons.prems(1,2) by auto
    then have "find P xs = Some x" using Cons.prems(2) by (rule Cons.IH) (rule Cons.prems(3), simp_all)
    then show ?thesis using False by simp
  qed
qed simp

lemma sorted_map_hd: "sorted (map f xs) \<Longrightarrow> x \<in> set xs \<Longrightarrow> f (hd xs) \<le> f x"
  by (cases xs) auto

lemma hd_sort_key: "xs \<noteq> [] \<Longrightarrow> x \<in> set xs \<Longrightarrow> f (hd (sort_key f xs)) \<le> f x"
proof -
  assume "xs \<noteq> []" "x \<in> set xs"
  then have "x \<in> set (sort_key f xs)" by simp
  then show ?thesis using sorted_sort_key [of f xs] sorted_map_hd [of f "sort_key f xs" x] by simp
qed

lemma full_list_first:
  assumes "valid_peers ps" "self \<in> set ps"
  shows "resolveBootstrapState N host (rp_ID self) (NewPeerResolver (full_config base ps self)) = Inr (rp_ID self, self = hd ps)"
proof -
  have "find (\<lambda>p. rp_ID p = rp_ID self) ps = Some self"
    using assms valid_peers_inj by (intro find_unique) auto
  then have "matchSelf (full_config base ps self) = Inr self"
    using assms by (auto simp: matchSelf_def full_config_def valid_peers_def)
  moreover have "ps \<noteq> []" "rp_ID self \<noteq> []" "hd ps \<in> set ps"
    using assms list.set_sel(1) [of ps] by (fastforce simp: valid_peers_def)+
  ultimately show ?thesis using assms valid_peers_inj [of ps self "hd ps"]
    by (simp add: resolveBootstrapState_def NewPeerResolver_def Resolve_def Self_def static_Resolve_def static_Self_def)
      (simp add: full_config_def)
qed

lemma others_list_least:
  assumes "valid_peers ps" "self \<in> set ps" "2 \<le> length ps"
  shows "resolveBootstrapState N host (rp_ID self) (NewPeerResolver (others_config base ps self)) =
           Inr (rp_ID self, \<forall>p \<in> set ps. rp_ID self \<le> rp_ID p)"
proof -
  let ?c = "others_config base ps self" and ?os = "filter (\<lambda>p. p \<noteq> self) ps"
  let ?all = "sort_key rp_ID (?os @ [self])"
  have ids: "rp_ID self \<noteq> []" "rp_Address self \<noteq> []" using assms by (auto simp: valid_peers_def)
  have no: "find (\<lambda>p. rp_ID p = rp_ID self) ?os = None" "find (\<lambda>p. rp_Address p = rp_Address self) ?os = None"
    using assms valid_peers_inj by (auto simp: find_None_iff)
  then have m: "\<exists>e. matchSelf ?c = Inl e" using ids by (simp add: matchSelf_def others_config_def)
  have syn: "synthesizeSelf N ?c = Inr self" using ids by (simp add: synthesizeSelf_def others_config_def)
  have "\<exists>q \<in> set ps. q \<noteq> self"
  proof (rule ccontr)
    assume "\<not> ?thesis"
    then have "set ps \<subseteq> {self}" by auto
    moreover have "card (set ps) = length ps" using assms(1) distinct_card distinct_map by (auto simp: valid_peers_def)
    ultimately show False using assms(3) card_mono [of "{self}" "set ps"] by simp
  qed
  then have ne: "?os \<noteq> []" by (auto simp: filter_empty_conv)
  have R: "Resolve N (NewPeerResolver ?c) = Inr ?all" "Self N host (NewPeerResolver ?c) = Inr self"
    using m ne syn by (auto simp: NewPeerResolver_def others_config_def Resolve_def Self_def static_Resolve_def static_Self_def)
  have "?all \<noteq> []" by (metis length_0_conv length_sort snoc_eq_iff_butlast)
  then have h: "hd ?all \<in> set ps" using list.set_sel(1) [of ?all] assms(2) by auto
  have "rp_ID self = rp_ID (hd ?all) \<longleftrightarrow> (\<forall>p \<in> set ps. rp_ID self \<le> rp_ID p)"
  proof
    assume "rp_ID self = rp_ID (hd ?all)"
    moreover have "rp_ID (hd ?all) \<le> rp_ID p" if "p \<in> set ps" for p by (rule hd_sort_key) (use that in auto)
    ultimately show "\<forall>p \<in> set ps. rp_ID self \<le> rp_ID p" by metis
  next
    assume "\<forall>p \<in> set ps. rp_ID self \<le> rp_ID p"
    then have "rp_ID self \<le> rp_ID (hd ?all)" using h by blast
    moreover have "rp_ID (hd ?all) \<le> rp_ID self" by (rule hd_sort_key) auto
    ultimately show "rp_ID self = rp_ID (hd ?all)" by (rule antisym)
  qed
  then show ?thesis using R ids \<open>?all \<noteq> []\<close> by (simp add: resolveBootstrapState_def)
qed

text \<open>With explicit peers exactly one node of the list seeds the cluster, whichever of the two forms the
  configurations use.\<close>

theorem static_peers_one_bootstraps:
  assumes "valid_peers ps" "2 \<le> length ps"
  shows "(\<exists>!s. s \<in> set ps \<and>
      resolveBootstrapState N host (rp_ID s) (NewPeerResolver (full_config base ps s)) = Inr (rp_ID s, True)) \<and>
    (\<exists>!s. s \<in> set ps \<and>
      resolveBootstrapState N host (rp_ID s) (NewPeerResolver (others_config base ps s)) = Inr (rp_ID s, True))"
proof (intro conjI)
  have "ps \<noteq> []" using assms(2) by auto
  then show "\<exists>!s. s \<in> set ps \<and>
      resolveBootstrapState N host (rp_ID s) (NewPeerResolver (full_config base ps s)) = Inr (rp_ID s, True)"
    using full_list_first [OF assms(1)] by (intro ex1I [of _ "hd ps"]) auto
  obtain m where m: "m \<in> set ps" "rp_ID m = Min (rp_ID ` set ps)"
    using Min_in [of "rp_ID ` set ps"] \<open>ps \<noteq> []\<close> by (metis List.finite_set finite_imageI image_iff image_is_empty set_empty)
  have le: "rp_ID m \<le> rp_ID p" if "p \<in> set ps" for p using m(2) that by simp
  show "\<exists>!s. s \<in> set ps \<and>
      resolveBootstrapState N host (rp_ID s) (NewPeerResolver (others_config base ps s)) = Inr (rp_ID s, True)"
  proof (rule ex1I [of _ m])
    show "m \<in> set ps \<and> resolveBootstrapState N host (rp_ID m) (NewPeerResolver (others_config base ps m)) = Inr (rp_ID m, True)"
      using others_list_least [OF assms(1) m(1) assms(2)] le m(1) by simp
  next
    fix s assume s: "s \<in> set ps \<and> resolveBootstrapState N host (rp_ID s) (NewPeerResolver (others_config base ps s)) = Inr (rp_ID s, True)"
    then have "rp_ID s \<le> rp_ID m" using others_list_least [OF assms(1) _ assms(2), of s] m(1) by simp
    then show "s = m" using le [of s] s m(1) valid_peers_inj [OF assms(1)] by (metis antisym)
  qed
qed

definition demo_peers :: "raft_peer list" where
  "demo_peers = [\<lparr>rp_ID = ''n2'', rp_Address = ''b:6001''\<rparr>, \<lparr>rp_ID = ''n1'', rp_Address = ''a:6001''\<rparr>]"

theorem static_peers_one_bootstraps_witness:
  "valid_peers demo_peers \<and> 2 \<le> length demo_peers \<and>
   (\<exists>!s. s \<in> set demo_peers \<and>
      resolveBootstrapState demo_net [] (rp_ID s) (NewPeerResolver (others_config demo_discovery demo_peers s)) = Inr (rp_ID s, True))"
proof -
  have "valid_peers demo_peers \<and> 2 \<le> length demo_peers" by code_simp
  then show ?thesis using static_peers_one_bootstraps [of demo_peers demo_net "[]" demo_discovery] by blast
qed

text \<open>A node that cannot tell which peer it is seeds a cluster of its own.\<close>

lemma unidentified_node_bootstraps:
  "Resolve N r = Inr ps \<Longrightarrow> Self N host r = Inl e \<Longrightarrow> resolveBootstrapState N host i r = Inr (if i = [] then ''node1'' else i, True)"
  by (simp add: resolveBootstrapState_def)

section \<open>Reconciling the membership\<close>

text \<open>What the Raft library promises of a membership change: a call that succeeds makes the change, and one that
  fails may have made it or not, but concerns no other server.\<close>

definition membership_lib :: "raft_lib \<Rightarrow> bool" where
  "membership_lib L \<longleftrightarrow>
     (\<forall>c i a e c'. rl_add L c i a = (e, c') \<longrightarrow>
        (e = None \<longrightarrow> kv_get c' i = Some a) \<and> (\<forall>j. j \<noteq> i \<longrightarrow> kv_get c' j = kv_get c j)) \<and>
     (\<forall>c i e c'. rl_remove L c i = (e, c') \<longrightarrow>
        (e = None \<longrightarrow> kv_get c' i = None) \<and> (\<forall>j. j \<noteq> i \<longrightarrow> kv_get c' j = kv_get c j))"

definition orders_ids :: "range_order \<times> range_order \<times> range_order \<Rightarrow> bool" where
  "orders_ids ord \<longleftrightarrow> (case ord of (f, g, h) \<Rightarrow> \<forall>ids. set (f ids) = set ids \<and> set (g ids) = set ids \<and> set (h ids) = set ids)"

lemma lib_add:
  "membership_lib L \<Longrightarrow> rl_add L c i a = (None, c') \<Longrightarrow> kv_get c' j = (if j = i then Some a else kv_get c j)"
  "membership_lib L \<Longrightarrow> rl_add L c i a = (e, c') \<Longrightarrow> j \<noteq> i \<Longrightarrow> kv_get c' j = kv_get c j"
  by (auto simp: membership_lib_def)

lemma lib_remove:
  "membership_lib L \<Longrightarrow> rl_remove L c i = (None, c') \<Longrightarrow> kv_get c' j = (if j = i then None else kv_get c j)"
  "membership_lib L \<Longrightarrow> rl_remove L c i = (e, c') \<Longrightarrow> j \<noteq> i \<Longrightarrow> kv_get c' j = kv_get c j"
  by (auto simp: membership_lib_def)

text \<open>Which servers each loop touches.\<close>

definition to_add :: "netlib \<Rightarrow> raft_lib \<Rightarrow> membership \<Rightarrow> (string, raft_peer) kv \<Rightarrow> string \<Rightarrow> bool" where
  "to_add N L cur des i = (case kv_get des i of None \<Rightarrow> False | Some p \<Rightarrow> kv_get cur i = None \<and> peerResolvable N L p)"

definition to_update :: "netlib \<Rightarrow> raft_lib \<Rightarrow> membership \<Rightarrow> (string, raft_peer) kv \<Rightarrow> string \<Rightarrow> bool" where
  "to_update N L cur des i = (case (kv_get cur i, kv_get des i) of
       (Some a, Some p) \<Rightarrow> addrChanged N L a (rp_Address p) \<and> peerResolvable N L p | _ \<Rightarrow> False)"

definition to_remove :: "(string, raft_peer) kv \<Rightarrow> string \<Rightarrow> bool" where
  "to_remove des i \<longleftrightarrow> kv_get des i = None"

definition peer_addr :: "(string, raft_peer) kv \<Rightarrow> string \<Rightarrow> string" where
  "peer_addr des i = (case kv_get des i of None \<Rightarrow> [] | Some p \<Rightarrow> rp_Address p)"

lemmas to_defs = to_add_def to_update_def to_remove_def peer_addr_def

lemma add_missing_Cons:
  "add_missing N L cur des (i # ids) (r, c) =
     (if to_add N L cur des i then
        (case rl_add L c i (peer_addr des i) of
           (Some e, c') \<Rightarrow> (Some e, r, c')
         | (None, c') \<Rightarrow> add_missing N L cur des ids (r\<lparr>rec_added := rec_added r @ [i]\<rparr>, c'))
      else add_missing N L cur des ids (r, c))"
  by (simp add: to_defs split: option.split)

lemma update_addresses_Cons:
  "update_addresses N L cur des (i # ids) (r, c) =
     (if to_update N L cur des i then
        (case rl_remove L c i of
           (Some e, c1) \<Rightarrow> (Some e, r, c1)
         | (None, c1) \<Rightarrow> (case rl_add L c1 i (peer_addr des i) of
             (Some e, c2) \<Rightarrow> (Some e, r, c2)
           | (None, c2) \<Rightarrow> update_addresses N L cur des ids (r\<lparr>rec_updated := rec_updated r @ [i]\<rparr>, c2)))
      else update_addresses N L cur des ids (r, c))"
  by (cases "kv_get cur i"; cases "kv_get des i"; simp add: to_defs split: prod.split option.split)

lemma remove_extra_Cons:
  "remove_extra L des (i # ids) (r, c) =
     (if to_remove des i then
        (case rl_remove L c i of
           (Some e, c') \<Rightarrow> (Some e, r, c')
         | (None, c') \<Rightarrow> remove_extra L des ids (r\<lparr>rec_removed := rec_removed r @ [i]\<rparr>, c'))
      else remove_extra L des ids (r, c))"
  by (simp add: to_defs)

lemmas loop_Cons = add_missing_Cons update_addresses_Cons remove_extra_Cons

lemma loops_idle:
  "(\<And>i. i \<in> set ids \<Longrightarrow> \<not> to_add N L cur des i) \<Longrightarrow> add_missing N L cur des ids st = (None, st)"
  "(\<And>i. i \<in> set ids \<Longrightarrow> \<not> to_update N L cur des i) \<Longrightarrow> update_addresses N L cur des ids st = (None, st)"
  "(\<And>i. i \<in> set ids \<Longrightarrow> \<not> to_remove des i) \<Longrightarrow> remove_extra L des ids st = (None, st)"
  by (cases st; induction ids; simp add: loop_Cons del: add_missing.simps(2) update_addresses.simps(2) remove_extra.simps(2))+

lemma add_missing_ok:
  "membership_lib L \<Longrightarrow> add_missing N L cur des ids (r, c) = (None, r', c') \<Longrightarrow>
     r' = r\<lparr>rec_added := rec_added r @ filter (to_add N L cur des) ids\<rparr> \<and>
     kv_get c' j = (if j \<in> set ids \<and> to_add N L cur des j then Some (peer_addr des j) else kv_get c j)"
proof (induction ids arbitrary: r c)
  case (Cons i ids)
  show ?case
  proof (cases "to_add N L cur des i")
    case True
    then obtain c1 where a: "rl_add L c i (peer_addr des i) = (None, c1)"
      and b: "add_missing N L cur des ids (r\<lparr>rec_added := rec_added r @ [i]\<rparr>, c1) = (None, r', c')"
      using Cons.prems(2) by (auto simp: add_missing_Cons split: prod.splits option.splits simp del: add_missing.simps)
    show ?thesis using Cons.IH [OF Cons.prems(1) b] lib_add(1) [OF Cons.prems(1) a, of j] True by auto
  next
    case False
    then have b: "add_missing N L cur des ids (r, c) = (None, r', c')" using Cons.prems(2) by (simp only: add_missing_Cons if_False)
    show ?thesis using Cons.IH [OF Cons.prems(1) b] False by auto
  qed
qed simp

lemma update_addresses_ok:
  "membership_lib L \<Longrightarrow> update_addresses N L cur des ids (r, c) = (None, r', c') \<Longrightarrow>
     r' = r\<lparr>rec_updated := rec_updated r @ filter (to_update N L cur des) ids\<rparr> \<and>
     kv_get c' j = (if j \<in> set ids \<and> to_update N L cur des j then Some (peer_addr des j) else kv_get c j)"
proof (induction ids arbitrary: r c)
  case (Cons i ids)
  show ?case
  proof (cases "to_update N L cur des i")
    case True
    then obtain c1 c2 where a: "rl_remove L c i = (None, c1)" "rl_add L c1 i (peer_addr des i) = (None, c2)"
      and b: "update_addresses N L cur des ids (r\<lparr>rec_updated := rec_updated r @ [i]\<rparr>, c2) = (None, r', c')"
      using Cons.prems(2) by (auto simp: update_addresses_Cons split: prod.splits option.splits simp del: update_addresses.simps)
    show ?thesis
      using Cons.IH [OF Cons.prems(1) b] lib_remove(1) [OF Cons.prems(1) a(1), of j] lib_add(1) [OF Cons.prems(1) a(2), of j] True by auto
  next
    case False
    then have b: "update_addresses N L cur des ids (r, c) = (None, r', c')" using Cons.prems(2) by (simp only: update_addresses_Cons if_False)
    show ?thesis using Cons.IH [OF Cons.prems(1) b] False by auto
  qed
qed simp

lemma remove_extra_ok:
  "membership_lib L \<Longrightarrow> remove_extra L des ids (r, c) = (None, r', c') \<Longrightarrow>
     r' = r\<lparr>rec_removed := rec_removed r @ filter (to_remove des) ids\<rparr> \<and>
     kv_get c' j = (if j \<in> set ids \<and> to_remove des j then None else kv_get c j)"
proof (induction ids arbitrary: r c)
  case (Cons i ids)
  show ?case
  proof (cases "to_remove des i")
    case True
    then obtain c1 where a: "rl_remove L c i = (None, c1)"
      and b: "remove_extra L des ids (r\<lparr>rec_removed := rec_removed r @ [i]\<rparr>, c1) = (None, r', c')"
      using Cons.prems(2) by (auto simp: remove_extra_Cons split: prod.splits option.splits simp del: remove_extra.simps)
    show ?thesis using Cons.IH [OF Cons.prems(1) b] lib_remove(1) [OF Cons.prems(1) a, of j] True by auto
  next
    case False
    then have b: "remove_extra L des ids (r, c) = (None, r', c')" using Cons.prems(2) by (simp only: remove_extra_Cons if_False)
    show ?thesis using Cons.IH [OF Cons.prems(1) b] False by auto
  qed
qed simp

text \<open>A server that no loop is to touch keeps its entry, also when a call fails.\<close>

lemma add_missing_keeps:
  "membership_lib L \<Longrightarrow> \<not> to_add N L cur des j \<Longrightarrow> add_missing N L cur des ids (r, c) = (e, r', c') \<Longrightarrow> kv_get c' j = kv_get c j"
proof (induction ids arbitrary: r c)
  case (Cons i ids)
  show ?case
  proof (cases "to_add N L cur des i")
    case True
    obtain e1 c1 where a: "rl_add L c i (peer_addr des i) = (e1, c1)" by fastforce
    have "kv_get c1 j = kv_get c j" using lib_add(2) [OF Cons.prems(1) a, of j] True Cons.prems(2) by auto
    then show ?thesis using Cons.IH [OF Cons.prems(1,2)] Cons.prems(3) True a
      by (cases e1) (auto simp: add_missing_Cons simp del: add_missing.simps)
  next
    case False
    then show ?thesis using Cons.IH [OF Cons.prems(1,2)] Cons.prems(3) by (simp only: add_missing_Cons if_False)
  qed
qed simp

lemma update_addresses_keeps:
  "membership_lib L \<Longrightarrow> \<not> to_update N L cur des j \<Longrightarrow> update_addresses N L cur des ids (r, c) = (e, r', c') \<Longrightarrow> kv_get c' j = kv_get c j"
proof (induction ids arbitrary: r c)
  case (Cons i ids)
  show ?case
  proof (cases "to_update N L cur des i")
    case True
    obtain e1 c1 where a: "rl_remove L c i = (e1, c1)" by fastforce
    obtain e2 c2 where b: "rl_add L c1 i (peer_addr des i) = (e2, c2)" by fastforce
    have "j \<noteq> i" using True Cons.prems(2) by auto
    then have "kv_get c1 j = kv_get c j" "kv_get c2 j = kv_get c1 j"
      using lib_remove(2) [OF Cons.prems(1) a] lib_add(2) [OF Cons.prems(1) b] by simp_all
    then show ?thesis using Cons.IH [OF Cons.prems(1,2)] Cons.prems(3) True a b
      by (cases e1; cases e2) (auto simp: update_addresses_Cons simp del: update_addresses.simps)
  next
    case False
    then show ?thesis using Cons.IH [OF Cons.prems(1,2)] Cons.prems(3) by (simp only: update_addresses_Cons if_False)
  qed
qed simp

lemma remove_extra_keeps:
  "membership_lib L \<Longrightarrow> \<not> to_remove des j \<Longrightarrow> remove_extra L des ids (r, c) = (e, r', c') \<Longrightarrow> kv_get c' j = kv_get c j"
proof (induction ids arbitrary: r c)
  case (Cons i ids)
  show ?case
  proof (cases "to_remove des i")
    case True
    obtain e1 c1 where a: "rl_remove L c i = (e1, c1)" by fastforce
    have "kv_get c1 j = kv_get c j" using lib_remove(2) [OF Cons.prems(1) a, of j] True Cons.prems(2) by auto
    then show ?thesis using Cons.IH [OF Cons.prems(1,2)] Cons.prems(3) True a
      by (cases e1) (auto simp: remove_extra_Cons simp del: remove_extra.simps)
  next
    case False
    then show ?thesis using Cons.IH [OF Cons.prems(1,2)] Cons.prems(3) by (simp only: remove_extra_Cons if_False)
  qed
qed simp

text \<open>The membership that the reconciliation aims at: every desired server that is not a member and whose name
  resolves joins, a member moves to its new address when that resolves, and a server that is not desired
  leaves.\<close>

definition reconcile_goal :: "netlib \<Rightarrow> raft_lib \<Rightarrow> raft_peer list \<Rightarrow> membership \<Rightarrow> string \<Rightarrow> string option" where
  "reconcile_goal N L desired cur i = (case kv_get (desiredByID desired) i of
       None \<Rightarrow> None
     | Some p \<Rightarrow> (case kv_get cur i of
         None \<Rightarrow> (if peerResolvable N L p then Some (rp_Address p) else None)
       | Some a \<Rightarrow> (if addrChanged N L a (rp_Address p) \<and> peerResolvable N L p then Some (rp_Address p) else Some a)))"

lemma reconcile_ok:
  assumes "membership_lib L" "orders_ids ord" "ReconcileMembership N L ord desired (Inr cur) cur = (None, r, c)"
  shows "kv_get c i = reconcile_goal N L desired cur i"
proof -
  let ?des = "desiredByID desired"
  obtain f g h where o3: "ord = (f, g, h)" by (cases ord)
  have sets: "set (f ids) = set ids" "set (g ids) = set ids" "set (h ids) = set ids" for ids
    using assms(2) by (auto simp: orders_ids_def o3)
  obtain r1 c1 r2 c2 where
    1: "add_missing N L cur ?des (f (kv_keys ?des)) (no_changes, cur) = (None, r1, c1)" and
    2: "update_addresses N L cur ?des (g (kv_keys ?des)) (r1, c1) = (None, r2, c2)" and
    3: "remove_extra L ?des (h (kv_keys cur)) (r2, c2) = (None, r, c)"
    using assms(3) by (auto simp: ReconcileMembership_def o3 Let_def split: prod.splits option.splits)
  note add_missing_ok [OF assms(1) 1, THEN conjunct2, of i] update_addresses_ok [OF assms(1) 2, THEN conjunct2, of i]
    remove_extra_ok [OF assms(1) 3, THEN conjunct2, of i]
  then show ?thesis
    by (cases "kv_get ?des i"; cases "kv_get cur i"; simp add: sets kv_mem_keys reconcile_goal_def to_defs)
qed

lemma reconcile_idle:
  assumes "orders_ids ord" "\<And>i. kv_get c i = reconcile_goal N L desired cur i"
  shows "ReconcileMembership N L ord desired (Inr c) c = (None, no_changes, c)"
proof -
  let ?des = "desiredByID desired"
  have no: "\<not> to_add N L c ?des i" "\<not> to_update N L c ?des i" "kv_get c i \<noteq> None \<Longrightarrow> \<not> to_remove ?des i" for i
    using assms(2) [of i]
    by (cases "kv_get ?des i"; cases "kv_get cur i"; simp add: reconcile_goal_def to_defs addrChanged_def split: if_splits)+
  obtain f g h where o3: "ord = (f, g, h)" by (cases ord)
  have "set (h ids) = set ids" for ids using assms(1) by (auto simp: orders_ids_def o3)
  then have "\<not> to_remove ?des i" if "i \<in> set (h (kv_keys c))" for i using no(3) [of i] that by (simp add: kv_mem_keys)
  then show ?thesis using no by (simp add: ReconcileMembership_def o3 Let_def loops_idle)
qed

lemma reconcile_keeps:
  assumes "membership_lib L" "ReconcileMembership N L ord desired (Inr cur) cur = (e, r, c)"
    "kv_get (desiredByID desired) i \<noteq> None" "\<not> to_add N L cur (desiredByID desired) i" "\<not> to_update N L cur (desiredByID desired) i"
  shows "kv_get c i = kv_get cur i"
proof -
  let ?des = "desiredByID desired"
  have nr: "\<not> to_remove ?des i" using assms(3) by (simp add: to_remove_def)
  obtain f g h where o3: "ord = (f, g, h)" by (cases ord)
  obtain e1 r1 c1 where 1: "add_missing N L cur ?des (f (kv_keys ?des)) (no_changes, cur) = (e1, r1, c1)" by (metis prod_cases3)
  obtain e2 r2 c2 where 2: "update_addresses N L cur ?des (g (kv_keys ?des)) (r1, c1) = (e2, r2, c2)" by (metis prod_cases3)
  obtain e3 r3 c3 where 3: "remove_extra L ?des (h (kv_keys cur)) (r2, c2) = (e3, r3, c3)" by (metis prod_cases3)
  have "c \<in> {c1, c2, c3}" using assms(2) 1 2 3 by (cases e1; cases e2) (auto simp: ReconcileMembership_def o3 Let_def)
  then show ?thesis
    using add_missing_keeps [OF assms(1,4) 1] update_addresses_keeps [OF assms(1,5) 2] remove_extra_keeps [OF assms(1) nr 3] by auto
qed

text \<open>C32: When it succeeds the reconciliation reaches its goal, whatever the order in which it visits the servers,
  and a second one changes nothing and calls nothing. Whether it succeeds or not, a member that is wanted and
  whose address is current keeps its entry, and so does one whose name does not resolve; a server whose name
  does not resolve is not added.\<close>

theorem reconcile_exact:
  assumes "membership_lib L" "orders_ids ord" "ReconcileMembership N L ord desired (Inr cur) cur = (e, r, c)"
  shows "(e = None \<longrightarrow> (\<forall>i. kv_get c i = reconcile_goal N L desired cur i) \<and>
            (\<forall>ord'. orders_ids ord' \<longrightarrow> ReconcileMembership N L ord' desired (Inr c) c = (None, no_changes, c))) \<and>
         (\<forall>i p. kv_get (desiredByID desired) i = Some p \<and>
            (\<not> peerResolvable N L p \<or> (\<exists>a. kv_get cur i = Some a \<and> \<not> addrChanged N L a (rp_Address p))) \<longrightarrow>
            kv_get c i = kv_get cur i)"
proof (intro conjI allI impI)
  show ok: "kv_get c i = reconcile_goal N L desired cur i" if "e = None" for i
    using reconcile_ok [OF assms(1,2)] assms(3) that by simp
  show "ReconcileMembership N L ord' desired (Inr c) c = (None, no_changes, c)" if "e = None" "orders_ids ord'" for ord'
    using reconcile_idle [OF that(2) ok] that(1) by simp
  fix i p
  assume "kv_get (desiredByID desired) i = Some p \<and>
    (\<not> peerResolvable N L p \<or> (\<exists>a. kv_get cur i = Some a \<and> \<not> addrChanged N L a (rp_Address p)))"
  then show "kv_get c i = kv_get cur i"
    by (intro reconcile_keeps [OF assms(1,3)]) (auto simp: to_defs split: option.split)
qed

definition demo_raft :: raft_lib where
  "demo_raft = \<lparr>rl_add = (\<lambda>c i a. if i = ''n9'' then (Some (ErrMsg ''timeout''), c) else (None, kv_put i a c)),
     rl_remove = (\<lambda>c i. (None, kv_del i c)), rl_lookup = (\<lambda>h. h \<noteq> ''c:6001''), rl_resolve = (\<lambda>_. None)\<rparr>"

definition demo_names :: netlib where
  "demo_names = demo_net\<lparr>net_ParseIP := (\<lambda>_. None)\<rparr>"

theorem reconcile_exact_witness:
  "\<exists>r c. ReconcileMembership demo_names demo_raft (rev, id, rev)
      (demo_peers @ [\<lparr>rp_ID = ''n3'', rp_Address = ''c:6001''\<rparr>]) (Inr [(''n0'', ''z:6001''), (''n1'', ''x:6001'')])
        [(''n0'', ''z:6001''), (''n1'', ''x:6001'')] = (None, r, c) \<and>
     kv_get c ''n0'' = None \<and> kv_get c ''n1'' = Some ''a:6001'' \<and> kv_get c ''n2'' = Some ''b:6001'' \<and> kv_get c ''n3'' = None"
proof -
  let ?cur = "[(''n0'', ''z:6001''), (''n1'', ''x:6001'')] :: membership"
  let ?d = "demo_peers @ [\<lparr>rp_ID = ''n3'', rp_Address = ''c:6001''\<rparr>]"
  have L: "membership_lib demo_raft" by (auto simp: membership_lib_def demo_raft_def kv_get_put kv_get_del split: if_splits)
  have O: "orders_ids (rev, id, rev)" by (simp add: orders_ids_def)
  obtain e r c where R: "ReconcileMembership demo_names demo_raft (rev, id, rev) ?d (Inr ?cur) ?cur = (e, r, c)" by (metis prod_cases3)
  have "fst (ReconcileMembership demo_names demo_raft (rev, id, rev) ?d (Inr ?cur) ?cur) = None" by code_simp
  then have e: "e = None" using R by simp
  then have g: "kv_get c i = reconcile_goal demo_names demo_raft ?d ?cur i" for i using reconcile_exact [OF L O R] by blast
  have "reconcile_goal demo_names demo_raft ?d ?cur ''n0'' = None \<and>
      reconcile_goal demo_names demo_raft ?d ?cur ''n1'' = Some ''a:6001'' \<and>
      reconcile_goal demo_names demo_raft ?d ?cur ''n2'' = Some ''b:6001'' \<and>
      reconcile_goal demo_names demo_raft ?d ?cur ''n3'' = None" by code_simp
  then show ?thesis using R e g by auto
qed

section \<open>The join loop\<close>

definition same_names :: "raft_lib \<Rightarrow> raft_lib \<Rightarrow> bool" where
  "same_names L L' \<longleftrightarrow> rl_lookup L = rl_lookup L' \<and> rl_resolve L = rl_resolve L'"

lemma same_names_goal: "same_names L L' \<Longrightarrow> reconcile_goal N L d c i = reconcile_goal N L' d c i"
proof -
  assume n: "same_names L L'"
  have e: "peerResolvable N L = peerResolvable N L'" "addrChanged N L = addrChanged N L'"
    using n by (simp_all add: fun_eq_iff peerResolvable_def addrChanged_def same_names_def split: option.split)
  show ?thesis unfolding reconcile_goal_def e by (rule refl)
qed

lemma join_step_idle:
  assumes "Resolve N r = Inr desired" "orders_ids (jt_order t)" "same_names L (jt_lib t)"
    "\<And>i. kv_get c i = reconcile_goal N L desired cur i"
  shows "snd (join_step N r t c) = c"
  using assms reconcile_idle [of "jt_order t" c N "jt_lib t" desired cur] same_names_goal [OF assms(3), of N desired cur]
  by (auto simp: join_step_def ReconcileMembership_def split: option.split prod.split)

lemma StartJoinLoop_idle:
  assumes "Resolve N r = Inr desired" "\<And>i. kv_get c i = reconcile_goal N L desired cur i"
  shows "(\<forall>t \<in> set ts. orders_ids (jt_order t) \<and> same_names L (jt_lib t)) \<Longrightarrow> StartJoinLoop N (Some r) ts c = c"
  using join_step_idle [OF assms(1) _ _ assms(2)] by (induction ts) auto

lemma StartJoinLoop_append:
  "StartJoinLoop N (Some r) (ts @ us) c = StartJoinLoop N (Some r) us (StartJoinLoop N (Some r) ts c)"
  by (induction ts arbitrary: c) auto


definition demo_tick :: "bool \<Rightarrow> join_tick" where
  "demo_tick leads = \<lparr>jt_leader = leads, jt_conf = None, jt_lib = demo_raft, jt_order = (rev, rev, id)\<rparr>"


end
