(* ===== verification/Assembly.thy ===== *)
theory Assembly
  imports ApiUsers Webhook Events Cluster
begin

text \<open>
  The routers of \<open>internal/server/server.go\<close>: which requests reach which handler on the internal and on the
  public listener, and through which guards. The route that the router library finds for a request of the management
  API is an argument; the paths of the other routes are matched here. The lemmas show that every change made
  through either listener has passed all guards of its route.
\<close>

section \<open>Listeners\<close>

record listenerConfig =
  lc_internalAddr :: string
  lc_publicAddr :: string

definition resolveListenerConfig :: "string \<Rightarrow> int \<Rightarrow> string \<Rightarrow> int \<Rightarrow> listenerConfig result" where
  "resolveListenerConfig address port publicAddress publicPort =
     (if port \<le> 0 then Inl (ErrMsg ''port must be greater than 0'')
      else if publicPort < 0 then Inl (ErrMsg ''public-port must be >= 0'')
      else if publicPort = port then Inl (ErrMsg ''public-port must differ from port'')
      else Inr \<lparr>lc_internalAddr = JoinHostPort address (Itoa port),
        lc_publicAddr = (if publicPort > 0 then JoinHostPort publicAddress (Itoa publicPort) else [])\<rparr>)"

definition effectivePublicAddr :: "string \<Rightarrow> int \<Rightarrow> string" where
  "effectivePublicAddr address port = JoinHostPort address (Itoa port)"

text \<open>What the process fixes when it starts, and what it knows of the cluster: the session key and the cookie
  flag, the port and scheme of the leader's listener, the address of the leader, what forwarding to it
  answers, and the two states of the node.\<close>

record server_params =
  sp_Secret :: string
  sp_Secure :: bool
  sp_Port :: int
  sp_Scheme :: string
  sp_LeaderAddr :: string
  sp_Proxy :: "string \<Rightarrow> string \<Rightarrow> web_request \<Rightarrow> error + http_response"
  sp_Clean :: bool
  sp_Started :: bool
  sp_TimeJSON :: "time \<Rightarrow> json"

section \<open>Ingestion\<close>

definition channel_char :: "char \<Rightarrow> bool" where
  "channel_char ch \<longleftrightarrow> (CHR ''a'' \<le> ch \<and> ch \<le> CHR ''z'') \<or> is_digit ch \<or> (CHR ''A'' \<le> ch \<and> ch \<le> CHR ''Z'') \<or> ch = CHR ''_'' \<or> ch = CHR ''-''"

text \<open>The path pattern \<open>ChannelPath\<close>: one segment of 1 to 64 characters of \<open>ChannelIDPattern\<close>.\<close>

definition match_ChannelPath :: "string \<Rightarrow> string option" where
  "match_ChannelPath path = (case path of
       [] \<Rightarrow> None
     | c # channel \<Rightarrow> (if c = CHR ''/'' \<and> 1 \<le> length channel \<and> length channel \<le> 64 \<and> list_all channel_char channel then Some channel else None))"

text \<open>The webhook router matches the path, sets its parameter and, for \<open>POST\<close>, runs the guards and the handler.\<close>

definition webhook_mount :: "env \<Rightarrow> web_handler" where
  "webhook_mount E r s = (case match_ChannelPath (wr_Path r) of
       None \<Rightarrow> (http_Error ''404 page not found'' 404, s)
     | Some channel \<Rightarrow>
        (if wr_Method r = ''POST'' then buildWebhookRouter E (r\<lparr>wr_Param := [(''channel'', channel)]\<rparr>) s
         else (WriteHeader 405, s)))"

definition RetVersion :: "env \<Rightarrow> http_response" where
  "RetVersion E = (let v = TrimSpace (en_version E) in header_Set ''X-Gohookbridge-Version'' v (writeJSON 200 (JObj [(''version'', JStr v)])))"

definition probes :: "env \<Rightarrow> server_params \<Rightarrow> string \<Rightarrow> http_response option" where
  "probes E P path =
     (if path \<in> {''/health'', ''/livez'', ''/version''} then Some (RetVersion E)
      else if path = ''/readyz'' then Some (RetReadyz (sp_Clean P))
      else if path = ''/startup'' then Some (RetStartup (sp_Started P))
      else None)"

definition buildPublicRouter :: "env \<Rightarrow> server_params \<Rightarrow> web_handler" where
  "buildPublicRouter E P r s = (case (if wr_Method r = ''GET'' then probes E P (wr_Path r) else None) of
       Some p \<Rightarrow> (p, s)
     | None \<Rightarrow> webhook_mount E r s)"

section \<open>The management API\<close>

text \<open>The routes of \<open>apiRouter\<close>: those of \<open>RegisterAPIHandlers\<close> and the ones \<open>NewServer\<close> adds. The argument of
  \<open>GenKeyCall\<close> is the mode of the query.\<close>

datatype api_route = ApiCall api_call | SendCall | ReplayCall | GenKeyCall string | BansCall | UnbanCall

definition api_routes :: "env \<Rightarrow> server_params \<Rightarrow> api_params \<Rightarrow> api_route \<Rightarrow> web_handler" where
  "api_routes E P A route = (case route of
       ApiCall call \<Rightarrow> RegisterAPIHandlers E A call
     | SendCall \<Rightarrow> ChannelContext_mw (RequirePermission E PermChannelWrite (HandleTestPayloadSend E))
     | ReplayCall \<Rightarrow> ChannelContext_mw (RequirePermission E PermChannelWrite (HandleEventReplay E))
     | GenKeyCall mode \<Rightarrow> RequirePermission E PermAll (HandleGenerateEncryptionKey E mode)
     | BansCall \<Rightarrow> RequirePermission E PermGlobalRead (APIBansHandler E (sp_TimeJSON P))
     | UnbanCall \<Rightarrow> RequirePermission E PermGlobalRead (RequirePermission E PermGlobalWrite (APIUnbanHandler E)))"

text \<open>\<open>url\<close> is the URL of the request as a string.\<close>

definition apiRouter :: "env \<Rightarrow> server_params \<Rightarrow> string \<Rightarrow> web_handler \<Rightarrow> web_handler" where
  "apiRouter E P url routes = LeaderForwardMiddleware E (sp_LeaderAddr P) JoinHostPort (sp_Proxy P) (sp_Port P) (sp_Scheme P)
     (MutationOriginValidation E (RequireAuthDynamic E url (sp_Secret P) (sp_Secure P) routes))"

definition mainRouter :: "env \<Rightarrow> web_handler \<Rightarrow> web_handler" where
  "mainRouter E routes = StripForwardMarker (SecurityHeadersMiddleware (BanMiddleware E (RateLimitMiddleware E routes)))"

text \<open>The internal listener: \<open>POST\<close> outside the API goes to the webhook router alone.\<close>

definition finalRouter :: "env \<Rightarrow> web_handler \<Rightarrow> web_handler" where
  "finalRouter E routes r s =
     (if wr_Method r = ''POST'' \<and> \<not> HasPrefix (wr_Path r) ''/api/'' then webhook_mount E r s else mainRouter E routes r s)"

definition internal_api :: "env \<Rightarrow> server_params \<Rightarrow> api_params \<Rightarrow> string \<Rightarrow> api_route \<Rightarrow> web_handler" where
  "internal_api E P A url route = finalRouter E (apiRouter E P url (api_routes E P A route))"

section \<open>Lemmas\<close>

definition stripped :: "web_request \<Rightarrow> web_request" where
  "stripped r = r\<lparr>wr_Header := kv_del leaderForwardedHeader (wr_Header r)\<rparr>"

lemma stripped_fields [simp]:
  "wr_Method (stripped r) = wr_Method r" "wr_Path (stripped r) = wr_Path r" "wr_Cookies (stripped r) = wr_Cookies r"
  "r_Cookie (stripped r) = r_Cookie r" "cx_Principal (stripped r) = cx_Principal r" "cx_Username (stripped r) = cx_Username r"
  by (simp_all add: stripped_def r_Cookie_def fun_eq_iff)

lemma stripped_marker: "header_Get (stripped r) leaderForwardedHeader = []"
proof -
  have "canonical True leaderForwardedHeader = leaderForwardedHeader" by code_simp
  then show ?thesis by (simp add: stripped_def header_Get_def kvm.get_del)
qed

text \<open>The guards of a chain, for any change of the data.\<close>

context guard
begin

lemma changed_passed:
  assumes "mw next r s = (p, s')" "\<not> same_data s s'"
  shows "pass r s" "next (enter r s) (probe mw r s) = (p, s')" "\<not> same_data (probe mw r s) s'"
proof -
  show a: "pass r s" using rejected_unchanged [OF _ assms(1)] assms(2) by auto
  show "next (enter r s) (probe mw r s) = (p, s')" using passes [OF a, of "next"] assms(1) by simp
  show "\<not> same_data (probe mw r s) s'" using same_data_trans [OF data [of s r]] assms(2) by blast
qed

lemma store_kept:
  assumes "\<And>r s. ws_store (snd (next r s)) = ws_store s"
  shows "ws_store (snd (mw next r s)) = ws_store s"
  using passes [of r s "next"] rejects [of r s "next"] data [of s r] assms by (cases "pass r s") (auto simp: same_data_def)

end

text \<open>A request is without effect when it changes no data and lifts no ban that is in force.\<close>

definition in_force :: "time \<Rightarrow> web_state \<Rightarrow> string \<Rightarrow> bool" where
  "in_force now s ip \<longleftrightarrow> (case kv_get (bt_banned (ws_bans s)) ip of None \<Rightarrow> False | Some t \<Rightarrow> time_Before now t)"

definition no_effect :: "env \<Rightarrow> web_state \<Rightarrow> web_state \<Rightarrow> bool" where
  "no_effect E s s' \<longleftrightarrow> same_data s s' \<and> (\<forall>ip. in_force (en_now E) s ip \<longrightarrow> in_force (en_now E) s' ip)"

lemma no_effect_refl [simp]: "no_effect E s s"
  by (simp add: no_effect_def)

lemma no_effect_trans: "no_effect E s s1 \<Longrightarrow> no_effect E s1 s2 \<Longrightarrow> no_effect E s s2"
  by (auto simp: no_effect_def intro: same_data_trans)

lemma no_effect_store: "no_effect E s s' \<Longrightarrow> ws_store s' = ws_store s"
  by (simp add: no_effect_def same_data_def)

locale ban_keeper = guard +
  fixes E :: env
  assumes keeps: "no_effect E s (probe mw r s)"
begin

lemma effect_passed:
  assumes "mw next r s = (p, s')" "\<not> no_effect E s s'"
  shows "pass r s" "next (enter r s) (probe mw r s) = (p, s')" "\<not> no_effect E (probe mw r s) s'"
proof -
  show a: "pass r s" using rejects [of r s "next"] keeps [of s r] assms by (cases "pass r s") auto
  show "next (enter r s) (probe mw r s) = (p, s')" using passes [OF a, of "next"] assms(1) by simp
  show "\<not> no_effect E (probe mw r s) s'" using no_effect_trans [OF keeps [of s r]] assms(2) by blast
qed

end

lemma IsBanned_keeps:
  "in_force now s ip \<Longrightarrow> in_force now (s\<lparr>ws_bans := snd (IsBanned now (ws_bans s) ip')\<rparr>) ip"
  by (auto simp: in_force_def IsBanned_def kv_get_del split: option.splits)

interpretation ban_keep: ban_keeper "BanMiddleware E" "ban_pass E" "\<lambda>r s. r" E
  by unfold_locales
    (auto simp: no_effect_def probe_def BanMiddleware_def Let_def case_prod_beta IsBanned_keeps split: sum.splits)

interpretation rate_keep: ban_keeper "RateLimitMiddleware E" "rate_pass E" "\<lambda>r s. r" E
  by unfold_locales
    (auto simp: no_effect_def probe_def RateLimitMiddleware_def Let_def case_prod_beta in_force_def split: sum.splits)

interpretation origin_keep: ban_keeper "MutationOriginValidation E"
  "\<lambda>r s. wr_Method r \<notin> {''POST'', ''PUT'', ''PATCH'', ''DELETE''} \<or> requestOrigin E r = [] \<or>
     ResolveCORSOrigin (en_C E) (ws_store s) \<in> {[], ''*'', requestOrigin E r}" "\<lambda>r s. r" E
  by unfold_locales (simp add: probe_def MutationOriginValidation_def Let_def)

interpretation perm_keep: ban_keeper "RequirePermission E p" "perm_pass E p" "\<lambda>r s. r" E
  by unfold_locales (simp add: probe_def RequirePermission_def Let_def split: option.splits)

lemma publishEvent_store: "publishEvent s c d = Inr s' \<Longrightarrow> ws_store s' = ws_store s"
  by (auto simp: publishEvent_Inr)

lemma HandleWebhookPost_store: "ws_store (snd (HandleWebhookPost E r s)) = ws_store s"
proof -
  have "ws_store (snd a) = ws_store s" if "webhook_payload E r s = Inl a" for a
    using that by (auto simp: webhook_payload_def Let_def split: if_splits sum.splits body_read.splits)
  then show ?thesis
    by (auto simp: HandleWebhookPost_def Let_def publishEvent_store split: sum.split prod.split if_split)
qed

lemma buildWebhookRouter_store: "ws_store (snd (buildWebhookRouter E r s)) = ws_store s"
  unfolding buildWebhookRouter_def
  by (intro ban_guard.store_kept rate_guard.store_kept ip_guard.store_kept access_guard.store_kept HandleWebhookPost_store)

definition ingress_pass :: "env \<Rightarrow> web_request \<Rightarrow> web_state \<Rightarrow> bool" where
  "ingress_pass E r s \<longleftrightarrow> ban_pass E r s \<and> rate_pass E r s \<and> ip_pass E r s \<and> access_pass E ''produce'' r s"

lemma buildWebhookRouter_changed:
  assumes "buildWebhookRouter E r s = (p, s')" "\<not> same_data s s'"
  shows "ingress_pass E r s"
proof -
  note b = ban_guard.changed_passed [OF assms(1) [unfolded buildWebhookRouter_def] assms(2)]
  note c = rate_guard.changed_passed [OF b(2,3)]
  note i = ip_guard.changed_passed [OF c(2,3)]
  note a = access_guard.changed_passed [OF i(2,3)]
  have e: "ws_store (probe (BanMiddleware E) r s) = ws_store s"
    "ws_store (probe (RateLimitMiddleware E) r (probe (BanMiddleware E) r s)) = ws_store s"
    "ws_store (probe (IPRestrictMiddleware E) r (probe (RateLimitMiddleware E) r (probe (BanMiddleware E) r s))) = ws_store s"
    using ban_guard.data [of s E r] rate_guard.data [of "probe (BanMiddleware E) r s" E r]
      ip_guard.data [of "probe (RateLimitMiddleware E) r (probe (BanMiddleware E) r s)" E r] by (simp_all add: same_data_def)
  show ?thesis
    unfolding ingress_pass_def
    using b(1) c(1) i(1) a(1) pass_cong(1) [OF e(1) guard_frames(1)] pass_cong(2) [OF e(2)] guard_frames(2,3) pass_cong(3) [OF e(3)] by simp
qed

text \<open>Which permissions a route asks for.\<close>

definition in_channel :: "web_request \<Rightarrow> web_request" where
  "in_channel r = (if URLParam r ''channel'' \<noteq> [] then r\<lparr>cx_ChannelID := Some (URLParam r ''channel'')\<rparr> else r)"

definition route_allowed :: "env \<Rightarrow> api_route \<Rightarrow> web_request \<Rightarrow> web_state \<Rightarrow> bool" where
  "route_allowed E route r s = (case route of
       ApiCall call \<Rightarrow> authorized E call r s
     | SendCall \<Rightarrow> perm_pass E PermChannelWrite (in_channel r) s
     | ReplayCall \<Rightarrow> perm_pass E PermChannelWrite (in_channel r) s
     | GenKeyCall mode \<Rightarrow> perm_pass E PermAll r s
     | BansCall \<Rightarrow> perm_pass E PermGlobalRead r s
     | UnbanCall \<Rightarrow> perm_pass E PermGlobalRead r s \<and> perm_pass E PermGlobalWrite r s)"

lemma ChannelContext_in: "ChannelContext_mw next r s = next (in_channel r) s"
  by (simp add: ChannelContext_mw_def in_channel_def Let_def)

lemma api_routes_guarded:
  assumes "api_routes E P A route r s = (p, s')" "\<not> no_effect E s s'"
  shows "route_allowed E route r s"
proof (cases route)
  case (ApiCall call)
  then have c: "RegisterAPIHandlers E A call r s = (p, s')" using assms(1) by (simp add: api_routes_def)
  have "s' \<noteq> s" using assms(2) by auto
  with c have "authorized E call r s" by (cases rule: api_cases) auto
  then show ?thesis using ApiCall by (simp add: route_allowed_def)
next
  case UnbanCall
  then have u: "RequirePermission E PermGlobalRead (RequirePermission E PermGlobalWrite (APIUnbanHandler E)) r s = (p, s')"
    using assms(1) by (simp add: api_routes_def)
  note a = perm_keep.effect_passed [OF u assms(2)]
  note b = perm_keep.effect_passed(1) [OF a(2,3)]
  have "probe (RequirePermission E PermGlobalRead) r s = s"
    by (simp add: probe_def RequirePermission_def Let_def split: option.splits)
  then show ?thesis using UnbanCall a(1) b by (simp add: route_allowed_def)
qed (use assms perm_keep.effect_passed(1) in \<open>auto simp: api_routes_def route_allowed_def ChannelContext_in\<close>)

lemma route_allowed_user: "route_allowed E route r s \<Longrightarrow> cx_Principal r = None \<Longrightarrow> cx_Username r = [] \<Longrightarrow> False"
  by (auto simp: route_allowed_def authorized_def perm_pass_def resolveRequestUser_def ResolvePrincipalByUsername_def in_channel_def
      split: api_route.splits if_splits)

lemma route_allowed_store: "ws_store s' = ws_store s \<Longrightarrow> route_allowed E route r s' = route_allowed E route r s"
  by (simp add: route_allowed_def authorized_def perm_pass_def resolveRequestUser_def cong: api_route.case_cong option.case_cong)

lemma RequireAuthDynamic_changed:
  assumes "RequireAuthDynamic E url secret secure next r s = (p, s')" "\<not> no_effect E s s'"
  obtains "BuildAuthConfig (en_C E) (ws_store s) = None" "next r s = (p, s')"
    | v token u where "r_Cookie r sessionCookieName = Some v" "DecodeSession (en_C E) (en_now E) v secret = Inr token"
        "ResolvePrincipal (ws_store s) (Some token) = Some u" "SessionEpochValid (ws_store s) (Some token)"
        "next (withPrincipal r u (st_Groups token)) s = (p, s')"
  using assms by (auto simp: RequireAuthDynamic_def RequireAuth_def split: if_splits option.splits sum.splits)

definition origin_ok :: "env \<Rightarrow> web_request \<Rightarrow> web_state \<Rightarrow> bool" where
  "origin_ok E r s \<longleftrightarrow> wr_Method r \<notin> {''POST'', ''PUT'', ''PATCH'', ''DELETE''} \<or> requestOrigin E r = [] \<or>
     ResolveCORSOrigin (en_C E) (ws_store s) \<in> {[], ''*'', requestOrigin E r}"

text \<open>A session that the request carries: its cookie was signed by this server, has not expired and belongs to
  the present epoch, and its account exists.\<close>

definition valid_session :: "env \<Rightarrow> string \<Rightarrow> web_request \<Rightarrow> raft_store \<Rightarrow> session_token \<Rightarrow> user \<Rightarrow> bool" where
  "valid_session E secret r rs token u \<longleftrightarrow> (\<exists>v. r_Cookie r sessionCookieName = Some v \<and> DecodeSession (en_C E) (en_now E) v secret = Inr token) \<and>
     ResolvePrincipal rs (Some token) = Some u \<and> SessionEpochValid rs (Some token)"

lemma apiRouter_changed:
  assumes "apiRouter E P url (api_routes E P A route) r s = (p, s')" "\<not> no_effect E s s'"
    and "cx_Principal r = None" "cx_Username r = []" "header_Get r leaderForwardedHeader = []"
  shows "(isReadOnlyMethod (wr_Method r) \<or> IsLeader (ws_store s)) \<and> origin_ok E r s \<and>
     (\<exists>token u. valid_session E (sp_Secret P) r (ws_store s) token u \<and> route_allowed E route (withPrincipal r u (st_Groups token)) s)"
proof -
  let ?next = "MutationOriginValidation E (RequireAuthDynamic E url (sp_Secret P) (sp_Secure P) (api_routes E P A route))"
  have l: "isReadOnlyMethod (wr_Method r) \<or> IsLeader (ws_store s)" and n: "?next r s = (p, s')"
    using assms(1,2,5) by (auto simp: apiRouter_def LeaderForwardMiddleware_def Let_def split: if_splits option.splits sum.splits)
  note o = origin_keep.effect_passed [OF n assms(2)]
  have ps: "probe (MutationOriginValidation E) r s = s" by (simp add: probe_def MutationOriginValidation_def Let_def)
  have "\<exists>token u. valid_session E (sp_Secret P) r (ws_store s) token u \<and> route_allowed E route (withPrincipal r u (st_Groups token)) s"
    using o(2) [unfolded ps] assms(2)
  proof (cases rule: RequireAuthDynamic_changed)
    case 1
    then show ?thesis using api_routes_guarded [OF 1(2) assms(2)] route_allowed_user [OF _ assms(3,4)] by blast
  next
    case (2 v token u)
    then show ?thesis using api_routes_guarded [OF 2(5) assms(2)] by (auto simp: valid_session_def)
  qed
  then show ?thesis using l o(1) by (simp add: origin_ok_def)
qed

lemma SecurityHeaders_state: "snd (SecurityHeadersMiddleware next r s) = snd (next r s)"
  by (simp add: SecurityHeadersMiddleware_def Let_def case_prod_beta)

lemma mainRouter_changed:
  assumes "mainRouter E routes r s = (p, s')" "\<not> no_effect E s s'"
  shows "\<exists>q s2. ban_pass E (stripped r) s \<and> rate_pass E (stripped r) s \<and> no_effect E s s2 \<and> routes (stripped r) s2 = (q, s')"
proof -
  let ?n = "BanMiddleware E (RateLimitMiddleware E routes)"
  obtain q where "?n (stripped r) s = (q, s')"
    using arg_cong [OF assms(1), of snd] SecurityHeaders_state [of ?n "stripped r" s]
    by (cases "?n (stripped r) s") (simp add: mainRouter_def StripForwardMarker_def stripped_def [symmetric])
  note b = ban_keep.effect_passed [OF this assms(2)]
  note c = rate_keep.effect_passed [OF b(2,3)]
  have d: "no_effect E s (probe (BanMiddleware E) (stripped r) s)" by (rule ban_keep.keeps)
  have "rate_pass E (stripped r) s" using c(1) pass_cong(1) [OF _ guard_frames(1)] d by (auto simp: no_effect_store)
  moreover have "no_effect E s (probe (RateLimitMiddleware E) (stripped r) (probe (BanMiddleware E) (stripped r) s))"
    by (rule no_effect_trans [OF d]) (rule rate_keep.keeps)
  ultimately show ?thesis using b(1) c(2) by blast
qed

section \<open>An example\<close>

definition demo_server :: server_params where
  "demo_server = \<lparr>sp_Secret = ''k'', sp_Secure = True, sp_Port = 8080, sp_Scheme = ''https'', sp_LeaderAddr = ''10.0.0.2:6001'',
     sp_Proxy = (\<lambda>_ _ _. Inr (WriteHeader 204)), sp_Clean = True, sp_Started = True, sp_TimeJSON = JNum\<rparr>"

lemma demo_public: "buildPublicRouter demo_env demo_server demo_request demo_web = buildWebhookRouter demo_env demo_request demo_web"
  "match_ChannelPath ''/c1'' = Some ''c1''"
proof -
  show m: "match_ChannelPath ''/c1'' = Some ''c1''" by code_simp
  have "demo_request\<lparr>wr_Param := [(''channel'', ''c1'')]\<rparr> = demo_request" "wr_Path demo_request = ''/c1''" by (simp_all add: demo_request_def)
  then show "buildPublicRouter demo_env demo_server demo_request demo_web = buildWebhookRouter demo_env demo_request demo_web"
    using m by (simp add: buildPublicRouter_def webhook_mount_def)
qed

definition demo_put :: web_request where
  "demo_put = demo_request\<lparr>wr_Method := ''PUT'', wr_Path := ''/api/auth/internal'', wr_Param := [],
     wr_Cookies := [(sessionCookieName, EncodeSession toy_crypto demo_forged ''k'')]\<rparr>"

lemma demo_put_fields: "wr_Method demo_put = ''PUT''" "wr_Path demo_put = ''/api/auth/internal''" "cx_Principal demo_put = None"
  "cx_Username demo_put = []" "r_Cookie demo_put sessionCookieName = Some (EncodeSession toy_crypto demo_forged ''k'')"
  "cx_Groups demo_put = []" "cx_ChannelID demo_put = None" "requestOrigin demo_env (stripped demo_put) = []"
proof -
  have "canonical True ''Origin'' = ''Origin''" "canonical True ''Referer'' = ''Referer''" by code_simp+
  then have n: "kv_get (wr_Header demo_put) (canonical True ''Origin'') = None" "kv_get (wr_Header demo_put) (canonical True ''Referer'') = None"
    by (simp_all add: demo_put_def demo_request_def kv_get_Cons)
  have "header_Get (stripped demo_put) ''Origin'' = []" "header_Get (stripped demo_put) ''Referer'' = []"
    using n by (simp_all add: header_Get_def stripped_def kv_get_del)
  then show "requestOrigin demo_env (stripped demo_put) = []" by (simp add: requestOrigin_def)
qed (simp_all add: demo_put_def r_Cookie_def demo_request_def)

definition demo_switched :: web_state where
  "demo_switched = demo_desk\<lparr>ws_store := with_bucket demo_accounts (kv_put ''/global/auth/internal_enabled'' (JBool True) (bucket demo_accounts))\<rparr>"

lemma demo_switched_changes: "\<not> same_data demo_desk demo_switched"
proof
  assume "same_data demo_desk demo_switched"
  then have "ws_store demo_switched = ws_store demo_desk" by (simp add: same_data_def)
  from arg_cong [OF this, of "\<lambda>rs. kv_get (bucket rs) ''/global/auth/internal_enabled''"] show False
    by (simp add: demo_switched_def kvm.get_put demo_desk_def demo_accounts_ready kv_get_Cons)
qed

lemma demo_put_runs: "\<exists>p. internal_api demo_env demo_server demo_params ''/api/auth/internal'' (ApiCall (SetSwitchCall (Decoded True))) demo_put demo_desk = (p, demo_switched)"
proof -
  let ?r = "stripped demo_put" and ?call = "SetSwitchCall (Decoded True)"
  let ?w = "withPrincipal ?r demo_ann []"
  let ?api = "api_routes demo_env demo_server demo_params (ApiCall ?call)"
  have st: "ws_store demo_desk = demo_accounts" by (simp add: demo_desk_def)
  have "resolveRequestUser ?w demo_desk = Some demo_ann" "cx_Groups ?w = []" "cx_ChannelID ?w = None"
    by (simp_all add: withPrincipal_def resolveRequestUser_def stripped_def demo_put_fields)
  then have "authorized demo_env ?call ?w demo_desk"
    by (auto simp: authorized_def call_request_def st demo_power or_empty_def)
  then have h: "?api ?w demo_desk = (writeJSON 200 (JObj [(''enabled'', JBool True)]), demo_switched)"
    by (simp add: api_routes_def api_authorized setInternalAuth_def svc_SetInternalAuthEnabled_def st demo_switched_def
        SetInternalAuthEnabled_ready [OF demo_accounts_ready(1)])
  have "DecodeSession toy_crypto unix_epoch (EncodeSession toy_crypto demo_forged ''k'') ''k'' = Inr demo_forged"
    by (simp add: decode_encode_session demo_forged_def time_Unix_def)
  moreover have "ResolvePrincipal demo_accounts (Some demo_forged) = Some demo_ann"
    by (simp add: ResolvePrincipal_def demo_forged_def demo_accounts_reads ok_def)
  moreover have "SessionEpochValid demo_accounts (Some demo_forged)" by (simp add: SessionEpochValid_def demo_accounts_reads demo_forged_def)
  ultimately have "RequireAuth demo_env url ''k'' True ?api ?r demo_desk = (writeJSON 200 (JObj [(''enabled'', JBool True)]), demo_switched)" for url
    using h by (simp add: RequireAuth_def demo_put_fields st) (simp add: demo_forged_def)
  moreover have "IsLeader demo_accounts" using demo_accounts_ready(1) by (simp add: store_ready_def IsLeader_def)
  ultimately have a: "apiRouter demo_env demo_server ''/api/auth/internal'' ?api ?r demo_desk = (writeJSON 200 (JObj [(''enabled'', JBool True)]), demo_switched)"
    by (simp add: apiRouter_def LeaderForwardMiddleware_def MutationOriginValidation_def RequireAuthDynamic_def demo_put_fields st
        demo_accounts_config demo_server_def Let_def)
  show ?thesis
    by (simp add: internal_api_def finalRouter_def mainRouter_def StripForwardMarker_def SecurityHeadersMiddleware_def BanMiddleware_def
        RateLimitMiddleware_def demo_put_fields a st demo_accounts_reads DefaultGlobalConfig_def Let_def stripped_def [symmetric])
qed

section \<open>Properties\<close>

text \<open>C11: Through the public listener nobody changes the replicated store, whatever the request: it can only publish, by a
  \<open>POST\<close> to a channel path that passes every guard of the channel. All other requests leave the data
  as it is.\<close>

theorem public_listener_only_publishes:
  assumes "buildPublicRouter E P r s = (p, s')"
  shows "ws_store s' = ws_store s \<and> (\<not> same_data s s' \<longrightarrow> wr_Method r = ''POST'' \<and>
     (\<exists>channel. match_ChannelPath (wr_Path r) = Some channel \<and> ingress_pass E (r\<lparr>wr_Param := [(''channel'', channel)]\<rparr>) s))"
proof -
  have "(p, s') = (p, s) \<or> wr_Method r = ''POST'' \<and> (\<exists>channel. match_ChannelPath (wr_Path r) = Some channel \<and>
      buildWebhookRouter E (r\<lparr>wr_Param := [(''channel'', channel)]\<rparr>) s = (p, s'))"
    using assms by (auto simp: buildPublicRouter_def webhook_mount_def split: option.splits if_splits)
  then show ?thesis
  proof (elim disjE conjE exE)
    fix channel assume c: "match_ChannelPath (wr_Path r) = Some channel" "buildWebhookRouter E (r\<lparr>wr_Param := [(''channel'', channel)]\<rparr>) s = (p, s')"
      and m: "wr_Method r = ''POST''"
    have "ws_store s' = ws_store s" using buildWebhookRouter_store [of E "r\<lparr>wr_Param := [(''channel'', channel)]\<rparr>" s] c(2) by simp
    then show ?thesis using buildWebhookRouter_changed [OF c(2)] c(1) m by blast
  qed simp
qed

theorem public_listener_only_publishes_witness:
  "\<exists>p s'. buildPublicRouter demo_env demo_server demo_request demo_web = (p, s') \<and> \<not> same_data demo_web s' \<and> ws_store s' = demo_site \<and>
     ingress_pass demo_env (demo_request\<lparr>wr_Param := [(''channel'', ''c1'')]\<rparr>) demo_web"
proof -
  obtain p s' where b: "buildPublicRouter demo_env demo_server demo_request demo_web = (p, s')" by fastforce
  have "\<not> same_data demo_web s'" using demo_route b by (auto simp: demo_public same_data_def)
  moreover have "wr_Path demo_request = ''/c1''" by (simp add: demo_request_def)
  ultimately show ?thesis using public_listener_only_publishes [OF b] b demo_public(2) by auto
qed



text \<open>A request without a session cookie has no effect on the management API, also in set-up mode, where no user exists
  yet and the authentication guard lets it through: the first user cannot be created by an API call.\<close>

theorem setup_api_closed:
  assumes "r_Cookie r sessionCookieName = None" "HasPrefix (wr_Path r) ''/api/''" "cx_Principal r = None" "cx_Username r = []"
    and "internal_api E P A url route r s = (p, s')"
  shows "ws_store s' = ws_store s \<and> ws_sent s' = ws_sent s"
proof -
  have "no_effect E s s'"
  proof (rule ccontr)
    assume ch: "\<not> no_effect E s s'"
    have "mainRouter E (apiRouter E P url (api_routes E P A route)) r s = (p, s')"
      using assms(2,5) by (simp add: internal_api_def finalRouter_def)
    from mainRouter_changed [OF this ch] obtain q s2 where m: "no_effect E s s2"
      "apiRouter E P url (api_routes E P A route) (stripped r) s2 = (q, s')" by blast
    then have "\<not> no_effect E s2 s'" using ch no_effect_trans by blast
    from apiRouter_changed [OF m(2) this] show False
      using assms(1,3,4) stripped_marker [of r] by (simp add: valid_session_def)
  qed
  then show ?thesis by (simp add: no_effect_def same_data_def)
qed

text \<open>The marker against forwarding loops has no effect: every node removes it from every request before the
  forwarding middleware looks for it, also when another node has set it. Two nodes that take each other
  for the leader hand a request back and forth.\<close>

lemma kv_del_put: "kv_del k (kv_put k v m) = kv_del k m"
  by (induction k v m rule: kv_put.induct) (auto simp: kv_del_def)

theorem forward_marker_ignored:
  "finalRouter E (apiRouter E P url routes) (r\<lparr>wr_Header := kv_put leaderForwardedHeader v (wr_Header r)\<rparr>) s =
     (if wr_Method r = ''POST'' \<and> \<not> HasPrefix (wr_Path r) ''/api/''
      then webhook_mount E (r\<lparr>wr_Header := kv_put leaderForwardedHeader v (wr_Header r)\<rparr>) s
      else finalRouter E (apiRouter E P url routes) r s)"
  by (simp add: finalRouter_def mainRouter_def StripForwardMarker_def kv_del_put)

end
