(* ===== verification/Bootstrap.thy ===== *)
theory Bootstrap
  imports ChannelService
begin

text \<open>
  The bootstrap file: \<open>internal/repository/bootstrap.go\<close>, \<open>internal/server/bootstrap_secrets.go\<close> and
  \<open>applyBootstrapOnce\<close> of \<open>internal/server/server.go\<close>. The YAML library and the Kubernetes API are parameters.
  The lemmas show what a bootstrap leaves in the store, what it never writes to the log, and what happens
  when the state machine refuses it.
\<close>

section \<open>The file\<close>

record secret_ref =
  sr_Name :: string
  sr_Key :: string

record bootstrap_provider =
  bo_ID :: string
  bo_Name :: string
  bo_ClientID :: string
  bo_ClientSecret :: string
  bo_ClientSecretRef :: "secret_ref option"
  bo_IssuerURL :: string
  bo_Scopes :: "string list"
  bo_GroupsClaim :: string

record bootstrap_auth =
  ba_Internal :: "bool option"
  ba_OIDC :: "bootstrap_provider list option"

record bootstrap_raft =
  br_NodeID :: string
  br_Peers :: "string list"

record bootstrap_user =
  bs_Username :: string
  bs_Password :: string
  bs_Roles :: "string list"
  bs_Channels :: "string list"

record bootstrap_token =
  bt_ID :: string
  bt_Name :: string
  bt_Token :: string
  bt_Scope :: string

record bootstrap_channel =
  bc_ID :: string
  bc_Description :: string
  bc_WebhookSecret :: string
  bc_WebhookSignatures :: "string list"
  bc_AllowedIPs :: "string list"
  bc_AccessMode :: string
  bc_AccessTokens :: "bootstrap_token list"

record bootstrap_config =
  bf_Raft :: "bootstrap_raft option"
  bf_Global :: "global_config option"
  bf_Users :: "bootstrap_user list"
  bf_Channels :: "bootstrap_channel list"
  bf_Auth :: "bootstrap_auth option"

definition empty_bootstrap :: bootstrap_config where
  "empty_bootstrap = \<lparr>bf_Raft = None, bf_Global = None, bf_Users = [], bf_Channels = [], bf_Auth = None\<rparr>"

text \<open>The decoders fill the configuration they are given, also as far as they came before an error.\<close>

type_synonym decoder = "string \<Rightarrow> bootstrap_config \<Rightarrow> error option \<times> bootstrap_config"

definition LoadBootstrap :: "decoder \<Rightarrow> decoder \<Rightarrow> string result \<Rightarrow> bootstrap_config result" where
  "LoadBootstrap yaml json file = (case file of
       Inl e \<Rightarrow> Inl e
     | Inr data \<Rightarrow>
        (if data = [] then Inr empty_bootstrap
         else (case yaml data empty_bootstrap of
             (None, cfg) \<Rightarrow> Inr cfg
           | (Some _, cfg) \<Rightarrow> (case json data cfg of
               (None, cfg') \<Rightarrow> Inr cfg'
             | (Some _, _) \<Rightarrow> Inl (ErrMsg ''parse bootstrap'')))))"

section \<open>Secrets of the cluster\<close>

definition boot_providers :: "bootstrap_config \<Rightarrow> bootstrap_provider list" where
  "boot_providers cfg = (case bf_Auth cfg of None \<Rightarrow> [] | Some a \<Rightarrow> (case ba_OIDC a of None \<Rightarrow> [] | Some ps \<Rightarrow> ps))"

definition hasBootstrapSecretRefs :: "bootstrap_config \<Rightarrow> bool" where
  "hasBootstrapSecretRefs cfg = list_ex (\<lambda>p. bo_ClientSecretRef p \<noteq> None) (boot_providers cfg)"

text \<open>\<open>secrets\<close> reads a secret of the namespace: its keys with their values, or an error.\<close>

definition resolve_ref :: "(string \<Rightarrow> (string \<Rightarrow> string option) result) option \<Rightarrow> bootstrap_provider \<Rightarrow> bootstrap_provider result" where
  "resolve_ref secrets p = (case bo_ClientSecretRef p of
       None \<Rightarrow> Inr p
     | Some ref \<Rightarrow>
        (if sr_Name ref = [] \<or> sr_Key ref = [] then Inl (ErrMsg ''client_secret_ref requires both name and key'')
         else (case secrets of
             None \<Rightarrow> Inl (ErrMsg ''client_secret_ref requires a Kubernetes clientset'')
           | Some get \<Rightarrow> bindE (get (sr_Name ref)) (\<lambda>data. case data (sr_Key ref) of
               None \<Rightarrow> Inl (ErrMsg ''secret has no such key'')
             | Some v \<Rightarrow> Inr (p\<lparr>bo_ClientSecret := v, bo_ClientSecretRef := None\<rparr>)))))"

definition resolveBootstrapSecretRefs ::
  "(string \<Rightarrow> (string \<Rightarrow> string option) result) option \<Rightarrow> bootstrap_config \<Rightarrow> bootstrap_config result" where
  "resolveBootstrapSecretRefs secrets cfg = (case bf_Auth cfg of
       None \<Rightarrow> Inr cfg
     | Some a \<Rightarrow> (case ba_OIDC a of
         None \<Rightarrow> Inr cfg
       | Some ps \<Rightarrow> bindE (mapE (resolve_ref secrets) ps) (\<lambda>qs. Inr (cfg\<lparr>bf_Auth := Some (a\<lparr>ba_OIDC := Some qs\<rparr>)\<rparr>))))"

section \<open>The payload\<close>

definition hashBootstrapToken :: "crypto \<Rightarrow> string \<Rightarrow> string" where
  "hashBootstrapToken C raw = hex_EncodeToString (sha256_Sum C raw)"

text \<open>\<open>salt\<close> is the randomness of \<open>bcrypt\<close> for each user.\<close>

fun hash_users :: "crypto \<Rightarrow> (nat \<Rightarrow> string) \<Rightarrow> bootstrap_user list \<Rightarrow> fsm_bootstrap_user list result" where
  "hash_users C salt [] = Inr []"
| "hash_users C salt (u # us) = (case bcrypt_Generate C (bs_Password u) (salt 0) of
       None \<Rightarrow> Inl (ErrMsg ''hash bootstrap password'')
     | Some hash \<Rightarrow> bindE (hash_users C (\<lambda>i. salt (Suc i)) us) (\<lambda>hs.
         Inr (\<lparr>bu_Username = bs_Username u, bu_PasswordHash = hash, bu_Password = [], bu_Roles = bs_Roles u, bu_Channels = bs_Channels u\<rparr> # hs)))"

definition boot_token :: "crypto \<Rightarrow> bootstrap_token \<Rightarrow> channel_access_token result" where
  "boot_token C t =
     (if bt_Token t = [] then Inl (ErrMsg ''access token has an empty token value'')
      else Inr \<lparr>ct_ID = bt_ID t, ct_Name = bt_Name t, ct_TokenHash = hashBootstrapToken C (bt_Token t),
        ct_Scope = (if bt_Scope t \<noteq> ''produce'' \<and> bt_Scope t \<noteq> ''consume'' \<and> bt_Scope t \<noteq> ''both'' then ''both'' else bt_Scope t),
        ct_CreatedAt = []\<rparr>)"

definition boot_channel :: "crypto \<Rightarrow> bootstrap_channel \<Rightarrow> channel result" where
  "boot_channel C p = bindE (mapE (boot_token C) (bc_AccessTokens p)) (\<lambda>ts.
     Inr (MigrateChannel (zero_channel\<lparr>ch_ID := bc_ID p, ch_Description := bc_Description p, ch_WebhookSecret := bc_WebhookSecret p,
       ch_WebhookSignatures := bc_WebhookSignatures p, ch_AllowedIPs := bc_AllowedIPs p, ch_AccessMode := bc_AccessMode p,
       ch_AccessTokens := ts\<rparr>)))"

definition boot_provider :: "bootstrap_provider \<Rightarrow> oidc_provider result" where
  "boot_provider p =
     (if bo_ID p = [] then Inl (ErrMsg ''oidc provider: id is required'')
      else if bo_IssuerURL p = [] then Inl (ErrMsg ''oidc provider: issuer_url is required'')
      else if bo_ClientID p = [] then Inl (ErrMsg ''oidc provider: client_id is required'')
      else if bo_ClientSecret p = [] \<and> bo_ClientSecretRef p \<noteq> None then Inl (ErrMsg ''oidc provider: client_secret_ref is unresolved'')
      else if bo_ClientSecret p = [] then Inl (ErrMsg ''oidc provider: client_secret is required'')
      else Inr \<lparr>op_ID = bo_ID p, op_Name = bo_Name p, op_ClientID = bo_ClientID p, op_ClientSecret = bo_ClientSecret p,
        op_IssuerURL = bo_IssuerURL p, op_Scopes = bo_Scopes p,
        op_GroupsClaim = (if bo_GroupsClaim p = [] then ''groups'' else bo_GroupsClaim p),
        op_AllowedEndpoints = [], op_AllowInsecureIssuer = False\<rparr>)"

definition boot_auth_payload :: "bootstrap_config \<Rightarrow> (bool option \<times> oidc_provider list) result" where
  "boot_auth_payload cfg = (case bf_Auth cfg of
       None \<Rightarrow> Inr (None, [])
     | Some a \<Rightarrow>
        (let internalEnabled = (case ba_Internal a of None \<Rightarrow> True | Some b \<Rightarrow> b) in
         if \<not> internalEnabled \<and> boot_providers cfg = [] then Inl (ErrMsg ''bootstrap auth: at least one auth provider is required'')
         else bindE (mapE boot_provider (boot_providers cfg)) (\<lambda>ps. Inr (ba_Internal a, ps))))"

definition bootstrap_payload :: "crypto \<Rightarrow> (nat \<Rightarrow> string) \<Rightarrow> bootstrap_config \<Rightarrow> fsm_bootstrap_payload result" where
  "bootstrap_payload C salt cfg =
     bindE (hash_users C salt (bf_Users cfg)) (\<lambda>us.
     bindE (mapE (boot_channel C) (bf_Channels cfg)) (\<lambda>chs.
     bindE (boot_auth_payload cfg) (\<lambda>(internal, providers).
     Inr \<lparr>bp_Global = bf_Global cfg, bp_Users = us, bp_Channels = chs, bp_InternalAuthEnabled = internal, bp_OIDCProviders = providers\<rparr>)))"

text \<open>The randomness of sealing: for the configuration, for each channel, for the providers.\<close>

record seal_rand =
  sr_config :: ns
  sr_channel :: "nat \<Rightarrow> ns"
  sr_provider :: ns

fun seal_channels :: "crypto \<Rightarrow> raft_store \<Rightarrow> (nat \<Rightarrow> ns) \<Rightarrow> channel list \<Rightarrow> channel list result" where
  "seal_channels C rs ns [] = Inr []"
| "seal_channels C rs ns (p # ps) = bindE (sealChannel C rs (ns 0) p) (\<lambda>q.
     bindE (seal_channels C rs (\<lambda>i. ns (Suc i)) ps) (\<lambda>qs. Inr (q # qs)))"

definition seal_payload :: "crypto \<Rightarrow> raft_store \<Rightarrow> seal_rand \<Rightarrow> fsm_bootstrap_payload \<Rightarrow> fsm_bootstrap_payload result" where
  "seal_payload C rs sr p =
     bindE (case bp_Global p of None \<Rightarrow> Inr None | Some g \<Rightarrow> bindE (sealConfig C rs (sr_config sr) g) (\<lambda>h. Inr (Some h))) (\<lambda>g.
     bindE (seal_channels C rs (sr_channel sr) (bp_Channels p)) (\<lambda>chs.
     bindE (seal_providers C rs (sr_provider sr) (bp_OIDCProviders p)) (\<lambda>ps.
     Inr (p\<lparr>bp_Global := g, bp_Channels := chs, bp_OIDCProviders := ps\<rparr>))))"

section \<open>Applying it\<close>

definition bootstrap_command :: "fsm_bootstrap_payload \<Rightarrow> fsm_command" where
  "bootstrap_command p = \<lparr>fc_Op = ''bootstrap'', fc_Key = [], fc_Value = marshal_bootstrap p\<rparr>"

text \<open>The result of the state machine, in the response of \<open>Apply\<close>, is dropped.\<close>

definition ApplyBootstrap ::
  "crypto \<Rightarrow> (nat \<Rightarrow> string) \<Rightarrow> seal_rand \<Rightarrow> raft_store \<Rightarrow> bootstrap_config \<Rightarrow> error option \<times> raft_store" where
  "ApplyBootstrap C salt sr rs cfg = (case HasData rs of
       Inl e \<Rightarrow> (Some e, rs)
     | Inr True \<Rightarrow> (Some (ErrMsg ''cannot apply bootstrap: FSM already has data''), rs)
     | Inr False \<Rightarrow> (case bindE (bootstrap_payload C salt cfg) (seal_payload C rs sr) of
         Inl e \<Rightarrow> (Some e, rs)
       | Inr p \<Rightarrow> (case Apply rs (bootstrap_command p) of
           (Inl e, rs') \<Rightarrow> (Some e, rs')
         | (Inr _, rs') \<Rightarrow> (None, rs'))))"

definition applyBootstrapOnce ::
  "crypto \<Rightarrow> (nat \<Rightarrow> string) \<Rightarrow> seal_rand \<Rightarrow> string \<Rightarrow> bootstrap_config result \<Rightarrow> (string \<Rightarrow> (string \<Rightarrow> string option) result) result \<Rightarrow>
     raft_store \<Rightarrow> error option \<times> raft_store" where
  "applyBootstrapOnce C salt sr path loaded clientset rs =
     (if path = [] \<or> \<not> IsLeader rs then (None, rs)
      else (case HasData rs of
          Inl e \<Rightarrow> (Some e, rs)
        | Inr True \<Rightarrow> (None, rs)
        | Inr False \<Rightarrow>
           (case bindE loaded (\<lambda>cfg. if hasBootstrapSecretRefs cfg
                then bindE clientset (\<lambda>get. resolveBootstrapSecretRefs (Some get) cfg) else Inr cfg) of
              Inl e \<Rightarrow> (Some e, rs)
            | Inr cfg \<Rightarrow>
               (case (case bf_Global cfg of None \<Rightarrow> None
                      | Some g \<Rightarrow> (if sc_SessionSecret (gc_Server g) \<noteq> [] then ValidateSessionSecret (sc_SessionSecret (gc_Server g)) else None)) of
                  Some e \<Rightarrow> (Some e, rs)
                | None \<Rightarrow> ApplyBootstrap C salt sr rs cfg))))"

section \<open>What the state machine writes\<close>

definition boot_keys :: "fsm_bootstrap_user list \<Rightarrow> string set" where
  "boot_keys us = (\<Union>u \<in> set us. {userKey (bu_Username u), usernameIndexKey (bu_Username u) @ ''/''})"

definition good_users :: "fsm_bootstrap_user list \<Rightarrow> bool" where
  "good_users us \<longleftrightarrow> distinct (map bu_Username us) \<and>
     (\<forall>u \<in> set us. bu_Username u \<noteq> [] \<and> CHR ''/'' \<notin> set (bu_Username u) \<and> bu_Password u = [] \<and> bu_PasswordHash u \<noteq> [])"

lemma boot_users_frame: "boot_users us m = Inr m' \<Longrightarrow> k \<notin> boot_keys us \<Longrightarrow> kv_get m' k = kv_get m k"
proof (induction us arbitrary: m)
  case (Cons u us)
  then show ?case by (auto simp: boot_keys_def kv_get_put userKey_def split: if_splits)
qed simp

lemma boot_keys_fresh:
  "good_users (u # us) \<Longrightarrow> userKey (bu_Username u) \<notin> boot_keys us \<and> usernameIndexKey (bu_Username u) @ ''/'' \<notin> boot_keys us"
proof -
  assume g: "good_users (u # us)"
  have "userKey (bu_Username u) \<noteq> userKey (bu_Username v) \<and> userKey (bu_Username u) \<noteq> usernameIndexKey (bu_Username v) @ ''/'' \<and>
      usernameIndexKey (bu_Username u) @ ''/'' \<noteq> userKey (bu_Username v) \<and>
      usernameIndexKey (bu_Username u) @ ''/'' \<noteq> usernameIndexKey (bu_Username v) @ ''/''" if v: "v \<in> set us" for v
  proof -
    have n: "bu_Username u \<noteq> bu_Username v" "CHR ''/'' \<notin> set (bu_Username u)" "CHR ''/'' \<notin> set (bu_Username v)"
      "bu_Username u \<noteq> []" "bu_Username v \<noteq> []"
      using g v by (auto simp: good_users_def)
    show ?thesis using n(1) user_index_key [OF n(2,5)] user_index_key [OF n(3,4)] by (simp add: eq_commute)
  qed
  then show ?thesis unfolding boot_keys_def by blast
qed

lemma boot_users_get:
  "good_users us \<Longrightarrow> \<exists>m'. boot_users us m = Inr m' \<and> (\<forall>u \<in> set us.
     kv_get m' (userKey (bu_Username u)) = Some (marshal_user (boot_user u)) \<and>
     kv_get m' (usernameIndexKey (bu_Username u) @ ''/'') = Some (usernameIndexValue (bu_Username u)))"
proof (induction us arbitrary: m)
  case (Cons u us)
  let ?m = "kv_put (usernameIndexKey (bu_Username u) @ ''/'') (usernameIndexValue (bu_Username u))
    (kv_put (''/users/'' @ bu_Username u @ ''/'') (marshal_user (boot_user u)) m)"
  have g: "good_users us" using Cons.prems by (simp add: good_users_def)
  obtain m' where m': "boot_users us ?m = Inr m'" "\<forall>u \<in> set us.
     kv_get m' (userKey (bu_Username u)) = Some (marshal_user (boot_user u)) \<and>
     kv_get m' (usernameIndexKey (bu_Username u) @ ''/'') = Some (usernameIndexValue (bu_Username u))"
    using Cons.IH [OF g] by blast
  have n: "bu_Username u \<noteq> []" "CHR ''/'' \<notin> set (bu_Username u)" "bu_Password u = []" "bu_PasswordHash u \<noteq> []"
    using Cons.prems by (auto simp: good_users_def)
  note f = boot_keys_fresh [OF Cons.prems] boot_users_frame [OF m'(1)]
  have "kv_get m' (userKey (bu_Username u)) = Some (marshal_user (boot_user u))"
    using f user_index_key [OF n(2,1)] by (simp add: kv_get_put userKey_def)
  moreover have "kv_get m' (usernameIndexKey (bu_Username u) @ ''/'') = Some (usernameIndexValue (bu_Username u))"
    using f by (simp add: kv_get_put)
  moreover have "boot_users (u # us) m = Inr m'" using m'(1) n by simp
  ultimately show ?case using m'(2) by auto
qed simp

lemma boot_channels_frame: "boot_channels ps m = Inr m' \<Longrightarrow> k \<notin> channelKey ` ch_ID ` set ps \<Longrightarrow> kv_get m' k = kv_get m k"
proof (induction ps arbitrary: m)
  case (Cons p ps)
  then show ?case by (auto simp: kv_get_put channelKey_def split: if_splits)
qed simp

lemma boot_channels_get:
  "distinct (map ch_ID ps) \<Longrightarrow> \<forall>p \<in> set ps. ch_ID p \<noteq> [] \<Longrightarrow>
     \<exists>m'. boot_channels ps m = Inr m' \<and> (\<forall>p \<in> set ps. kv_get m' (channelKey (ch_ID p)) = Some (marshal_channel p))"
proof (induction ps arbitrary: m)
  case (Cons p ps)
  let ?m = "kv_put (''/channels/'' @ ch_ID p @ ''/'') (marshal_channel p) m"
  obtain m' where m': "boot_channels ps ?m = Inr m'" "\<forall>p \<in> set ps. kv_get m' (channelKey (ch_ID p)) = Some (marshal_channel p)"
    using Cons.IH [of ?m] Cons.prems by auto
  have "channelKey (ch_ID p) \<notin> channelKey ` ch_ID ` set ps" using Cons.prems(1) by auto
  then have "kv_get m' (channelKey (ch_ID p)) = Some (marshal_channel p)"
    using boot_channels_frame [OF m'(1)] by (simp add: kv_get_put channelKey_def)
  then show ?case using m' Cons.prems(2) by auto
qed simp

text \<open>The keys of the parts of a payload do not meet.\<close>

lemma key_areas:
  "k \<in> boot_keys us \<Longrightarrow> prefix ''/users/'' k" "k \<in> channelKey ` A \<Longrightarrow> prefix ''/channels/'' k"
  by (auto simp: boot_keys_def userKey_def usernameIndexKey_def channelKey_def)

definition auth_keys :: "string list" where
  "auth_keys = [''/global/auth/internal_enabled'', ''/global/auth/oidc_providers'', ''/global/server/'', ''/global/defaults/'']"

lemma boot_auth_frame: "k \<notin> set auth_keys \<Longrightarrow> kv_get (boot_auth p m) k = kv_get m k"
  by (simp add: boot_auth_def auth_keys_def Let_def kv_get_put split: option.split)

text \<open>The bucket after a bootstrap.\<close>

definition boot_bucket_of :: "fsm_bootstrap_payload \<Rightarrow> fsm_bucket \<Rightarrow> bool" where
  "boot_bucket_of p m \<longleftrightarrow> kv_wf m \<and>
     (\<forall>u \<in> set (bp_Users p). kv_get m (userKey (bu_Username u)) = Some (marshal_user (boot_user u)) \<and>
        kv_get m (usernameIndexKey (bu_Username u) @ ''/'') = Some (usernameIndexValue (bu_Username u))) \<and>
     (\<forall>c \<in> set (bp_Channels p). kv_get m (channelKey (ch_ID c)) = Some (marshal_channel c)) \<and>
     kv_get m ''/global/auth/internal_enabled'' = map_option JBool (bp_InternalAuthEnabled p) \<and>
     kv_get m ''/global/auth/oidc_providers'' =
       (if bp_OIDCProviders p = [] then None else Some (JArr (map marshal_oidc_provider (bp_OIDCProviders p)))) \<and>
     kv_get m ''/global/server/'' = map_option (\<lambda>g. marshal_server_config (gc_Server g)) (bp_Global p) \<and>
     kv_get m ''/global/defaults/'' = map_option (\<lambda>g. marshal_defaults_config (gc_Defaults g)) (bp_Global p)"

definition good_payload :: "fsm_bootstrap_payload \<Rightarrow> bool" where
  "good_payload p \<longleftrightarrow> good_users (bp_Users p) \<and> distinct (map ch_ID (bp_Channels p)) \<and> (\<forall>c \<in> set (bp_Channels p). ch_ID c \<noteq> [])"

lemma boot_global_get:
  "kv_get (boot_global g []) ''/global/auth/internal_enabled'' = None" "kv_get (boot_global g []) ''/global/auth/oidc_providers'' = None"
  "kv_get (boot_global g []) ''/global/server/'' = map_option (\<lambda>g. marshal_server_config (gc_Server g)) g"
  "kv_get (boot_global g []) ''/global/defaults/'' = map_option (\<lambda>g. marshal_defaults_config (gc_Defaults g)) g"
  by (cases g; simp add: boot_global_def kv_get_put del: kv_put.simps)+

lemma boot_bucket:
  assumes "good_payload p"
  shows "\<exists>m1 m2. boot_users (bp_Users p) (boot_global (bp_Global p) []) = Inr m1 \<and> boot_channels (bp_Channels p) m1 = Inr m2 \<and>
     boot_bucket_of p (boot_auth p m2)"
proof -
  obtain m1 where m1: "boot_users (bp_Users p) (boot_global (bp_Global p) []) = Inr m1" "\<forall>u \<in> set (bp_Users p).
     kv_get m1 (userKey (bu_Username u)) = Some (marshal_user (boot_user u)) \<and>
     kv_get m1 (usernameIndexKey (bu_Username u) @ ''/'') = Some (usernameIndexValue (bu_Username u))"
    using boot_users_get [of "bp_Users p" "boot_global (bp_Global p) []"] assms by (auto simp: good_payload_def)
  obtain m2 where m2: "boot_channels (bp_Channels p) m1 = Inr m2"
    "\<forall>c \<in> set (bp_Channels p). kv_get m2 (channelKey (ch_ID c)) = Some (marshal_channel c)"
    using boot_channels_get [of "bp_Channels p" m1] assms by (auto simp: good_payload_def)
  have w: "kv_wf (boot_auth p m2)"
    by (intro kv_wf_boot_auth kv_wf_boot_channels [OF m2(1)] kv_wf_boot_users [OF m1(1)] kv_wf_boot_global) simp
  have u: "kv_get (boot_auth p m2) k = kv_get m1 k" if "prefix ''/users/'' k" for k
  proof -
    have "k \<notin> set auth_keys" "k \<notin> channelKey ` ch_ID ` set (bp_Channels p)" using that by (auto simp: auth_keys_def channelKey_def)
    then show ?thesis using boot_auth_frame boot_channels_frame [OF m2(1)] by simp
  qed
  have c: "kv_get (boot_auth p m2) (channelKey i) = kv_get m2 (channelKey i)" for i
    by (rule boot_auth_frame) (simp add: auth_keys_def channelKey_def)
  have g: "kv_get m2 k = kv_get (boot_global (bp_Global p) []) k" if "prefix ''/global/'' k" for k
  proof -
    have "k \<notin> boot_keys (bp_Users p)" "k \<notin> channelKey ` ch_ID ` set (bp_Channels p)"
      using that by (auto dest!: key_areas simp: prefix_def)
    then show ?thesis using boot_users_frame [OF m1(1)] boot_channels_frame [OF m2(1)] by simp
  qed
  have gs: "kv_get m2 ''/global/auth/internal_enabled'' = None" "kv_get m2 ''/global/auth/oidc_providers'' = None"
    "kv_get m2 ''/global/server/'' = map_option (\<lambda>g. marshal_server_config (gc_Server g)) (bp_Global p)"
    "kv_get m2 ''/global/defaults/'' = map_option (\<lambda>g. marshal_defaults_config (gc_Defaults g)) (bp_Global p)"
    using g [of "''/global/auth/internal_enabled''"] g [of "''/global/auth/oidc_providers''"] g [of "''/global/server/''"]
      g [of "''/global/defaults/''"] boot_global_get [of "bp_Global p"] by simp_all
  have "boot_bucket_of p (boot_auth p m2)"
    unfolding boot_bucket_of_def
  proof (intro conjI ballI)
    fix x assume x: "x \<in> set (bp_Users p)"
    have "prefix ''/users/'' (userKey (bu_Username x))" "prefix ''/users/'' (usernameIndexKey (bu_Username x) @ ''/'')"
      by (simp_all add: userKey_def usernameIndexKey_def)
    then show "kv_get (boot_auth p m2) (userKey (bu_Username x)) = Some (marshal_user (boot_user x))"
      "kv_get (boot_auth p m2) (usernameIndexKey (bu_Username x) @ ''/'') = Some (usernameIndexValue (bu_Username x))"
      using u m1(2) x by simp_all
  next
    fix x assume "x \<in> set (bp_Channels p)"
    then show "kv_get (boot_auth p m2) (channelKey (ch_ID x)) = Some (marshal_channel x)" using m2(2) by (simp add: c)
  qed (rule w, (cases "bp_InternalAuthEnabled p"; simp add: gs boot_auth_def Let_def kv_get_put)+)
  then show ?thesis using m1(1) m2(1) by blast
qed

section \<open>Sealing and reading back\<close>

definition seal_rand_ok :: "seal_rand \<Rightarrow> bool" where
  "seal_rand_ok sr \<longleftrightarrow> rand_ok 12 (sr_config sr) \<and> (\<forall>i. rand_ok 12 (sr_channel sr i)) \<and> rand_ok 12 (sr_provider sr)"

lemma open_seal_channels:
  assumes "aead_correct C" "keeper_ok rs"
  shows "(\<And>i. rand_ok 12 (ns i)) \<Longrightarrow> \<exists>qs. seal_channels C rs ns ps = Inr qs \<and> map ch_ID qs = map ch_ID ps \<and>
     list_all2 (\<lambda>q p. openChannel C rs q = Inr p) qs ps"
proof (induction ps arbitrary: ns)
  case (Cons p ps)
  obtain q where q: "sealChannel C rs (ns 0) p = Inr q" "ch_ID q = ch_ID p" "openChannel C rs q = Inr p"
    using open_sealChannel [OF assms Cons.prems] by blast
  obtain qs where "seal_channels C rs (\<lambda>i. ns (Suc i)) ps = Inr qs" "map ch_ID qs = map ch_ID ps"
    "list_all2 (\<lambda>q p. openChannel C rs q = Inr p) qs ps"
    using Cons.IH [of "\<lambda>i. ns (Suc i)"] Cons.prems by blast
  then show ?case using q by simp
qed simp

lemma open_seal_payload:
  assumes "aead_correct C" "keeper_ok rs" "seal_rand_ok sr"
  shows "\<exists>q. seal_payload C rs sr p = Inr q \<and> bp_Users q = bp_Users p \<and> bp_InternalAuthEnabled q = bp_InternalAuthEnabled p \<and>
     map ch_ID (bp_Channels q) = map ch_ID (bp_Channels p) \<and>
     list_all2 (\<lambda>q p. openChannel C rs q = Inr p) (bp_Channels q) (bp_Channels p) \<and>
     open_providers C rs (bp_OIDCProviders q) = Inr (bp_OIDCProviders p) \<and>
     (case bp_Global p of None \<Rightarrow> bp_Global q = None | Some g \<Rightarrow> \<exists>h. bp_Global q = Some h \<and> openConfig C rs h = Inr g)"
proof -
  obtain qs where qs: "seal_channels C rs (sr_channel sr) (bp_Channels p) = Inr qs" "map ch_ID qs = map ch_ID (bp_Channels p)"
    "list_all2 (\<lambda>q p. openChannel C rs q = Inr p) qs (bp_Channels p)"
    using open_seal_channels [OF assms(1,2)] assms(3) by (metis seal_rand_ok_def)
  obtain ps where ps: "seal_providers C rs (sr_provider sr) (bp_OIDCProviders p) = Inr ps" "open_providers C rs ps = Inr (bp_OIDCProviders p)"
    using open_seal_providers [OF assms(1,2)] assms(3) by (metis seal_rand_ok_def)
  show ?thesis
  proof (cases "bp_Global p")
    case None
    then show ?thesis using qs ps by (simp add: seal_payload_def)
  next
    case (Some g)
    obtain h where "sealConfig C rs (sr_config sr) g = Inr h" "openConfig C rs h = Inr g"
      using open_sealConfig [OF assms(1,2)] assms(3) by (metis seal_rand_ok_def)
    then show ?thesis using Some qs ps by (simp add: seal_payload_def)
  qed
qed

lemma open_providers_length: "open_providers C rs qs = Inr ps \<Longrightarrow> (qs = [] \<longleftrightarrow> ps = [])"
  by (cases qs) (auto simp: bindE_Inr_iff)

lemma HasData_ready: "store_ready rs \<Longrightarrow> bucket rs = [] \<Longrightarrow> HasData rs = Inr False"
  by (simp add: HasData_def keys_ready kv_keys_def)

lemma bootstrap_applied:
  assumes "store_ready rs" "bucket rs = []" "good_payload q"
  shows "\<exists>m. Apply rs (bootstrap_command q) = (Inr None, with_bucket rs m) \<and> boot_bucket_of q m"
proof -
  obtain m1 m2 where m: "boot_users (bp_Users q) (boot_global (bp_Global q) []) = Inr m1" "boot_channels (bp_Channels q) m1 = Inr m2"
     "boot_bucket_of q (boot_auth q m2)" using boot_bucket [OF assms(3)] by blast
  have db: "db_fsm (rs_db rs) = Some []" "db_update_err (rs_db rs) = None" using assms(1,2) by (auto simp: store_ready_def bucket_def split: option.splits)
  have "FSM_Apply (rs_db rs) (Some (bootstrap_command q)) = (None, (rs_db rs)\<lparr>db_fsm := Some (boot_auth q m2)\<rparr>)"
    using m(1,2) db by (simp add: FSM_Apply_def bootstrap_command_def applyBootstrap_def bootstrap_roundtrip fsm_Update_def)
  then show ?thesis using m(3) by (auto simp: Apply_ready [OF assms(1)] with_bucket_def)
qed

lemma boot_bucket_reads:
  assumes "store_ready rs" "boot_bucket_of q m"
  shows "store_ready (with_bucket rs m)"
    "u \<in> set (bp_Users q) \<Longrightarrow> GetUserByUsername (with_bucket rs m) (bu_Username u) = Inr (boot_user u)"
    "c \<in> set (bp_Channels q) \<Longrightarrow> ch_ID c \<noteq> [] \<Longrightarrow> GetChannel C (with_bucket rs m) (ch_ID c) = openChannel C rs c"
    "InternalAuthEnabled (with_bucket rs m) = Inr (bp_InternalAuthEnabled q)"
    "open_providers C rs (bp_OIDCProviders q) = Inr ps \<Longrightarrow> OIDCProviders C (with_bucket rs m) = Inr ps"
    "bp_Global q = Some g \<Longrightarrow> GetGlobalConfig C (with_bucket rs m) = openConfig C rs g"
proof -
  show r: "store_ready (with_bucket rs m)" using assms by (intro store_ready_with) (simp_all add: boot_bucket_of_def)
  show "GetUserByUsername (with_bucket rs m) (bu_Username u) = Inr (boot_user u)" if "u \<in> set (bp_Users q)"
    using that assms(2) by (simp add: GetUserByUsername_ready [OF r] GetUser_ready [OF r] boot_bucket_of_def usernameIndex_roundtrip user_roundtrip)
  show "GetChannel C (with_bucket rs m) (ch_ID c) = openChannel C rs c" if "c \<in> set (bp_Channels q)" "ch_ID c \<noteq> []"
    using that assms(2) by (simp add: GetChannel_ready [OF r] boot_bucket_of_def channel_roundtrip open_with_bucket)
  show "InternalAuthEnabled (with_bucket rs m) = Inr (bp_InternalAuthEnabled q)"
    using assms(2) by (simp add: InternalAuthEnabled_def get_ready [OF r] boot_bucket_of_def dec_var_def split: option.split)
  show "OIDCProviders C (with_bucket rs m) = Inr ps" if "open_providers C rs (bp_OIDCProviders q) = Inr ps"
    using that assms(2) open_providers_length [OF that]
    by (auto simp: OIDCProviders_def get_ready [OF r] boot_bucket_of_def dec_var_def oidc_provider_dec_list open_providers_with simp del: dec_arr.simps)
  show "GetGlobalConfig C (with_bucket rs m) = openConfig C rs g" if "bp_Global q = Some g"
    using that assms(2) by (cases g) (simp add: GetGlobalConfig_def get_ready [OF r] boot_bucket_of_def server_config_roundtrip defaults_config_roundtrip open_with_bucket)
qed

section \<open>Properties\<close>

lemma hash_users_ok:
  "hash_users C salt us = Inr hs \<Longrightarrow> u \<in> set us \<Longrightarrow>
     \<exists>h \<in> set hs. bu_Username h = bs_Username u \<and> bu_Roles h = bs_Roles u \<and> bu_Channels h = bs_Channels u \<and>
       (\<exists>s. bcrypt_Generate C (bs_Password u) s = Some (bu_PasswordHash h))"
proof (induction us arbitrary: salt hs)
  case (Cons a us)
  then show ?case by (fastforce simp: bindE_Inr_iff split: option.splits)
qed simp

lemma hash_users_names:
  "hash_users C salt us = Inr hs \<Longrightarrow> map bu_Username hs = map bs_Username us \<and> (\<forall>h \<in> set hs. bu_Password h = [] \<and>
     (\<exists>pw s. bcrypt_Generate C pw s = Some (bu_PasswordHash h)))"
proof (induction us arbitrary: salt hs)
  case (Cons a us)
  then show ?case by (fastforce simp: bindE_Inr_iff split: option.splits)
qed simp

lemma hash_users_hashed:
  "hash_users C salt us = Inr hs \<Longrightarrow> \<forall>h \<in> set hs. bu_Password h = [] \<and> (\<exists>u \<in> set us. \<exists>s. bcrypt_Generate C (bs_Password u) s = Some (bu_PasswordHash h))"
proof (induction us arbitrary: salt hs)
  case (Cons a us)
  then show ?case by (fastforce simp: bindE_Inr_iff split: option.splits)
qed simp

lemma mapE_mem: "mapE f xs = Inr ys \<Longrightarrow> x \<in> set xs \<Longrightarrow> \<exists>y \<in> set ys. f x = Inr y"
  by (induction xs arbitrary: ys) (auto simp: bindE_Inr_iff)

lemma boot_channel_ID: "boot_channel C c = Inr ch \<Longrightarrow> ch_ID ch = bc_ID c"
  by (auto simp: boot_channel_def bindE_Inr_iff MigrateChannel_def Let_def)

lemma boot_channels_IDs: "mapE (boot_channel C) cs = Inr chs \<Longrightarrow> map ch_ID chs = map bc_ID cs"
  by (induction cs arbitrary: chs) (auto simp: bindE_Inr_iff boot_channel_ID)

text \<open>Names that give every entry a key of its own.\<close>

definition good_names :: "bootstrap_config \<Rightarrow> bool" where
  "good_names cfg \<longleftrightarrow> distinct (map bs_Username (bf_Users cfg)) \<and> distinct (map bc_ID (bf_Channels cfg)) \<and>
     (\<forall>u \<in> set (bf_Users cfg). bs_Username u \<noteq> [] \<and> CHR ''/'' \<notin> set (bs_Username u)) \<and> (\<forall>c \<in> set (bf_Channels cfg). bc_ID c \<noteq> [])"

text \<open>What \<open>bcrypt\<close> promises: a hash is not empty and its password compares equal.\<close>

definition bcrypt_correct :: "crypto \<Rightarrow> bool" where
  "bcrypt_correct C \<longleftrightarrow> (\<forall>pw s h. bcrypt_Generate C pw s = Some h \<longrightarrow> h \<noteq> [] \<and> bcrypt_Compare C h pw)"

lemma good_payload_of:
  assumes "bootstrap_payload C salt cfg = Inr p" "good_names cfg" "bcrypt_correct C"
  shows "good_payload p"
proof -
  obtain us chs where p: "hash_users C salt (bf_Users cfg) = Inr us" "mapE (boot_channel C) (bf_Channels cfg) = Inr chs"
    "bp_Users p = us" "bp_Channels p = chs"
    using assms(1) by (auto simp: bootstrap_payload_def bindE_Inr_iff)
  note n = hash_users_names [OF p(1)] boot_channels_IDs [OF p(2)]
  have "bu_Username ` set us = bs_Username ` set (bf_Users cfg)" "ch_ID ` set chs = bc_ID ` set (bf_Channels cfg)"
    using n by (metis set_map)+
  then have "\<forall>u \<in> set us. bu_Username u \<noteq> [] \<and> CHR ''/'' \<notin> set (bu_Username u)" "\<forall>c \<in> set chs. ch_ID c \<noteq> []"
    using assms(2) unfolding good_names_def by (metis imageE image_eqI)+
  moreover have "\<forall>u \<in> set us. bu_Password u = [] \<and> bu_PasswordHash u \<noteq> []" using n(1) assms(3) unfolding bcrypt_correct_def by blast
  moreover have "distinct (map bu_Username us)" "distinct (map ch_ID chs)" using n assms(2) by (simp_all add: good_names_def)
  ultimately show ?thesis using p(3,4) by (simp add: good_payload_def good_users_def)
qed

text \<open>C20: A bootstrap of an empty store leaves what the file says. Every user of the file can be looked up by name,
  with the roles and channels of the file, and its password is valid for the stored hash; every channel reads
  back with its secrets opened, and its access tokens are accepted for their scope; the authentication
  settings and the global settings are the ones of the file.\<close>

theorem bootstrap_seeds:
  assumes "store_ready rs" "bucket rs = []" "aead_correct C" "keeper_ok rs" "seal_rand_ok sr" "bcrypt_correct C" "good_names cfg"
    and "bootstrap_payload C salt cfg = Inr p"
  shows "\<exists>rs'. ApplyBootstrap C salt sr rs cfg = (None, rs') \<and> store_ready rs' \<and>
     (\<forall>u \<in> set (bf_Users cfg). \<exists>v. GetUserByUsername rs' (bs_Username u) = Inr v \<and> us_Roles v = bs_Roles u \<and> us_Channels v = bs_Channels u \<and>
        ValidatePassword C (us_PasswordHash v) (bs_Password u)) \<and>
     (\<forall>c \<in> set (bf_Channels cfg). \<exists>ch. boot_channel C c = Inr ch \<and> GetChannel C rs' (bc_ID c) = Inr ch \<and>
        (\<forall>t \<in> set (bc_AccessTokens c). ValidateChannelToken C rs' (bc_ID c) (bt_Token t) (bt_Scope t))) \<and>
     OIDCProviders C rs' = Inr (bp_OIDCProviders p) \<and> InternalAuthEnabled rs' = Inr (bp_InternalAuthEnabled p) \<and>
     (\<forall>g. bf_Global cfg = Some g \<longrightarrow> GetGlobalConfig C rs' = Inr g)"
proof -
  obtain q where q: "seal_payload C rs sr p = Inr q" "bp_Users q = bp_Users p" "bp_InternalAuthEnabled q = bp_InternalAuthEnabled p"
    "map ch_ID (bp_Channels q) = map ch_ID (bp_Channels p)" "list_all2 (\<lambda>q p. openChannel C rs q = Inr p) (bp_Channels q) (bp_Channels p)"
    "open_providers C rs (bp_OIDCProviders q) = Inr (bp_OIDCProviders p)"
    "case bp_Global p of None \<Rightarrow> bp_Global q = None | Some g \<Rightarrow> \<exists>h. bp_Global q = Some h \<and> openConfig C rs h = Inr g"
    using open_seal_payload [OF assms(3,4,5)] by blast
  have gp: "good_payload p" by (rule good_payload_of [OF assms(8,7,6)])
  have ids: "ch_ID ` set (bp_Channels q) = ch_ID ` set (bp_Channels p)" using q(4) by (metis set_map)
  then have gq: "good_payload q" using gp q(2,4) unfolding good_payload_def by (metis imageE image_eqI)
  obtain m where m: "Apply rs (bootstrap_command q) = (Inr None, with_bucket rs m)" "boot_bucket_of q m"
    using bootstrap_applied [OF assms(1,2) gq] by blast
  let ?rs = "with_bucket rs m"
  note reads = boot_bucket_reads [OF assms(1) m(2)]
  have a: "ApplyBootstrap C salt sr rs cfg = (None, ?rs)"
    using HasData_ready [OF assms(1,2)] assms(8) q(1) m(1) by (simp add: ApplyBootstrap_def)
  obtain us chs where p: "hash_users C salt (bf_Users cfg) = Inr us" "mapE (boot_channel C) (bf_Channels cfg) = Inr chs"
    "bp_Users p = us" "bp_Channels p = chs" "bp_Global p = bf_Global cfg"
    using assms(8) by (auto simp: bootstrap_payload_def bindE_Inr_iff)
  have users: "\<exists>v. GetUserByUsername ?rs (bs_Username u) = Inr v \<and> us_Roles v = bs_Roles u \<and> us_Channels v = bs_Channels u \<and>
      ValidatePassword C (us_PasswordHash v) (bs_Password u)" if u: "u \<in> set (bf_Users cfg)" for u
  proof -
    obtain h s where h: "h \<in> set us" "bu_Username h = bs_Username u" "bu_Roles h = bs_Roles u" "bu_Channels h = bs_Channels u"
      "bcrypt_Generate C (bs_Password u) s = Some (bu_PasswordHash h)" using hash_users_ok [OF p(1) u] by blast
    then have "bcrypt_Compare C (bu_PasswordHash h) (bs_Password u)" using assms(6) by (auto simp: bcrypt_correct_def)
    then show ?thesis using reads(2) [of h] h p(3) q(2) by (auto simp: boot_user_def ValidatePassword_def)
  qed
  have channels: "\<exists>ch. boot_channel C c = Inr ch \<and> GetChannel C ?rs (bc_ID c) = Inr ch \<and>
      (\<forall>t \<in> set (bc_AccessTokens c). ValidateChannelToken C ?rs (bc_ID c) (bt_Token t) (bt_Scope t))" if c: "c \<in> set (bf_Channels cfg)" for c
  proof -
    obtain ch where ch: "ch \<in> set chs" "boot_channel C c = Inr ch" using mapE_mem [OF p(2) c] by blast
    then obtain i where i: "i < length chs" "chs ! i = ch" by (metis in_set_conv_nth)
    have l: "length (bp_Channels q) = length chs" using arg_cong [OF q(4), of length] p(4) by simp
    have o: "openChannel C rs (bp_Channels q ! i) = Inr ch" using list_all2_nthD2 [OF q(5), of i] p(4) i by simp
    have id: "ch_ID (bp_Channels q ! i) = bc_ID c" using q(4) p(4) i l boot_channel_ID [OF ch(2)] nth_map [of i "bp_Channels q" ch_ID] nth_map [of i chs ch_ID] by simp
    have "bc_ID c \<noteq> []" using assms(7) c by (simp add: good_names_def)
    then have g: "GetChannel C ?rs (bc_ID c) = Inr ch" using reads(3) [of "bp_Channels q ! i" C] i l o id by simp
    have "ValidateChannelToken C ?rs (bc_ID c) (bt_Token t) (bt_Scope t)" if t: "t \<in> set (bc_AccessTokens c)" for t
    proof -
      obtain ts where ts: "mapE (boot_token C) (bc_AccessTokens c) = Inr ts" "ch_AccessTokens ch = ts"
        using ch(2) by (auto simp: boot_channel_def bindE_Inr_iff MigrateChannel_def Let_def)
      obtain x where x: "x \<in> set ts" "boot_token C t = Inr x" using mapE_mem [OF ts(1) t] by blast
      then have "ct_TokenHash x = HashToken C (bt_Token t)" "ct_Scope x = ''both'' \<or> ct_Scope x = bt_Scope t"
        by (auto simp: boot_token_def hashBootstrapToken_def HashToken_def split: if_splits)
      then show ?thesis using g x(1) ts(2) by (auto simp: ValidateChannelToken_def list_ex_iff)
    qed
    then show ?thesis using ch(2) g by blast
  qed
  have global: "GetGlobalConfig C ?rs = Inr g" if "bf_Global cfg = Some g" for g
    using that p(5) q(7) reads(6) by auto
  show ?thesis using a reads(1) reads(5) [OF q(6)] reads(4) q(3) users channels global by auto
qed

text \<open>A small bootstrap file.\<close>

definition demo_boot :: bootstrap_config where
  "demo_boot = empty_bootstrap\<lparr>bf_Users := [\<lparr>bs_Username = ''ann'', bs_Password = ''pw'', bs_Roles = [''admin''], bs_Channels = []\<rparr>],
     bf_Channels := [\<lparr>bc_ID = ''c1'', bc_Description = [], bc_WebhookSecret = ''s'', bc_WebhookSignatures = [], bc_AllowedIPs = [],
       bc_AccessMode = [], bc_AccessTokens = [\<lparr>bt_ID = ''t1'', bt_Name = ''ci'', bt_Token = ''tok'', bt_Scope = ''produce''\<rparr>]\<rparr>]\<rparr>"

definition demo_seal_rand :: seal_rand where
  "demo_seal_rand = \<lparr>sr_config = demo_ns, sr_channel = (\<lambda>_. demo_ns), sr_provider = demo_ns\<rparr>"

lemma demo_seal_rand_ok: "seal_rand_ok demo_seal_rand"
  using demo_store_ready(4) by (simp add: seal_rand_ok_def demo_seal_rand_def)

lemma toy_bcrypt: "bcrypt_correct toy_crypto"
  by (simp add: bcrypt_correct_def toy_crypto_def)

lemma demo_boot_names: "good_names demo_boot"
  by (simp add: good_names_def demo_boot_def empty_bootstrap_def)

lemma demo_boot_payload: "\<exists>p. bootstrap_payload toy_crypto salt demo_boot = Inr p"
  by (simp add: bootstrap_payload_def demo_boot_def empty_bootstrap_def boot_channel_def boot_token_def boot_auth_payload_def toy_crypto_def)

lemma demo_boot_applies:
  assumes "bootstrap_payload toy_crypto salt demo_boot = Inr p"
  shows "\<exists>rs'. ApplyBootstrap toy_crypto salt demo_seal_rand demo_store demo_boot = (None, rs')"
proof -
  obtain q where q: "seal_payload toy_crypto demo_store demo_seal_rand p = Inr q"
    using open_seal_payload [OF toy_aead(1) demo_store_ready(2) demo_seal_rand_ok] by blast
  then show ?thesis using assms HasData_ready [OF demo_store_ready(1,6)]
    by (simp add: ApplyBootstrap_def Apply_ready [OF demo_store_ready(1)])
qed

theorem bootstrap_seeds_witness:
  "\<exists>rs' v. ApplyBootstrap toy_crypto (\<lambda>_. []) demo_seal_rand demo_store demo_boot = (None, rs') \<and>
     GetUserByUsername rs' ''ann'' = Inr v \<and> us_Roles v = [''admin''] \<and> ValidatePassword toy_crypto (us_PasswordHash v) ''pw'' \<and>
     ValidateChannelToken toy_crypto rs' ''c1'' ''tok'' ''produce''"
proof -
  obtain p where p: "bootstrap_payload toy_crypto (\<lambda>_. []) demo_boot = Inr p" using demo_boot_payload by blast
  show ?thesis
    using bootstrap_seeds [OF demo_store_ready(1,6) toy_aead(1) demo_store_ready(2) demo_seal_rand_ok toy_bcrypt demo_boot_names p]
    by (auto simp: demo_boot_def)
qed

text \<open>What is sealed.\<close>

lemma seal_channels_form:
  "rs_keeper rs \<noteq> None \<Longrightarrow> seal_channels C rs ns ps = Inr qs \<Longrightarrow>
     list_all2 (\<lambda>p q. list_all2 sealed_form (channel_secrets p) (channel_secrets q) \<and> ch_AccessTokens q = ch_AccessTokens p) ps qs"
proof (induction ps arbitrary: ns qs)
  case (Cons p ps)
  obtain q qs' where q: "sealChannel C rs (ns 0) p = Inr q" "seal_channels C rs (\<lambda>i. ns (Suc i)) ps = Inr qs'" "qs = q # qs'"
    using Cons.prems by (auto simp: bindE_Inr_iff)
  have "ch_AccessTokens q = ch_AccessTokens p" using q(1) by (auto simp: sealChannel_def bindE_Inr_iff split: if_splits)
  then show ?case using q Cons.IH [OF Cons.prems(1) q(2)] Cons.prems(1) by (auto intro: sealChannel_form)
qed simp

lemma seal_providers_form:
  "rs_keeper rs \<noteq> None \<Longrightarrow> seal_providers C rs ns ps = Inr qs \<Longrightarrow>
     list_all2 (\<lambda>p q. sealed_form (op_ClientSecret p) (op_ClientSecret q)) ps qs"
  by (induction ps arbitrary: ns qs) (auto simp: bindE_Inr_iff sealString_form)

lemma sealConfig_form:
  "rs_keeper rs \<noteq> None \<Longrightarrow> sealConfig C rs ns g = Inr h \<Longrightarrow> sealed_form (sc_SessionSecret (gc_Server g)) (sc_SessionSecret (gc_Server h)) \<and>
     sealed_form (dc_WebhookSecret (gc_Defaults g)) (dc_WebhookSecret (gc_Defaults h))"
  by (auto simp: sealConfig_def bindE_Inr_iff sealString_form split: if_splits)

lemma boot_channel_hashes: "boot_channel C c = Inr ch \<Longrightarrow> map ct_TokenHash (ch_AccessTokens ch) = map (\<lambda>t. HashToken C (bt_Token t)) (bc_AccessTokens c)"
proof -
  assume "boot_channel C c = Inr ch"
  then obtain ts where ts: "mapE (boot_token C) (bc_AccessTokens c) = Inr ts" "ch_AccessTokens ch = ts"
    by (auto simp: boot_channel_def bindE_Inr_iff MigrateChannel_def Let_def)
  have "mapE (boot_token C) bs = Inr ts \<Longrightarrow> map ct_TokenHash ts = map (\<lambda>t. HashToken C (bt_Token t)) bs" for bs ts
    by (induction bs arbitrary: ts) (auto simp: bindE_Inr_iff boot_token_def hashBootstrapToken_def HashToken_def split: if_splits)
  then show ?thesis using ts by blast
qed

lemma boot_channels_hashes:
  "mapE (boot_channel C) cs = Inr chs \<Longrightarrow>
     map (\<lambda>ch. map ct_TokenHash (ch_AccessTokens ch)) chs = map (\<lambda>c. map (\<lambda>t. HashToken C (bt_Token t)) (bc_AccessTokens c)) cs"
  by (induction cs arbitrary: chs) (auto simp: bindE_Inr_iff boot_channel_hashes)



text \<open>The answer of the state machine is dropped: a file in which one user has no name, or one channel no
  identifier, is reported as applied, and the store is still empty. An empty store has no authentication configuration,
  with which \<open>RequireAuthDynamic\<close> lets every request through.\<close>

lemma boot_users_nameless: "u \<in> set us \<Longrightarrow> bu_Username u = [] \<Longrightarrow> \<exists>e. boot_users us m = Inl e"
  by (induction us arbitrary: m) auto

lemma boot_channels_nameless: "c \<in> set cs \<Longrightarrow> ch_ID c = [] \<Longrightarrow> \<exists>e. boot_channels cs m = Inl e"
  by (induction cs arbitrary: m) auto

lemma empty_store_open: "store_ready rs \<Longrightarrow> bucket rs = [] \<Longrightarrow> BuildAuthConfig C rs = None"
  by (simp add: BuildAuthConfig_def IsInternalAuthEnabled_def InternalAuthEnabled_def OIDCProviders_def ListUsers_def get_ready keys_ready kv_keys_def Let_def)

theorem bootstrap_error_unreported:
  assumes "store_ready rs" "bucket rs = []" "aead_correct C" "keeper_ok rs" "seal_rand_ok sr"
    and "bootstrap_payload C salt cfg = Inr p"
    and "[] \<in> bs_Username ` set (bf_Users cfg) \<or> [] \<in> bc_ID ` set (bf_Channels cfg)"
  shows "ApplyBootstrap C salt sr rs cfg = (None, rs) \<and> BuildAuthConfig C rs = None"
proof -
  obtain q where q: "seal_payload C rs sr p = Inr q" "bp_Users q = bp_Users p" "map ch_ID (bp_Channels q) = map ch_ID (bp_Channels p)"
    using open_seal_payload [OF assms(3,4,5)] by blast
  obtain us chs where p: "hash_users C salt (bf_Users cfg) = Inr us" "mapE (boot_channel C) (bf_Channels cfg) = Inr chs"
    "bp_Users p = us" "bp_Channels p = chs"
    using assms(6) by (auto simp: bootstrap_payload_def bindE_Inr_iff)
  have "bu_Username ` set us = bs_Username ` set (bf_Users cfg)" "ch_ID ` set (bp_Channels q) = bc_ID ` set (bf_Channels cfg)"
    using arg_cong [of _ _ set] hash_users_names [OF p(1)] boot_channels_IDs [OF p(2)] q(3) p(4) by (metis set_map)+
  then have bad: "(\<exists>u \<in> set (bp_Users q). bu_Username u = []) \<or> (\<exists>c \<in> set (bp_Channels q). ch_ID c = [])"
    using assms(7) q(2) p(3) by (metis imageE)
  have "\<exists>e. bindE (boot_users (bp_Users q) (boot_global (bp_Global q) [])) (\<lambda>m1.
      bindE (boot_channels (bp_Channels q) m1) (\<lambda>m2. Inr (Some (boot_auth q m2)))) = Inl e"
    using bad
  proof
    assume "\<exists>u \<in> set (bp_Users q). bu_Username u = []"
    then obtain e where "boot_users (bp_Users q) (boot_global (bp_Global q) []) = Inl e" using boot_users_nameless by blast
    then show ?thesis by simp
  next
    assume "\<exists>c \<in> set (bp_Channels q). ch_ID c = []"
    then have "\<exists>e. boot_channels (bp_Channels q) m = Inl e" for m using boot_channels_nameless by blast
    then show ?thesis by (cases "boot_users (bp_Users q) (boot_global (bp_Global q) [])") (auto, metis bindE_simps(1))
  qed
  then obtain e where e: "bindE (boot_users (bp_Users q) (boot_global (bp_Global q) [])) (\<lambda>m1.
      bindE (boot_channels (bp_Channels q) m1) (\<lambda>m2. Inr (Some (boot_auth q m2)))) = Inl e" by blast
  have db: "db_fsm (rs_db rs) = Some []" "db_update_err (rs_db rs) = None" using assms(1,2) by (auto simp: store_ready_def bucket_def split: option.splits)
  have "FSM_Apply (rs_db rs) (Some (bootstrap_command q)) = (Some e, rs_db rs)"
    using e db by (simp add: FSM_Apply_def bootstrap_command_def applyBootstrap_def bootstrap_roundtrip fsm_Update_def)
  then have "Apply rs (bootstrap_command q) = (Inr (Some e), rs)" by (simp add: Apply_ready [OF assms(1)])
  then show ?thesis using HasData_ready [OF assms(1,2)] assms(6) q(1) empty_store_open [OF assms(1,2)] by (simp add: ApplyBootstrap_def)
qed

theorem bootstrap_error_unreported_witness:
  "\<exists>p. bootstrap_payload toy_crypto (\<lambda>_. []) (demo_boot\<lparr>bf_Channels := [(bf_Channels demo_boot ! 0)\<lparr>bc_ID := []\<rparr>]\<rparr>) = Inr p \<and>
     ApplyBootstrap toy_crypto (\<lambda>_. []) demo_seal_rand demo_store (demo_boot\<lparr>bf_Channels := [(bf_Channels demo_boot ! 0)\<lparr>bc_ID := []\<rparr>]\<rparr>) =
       (None, demo_store) \<and> BuildAuthConfig toy_crypto demo_store = None"
proof -
  let ?cfg = "demo_boot\<lparr>bf_Channels := [(bf_Channels demo_boot ! 0)\<lparr>bc_ID := []\<rparr>]\<rparr>"
  obtain p where p: "bootstrap_payload toy_crypto (\<lambda>_. []) ?cfg = Inr p"
    by (simp add: bootstrap_payload_def demo_boot_def empty_bootstrap_def boot_channel_def boot_token_def boot_auth_payload_def toy_crypto_def)
  then show ?thesis
    using bootstrap_error_unreported [OF demo_store_ready(1,6) toy_aead(1) demo_store_ready(2) demo_seal_rand_ok p] by simp
qed

text \<open>Only the leader of an empty cluster applies the file.\<close>

lemma applyBootstrapOnce_idle:
  "path = [] \<or> \<not> IsLeader rs \<or> HasData rs = Inr True \<Longrightarrow> applyBootstrapOnce C salt sr path loaded clientset rs = (None, rs)"
  "HasData rs = Inr True \<Longrightarrow> ApplyBootstrap C salt sr rs cfg = (Some (ErrMsg ''cannot apply bootstrap: FSM already has data''), rs)"
  by (auto simp: applyBootstrapOnce_def ApplyBootstrap_def)

end
