(* ===== verification/Startup.thy ===== *)
theory Startup
  imports Assembly Bootstrap
begin

text \<open>
  How a server process starts: the decisions of \<open>NewServer\<close> in \<open>internal/server/server.go\<close> before it serves, with
  \<open>raft_generation.go\<close>, \<open>k8s.go\<close>, \<open>atrest.go\<close> and \<open>migrate.go\<close> of the same directory. The Kubernetes API, the
  file system, the clock and the random source are arguments: what each call answers.
  The lemmas show the fencing of stale nodes, when a cluster may collapse to one node, and which keys a start ends with.
\<close>

section \<open>Recovery authorized by Kubernetes\<close>

text \<open>\<open>sts\<close> is what reading the StatefulSet answers: its \<open>spec.replicas\<close>, which may be unset; the reader is missing
  without a clientset.\<close>

definition newStatefulSetReplicaReader :: "string \<Rightarrow> string \<Rightarrow> bool \<Rightarrow> (string \<times> string) option" where
  "newStatefulSetReplicaReader namespace name clientset =
     (if namespace = [] \<or> name = [] then None else if \<not> clientset then None else Some (namespace, name))"

definition sts_replicas :: "(string \<times> string) option \<Rightarrow> (string \<Rightarrow> string \<Rightarrow> int option result) \<Rightarrow> int \<times> bool" where
  "sts_replicas reader sts = (case reader of
       None \<Rightarrow> (0, False)
     | Some (namespace, name) \<Rightarrow> (case sts namespace name of
         Inl _ \<Rightarrow> (0, False)
       | Inr None \<Rightarrow> (1, True)
       | Inr (Some n) \<Rightarrow> (n, True)))"

definition single_node_recovery :: "discovery_config \<Rightarrow> bool \<Rightarrow> (string \<Rightarrow> string \<Rightarrow> int option result) \<Rightarrow> bool" where
  "single_node_recovery cfg clientset sts \<longleftrightarrow>
     dc_StatefulSetName cfg \<noteq> [] \<and> dc_Namespace cfg \<noteq> [] \<and> dc_Replicas cfg > 1 \<and>
     sts_replicas (newStatefulSetReplicaReader (dc_Namespace cfg) (dc_StatefulSetName cfg) clientset) sts = (1, True)"

text \<open>One tick of the watcher: the time, whether this node is the leader or knows one, and the answer about the replicas.\<close>

record watch_tick =
  wt_now :: time
  wt_leader :: bool
  wt_replicas :: "int \<times> bool"

text \<open>Whether the watcher restarts the process during the ticks.\<close>

fun watchSingleNodeRecovery :: "duration \<Rightarrow> time option \<Rightarrow> watch_tick list \<Rightarrow> bool" where
  "watchSingleNodeRecovery timeout leaderlessSince [] = False"
| "watchSingleNodeRecovery timeout leaderlessSince (t # ts) =
     (if wt_leader t then watchSingleNodeRecovery timeout None ts
      else (case leaderlessSince of
          None \<Rightarrow> watchSingleNodeRecovery timeout (Some (wt_now t)) ts
        | Some since \<Rightarrow>
           (if wt_now t - since < timeout then watchSingleNodeRecovery timeout leaderlessSince ts
            else if \<not> snd (wt_replicas t) \<or> fst (wt_replicas t) \<noteq> 1 then watchSingleNodeRecovery timeout leaderlessSince ts
            else True)))"

section \<open>The generation of the cluster\<close>

type_synonym secret_data = "(string, string) kv"

definition raftGenerationKey :: string where
  "raftGenerationKey = ''generation''"

text \<open>\<open>strconv.ParseUint\<close> and \<open>strconv.FormatUint\<close> in base 10 for 64 bits\<close>

definition ParseUint :: "string \<Rightarrow> 64 word option" where
  "ParseUint s = (if s = [] \<or> \<not> list_all is_digit s \<or> dec_val 0 s \<ge> 2 ^ 64 then None else Some (of_nat (dec_val 0 s)))"

definition FormatUint :: "64 word \<Rightarrow> string" where
  "FormatUint w = show_nat (unat w)"

definition newRaftGenerationStore :: "string \<Rightarrow> string \<Rightarrow> bool \<Rightarrow> bool" where
  "newRaftGenerationStore namespace secret clientset \<longleftrightarrow> namespace \<noteq> [] \<and> secret \<noteq> [] \<and> clientset"

text \<open>\<open>got\<close> is what reading the secret answers: its data, or an error.\<close>

definition generation_read :: "secret_data result \<Rightarrow> 64 word \<times> bool" where
  "generation_read got = (case got of
       Inl _ \<Rightarrow> (0, False)
     | Inr data \<Rightarrow> (case kv_get data raftGenerationKey of
         None \<Rightarrow> (0, False)
       | Some raw \<Rightarrow> (case ParseUint raw of None \<Rightarrow> (0, False) | Some gen \<Rightarrow> (gen, True))))"

text \<open>\<open>upd\<close> is the error with which the update fails, if it does. The result comes with the data written.\<close>

definition generation_bump :: "secret_data result \<Rightarrow> error option \<Rightarrow> (64 word \<times> secret_data) result" where
  "generation_bump got upd = bindE got (\<lambda>data.
     let current = (case kv_get data raftGenerationKey of None \<Rightarrow> 0
           | Some raw \<Rightarrow> (case ParseUint raw of None \<Rightarrow> 0 | Some parsed \<Rightarrow> parsed));
         nxt = current + 1
     in case upd of Some e \<Rightarrow> Inl e | None \<Rightarrow> Inr (nxt, kv_put raftGenerationKey (FormatUint nxt) data))"

text \<open>The file with the generation of the node: its content, if it can be read.\<close>

definition readLocalGeneration :: "string option \<Rightarrow> 64 word \<times> bool" where
  "readLocalGeneration file = (case file of
       None \<Rightarrow> (0, False)
     | Some raw \<Rightarrow> (case ParseUint raw of None \<Rightarrow> (0, False) | Some gen \<Rightarrow> (gen, True)))"

definition writeLocalGeneration :: "64 word \<Rightarrow> string" where
  "writeLocalGeneration gen = FormatUint gen"

text \<open>What one start meets: whether reading the secret works, for the first and for the second time, whether the
  update works and whether the file can be written.\<close>

record gen_io =
  gi_store :: bool
  gi_read :: bool
  gi_reread :: bool
  gi_update :: bool
  gi_write :: bool

definition api_get :: "bool \<Rightarrow> secret_data \<Rightarrow> secret_data result" where
  "api_get works data = (if works then Inr data else Inl (ErrMsg ''kubernetes''))"

text \<open>The fencing of a start: whether the node is stale, the data of the secret and the local file afterwards. The
  start is assumed to get as far as writing the file, that is, the store has opened.\<close>

definition generation_start :: "bool \<Rightarrow> bool \<Rightarrow> gen_io \<Rightarrow> secret_data \<Rightarrow> string option \<Rightarrow> bool \<times> secret_data \<times> string option" where
  "generation_start bootstrapNode recovering io data file =
     (let cluster0 = (if gi_store io then fst (generation_read (api_get (gi_read io) data)) else 0);
          local0 = fst (readLocalGeneration file);
          (cluster, loc, data') =
            (if gi_store io \<and> bootstrapNode \<and> recovering then
               (case generation_bump (api_get (gi_reread io) data) (if gi_update io then None else Some (ErrMsg ''update'')) of
                  Inl _ \<Rightarrow> (cluster0, local0, data)
                | Inr (nxt, d) \<Rightarrow> (nxt, nxt, d))
             else (cluster0, local0, data));
          stale = (\<not> bootstrapNode \<and> cluster > loc);
          file' = (if gi_store io \<and> gi_write io then Some (writeLocalGeneration cluster) else file)
      in (stale, data', file'))"

text \<open>The switches of \<open>RaftConfig\<close> that the start passes on.\<close>

definition bootstrap_node :: "string \<Rightarrow> int \<Rightarrow> bool" where
  "bootstrap_node hostname replicas \<longleftrightarrow> HasSuffix hostname ''-0'' \<or> replicas \<le> 1"

definition start_config :: "discovery_config \<Rightarrow> string list \<Rightarrow> string \<Rightarrow> bool \<Rightarrow> bool \<Rightarrow> bool \<Rightarrow> raft_config" where
  "start_config cfg peers advertise recoveryFlag stale single = \<lparr>rc_NodeID = dc_NodeID cfg, rc_BindAddr = dc_BindAddr cfg,
     rc_AdvertiseAddr = advertise, rc_Peers = peers, rc_RecoveryMode = (recoveryFlag \<or> stale), rc_SingleNodeRecovery = single\<rparr>"

fun toRaftPeers :: "string list \<Rightarrow> raft_peer list" where
  "toRaftPeers [] = []"
| "toRaftPeers (e # es) = (case SplitN2 CHR ''='' e of
       None \<Rightarrow> toRaftPeers es
     | Some (a, b) \<Rightarrow> (if a = [] \<or> b = [] then toRaftPeers es else \<lparr>rp_ID = a, rp_Address = b\<rparr> # toRaftPeers es))"

definition effectiveNamespace :: "string \<Rightarrow> string \<Rightarrow> string" where
  "effectiveNamespace flag podNamespace = (if flag \<noteq> [] then flag else podNamespace)"

section \<open>Keys\<close>

text \<open>\<open>files\<close> is the file system, \<open>devKey\<close> the path of \<open>at-rest-key.json\<close> in the Raft directory, \<open>rnd\<close> the random bytes of
  a new key and \<open>werr\<close> the error of writing it.\<close>

definition read_file :: "(string, string) kv \<Rightarrow> string \<Rightarrow> string result" where
  "read_file files path = of_option (ErrMsg ''no such file'') (kv_get files path)"

definition loadAtRestKeeper ::
  "string \<Rightarrow> int \<Rightarrow> string \<Rightarrow> string option \<Rightarrow> error option \<Rightarrow> (string, string) kv \<Rightarrow> crypto_keeper option result \<times> (string, string) kv" where
  "loadAtRestKeeper keyFile replicas devKey rnd werr files =
     (let load = (\<lambda>path fs. (bindE (LoadCryptoKeeper (read_file fs path)) (\<lambda>k. Inr (Some k)), fs)) in
      if keyFile = [] then
        (if replicas > 1 then (Inr None, files)
         else if kv_get files devKey = None then
           (case GenerateKeyFile rnd of
              Inl e \<Rightarrow> (Inl e, files)
            | Inr data \<Rightarrow> (case werr of Some e \<Rightarrow> (Inl e, files) | None \<Rightarrow> load devKey (kv_put devKey data files)))
         else load devKey files)
      else load keyFile files)"

text \<open>The session secret. A follower reads it again and again until the deadline; \<open>polls\<close> is the store at each of these
  reads.\<close>

fun poll_secret :: "crypto \<Rightarrow> raft_store \<Rightarrow> raft_store list \<Rightarrow> string \<times> raft_store" where
  "poll_secret C rs [] = ([], rs)"
| "poll_secret C rs (q # qs) = (if SessionSecret C q \<noteq> [] then (SessionSecret C q, q) else poll_secret C q qs)"

definition start_secret ::
  "crypto \<Rightarrow> ns \<Rightarrow> string option \<Rightarrow> raft_store list \<Rightarrow> raft_store \<Rightarrow> string result \<times> raft_store" where
  "start_secret C ns rnd polls rs =
     (if SessionSecret C rs \<noteq> [] then (Inr (SessionSecret C rs), rs)
      else if IsLeader rs then
        (case rnd of
           None \<Rightarrow> (Inl (ErrMsg ''generate session secret''), rs)
         | Some b \<Rightarrow> (case SetSessionSecret C ns rs (hex_EncodeToString b) of
             (Some e, rs') \<Rightarrow> (Inl e, rs')
           | (None, rs') \<Rightarrow> (Inr (hex_EncodeToString b), rs')))
      else (let (secret, q) = poll_secret C rs polls in
        if secret = [] \<and> (ok_or [] (ListUsers q) \<noteq> [] \<or> ok_or [] (OIDCProviders C q) \<noteq> [])
        then (Inl (ErrMsg ''no session secret configured and node is not the leader''), q)
        else (Inr secret, q)))"

text \<open>The key of the process: the zero array when there is no secret.\<close>

definition session_key :: "crypto \<Rightarrow> string \<Rightarrow> string" where
  "session_key C secret = (if secret = [] then replicate 32 (CHR 0x00) else DeriveSessionSecret C secret)"

definition initDevAdmin ::
  "crypto \<Rightarrow> string \<Rightarrow> string option \<Rightarrow> error option \<Rightarrow> string \<Rightarrow> raft_store \<Rightarrow> error option \<times> raft_store \<times> string option" where
  "initDevAdmin C salt rnd werr password rs =
     (if \<not> IsSetupMode rs then (None, rs, None)
      else (case (if password = [] then GenerateRandomHex rnd else Inr password) of
          Inl e \<Rightarrow> (Some e, rs, None)
        | Inr pw \<Rightarrow> (case CreateDevAdmin C salt rs pw of
            (Some e, rs') \<Rightarrow> (Some e, rs', None)
          | (None, rs') \<Rightarrow> (case werr of Some e \<Rightarrow> (Some e, rs', None) | None \<Rightarrow> (None, rs', Some (pw @ [CHR 0x0A]))))))"

section \<open>Addresses of the server\<close>

definition EffectivePublicURL :: "string \<Rightarrow> string \<Rightarrow> bool \<Rightarrow> string" where
  "EffectivePublicURL publicURL portAddr sslEnabled =
     (if publicURL \<noteq> [] then publicURL else (if sslEnabled then ''https://'' else ''http://'') @ portAddr)"

definition cookie_secure :: "bool \<Rightarrow> bool \<Rightarrow> string \<Rightarrow> bool" where
  "cookie_secure sslEnabled autoCert publicURL \<longleftrightarrow> sslEnabled \<or> autoCert \<or> HasPrefix publicURL ''https://''"

section \<open>Migration of environment variables\<close>

definition zero_global :: global_config where
  "zero_global = \<lparr>gc_Server = \<lparr>sc_MaxBodySize = 0, sc_BehindReverseProxy = False, sc_CORSOrigin = [], sc_Footer = [], sc_SessionSecret = [],
       sc_RateLimitEnabled = False, sc_RateLimitRequests = 0, sc_RateLimitWindowSeconds = 0, sc_BanEnabled = False, sc_BanMaxUniqueFailures = 0,
       sc_BanWindowSeconds = 0, sc_BanDurationSeconds = 0, sc_TrustedProxyCIDRs = [], sc_RequireKnownChannels = False,
       sc_LoginThrottleAttempts = 0, sc_LoginThrottleCooldown = 0\<rparr>,
     gc_Defaults = \<lparr>dc_WebhookSecret = [], dc_AllowedIPs = [], dc_MessageTTLSeconds = 0\<rparr>\<rparr>"

definition on_server :: "(server_config \<Rightarrow> server_config) \<Rightarrow> global_config \<Rightarrow> global_config" where
  "on_server f g = g\<lparr>gc_Server := f (gc_Server g)\<rparr>"

definition on_defaults :: "(defaults_config \<Rightarrow> defaults_config) \<Rightarrow> global_config \<Rightarrow> global_config" where
  "on_defaults f g = g\<lparr>gc_Defaults := f (gc_Defaults g)\<rparr>"

definition migrated_vars :: "string list" where
  "migrated_vars = [''GOSMEE_MAX_BODY_SIZE'', ''GOSMEE_CORS_ORIGIN'', ''GOSMEE_TRUST_PROXY'', ''GOSMEE_FOOTER'', ''GOSMEE_AUTH_SESSION_SECRET'',
     ''GOSMEE_WEBHOOK_SIGNATURE'', ''GOSMEE_ALLOWED_IPS'']"

text \<open>The variables after the first, in their order. An empty variable counts as unset.\<close>

definition migrated_global :: "(string \<Rightarrow> string) \<Rightarrow> global_config \<Rightarrow> global_config" where
  "migrated_global getenv g0 =
     (let env = (\<lambda>v f g. if getenv v \<noteq> [] then f (getenv v) g else g) in
        env ''GOSMEE_ALLOWED_IPS'' (\<lambda>v. on_defaults (\<lambda>dc. dc\<lparr>dc_AllowedIPs := Split CHR '','' v\<rparr>))
       (env ''GOSMEE_WEBHOOK_SIGNATURE'' (\<lambda>v. on_defaults (\<lambda>dc. dc\<lparr>dc_WebhookSecret := v\<rparr>))
       (env ''GOSMEE_AUTH_SESSION_SECRET'' (\<lambda>v. on_server (\<lambda>sc. sc\<lparr>sc_SessionSecret := v\<rparr>))
       (env ''GOSMEE_FOOTER'' (\<lambda>v. on_server (\<lambda>sc. sc\<lparr>sc_Footer := v\<rparr>))
       (env ''GOSMEE_TRUST_PROXY'' (\<lambda>v. on_server (\<lambda>sc. sc\<lparr>sc_BehindReverseProxy := (v = ''true'' \<or> v = ''1'')\<rparr>))
       (env ''GOSMEE_CORS_ORIGIN'' (\<lambda>v. on_server (\<lambda>sc. sc\<lparr>sc_CORSOrigin := v\<rparr>)) g0))))))"

text \<open>The configuration that is printed, if there is one.\<close>

definition migrateConfig :: "(string \<Rightarrow> string) \<Rightarrow> bootstrap_config option result" where
  "migrateConfig getenv =
      bindE (if getenv ''GOSMEE_MAX_BODY_SIZE'' = [] then Inr zero_global
             else (case ParseInt (getenv ''GOSMEE_MAX_BODY_SIZE'') of
                 Inl _ \<Rightarrow> Inl (ErrMsg ''GOSMEE_MAX_BODY_SIZE: invalid integer'')
               | Inr n \<Rightarrow> Inr (on_server (\<lambda>sc. sc\<lparr>sc_MaxBodySize := n\<rparr>) zero_global)))
        (\<lambda>g0. Inr (if list_all (\<lambda>v. getenv v = []) migrated_vars then None
                  else Some (empty_bootstrap\<lparr>bf_Global := Some (migrated_global getenv g0)\<rparr>)))"

section \<open>Lemmas\<close>

lemma unat_less_64: "unat (w :: 64 word) < 2 ^ 64"
  using unsigned_less [where w = w and ?'a = nat] by simp

lemma word_less_succ: "w \<noteq> - 1 \<Longrightarrow> w < (w + 1 :: 64 word)"
proof -
  assume "w \<noteq> - 1"
  then have "1 + w \<noteq> 0" by (metis add.commute add_eq_0_iff2)
  then show ?thesis using unatSuc [of w] by (simp add: word_less_nat_alt add.commute)
qed

lemma ParseUint_Format: "ParseUint (FormatUint w) = Some w"
proof -
  have "unat w < 2 ^ 64" by (rule unat_less_64)
  then show ?thesis by (simp add: ParseUint_def FormatUint_def show_nat_not_Nil show_nat_digits dec_val_show)
qed

definition io_ok :: gen_io where
  "io_ok = \<lparr>gi_store = True, gi_read = True, gi_reread = True, gi_update = True, gi_write = True\<rparr>"

definition generation_of :: "secret_data \<Rightarrow> 64 word" where
  "generation_of data = fst (generation_read (Inr data))"

lemma generation_bump_ok: "generation_bump (Inr data) None = Inr (generation_of data + 1, kv_put raftGenerationKey (FormatUint (generation_of data + 1)) data)"
  by (simp add: generation_bump_def generation_of_def generation_read_def Let_def split: option.split)

lemma generation_of_put: "generation_of (kv_put raftGenerationKey (FormatUint w) data) = w"
  by (simp add: generation_of_def generation_read_def kvm.get_put ParseUint_Format)

lemma recovery_start:
  "generation_start True True io_ok data file =
     (False, kv_put raftGenerationKey (FormatUint (generation_of data + 1)) data, Some (FormatUint (generation_of data + 1)))"
  by (simp add: generation_start_def io_ok_def api_get_def generation_bump_ok writeLocalGeneration_def)

lemma node_start:
  "generation_start False rec io_ok data file = (fst (readLocalGeneration file) < generation_of data, data, Some (FormatUint (generation_of data)))"
  by (simp add: generation_start_def io_ok_def api_get_def generation_of_def writeLocalGeneration_def Let_def)

lemma readLocal_Format: "readLocalGeneration (Some (FormatUint w)) = (w, True)"
  by (simp add: readLocalGeneration_def ParseUint_Format)

text \<open>Consecutive starts of a node that is not the bootstrap node: which of them found it stale and cleared its state.\<close>

fun node_starts :: "gen_io list \<Rightarrow> secret_data \<Rightarrow> string option \<Rightarrow> bool list" where
  "node_starts [] data file = []"
| "node_starts (io # ios) data file = (let (stale, data', file') = generation_start False False io data file in stale # node_starts ios data' file')"

lemma node_starts_synced: "node_starts (replicate n io_ok) data (Some (FormatUint (generation_of data))) = replicate n False"
  by (induction n) (simp_all add: node_start readLocal_Format)

text \<open>The watcher: a run of leaderless ticks that is long enough, ending with one replica.\<close>

definition leaderless_run :: "duration \<Rightarrow> watch_tick list \<Rightarrow> bool" where
  "leaderless_run d ts \<longleftrightarrow> (\<exists>us a vs b ws. ts = us @ a # vs @ b # ws \<and> (\<forall>t \<in> set (a # vs @ [b]). \<not> wt_leader t) \<and>
     d \<le> wt_now b - wt_now a \<and> wt_replicas b = (1, True))"

lemma watch_sound:
  "watchSingleNodeRecovery d since ts \<Longrightarrow> leaderless_run d ts \<or>
     (\<exists>t0 vs b ws. since = Some t0 \<and> ts = vs @ b # ws \<and> (\<forall>t \<in> set (vs @ [b]). \<not> wt_leader t) \<and> d \<le> wt_now b - t0 \<and> wt_replicas b = (1, True))"
proof (induction ts arbitrary: since)
  case (Cons t ts)
  have lift: "leaderless_run d ts \<Longrightarrow> leaderless_run d (t # ts)"
    unfolding leaderless_run_def by (metis append_Cons)
  show ?case
  proof (cases "wt_leader t")
    case True
    then show ?thesis using Cons.IH [of None] Cons.prems lift by auto
  next
    case l: False
    show ?thesis
    proof (cases since)
      case None
      then have "watchSingleNodeRecovery d (Some (wt_now t)) ts" using Cons.prems l by simp
      from Cons.IH [OF this] show ?thesis
      proof
        assume "\<exists>t0 vs b ws. Some (wt_now t) = Some t0 \<and> ts = vs @ b # ws \<and> (\<forall>t \<in> set (vs @ [b]). \<not> wt_leader t) \<and>
          d \<le> wt_now b - t0 \<and> wt_replicas b = (1, True)"
        then obtain vs b ws where v: "ts = vs @ b # ws" "\<forall>t \<in> set (vs @ [b]). \<not> wt_leader t" "d \<le> wt_now b - wt_now t" "wt_replicas b = (1, True)"
          by auto
        have "leaderless_run d (t # ts)" unfolding leaderless_run_def
          by (rule exI [of _ "[]"], rule exI [of _ t], rule exI [of _ vs], rule exI [of _ b], rule exI [of _ ws]) (use v l in auto)
        then show ?thesis by blast
      qed (use lift in blast)
    next
      case (Some t0)
      have "watchSingleNodeRecovery d since ts \<or> d \<le> wt_now t - t0 \<and> wt_replicas t = (1, True)"
        using Cons.prems l Some by (cases "wt_replicas t") (auto split: if_splits)
      then show ?thesis
      proof
        assume "watchSingleNodeRecovery d since ts"
        from Cons.IH [OF this] show ?thesis
        proof
          assume "\<exists>t0 vs b ws. since = Some t0 \<and> ts = vs @ b # ws \<and> (\<forall>t \<in> set (vs @ [b]). \<not> wt_leader t) \<and>
            d \<le> wt_now b - t0 \<and> wt_replicas b = (1, True)"
          then obtain vs b ws where "ts = vs @ b # ws" "\<forall>t \<in> set (vs @ [b]). \<not> wt_leader t" "d \<le> wt_now b - t0" "wt_replicas b = (1, True)"
            using Some by auto
          then show ?thesis using l Some by (intro disjI2 exI [of _ t0] exI [of _ "t # vs"] exI [of _ b] exI [of _ ws]) auto
        qed (use lift in blast)
      next
        assume "d \<le> wt_now t - t0 \<and> wt_replicas t = (1, True)"
        then show ?thesis using l Some by (intro disjI2 exI [of _ t0] exI [of _ "[]"] exI [of _ t] exI [of _ ts]) auto
      qed
    qed
  qed
qed simp

lemma watch_since:
  "\<forall>t \<in> set (vs @ [b]). \<not> wt_leader t \<Longrightarrow> d \<le> wt_now b - t0 \<Longrightarrow> wt_replicas b = (1, True) \<Longrightarrow>
     watchSingleNodeRecovery d (Some t0) (vs @ b # ws)"
  by (induction vs) auto

lemma watch_complete:
  assumes "\<forall>t \<in> set (a # vs @ [b]). \<not> wt_leader t" "d \<le> wt_now b - wt_now a" "wt_replicas b = (1, True)"
  shows "sorted (map wt_now (us @ a # vs @ b # ws)) \<Longrightarrow> (\<And>t0. since = Some t0 \<Longrightarrow> \<forall>t \<in> set (us @ [a]). t0 \<le> wt_now t) \<Longrightarrow>
    watchSingleNodeRecovery d since (us @ a # vs @ b # ws)"
proof (induction us arbitrary: since)
  case Nil
  show ?case
  proof (cases since)
    case None
    then show ?thesis using assms watch_since [of vs b d "wt_now a" ws] by simp
  next
    case (Some t0)
    then have "d \<le> wt_now b - t0" using Nil.prems(2) assms(2) by fastforce
    then show ?thesis using assms Some watch_since [of "a # vs" b d t0 ws] by simp
  qed
next
  case (Cons u us)
  have s: "sorted (map wt_now (us @ a # vs @ b # ws))" "\<forall>t \<in> set (us @ [a]). wt_now u \<le> wt_now t" using Cons.prems(1) by auto
  show ?case
  proof (cases "wt_leader u")
    case True
    then show ?thesis using Cons.IH [OF s(1), of None] by simp
  next
    case False
    show ?thesis
    proof (cases since)
      case None
      then show ?thesis using False Cons.IH [OF s(1), of "Some (wt_now u)"] s(2) by simp
    next
      case (Some t0)
      then have "watchSingleNodeRecovery d since (us @ a # vs @ b # ws)" using Cons.IH [OF s(1), of since] Cons.prems(2) by simp
      then show ?thesis using False Some by simp
    qed
  qed
qed

lemma toRaftPeers_parsePeers: "toRaftPeers es = parsePeers es"
  by (induction es) (simp_all split: option.split)

lemma migrated_global_keeps:
  assumes "sc_MaxBodySize (gc_Server g) = n" "\<not> sc_RequireKnownChannels (gc_Server g)"
  shows "sc_MaxBodySize (gc_Server (migrated_global getenv g)) = n \<and> \<not> sc_RequireKnownChannels (gc_Server (migrated_global getenv g))"
proof -
  let ?P = "\<lambda>g :: global_config. sc_MaxBodySize (gc_Server g) = n \<and> \<not> sc_RequireKnownChannels (gc_Server g)"
  have step: "?P g \<Longrightarrow> (\<And>g. ?P g \<Longrightarrow> ?P (f (getenv v) g)) \<Longrightarrow> ?P (if getenv v \<noteq> [] then f (getenv v) g else g)" for v f g by simp
  show ?thesis unfolding migrated_global_def Let_def
    by (intro step) (use assms in \<open>simp_all add: on_server_def on_defaults_def\<close>)
qed

lemma migrated_without_size:
  assumes "getenv ''GOSMEE_MAX_BODY_SIZE'' = []" "migrateConfig getenv = Inr (Some cfg)" "bf_Global cfg = Some g"
  shows "sc_MaxBodySize (gc_Server g) = 0 \<and> \<not> sc_RequireKnownChannels (gc_Server g)"
proof -
  have "g = migrated_global getenv zero_global" using assms by (auto simp: migrateConfig_def split: if_splits)
  then show ?thesis using migrated_global_keeps [of zero_global 0 getenv] by (simp add: zero_global_def)
qed

section \<open>Properties\<close>



text \<open>A failed read of the secret is taken for generation 0 and written down as such: a node that was in step with the
  cluster, and whose secret could not be read at one start, clears its Raft state at the start after it, although
  there has been no recovery.\<close>

theorem unreadable_secret_clears_node:
  assumes "0 < generation_of data"
  shows "node_starts [io_ok\<lparr>gi_read := False\<rparr>, io_ok] data (Some (FormatUint (generation_of data))) = [False, True]"
proof -
  have "generation_start False False (io_ok\<lparr>gi_read := False\<rparr>) data (Some (FormatUint (generation_of data))) = (False, data, Some (FormatUint 0))"
    by (simp add: generation_start_def io_ok_def api_get_def generation_read_def writeLocalGeneration_def Let_def word_not_simps)
  then show ?thesis using assms by (simp add: node_start readLocal_Format)
qed

theorem unreadable_secret_clears_node_witness:
  "node_starts [io_ok\<lparr>gi_read := False\<rparr>, io_ok] (kv_put raftGenerationKey (FormatUint 3) []) (Some (FormatUint 3)) = [False, True]"
  using unreadable_secret_clears_node [of "kv_put raftGenerationKey (FormatUint 3) []"] by (simp add: generation_of_put del: kv_put.simps)

text \<open>The watcher restarts the process exactly when there were ticks without a leader over the whole time-out and the
  StatefulSet then had one replica.\<close>

theorem restart_exactly_when_authorized:
  assumes "sorted (map wt_now ts)"
  shows "watchSingleNodeRecovery d None ts \<longleftrightarrow> leaderless_run d ts"
proof
  assume "watchSingleNodeRecovery d None ts"
  then show "leaderless_run d ts" using watch_sound by blast
next
  assume "leaderless_run d ts"
  then obtain us a vs b ws where "ts = us @ a # vs @ b # ws" "\<forall>t \<in> set (a # vs @ [b]). \<not> wt_leader t"
    "d \<le> wt_now b - wt_now a" "wt_replicas b = (1, True)" unfolding leaderless_run_def by blast
  then show "watchSingleNodeRecovery d None ts" using watch_complete [of a vs b d us ws None] assms by simp
qed

theorem restart_exactly_when_authorized_witness:
  "leaderless_run 30 [\<lparr>wt_now = 0, wt_leader = False, wt_replicas = (3, True)\<rparr>, \<lparr>wt_now = 40, wt_leader = False, wt_replicas = (1, True)\<rparr>]"
  using restart_exactly_when_authorized [of "[\<lparr>wt_now = 0, wt_leader = False, wt_replicas = (3, True)\<rparr>, \<lparr>wt_now = 40, wt_leader = False, wt_replicas = (1, True)\<rparr>]" 30]
  by simp

text \<open>The configuration is collapsed to one node only on the word of Kubernetes: with a clientset, for a StatefulSet whose
  replica count was read as 1 (or is unset, which means 1), by the node that seeds the cluster, with existing
  state, and neither in recovery mode nor fenced.\<close>

theorem collapse_is_authorized:
  assumes "start_mode (start_config cfg peers adv recoveryFlag stale (single_node_recovery cfg clientset sts)) shouldBootstrap hasState = RecoverCluster"
  shows "clientset \<and> sts (dc_Namespace cfg) (dc_StatefulSetName cfg) \<in> {Inr None, Inr (Some 1)} \<and> 1 < dc_Replicas cfg \<and>
     shouldBootstrap \<and> hasState \<and> \<not> recoveryFlag \<and> \<not> stale"
  using assms by (auto simp: start_mode_def start_config_def single_node_recovery_def sts_replicas_def newStatefulSetReplicaReader_def
      split: if_splits sum.splits option.splits)

theorem collapse_is_authorized_witness:
  "start_mode (start_config demo_discovery [] [] False False (single_node_recovery demo_discovery True (\<lambda>_ _. Inr (Some 1)))) True True = RecoverCluster \<and>
   1 < dc_Replicas demo_discovery"
proof -
  have "start_mode (start_config demo_discovery [] [] False False (single_node_recovery demo_discovery True (\<lambda>_ _. Inr (Some 1)))) True True = RecoverCluster"
    by (simp add: start_mode_def start_config_def single_node_recovery_def sts_replicas_def newStatefulSetReplicaReader_def demo_discovery_def)
  then show ?thesis using collapse_is_authorized by blast
qed

text \<open>A leader that finds no session secret creates one that is long enough and stores it; every later start, on
  whichever node, uses the same secret.\<close>

theorem leader_secret_is_shared:
  assumes "channel_ready C ns rs" "SessionSecret C rs = []" "length b = 32"
  shows "\<exists>rs'. start_secret C ns (Some b) polls rs = (Inr (hex_EncodeToString b), rs') \<and> ValidateSessionSecret (hex_EncodeToString b) = None \<and>
     (\<forall>ns' rnd' polls'. start_secret C ns' rnd' polls' rs' = (Inr (hex_EncodeToString b), rs'))"
proof -
  have l: "IsLeader rs" using assms(1) by (simp add: channel_ready_def store_ready_def IsLeader_def)
  have h: "length (hex_EncodeToString b) = 64" using assms(3) by (simp add: hex_length)
  obtain r rs' where s: "SetSessionSecret C ns rs (hex_EncodeToString b) = (r, rs')" by fastforce
  note u = UpdateGlobalConfig_read [OF assms(1) s [unfolded SetSessionSecret_def Let_def]]
  have "hex_EncodeToString b \<noteq> []" using h by auto
  then have "SessionSecret C rs' = hex_EncodeToString b" using u(3) by (simp add: SessionSecret_def)
  then show ?thesis using s u(1) l h assms(2) \<open>hex_EncodeToString b \<noteq> []\<close>
    by (auto simp: start_secret_def ValidateSessionSecret_def MinSessionSecretLength_def)
qed

theorem leader_secret_is_shared_witness:
  "\<exists>rs'. start_secret toy_crypto demo_ns (Some (replicate 32 CHR ''a'')) [] demo_store = (Inr (hex_EncodeToString (replicate 32 CHR ''a'')), rs') \<and>
     start_secret toy_crypto demo_ns None [] rs' = (Inr (hex_EncodeToString (replicate 32 CHR ''a'')), rs')"
proof -
  obtain k where k: "rs_keeper demo_store = Some k" using demo_store_ready(8) by blast
  have "openString toy_crypto demo_store [] = Inr []" by (simp add: openString_def k)
  then have "SessionSecret toy_crypto demo_store = []"
    by (simp add: SessionSecret_def GetGlobalConfig_def get_ready [OF demo_store_ready(1)] demo_store_ready(6) kv_get_def
      openConfig_def DefaultGlobalConfig_def)
  then show ?thesis using leader_secret_is_shared [OF demo_store_ready(5), of "replicate 32 CHR ''a''" "[]"] by auto
qed

text \<open>A single node without a key file makes its own key once: the first start writes it, and every later start
  loads the same key set, which is well formed.\<close>

theorem dev_key_is_kept:
  assumes "kv_get files devKey = None" "n \<le> 1" "length key = 32"
  shows "\<exists>k files'. loadAtRestKeeper [] n devKey (Some key) None files = (Inr (Some k), files') \<and> keeper_wf k \<and>
     (\<forall>rnd werr. loadAtRestKeeper [] n devKey rnd werr files' = (Inr (Some k), files'))"
proof -
  obtain data where d: "GenerateKeyFile (Some key) = Inr data" by (simp add: GenerateKeyFile_def)
  let ?k = "NewCryptoKeeper ''k1'' [(''k1'', key)]" and ?f = "kv_put devKey data files"
  have "LoadCryptoKeeper (read_file ?f devKey) = Inr ?k" using load_generated [OF d assms(3)] by (simp add: read_file_def kvm.get_put)
  moreover have "keeper_wf ?k" using assms(3) by (simp add: keeper_wf_def NewCryptoKeeper_def kv_wf_def kv_get_Cons)
  moreover have "kv_get ?f devKey = Some data" by (simp add: kvm.get_put)
  ultimately show ?thesis using assms(1,2) d by (simp add: loadAtRestKeeper_def)
qed

theorem dev_key_is_kept_witness:
  "\<exists>k files'. loadAtRestKeeper [] 1 ''raft/at-rest-key.json'' (Some (replicate 32 CHR ''a'')) None [] = (Inr (Some k), files') \<and> keeper_wf k"
  using dev_key_is_kept [of "[]" "''raft/at-rest-key.json''" 1 "replicate 32 CHR ''a''"] by (auto simp: kv_get_def)

text \<open>A follower of a cluster without users that does not see a secret in time serves with the zero array as session key.
  When there are accounts later, that node accepts sessions which anybody can sign.\<close>

theorem follower_accepts_forged_sessions:
  assumes "\<not> IsLeader rs" "\<forall>q \<in> set (rs # polls). SessionSecret C q = []" "\<forall>q \<in> set (rs # polls). ListUsers q = Inr [] \<and> OIDCProviders C q = Inr []"
    and "en_C E = C" "ResolvePrincipal (ws_store s) (Some t) = Some u" "SessionEpochValid (ws_store s) (Some t)" "time_Unix (en_now E) \<le> st_ExpiresAt t"
    and "r_Cookie r sessionCookieName = Some (EncodeSession C t (replicate 32 (CHR 0x00)))"
  shows "\<exists>q. start_secret C ns rnd polls rs = (Inr [], q) \<and> RequireAuth E url (session_key C []) secure h r s = h (withPrincipal r u (st_Groups t)) s"
proof -
  have "\<exists>q \<in> set (rs # qs). poll_secret C rs qs = ([], q)" if "\<forall>q \<in> set (rs # qs). SessionSecret C q = []" for qs rs
    using that by (induction qs arbitrary: rs) auto
  then obtain q where q: "q \<in> set (rs # polls)" "poll_secret C rs polls = ([], q)" using assms(2) by blast
  have "start_secret C ns rnd polls rs = (Inr [], q)" using assms(1-3) q by (auto simp: start_secret_def)
  moreover have "RequireAuth E url (session_key C []) secure h r s = h (withPrincipal r u (st_Groups t)) s"
    using assms(4-8) by (simp add: RequireAuth_def session_key_def decode_encode_session)
  ultimately show ?thesis by blast
qed

text \<open>A follower that never sees a secret, and the state in which an account exists.\<close>

definition demo_follower :: raft_store where
  "demo_follower = demo_store\<lparr>rs_leader := False, rs_keeper := None\<rparr>"

lemma demo_follower_reads: "\<not> IsLeader demo_follower" "SessionSecret C demo_follower = []" "ListUsers demo_follower = Inr []" "OIDCProviders C demo_follower = Inr []"
proof -
  have r: "reads_ok demo_follower" "bucket demo_follower = []"
    using ready_reads [OF demo_store_ready(1)] demo_store_ready(6) by (simp_all add: demo_follower_def reads_ok_def bucket_def)
  show "\<not> IsLeader demo_follower" by (simp add: demo_follower_def IsLeader_def)
  have "rs_keeper demo_follower = None" by (simp add: demo_follower_def)
  then show "SessionSecret C demo_follower = []" using r
    by (simp add: SessionSecret_def GetGlobalConfig_def reads_get kv_get_def openConfig_def DefaultGlobalConfig_def)
  show "ListUsers demo_follower = Inr []" "OIDCProviders C demo_follower = Inr []" using r
    by (simp_all add: ListUsers_def OIDCProviders_def reads_keys reads_get kv_get_def kv_keys_def)
qed

theorem follower_accepts_forged_sessions_witness:
  "\<exists>q. start_secret toy_crypto demo_ns None [demo_follower] demo_follower = (Inr [], q) \<and>
     RequireAuth demo_env [] (session_key toy_crypto []) True (\<lambda>r s. (WriteHeader 204, s))
       (demo_request\<lparr>wr_Cookies := [(sessionCookieName, EncodeSession toy_crypto demo_forged (replicate 32 (CHR 0x00)))]\<rparr>) demo_desk =
     (WriteHeader 204, demo_desk)"
  by (rule follower_accepts_forged_sessions [of demo_follower "[demo_follower]" toy_crypto demo_env demo_desk demo_forged demo_ann
      "demo_request\<lparr>wr_Cookies := [(sessionCookieName, EncodeSession toy_crypto demo_forged (replicate 32 (CHR 0x00)))]\<rparr>" demo_ns None "[]" True
      "\<lambda>r s. (WriteHeader 204, s)"])
    (simp_all add: demo_follower_reads demo_desk_def ResolvePrincipal_def demo_forged_def demo_accounts_reads ok_def SessionEpochValid_def
      time_Unix_def r_Cookie_def)

text \<open>A configuration that was migrated without the variable for the body size has the size 0, not the default: with it, every
  webhook with a body is refused as too large.\<close>

theorem migrated_config_refuses_webhooks:
  assumes "getenv ''GOSMEE_MAX_BODY_SIZE'' = []" "migrateConfig getenv = Inr (Some cfg)" "bf_Global cfg = Some g"
    and "GetGlobalConfig (en_C E) (ws_store s) = Inr g" "GetChannel (en_C E) (ws_store s) (URLParam r ''channel'') = Inr ch" "ch_MaxBodySize ch = 0"
    and "Contains (header_Get r ''Content-Type'') ''application/json''" "bd_data (wr_Body r) \<noteq> []"
  shows "HandleWebhookPost E r s = (http_Error ''request body too large'' 413, s)"
proof -
  note g = migrated_without_size [OF assms(1-3)]
  let ?c = "domain_ResolveChannelConfig ch g"
  have c: "ResolveChannelConfig (en_C E) (ws_store s) (URLParam r ''channel'') = Inr ?c" by (rule ResolveChannelConfig_ok [OF assms(5,4)])
  have "ch_MaxBodySize ?c = 0" using g assms(6) by (simp add: domain_ResolveChannelConfig_def MigrateChannel_def Let_def)
  moreover have "ResolveChannelMaxBodySize (en_C E) (ws_store s) (URLParam r ''channel'') = Inr 0"
    using g assms(4-6) by (simp add: ResolveChannelMaxBodySize_def globalOrFail_def)
  moreover obtain w where "ResolveChannelWebhookSecret (en_C E) (ws_store s) (URLParam r ''channel'') = Inr w"
    using resolvers_agree [OF assms(5,4)] by blast
  moreover have "read_body 0 (wr_Body r) = TooLarge" using assms(8) by (simp add: read_body_def)
  ultimately show ?thesis using c assms(4,7) g by (simp add: HandleWebhookPost_def webhook_payload_def Let_def)
qed

definition demo_footer :: global_config where
  "demo_footer = on_server (\<lambda>sc. sc\<lparr>sc_Footer := ''f''\<rparr>) zero_global"

definition demo_migrated :: raft_store where
  "demo_migrated = with_bucket (demo_store\<lparr>rs_keeper := None\<rparr>) [(''/channels/c1/'', marshal_channel demo_channel),
     (''/global/defaults/'', marshal_defaults_config (gc_Defaults demo_footer)), (''/global/server/'', marshal_server_config (gc_Server demo_footer))]"

lemma demo_migrated_reads: "GetGlobalConfig C demo_migrated = Inr demo_footer" "GetChannel C demo_migrated ''c1'' = Inr demo_channel"
proof -
  have "store_ready (demo_store\<lparr>rs_keeper := None\<rparr>)" using demo_store_ready(1) by (simp add: store_ready_def)
  then have r: "store_ready demo_migrated" unfolding demo_migrated_def by (rule store_ready_with) (simp add: kv_wf_def)
  have b: "bucket demo_migrated = [(''/channels/c1/'', marshal_channel demo_channel),
     (''/global/defaults/'', marshal_defaults_config (gc_Defaults demo_footer)), (''/global/server/'', marshal_server_config (gc_Server demo_footer))]"
    "rs_keeper demo_migrated = None" by (simp_all add: demo_migrated_def)
  show "GetGlobalConfig C demo_migrated = Inr demo_footer"
    using b by (simp add: GetGlobalConfig_def get_ready [OF r] kv_get_Cons server_config_roundtrip defaults_config_roundtrip openConfig_def)
  show "GetChannel C demo_migrated ''c1'' = Inr demo_channel"
    using b by (simp add: GetChannel_ready [OF r] kv_get_Cons channelKey_def channel_roundtrip openChannel_def)
qed

theorem migrated_config_refuses_webhooks_witness:
  "\<exists>cfg. migrateConfig (\<lambda>v. if v = ''GOSMEE_FOOTER'' then ''f'' else []) = Inr (Some cfg) \<and>
     HandleWebhookPost demo_env demo_request (demo_web\<lparr>ws_store := demo_migrated\<rparr>) =
       (http_Error ''request body too large'' 413, demo_web\<lparr>ws_store := demo_migrated\<rparr>)"
proof -
  let ?env = "\<lambda>v. if v = ''GOSMEE_FOOTER'' then ''f'' else []"
  let ?cfg = "empty_bootstrap\<lparr>bf_Global := Some demo_footer\<rparr>"
  have m: "migrateConfig ?env = Inr (Some ?cfg)"
    by (simp add: migrateConfig_def migrated_vars_def migrated_global_def Let_def demo_footer_def)
  show ?thesis
    using migrated_config_refuses_webhooks [OF _ m, of demo_footer demo_env "demo_web\<lparr>ws_store := demo_migrated\<rparr>" demo_request demo_channel] m
    by (simp add: demo_migrated_reads demo_headers) (simp add: demo_channel_def zero_channel_def)
qed

end
