(* ===== verification/RaftTls.thy ===== *)
theory RaftTls
  imports Startup
begin

text \<open>
  Transport security of the Raft cluster: \<open>internal/repository/raft_tls.go\<close>, \<open>internal/repository/raft_streamlayer.go\<close> and
  \<open>internal/server/raft_tls.go\<close>. The packages \<open>crypto/x509\<close>, \<open>crypto/tls\<close> and \<open>goca\<close>, the Kubernetes API, name resolution
  and the sockets are parameters; files are a map with the errors of the operations on it.
  The lemmas show which certificates a node trusts and presents, when it keeps one, and what a dial does.
\<close>

section \<open>Certificates\<close>

record certificate =
  ct_NotBefore :: time
  ct_NotAfter :: time
  ct_CommonName :: string
  ct_DNSNames :: "string list"
  ct_IPAddresses :: "ip list"
  ct_Key :: string

text \<open>\<open>pk_parse\<close> is \<open>parsePEMCert\<close> (the first block of a PEM file), \<open>pk_signed\<close> is \<open>CheckSignatureFrom\<close>, \<open>pk_pair\<close> says whether
  \<open>tls.X509KeyPair\<close> accepts a certificate with a key, \<open>pk_pool\<close> whether a file holds a certificate for the pool. The
  others are the authority \<open>goca\<close>: a new one, one loaded from PEM, its certificate, and a certificate it issues for a common
  name, an organization, names, addresses, a validity and a time by which it is backdated.\<close>

record 'ca pki =
  pk_parse :: "string \<Rightarrow> certificate option"
  pk_signed :: "certificate \<Rightarrow> certificate \<Rightarrow> bool"
  pk_pair :: "string \<Rightarrow> string \<Rightarrow> bool"
  pk_pool :: "string \<Rightarrow> bool"
  pk_new :: "string \<Rightarrow> string \<Rightarrow> (string \<times> string) result"
  pk_load :: "string \<Rightarrow> string \<Rightarrow> 'ca result"
  pk_fix :: "string \<Rightarrow> string result"
  pk_cert :: "'ca \<Rightarrow> certificate option"
  pk_issue :: "'ca \<Rightarrow> string \<Rightarrow> string \<Rightarrow> string list \<Rightarrow> ip list \<Rightarrow> duration \<Rightarrow> duration \<Rightarrow> (string \<times> string) result"

definition nodeCertSafetyMargin :: duration where
  "nodeCertSafetyMargin = 7 * 24 * 3600 * Second"

record raft_tls_config =
  tl_Enabled :: bool
  tl_Dir :: string
  tl_Validity :: duration
  tl_Organization :: string
  tl_CACertPath :: string
  tl_CertPath :: string
  tl_KeyPath :: string
  tl_CASecret :: string
  tl_CABootstrap :: bool
  tl_ClientAuth :: bool
  tl_SecretPollTimeout :: duration

text \<open>The part of \<open>tls.Config\<close> that is set: the certificate and its key, the pool for both directions, whether the client
  must present a certificate of the pool, and the server name for a dial.\<close>

record tls_config =
  tc_Certificate :: "string \<times> string"
  tc_RootCAs :: string
  tc_ClientCAs :: string
  tc_RequireClientCert :: bool
  tc_ServerName :: string

text \<open>The file system: contents, and the errors of reading and writing a path.\<close>

record files =
  fs_data :: "(string, string) kv"
  fs_read_err :: "string \<Rightarrow> error option"
  fs_write_err :: "string \<Rightarrow> error option"
  fs_dir_err :: "error option"

definition readPEM :: "files \<Rightarrow> string \<Rightarrow> string result" where
  "readPEM F path = (case fs_read_err F path of
       Some e \<Rightarrow> Inl e
     | None \<Rightarrow> of_option (ErrMsg ''no such file'') (kv_get (fs_data F) path))"

definition writePEM :: "files \<Rightarrow> string \<Rightarrow> string \<Rightarrow> error option \<times> files" where
  "writePEM F path data = (case fs_write_err F path of
       Some e \<Rightarrow> (Some e, F)
     | None \<Rightarrow> (None, F\<lparr>fs_data := kv_put path data (fs_data F)\<rparr>))"

definition fileExists :: "files \<Rightarrow> string \<Rightarrow> bool" where
  "fileExists F path \<longleftrightarrow> kv_get (fs_data F) path \<noteq> None"

definition write_pair :: "files \<Rightarrow> string \<Rightarrow> string \<Rightarrow> string \<Rightarrow> string \<Rightarrow> (string \<times> string) result \<times> files" where
  "write_pair F certPath keyPath certPEM keyPEM = (case writePEM F certPath certPEM of
       (Some e, F') \<Rightarrow> (Inl e, F')
     | (None, F') \<Rightarrow> (case writePEM F' keyPath keyPEM of
         (Some e, F'') \<Rightarrow> (Inl e, F'')
       | (None, F'') \<Rightarrow> (Inr (certPEM, keyPEM), F'')))"

section \<open>The authority\<close>

definition raft_ca_name :: string where
  "raft_ca_name = ''gohookbridge-raft-ca''"

text \<open>\<open>filepath.Join\<close> of a clean directory path, not the root, with a file name\<close>

definition join_dir :: "string \<Rightarrow> string \<Rightarrow> string" where
  "join_dir dir name = dir @ ''/'' @ name"

definition ensureLocalRaftCA :: "'ca pki \<Rightarrow> raft_tls_config \<Rightarrow> files \<Rightarrow> (string \<times> string) result \<times> files" where
  "ensureLocalRaftCA K cfg F = (case fs_dir_err F of
       Some e \<Rightarrow> (Inl e, F)
     | None \<Rightarrow>
        (let certPath = join_dir (tl_Dir cfg) ''ca.crt''; keyPath = join_dir (tl_Dir cfg) ''ca.key'' in
         if fileExists F certPath \<and> fileExists F keyPath
         then (bindE (readPEM F certPath) (\<lambda>c. bindE (readPEM F keyPath) (\<lambda>k. Inr (c, k))), F)
         else (case pk_new K raft_ca_name (tl_Organization cfg) of
             Inl e \<Rightarrow> (Inl e, F)
           | Inr (certPEM, keyPEM) \<Rightarrow> write_pair F certPath keyPath certPEM keyPEM)))"

text \<open>The secret that shares the authority: one answer to creating it, the answers to reading it with the time after each.\<close>

datatype 'a api = ApiOk 'a | ApiNotFound | ApiExists | ApiErr error

definition readRaftCASecret :: "secret_data api \<Rightarrow> (string \<times> string) api" where
  "readRaftCASecret got = (case got of
       ApiOk data \<Rightarrow> (case (kv_get data ''ca.crt'', kv_get data ''ca.key'') of
           (Some c, Some k) \<Rightarrow> ApiOk (c, k)
         | _ \<Rightarrow> ApiErr (ErrMsg ''CA secret is missing ca.crt/ca.key keys''))
     | ApiNotFound \<Rightarrow> ApiNotFound
     | ApiExists \<Rightarrow> ApiExists
     | ApiErr e \<Rightarrow> ApiErr e)"

text \<open>\<open>None\<close>: the loop has not ended after these answers.\<close>

fun poll_ca :: "time \<Rightarrow> (secret_data api \<times> time) list \<Rightarrow> (string \<times> string) result option" where
  "poll_ca deadline [] = None"
| "poll_ca deadline ((got, now) # rest) = (case readRaftCASecret got of
       ApiOk pair \<Rightarrow> Some (Inr pair)
     | ApiNotFound \<Rightarrow> (if now > deadline then Some (Inl (ErrMsg ''CA secret did not appear'')) else poll_ca deadline rest)
     | _ \<Rightarrow> Some (Inl (ErrMsg ''read CA secret'')))"

definition ensureRaftCAFromSecret ::
  "'ca pki \<Rightarrow> raft_tls_config \<Rightarrow> unit api \<Rightarrow> time \<Rightarrow> (secret_data api \<times> time) list \<Rightarrow> (string \<times> string) result option" where
  "ensureRaftCAFromSecret K cfg created now answers =
     (if tl_CABootstrap cfg then
        (case pk_new K raft_ca_name (tl_Organization cfg) of
           Inl e \<Rightarrow> Some (Inl e)
         | Inr pair \<Rightarrow> (case created of
             ApiOk _ \<Rightarrow> Some (Inr pair)
           | ApiExists \<Rightarrow> (case answers of
               [] \<Rightarrow> None
             | (got, _) # _ \<Rightarrow> Some (case readRaftCASecret got of ApiOk p \<Rightarrow> Inr p | _ \<Rightarrow> Inl (ErrMsg ''read CA secret'')))
           | _ \<Rightarrow> Some (Inl (ErrMsg ''create CA secret''))))
      else poll_ca (now + (if tl_SecretPollTimeout cfg = 0 then 30 * Second else tl_SecretPollTimeout cfg)) answers)"

text \<open>What the secret answers, when there is a clientset; the local files otherwise.\<close>

definition ensureRaftCA ::
  "'ca pki \<Rightarrow> raft_tls_config \<Rightarrow> bool \<Rightarrow> unit api \<Rightarrow> time \<Rightarrow> (secret_data api \<times> time) list \<Rightarrow> files \<Rightarrow> (string \<times> string) result option \<times> files" where
  "ensureRaftCA K cfg clientset created now answers F =
     (if clientset \<and> tl_CASecret cfg \<noteq> [] then (ensureRaftCAFromSecret K cfg created now answers, F)
      else (case ensureLocalRaftCA K cfg F of (r, F') \<Rightarrow> (Some r, F')))"

definition NewMintingCAFromPEM :: "'ca pki \<Rightarrow> string \<Rightarrow> string \<Rightarrow> 'ca result" where
  "NewMintingCAFromPEM K certPEM keyPEM = (case pk_load K certPEM keyPEM of
       Inr ca \<Rightarrow> Inr ca
     | Inl e \<Rightarrow> (case pk_fix K keyPEM of
         Inl _ \<Rightarrow> Inl e
       | Inr fixed \<Rightarrow> (case pk_load K certPEM fixed of Inl _ \<Rightarrow> Inl e | Inr ca \<Rightarrow> Inr ca)))"

text \<open>The header of a key file that says PKCS 8 over the bytes of a PKCS 1 key: the block type and the verdict of the two parsers
  on its bytes, and the file with the corrected header.\<close>

definition fixPKCS1KeyWithWrongHeader :: "(string \<times> string) option \<Rightarrow> (string \<Rightarrow> bool) \<Rightarrow> (string \<Rightarrow> bool) \<Rightarrow> (string \<Rightarrow> string \<Rightarrow> string) \<Rightarrow> string result" where
  "fixPKCS1KeyWithWrongHeader block pkcs8 pkcs1 encode = (case block of
       None \<Rightarrow> Inl (ErrMsg ''decode key PEM'')
     | Some (typ, bytes) \<Rightarrow>
        (if typ \<noteq> ''PRIVATE KEY'' then Inl (ErrMsg ''key PEM is not PKCS#8'')
         else if pkcs8 bytes then Inl (ErrMsg ''key is valid PKCS#8'')
         else if \<not> pkcs1 bytes then Inl (ErrMsg ''key is neither PKCS#1 nor PKCS#8'')
         else Inr (encode ''RSA PRIVATE KEY'' bytes)))"

section \<open>The certificate of the node\<close>

fun normalizeIPs :: "ip list \<Rightarrow> ip list \<Rightarrow> ip list" where
  "normalizeIPs out [] = out"
| "normalizeIPs out (i # is) = normalizeIPs (if i \<in> set out then out else out @ [i]) is"

definition coversSANs :: "certificate \<Rightarrow> string list \<Rightarrow> ip list \<Rightarrow> bool" where
  "coversSANs cert dnsNames ipAddrs \<longleftrightarrow>
     list_all (\<lambda>n. n \<in> set (ct_DNSNames cert)) dnsNames \<and>
     list_all (\<lambda>want. list_ex (\<lambda>have. have = want) (ct_IPAddresses cert)) (normalizeIPs [] ipAddrs)"

definition reusableNodeCert :: "'ca pki \<Rightarrow> time \<Rightarrow> certificate \<Rightarrow> 'ca \<Rightarrow> string \<Rightarrow> string list \<Rightarrow> ip list \<Rightarrow> bool" where
  "reusableNodeCert K now cert ca commonName dnsNames ipAddrs =
     (if ct_NotBefore cert > now \<or> ct_NotAfter cert - now \<le> nodeCertSafetyMargin then False
      else (case pk_cert K ca of
          None \<Rightarrow> False
        | Some caCert \<Rightarrow>
           (if \<not> pk_signed K cert caCert then False
            else if ct_CommonName cert \<noteq> commonName then False
            else coversSANs cert dnsNames ipAddrs)))"

definition IssuePeerCertificate ::
  "'ca pki \<Rightarrow> 'ca \<Rightarrow> string \<Rightarrow> string \<Rightarrow> string list \<Rightarrow> ip list \<Rightarrow> duration \<Rightarrow> (string \<times> string) result" where
  "IssuePeerCertificate K ca commonName organization dnsNames ipAddrs ttl =
     pk_issue K ca commonName organization dnsNames ipAddrs ttl (5 * 60 * Second)"

text \<open>The certificate that is found and may be kept.\<close>

definition kept_cert :: "'ca pki \<Rightarrow> time \<Rightarrow> raft_tls_config \<Rightarrow> 'ca \<Rightarrow> string \<Rightarrow> string list \<Rightarrow> ip list \<Rightarrow> files \<Rightarrow> (string \<times> string) option" where
  "kept_cert K now cfg ca commonName dnsNames ipAddrs F =
     (let certPath = join_dir (tl_Dir cfg) ''node.crt''; keyPath = join_dir (tl_Dir cfg) ''node.key'' in
      if fileExists F certPath \<and> fileExists F keyPath then
        (case readPEM F certPath of
           Inl _ \<Rightarrow> None
         | Inr existing \<Rightarrow> (case pk_parse K existing of
             None \<Rightarrow> None
           | Some cert \<Rightarrow>
              (if reusableNodeCert K now cert ca commonName dnsNames ipAddrs
               then (case readPEM F keyPath of Inl _ \<Rightarrow> None | Inr key \<Rightarrow> Some (existing, key)) else None)))
      else None)"

definition issueOrReuseNodeCert ::
  "'ca pki \<Rightarrow> time \<Rightarrow> raft_tls_config \<Rightarrow> 'ca \<Rightarrow> string \<Rightarrow> string \<Rightarrow> string list \<Rightarrow> ip list \<Rightarrow> files \<Rightarrow> (string \<times> string) result \<times> files" where
  "issueOrReuseNodeCert K now cfg ca commonName organization dnsNames ipAddrs F = (case fs_dir_err F of
       Some e \<Rightarrow> (Inl e, F)
     | None \<Rightarrow> (case kept_cert K now cfg ca commonName dnsNames ipAddrs F of
         Some pair \<Rightarrow> (Inr pair, F)
       | None \<Rightarrow> (case IssuePeerCertificate K ca commonName organization dnsNames ipAddrs (tl_Validity cfg) of
           Inl e \<Rightarrow> (Inl e, F)
         | Inr (certPEM, keyPEM) \<Rightarrow>
             write_pair F (join_dir (tl_Dir cfg) ''node.crt'') (join_dir (tl_Dir cfg) ''node.key'') certPEM keyPEM)))"

section \<open>The configuration of the transport\<close>

definition buildRaftTLSMaterial :: "'ca pki \<Rightarrow> string \<Rightarrow> string \<Rightarrow> string \<Rightarrow> (string \<times> string \<times> string) result" where
  "buildRaftTLSMaterial K caCertPEM leafCertPEM leafKeyPEM =
     (if \<not> pk_pair K leafCertPEM leafKeyPEM then Inl (ErrMsg ''parse leaf key pair'')
      else if \<not> pk_pool K caCertPEM then Inl (ErrMsg ''no CA cert found in CA PEM'')
      else Inr (caCertPEM, leafCertPEM, leafKeyPEM))"

definition repo_buildRaftTLSConfig :: "string \<times> string \<times> string \<Rightarrow> bool \<Rightarrow> tls_config" where
  "repo_buildRaftTLSConfig m clientAuth = (case m of (pool, leaf, key) \<Rightarrow>
     \<lparr>tc_Certificate = (leaf, key), tc_RootCAs = pool, tc_ClientCAs = pool, tc_RequireClientCert = clientAuth, tc_ServerName = []\<rparr>)"

definition loadManualRaftTLS :: "'ca pki \<Rightarrow> raft_tls_config \<Rightarrow> files \<Rightarrow> tls_config result" where
  "loadManualRaftTLS K cfg F =
     (if tl_CACertPath cfg = [] \<or> tl_CertPath cfg = [] \<or> tl_KeyPath cfg = [] then Inl (ErrMsg ''ca_cert/cert/key must all be set together'')
      else bindE (readPEM F (tl_CACertPath cfg)) (\<lambda>caPEM.
           bindE (readPEM F (tl_CertPath cfg)) (\<lambda>leafPEM.
           bindE (readPEM F (tl_KeyPath cfg)) (\<lambda>keyPEM.
           bindE (buildRaftTLSMaterial K caPEM leafPEM keyPEM) (\<lambda>m.
           Inr (repo_buildRaftTLSConfig m (tl_ClientAuth cfg)))))))"

definition tls_defaults :: "raft_tls_config \<Rightarrow> raft_tls_config" where
  "tls_defaults cfg = cfg\<lparr>tl_Validity := (if tl_Validity cfg = 0 then 8760 * 3600 * Second else tl_Validity cfg),
     tl_Organization := (if tl_Organization cfg = [] then ''gohookbridge-raft'' else tl_Organization cfg)\<rparr>"

text \<open>\<open>Some (Inr None)\<close>: no TLS. \<open>None\<close>: the poll of the secret has not ended.\<close>

definition LoadOrBuildRaftTLS ::
  "'ca pki \<Rightarrow> time \<Rightarrow> raft_tls_config \<Rightarrow> bool \<Rightarrow> bool \<Rightarrow> unit api \<Rightarrow> (secret_data api \<times> time) list \<Rightarrow> string list \<Rightarrow> ip list \<Rightarrow> string \<Rightarrow> files \<Rightarrow>
     tls_config option result option \<times> files" where
  "LoadOrBuildRaftTLS K now cfg0 isMultiNode clientset created answers dnsNames ipAddrs commonName F =
     (if \<not> tl_Enabled cfg0 then (Some (Inr None), F)
      else (let cfg = tls_defaults cfg0 in
        if tl_CACertPath cfg \<noteq> [] \<or> tl_CertPath cfg \<noteq> [] \<or> tl_KeyPath cfg \<noteq> []
        then (Some (bindE (loadManualRaftTLS K cfg F) (\<lambda>c. Inr (Some c))), F)
        else if isMultiNode then (Some (Inl (ErrMsg ''multi-node deployments require manual pre-provisioned certificates'')), F)
        else (case ensureRaftCA K cfg clientset created now answers F of
            (None, F1) \<Rightarrow> (None, F1)
          | (Some (Inl e), F1) \<Rightarrow> (Some (Inl e), F1)
          | (Some (Inr (caCertPEM, caKeyPEM)), F1) \<Rightarrow>
             (case NewMintingCAFromPEM K caCertPEM caKeyPEM of
                Inl e \<Rightarrow> (Some (Inl e), F1)
              | Inr ca \<Rightarrow>
                (case issueOrReuseNodeCert K now cfg ca commonName (tl_Organization cfg) dnsNames ipAddrs F1 of
                   (Inl e, F2) \<Rightarrow> (Some (Inl e), F2)
                 | (Inr (leafPEM, leafKeyPEM), F2) \<Rightarrow>
                     (Some (bindE (buildRaftTLSMaterial K caCertPEM leafPEM leafKeyPEM) (\<lambda>m. Inr (Some (repo_buildRaftTLSConfig m (tl_ClientAuth cfg))))), F2))))))"

section \<open>The flags of the server\<close>

record tls_flags =
  tf_Enabled :: bool
  tf_Dir :: string
  tf_RaftDir :: string
  tf_NodeID :: string
  tf_Replicas :: int
  tf_Peers :: "string list"
  tf_CABootstrap :: bool
  tf_Validity :: duration
  tf_CACert :: string
  tf_Cert :: string
  tf_Key :: string
  tf_CASecret :: string
  tf_ClientAuth :: bool
  tf_LeaderWait :: duration

definition is_multi_node :: "tls_flags \<Rightarrow> bool" where
  "is_multi_node c \<longleftrightarrow> tf_Replicas c > 1 \<or> length (tf_Peers c) > 1"

definition ca_bootstrap :: "tls_flags \<Rightarrow> string \<Rightarrow> bool" where
  "ca_bootstrap c hostname \<longleftrightarrow> tf_CABootstrap c \<or> (is_multi_node c \<and> HasSuffix hostname ''-0'') \<or> \<not> is_multi_node c"

definition buildRaftTLSConfig ::
  "'ca pki \<Rightarrow> netlib \<Rightarrow> time \<Rightarrow> tls_flags \<Rightarrow> discovery_config \<Rightarrow> string \<Rightarrow> ip list \<Rightarrow> bool \<Rightarrow> unit api \<Rightarrow> (secret_data api \<times> time) list \<Rightarrow> files \<Rightarrow>
     tls_config option result option \<times> files" where
  "buildRaftTLSConfig K N now c discovery hostname ips clientset created answers F =
     (if \<not> tf_Enabled c then (Some (Inr None), F)
      else (let commonName = (if tf_NodeID c = [] then (case Self N hostname (NewPeerResolver discovery) of Inl _ \<Rightarrow> [] | Inr self \<Rightarrow> rp_ID self) else tf_NodeID c)
        in LoadOrBuildRaftTLS K now
          \<lparr>tl_Enabled = True, tl_Dir = (if tf_Dir c = [] then join_dir (tf_RaftDir c) ''tls'' else tf_Dir c), tl_Validity = tf_Validity c, tl_Organization = [],
           tl_CACertPath = tf_CACert c, tl_CertPath = tf_Cert c, tl_KeyPath = tf_Key c, tl_CASecret = tf_CASecret c,
           tl_CABootstrap = ca_bootstrap c hostname, tl_ClientAuth = tf_ClientAuth c, tl_SecretPollTimeout = tf_LeaderWait c\<rparr>
          (is_multi_node c) clientset created answers (PodSANs discovery hostname) ips commonName F))"

section \<open>The stream layer\<close>

definition newHostAddr :: "netlib \<Rightarrow> string \<Rightarrow> (string \<times> int) result" where
  "newHostAddr N addr = (case net_SplitHostPort N addr of
       None \<Rightarrow> Inl (ErrMsg ''address'')
     | Some (host, portStr) \<Rightarrow> (case ParseInt portStr of Inl _ \<Rightarrow> Inl (ErrMsg ''invalid port'') | Inr port \<Rightarrow> Inr (host, port)))"

definition hostAddr_String :: "string \<times> int \<Rightarrow> string" where
  "hostAddr_String a = JoinHostPort (fst a) (Itoa (snd a))"

definition maxDialRetries :: nat where
  "maxDialRetries = 4"

definition isConnRefused :: "error \<Rightarrow> bool" where
  "isConnRefused e \<longleftrightarrow> Contains (error_text e) ''connection refused''"

text \<open>One attempt: what the resolver answers, and what dialling an address with a TLS configuration answers.\<close>

type_synonym 'conn attempt = "string list result \<times> (string \<Rightarrow> tls_config option \<Rightarrow> 'conn result)"

text \<open>The loop from attempt \<open>n\<close> on; the result comes with the dials that were made: the address and the configuration.\<close>

fun dial_loop :: "string \<Rightarrow> string \<Rightarrow> tls_config option \<Rightarrow> error \<Rightarrow> 'conn attempt list \<Rightarrow> 'conn result \<times> (string \<times> tls_config option) list" where
  "dial_loop host port tlsCfg lastErr [] = (Inl lastErr, [])"
| "dial_loop host port tlsCfg lastErr ((lookup, dial) # attempts) = (case lookup of
       Inl e \<Rightarrow> dial_loop host port tlsCfg e attempts
     | Inr [] \<Rightarrow> dial_loop host port tlsCfg (ErrMsg ''resolve: no addresses'') attempts
     | Inr (a # _) \<Rightarrow>
        (let target = JoinHostPort a port; cfg = map_option (\<lambda>c. c\<lparr>tc_ServerName := host\<rparr>) tlsCfg in
         case dial target cfg of
           Inr conn \<Rightarrow> (Inr conn, [(target, cfg)])
         | Inl e \<Rightarrow> (if \<not> isConnRefused e then (Inl e, [(target, cfg)])
                    else (case dial_loop host port tlsCfg e attempts of (r, dials) \<Rightarrow> (r, (target, cfg) # dials)))))"

definition Dial :: "netlib \<Rightarrow> tls_config option \<Rightarrow> (nat \<Rightarrow> 'conn attempt) \<Rightarrow> string \<Rightarrow> 'conn result \<times> (string \<times> tls_config option) list" where
  "Dial N tlsCfg attempt addr = (case net_SplitHostPort N addr of
       None \<Rightarrow> (Inl (ErrMsg ''parse raft dial addr''), [])
     | Some (host, port) \<Rightarrow> dial_loop host port tlsCfg (ErrMsg []) (map attempt [0..<Suc maxDialRetries]))"

section \<open>Lemmas\<close>

lemma set_normalizeIPs: "set (normalizeIPs out is) = set out \<union> set is"
  by (induction "is" arbitrary: out) auto

lemma coversSANs_iff: "coversSANs cert names ips \<longleftrightarrow> set names \<subseteq> set (ct_DNSNames cert) \<and> set ips \<subseteq> set (ct_IPAddresses cert)"
  by (auto simp: coversSANs_def list_all_iff list_ex_iff set_normalizeIPs)

text \<open>The five ways an attempt goes.\<close>

lemma dial_loop_cases:
  obtains e where "dial_loop host port tlsCfg lastErr ((lookup, dial) # attempts) = dial_loop host port tlsCfg e attempts"
    | conn a as where "lookup = Inr (a # as)" "dial (JoinHostPort a port) (map_option (\<lambda>c. c\<lparr>tc_ServerName := host\<rparr>) tlsCfg) = Inr conn"
        "dial_loop host port tlsCfg lastErr ((lookup, dial) # attempts) = (Inr conn, [(JoinHostPort a port, map_option (\<lambda>c. c\<lparr>tc_ServerName := host\<rparr>) tlsCfg)])"
    | e a where "\<not> isConnRefused e"
        "dial_loop host port tlsCfg lastErr ((lookup, dial) # attempts) = (Inl e, [(JoinHostPort a port, map_option (\<lambda>c. c\<lparr>tc_ServerName := host\<rparr>) tlsCfg)])"
    | e a r dials where "dial_loop host port tlsCfg e attempts = (r, dials)"
        "dial_loop host port tlsCfg lastErr ((lookup, dial) # attempts) = (r, (JoinHostPort a port, map_option (\<lambda>c. c\<lparr>tc_ServerName := host\<rparr>) tlsCfg) # dials)"
proof (cases lookup)
  case (Inl e)
  then show ?thesis by (intro that(1) [of e]) simp
next
  case (Inr ips)
  show ?thesis
  proof (cases ips)
    case Nil
    then show ?thesis using Inr by (intro that(1) [of "ErrMsg ''resolve: no addresses''"]) simp
  next
    case (Cons a as)
    let ?t = "JoinHostPort a port" and ?c = "map_option (\<lambda>c. c\<lparr>tc_ServerName := host\<rparr>) tlsCfg"
    have s: "dial_loop host port tlsCfg lastErr ((lookup, dial) # attempts) = (case dial ?t ?c of
           Inr conn \<Rightarrow> (Inr conn, [(?t, ?c)])
         | Inl e \<Rightarrow> (if \<not> isConnRefused e then (Inl e, [(?t, ?c)])
                    else (case dial_loop host port tlsCfg e attempts of (r, dials) \<Rightarrow> (r, (?t, ?c) # dials))))"
      unfolding dial_loop.simps Inr Cons Let_def by simp
    show ?thesis
    proof (cases "dial ?t ?c")
      case d: (Inl e)
      obtain r dials where r: "dial_loop host port tlsCfg e attempts = (r, dials)" by fastforce
      show ?thesis
      proof (cases "isConnRefused e")
        case True
        show ?thesis by (rule that(4) [OF r, of a]) (simp only: s d sum.case True r prod.case not_True_eq_False if_False)
      next
        case False
        show ?thesis by (rule that(3) [OF False, of a]) (simp only: s d sum.case False not_False_eq_True if_True)
      qed
    next
      case d: (Inr conn)
      show ?thesis by (rule that(2) [OF _ d]) (simp only: Inr Cons, simp only: s d sum.case)
    qed
  qed
qed

declare dial_loop.simps(2) [simp del]

lemma dial_loop_dials:
  "length (snd (dial_loop host port tlsCfg lastErr attempts)) \<le> length attempts \<and>
   (\<forall>x \<in> set (snd (dial_loop host port tlsCfg lastErr attempts)). snd x = map_option (\<lambda>c. c\<lparr>tc_ServerName := host\<rparr>) tlsCfg)"
proof (induction attempts arbitrary: lastErr)
  case (Cons x attempts)
  obtain lookup dial where x: "x = (lookup, dial)" by fastforce
  show ?case
  proof (cases rule: dial_loop_cases [of host port tlsCfg lastErr lookup dial attempts])
    case (1 e)
    then show ?thesis using Cons [of e] by (simp add: x)
  next
    case (4 e a r dials)
    then show ?thesis using Cons [of e] by (simp add: x)
  qed (simp_all add: x)
qed simp

lemma dial_loop_conn:
  "fst (dial_loop host port tlsCfg lastErr attempts) = Inr conn \<Longrightarrow> \<exists>lookup dial a as. (lookup, dial) \<in> set attempts \<and> lookup = Inr (a # as) \<and>
     dial (JoinHostPort a port) (map_option (\<lambda>c. c\<lparr>tc_ServerName := host\<rparr>) tlsCfg) = Inr conn"
proof (induction attempts arbitrary: lastErr)
  case (Cons x attempts)
  obtain lookup dial where x: "x = (lookup, dial)" by fastforce
  show ?case
  proof (cases rule: dial_loop_cases [of host port tlsCfg lastErr lookup dial attempts])
    case (1 e)
    then show ?thesis using Cons.IH [of e] Cons.prems by (metis x list.set_intros(2))
  next
    case (2 c a as)
    then show ?thesis using Cons.prems by (metis x fst_conv list.set_intros(1) sum.inject(2))
  next
    case (3 e a)
    then show ?thesis using Cons.prems x by simp
  next
    case (4 e a r dials)
    then show ?thesis using Cons.IH [of e] Cons.prems by (metis x fst_conv list.set_intros(2))
  qed
qed simp

lemma buildRaftTLSMaterial_Inr: "buildRaftTLSMaterial K ca leaf key = Inr m \<longleftrightarrow> m = (ca, leaf, key) \<and> pk_pair K leaf key \<and> pk_pool K ca"
  by (auto simp: buildRaftTLSMaterial_def)

lemma loadManual_Inr:
  "loadManualRaftTLS K cfg F = Inr conf \<Longrightarrow> \<exists>ca leaf key. readPEM F (tl_CACertPath cfg) = Inr ca \<and> readPEM F (tl_CertPath cfg) = Inr leaf \<and>
     readPEM F (tl_KeyPath cfg) = Inr key \<and> pk_pair K leaf key \<and> pk_pool K ca \<and>
     conf = \<lparr>tc_Certificate = (leaf, key), tc_RootCAs = ca, tc_ClientCAs = ca, tc_RequireClientCert = tl_ClientAuth cfg, tc_ServerName = []\<rparr>"
  by (auto simp: loadManualRaftTLS_def bindE_Inr_iff buildRaftTLSMaterial_Inr repo_buildRaftTLSConfig_def split: if_splits)

lemma tls_defaults_fields [simp]: "tl_CACertPath (tls_defaults cfg) = tl_CACertPath cfg" "tl_CertPath (tls_defaults cfg) = tl_CertPath cfg"
  "tl_KeyPath (tls_defaults cfg) = tl_KeyPath cfg" "tl_ClientAuth (tls_defaults cfg) = tl_ClientAuth cfg" "tl_Dir (tls_defaults cfg) = tl_Dir cfg"
  by (simp_all add: tls_defaults_def)

lemma LoadOrBuild_conf:
  assumes "LoadOrBuildRaftTLS K now cfg multi clientset created answers names ips cn F = (Some (Inr (Some conf)), F')"
  shows "tc_RootCAs conf = tc_ClientCAs conf \<and> tc_RequireClientCert conf = tl_ClientAuth cfg \<and> pk_pool K (tc_RootCAs conf) \<and>
     pk_pair K (fst (tc_Certificate conf)) (snd (tc_Certificate conf)) \<and> (multi \<longrightarrow> F' = F \<and>
       readPEM F (tl_CACertPath cfg) = Inr (tc_RootCAs conf) \<and> readPEM F (tl_CertPath cfg) = Inr (fst (tc_Certificate conf)) \<and>
       readPEM F (tl_KeyPath cfg) = Inr (snd (tc_Certificate conf)))"
proof (cases "tl_CACertPath cfg \<noteq> [] \<or> tl_CertPath cfg \<noteq> [] \<or> tl_KeyPath cfg \<noteq> []")
  case True
  then have "loadManualRaftTLS K (tls_defaults cfg) F = Inr conf" "F' = F"
    using assms by (auto simp: LoadOrBuildRaftTLS_def Let_def bindE_Inr_iff split: if_splits)
  then show ?thesis using loadManual_Inr [of K "tls_defaults cfg" F conf] by auto
next
  case False
  then show ?thesis using assms
    by (auto simp: LoadOrBuildRaftTLS_def Let_def bindE_Inr_iff buildRaftTLSMaterial_Inr repo_buildRaftTLSConfig_def
        split: if_splits option.splits sum.splits prod.splits)
qed

text \<open>What is expected of the authority \<open>goca\<close>: a certificate it issues parses, carries the names it was asked for, is signed by the
  authority, and is valid from the backdated time for the validity asked for, up to the whole seconds of X.509 times;
  and the key fits.\<close>

definition pki_issues :: "'ca pki \<Rightarrow> time \<Rightarrow> bool" where
  "pki_issues K now \<longleftrightarrow> (\<forall>ca cn org names ips ttl back cert key. pk_issue K ca cn org names ips ttl back = Inr (cert, key) \<longrightarrow>
     pk_pair K cert key \<and> (\<exists>x caCert. pk_parse K cert = Some x \<and> pk_cert K ca = Some caCert \<and> pk_signed K x caCert \<and> ct_CommonName x = cn \<and>
       set names \<subseteq> set (ct_DNSNames x) \<and> set ips \<subseteq> set (ct_IPAddresses x) \<and> ct_NotBefore x \<le> now - back \<and>
       now - back + ttl - Second \<le> ct_NotAfter x))"

text \<open>A certificate that serves a node at a time, and still does after the safety margin.\<close>

definition cert_serves :: "'ca pki \<Rightarrow> time \<Rightarrow> certificate \<Rightarrow> 'ca \<Rightarrow> string \<Rightarrow> string list \<Rightarrow> ip list \<Rightarrow> bool" where
  "cert_serves K now x ca cn names ips \<longleftrightarrow> (\<exists>caCert. pk_cert K ca = Some caCert \<and> pk_signed K x caCert) \<and> ct_CommonName x = cn \<and>
     set names \<subseteq> set (ct_DNSNames x) \<and> set ips \<subseteq> set (ct_IPAddresses x) \<and>
     ct_NotBefore x \<le> now \<and> now + 7 * 24 * 3600 * Second < ct_NotAfter x"

lemma reusable_serves: "reusableNodeCert K now x ca cn names ips \<longleftrightarrow> cert_serves K now x ca cn names ips"
  by (auto simp: reusableNodeCert_def cert_serves_def coversSANs_iff nodeCertSafetyMargin_def split: option.splits)

lemma write_pair_Inr:
  "write_pair F cp kp c k = (Inr (c', k'), F') \<Longrightarrow> c' = c \<and> k' = k \<and> F' = F\<lparr>fs_data := kv_put kp k (kv_put cp c (fs_data F))\<rparr>"
  by (auto simp: write_pair_def writePEM_def split: option.splits prod.splits)

lemma node_paths: "join_dir d ''node.crt'' \<noteq> join_dir d ''node.key''"
  by (simp add: join_dir_def)

section \<open>An example\<close>

text \<open>An authority that issues one certificate, for one year.\<close>

definition demo_cert :: certificate where
  "demo_cert = \<lparr>ct_NotBefore = - 300 * Second, ct_NotAfter = 8760 * 3600 * Second, ct_CommonName = ''ghb-0'', ct_DNSNames = [''ghb-0''], ct_IPAddresses = [], ct_Key = ''key''\<rparr>"

definition demo_pki :: "unit pki" where
  "demo_pki = \<lparr>pk_parse = (\<lambda>s. if s = ''crt'' then Some demo_cert else None), pk_signed = (\<lambda>_ _. True), pk_pair = (\<lambda>c k. c = ''crt'' \<and> k = ''key''),
     pk_pool = (\<lambda>s. s = ''root''), pk_new = (\<lambda>_ _. Inr (''root'', ''rootkey'')), pk_load = (\<lambda>_ _. Inr ()), pk_fix = Inr, pk_cert = (\<lambda>_. Some demo_cert),
     pk_issue = (\<lambda>_ cn _ names ips ttl back. if back = 300 * Second \<and> cn = ''ghb-0'' \<and> names = [''ghb-0''] \<and> ips = [] \<and> ttl \<le> 8760 * 3600 * Second then Inr (''crt'', ''key'') else Inl (ErrMsg ''issue''))\<rparr>"

lemma demo_pki_issues: "pki_issues demo_pki 0"
  by (auto simp: pki_issues_def demo_pki_def demo_cert_def Second_def split: if_splits)

definition demo_files :: files where
  "demo_files = \<lparr>fs_data = [(''ca'', ''root''), (''cert'', ''crt''), (''key'', ''key'')], fs_read_err = (\<lambda>_. None), fs_write_err = (\<lambda>_. None), fs_dir_err = None\<rparr>"

definition demo_tls_flags :: tls_flags where
  "demo_tls_flags = \<lparr>tf_Enabled = True, tf_Dir = [], tf_RaftDir = ''raft'', tf_NodeID = ''ghb-0'', tf_Replicas = 3, tf_Peers = [], tf_CABootstrap = False, tf_Validity = 0,
     tf_CACert = ''ca'', tf_Cert = ''cert'', tf_Key = ''key'', tf_CASecret = [], tf_ClientAuth = True, tf_LeaderWait = 0\<rparr>"

definition demo_tls :: raft_tls_config where
  "demo_tls = \<lparr>tl_Enabled = True, tl_Dir = ''tls'', tl_Validity = 8760 * 3600 * Second, tl_Organization = ''o'', tl_CACertPath = [], tl_CertPath = [], tl_KeyPath = [],
     tl_CASecret = [], tl_CABootstrap = True, tl_ClientAuth = True, tl_SecretPollTimeout = 0\<rparr>"

section \<open>Properties\<close>



text \<open>Without configured files a cluster of several nodes does not start with TLS, whatever the secret of the authority holds: no
  authority is minted or read, no certificate is issued.\<close>

theorem multi_node_shares_no_ca:
  assumes "tf_Enabled c" "is_multi_node c" "tf_CACert c = []" "tf_Cert c = []" "tf_Key c = []"
  shows "buildRaftTLSConfig K N now c discovery hostname ips clientset created answers F =
     (Some (Inl (ErrMsg ''multi-node deployments require manual pre-provisioned certificates'')), F)"
  using assms by (simp add: buildRaftTLSConfig_def LoadOrBuildRaftTLS_def Let_def tls_defaults_def)

text \<open>C35: The certificate a node ends up with serves it, and is kept as long as it does. With a configured validity of more than
  the safety margin of seven days, the backdating of five minutes and a second, whenever \<open>issueOrReuseNodeCert\<close> returns a pair, its certificate is signed by the
  present authority, carries the name of the node, covers all its names and addresses, is valid now and for more than seven further days.
  A pair found in the files with these properties is taken as it is and nothing is written; otherwise the pair is
  a new one of the authority, and it is in the files afterwards: at any later time at which it
  still has these properties the node takes it again and writes nothing.\<close>

theorem node_certificate_fits:
  assumes "pki_issues K now" "7 * 24 * 3600 * Second + 5 * 60 * Second + Second < tl_Validity cfg" "\<forall>p. fs_read_err F p = None"
    and "issueOrReuseNodeCert K now cfg ca cn org names ips F = (Inr (cert, key), F')"
  shows "\<exists>x. pk_parse K cert = Some x \<and> (\<exists>caCert. pk_cert K ca = Some caCert \<and> pk_signed K x caCert) \<and> ct_CommonName x = cn \<and>
       set names \<subseteq> set (ct_DNSNames x) \<and> set ips \<subseteq> set (ct_IPAddresses x) \<and>
       ct_NotBefore x \<le> now \<and> now + 7 * 24 * 3600 * Second < ct_NotAfter x \<and>
     (\<forall>c0 k0 x0. readPEM F (join_dir (tl_Dir cfg) ''node.crt'') = Inr c0 \<and> readPEM F (join_dir (tl_Dir cfg) ''node.key'') = Inr k0 \<and>
        pk_parse K c0 = Some x0 \<and> cert_serves K now x0 ca cn names ips \<longrightarrow> (cert, key) = (c0, k0) \<and> F' = F) \<and>
     (F' \<noteq> F \<longrightarrow> IssuePeerCertificate K ca cn org names ips (tl_Validity cfg) = Inr (cert, key)) \<and>
     (\<forall>later. cert_serves K later x ca cn names ips \<longrightarrow> issueOrReuseNodeCert K later cfg ca cn org names ips F' = (Inr (cert, key), F'))"
proof -
  have d: "fs_dir_err F = None" using assms(4) by (auto simp: issueOrReuseNodeCert_def split: option.splits)
  have found: "kept_cert K now cfg ca cn names ips F = Some (c0, k0)"
    if "readPEM F (join_dir (tl_Dir cfg) ''node.crt'') = Inr c0" "readPEM F (join_dir (tl_Dir cfg) ''node.key'') = Inr k0"
      "pk_parse K c0 = Some x0" "cert_serves K now x0 ca cn names ips" for c0 k0 x0
    using that assms(3) by (auto simp: kept_cert_def Let_def reusable_serves fileExists_def readPEM_def of_option_def split: option.splits)
  show ?thesis
  proof (cases "kept_cert K now cfg ca cn names ips F")
    case (Some pair)
    then have p: "pair = (cert, key)" "F' = F" using assms(4) d by (auto simp: issueOrReuseNodeCert_def)
    have e: "fileExists F (join_dir (tl_Dir cfg) ''node.crt'')" "fileExists F (join_dir (tl_Dir cfg) ''node.key'')"
      using Some by (auto simp: kept_cert_def Let_def split: if_splits)
    obtain x where x: "readPEM F (join_dir (tl_Dir cfg) ''node.crt'') = Inr cert" "pk_parse K cert = Some x" "cert_serves K now x ca cn names ips"
      "readPEM F (join_dir (tl_Dir cfg) ''node.key'') = Inr key"
      using Some p(1) by (auto simp: kept_cert_def Let_def reusable_serves split: if_splits sum.splits option.splits)
    have "issueOrReuseNodeCert K later cfg ca cn org names ips F' = (Inr (cert, key), F')" if "cert_serves K later x ca cn names ips" for later
      using that x(1,2,4) d e p(2) by (simp add: issueOrReuseNodeCert_def kept_cert_def Let_def reusable_serves)
    moreover note x(3) [unfolded cert_serves_def]
    moreover have "(cert, key) = (c0, k0) \<and> F' = F" if "readPEM F (join_dir (tl_Dir cfg) ''node.crt'') = Inr c0"
        "readPEM F (join_dir (tl_Dir cfg) ''node.key'') = Inr k0" for c0 k0
      using that x(1,4) p(2) by simp
    ultimately show ?thesis using x(2) p(2) by blast
  next
    case None
    obtain c k where i: "IssuePeerCertificate K ca cn org names ips (tl_Validity cfg) = Inr (c, k)"
      "write_pair F (join_dir (tl_Dir cfg) ''node.crt'') (join_dir (tl_Dir cfg) ''node.key'') c k = (Inr (cert, key), F')"
      using assms(4) d None by (auto simp: issueOrReuseNodeCert_def split: sum.splits)
    note w = write_pair_Inr [OF i(2)]
    have is_new: "IssuePeerCertificate K ca cn org names ips (tl_Validity cfg) = Inr (cert, key)" using i(1) w by simp
    then obtain x caCert where x: "pk_parse K cert = Some x" "pk_cert K ca = Some caCert" "pk_signed K x caCert" "ct_CommonName x = cn"
       "set names \<subseteq> set (ct_DNSNames x)" "set ips \<subseteq> set (ct_IPAddresses x)" "ct_NotBefore x \<le> now - 5 * 60 * Second"
       "now - 5 * 60 * Second + tl_Validity cfg - Second \<le> ct_NotAfter x"
      using assms(1) unfolding pki_issues_def IssuePeerCertificate_def by blast
    have "0 \<le> 5 * 60 * Second" by (simp add: Second_def)
    then have s: "cert_serves K now x ca cn names ips" using x assms(2) by (simp add: cert_serves_def)
    have "kv_get (fs_data F') (join_dir (tl_Dir cfg) ''node.crt'') = Some cert" "kv_get (fs_data F') (join_dir (tl_Dir cfg) ''node.key'') = Some key"
      using w node_paths [of "tl_Dir cfg"] by (simp_all add: kvm.get_put del: kv_put.simps)
    moreover have "fs_dir_err F' = None" "\<forall>p. fs_read_err F' p = None" using w d assms(3) by simp_all
    ultimately have "issueOrReuseNodeCert K later cfg ca cn org names ips F' = (Inr (cert, key), F')" if "cert_serves K later x ca cn names ips" for later
      using that x(1) by (simp add: issueOrReuseNodeCert_def kept_cert_def Let_def fileExists_def readPEM_def reusable_serves)
    moreover note s [unfolded cert_serves_def]
    moreover have False if "readPEM F (join_dir (tl_Dir cfg) ''node.crt'') = Inr c0" "readPEM F (join_dir (tl_Dir cfg) ''node.key'') = Inr k0"
        "pk_parse K c0 = Some x0" "cert_serves K now x0 ca cn names ips" for c0 k0 x0
      using found [OF that] None by simp
    ultimately show ?thesis using x(1) is_new by blast
  qed
qed

theorem node_certificate_fits_witness:
  "\<exists>F' x. issueOrReuseNodeCert demo_pki 0 demo_tls () ''ghb-0'' ''o'' [''ghb-0''] [] (demo_files\<lparr>fs_data := []\<rparr>) = (Inr (''crt'', ''key''), F') \<and>
     pk_parse demo_pki ''crt'' = Some x \<and> ct_CommonName x = ''ghb-0'' \<and> 7 * 24 * 3600 * Second < ct_NotAfter x"
proof -
  let ?F = "demo_files\<lparr>fs_data := []\<rparr>"
  have "kept_cert demo_pki 0 demo_tls () ''ghb-0'' [''ghb-0''] [] ?F = None" by (simp add: kept_cert_def Let_def fileExists_def kv_get_def)
  moreover have "IssuePeerCertificate demo_pki () ''ghb-0'' ''o'' [''ghb-0''] [] (tl_Validity demo_tls) = Inr (''crt'', ''key'')"
    by (simp add: IssuePeerCertificate_def demo_pki_def demo_tls_def Second_def)
  moreover have "fs_dir_err ?F = None" by (simp add: demo_files_def)
  moreover have "\<exists>F'. write_pair ?F cp kp c k = (Inr (c, k), F')" for cp kp c k by (simp add: write_pair_def writePEM_def demo_files_def)
  ultimately obtain F' where i: "issueOrReuseNodeCert demo_pki 0 demo_tls () ''ghb-0'' ''o'' [''ghb-0''] [] ?F = (Inr (''crt'', ''key''), F')"
    by (fastforce simp: issueOrReuseNodeCert_def)
  have "7 * 24 * 3600 * Second + 5 * 60 * Second + Second < tl_Validity demo_tls" by (simp add: demo_tls_def Second_def)
  moreover have "\<forall>p. fs_read_err ?F p = None" by (simp add: demo_files_def)
  ultimately show ?thesis using node_certificate_fits [OF demo_pki_issues _ _ i] i by auto
qed

text \<open>A dial makes at most five attempts and returns. Every connection that is tried checks the peer's certificate against the name that
  was dialled, not against the address it resolved to, and a connection that is returned was made to an address
  which that name resolved to in one of these attempts.\<close>

theorem dial_bounded_and_verified:
  assumes "net_SplitHostPort N addr = Some (host, port)"
  shows "length (snd (Dial N tlsCfg attempt addr)) \<le> 5 \<and>
     (\<forall>(target, cfg) \<in> set (snd (Dial N tlsCfg attempt addr)). cfg = map_option (\<lambda>c. c\<lparr>tc_ServerName := host\<rparr>) tlsCfg) \<and>
     (\<forall>conn. fst (Dial N tlsCfg attempt addr) = Inr conn \<longrightarrow> (\<exists>i a as. i < 5 \<and> fst (attempt i) = Inr (a # as) \<and>
        snd (attempt i) (JoinHostPort a port) (map_option (\<lambda>c. c\<lparr>tc_ServerName := host\<rparr>) tlsCfg) = Inr conn))"
proof -
  let ?as = "map attempt [0..<Suc maxDialRetries]"
  have d: "Dial N tlsCfg attempt addr = dial_loop host port tlsCfg (ErrMsg []) ?as" by (simp add: Dial_def assms)
  have l: "length ?as = 5" "\<And>x. x \<in> set ?as \<Longrightarrow> \<exists>i. i < 5 \<and> x = attempt i" by (auto simp: maxDialRetries_def)
  have "\<exists>i a as. i < 5 \<and> fst (attempt i) = Inr (a # as) \<and> snd (attempt i) (JoinHostPort a port) (map_option (\<lambda>c. c\<lparr>tc_ServerName := host\<rparr>) tlsCfg) = Inr conn"
    if c: "fst (dial_loop host port tlsCfg (ErrMsg []) ?as) = Inr conn" for conn
  proof -
    obtain lookup dial a as where "(lookup, dial) \<in> set ?as" "lookup = Inr (a # as)"
      "dial (JoinHostPort a port) (map_option (\<lambda>c. c\<lparr>tc_ServerName := host\<rparr>) tlsCfg) = Inr conn" using dial_loop_conn [OF c] by blast
    then show ?thesis using l(2) by (metis fst_conv snd_conv)
  qed
  then show ?thesis using dial_loop_dials [of host port tlsCfg "ErrMsg []" ?as] unfolding d l(1) by fastforce
qed

theorem dial_bounded_and_verified_witness:
  "length (snd (Dial demo_net None (\<lambda>_. (Inr [''10.0.0.7''], \<lambda>_ _. Inl (ErrMsg ''connection refused'') :: nat result)) ''ghb-1'')) \<le> 5"
proof -
  have "net_SplitHostPort demo_net ''ghb-1'' = Some (''ghb-1'', ''1'')" by (simp add: demo_net_def)
  from dial_bounded_and_verified [OF this] show ?thesis by blast
qed

text \<open>A new certificate over an old key is never repaired. The two files are written one after the other; when the process stops between
  the two writes of a renewal, the certificate that is found fits, so it is kept, but the key beside it is the old one:
  this start and every later one fails while the certificate is valid.\<close>

theorem torn_renewal_sticks:
  assumes "kept_cert K now cfg ca cn names ips F = Some (cert, key)" "\<not> pk_pair K cert key" "fs_dir_err F = None"
  shows "issueOrReuseNodeCert K now cfg ca cn org names ips F = (Inr (cert, key), F) \<and> buildRaftTLSMaterial K caPEM cert key = Inl (ErrMsg ''parse leaf key pair'')"
  using assms by (simp add: issueOrReuseNodeCert_def buildRaftTLSMaterial_def)

text \<open>On a single node the branch that waits for the secret of another node is never taken.\<close>

lemma single_node_creates_ca: "\<not> is_multi_node c \<Longrightarrow> ca_bootstrap c hostname"
  by (simp add: ca_bootstrap_def)

end
