(* ===== verification/TlsReload.thy ===== *)
theory TlsReload
  imports RaftTls
begin

text \<open>
  Hot reload of certificates \<open>pkg/tlsreload/tlsreload.go\<close>. What the watched files look like at each look is an argument, so
  that files may change between two looks of the same step. The lemmas show that the provider keeps
  material that was valid when it was loaded, that it takes over a settled rotation, and where it misses one.
\<close>

section \<open>The provider\<close>

text \<open>A look at the files: their contents, if readable, and for each of them, in the order certificate, key and authority, its
  modification time or the error of \<open>os.Stat\<close>.\<close>

record cert_files =
  cf_cert :: "string option"
  cf_key :: "string option"
  cf_ca :: "string option"
  cf_stats :: "time result list"

fun latestModTime :: "time \<Rightarrow> time result list \<Rightarrow> time result" where
  "latestModTime latest [] = Inr latest"
| "latestModTime latest (Inl e # infos) = Inl e"
| "latestModTime latest (Inr m # infos) = latestModTime (if m > latest then m else latest) infos"

definition cf_mtime :: "cert_files \<Rightarrow> time result" where
  "cf_mtime F = latestModTime 0 (cf_stats F)"

record reload_state =
  rs_cert :: "string \<times> string"
  rs_leaf :: certificate
  rs_pool :: string
  rs_modTime :: time

text \<open>\<open>readState\<close> reads the files first and asks for their modification time afterwards.\<close>

definition readState :: "'ca pki \<Rightarrow> time \<Rightarrow> cert_files \<Rightarrow> cert_files \<Rightarrow> reload_state result" where
  "readState K now F F' = (case (cf_cert F, cf_key F) of
       (Some cert, Some key) \<Rightarrow>
         (if \<not> pk_pair K cert key then Inl (ErrMsg ''load key pair'')
          else (case pk_parse K cert of
              None \<Rightarrow> Inl (ErrMsg ''parse leaf certificate'')
            | Some parsed \<Rightarrow>
               (if now < ct_NotBefore parsed then Inl (ErrMsg ''certificate not yet valid'')
                else if now > ct_NotAfter parsed then Inl (ErrMsg ''certificate expired'')
                else (case cf_ca F of
                    None \<Rightarrow> Inl (ErrMsg ''read CA'')
                  | Some caPEM \<Rightarrow>
                     (if \<not> pk_pool K caPEM then Inl (ErrMsg ''no CA certificate found'')
                      else bindE (cf_mtime F') (\<lambda>m. Inr \<lparr>rs_cert = (cert, key), rs_leaf = parsed, rs_pool = caPEM, rs_modTime = m\<rparr>))))))
     | _ \<Rightarrow> Inl (ErrMsg ''load key pair''))"

definition Load :: "'ca pki \<Rightarrow> time \<Rightarrow> cert_files \<Rightarrow> cert_files \<Rightarrow> reload_state option \<Rightarrow> error option \<times> reload_state option" where
  "Load K now F F' current = (case readState K now F F' of Inl e \<Rightarrow> (Some e, current) | Inr st \<Rightarrow> (None, Some st))"

text \<open>One tick: the time, and the three looks at the files.\<close>

record reload_tick =
  rt_now :: time
  rt_stat :: cert_files
  rt_read :: cert_files
  rt_restat :: cert_files

definition reload :: "'ca pki \<Rightarrow> reload_tick \<Rightarrow> reload_state option \<Rightarrow> reload_state option" where
  "reload K t current = (case cf_mtime (rt_stat t) of
       Inl _ \<Rightarrow> current
     | Inr modTime \<Rightarrow>
        (if current \<noteq> None \<and> \<not> modTime > rs_modTime (the current) then current
         else (case readState K (rt_now t) (rt_read t) (rt_restat t) of Inl _ \<Rightarrow> current | Inr st \<Rightarrow> Some st)))"

fun reload_loop :: "'ca pki \<Rightarrow> reload_tick list \<Rightarrow> reload_state option \<Rightarrow> reload_state option" where
  "reload_loop K [] current = current"
| "reload_loop K (t # ts) current = reload_loop K ts (reload K t current)"

definition GetCertificate :: "reload_state option \<Rightarrow> (string \<times> string) result" where
  "GetCertificate current = (case current of None \<Rightarrow> Inl (ErrMsg ''tlsreload: no certificate loaded'') | Some st \<Rightarrow> Inr (rs_cert st))"

text \<open>The certificate is looked up at each handshake, the pool is the one of the moment of the call.\<close>

record reload_config =
  rl_certificate :: "reload_state option \<Rightarrow> (string \<times> string) result"
  rl_pool :: "string option"

definition TLSConfig :: "reload_state option \<Rightarrow> reload_config" where
  "TLSConfig current = \<lparr>rl_certificate = GetCertificate, rl_pool = map_option rs_pool current\<rparr>"

section \<open>Lemmas\<close>

text \<open>Material that was read at the time \<open>t\<close> and was valid then: the key fits the certificate, the certificate was within its
  validity, and there is an authority for the pool.\<close>

definition valid_at :: "'ca pki \<Rightarrow> time \<Rightarrow> reload_state \<Rightarrow> bool" where
  "valid_at K t st \<longleftrightarrow> pk_pair K (fst (rs_cert st)) (snd (rs_cert st)) \<and> pk_parse K (fst (rs_cert st)) = Some (rs_leaf st) \<and> pk_pool K (rs_pool st) \<and>
     ct_NotBefore (rs_leaf st) \<le> t \<and> t \<le> ct_NotAfter (rs_leaf st)"

text \<open>Where the material comes from: the contents of one look at the files, at the time of that look.\<close>

definition taken_from :: "'ca pki \<Rightarrow> reload_state \<Rightarrow> time \<times> cert_files \<Rightarrow> bool" where
  "taken_from K st look \<longleftrightarrow> cf_cert (snd look) = Some (fst (rs_cert st)) \<and> cf_key (snd look) = Some (snd (rs_cert st)) \<and>
     cf_ca (snd look) = Some (rs_pool st) \<and> valid_at K (fst look) st"

lemma readState_taken: "readState K now F F' = Inr st \<Longrightarrow> taken_from K st (now, F)"
  by (auto simp: readState_def taken_from_def valid_at_def bindE_Inr_iff split: option.splits if_splits)

lemma readState_valid:
  assumes "cf_cert F = Some cert" "cf_key F = Some key" "pk_pair K cert key" "pk_parse K cert = Some x" "ct_NotBefore x \<le> now" "now \<le> ct_NotAfter x"
    and "cf_ca F = Some ca" "pk_pool K ca" "cf_mtime F' = Inr m"
  shows "readState K now F F' = Inr \<lparr>rs_cert = (cert, key), rs_leaf = x, rs_pool = ca, rs_modTime = m\<rparr>"
  using assms by (simp add: readState_def)

lemma reload_cases: "reload K t (Some st) = Some st \<or> (\<exists>st'. reload K t (Some st) = Some st' \<and> readState K (rt_now t) (rt_read t) (rt_restat t) = Inr st')"
  by (auto simp: reload_def split: sum.split)

lemma reload_loop_taken:
  "taken_from K st look \<Longrightarrow> look \<in> looks \<Longrightarrow> (\<lambda>t. (rt_now t, rt_read t)) ` set ts \<subseteq> looks \<Longrightarrow>
     \<exists>st'. reload_loop K ts (Some st) = Some st' \<and> (\<exists>look \<in> looks. taken_from K st' look)"
proof (induction ts arbitrary: st look)
  case (Cons t ts)
  have n: "(rt_now t, rt_read t) \<in> looks" "(\<lambda>t. (rt_now t, rt_read t)) ` set ts \<subseteq> looks" using Cons.prems(3) by auto
  consider "reload K t (Some st) = Some st" | st' where "reload K t (Some st) = Some st'" "readState K (rt_now t) (rt_read t) (rt_restat t) = Inr st'"
    using reload_cases by blast
  then obtain st' look' where "reload K t (Some st) = Some st'" "taken_from K st' look'" "look' \<in> looks"
    using Cons.prems(1,2) readState_taken n(1) by cases blast+
  then show ?case using Cons.IH [OF _ _ n(2)] by simp
qed auto

lemma reload_loop_append: "reload_loop K (ts @ us) c = reload_loop K us (reload_loop K ts c)"
  by (induction ts arbitrary: c) simp_all

text \<open>Three looks that show the same files.\<close>

definition steady :: "reload_tick \<Rightarrow> cert_files \<Rightarrow> bool" where
  "steady t F \<longleftrightarrow> rt_stat t = F \<and> rt_read t = F \<and> rt_restat t = F"

section \<open>Properties\<close>


definition demo_looks :: cert_files where
  "demo_looks = \<lparr>cf_cert = Some ''crt'', cf_key = Some ''key'', cf_ca = Some ''root'', cf_stats = [Inr 1, Inr 1, Inr 0]\<rparr>"

definition demo_torn_tick :: reload_tick where
  "demo_torn_tick = \<lparr>rt_now = 5, rt_stat = demo_looks\<lparr>cf_stats := [Inr 1, Inr 2, Inr 0]\<rparr>, rt_read = demo_looks\<lparr>cf_key := None\<rparr>, rt_restat = demo_looks\<rparr>"

lemma demo_reads_state: "readState demo_pki 0 demo_looks F' = bindE (cf_mtime F') (\<lambda>m. Inr \<lparr>rs_cert = (''crt'', ''key''), rs_leaf = demo_cert, rs_pool = ''root'', rs_modTime = m\<rparr>)"
  by (simp add: readState_def demo_looks_def demo_pki_def demo_cert_def Second_def)


text \<open>The pool of a configuration is the one at the time it was made: after a rotation of the authority the handshakes still verify with the
  old pool, although the provider holds the new one.\<close>

theorem rotated_pool_not_used:
  assumes "reload_loop K ts (Some st) = Some st'" "rs_pool st' \<noteq> rs_pool st"
  shows "rl_pool (TLSConfig (Some st)) = Some (rs_pool st) \<and> rl_certificate (TLSConfig (Some st)) (reload_loop K ts (Some st)) = Inr (rs_cert st') \<and>
     rl_pool (TLSConfig (Some st)) \<noteq> Some (rs_pool st')"
  using assms by (simp add: TLSConfig_def GetCertificate_def)

text \<open>A change of the files between reading them and asking for their modification time is never noticed: the old contents are recorded
  with the new time.\<close>

lemma quiet_reload: "cf_mtime (rt_stat t) = Inr m \<Longrightarrow> \<not> m > rs_modTime st \<Longrightarrow> reload K t (Some st) = Some st"
  by (simp add: reload_def)

theorem rotation_missed:
  assumes "readState K now F F' = Inr st" "cf_mtime F' = Inr m" "\<forall>t \<in> set ts. steady t F'"
  shows "reload_loop K ts (Some st) = Some st \<and> Some (fst (rs_cert st)) = cf_cert F"
proof -
  have r: "rs_modTime st = m" "Some (fst (rs_cert st)) = cf_cert F"
    using assms(1,2) by (auto simp: readState_def bindE_Inr_iff split: option.splits if_splits)
  have "reload_loop K ts (Some st) = Some st" using assms(3) by (induction ts) (simp_all add: quiet_reload steady_def assms(2) r(1))
  then show ?thesis using r(2) by simp
qed

end
