(* ===== verification/Pipeline.thy ===== *)
theory Pipeline
  imports Primitives
begin

text \<open>
  The release pipeline \<open>dagger/gohookbridge\<close>: versions and registry paths (\<open>internal/pipeline/helpers.go\<close>), building and publishing the images
  (\<open>release.go\<close>), and the values and kubeconfig of the validation cluster (\<open>deploy.go\<close>, \<open>k3s.go\<close>). The Dagger engine is a record of
  functions; what is published is a trace. The lemmas show which references are published and when, and that the cluster
  pulls what was pushed.
\<close>

section \<open>Versions and paths\<close>

definition TrimVersionTag :: "string \<Rightarrow> string" where
  "TrimVersionTag tag = TrimPrefix (TrimSpace tag) ''v''"

definition ResolveVersion :: "string \<Rightarrow> string" where
  "ResolveVersion version = (if TrimVersionTag version \<noteq> [] then TrimVersionTag version else ''dev'')"

text \<open>\<open>rnd\<close>: the 16 bytes of the random source.\<close>

definition NewRunNonce :: "string option \<Rightarrow> string result" where
  "NewRunNonce rnd = (case rnd of None \<Rightarrow> Inl (ErrMsg ''generate run nonce'') | Some b \<Rightarrow> Inr (hex_EncodeToString b))"

definition alnum :: "char \<Rightarrow> bool" where
  "alnum c \<longleftrightarrow> c \<in> set url_alphabet - {CHR ''-'', CHR ''_''}"

definition ociVersionPattern :: "string \<Rightarrow> bool" where
  "ociVersionPattern s = (case s of [] \<Rightarrow> False | c # cs \<Rightarrow> alnum c \<and> list_all (\<lambda>d. alnum d \<or> d \<in> set ''._+-'') cs)"

definition ociRegistryPattern :: "string \<Rightarrow> bool" where
  "ociRegistryPattern s = (case Split CHR ''/'' s of
       [] \<Rightarrow> False
     | host # parts \<Rightarrow> host \<noteq> [] \<and> list_all (\<lambda>d. alnum d \<or> d \<in> set ''.-'') host \<and>
         list_all (\<lambda>p. p \<noteq> [] \<and> list_all (\<lambda>d. alnum d \<or> d \<in> set ''._-'') p) parts)"

definition ValidateVersion :: "string \<Rightarrow> error option" where
  "ValidateVersion version = (if ociVersionPattern (TrimVersionTag version) then None else Some (ErrMsg ''invalid version''))"

definition ValidateRegistryPath :: "string \<Rightarrow> error option" where
  "ValidateRegistryPath path = (if ociRegistryPattern path then None else Some (ErrMsg ''invalid registry/repository path''))"

section \<open>Sources and reports\<close>

definition ForbiddenSourcePatterns :: "string list" where
  "ForbiddenSourcePatterns = [''.git/'', ''.env'', ''SECURITY_AUDIT_REPORT.md'', ''AGENTS.local.md'', ''values-home.yaml'', ''node_modules/'']"

definition forbidden_path :: "string \<Rightarrow> string \<Rightarrow> bool" where
  "forbidden_path p f \<longleftrightarrow> p = f \<or> HasSuffix p (''/'' @ TrimSuffix f ''/'') \<or> Contains p f"

definition FilterSourcePaths :: "string list \<Rightarrow> string list" where
  "FilterSourcePaths paths = filter (\<lambda>p. \<not> list_ex (forbidden_path p) ForbiddenSourcePatterns) paths"

record report_section =
  se_Title :: string
  se_Body :: string

definition nl :: string where
  "nl = [CHR 0x0A]"

fun report_sections :: "report_section list \<Rightarrow> string" where
  "report_sections [] = []"
| "report_sections (s # ss) = nl @ ''## '' @ se_Title s @ nl @ nl @ TrimSpace (se_Body s) @ nl @ report_sections ss"

definition BuildReport :: "report_section list \<Rightarrow> string" where
  "BuildReport sections = ''# Gohookbridge Dagger validation report'' @ nl @ report_sections sections"

section \<open>Images\<close>

record component =
  cm_name :: string
  cm_suffix :: string
  cm_dockerfile :: string
  cm_platforms :: "string list"

definition imagePlatforms :: "string list" where
  "imagePlatforms = [''linux/amd64'', ''linux/arm64'', ''linux/s390x'', ''linux/ppc64le'']"

definition clientProxyPlatforms :: "string list" where
  "clientProxyPlatforms = [''linux/amd64'', ''linux/arm64'']"

definition allComponents :: "component list" where
  "allComponents =
     [\<lparr>cm_name = ''server'', cm_suffix = [], cm_dockerfile = ''Dockerfile'', cm_platforms = imagePlatforms\<rparr>,
      \<lparr>cm_name = ''client'', cm_suffix = ''-client'', cm_dockerfile = ''Dockerfile.client'', cm_platforms = clientProxyPlatforms\<rparr>,
      \<lparr>cm_name = ''proxy'', cm_suffix = ''-proxy'', cm_dockerfile = ''Dockerfile.proxy'', cm_platforms = clientProxyPlatforms\<rparr>]"

definition componentRepository :: "string \<Rightarrow> string \<Rightarrow> string" where
  "componentRepository base sfx = base @ sfx"

definition localRepositoryName :: "string \<Rightarrow> string" where
  "localRepositoryName sfx = ''gohookbridge'' @ sfx"

text \<open>The engine: linting a Dockerfile, building it for a platform with a version, and publishing under a reference, which may depend on what was
  published before. A publication records the reference, the account and the platforms.\<close>

record publication =
  pb_Ref :: string
  pb_User :: string
  pb_Platforms :: "string list"

record 'img engine =
  eg_lint :: "string \<Rightarrow> string result"
  eg_build :: "string \<Rightarrow> string \<Rightarrow> string \<Rightarrow> 'img result"
  eg_publish :: "publication list \<Rightarrow> publication \<Rightarrow> string result"

record 'img imagePushResult =
  ip_component :: string
  ip_suffix :: string
  ip_versionRef :: string
  ip_latestRef :: string
  ip_digest :: string
  ip_latestDigest :: string
  ip_lintAdvisory :: string
  ip_skipped :: bool
  ip_built :: "'img option"

definition image_ref :: "string \<Rightarrow> string \<Rightarrow> component \<Rightarrow> string \<Rightarrow> string" where
  "image_ref registry repositoryName cpt tag = registry @ ''/'' @ componentRepository repositoryName (cm_suffix cpt) @ '':'' @ tag"

definition publish :: "'img engine \<Rightarrow> string \<Rightarrow> component \<Rightarrow> string \<Rightarrow> publication list \<Rightarrow> string result \<times> publication list" where
  "publish E user cpt ref trace = (let p = \<lparr>pb_Ref = ref, pb_User = user, pb_Platforms = cm_platforms cpt\<rparr> in
     case eg_publish E trace p of Inl e \<Rightarrow> (Inl e, trace) | Inr digest \<Rightarrow> (Inr digest, trace @ [p]))"

definition buildAndPushImage ::
  "'img engine \<Rightarrow> component \<Rightarrow> string \<Rightarrow> string \<Rightarrow> string \<Rightarrow> string \<Rightarrow> bool \<Rightarrow> bool \<Rightarrow> publication list \<Rightarrow> 'img imagePushResult result \<times> publication list" where
  "buildAndPushImage E cpt resolved registry repositoryName user pushLatest skipPush trace =
     (let imageRef = image_ref registry repositoryName cpt resolved; latestRef = image_ref registry repositoryName cpt ''latest'' in
      case eg_lint E (cm_dockerfile cpt) of Inl e \<Rightarrow> (Inl e, trace)
      | Inr advisory \<Rightarrow>
      (case mapE (\<lambda>platform. eg_build E (cm_dockerfile cpt) platform resolved) (cm_platforms cpt) of Inl e \<Rightarrow> (Inl e, trace)
      | Inr variants \<Rightarrow>
        (let result = \<lparr>ip_component = cm_name cpt, ip_suffix = cm_suffix cpt, ip_versionRef = imageRef, ip_latestRef = [], ip_digest = [], ip_latestDigest = [],
               ip_lintAdvisory = advisory, ip_skipped = False, ip_built = Some (hd variants)\<rparr> in
         if skipPush then (Inr (result\<lparr>ip_skipped := True\<rparr>), trace)
         else (case publish E user cpt imageRef trace of
             (Inl e, trace1) \<Rightarrow> (Inl e, trace1)
           | (Inr ref, trace1) \<Rightarrow>
              (if \<not> pushLatest then (Inr (result\<lparr>ip_digest := ref\<rparr>), trace1)
               else (case publish E user cpt latestRef trace1 of
                   (Inl e, trace2) \<Rightarrow> (Inl e, trace2)
                 | (Inr latest, trace2) \<Rightarrow> (Inr (result\<lparr>ip_digest := ref, ip_latestRef := latestRef, ip_latestDigest := latest\<rparr>), trace2)))))))"

fun buildAndPushAll ::
  "'img engine \<Rightarrow> component list \<Rightarrow> string \<Rightarrow> string \<Rightarrow> string \<Rightarrow> string \<Rightarrow> bool \<Rightarrow> bool \<Rightarrow> publication list \<Rightarrow> 'img imagePushResult list result \<times> publication list" where
  "buildAndPushAll E [] resolved registry repositoryName user pushLatest skipPush trace = (Inr [], trace)"
| "buildAndPushAll E (cpt # comps) resolved registry repositoryName user pushLatest skipPush trace =
     (case buildAndPushImage E cpt resolved registry repositoryName user pushLatest skipPush trace of
        (Inl e, trace1) \<Rightarrow> (Inl e, trace1)
      | (Inr res, trace1) \<Rightarrow>
         (case buildAndPushAll E comps resolved registry repositoryName user pushLatest skipPush trace1 of
            (Inl e, trace2) \<Rightarrow> (Inl e, trace2)
          | (Inr results, trace2) \<Rightarrow> (Inr (res # results), trace2)))"

definition tick :: string where
  "tick = [CHR 0x60]"

definition push_summary :: "'img imagePushResult \<Rightarrow> string" where
  "push_summary res =
     (let findings = TrimSpace (ip_lintAdvisory res);
          lintSection = ''- hadolint (failure threshold '' @ tick @ ''error'' @ tick @ ''): passed'' @
            (if findings \<noteq> [] then '' with advisory findings:'' @ nl @ nl @ tick @ tick @ tick @ ''text'' @ nl @ findings @ nl @ tick @ tick @ tick else [])
      in ''### '' @ ip_component res @ nl @ ''- Built image: '' @ tick @ ip_versionRef res @ tick @ nl @ lintSection @ nl @
         (if ip_skipped res then ''- Push skipped (--skip-push)'' @ nl
          else ''- Pushed '' @ tick @ ip_versionRef res @ tick @ '': digest '' @ ip_digest res @ nl @
            (if ip_latestDigest res \<noteq> [] then ''- Pushed '' @ tick @ ip_latestRef res @ tick @ '': digest '' @ ip_latestDigest res @ nl else [])) @ nl)"

definition defaultRegistry :: string where
  "defaultRegistry = ''ghcr.io''"

definition defaultRepository :: string where
  "defaultRepository = ''webcenter-fr/gohookbridge''"

definition or_default :: "string \<Rightarrow> string \<Rightarrow> string" where
  "or_default s d = (if s = [] then d else s)"

text \<open>\<open>password\<close> says whether a secret was passed.\<close>

definition PublishImage ::
  "'img engine \<Rightarrow> string \<Rightarrow> string \<Rightarrow> string \<Rightarrow> string \<Rightarrow> bool \<Rightarrow> bool \<Rightarrow> bool \<Rightarrow> publication list \<Rightarrow> string result \<times> publication list" where
  "PublishImage E version registry0 repository0 user password pushLatest skipPush trace =
     (let registry = or_default registry0 defaultRegistry; repositoryName = or_default repository0 defaultRepository; resolved = ResolveVersion version in
      case ValidateVersion resolved of Some e \<Rightarrow> (Inl e, trace)
      | None \<Rightarrow> (case ValidateRegistryPath registry of Some e \<Rightarrow> (Inl e, trace)
      | None \<Rightarrow> (case ValidateRegistryPath repositoryName of Some e \<Rightarrow> (Inl e, trace)
      | None \<Rightarrow>
        if \<not> skipPush \<and> (user = [] \<or> \<not> password) then (Inl (ErrMsg ''push requested but registry credentials are missing''), trace)
        else (case buildAndPushAll E allComponents resolved registry repositoryName user pushLatest skipPush trace of
            (Inl e, trace') \<Rightarrow> (Inl e, trace')
          | (Inr results, trace') \<Rightarrow> (Inr (concat (map push_summary results)), trace')))))"

section \<open>The validation cluster\<close>

definition localRegistryHost :: string where
  "localRegistryHost = ''registry:5000''"

definition pushRegistryHost :: string where
  "pushRegistryHost = ''localhost:5000''"

definition localPushRefFor :: "string \<Rightarrow> string \<Rightarrow> string" where
  "localPushRefFor sfx version = pushRegistryHost @ ''/'' @ localRepositoryName sfx @ '':'' @ version"

record imageRepositories =
  ir_Server :: string
  ir_Client :: string
  ir_Proxy :: string

definition image_values :: "string \<Rightarrow> string \<Rightarrow> json" where
  "image_values repository version = JObj [(''repository'', JStr repository), (''tag'', JStr version)]"

definition smokeSessionSecret :: string where
  "smokeSessionSecret = ''6f1c0d2e9a4b7385c6d1f0a9e2b4c7d85316af9e04b2c7d1a8e5f3b6c9d0e7a1''"

definition smokeProxyPublicKey :: string where
  "smokeProxyPublicKey = replicate 43 CHR ''A''"

text \<open>The values as a document; \<open>yaml.Marshal\<close> writes its text.\<close>

definition helm_values :: "imageRepositories \<Rightarrow> string \<Rightarrow> string \<Rightarrow> json" where
  "helm_values repos version channelID = JObj
     [(''fullnameOverride'', JStr ''gohookbridge''),
      (''server'', JObj
        [(''replicas'', JNum 1), (''image'', image_values (ir_Server repos) version), (''raft'', JObj [(''tls'', JObj [(''enabled'', JBool False)])]),
         (''bootstrap'', JObj [(''enabled'', JBool True), (''config'', JObj
            [(''global'', JObj [(''server'', JObj [(''session_secret'', JStr smokeSessionSecret), (''cors_origin'', JStr ''*''), (''max_body_size'', JNum 26214400)])]),
             (''users'', JArr [JObj [(''username'', JStr ''admin''), (''password'', JStr ''DaggerSmoke!Pipeline2026''), (''roles'', JStrs [''admin'']), (''channels'', JStrs [''*''])]]),
             (''channels'', JArr [JObj [(''id'', JStr channelID), (''description'', JStr ''Dagger pipeline smoke-test channel'')]])])])]),
      (''client'', JObj [(''enabled'', JBool True), (''image'', image_values (ir_Client repos) version),
         (''channelURL'', JStr (''http://gohookbridge-server:3333/'' @ channelID)), (''targetURL'', JStr ''http://127.0.0.1:1'')]),
      (''proxy'', JObj [(''enabled'', JBool True), (''image'', image_values (ir_Proxy repos) version), (''listenPort'', JNum 9090),
         (''targetURL'', JStr ''http://127.0.0.1:1''), (''publicKey'', JStr smokeProxyPublicKey)])]"

definition RenderHelmValues :: "(json \<Rightarrow> string result) \<Rightarrow> imageRepositories \<Rightarrow> string \<Rightarrow> string \<Rightarrow> string result" where
  "RenderHelmValues yaml repos version channelID = yaml (helm_values repos version channelID)"

definition local_repositories :: imageRepositories where
  "local_repositories = \<lparr>ir_Server = localRegistryHost @ ''/'' @ localRepositoryName [], ir_Client = localRegistryHost @ ''/'' @ localRepositoryName ''-client'',
     ir_Proxy = localRegistryHost @ ''/'' @ localRepositoryName ''-proxy''\<rparr>"

definition writeHelmValues :: "(json \<Rightarrow> string result) \<Rightarrow> string \<Rightarrow> string \<Rightarrow> string result" where
  "writeHelmValues yaml version channelID = RenderHelmValues yaml local_repositories version channelID"

definition indent_of :: "string \<Rightarrow> string" where
  "indent_of line = takeWhile (\<lambda>c. c = CHR '' '') line"

definition unindented :: "string \<Rightarrow> string" where
  "unindented line = dropWhile (\<lambda>c. c = CHR '' '') line"

definition is_server_line :: "string \<Rightarrow> bool" where
  "is_server_line line \<longleftrightarrow> HasPrefix (unindented line) ''server:''"

definition is_ca_line :: "string \<Rightarrow> bool" where
  "is_ca_line line \<longleftrightarrow> HasPrefix (unindented line) ''certificate-authority''"

definition rewrite_line :: "string \<Rightarrow> string list" where
  "rewrite_line line = (if is_server_line line then [indent_of line @ ''server: https://k3s:6443'', indent_of line @ ''insecure-skip-tls-verify: true'']
     else if is_ca_line line then [] else [line])"

definition rewriteKubeconfig :: "string \<Rightarrow> string result" where
  "rewriteKubeconfig kubeconfig = (let lines = Split CHR 0x0A kubeconfig in
     if \<not> list_ex is_server_line lines then Inl (ErrMsg ''rewrite k3s kubeconfig: no server field found'')
     else Inr (Join (concat (map rewrite_line lines)) nl))"

section \<open>Lemmas\<close>

lemma dropWhile_chars: "c \<in> set s \<Longrightarrow> c \<in> set (dropWhile P s) \<or> P c"
  by (induction s) auto

lemma TrimVersionTag_chars: "c \<in> set s \<Longrightarrow> c \<in> set (TrimVersionTag s) \<or> is_space c \<or> c = CHR ''v''"
proof -
  assume "c \<in> set s"
  then have "c \<in> set (TrimSpace s) \<or> is_space c"
    using dropWhile_chars [of c s is_space] dropWhile_chars [of c "rev (dropWhile is_space s)" is_space] by (auto simp: TrimSpace_def)
  moreover have "c \<in> set t \<Longrightarrow> c \<in> set (TrimPrefix t ''v'') \<or> c = CHR ''v''" for t
    by (cases t) (auto simp: TrimPrefix_def)
  ultimately show ?thesis by (auto simp: TrimVersionTag_def)
qed

lemma Split_parts_chars: "d \<in> set s \<Longrightarrow> d = c \<or> (\<exists>x \<in> set (Split c s). d \<in> set x)"
proof -
  have "set (Join xs [c]) \<subseteq> (\<Union>x \<in> set xs. set x) \<union> {c}" for xs by (induction xs rule: induct_list012) auto
  from this [of "Split c s"] show "d \<in> set s \<Longrightarrow> d = c \<or> (\<exists>x \<in> set (Split c s). d \<in> set x)" by (auto simp: Join_Split)
qed

text \<open>The characters that mean nothing to a shell.\<close>

definition ref_char :: "char \<Rightarrow> bool" where
  "ref_char c \<longleftrightarrow> alnum c \<or> c \<in> set ''._+-/:''"

lemma valid_version_chars:
  assumes "ValidateVersion v = None" "c \<in> set v"
  shows "ref_char c \<or> is_space c"
proof -
  have "alnum CHR ''v''" by code_simp
  moreover have "\<forall>c \<in> set (TrimVersionTag v). ref_char c"
    using assms(1) by (auto simp: ValidateVersion_def ociVersionPattern_def list_all_iff ref_char_def split: if_splits list.splits)
  ultimately show ?thesis using TrimVersionTag_chars [OF assms(2)] by (auto simp: ref_char_def)
qed

lemma valid_path_chars:
  assumes "ValidateRegistryPath p = None" "c \<in> set p"
  shows "ref_char c"
proof -
  have "\<forall>x \<in> set (Split CHR ''/'' p). \<forall>c \<in> set x. ref_char c"
    using assms(1) by (auto simp: ValidateRegistryPath_def ociRegistryPattern_def list_all_iff ref_char_def split: if_splits list.splits)
  then show ?thesis using Split_parts_chars [OF assms(2), of "CHR ''/''"] by (auto simp: ref_char_def)
qed

lemma image_ref_chars:
  assumes "\<forall>c \<in> set registry. P c" "\<forall>c \<in> set repositoryName. P c" "\<forall>c \<in> set (cm_suffix cpt). P c" "\<forall>c \<in> set tag. P c" "P CHR ''/''" "P CHR '':''"
  shows "\<forall>c \<in> set (image_ref registry repositoryName cpt tag). P c"
  using assms by (auto simp: image_ref_def componentRepository_def)

definition component_plan :: "string \<Rightarrow> string \<Rightarrow> string \<Rightarrow> bool \<Rightarrow> component \<Rightarrow> string list" where
  "component_plan resolved registry repositoryName pushLatest cpt =
     image_ref registry repositoryName cpt resolved # (if pushLatest then [image_ref registry repositoryName cpt ''latest''] else [])"

text \<open>A publication of a component that was linted and built for all its platforms.\<close>

definition sound_push :: "'img engine \<Rightarrow> component \<Rightarrow> string \<Rightarrow> string \<Rightarrow> publication \<Rightarrow> bool" where
  "sound_push E cpt resolved user p \<longleftrightarrow> pb_User p = user \<and> pb_Platforms p = cm_platforms cpt \<and> is_ok (eg_lint E (cm_dockerfile cpt)) \<and>
     (\<forall>platform \<in> set (cm_platforms cpt). is_ok (eg_build E (cm_dockerfile cpt) platform resolved))"

lemma publish_cases:
  assumes "publish E user cpt ref trace = (r, trace')"
  shows "(\<exists>e. r = Inl e \<and> trace' = trace) \<or> (\<exists>d. r = Inr d \<and> trace' = trace @ [\<lparr>pb_Ref = ref, pb_User = user, pb_Platforms = cm_platforms cpt\<rparr>])"
proof (cases "eg_publish E trace \<lparr>pb_Ref = ref, pb_User = user, pb_Platforms = cm_platforms cpt\<rparr>")
  case (Inl e)
  then have "publish E user cpt ref trace = (Inl e, trace)" by (simp add: publish_def)
  then show ?thesis using assms by simp
next
  case (Inr d)
  then have "publish E user cpt ref trace = (Inr d, trace @ [\<lparr>pb_Ref = ref, pb_User = user, pb_Platforms = cm_platforms cpt\<rparr>])" by (simp add: publish_def)
  then show ?thesis using assms by simp
qed

lemma mapE_all_ok: "mapE f xs = Inr ys \<Longrightarrow> \<forall>x \<in> set xs. is_ok (f x)"
  by (induction xs arbitrary: ys) (auto simp: bindE_Inr_iff is_ok_def)

lemma image_trace:
  assumes "buildAndPushImage E cpt resolved registry repositoryName user pushLatest skipPush trace = (r, trace')"
  shows "\<exists>pushed. trace' = trace @ pushed \<and> (\<forall>p \<in> set pushed. \<not> skipPush \<and> sound_push E cpt resolved user p) \<and>
     prefix (map pb_Ref pushed) (component_plan resolved registry repositoryName pushLatest cpt) \<and>
     (is_ok r \<and> \<not> skipPush \<longrightarrow> map pb_Ref pushed = component_plan resolved registry repositoryName pushLatest cpt)"
proof (cases "is_ok (eg_lint E (cm_dockerfile cpt)) \<and> is_ok (mapE (\<lambda>platform. eg_build E (cm_dockerfile cpt) platform resolved) (cm_platforms cpt)) \<and> \<not> skipPush")
  case False
  then have "trace' = trace" "is_ok r \<longrightarrow> skipPush" using assms by (auto simp: buildAndPushImage_def Let_def is_ok_def split: sum.splits if_splits)
  then show ?thesis by auto
next
  case True
  then obtain advisory variants where b: "eg_lint E (cm_dockerfile cpt) = Inr advisory" "\<not> skipPush"
    "mapE (\<lambda>platform. eg_build E (cm_dockerfile cpt) platform resolved) (cm_platforms cpt) = Inr variants" by (auto simp: is_ok_def split: sum.splits)
  have s: "sound_push E cpt resolved user \<lparr>pb_Ref = ref, pb_User = user, pb_Platforms = cm_platforms cpt\<rparr>" for ref
    using mapE_all_ok [OF b(3)] b(1) by (simp add: sound_push_def)
  obtain r1 trace1 where p: "publish E user cpt (image_ref registry repositoryName cpt resolved) trace = (r1, trace1)" by force
  show ?thesis
  proof (cases r1)
    case (Inl e)
    then have "trace' = trace" "\<not> is_ok r" using assms b p publish_cases [OF p] by (auto simp: buildAndPushImage_def Let_def)
    then show ?thesis by auto
  next
    case (Inr d)
    then have t: "trace1 = trace @ [\<lparr>pb_Ref = image_ref registry repositoryName cpt resolved, pb_User = user, pb_Platforms = cm_platforms cpt\<rparr>]"
      using publish_cases [OF p] by auto
    obtain r2 trace2 where l: "publish E user cpt (image_ref registry repositoryName cpt ''latest'') trace1 = (r2, trace2)" by force
    have "trace' = (if pushLatest then trace2 else trace1)" "is_ok r \<longleftrightarrow> (pushLatest \<longrightarrow> is_ok r2)"
      using assms b p Inr l by (auto simp: buildAndPushImage_def Let_def split: if_splits sum.splits)
    then show ?thesis using t s b(2) publish_cases [OF l] by (auto simp: component_plan_def)
  qed
qed

lemma all_trace:
  assumes "buildAndPushAll E cpts resolved registry repositoryName user pushLatest skipPush trace = (r, trace')"
  shows "\<exists>pushed. trace' = trace @ pushed \<and> (\<forall>p \<in> set pushed. \<not> skipPush \<and> (\<exists>cpt \<in> set cpts. sound_push E cpt resolved user p)) \<and>
     prefix (map pb_Ref pushed) (concat (map (component_plan resolved registry repositoryName pushLatest) cpts)) \<and>
     (is_ok r \<and> \<not> skipPush \<longrightarrow> map pb_Ref pushed = concat (map (component_plan resolved registry repositoryName pushLatest) cpts))"
  using assms
proof (induction cpts arbitrary: r trace trace')
  case (Cons cpt cpts)
  obtain r1 trace1 where b: "buildAndPushImage E cpt resolved registry repositoryName user pushLatest skipPush trace = (r1, trace1)" by force
  obtain pushed where p: "trace1 = trace @ pushed" "\<forall>p \<in> set pushed. \<not> skipPush \<and> sound_push E cpt resolved user p"
    "prefix (map pb_Ref pushed) (component_plan resolved registry repositoryName pushLatest cpt)"
    "is_ok r1 \<and> \<not> skipPush \<longrightarrow> map pb_Ref pushed = component_plan resolved registry repositoryName pushLatest cpt"
    using image_trace [OF b] by blast
  show ?case
  proof (cases r1)
    case (Inl e)
    then have "trace' = trace1" "\<not> is_ok r" using Cons.prems b by auto
    then show ?thesis using p by (auto intro: exI [of _ pushed] prefix_prefix)
  next
    case (Inr res)
    obtain r2 trace2 where a: "buildAndPushAll E cpts resolved registry repositoryName user pushLatest skipPush trace1 = (r2, trace2)" by force
    have e: "trace' = trace2" "is_ok r \<longleftrightarrow> is_ok r2" using Cons.prems b Inr a by (auto split: sum.splits)
    obtain later where l: "trace2 = trace1 @ later" "\<forall>p \<in> set later. \<not> skipPush \<and> (\<exists>cpt \<in> set cpts. sound_push E cpt resolved user p)"
      "prefix (map pb_Ref later) (concat (map (component_plan resolved registry repositoryName pushLatest) cpts))"
      "is_ok r2 \<and> \<not> skipPush \<longrightarrow> map pb_Ref later = concat (map (component_plan resolved registry repositoryName pushLatest) cpts)"
      using Cons.IH [OF a] by blast
    show ?thesis
    proof (cases skipPush)
      case True
      then have "pushed = []" "later = []" using p(2) l(2) by (metis last_in_set)+
      then show ?thesis using True e l(1) p(1) by (auto intro: exI [of _ "[]"])
    next
      case False
      then have "map pb_Ref pushed = component_plan resolved registry repositoryName pushLatest cpt" using p(4) Inr by simp
      then show ?thesis using False e l p(1,2) by (intro exI [of _ "pushed @ later"]) auto
    qed
  qed
qed simp

section \<open>Properties\<close>

text \<open>What a release publishes. Nothing without credentials or when pushing is switched off; only images that passed the lint and were built for
  every platform of their component; the references are the first ones of the plan, server, client and proxy with
  the version and, if asked for, \<open>latest\<close>, and all of them when the release succeeds; and no reference has a character that means
  something to a shell, white space apart.\<close>

theorem published_images_exact:
  fixes version registry repositoryName :: string and pushLatest :: bool
  defines "plan \<equiv> concat (map (component_plan (ResolveVersion version) (or_default registry defaultRegistry) (or_default repositoryName defaultRepository) pushLatest) allComponents)"
  assumes "PublishImage E version registry repositoryName user password pushLatest skipPush [] = (r, trace)"
  shows "prefix (map pb_Ref trace) plan \<and> (is_ok r \<and> \<not> skipPush \<longrightarrow> map pb_Ref trace = plan) \<and>
     (\<forall>p \<in> set trace. \<not> skipPush \<and> user \<noteq> [] \<and> password \<and> (\<exists>cpt \<in> set allComponents. sound_push E cpt (ResolveVersion version) user p) \<and>
        (\<forall>c \<in> set (pb_Ref p). ref_char c \<or> is_space c))"
proof -
  let ?v = "ResolveVersion version" and ?reg = "or_default registry defaultRegistry" and ?rep = "or_default repositoryName defaultRepository"
  consider "trace = []" "\<not> is_ok r" | r' where "ValidateVersion ?v = None" "ValidateRegistryPath ?reg = None" "ValidateRegistryPath ?rep = None"
    "skipPush \<or> user \<noteq> [] \<and> password" "buildAndPushAll E allComponents ?v ?reg ?rep user pushLatest skipPush [] = (r', trace)" "is_ok r \<longleftrightarrow> is_ok r'"
    using assms(2) by (auto simp: PublishImage_def Let_def split: option.splits if_splits sum.splits prod.splits)
  then show ?thesis
  proof cases
    case 2
    note t = all_trace [OF 2(5)]
    have safe: "\<forall>ref \<in> set plan. \<forall>c \<in> set ref. ref_char c \<or> is_space c"
    proof -
      have "\<forall>cpt \<in> set allComponents. \<forall>c \<in> set (cm_suffix cpt). ref_char c" "\<forall>c \<in> set ''latest''. ref_char c" "ref_char CHR ''/''" "ref_char CHR '':''" by code_simp+
      moreover have "\<forall>c \<in> set ?v. ref_char c \<or> is_space c" "\<forall>c \<in> set ?reg. ref_char c" "\<forall>c \<in> set ?rep. ref_char c"
        using valid_version_chars [OF 2(1)] valid_path_chars [OF 2(2)] valid_path_chars [OF 2(3)] by blast+
      ultimately have "\<forall>c \<in> set (image_ref ?reg ?rep cpt tag). ref_char c \<or> is_space c" if "cpt \<in> set allComponents" "tag = ?v \<or> tag = ''latest''" for cpt tag
        using that by (intro image_ref_chars) blast+
      then show ?thesis by (auto simp: plan_def component_plan_def split: if_splits)
    qed
    obtain pushed where p: "trace = pushed" "\<forall>p \<in> set pushed. \<not> skipPush \<and> (\<exists>cpt \<in> set allComponents. sound_push E cpt ?v user p)"
      "prefix (map pb_Ref pushed) plan" "is_ok r' \<and> \<not> skipPush \<longrightarrow> map pb_Ref pushed = plan" using t unfolding plan_def by auto
    have "set (map pb_Ref trace) \<subseteq> set plan" using p(1,3) by (metis set_mono_prefix)
    then show ?thesis using p 2(4,6) safe by auto
  qed simp
qed

definition demo_engine :: "string engine" where
  "demo_engine = \<lparr>eg_lint = \<lambda>_. Inr [], eg_build = \<lambda>f p v. Inr (f @ p @ v), eg_publish = \<lambda>t p. Inr ''sha256''\<rparr>"

theorem published_images_exact_witness:
  "map pb_Ref (snd (PublishImage demo_engine ''v1.2.0'' [] [] ''u'' True False False [])) =
     [''ghcr.io/webcenter-fr/gohookbridge:1.2.0'', ''ghcr.io/webcenter-fr/gohookbridge-client:1.2.0'', ''ghcr.io/webcenter-fr/gohookbridge-proxy:1.2.0'']"
proof -
  obtain r trace where p: "PublishImage demo_engine ''v1.2.0'' [] [] ''u'' True False False [] = (r, trace)" by force
  have "is_ok (fst (PublishImage demo_engine ''v1.2.0'' [] [] ''u'' True False False []))" by code_simp
  then have "is_ok r" using p by simp
  moreover have "concat (map (component_plan (ResolveVersion ''v1.2.0'') (or_default [] defaultRegistry) (or_default [] defaultRepository) False) allComponents) =
     [''ghcr.io/webcenter-fr/gohookbridge:1.2.0'', ''ghcr.io/webcenter-fr/gohookbridge-client:1.2.0'', ''ghcr.io/webcenter-fr/gohookbridge-proxy:1.2.0'']" by code_simp
  ultimately show ?thesis using published_images_exact [OF p] p by simp
qed

text \<open>The version is validated after another trimming, and used without it: a blank behind the leading \<open>v\<close> passes and is published.\<close>

theorem blank_version_published:
  "map pb_Ref (snd (PublishImage demo_engine ''v 1.2'' ''r'' ''x'' ''u'' True False False [])) = [''r/x: 1.2'', ''r/x-client: 1.2'', ''r/x-proxy: 1.2'']"
  by code_simp

lemma Contains_infix: "Contains (a @ p @ b) p"
proof (induction a)
  case Nil
  have "prefix p t \<Longrightarrow> Contains t p" for t by (cases t) simp_all
  then show ?case by simp
qed simp

lemma forbidden_cases:
  assumes "\<not> HasSuffix f ''/''"
  shows "forbidden_path p f \<longleftrightarrow> Contains p f"
proof -
  have "HasSuffix p (''/'' @ f) \<Longrightarrow> Contains p f" using Contains_infix [of _ f "[]"] by (auto simp: HasSuffix_def suffix_def) (metis append.assoc append_Cons append_Nil)
  moreover have "TrimSuffix f ''/'' = f" using assms by (simp add: TrimSuffix_def HasSuffix_def)
  moreover have "Contains f f" using Contains_infix [of "[]" f "[]"] by simp
  ultimately show ?thesis by (auto simp: forbidden_path_def)
qed

text \<open>The source filter keeps a path exactly if none of the forbidden names occurs in it and it is not a \<open>.git\<close> or \<open>node_modules\<close> directory below
  another one; the paths stay in their order.\<close>

theorem source_filter_exact:
  "FilterSourcePaths paths = filter (\<lambda>p. (\<forall>f \<in> set ForbiddenSourcePatterns. \<not> Contains p f) \<and> \<not> HasSuffix p ''/.git'' \<and> \<not> HasSuffix p ''/node_modules'') paths"
proof -
  have t: "TrimSuffix ''.git/'' ''/'' = ''.git''" "TrimSuffix ''node_modules/'' ''/'' = ''node_modules''" by code_simp+
  have d: "forbidden_path p ''.git/'' \<longleftrightarrow> Contains p ''.git/'' \<or> HasSuffix p ''/.git''"
    "forbidden_path p ''node_modules/'' \<longleftrightarrow> Contains p ''node_modules/'' \<or> HasSuffix p ''/node_modules''" for p
    using Contains_infix [of "[]" _ "[]"] unfolding forbidden_path_def t by auto
  have "\<not> HasSuffix ''.env'' ''/''" "\<not> HasSuffix ''SECURITY_AUDIT_REPORT.md'' ''/''" "\<not> HasSuffix ''AGENTS.local.md'' ''/''" "\<not> HasSuffix ''values-home.yaml'' ''/''"
    by code_simp+
  note s = this [THEN forbidden_cases]
  show ?thesis unfolding FilterSourcePaths_def by (rule filter_cong) (simp_all add: ForbiddenSourcePatterns_def d s conj_ac)
qed

lemma bare_directory_kept: "FilterSourcePaths [''node_modules'', ''.git''] = [''node_modules'', ''.git'']"
  by code_simp

section \<open>Properties of the validation cluster\<close>

text \<open>The repository and tag that the values give a component.\<close>

definition component_image :: "json \<Rightarrow> string \<Rightarrow> (string \<times> string) option" where
  "component_image doc name = (case doc of JObj fs \<Rightarrow> (case jlookup fs name of
       Some (JObj gs) \<Rightarrow> (case jlookup gs ''image'' of
           Some (JObj hs) \<Rightarrow> (case (jlookup hs ''repository'', jlookup hs ''tag'') of (Some (JStr r), Some (JStr t)) \<Rightarrow> Some (r, t) | _ \<Rightarrow> None)
         | _ \<Rightarrow> None)
       | _ \<Rightarrow> None) | _ \<Rightarrow> None)"

text \<open>The cluster pulls what was pushed: for every component the chart values name the repository and tag under which the image was
  published to the registry of the pipeline, seen from inside the cluster.\<close>

theorem cluster_pulls_pushed_images:
  "\<forall>cpt \<in> set allComponents. component_image (helm_values local_repositories version channelID) (cm_name cpt) = Some (localRegistryHost @ ''/'' @ localRepositoryName (cm_suffix cpt), version) \<and>
     localPushRefFor (cm_suffix cpt) version = pushRegistryHost @ ''/'' @ localRepositoryName (cm_suffix cpt) @ '':'' @ version"
  by (simp add: allComponents_def helm_values_def component_image_def image_values_def local_repositories_def localPushRefFor_def)

lemma unindented_indent: "unindented (indent_of line @ s) = unindented s"
  by (induction line) (simp_all add: unindented_def indent_of_def)

lemma new_server_lines:
  "is_server_line (indent_of line @ ''server: https://k3s:6443'')" "\<not> is_ca_line (indent_of line @ ''server: https://k3s:6443'')"
  "\<not> is_server_line (indent_of line @ ''insecure-skip-tls-verify: true'')" "\<not> is_ca_line (indent_of line @ ''insecure-skip-tls-verify: true'')"
proof -
  have "unindented ''server: https://k3s:6443'' = ''server: https://k3s:6443''" "unindented ''insecure-skip-tls-verify: true'' = ''insecure-skip-tls-verify: true''"
    "HasPrefix ''server: https://k3s:6443'' ''server:''" "\<not> HasPrefix ''server: https://k3s:6443'' ''certificate-authority''"
    "\<not> HasPrefix ''insecure-skip-tls-verify: true'' ''server:''" "\<not> HasPrefix ''insecure-skip-tls-verify: true'' ''certificate-authority''" by code_simp+
  then show "is_server_line (indent_of line @ ''server: https://k3s:6443'')" "\<not> is_ca_line (indent_of line @ ''server: https://k3s:6443'')"
    "\<not> is_server_line (indent_of line @ ''insecure-skip-tls-verify: true'')" "\<not> is_ca_line (indent_of line @ ''insecure-skip-tls-verify: true'')"
    by (simp_all only: is_server_line_def is_ca_line_def unindented_indent not_False_eq_True)
qed

text \<open>Lines that the rewriting leaves alone.\<close>

definition plain_line :: "string \<Rightarrow> bool" where
  "plain_line line \<longleftrightarrow> \<not> is_server_line line \<and> \<not> is_ca_line line \<and> unindented line \<noteq> ''insecure-skip-tls-verify: true''"

lemma rewrite_line_plain: "filter plain_line (rewrite_line line) = filter plain_line [line]"
  using new_server_lines [of line] unindented_indent [of line "''insecure-skip-tls-verify: true''"]
  by (simp add: rewrite_line_def plain_line_def del: append_Cons) (simp add: unindented_def)

lemma rewrite_lines_plain: "filter plain_line (concat (map rewrite_line ls)) = filter plain_line ls"
  by (induction ls) (simp_all add: rewrite_line_plain)

text \<open>The rewritten kubeconfig talks to the service of the cluster only: its lines have no authority left, every server line
  names the service, and all other lines are those of the original, in their order.\<close>

theorem kubeconfig_rewritten:
  assumes "rewriteKubeconfig kubeconfig = Inr out"
  shows "(\<forall>line \<in> set (Split CHR 0x0A out). \<not> is_ca_line line \<and> (is_server_line line \<longrightarrow> unindented line = ''server: https://k3s:6443'')) \<and>
     (\<exists>line \<in> set (Split CHR 0x0A out). is_server_line line) \<and> filter plain_line (Split CHR 0x0A out) = filter plain_line (Split CHR 0x0A kubeconfig)"
proof -
  let ?in = "Split CHR 0x0A kubeconfig" and ?ls = "concat (map rewrite_line (Split CHR 0x0A kubeconfig))"
  obtain l where l: "l \<in> set ?in" "is_server_line l" and o: "out = Join ?ls nl"
    using assms by (auto simp: rewriteKubeconfig_def Let_def list_ex_iff split: if_splits)
  have n: "CHR 0x0A \<notin> set x" if m: "x \<in> set ?ls" for x
  proof -
    obtain y where y: "y \<in> set ?in" "x \<in> set (rewrite_line y)" using m by auto
    have "CHR 0x0A \<notin> set (indent_of y)" by (auto simp: indent_of_def dest: set_takeWhileD)
    moreover have "CHR 0x0A \<notin> set ''server: https://k3s:6443''" "CHR 0x0A \<notin> set ''insecure-skip-tls-verify: true''" by code_simp+
    ultimately show ?thesis using y Split_part [OF y(1)] by (simp add: rewrite_line_def split: if_splits del: set_simps) auto
  qed
  have s: "indent_of l @ ''server: https://k3s:6443'' \<in> set ?ls" using l by (force simp: rewrite_line_def)
  then have "?ls \<noteq> []" by (metis empty_iff list.set(1))
  then have e: "Split CHR 0x0A out = ?ls" using n unfolding o nl_def by (intro Split_Join) blast+
  have u: "unindented ''server: https://k3s:6443'' = ''server: https://k3s:6443''" by code_simp
  then have "\<not> is_ca_line x \<and> (is_server_line x \<longrightarrow> unindented x = ''server: https://k3s:6443'')" if "x \<in> set (rewrite_line y)" for x y
    using that new_server_lines [of y] unindented_indent [of y "''server: https://k3s:6443''"] u by (simp add: rewrite_line_def split: if_splits) metis
  then have "\<forall>x \<in> set ?ls. \<not> is_ca_line x \<and> (is_server_line x \<longrightarrow> unindented x = ''server: https://k3s:6443'')" by auto
  then show ?thesis using s new_server_lines(1) unfolding e rewrite_lines_plain by blast
qed

end
