(* ===== verification/PipelineCi.thy ===== *)
theory PipelineCi
  imports Pipeline Http
begin

text \<open>
  The task \<open>Ci\<close> of the build pipeline (\<open>main.go\<close>, \<open>k3s.go\<close>, \<open>deploy.go\<close> and \<open>validate.go\<close> of \<open>dagger/gohookbridge\<close>): build and publish the images, then
  deploy them to a throwaway cluster and check them. Each container the engine runs is a constructor with what varies between two
  runs; its fixed script and image are not repeated. The lemmas show what a passed run means and that the report shows no
  credential.
\<close>

section \<open>The engine\<close>

datatype service = RegistryService | K3sService string | PortForward string string

datatype tool =
    K3sReady string string
  | HelmInstall string string string
  | KubectlWait string string string
  | Kubectl string "string list" string
  | SmokeScript string string string

record exec_out =
  xo_ExitCode :: "int result"
  xo_Stdout :: "string result"
  xo_Stderr :: "string result"

record 'img ci_engine = "'img engine" +
  ce_start :: "service \<Rightarrow> error option"
  ce_k3s_config :: "string result"
  ce_exec :: "tool \<Rightarrow> exec_out"
  ce_run :: "'img \<Rightarrow> string list \<Rightarrow> string result"
  ce_yaml :: "json \<Rightarrow> string result"
  ce_duration :: "string \<Rightarrow> error option"

text \<open>The state of a run: what was published, whether the registry is up, and the kubeconfig of the cluster once it is.\<close>

record ci_state =
  cs_trace :: "publication list"
  cs_registry :: bool
  cs_k3s :: "string option"

section \<open>The cluster\<close>

definition startRegistry :: "('img, 'z) ci_engine_scheme \<Rightarrow> ci_state \<Rightarrow> error option \<times> ci_state" where
  "startRegistry E s = (if cs_registry s then (None, s)
     else (case ce_start E RegistryService of Some e \<Rightarrow> (Some e, s) | None \<Rightarrow> (None, s\<lparr>cs_registry := True\<rparr>)))"

definition startK3s :: "('img, 'z) ci_engine_scheme \<Rightarrow> string \<Rightarrow> ci_state \<Rightarrow> string result \<times> ci_state" where
  "startK3s E nonce s = (case cs_k3s s of
       Some kubeconfig \<Rightarrow> (Inr kubeconfig, s)
     | None \<Rightarrow>
     (case startRegistry E s of
       (Some e, s1) \<Rightarrow> (Inl e, s1)
     | (None, s1) \<Rightarrow>
     (case bindE (ce_k3s_config E) rewriteKubeconfig of
       Inl e \<Rightarrow> (Inl e, s1)
     | Inr kubeconfig \<Rightarrow>
     (case ce_start E (K3sService kubeconfig) of
       Some e \<Rightarrow> (Inl e, s1)
     | None \<Rightarrow>
     (case xo_ExitCode (ce_exec E (K3sReady kubeconfig nonce)) of
       Inl e \<Rightarrow> (Inl e, s1)
     | Inr code \<Rightarrow> (if code \<noteq> 0 then (Inl (ErrMsg ''k3s API server not ready within 120s''), s1)
                   else (Inr kubeconfig, s1\<lparr>cs_k3s := Some kubeconfig\<rparr>)))))))"

definition deployHelm :: "('img, 'z) ci_engine_scheme \<Rightarrow> string \<Rightarrow> string \<Rightarrow> string \<Rightarrow> ci_state \<Rightarrow> error option \<times> ci_state" where
  "deployHelm E kubeconfig vals nonce s = (case startK3s E nonce s of
       (Inl e, s1) \<Rightarrow> (Some e, s1)
     | (Inr _, s1) \<Rightarrow> (case xo_ExitCode (ce_exec E (HelmInstall kubeconfig vals nonce)) of
         Inl e \<Rightarrow> (Some e, s1)
       | Inr code \<Rightarrow> ((if code \<noteq> 0 then Some (ErrMsg ''helm install failed'') else None), s1)))"

section \<open>Validation\<close>

definition combined :: "exec_out \<Rightarrow> string" where
  "combined x = (case xo_Stdout x of Inl e \<Rightarrow> ''stdout unavailable: '' @ error_text e @ nl | Inr out \<Rightarrow> out) @
     (case xo_Stderr x of Inl e \<Rightarrow> ''stderr unavailable: '' @ error_text e @ nl | Inr err \<Rightarrow> err)"

definition errSuffix :: "'a result \<Rightarrow> string" where
  "errSuffix r = (case r of Inl e \<Rightarrow> '' (capture failed: '' @ error_text e @ '')'' | Inr _ \<Rightarrow> [])"

definition fenced :: "string \<Rightarrow> string" where
  "fenced t = tick @ tick @ tick @ ''text'' @ nl @ t @ nl @ tick @ tick @ tick"

definition deployNamespace :: string where
  "deployNamespace = ''gohookbridge''"

definition logs_args :: "string list" where
  "logs_args = [''kubectl'', ''logs'', ''-l'', ''app.kubernetes.io/name=gohookbridge'', ''--all-containers'', ''--namespace'', deployNamespace, ''--tail=200'', ''--prefix=true'']"

definition diagnostic_commands :: "string list list" where
  "diagnostic_commands =
     [[''kubectl'', ''get'', ''events'', ''--namespace'', deployNamespace, ''--sort-by=.lastTimestamp''],
      [''kubectl'', ''get'', ''pods'', ''-o'', ''wide'', ''--namespace'', deployNamespace],
      [''kubectl'', ''describe'', ''pods'', ''-l'', ''app.kubernetes.io/name=gohookbridge'', ''--namespace'', deployNamespace],
      logs_args]"

definition collectDiagnostics :: "('img, 'z) ci_engine_scheme \<Rightarrow> string \<Rightarrow> string \<Rightarrow> ci_state \<Rightarrow> string \<times> ci_state" where
  "collectDiagnostics E kubeconfig nonce s = (case startK3s E nonce s of
       (Inl e, s1) \<Rightarrow> (''collect diagnostics: '' @ error_text e, s1)
     | (Inr _, s1) \<Rightarrow> (concat (map (\<lambda>args. nl @ ''### $'' @ Join args '' '' @ nl @ nl @ fenced (combined (ce_exec E (Kubectl kubeconfig args nonce))) @ nl) diagnostic_commands), s1))"

text \<open>The wait for the pods of the components, in order: the report and error of the first that fails, if any.\<close>

fun wait_pods :: "('img, 'z) ci_engine_scheme \<Rightarrow> string \<Rightarrow> string \<Rightarrow> string list \<Rightarrow> ci_state \<Rightarrow> (string \<times> error) option \<times> ci_state" where
  "wait_pods E kubeconfig nonce [] s = (None, s)"
| "wait_pods E kubeconfig nonce (name # names) s =
     (let x = ce_exec E (KubectlWait kubeconfig name nonce) in
      case xo_ExitCode x of
        Inl e \<Rightarrow> (Some (''kubectl wait failed to run: '' @ error_text e, e), s)
      | Inr code \<Rightarrow>
         (if code = 0 then wait_pods E kubeconfig nonce names s
          else (case collectDiagnostics E kubeconfig nonce s of
             (d, s1) \<Rightarrow> (Some (name @ '' pods never became Ready'' @ nl @ nl @ fenced (combined x) @ nl @ nl @ d, ErrMsg (name @ '' pods not ready within 180s'')), s1))))"

definition pod_components :: "string list" where
  "pod_components = [''server'', ''client'', ''proxy'']"

definition validateDeployment :: "('img, 'z) ci_engine_scheme \<Rightarrow> string \<Rightarrow> string \<Rightarrow> string \<Rightarrow> string \<Rightarrow> ci_state \<Rightarrow> string \<times> error option \<times> ci_state" where
  "validateDeployment E kubeconfig channelID version nonce s = (case startK3s E nonce s of
       (Inl e, s1) \<Rightarrow> (''collect cluster state: '' @ error_text e, Some e, s1)
     | (Inr _, s1) \<Rightarrow>
     (case wait_pods E kubeconfig nonce pod_components s1 of
       (Some (details, e), s2) \<Rightarrow> (details, Some e, s2)
     | (None, s2) \<Rightarrow>
     (case ce_start E (PortForward kubeconfig nonce) of
       Some e \<Rightarrow> (case collectDiagnostics E kubeconfig nonce s2 of
           (d, s3) \<Rightarrow> (''port-forward service failed to start: '' @ error_text e @ nl @ nl @ d, Some e, s3))
     | None \<Rightarrow>
       (let x = ce_exec E (SmokeScript channelID version nonce);
            checkOutput = TrimSpace (ok_or [] (xo_Stdout x) @ ok_or [] (xo_Stderr x) @ errSuffix (xo_Stdout x) @ errSuffix (xo_Stderr x)) in
        case xo_ExitCode x of
          Inl e \<Rightarrow> (case collectDiagnostics E kubeconfig nonce s2 of (d, s3) \<Rightarrow> (''smoke script failed to run: '' @ error_text e @ nl @ nl @ d, Some e, s3))
        | Inr code \<Rightarrow>
           (if code \<noteq> 0 then (case collectDiagnostics E kubeconfig nonce s2 of
               (d, s3) \<Rightarrow> (''smoke checks failed:'' @ nl @ nl @ fenced checkOutput @ nl @ nl @ d, Some (ErrMsg (''smoke validation failed'' @ checkOutput)), s3))
            else (fenced checkOutput @ nl @ nl @ ''validation passed'', None, s2))))))"

text \<open>The client and proxy images start and report the version.\<close>

fun validateComponentBinaries :: "('img, 'z) ci_engine_scheme \<Rightarrow> 'img imagePushResult list \<Rightarrow> string \<Rightarrow> string result" where
  "validateComponentBinaries E [] resolved = Inr []"
| "validateComponentBinaries E (res # results) resolved =
     (if ip_component res = ''server'' then validateComponentBinaries E results resolved
      else bindE (ce_run E (the (ip_built res)) [''--version'']) (\<lambda>versionOut.
        if \<not> Contains versionOut resolved then Inl (ErrMsg (ip_component res @ '' --version did not report the version''))
        else bindE (ce_run E (the (ip_built res)) [''--help'']) (\<lambda>_.
        bindE (validateComponentBinaries E results resolved) (\<lambda>rest.
        Inr (''- '' @ ip_component res @ '': '' @ tick @ ''--version'' @ tick @ '' reports '' @ resolved @ '', '' @ tick @ ''--help'' @ tick @ '' OK'' @ nl @ rest)))))"

section \<open>The task\<close>

record ci_args =
  ca_version :: string
  ca_registry :: string
  ca_repository :: string
  ca_user :: string
  ca_password :: bool
  ca_pushLatest :: bool
  ca_skipPush :: bool
  ca_skipK8s :: bool
  ca_dryRun :: bool
  ca_channelID :: string
  ca_timeout :: string

definition defaultChannelID :: string where
  "defaultChannelID = ''dagger-smoke''"

definition defaultTimeout :: string where
  "defaultTimeout = ''15m''"

definition quoted :: "string \<Rightarrow> string" where
  "quoted s = CHR 0x22 # s @ [CHR 0x22]"

text \<open>Versions are quoted with \<open>%q\<close>, here for printable text without quotes.\<close>

definition ci_warnings :: "ci_args \<Rightarrow> string list" where
  "ci_warnings a =
     (let trimmed = TrimVersionTag (ca_version a) in
      (if trimmed \<noteq> ca_version a then [''normalized version '' @ quoted (ca_version a) @ '' to '' @ quoted trimmed] else []) @
      (if trimmed = [] then [''empty version: falling back to '' @ quoted ''dev''] else []) @
      (if ca_skipPush a then [''GHCR push skipped (--skip-push)'']
       else if \<not> ca_pushLatest a then [quoted '':latest'' @ '' tag skipped (pass --push-latest to publish it)''] else []) @
      (if ca_skipK8s a then [''ephemeral Kubernetes validation skipped (--skip-k8s)''] else []))"

definition presence :: "bool \<Rightarrow> string" where
  "presence b = (if b then ''<set>'' else ''<not set>'')"

definition fmt_bool :: "bool \<Rightarrow> string" where
  "fmt_bool b = (if b then ''true'' else ''false'')"

definition ci_inputs :: "ci_args \<Rightarrow> report_section list" where
  "ci_inputs a =
     (let resolved = ResolveVersion (ca_version a);
          imageRef = or_default (ca_registry a) defaultRegistry @ ''/'' @ or_default (ca_repository a) defaultRepository @ '':'' @ resolved
      in [\<lparr>se_Title = ''Inputs'', se_Body =
            ''- Version: '' @ resolved @ nl @ ''- Image: '' @ imageRef @ nl @ ''- Channel: '' @ or_default (ca_channelID a) defaultChannelID @ nl @
            ''- Timeout: '' @ or_default (ca_timeout a) defaultTimeout @ nl @ ''- Registry username: '' @ presence (ca_user a \<noteq> []) @ nl @
            ''- Registry password: '' @ presence (ca_password a) @ nl @ ''- Push to registry: '' @ fmt_bool (\<not> ca_skipPush a) @ nl @
            ''- Push :latest: '' @ fmt_bool (ca_pushLatest a) @ nl @ ''- Kubernetes validation: '' @ fmt_bool (\<not> ca_skipK8s a)\<rparr>] @
         (if ci_warnings a \<noteq> [] then [\<lparr>se_Title = ''Warnings'', se_Body = Join (map (\<lambda>w. ''- '' @ w) (ci_warnings a)) nl\<rparr>] else []))"

definition ci_build_sections :: "'img imagePushResult \<Rightarrow> report_section list" where
  "ci_build_sections res =
     (let findings = TrimSpace (ip_lintAdvisory res);
          lintSection = ''- hadolint (failure threshold '' @ tick @ ''error'' @ tick @ ''): passed'' @
            (if findings \<noteq> [] then '' with advisory findings:'' @ nl @ nl @ fenced findings else [])
      in [\<lparr>se_Title = ''Build: '' @ ip_component res, se_Body = lintSection @ nl @ ''- Built image: '' @ ip_versionRef res\<rparr>] @
         (if ip_skipped res then [] else
          [\<lparr>se_Title = ''Push: '' @ ip_component res, se_Body = ''- Pushed '' @ tick @ ip_versionRef res @ tick @ '': digest '' @ ip_digest res @
             (if ip_latestDigest res \<noteq> [] then nl @ ''- Pushed '' @ tick @ ip_latestRef res @ tick @ '': digest '' @ ip_latestDigest res else [])\<rparr>]))"

text \<open>Publishing the first variant of every component to the registry of the pipeline.\<close>

fun publish_local :: "('img, 'z) ci_engine_scheme \<Rightarrow> string \<Rightarrow> 'img imagePushResult list \<Rightarrow> ci_state \<Rightarrow> error option \<times> ci_state" where
  "publish_local E resolved [] s = (None, s)"
| "publish_local E resolved (res # results) s =
     (let p = \<lparr>pb_Ref = localPushRefFor (ip_suffix res) resolved, pb_User = [], pb_Platforms = [''linux/amd64'']\<rparr> in
      case eg_publish E (cs_trace s) p of
        Inl e \<Rightarrow> (Some e, s)
      | Inr _ \<Rightarrow> publish_local E resolved results (s\<lparr>cs_trace := cs_trace s @ [p]\<rparr>))"

text \<open>The validation on the cluster: what it adds to the report and its error. An error before the deployment gives no report.\<close>

definition ci_validate ::
  "('img, 'z) ci_engine_scheme \<Rightarrow> string \<Rightarrow> string \<Rightarrow> string \<Rightarrow> 'img imagePushResult list \<Rightarrow> ci_state \<Rightarrow> report_section list option \<times> error option \<times> ci_state" where
  "ci_validate E nonce resolved channelID results s = (case startRegistry E s of
       (Some e, s1) \<Rightarrow> (None, Some e, s1)
     | (None, s1) \<Rightarrow>
     (case publish_local E resolved results s1 of
       (Some e, s2) \<Rightarrow> (None, Some e, s2)
     | (None, s2) \<Rightarrow>
     (case startK3s E nonce s2 of
       (Inl e, s3) \<Rightarrow> (None, Some e, s3)
     | (Inr kubeconfig, s3) \<Rightarrow>
     (case writeHelmValues (ce_yaml E) resolved channelID of
       Inl e \<Rightarrow> (None, Some e, s3)
     | Inr vals \<Rightarrow>
     (case deployHelm E kubeconfig vals nonce s3 of
       (Some e, s4) \<Rightarrow> (case collectDiagnostics E kubeconfig nonce s4 of
           (d, s5) \<Rightarrow> (Some [\<lparr>se_Title = ''Ephemeral Kubernetes validation'', se_Body = ''helm install failed: '' @ error_text e @ nl @ nl @ d\<rparr>], Some e, s5))
     | (None, s4) \<Rightarrow>
     (case validateComponentBinaries E results resolved of
       Inl e \<Rightarrow> (Some [], Some e, s4)
     | Inr bootReport \<Rightarrow>
       (case validateDeployment E kubeconfig channelID resolved nonce s4 of
          (k8sReport, err, s5) \<Rightarrow>
            (Some [\<lparr>se_Title = ''Binary boot checks'', se_Body = bootReport\<rparr>, \<lparr>se_Title = ''Ephemeral Kubernetes validation'', se_Body = k8sReport\<rparr>], err, s5))))))))"

definition passed_section :: report_section where
  "passed_section = \<lparr>se_Title = ''Result'', se_Body = ''- Result: **PASSED**''\<rparr>"

text \<open>The run after the images are built.\<close>

definition ci_finish :: "('img, 'z) ci_engine_scheme \<Rightarrow> string \<Rightarrow> ci_args \<Rightarrow> 'img imagePushResult list \<Rightarrow> ci_state \<Rightarrow> string \<times> error option \<times> ci_state" where
  "ci_finish E nonce a results s =
     (let sections = ci_inputs a @ concat (map ci_build_sections results) in
      if ca_skipK8s a then (BuildReport (sections @ [passed_section]), None, s)
      else (case ci_validate E nonce (ResolveVersion (ca_version a)) (or_default (ca_channelID a) defaultChannelID) results s of
          (None, err, s') \<Rightarrow> ([], err, s')
        | (Some ss, Some e, s') \<Rightarrow> (BuildReport (sections @ ss), Some e, s')
        | (Some ss, None, s') \<Rightarrow> (BuildReport (sections @ ss @ [passed_section]), None, s')))"

definition Ci :: "('img, 'z) ci_engine_scheme \<Rightarrow> string option \<Rightarrow> ci_args \<Rightarrow> ci_state \<Rightarrow> string \<times> error option \<times> ci_state" where
  "Ci E rnd a s = (case NewRunNonce rnd of
       Inl e \<Rightarrow> ([], Some e, s)
     | Inr nonce \<Rightarrow>
     (let resolved = ResolveVersion (ca_version a); registry = or_default (ca_registry a) defaultRegistry;
          repositoryName = or_default (ca_repository a) defaultRepository in
      case ce_duration E (or_default (ca_timeout a) defaultTimeout) of
       Some e \<Rightarrow> ([], Some e, s)
     | None \<Rightarrow>
      (if ca_dryRun a then
         (BuildReport (ci_inputs a @ [\<lparr>se_Title = ''Dry run'', se_Body = ''Dry run: no image was built, pushed, or deployed.''\<rparr>]), None, s)
       else if \<not> ca_skipPush a \<and> (ca_user a = [] \<or> \<not> ca_password a) then
         ([], Some (ErrMsg ''push requested but registry credentials are missing''), s)
       else (case buildAndPushAll (engine.truncate E) allComponents resolved registry repositoryName (ca_user a) (ca_pushLatest a) (ca_skipPush a) (cs_trace s) of
           (Inl e, trace) \<Rightarrow> ([], Some e, s\<lparr>cs_trace := trace\<rparr>)
         | (Inr results, trace) \<Rightarrow> ci_finish E nonce a results (s\<lparr>cs_trace := trace\<rparr>)))))"

section \<open>Lemmas\<close>

lemma wait_pods_ok: "wait_pods E kubeconfig nonce names s = (None, s') \<Longrightarrow> \<forall>name \<in> set names. xo_ExitCode (ce_exec E (KubectlWait kubeconfig name nonce)) = Inr 0"
  by (induction names arbitrary: s) (auto simp: Let_def split: sum.splits if_splits prod.splits)

lemma validateDeployment_ok:
  assumes "validateDeployment E kubeconfig channelID version nonce s = (report, None, s')"
  shows "(\<forall>name \<in> set pod_components. xo_ExitCode (ce_exec E (KubectlWait kubeconfig name nonce)) = Inr 0) \<and>
     ce_start E (PortForward kubeconfig nonce) = None \<and> xo_ExitCode (ce_exec E (SmokeScript channelID version nonce)) = Inr 0"
  using assms wait_pods_ok [of E kubeconfig nonce pod_components]
  by (force simp: validateDeployment_def Let_def split: sum.splits prod.splits option.splits if_splits)

lemma validateBinaries_ok:
  "validateComponentBinaries E results resolved = Inr report \<Longrightarrow>
     \<forall>res \<in> set results. ip_component res \<noteq> ''server'' \<longrightarrow> (\<exists>out. ce_run E (the (ip_built res)) [''--version''] = Inr out \<and> Contains out resolved)"
  by (induction results arbitrary: report) (auto simp: bindE_Inr_iff split: if_splits)

text \<open>What a passed validation has seen.\<close>

definition cluster_checked :: "('img, 'z) ci_engine_scheme \<Rightarrow> string \<Rightarrow> string \<Rightarrow> string \<Rightarrow> 'img imagePushResult list \<Rightarrow> bool" where
  "cluster_checked E nonce resolved channelID results \<longleftrightarrow>
     (\<exists>kubeconfig vals. writeHelmValues (ce_yaml E) resolved channelID = Inr vals \<and> xo_ExitCode (ce_exec E (HelmInstall kubeconfig vals nonce)) = Inr 0 \<and>
        (\<forall>name \<in> set pod_components. xo_ExitCode (ce_exec E (KubectlWait kubeconfig name nonce)) = Inr 0) \<and>
        xo_ExitCode (ce_exec E (SmokeScript channelID resolved nonce)) = Inr 0) \<and>
     (\<forall>res \<in> set results. ip_component res \<noteq> ''server'' \<longrightarrow> (\<exists>out. ce_run E (the (ip_built res)) [''--version''] = Inr out \<and> Contains out resolved))"

lemma deployHelm_ok: "deployHelm E kubeconfig vals nonce s = (None, s') \<Longrightarrow> xo_ExitCode (ce_exec E (HelmInstall kubeconfig vals nonce)) = Inr 0"
  by (auto simp: deployHelm_def split: prod.splits sum.splits if_splits)

lemma ci_validate_ok:
  assumes "ci_validate E nonce resolved channelID results s = (ss, None, s')"
  shows "ss \<noteq> None \<and> cluster_checked E nonce resolved channelID results"
proof -
  obtain kubeconfig vals boot report s3 s4 where v: "writeHelmValues (ce_yaml E) resolved channelID = Inr vals"
    "deployHelm E kubeconfig vals nonce s3 = (None, s4)" "validateComponentBinaries E results resolved = Inr boot"
    "validateDeployment E kubeconfig channelID resolved nonce s4 = (report, None, s')" "ss \<noteq> None"
    using assms by (auto simp: ci_validate_def split: prod.splits option.splits sum.splits)
  then show ?thesis
    using deployHelm_ok [OF v(2)] validateBinaries_ok [OF v(3)] validateDeployment_ok [OF v(4)] by (auto simp: cluster_checked_def)
qed

section \<open>Properties\<close>

text \<open>A run of the task without an error was a dry run, which changed nothing, or it has linted, built and, unless switched off, published all
  components; and unless the cluster was switched off, the chart with the values for this version was installed, the pods of all
  components became ready, the smoke test passed, and the client and proxy images reported the version.\<close>

theorem ci_passed_means_validated:
  assumes "Ci E rnd a s = (report, None, s')"
  shows "ca_dryRun a \<and> s' = s \<or> (\<exists>nonce results trace. NewRunNonce rnd = Inr nonce \<and>
     buildAndPushAll (engine.truncate E) allComponents (ResolveVersion (ca_version a)) (or_default (ca_registry a) defaultRegistry)
       (or_default (ca_repository a) defaultRepository) (ca_user a) (ca_pushLatest a) (ca_skipPush a) (cs_trace s) = (Inr results, trace) \<and>
     (ca_skipK8s a \<or> cluster_checked E nonce (ResolveVersion (ca_version a)) (or_default (ca_channelID a) defaultChannelID) results))"
proof (cases "ca_dryRun a")
  case True
  then show ?thesis using assms by (auto simp: Ci_def Let_def split: sum.splits option.splits)
next
  case False
  obtain nonce where n: "NewRunNonce rnd = Inr nonce" using assms by (auto simp: Ci_def split: sum.splits)
  obtain results trace where b: "buildAndPushAll (engine.truncate E) allComponents (ResolveVersion (ca_version a)) (or_default (ca_registry a) defaultRegistry)
       (or_default (ca_repository a) defaultRepository) (ca_user a) (ca_pushLatest a) (ca_skipPush a) (cs_trace s) = (Inr results, trace)"
    using assms False n by (auto simp: Ci_def Let_def split: option.splits if_splits sum.splits prod.splits)
  have "ci_finish E nonce a results (s\<lparr>cs_trace := trace\<rparr>) = (report, None, s')"
    using assms False n b by (simp add: Ci_def Let_def split: option.splits if_splits)
  then have "\<exists>ss s2. ci_validate E nonce (ResolveVersion (ca_version a)) (or_default (ca_channelID a) defaultChannelID) results (s\<lparr>cs_trace := trace\<rparr>) = (ss, None, s2)"
    if "\<not> ca_skipK8s a" using that by (auto simp: ci_finish_def Let_def split: option.splits prod.splits)
  then show ?thesis using n b ci_validate_ok by blast
qed

section \<open>Credentials\<close>

text \<open>Publications up to the account, and an engine whose answers do not repeat the account.\<close>

definition erase :: "publication \<Rightarrow> publication" where
  "erase p = p\<lparr>pb_User := []\<rparr>"

definition account_blind :: "('img, 'z) engine_scheme \<Rightarrow> bool" where
  "account_blind E \<longleftrightarrow> (\<forall>t t' p p'. map erase t = map erase t' \<and> erase p = erase p' \<longrightarrow> eg_publish E t p = eg_publish E t' p')"

definition same_outcome :: "'a \<times> publication list \<Rightarrow> 'a \<times> publication list \<Rightarrow> bool" where
  "same_outcome x y \<longleftrightarrow> fst x = fst y \<and> map erase (snd x) = map erase (snd y)"

lemma erase_user: "erase \<lparr>pb_Ref = ref, pb_User = u, pb_Platforms = ps\<rparr> = erase \<lparr>pb_Ref = ref, pb_User = u', pb_Platforms = ps\<rparr>"
  by (simp add: erase_def)

lemma publish_blind:
  assumes "account_blind E" "map erase t = map erase t'"
  shows "same_outcome (publish E u cpt ref t) (publish E u' cpt ref t')"
proof -
  have "eg_publish E t \<lparr>pb_Ref = ref, pb_User = u, pb_Platforms = cm_platforms cpt\<rparr> = eg_publish E t' \<lparr>pb_Ref = ref, pb_User = u', pb_Platforms = cm_platforms cpt\<rparr>"
    using assms erase_user unfolding account_blind_def by blast
  then show ?thesis using assms(2) erase_user [of ref u "cm_platforms cpt" u'] by (simp add: publish_def Let_def same_outcome_def split: sum.splits)
qed

lemma image_blind:
  assumes "account_blind E" "map erase t = map erase t'"
  shows "same_outcome (buildAndPushImage E cpt resolved reg rep u latest skip t) (buildAndPushImage E cpt resolved reg rep u' latest skip t')"
proof -
  obtain r1 t1 r1' t1' where p: "publish E u cpt (image_ref reg rep cpt resolved) t = (r1, t1)" "publish E u' cpt (image_ref reg rep cpt resolved) t' = (r1', t1')" by force
  obtain r2 t2 r2' t2' where q: "publish E u cpt (image_ref reg rep cpt ''latest'') t1 = (r2, t2)" "publish E u' cpt (image_ref reg rep cpt ''latest'') t1' = (r2', t2')" by force
  have e: "r1 = r1'" "map erase t1 = map erase t1'" using publish_blind [OF assms, of u cpt "image_ref reg rep cpt resolved" u'] p by (simp_all add: same_outcome_def)
  have f: "r2 = r2'" "map erase t2 = map erase t2'" using publish_blind [OF assms(1) e(2), of u cpt "image_ref reg rep cpt ''latest''" u'] q by (simp_all add: same_outcome_def)
  show ?thesis using assms(2) p q e f by (auto simp: buildAndPushImage_def Let_def same_outcome_def split: sum.splits)
qed

lemma all_blind:
  assumes "account_blind E" "map erase t = map erase t'"
  shows "same_outcome (buildAndPushAll E cpts resolved reg rep u latest skip t) (buildAndPushAll E cpts resolved reg rep u' latest skip t')"
  using assms(2)
proof (induction cpts arbitrary: t t')
  case (Cons cpt cpts)
  obtain r t1 r' t1' where b: "buildAndPushImage E cpt resolved reg rep u latest skip t = (r, t1)" "buildAndPushImage E cpt resolved reg rep u' latest skip t' = (r', t1')" by force
  have e: "r = r'" "map erase t1 = map erase t1'" using image_blind [OF assms(1) Cons.prems] b unfolding same_outcome_def by (metis fst_conv snd_conv)+
  show ?case using Cons.IH [OF e(2)] b e by (auto simp: same_outcome_def split: sum.splits prod.splits)
qed (simp add: same_outcome_def)

text \<open>States up to the accounts of the publications. The cluster operations keep them so.\<close>

definition erased :: "ci_state \<Rightarrow> ci_state" where
  "erased s = s\<lparr>cs_trace := map erase (cs_trace s)\<rparr>"

lemma startRegistry_erased: "startRegistry E (erased s) = apsnd erased (startRegistry E s)"
  by (simp add: startRegistry_def erased_def split: option.split)

lemma startK3s_erased: "startK3s E nonce (erased s) = apsnd erased (startK3s E nonce s)"
proof (cases "startRegistry E s")
  case (Pair e s1)
  then have "startRegistry E (erased s) = (e, erased s1)" by (simp add: startRegistry_erased)
  moreover have "cs_k3s (erased s) = cs_k3s s" by (simp add: erased_def)
  ultimately show ?thesis using Pair by (simp add: startK3s_def erased_def split: option.split sum.split)
qed

lemma deployHelm_erased: "deployHelm E kubeconfig vals nonce (erased s) = apsnd erased (deployHelm E kubeconfig vals nonce s)"
  by (simp add: deployHelm_def startK3s_erased apsnd_def map_prod_def case_prod_beta split: sum.split)

lemma collectDiagnostics_erased: "collectDiagnostics E kubeconfig nonce (erased s) = apsnd erased (collectDiagnostics E kubeconfig nonce s)"
  by (simp add: collectDiagnostics_def startK3s_erased apsnd_def map_prod_def case_prod_beta split: sum.split)

lemma wait_pods_erased: "wait_pods E kubeconfig nonce names (erased s) = apsnd erased (wait_pods E kubeconfig nonce names s)"
  by (induction names) (simp_all add: collectDiagnostics_erased Let_def apsnd_def map_prod_def case_prod_beta split: sum.split)

lemma validateDeployment_erased:
  "validateDeployment E kubeconfig channelID version nonce (erased s) = apsnd (apsnd erased) (validateDeployment E kubeconfig channelID version nonce s)"
  by (simp add: validateDeployment_def startK3s_erased wait_pods_erased collectDiagnostics_erased Let_def apsnd_def map_prod_def case_prod_beta
      split: sum.split option.split)

lemma publish_local_erased:
  assumes "account_blind E"
  shows "publish_local E resolved results (erased s) = apsnd erased (publish_local E resolved results s)"
proof (induction results arbitrary: s)
  case (Cons res results)
  let ?p = "\<lparr>pb_Ref = localPushRefFor (ip_suffix res) resolved, pb_User = [], pb_Platforms = [''linux/amd64'']\<rparr>"
  have "map erase (cs_trace (erased s)) = map erase (cs_trace s)" by (simp add: erased_def erase_def)
  then have "eg_publish E (cs_trace (erased s)) ?p = eg_publish E (cs_trace s) ?p" using assms unfolding account_blind_def by blast
  moreover have "(erased s)\<lparr>cs_trace := cs_trace (erased s) @ [?p]\<rparr> = erased (s\<lparr>cs_trace := cs_trace s @ [?p]\<rparr>)" by (simp add: erased_def erase_def)
  ultimately show ?case using Cons.IH by (simp add: Let_def del: fun_upd_apply split: sum.split)
qed simp

lemma ci_validate_erased:
  assumes "account_blind E"
  shows "ci_validate E nonce resolved channelID results (erased s) = apsnd (apsnd erased) (ci_validate E nonce resolved channelID results s)"
  by (simp add: ci_validate_def startRegistry_erased publish_local_erased [OF assms] startK3s_erased deployHelm_erased collectDiagnostics_erased validateDeployment_erased
      apsnd_def map_prod_def case_prod_beta split: sum.split option.split)

lemma ci_validate_blind:
  assumes "account_blind E" "erased s = erased s'"
  shows "fst (ci_validate E nonce resolved channelID results s) = fst (ci_validate E nonce resolved channelID results s')"
    "fst (snd (ci_validate E nonce resolved channelID results s)) = fst (snd (ci_validate E nonce resolved channelID results s'))"
  using ci_validate_erased [OF assms(1), of nonce resolved channelID results s] ci_validate_erased [OF assms(1), of nonce resolved channelID results s'] assms(2)
  by (cases "ci_validate E nonce resolved channelID results s"; cases "ci_validate E nonce resolved channelID results s'"; simp)+

lemma ca_user_fields:
  "ca_version (a\<lparr>ca_user := u\<rparr>) = ca_version a" "ca_registry (a\<lparr>ca_user := u\<rparr>) = ca_registry a" "ca_repository (a\<lparr>ca_user := u\<rparr>) = ca_repository a"
  "ca_password (a\<lparr>ca_user := u\<rparr>) = ca_password a" "ca_pushLatest (a\<lparr>ca_user := u\<rparr>) = ca_pushLatest a" "ca_skipPush (a\<lparr>ca_user := u\<rparr>) = ca_skipPush a"
  "ca_skipK8s (a\<lparr>ca_user := u\<rparr>) = ca_skipK8s a" "ca_channelID (a\<lparr>ca_user := u\<rparr>) = ca_channelID a" "ca_timeout (a\<lparr>ca_user := u\<rparr>) = ca_timeout a"
  "ca_user (a\<lparr>ca_user := u\<rparr>) = u"
  by simp_all

lemma ci_inputs_user:
  assumes "ca_user a \<noteq> []" "u \<noteq> []"
  shows "ci_inputs (a\<lparr>ca_user := u\<rparr>) = ci_inputs a"
proof -
  have t: "(ca_user a \<noteq> []) = True" "(u \<noteq> []) = True" using assms by simp_all
  show ?thesis unfolding ci_inputs_def ci_warnings_def ca_user_fields t by (rule refl)
qed

lemma ci_finish_blind:
  assumes "account_blind E" "erased s = erased s'" "ca_user a \<noteq> []" "u \<noteq> []"
  shows "fst (ci_finish E nonce (a\<lparr>ca_user := u\<rparr>) results s) = fst (ci_finish E nonce a results s')"
    "fst (snd (ci_finish E nonce (a\<lparr>ca_user := u\<rparr>) results s)) = fst (snd (ci_finish E nonce a results s'))"
proof -
  obtain ss err t ss' err' t' where v:
    "ci_validate E nonce (ResolveVersion (ca_version a)) (or_default (ca_channelID a) defaultChannelID) results s = (ss, err, t)"
    "ci_validate E nonce (ResolveVersion (ca_version a)) (or_default (ca_channelID a) defaultChannelID) results s' = (ss', err', t')" by (metis prod_cases3)
  then have "ss = ss'" "err = err'"
    using ci_validate_blind [OF assms(1,2), of nonce "ResolveVersion (ca_version a)" "or_default (ca_channelID a) defaultChannelID" results] by simp_all
  then show "fst (ci_finish E nonce (a\<lparr>ca_user := u\<rparr>) results s) = fst (ci_finish E nonce a results s')"
    "fst (snd (ci_finish E nonce (a\<lparr>ca_user := u\<rparr>) results s)) = fst (snd (ci_finish E nonce a results s'))"
    unfolding ci_finish_def ca_user_fields ci_inputs_user [OF assms(3,4)] v Let_def by (cases ss'; cases err'; simp)+
qed

text \<open>The report and the error of a run are the same for every registry account: of the credentials they show no more than whether there
  are any, provided the engine does not repeat the account in its answers.\<close>

theorem ci_report_hides_account:
  assumes "account_blind E" "ca_user a \<noteq> []" "u \<noteq> []"
  shows "fst (Ci E rnd (a\<lparr>ca_user := u\<rparr>) s) = fst (Ci E rnd a s) \<and> fst (snd (Ci E rnd (a\<lparr>ca_user := u\<rparr>) s)) = fst (snd (Ci E rnd a s))"
proof -
  let ?B = "\<lambda>u. buildAndPushAll (engine.truncate E) allComponents (ResolveVersion (ca_version a)) (or_default (ca_registry a) defaultRegistry)
       (or_default (ca_repository a) defaultRepository) u (ca_pushLatest a) (ca_skipPush a) (cs_trace s)"
  have t: "eg_publish (engine.truncate E) = eg_publish E" by (simp add: engine.truncate_def)
  have "account_blind (engine.truncate E)" using assms(1) unfolding account_blind_def t .
  from all_blind [OF this refl] have "same_outcome (?B (ca_user a)) (?B u)" by blast
  then obtain r t t' where b: "?B (ca_user a) = (r, t)" "?B u = (r, t')" "map erase t = map erase t'"
    by (cases "?B (ca_user a)"; cases "?B u") (auto simp: same_outcome_def)
  have "erased (s\<lparr>cs_trace := t'\<rparr>) = erased (s\<lparr>cs_trace := t\<rparr>)" using b(3) by (simp add: erased_def)
  note f = ci_finish_blind [OF assms(1) this assms(2,3)]
  show ?thesis unfolding Ci_def ca_user_fields ci_inputs_user [OF assms(2,3)] Let_def b
    using assms(2,3) f by (cases "NewRunNonce rnd"; cases r) (simp_all split: option.split)
qed

end
