(* ===== verification/Spec2Isabelle.thy ===== *)
theory Spec2Isabelle
  imports Events ClientRelay ClientSafety Replay Oidc Urls TlsReload PipelineCi
begin

text \<open>
  \<^bold>\<open>gohookbridge\<close> receives webhooks over HTTP, protects them per channel, and forwards them to clients
  that hold an event stream open. The server is replicated: its configuration (channels, users,
  roles, settings) is a key-value store behind a Raft log, and its messages travel through an
  embedded broker with a replay ring. This development models the server, its client and its proxy in HOL,
  translated from the Go sources, and proves what the parts promise each other.

  \<^bold>\<open>Parts and theories.\<close>

  \<^item> \<open>Prelude\<close>: the generic library: ordered association lists for buckets and Go maps (\<open>kv\<close>), strings,
    big-endian bytes, the wrap-around of \<open>int64\<close>, instants and durations, results as sums, and the
    locales of the interfaces (stores with put/get laws, write-all runs).
  \<^item> \<open>Encoding\<close>, \<open>JsonText\<close>: base64, hex and UTF-8 as the standard library defines them; JSON values,
    their text and its parser, with the round trip the stores rely on.
  \<^item> \<open>Primitives\<close>: the cryptographic packages outside the repository (AES-GCM, NaCl box, SHA-256, HMAC,
    bcrypt, HKDF) as a record of functions with their laws as named predicates, and a toy instance
    that shows the laws can hold together.
  \<^item> \<open>Domain\<close> (\<open>internal/domain\<close>): the records, their JSON field tables with the decoder's behaviour on
    missing and repeated fields, default roles, channel migration and resolution.
  \<^item> \<open>Bolt\<close> (\<open>repository/bolt.go\<close>): the log store, the stable store and the FSM bucket of the database
    file, with failing transactions as fields of the database state.
  \<^item> \<open>Fsm\<close> (\<open>repository/fsm.go\<close>): the commands of the replicated log, snapshot and restore.
  \<^item> \<open>CryptoKeeper\<close> (\<open>repository/cryptokeeper.go\<close>): at-rest encryption with key identifiers.
  \<^item> \<open>RaftStore\<close>, \<open>RaftAuth\<close> (\<open>repository/raft.go\<close>, \<open>repository/migrate.go\<close>): the repository operations. A
    write goes through \<open>Apply\<close>: the node must be leader, the Raft library (a field of the state that
    says how the call ends) must commit, and then the command runs on the FSM; a read looks at the
    local bucket.
  \<^item> \<open>StoreFrame\<close>: what a repository write may change, as the locale \<open>store_write\<close>: it keeps the node, its
    keys and every entry outside its own keys. Each write of the repository and of the services on
    top of it is an interpretation, so the API proofs never look inside a write.
  \<^item> \<open>Session\<close>, \<open>Authorization\<close>, \<open>ChannelService\<close>, \<open>Publish\<close> (\<open>internal/service\<close>): cookies and the session
    epoch, the permission decision and delegation, effective channel settings and access tokens,
    encryption of events for their channel.
  \<^item> \<open>Envelope\<close> (\<open>pkg/crypto\<close>, \<open>pkg/encryption\<close>): the envelopes of encrypted events.
  \<^item> \<open>RateLimit\<close> (\<open>service/ratelimit.go\<close>): request limiter, login throttle, ban tracker, client address.
  \<^item> \<open>RingBuffer\<close>, \<open>Broker\<close> (\<open>pkg/nats\<close>): the replay ring and the fan-out to bounded subscriber queues.
    Payloads are addresses in a heap, because the ring and the queues share them and eviction
    overwrites them.
  \<^item> \<open>Http\<close>: requests, responses and the state of the running server: the store, the ban tracker, the
    limiters, the address cache and the broker.
  \<^item> \<open>Middleware\<close> (\<open>handler/middleware.go\<close>, \<open>ratelimit.go\<close>, \<open>security.go\<close>, \<open>leader_forward.go\<close>): the guards
    of the routers. The locale \<open>guard\<close> states what a guard is: it either answers by itself or calls
    the next handler, decided by a predicate on the request and the state, and it never changes the
    stored data; each guard interprets it with its own predicate.
  \<^item> \<open>Webhook\<close> (\<open>handler/webhook.go\<close>, the router of \<open>server.go\<close>): ingestion of webhooks behind the guards.
  \<^item> \<open>Events\<close> (\<open>handler/events.go\<close>): the event stream as a run over the stimuli of its \<open>select\<close> loop.
  \<^item> \<open>Login\<close> (\<open>handler/auth.go\<close>): password login, session guards and logout.
  \<^item> \<open>Api\<close> (\<open>handler/api.go\<close>, \<open>handler/dto.go\<close>): every call of the management API as a function from the
    request to the reply and the new state, and the routes with their permissions.
  \<^item> \<open>ApiAccess\<close>: the area of keys of each call, and that no call leaves its area.
  \<^item> \<open>ApiUsers\<close>: accounts under sequences of calls: authorization of changes, delegation, and the last
    administrator, also when two deletions interleave.
  \<^item> \<open>Cluster\<close> (\<open>repository/raft_discovery.go\<close>, the node part of \<open>raft.go\<close>): peer discovery, the choice of
    the seeding node, membership reconciliation and the join loop. Go ranges over maps in any
    order: the orders are arguments. The Raft library is a record of functions; \<open>membership_lib\<close>
    says what it promises.
  \<^item> \<open>Oidc\<close> (\<open>handler/oidc.go\<close>): discovery, login and callback of the OIDC providers. The provider, the verifier
    of tokens and URL parsing are the record \<open>oidc_net\<close>; the redirect of \<open>net/http\<close> and the bytes a
    cookie may carry are modelled, because the redirect after the login depends on them.
  \<^item> \<open>Bootstrap\<close> (\<open>repository/bootstrap.go\<close>, \<open>server/bootstrap_secrets.go\<close>): the bootstrap file from the
    decoded configuration to the replicated command.
  \<^item> \<open>Assembly\<close> (\<open>server/server.go\<close>): the routers of the two listeners, built from the guards and the API.
  \<^item> \<open>Startup\<close> (\<open>server/server.go\<close>, \<open>k8s.go\<close>, \<open>raft_generation.go\<close>, \<open>atrest.go\<close>, \<open>migrate.go\<close>): the decisions of
    a start. Consecutive starts of a node thread the shared secret and the local file.
  \<^item> \<open>RaftTls\<close> (\<open>repository/raft_tls.go\<close>, \<open>raft_streamlayer.go\<close>, \<open>server/raft_tls.go\<close>): certificates of the Raft
    transport and dialling. X.509 and the certificate library are the record \<open>pki\<close>.
  \<^item> \<open>TlsReload\<close> (\<open>pkg/tlsreload\<close>): hot reload of certificates over any sequence of looks at the files.
  \<^item> \<open>Proxy\<close> (\<open>internal/proxy\<close>): the encrypting proxy and the producer.
  \<^item> \<open>Urls\<close> (\<open>handler/logging.go\<close>, \<open>pkg/urlutil\<close>, \<open>web/handler.go\<close>): the query functions of \<open>net/url\<close>, and what the
    logs show of a query; the pages of the web interface.
  \<^item> \<open>Pipeline\<close>, \<open>PipelineCi\<close> (\<open>dagger/gohookbridge\<close>): versions, building and publishing of the images over an
    engine whose publications are a trace, the values and the kubeconfig of the validation cluster, and
    the task \<open>Ci\<close> with its checks and its report.
  \<^item> \<open>Client\<close>, \<open>ClientRun\<close> (\<open>client/client.go\<close>): parsing of a relayed message, and the callback of the
    event stream with its effects on a world of files, outgoing requests and started commands.
  \<^item> \<open>ClientRelay\<close>: a webhook from the endpoint of the server to the target of the client.
  \<^item> \<open>ClientSafety\<close>: what a hostile message cannot make the client do.
  \<^item> \<open>Replay\<close> (\<open>client/replay.go\<close>): replaying the deliveries of a GitHub hook.

  \<^bold>\<open>How code becomes definitions.\<close> A definition carries the name of the Go function it translates
  (\<open>svc_\<close> in front where service and repository share a name). Errors are values of the type \<open>error\<close> in
  the left part of a sum, or \<open>Some\<close> of an operation that returns only an error. Mutexes are not
  modelled: each exported method that holds its lock for its whole body is one atomic function.
  Time is an argument. Random bytes are an argument of type \<open>string option\<close>, \<open>None\<close> for a failing
  source. Go maps and buckets are key-sorted association lists; where Go iterates a map in an
  unspecified order, the model uses the sorted one and the theorems do not depend on it. Go strings
  are byte strings, \<open>int\<close> values that cannot reach their bounds are HOL integers, and counters whose
  wrap-around is visible (log indexes, the session epoch, durations) keep their width.

  \<^bold>\<open>Termination.\<close> All loops are structural recursion, except two written with
  \<open>partial_function (option)\<close>: \<open>DeleteRange\<close>, which really does not return for the largest upper bound,
  and the eviction loop of the ring, which is proved to return.

  \<^bold>\<open>What is shown.\<close> The log and the state machine: C1, C2, C3, C39. The
  repository as a map with sealed secrets and secondary indexes: C4, C14, C40. Access decisions,
  sessions and delegation: C5, C13, C24, C25, C26, C27. The management API: who changes what, and
  what no call can do: C10, C17, C18, C19. The path of a webhook through the guards to the broker,
  and of a message to the client: C8, C9, C11, C12, C23, C38. Encryption of events: C15. Limits
  under load: C6, C7, C16, C28. The client and the proxy: what they forward, save and run: C29, C30,
  C31, C37. Forming the cluster: C32, C33. Starting a node and its transport: C20, C21, C22, C34,
  C35, C36.

  \<^bold>\<open>Not modelled.\<close> The Raft library and the embedded NATS server; sockets, process signals and the
  timers that drive the loops (a loop is a run over its ticks); log lines other than what they show of
  a query; the flag tables of the commands; of the build pipeline the containers in which its tools
  run, and its client library, which is generated.
\<close>

end
